(* ===== verification/Prelude.thy ===== *)
theory Prelude
  imports Main
begin

text \<open>
  Shared ground of the development: Python's strings and the string methods the program calls,
  insertion-ordered de-duplication, decimal printing, and keyed tables of rows.

  Alphabet. A Python \<open>str\<close> is a list of code points; here it is a HOL \<open>string\<close> whose 256
  characters stand for the characters of Windows-1252: the code points below 128 and from 160 to
  255 are their own code, and the codes 128 to 159 are the typographic characters of that table
  (133 the ellipsis, 151 the em dash). So one \<open>char\<close> is one code point, \<open>length\<close> is Python's
  \<open>len\<close>, and the Spanish prose of the program is written exactly. Characters outside the table
  (emoji, other scripts) are outside the model.
\<close>

section \<open>Collections of facts\<close>

named_theorems text_simps \<open>unfolding of the string helpers on literals\<close>
named_theorems row_simps \<open>lookups after insertions and updates of tables\<close>
named_theorems count_bounds \<open>upper bounds on word counts\<close>

type_synonym exn_name = string

section \<open>Characters\<close>

definition code :: "char \<Rightarrow> nat" where
  "code c = of_char c"

definition is_space :: "char \<Rightarrow> bool" where
  "is_space c \<longleftrightarrow> code c \<in> {9, 10, 11, 12, 13, 28, 29, 30, 31, 32, 160}"

definition is_digit :: "char \<Rightarrow> bool" where
  \<comment> \<open>\<open>str.isdigit\<close> also accepts the superscripts two, three and one.\<close>
  "is_digit c \<longleftrightarrow> (48 \<le> code c \<and> code c \<le> 57) \<or> code c \<in> {178, 179, 185}"

definition is_plain :: "char \<Rightarrow> bool" where
  \<comment> \<open>the class \<open>[a-z0-9]\<close>\<close>
  "is_plain c \<longleftrightarrow> (48 \<le> code c \<and> code c \<le> 57) \<or> (97 \<le> code c \<and> code c \<le> 122)"

definition lower_char :: "char \<Rightarrow> char" where
  "lower_char c =
     (if (65 \<le> code c \<and> code c \<le> 90) \<or> (192 \<le> code c \<and> code c \<le> 222 \<and> code c \<noteq> 215)
      then char_of (code c + 32)
      else if code c = 138 then char_of (154::nat)
      else if code c = 140 then char_of (156::nat)
      else if code c = 142 then char_of (158::nat)
      else if code c = 159 then char_of (255::nat)
      else c)"

definition str_lower :: "string \<Rightarrow> string" where
  "str_lower s = map lower_char s"

definition casefold_char :: "char \<Rightarrow> string" where
  "casefold_char c = (if code c = 223 then ''ss'' else [lower_char c])"

definition casefold :: "string \<Rightarrow> string" where
  "casefold s = concat (map casefold_char s)"

lemmas char_simps [text_simps] =
  code_def is_space_def is_digit_def is_plain_def lower_char_def casefold_char_def

lemma is_space_blank [simp]: "is_space (CHR '' '')"
  by (simp add: text_simps)

lemma is_space_newline [simp]: "is_space (CHR 0x0A)"
  by (simp add: text_simps)

section \<open>Splitting and joining on white space\<close>

fun split_from :: "string \<Rightarrow> string \<Rightarrow> string list" where
  "split_from cur [] = (if cur = [] then [] else [cur])"
| "split_from cur (c # cs) =
     (if is_space c
      then (if cur = [] then split_from [] cs else cur # split_from [] cs)
      else split_from (cur @ [c]) cs)"

definition str_split :: "string \<Rightarrow> string list" where
  \<comment> \<open>\<open>str.split()\<close>\<close>
  "str_split s = split_from [] s"

definition str_lstrip :: "string \<Rightarrow> string" where
  "str_lstrip s = dropWhile is_space s"

definition str_rstrip :: "string \<Rightarrow> string" where
  "str_rstrip s = rev (dropWhile is_space (rev s))"

definition str_strip :: "string \<Rightarrow> string" where
  "str_strip s = str_rstrip (str_lstrip s)"

definition rstrip_char :: "char \<Rightarrow> string \<Rightarrow> string" where
  \<comment> \<open>\<open>str.rstrip\<close> of a single given character\<close>
  "rstrip_char c s = rev (dropWhile (\<lambda>d. d = c) (rev s))"

fun str_join :: "string \<Rightarrow> string list \<Rightarrow> string" where
  "str_join sep [] = []"
| "str_join sep [x] = x"
| "str_join sep (x # y # zs) = x @ sep @ str_join sep (y # zs)"

text \<open>The number of words, counted without building them: a word starts at a character that is
  not white space and follows white space (or the start of the text).\<close>

fun words_from :: "bool \<Rightarrow> string \<Rightarrow> nat" where
  "words_from b [] = 0"
| "words_from b (c # cs) =
     (if is_space c then words_from True cs
      else (if b then 1 else 0) + words_from False cs)"

definition word_count :: "string \<Rightarrow> nat" where
  "word_count s = length (str_split s)"

fun ends_blank :: "bool \<Rightarrow> string \<Rightarrow> bool" where
  "ends_blank b [] = b"
| "ends_blank b (c # cs) = ends_blank (is_space c) cs"

lemma length_split_from:
  "length (split_from cur s) = (if cur = [] then 0 else 1) + words_from (cur = []) s"
  by (induction cur s rule: split_from.induct) auto

lemma word_count_words_from: "word_count s = words_from True s"
  by (simp add: word_count_def str_split_def length_split_from)

lemma words_from_append:
  "words_from b (xs @ ys) = words_from b xs + words_from (ends_blank b xs) ys"
  by (induction xs arbitrary: b) auto

lemma words_from_le: "words_from b s \<le> words_from True s"
  by (cases s) (cases b, auto)

lemma words_from_ge: "words_from True s \<le> Suc (words_from b s)"
  by (cases s) (cases b, auto)

lemma word_count_append [count_bounds]: "word_count (xs @ ys) \<le> word_count xs + word_count ys"
  using words_from_le by (simp add: word_count_words_from words_from_append)

lemma word_count_Nil [simp]: "word_count [] = 0"
  by (simp add: word_count_words_from)

lemma word_count_append_space:
  assumes "is_space c"
  shows "word_count (xs @ c # ys) = word_count xs + word_count ys"
  using assms by (simp add: word_count_words_from words_from_append)

lemma word_count_Cons_space: "is_space c \<Longrightarrow> word_count (c # ys) = word_count ys"
  by (simp add: word_count_words_from)

lemma word_count_Cons_le: "word_count (c # ys) \<le> Suc (word_count ys)"
  using words_from_le [of False ys] by (simp add: word_count_words_from)

lemma word_count_prefix: "word_count xs \<le> word_count (xs @ ys)"
  by (simp add: word_count_words_from words_from_append)

lemma word_count_suffix: "word_count ys \<le> Suc (word_count (xs @ ys))"
  using words_from_ge [of ys "ends_blank True xs"]
  by (simp add: word_count_words_from words_from_append)

lemma word_count_drop_spaces:
  "word_count (dropWhile is_space s) = word_count s"
  by (induction s) (auto simp: word_count_Cons_space)

lemma words_from_all_space: "(\<forall>c \<in> set s. is_space c) \<Longrightarrow> words_from b s = 0"
  by (induction s arbitrary: b) auto

lemma words_from_append_spaces:
  "(\<forall>c \<in> set ys. is_space c) \<Longrightarrow> words_from b (xs @ ys) = words_from b xs"
  by (simp add: words_from_append words_from_all_space)

lemma rstrip_decompose: "\<exists>t. s = str_rstrip s @ t \<and> (\<forall>c \<in> set t. is_space c)"
proof -
  have "rev s = takeWhile is_space (rev s) @ dropWhile is_space (rev s)" by simp
  then have "s = rev (dropWhile is_space (rev s)) @ rev (takeWhile is_space (rev s))"
    by (metis rev_append rev_rev_ident)
  then show ?thesis
    unfolding str_rstrip_def by (metis set_rev set_takeWhileD)
qed

lemma word_count_rstrip: "word_count (str_rstrip s) = word_count s"
proof -
  obtain t where "s = str_rstrip s @ t" "\<forall>c \<in> set t. is_space c"
    using rstrip_decompose by blast
  then have "words_from True s = words_from True (str_rstrip s)"
    by (metis words_from_append_spaces)
  then show ?thesis by (simp add: word_count_words_from)
qed

lemma word_count_strip [simp]: "word_count (str_strip s) = word_count s"
  by (simp add: str_strip_def word_count_rstrip str_lstrip_def word_count_drop_spaces)

lemma word_count_join_blank:
  assumes "is_space c"
  shows "word_count (str_join [c] xs) = sum_list (map word_count xs)"
proof (induction xs)
  case (Cons x xs)
  then show ?case by (cases xs) (auto simp: word_count_append_space [OF assms])
qed simp

lemma word_count_join_le:
  "word_count (str_join sep xs) \<le> sum_list (map word_count xs) + (length xs - 1) * word_count sep"
proof (induction sep xs rule: str_join.induct)
  case (3 sep x y zs)
  have "word_count (x @ sep @ str_join sep (y # zs))
    \<le> word_count x + (word_count sep + word_count (str_join sep (y # zs)))"
    by (meson word_count_append add_left_mono order_trans)
  with 3 show ?case by simp
qed simp_all

lemma split_from_nonblank:
  "(\<forall>c \<in> set cur. \<not> is_space c) \<Longrightarrow> w \<in> set (split_from cur s)
   \<Longrightarrow> w \<noteq> [] \<and> (\<forall>c \<in> set w. \<not> is_space c)"
proof (induction cur s rule: split_from.induct)
  case (1 cur)
  then show ?case by (cases "cur = []") simp_all
next
  case (2 cur c cs)
  show ?case
  proof (cases "is_space c")
    case True
    with 2 show ?thesis by (cases "cur = []") fastforce+
  next
    case False
    with "2.prems" have "\<forall>d \<in> set (cur @ [c]). \<not> is_space d" "w \<in> set (split_from (cur @ [c]) cs)"
      by simp_all
    then show ?thesis by (rule "2.IH" (3) [OF False])
  qed
qed

lemma str_split_nonblank:
  "w \<in> set (str_split s) \<Longrightarrow> w \<noteq> [] \<and> (\<forall>c \<in> set w. \<not> is_space c)"
  unfolding str_split_def by (rule split_from_nonblank) auto

lemma words_from_nonblank:
  "w \<noteq> [] \<Longrightarrow> (\<forall>c \<in> set w. \<not> is_space c) \<Longrightarrow> words_from b w = (if b then 1 else 0)"
proof (induction w arbitrary: b)
  case (Cons c w)
  then show ?case by (cases w) auto
qed simp

lemma word_count_single: "w \<in> set (str_split s) \<Longrightarrow> word_count w = 1"
proof -
  assume "w \<in> set (str_split s)"
  then have "w \<noteq> []" "\<forall>c \<in> set w. \<not> is_space c"
    using str_split_nonblank by blast+
  then have "words_from True w = (if True then 1 else 0)" by (rule words_from_nonblank)
  then show ?thesis by (simp add: word_count_words_from)
qed

lemma sum_single_words:
  "(\<forall>w \<in> set ws. word_count w = 1) \<Longrightarrow> sum_list (map word_count ws) = length ws"
  by (induction ws) auto

lemma sum_list_le_const: "(\<forall>x \<in> set xs. f x \<le> (n::nat)) \<Longrightarrow> sum_list (map f xs) \<le> length xs * n"
  by (induction xs) auto

lemma word_count_rejoin: "word_count (str_join '' '' (str_split s)) = word_count s"
proof -
  have "sum_list (map word_count (str_split s)) = length (str_split s)"
    by (rule sum_single_words) (auto simp: word_count_single)
  then show ?thesis
    by (simp only: word_count_join_blank [OF is_space_blank]) (simp add: word_count_def)
qed

lemma word_count_take_words:
  "word_count (str_join '' '' (take n (str_split s))) = min n (word_count s)"
proof -
  have "sum_list (map word_count (take n (str_split s))) = length (take n (str_split s))"
    by (rule sum_single_words) (auto simp: word_count_single dest: in_set_takeD)
  then show ?thesis
    by (simp only: word_count_join_blank [OF is_space_blank])
      (simp add: word_count_def min.commute)
qed

section \<open>Prefixes, substrings, lines\<close>

definition starts_with :: "string \<Rightarrow> string \<Rightarrow> bool" where
  "starts_with p s \<longleftrightarrow> take (length p) s = p"

definition ends_with :: "string \<Rightarrow> string \<Rightarrow> bool" where
  "ends_with p s \<longleftrightarrow> length p \<le> length s \<and> drop (length s - length p) s = p"

fun contains :: "string \<Rightarrow> string \<Rightarrow> bool" where
  \<comment> \<open>Python's \<open>needle in hay\<close> on strings\<close>
  "contains p [] = (p = [])"
| "contains p (c # cs) = (starts_with p (c # cs) \<or> contains p cs)"

lemma contains_iff: "contains p s \<longleftrightarrow> (\<exists>a b. s = a @ p @ b)"
proof (induction s)
  case (Cons c cs)
  note IH = this
  have pre: "starts_with p (c # cs) \<longleftrightarrow> (\<exists>b. c # cs = p @ b)"
    unfolding starts_with_def by (metis append_eq_conv_conj append_take_drop_id)
  show ?case
  proof
    assume "contains p (c # cs)"
    then show "\<exists>a b. c # cs = a @ p @ b"
      using pre IH by (metis append_Cons append_Nil contains.simps(2))
  next
    assume "\<exists>a b. c # cs = a @ p @ b"
    then obtain a b where ab: "c # cs = a @ p @ b" by blast
    show "contains p (c # cs)"
    proof (cases a)
      case Nil
      with ab have "c # cs = p @ b" by simp
      then have "starts_with p (c # cs)" using pre by blast
      then show ?thesis by simp
    next
      case (Cons d ds)
      with ab have "cs = ds @ p @ b" by simp
      then have "contains p cs" using IH by blast
      then show ?thesis by simp
    qed
  qed
qed auto

fun split_on :: "char \<Rightarrow> string \<Rightarrow> string list" where
  \<comment> \<open>\<open>str.split(c)\<close> for a one-character separator\<close>
  "split_on d [] = [[]]"
| "split_on d (c # cs) =
     (if c = d then [] # split_on d cs
      else (case split_on d cs of [] \<Rightarrow> [[c]] | w # ws \<Rightarrow> (c # w) # ws))"

lemma split_on_nonempty [simp]: "split_on d s \<noteq> []"
  by (cases s) (auto split: list.splits)

fun split_lines :: "string \<Rightarrow> string list" where
  \<comment> \<open>\<open>str.splitlines()\<close> for texts whose only line boundary is the newline\<close>
  "split_lines s = (case rev (split_on (CHR 0x0A) s) of
     [] \<Rightarrow> [] | w # ws \<Rightarrow> (if w = [] then rev ws else rev (w # ws)))"

section \<open>Insertion-ordered de-duplication\<close>

fun fromkeys :: "'a list \<Rightarrow> 'a list" where
  \<comment> \<open>\<open>list(dict.fromkeys(xs))\<close>: first occurrences, in order\<close>
  "fromkeys [] = []"
| "fromkeys (x # xs) = x # filter (\<lambda>y. y \<noteq> x) (fromkeys xs)"

lemma set_fromkeys [simp]: "set (fromkeys xs) = set xs"
  by (induction xs) auto

lemma distinct_fromkeys [simp]: "distinct (fromkeys xs)"
  by (induction xs) auto

lemma length_fromkeys_le: "length (fromkeys xs) \<le> length xs"
  by (induction xs) (auto intro: le_trans [OF length_filter_le])

lemma fromkeys_eq_Nil [simp]: "fromkeys xs = [] \<longleftrightarrow> xs = []"
  by (cases xs) auto

lemma fromkeys_distinct: "distinct xs \<Longrightarrow> fromkeys xs = xs"
  by (induction xs) (auto simp: filter_id_conv)

section \<open>Decimal printing\<close>

definition digit_char :: "nat \<Rightarrow> char" where
  "digit_char d = char_of (48 + d)"

fun show_nat :: "nat \<Rightarrow> string" where
  "show_nat n = (if n < 10 then [digit_char n] else show_nat (n div 10) @ [digit_char (n mod 10)])"

declare show_nat.simps [simp del]

definition show_int :: "int \<Rightarrow> string" where
  "show_int i = (if i < 0 then CHR ''-'' # show_nat (nat (- i)) else show_nat (nat i))"

definition zero_pad :: "nat \<Rightarrow> string \<Rightarrow> string" where
  \<comment> \<open>the format \<open>0<w>d\<close> of a natural number already printed\<close>
  "zero_pad w s = replicate (w - length s) (CHR ''0'') @ s"

definition digit_val :: "char \<Rightarrow> nat" where
  "digit_val c = code c - 48"

definition read_nat :: "string \<Rightarrow> nat" where
  "read_nat s = foldl (\<lambda>acc c. 10 * acc + digit_val c) 0 s"

lemma digit_val_char: "d < 10 \<Longrightarrow> digit_val (digit_char d) = d"
  by (simp add: digit_val_def digit_char_def code_def)

lemma read_show_nat: "read_nat (show_nat n) = n"
proof (induction n rule: show_nat.induct)
  case (1 n)
  show ?case
  proof (cases "n < 10")
    case True
    then show ?thesis by (simp add: show_nat.simps [of n] read_nat_def digit_val_char)
  next
    case False
    with 1 have "read_nat (show_nat (n div 10)) = n div 10" by simp
    with False show ?thesis
      by (simp add: show_nat.simps [of n] read_nat_def digit_val_char)
  qed
qed

lemma read_zero_pad: "read_nat (zero_pad w s) = read_nat s"
proof -
  have "foldl (\<lambda>acc c. 10 * acc + digit_val c) 0 (replicate k (CHR ''0'')) = 0" for k
    by (induction k) (auto simp: digit_val_def code_def)
  then show ?thesis by (simp add: zero_pad_def read_nat_def)
qed

lemma zero_pad_show_inject:
  "zero_pad w (show_nat m) = zero_pad w (show_nat n) \<longleftrightarrow> m = n"
  by (metis read_show_nat read_zero_pad)

lemma show_nat_inject: "show_nat m = show_nat n \<longleftrightarrow> m = n"
  by (metis read_show_nat)

section \<open>Tables of rows with an integer key\<close>

text \<open>
  A database table is the list of its rows in insertion order. \<open>row_get\<close> is a lookup by primary
  key, \<open>row_upd\<close> the update of one row, and a row is inserted by appending it. Functions that
  update a row never change its key (\<open>keeps\<close>).
\<close>

definition row_get :: "('r \<Rightarrow> nat) \<Rightarrow> 'r list \<Rightarrow> nat \<Rightarrow> 'r option" where
  "row_get key rows i = List.find (\<lambda>r. key r = i) rows"

definition row_upd :: "('r \<Rightarrow> nat) \<Rightarrow> nat \<Rightarrow> ('r \<Rightarrow> 'r) \<Rightarrow> 'r list \<Rightarrow> 'r list" where
  "row_upd key i f rows = map (\<lambda>r. if key r = i then f r else r) rows"

definition keeps :: "('r \<Rightarrow> nat) \<Rightarrow> ('r \<Rightarrow> 'r) \<Rightarrow> bool" where
  "keeps key f \<longleftrightarrow> (\<forall>r. key (f r) = key r)"

lemma row_get_Nil [simp]: "row_get key [] i = None"
  by (simp add: row_get_def)

lemma row_get_Cons [simp]:
  "row_get key (r # rs) i = (if key r = i then Some r else row_get key rs i)"
  by (simp add: row_get_def)

lemma row_get_append [row_simps]:
  "row_get key (xs @ ys) i =
     (case row_get key xs i of None \<Rightarrow> row_get key ys i | Some r \<Rightarrow> Some r)"
  by (induction xs) auto

lemma row_get_upd [row_simps]:
  "keeps key f \<Longrightarrow>
   row_get key (row_upd key j f rows) i =
     (if i = j then map_option f (row_get key rows i) else row_get key rows i)"
  by (induction rows) (auto simp: row_upd_def keeps_def)

lemma row_get_Some: "row_get key rows i = Some r \<Longrightarrow> r \<in> set rows \<and> key r = i"
  by (induction rows) (auto split: if_splits)

lemma row_get_None_iff: "row_get key rows i = None \<longleftrightarrow> i \<notin> key ` set rows"
  by (induction rows) auto

lemma row_get_mem: "distinct (map key rows) \<Longrightarrow> r \<in> set rows \<Longrightarrow> row_get key rows (key r) = Some r"
  by (induction rows) (auto simp: image_iff)

lemma keys_row_upd [row_simps]: "keeps key f \<Longrightarrow> map key (row_upd key j f rows) = map key rows"
  by (induction rows) (auto simp: row_upd_def keeps_def)

lemma map_row_upd:
  "(\<forall>r \<in> set rows. key r = j \<longrightarrow> g (f r) = g r) \<Longrightarrow> map g (row_upd key j f rows) = map g rows"
  by (induction rows) (auto simp: row_upd_def)

lemma set_row_upd: "r \<in> set (row_upd key j f rows) \<Longrightarrow>
  \<exists>r0 \<in> set rows. r = (if key r0 = j then f r0 else r0)"
  by (auto simp: row_upd_def)

lemma length_row_upd [simp]: "length (row_upd key j f rows) = length rows"
  by (simp add: row_upd_def)

section \<open>Invariants of step relations\<close>

locale preserving =
  fixes step :: "'s \<Rightarrow> 's \<Rightarrow> bool" and good :: "'s \<Rightarrow> bool"
  assumes step_good: "good s \<Longrightarrow> step s t \<Longrightarrow> good t"
begin

lemma steps_good: "step\<^sup>*\<^sup>* s t \<Longrightarrow> good s \<Longrightarrow> good t"
  by (induction rule: rtranclp_induct) (auto intro: step_good)

end

end
