(* ===== verification/Config.thy ===== *)
theory Config
  imports Prelude
begin

text \<open>
  Process configuration (\<open>config.py\<close>): the settings the modelled code reads, their declared
  bounds, the parsing of the global mode and the derived readiness properties. Settings come from
  the environment through pydantic-settings; a \<open>app_config\<close> is the object after that reading, and
  \<open>config_valid\<close> is the conjunction of the bounds pydantic enforces on construction.
\<close>

datatype global_mode = Mode_off | Mode_enabled

datatype readiness_profile = Foundation | Pilot

definition validate_mode :: "string \<Rightarrow> exn_name + string" where
  "validate_mode value =
     (if value \<in> {''shadow'', ''apply''} then Inl ''ValueError'' else Inr value)"

definition global_mode_missing :: "string \<Rightarrow> global_mode option" where
  "global_mode_missing value = (if value = ''review'' then Some Mode_enabled else None)"

definition global_mode_of :: "string \<Rightarrow> exn_name + global_mode" where
  \<comment> \<open>the enum call, after the field's before-validator\<close>
  "global_mode_of raw =
     (case validate_mode raw of
        Inl e \<Rightarrow> Inl e
      | Inr value \<Rightarrow>
          (if value = ''off'' then Inr Mode_off
           else if value = ''enabled'' then Inr Mode_enabled
           else case global_mode_missing value of
                  Some m \<Rightarrow> Inr m
                | None \<Rightarrow> Inl ''ValueError''))"

record app_config =
  environment :: string
  database_url :: string
  read_replica_url :: string
  allow_non_replica_readonly_db :: bool
  sql_max_connections :: int
  sql_max_output_bytes :: int
  slack_bot_token :: string
  slack_app_token :: string
  azure_openai_endpoint :: string
  azure_openai_api_key :: string
  azure_deployment_main :: string
  azure_deployment_small :: string
  azure_openai_use_responses :: bool
  provider_request_timeout_seconds :: int
  general_max_words :: int
  cfg_global_mode :: global_mode
  max_agent_turns :: int
  sql_max_rows :: int
  max_images :: int
  max_image_bytes :: int
  max_image_pixels :: int
  slack_file_timeout_seconds :: int
  slack_image_batch_timeout_seconds :: int
  slack_delivery_max_attempts :: int
  cfg_readiness_profile :: readiness_profile
  worker_concurrency :: int
  runtime_heartbeat_seconds :: int
  runtime_stale_seconds :: int
  crm_finops_base_url :: string
  external_tracing_enabled :: bool
  bank_ingestion_enabled :: bool
  bank_ingestion_issuer :: string
  bank_ingestion_audience :: string
  bank_ingestion_client_id :: string
  bank_ingestion_jwks_url :: string
  bank_ingestion_leeway_seconds :: int
  bank_ingestion_max_body_bytes :: int

definition within :: "int \<Rightarrow> int \<Rightarrow> int \<Rightarrow> bool" where
  "within lo hi x \<longleftrightarrow> lo \<le> x \<and> x \<le> hi"

definition config_valid :: "app_config \<Rightarrow> bool" where
  "config_valid c \<longleftrightarrow>
     within 1 10 (sql_max_connections c) \<and>
     within 4096 262144 (sql_max_output_bytes c) \<and>
     within 10 900 (provider_request_timeout_seconds c) \<and>
     within 40 500 (general_max_words c) \<and>
     within 2 30 (max_agent_turns c) \<and>
     within 1 1000 (sql_max_rows c) \<and>
     within 1 10 (max_images c) \<and>
     1024 \<le> max_image_bytes c \<and>
     within 1 100000000 (max_image_pixels c) \<and>
     within 1 60 (slack_file_timeout_seconds c) \<and>
     within 1 120 (slack_image_batch_timeout_seconds c) \<and>
     within 1 10 (slack_delivery_max_attempts c) \<and>
     within 1 8 (worker_concurrency c) \<and>
     within 5 60 (runtime_heartbeat_seconds c) \<and>
     within 15 300 (runtime_stale_seconds c) \<and>
     within 0 300 (bank_ingestion_leeway_seconds c) \<and>
     within 1024 1048576 (bank_ingestion_max_body_bytes c)"

definition default_config :: app_config where
  "default_config = \<lparr>
     environment = ''local'',
     database_url = ''postgresql://cerebro@127.0.0.1:5432/cerebro'',
     read_replica_url = '''',
     allow_non_replica_readonly_db = False,
     sql_max_connections = 5,
     sql_max_output_bytes = 65536,
     slack_bot_token = '''',
     slack_app_token = '''',
     azure_openai_endpoint = '''',
     azure_openai_api_key = '''',
     azure_deployment_main = ''gpt-5-6-sol'',
     azure_deployment_small = ''gpt-5-6-sol'',
     azure_openai_use_responses = True,
     provider_request_timeout_seconds = 180,
     general_max_words = 180,
     cfg_global_mode = Mode_off,
     max_agent_turns = 14,
     sql_max_rows = 200,
     max_images = 4,
     max_image_bytes = 8 * 1024 * 1024,
     max_image_pixels = 25000000,
     slack_file_timeout_seconds = 15,
     slack_image_batch_timeout_seconds = 30,
     slack_delivery_max_attempts = 3,
     cfg_readiness_profile = Foundation,
     worker_concurrency = 2,
     runtime_heartbeat_seconds = 15,
     runtime_stale_seconds = 45,
     crm_finops_base_url = ''https://tutu.ruuf.cl/account-receivables/crm-finops'',
     external_tracing_enabled = False,
     bank_ingestion_enabled = False,
     bank_ingestion_issuer = '''',
     bank_ingestion_audience = '''',
     bank_ingestion_client_id = '''',
     bank_ingestion_jwks_url = '''',
     bank_ingestion_leeway_seconds = 60,
     bank_ingestion_max_body_bytes = 65536\<rparr>"

definition replica_ready :: "app_config \<Rightarrow> bool" where
  "replica_ready c \<longleftrightarrow> read_replica_url c \<noteq> ''''"

definition live_agent_ready :: "app_config \<Rightarrow> bool" where
  "live_agent_ready c \<longleftrightarrow>
     (\<forall>s \<in> set [slack_bot_token c, slack_app_token c, azure_openai_endpoint c,
                azure_openai_api_key c, azure_deployment_main c, azure_deployment_small c,
                read_replica_url c]. s \<noteq> '''')"

definition azure_agent_ready :: "app_config \<Rightarrow> bool" where
  "azure_agent_ready c \<longleftrightarrow>
     azure_openai_endpoint c \<noteq> '''' \<and> azure_openai_api_key c \<noteq> '''' \<and>
     azure_deployment_main c \<noteq> '''' \<and> azure_deployment_small c \<noteq> ''''"

definition azure_agent_partially_configured :: "app_config \<Rightarrow> bool" where
  "azure_agent_partially_configured c \<longleftrightarrow>
     (let values = [azure_openai_endpoint c, azure_openai_api_key c]
      in (\<exists>v \<in> set values. v \<noteq> '''') \<and> \<not> (\<forall>v \<in> set values. v \<noteq> ''''))"

definition slack_ready :: "app_config \<Rightarrow> bool" where
  "slack_ready c \<longleftrightarrow> slack_bot_token c \<noteq> '''' \<and> slack_app_token c \<noteq> ''''"

definition bank_ingestion_jwks_uri :: "app_config \<Rightarrow> string" where
  "bank_ingestion_jwks_uri c =
     (if bank_ingestion_jwks_url c \<noteq> '''' then bank_ingestion_jwks_url c
      else if bank_ingestion_issuer c = '''' then ''''
      else rstrip_char (CHR ''/'') (bank_ingestion_issuer c) @ ''/jwks/'')"

definition bank_ingestion_ready :: "app_config \<Rightarrow> bool" where
  "bank_ingestion_ready c \<longleftrightarrow>
     bank_ingestion_enabled c \<and> bank_ingestion_issuer c \<noteq> '''' \<and>
     bank_ingestion_audience c \<noteq> '''' \<and> bank_ingestion_client_id c \<noteq> '''' \<and>
     bank_ingestion_jwks_uri c \<noteq> ''''"

definition pilot_configuration_ready :: "app_config \<Rightarrow> bool" where
  "pilot_configuration_ready c \<longleftrightarrow> live_agent_ready c \<and> \<not> external_tracing_enabled c"

lemma default_config_valid: "config_valid default_config"
  by (simp add: config_valid_def default_config_def within_def)

lemma global_mode_of_total_cases:
  "global_mode_of raw = Inr m \<longleftrightarrow>
     (raw = ''off'' \<and> m = Mode_off) \<or> (raw \<in> {''enabled'', ''review''} \<and> m = Mode_enabled)"
  by (auto simp: global_mode_of_def validate_mode_def global_mode_missing_def)

lemma pilot_ready_implies:
  "pilot_configuration_ready c \<Longrightarrow> slack_ready c \<and> azure_agent_ready c \<and> replica_ready c"
  by (simp add: pilot_configuration_ready_def live_agent_ready_def slack_ready_def
      azure_agent_ready_def replica_ready_def)

lemma jwks_uri_from_issuer:
  "bank_ingestion_issuer c \<noteq> '''' \<Longrightarrow> bank_ingestion_jwks_uri c \<noteq> ''''"
  by (simp add: bank_ingestion_jwks_uri_def)

lemma bank_ready_iff:
  "bank_ingestion_ready c \<longleftrightarrow> bank_ingestion_enabled c \<and> bank_ingestion_issuer c \<noteq> '''' \<and>
     bank_ingestion_audience c \<noteq> '''' \<and> bank_ingestion_client_id c \<noteq> ''''"
  by (auto simp: bank_ingestion_ready_def jwks_uri_from_issuer)

end
