(* ===== verification/Models.thy ===== *)
theory Models
  imports Config
begin

text \<open>
  The typed values that cross component boundaries: the agent's structured models
  (\<open>agent/models.py\<close>), the runner port's inputs and results (\<open>agent/runner.py\<close>) and the status
  enumerations of the database (\<open>db/enums.py\<close>). A \<open>StrEnum\<close> is a datatype with a \<open>_value\<close>
  function where the code uses the string; a pydantic \<open>model_validator\<close> is a checking function
  into \<open>exn_name + _\<close>. UUIDs are their canonical text.
\<close>

type_synonym uuid = string

section \<open>Enumerations\<close>

datatype confidence = Conf_high | Conf_medium | Conf_low | Conf_unknown

datatype request_kind = Req_payment_identification | Req_general

fun request_kind_value :: "request_kind \<Rightarrow> string" where
  "request_kind_value Req_payment_identification = ''payment_identification''"
| "request_kind_value Req_general = ''general''"

datatype identification_outcome =
  Out_matched | Out_ambiguous | Out_no_customer_found | Out_out_of_scope

datatype evidence_kind =
  Exact_address | Partial_address | Customer_name | Signee_name | Name_fragment | Bank_name
  | Exact_outstanding | Partial_payment | Rut | Bank_account | Email | Phone | Vambe_context
  | Vambe_mention | Identity_conflict | Amount_exceeds_outstanding | Currency_mismatch

fun evidence_kind_value :: "evidence_kind \<Rightarrow> string" where
  "evidence_kind_value Exact_address = ''exact_address''"
| "evidence_kind_value Partial_address = ''partial_address''"
| "evidence_kind_value Customer_name = ''customer_name''"
| "evidence_kind_value Signee_name = ''signee_name''"
| "evidence_kind_value Name_fragment = ''name_fragment''"
| "evidence_kind_value Bank_name = ''bank_name''"
| "evidence_kind_value Exact_outstanding = ''exact_outstanding''"
| "evidence_kind_value Partial_payment = ''partial_payment''"
| "evidence_kind_value Rut = ''rut''"
| "evidence_kind_value Bank_account = ''bank_account''"
| "evidence_kind_value Email = ''email''"
| "evidence_kind_value Phone = ''phone''"
| "evidence_kind_value Vambe_context = ''vambe_context''"
| "evidence_kind_value Vambe_mention = ''vambe_mention''"
| "evidence_kind_value Identity_conflict = ''identity_conflict''"
| "evidence_kind_value Amount_exceeds_outstanding = ''amount_exceeds_outstanding''"
| "evidence_kind_value Currency_mismatch = ''currency_mismatch''"

datatype evidence_polarity = Supporting | Contradicting

fun evidence_polarity_value :: "evidence_polarity \<Rightarrow> string" where
  "evidence_polarity_value Supporting = ''supporting''"
| "evidence_polarity_value Contradicting = ''contradicting''"

datatype evidence_strength = Strong | Medium | Weak

datatype evidence_source = Src_payment_candidates | Src_candidate_verification | Src_vambe

fun evidence_source_value :: "evidence_source \<Rightarrow> string" where
  "evidence_source_value Src_payment_candidates = ''payment_candidates''"
| "evidence_source_value Src_candidate_verification = ''candidate_verification''"
| "evidence_source_value Src_vambe = ''vambe''"

datatype unverified_field =
  Unv_amount | Unv_glosa | Unv_transferor | Unv_date | Unv_customer_identity
  | Unv_account_receivable | Unv_vambe_context | Unv_payment_evidence

datatype completion_reason =
  Completed | Timeout | Turn_limit | Tool_limit | Refusal | Invalid_output

section \<open>Evidence and candidates\<close>

record evidence_signal =
  sig_evidence_id :: string
  sig_kind :: evidence_kind
  sig_source :: evidence_source
  sig_polarity :: evidence_polarity
  sig_strength :: evidence_strength
  sig_description :: string
  sig_order_id :: "string option"
  sig_account_receivable_id :: "string option"
  sig_source_reference :: "string option"

definition signal_valid :: "evidence_signal \<Rightarrow> bool" where
  \<comment> \<open>the field bounds pydantic checks when a signal is built\<close>
  "signal_valid s \<longleftrightarrow> length (sig_evidence_id s) \<le> 32 \<and> length (sig_description s) \<le> 240"

definition supports :: "evidence_signal \<Rightarrow> bool" where
  "supports s \<longleftrightarrow> sig_polarity s = Supporting"

definition contradicts :: "evidence_signal \<Rightarrow> bool" where
  "contradicts s \<longleftrightarrow> sig_polarity s = Contradicting"

lemma contradicts_not_supports: "contradicts s \<longleftrightarrow> \<not> supports s"
  by (cases "sig_polarity s") (auto simp: supports_def contradicts_def)

record customer_candidate =
  cc_customer_name :: string
  cc_order_id :: string
  cc_crm_url :: string
  cc_reason :: string
  cc_evidence_ids :: "string list"

record general_answer =
  ga_answer :: string
  ga_route_correction :: "request_kind option"

section \<open>The identification result and its validators\<close>

record payment_identification =
  pi_outcome :: identification_outcome
  pi_recommended_customer :: "customer_candidate option"
  pi_account_receivable_summary :: "string option"
  pi_confidence :: confidence
  pi_investigation_summary :: string
  pi_unable_to_verify :: "string list"
  pi_alternatives :: "customer_candidate list"
  pi_evidence :: "evidence_signal list"
  pi_clarification_question :: "string option"

definition infer_legacy_outcome ::
  "identification_outcome option \<Rightarrow> customer_candidate option \<Rightarrow> identification_outcome" where
  \<comment> \<open>the before-validator: a value without an outcome gets one from its recommendation\<close>
  "infer_legacy_outcome outcome recommended =
     (case outcome of
        Some out \<Rightarrow> out
      | None \<Rightarrow> (if recommended \<noteq> None then Out_matched else Out_ambiguous))"

definition outcome_is_consistent ::
  "payment_identification \<Rightarrow> exn_name + payment_identification" where
  "outcome_is_consistent p =
     (if pi_outcome p = Out_matched then
        (if pi_recommended_customer p = None then Inl ''ValidationError''
         else if pi_confidence p \<notin> {Conf_high, Conf_medium} then Inl ''ValidationError''
         else Inr p)
      else if pi_recommended_customer p \<noteq> None \<or> pi_account_receivable_summary p \<noteq> None
      then Inl ''ValidationError''
      else if pi_confidence p \<noteq> Conf_unknown then Inl ''ValidationError''
      else if pi_outcome p \<in> {Out_no_customer_found, Out_out_of_scope} \<and> pi_alternatives p \<noteq> []
      then Inl ''ValidationError''
      else Inr p)"

definition build_identification ::
  "payment_identification \<Rightarrow> exn_name + payment_identification" where
  \<comment> \<open>the constructor call on values already built (nested models are not validated again):
    the field bounds, then the after-validator\<close>
  "build_identification p =
     (if 3 < length (pi_alternatives p)
         \<or> (\<exists>q. pi_clarification_question p = Some q \<and> 240 < length q)
      then Inl ''ValidationError''
      else outcome_is_consistent p)"

lemma build_identification_Inr:
  "build_identification p = Inr q \<Longrightarrow> q = p"
  by (auto simp: build_identification_def outcome_is_consistent_def split: if_splits)

lemma build_identification_consistent:
  assumes "build_identification p = Inr q"
  shows "(pi_outcome q = Out_matched \<longleftrightarrow> pi_recommended_customer q \<noteq> None) \<and>
         (pi_outcome q = Out_matched \<longleftrightarrow> pi_confidence q \<in> {Conf_high, Conf_medium}) \<and>
         (pi_outcome q \<noteq> Out_matched \<longrightarrow> pi_account_receivable_summary q = None) \<and>
         length (pi_alternatives q) \<le> 3"
  using assms
  by (auto simp: build_identification_def outcome_is_consistent_def split: if_splits)

section \<open>Runner port\<close>

record agent_usage =
  us_model :: "string option"
  us_input_tokens :: "int option"
  us_output_tokens :: "int option"
  us_turns :: int
  us_tool_calls :: int

definition no_usage :: "agent_usage" where
  "no_usage = \<lparr>us_model = None, us_input_tokens = None, us_output_tokens = None,
     us_turns = 0, us_tool_calls = 0\<rparr>"

text \<open>The JSON documents of audit rows and payloads, with object keys in insertion order.\<close>

datatype json =
  JNull | JBool bool | JInt int | JFloat string | JStr string | JArr "json list"
  | JObj "(string \<times> json) list"

record tool_audit_record =
  ta_sequence :: nat
  ta_tool_name :: string
  ta_status :: string
  ta_input :: "json option"
  ta_output :: "json option"
  ta_duration_ms :: "int option"
  ta_error :: "string option"
  ta_query_fingerprint :: "string option"
  ta_referenced_relations :: "string list"
  ta_row_count :: "int option"
  ta_truncated :: "bool option"

record agent_step =
  st_type :: string
  st_name :: "string option"
  st_status :: "string option"
  st_model :: "string option"
  st_prompt_version :: "string option"

record transcript_attachment =
  at_slack_file_id :: string
  at_name :: "string option"
  at_mimetype :: string
  at_size :: int

record transcript_message =
  tm_direction :: string
  tm_text :: "string option"
  tm_event_at :: int
  tm_sender :: "string option"
  tm_slack_message_ts :: "string option"
  tm_attachments :: "transcript_attachment list"

record image_ingestion =
  ing_requested :: int
  ing_metadata_accepted :: int
  ing_downloaded :: int
  ing_rejected :: int
  ing_failure_categories :: "string list"

definition unprocessed :: "image_ingestion \<Rightarrow> int" where
  "unprocessed i = max (ing_requested i - ing_downloaded i) 0"

record agent_run_input =
  ri_run_id :: nat
  ri_slack_channel_id :: string
  ri_slack_thread_ts :: string
  ri_requester :: string
  ri_transcript :: "transcript_message list"
  ri_trigger_ts :: "string option"
  ri_image_paths :: "string list"
  ri_image_ingestion :: image_ingestion

record run_meta =
  rm_steps :: "agent_step list"
  rm_usage :: agent_usage
  rm_prompt_version :: "string option"
  rm_knowledge_version :: "string option"
  rm_completion_reason :: completion_reason
  rm_tool_calls :: "tool_audit_record list"

definition default_meta :: run_meta where
  "default_meta = \<lparr>rm_steps = [], rm_usage = no_usage, rm_prompt_version = None,
     rm_knowledge_version = None, rm_completion_reason = Completed, rm_tool_calls = []\<rparr>"

text \<open>\<open>RunnerResult\<close> is the union of the two result classes, which share all but their first
  field: the constructor tells them apart as \<open>isinstance\<close> does.\<close>

datatype runner_result =
  Payment_result payment_identification run_meta
| General_result general_answer run_meta

fun result_meta :: "runner_result \<Rightarrow> run_meta" where
  "result_meta (Payment_result _ m) = m"
| "result_meta (General_result _ m) = m"

fun is_general :: "runner_result \<Rightarrow> bool" where
  "is_general (Payment_result _ _) = False"
| "is_general (General_result _ _) = True"

record agent_run_failure =
  fl_tool_calls :: "tool_audit_record list"
  fl_prompt_version :: "string option"
  fl_knowledge_version :: "string option"
  fl_request_kind :: request_kind

datatype py_exception =
  Run_failure agent_run_failure  \<comment> \<open>\<open>AgentRunFailure\<close>\<close>
| Other_exception exn_name       \<comment> \<open>any other exception, by class name\<close>

fun exception_name :: "py_exception \<Rightarrow> string" where
  "exception_name (Run_failure _) = ''AgentRunFailure''"
| "exception_name (Other_exception n) = n"

section \<open>Status enumerations of the database\<close>

datatype conversation_state = Conv_open | Conv_running | Conv_answered | Conv_failed

datatype run_status = Run_queued | Run_running | Run_succeeded | Run_failed | Run_cancelled

datatype delivery_status = Out_pending | Out_sent | Out_failed | Out_cancelled

datatype event_disposition =
  Ev_received | Ev_queued | Ev_processed | Ev_ignored | Ev_failed

datatype output_kind = Kind_investigation | Kind_general_reply | Kind_feedback_flavor | Kind_error

fun output_kind_value :: "output_kind \<Rightarrow> string" where
  "output_kind_value Kind_investigation = ''investigation''"
| "output_kind_value Kind_general_reply = ''general_reply''"
| "output_kind_value Kind_feedback_flavor = ''feedback_flavor''"
| "output_kind_value Kind_error = ''error''"

end
