(* ===== verification/SlackEvents.thy ===== *)
theory SlackEvents
  imports Models
begin

text \<open>
  The Slack envelope normaliser (\<open>slack/events.py\<close>). A Slack body is arbitrary JSON, so the input
  is a \<open>json\<close> value and every \<open>isinstance\<close> test of the source is a test on its constructor. The
  result keeps only the fields the source copies. \<open>Inl\<close> is an exception: a set membership test on
  an unhashable value (a list or an object) raises \<open>TypeError\<close> in Python.
\<close>

section \<open>Dynamic values\<close>

fun jget :: "string \<Rightarrow> json \<Rightarrow> json" where
  \<comment> \<open>\<open>d.get(k)\<close> on a dict: \<open>None\<close> when the key is absent\<close>
  "jget k (JObj kvs) = (case map_of kvs k of Some v \<Rightarrow> v | None \<Rightarrow> JNull)"
| "jget k _ = JNull"

fun is_jobj :: "json \<Rightarrow> bool" where
  "is_jobj (JObj _) = True" | "is_jobj _ = False"

fun is_jstr :: "json \<Rightarrow> bool" where
  "is_jstr (JStr _) = True" | "is_jstr _ = False"

fun jstr :: "json \<Rightarrow> string option" where
  "jstr (JStr s) = Some s" | "jstr _ = None"

fun jint :: "json \<Rightarrow> int option" where
  \<comment> \<open>\<open>isinstance(v, int)\<close> holds of booleans too\<close>
  "jint (JInt i) = Some i" | "jint (JBool b) = Some (if b then 1 else 0)" | "jint _ = None"

fun hashable :: "json \<Rightarrow> bool" where
  "hashable (JArr _) = False" | "hashable (JObj _) = False" | "hashable _ = True"

fun truthy :: "json \<Rightarrow> bool" where
  "truthy JNull = False"
| "truthy (JBool b) = b"
| "truthy (JInt i) = (i \<noteq> 0)"
| "truthy (JFloat s) = (s \<notin> {''0.0'', ''-0.0''})"
| "truthy (JStr s) = (s \<noteq> '''')"
| "truthy (JArr xs) = (xs \<noteq> [])"
| "truthy (JObj kvs) = (kvs \<noteq> [])"

definition hex_digit :: "nat \<Rightarrow> char" where
  "hex_digit d = (if d < 10 then char_of (48 + d) else char_of (87 + d))"

definition repr_char :: "char \<Rightarrow> char \<Rightarrow> string" where
  "repr_char q c =
     (if c = q \<or> code c = 92 then [char_of (92::nat), c]
      else if code c = 9 then [char_of (92::nat), CHR ''t'']
      else if code c = 10 then [char_of (92::nat), CHR ''n'']
      else if code c = 13 then [char_of (92::nat), CHR ''r'']
      else if code c < 32 \<or> code c \<in> {127, 160, 173}
      then [char_of (92::nat), CHR ''x'', hex_digit (code c div 16), hex_digit (code c mod 16)]
      else [c])"

definition repr_str :: "string \<Rightarrow> string" where
  "repr_str s =
     (let apostrophe = char_of (39::nat); quote = char_of (34::nat);
          q = (if apostrophe \<in> set s \<and> quote \<notin> set s then quote else apostrophe)
      in q # concat (map (repr_char q) s) @ [q])"

fun py_repr :: "json \<Rightarrow> string" where
  "py_repr JNull = ''None''"
| "py_repr (JBool b) = (if b then ''True'' else ''False'')"
| "py_repr (JInt i) = show_int i"
| "py_repr (JFloat s) = s"
| "py_repr (JStr s) = repr_str s"
| "py_repr (JArr xs) = ''['' @ str_join '', '' (map py_repr xs) @ '']''"
| "py_repr (JObj kvs) =
     ''{'' @ str_join '', '' (map (\<lambda>(k, v). repr_str k @ '': '' @ py_repr v) kvs) @ ''}''"

definition py_str :: "json \<Rightarrow> string" where
  "py_str v = (case v of JStr s \<Rightarrow> s | _ \<Rightarrow> py_repr v)"

section \<open>Attachments\<close>

definition allowed_image_mimetypes :: "string list" where
  "allowed_image_mimetypes = [''image/jpeg'', ''image/png'', ''image/webp'']"

record image_meta =
  im_id :: string
  im_name :: "string option"
  im_mimetype :: string
  im_size :: int

record attachment_summary =
  as_requested :: int
  as_accepted :: int
  as_rejected :: int

definition safe_image :: "json \<Rightarrow> app_config \<Rightarrow> image_meta option" where
  \<comment> \<open>one iteration's guard: \<open>None\<close> where the loop continues\<close>
  "safe_image raw config =
     (if \<not> is_jobj raw then None
      else case (jstr (jget ''mimetype'' raw), jint (jget ''size'' raw), jstr (jget ''id'' raw)) of
        (Some mimetype, Some size', Some file_id) \<Rightarrow>
          (if mimetype \<notin> set allowed_image_mimetypes \<or> size' \<le> 0
              \<or> max_image_bytes config < size' \<or> file_id = ''''
           then None
           else Some \<lparr>im_id = file_id, im_name = jstr (jget ''name'' raw),
                      im_mimetype = mimetype, im_size = size'\<rparr>)
      | _ \<Rightarrow> None)"

fun safe_images_loop :: "json list \<Rightarrow> app_config \<Rightarrow> image_meta list \<Rightarrow> image_meta list" where
  "safe_images_loop [] config result = result"
| "safe_images_loop (raw # raws) config result =
     (if max_images config \<le> int (length result) then safe_images_loop raws config result
      else case safe_image raw config of
             None \<Rightarrow> safe_images_loop raws config result
           | Some im \<Rightarrow> safe_images_loop raws config (result @ [im]))"

definition safe_images :: "json \<Rightarrow> app_config \<Rightarrow> image_meta list \<times> attachment_summary" where
  "safe_images files config =
     (case files of
        JArr raws \<Rightarrow>
          (let requested = int (length raws);
               result = safe_images_loop raws config []
           in (result,
               \<lparr>as_requested = requested, as_accepted = int (length result),
                as_rejected = max (requested - int (length result)) 0\<rparr>))
      | _ \<Rightarrow> ([], \<lparr>as_requested = 0, as_accepted = 0, as_rejected = 0\<rparr>))"

section \<open>Bot mentions\<close>

definition after_mention_id :: "string \<Rightarrow> string option" where
  \<comment> \<open>what follows the user id in a mention: \<open>(?:\|[^>]*)?>\<close>; the rest of the text\<close>
  "after_mention_id s =
     (case s of
        [] \<Rightarrow> None
      | c # cs \<Rightarrow>
          (if c = CHR ''>'' then Some cs
           else if c = CHR ''|'' then
             (case dropWhile (\<lambda>d. d \<noteq> CHR ''>'') cs of [] \<Rightarrow> None | _ # rest \<Rightarrow> Some rest)
           else None))"

definition match_mention :: "string \<Rightarrow> string \<Rightarrow> string option" where
  "match_mention uid s =
     (if starts_with (''<@'' @ uid) s then after_mention_id (drop (length uid + 2) s) else None)"

lemma after_mention_id_length: "after_mention_id s = Some rest \<Longrightarrow> length rest < length s"
proof -
  assume a: "after_mention_id s = Some rest"
  then obtain c cs where s: "s = c # cs" by (cases s) (auto simp: after_mention_id_def)
  have "length (dropWhile (\<lambda>d. d \<noteq> CHR ''>'') cs) \<le> length cs"
    by (rule length_dropWhile_le)
  then show ?thesis
    using a s by (auto simp: after_mention_id_def split: if_splits list.splits)
qed

lemma match_mention_length [termination_simp]:
  "match_mention uid s = Some rest \<Longrightarrow> length rest < length s"
  unfolding match_mention_def
  by (auto split: if_splits dest!: after_mention_id_length)

function remove_mentions :: "string \<Rightarrow> string \<Rightarrow> string" where
  \<comment> \<open>\<open>re.sub\<close>: non-overlapping matches from the left\<close>
  "remove_mentions uid [] = []"
| "remove_mentions uid (c # cs) =
     (case match_mention uid (c # cs) of
        Some rest \<Rightarrow> remove_mentions uid rest
      | None \<Rightarrow> c # remove_mentions uid cs)"
  by pat_completeness auto
termination
  by (relation "measure (\<lambda>(uid, s). length s)") (auto dest!: match_mention_length)

definition is_user_id_char :: "char \<Rightarrow> bool" where
  "is_user_id_char c \<longleftrightarrow> (65 \<le> code c \<and> code c \<le> 90) \<or> (48 \<le> code c \<and> code c \<le> 57)"

definition remove_leading_mention :: "string \<Rightarrow> string" where
  \<comment> \<open>\<open>^\s*<@[A-Z0-9]+(?:\|[^>]*)?>\<close>\<close>
  "remove_leading_mention s =
     (let t = str_lstrip s in
      if starts_with ''<@'' t then
        (let u = drop 2 t in
         if takeWhile is_user_id_char u = [] then s
         else case after_mention_id (dropWhile is_user_id_char u) of
                Some rest \<Rightarrow> rest | None \<Rightarrow> s)
      else s)"

definition without_bot_mention :: "json \<Rightarrow> string option \<Rightarrow> bool \<Rightarrow> string" where
  "without_bot_mention text bot_user_id is_app_mention =
     (case jstr text of
        None \<Rightarrow> ''''
      | Some t \<Rightarrow>
          (let cleaned =
             (case bot_user_id of
                Some uid \<Rightarrow> (if uid \<noteq> '''' then remove_mentions uid t
                             else if is_app_mention then remove_leading_mention t else t)
              | None \<Rightarrow> (if is_app_mention then remove_leading_mention t else t))
           in dropWhile (\<lambda>c. c \<in> {CHR '' '', CHR 0x09, CHR '','', CHR '':'', CHR '';'', CHR ''-''})
                cleaned))"

section \<open>Normalised events\<close>

datatype event_kind =
  Ek_mention | Ek_thread_message | Ek_reaction_added | Ek_reaction_removed | Ek_ignored

record reaction_payload =
  rp_event_id :: string
  rp_event_type :: string
  rp_team_id :: json
  rp_channel :: string
  rp_message_ts :: string
  rp_user :: string
  rp_reaction :: string

record message_payload =
  mp_event_id :: string
  mp_event_type :: string
  mp_team_id :: json
  mp_channel :: string
  mp_message_ts :: string
  mp_thread_ts :: json
  mp_user :: string
  mp_text :: string
  mp_files :: "image_meta list"
  mp_attachment_summary :: attachment_summary

text \<open>The payload dict has one of three shapes.\<close>

datatype event_payload =
  Ignored_payload string string string  \<comment> \<open>event id, event type, reason\<close>
| Reaction_payload reaction_payload
| Message_payload message_payload

record normalized_event =
  ne_slack_event_id :: string
  ne_event_type :: string
  ne_kind :: event_kind
  ne_payload :: event_payload
  ne_ignore_reason :: "string option"

definition ignored :: "string \<Rightarrow> string \<Rightarrow> string \<Rightarrow> normalized_event" where
  "ignored event_id event_type reason =
     \<lparr>ne_slack_event_id = event_id, ne_event_type = event_type, ne_kind = Ek_ignored,
      ne_payload = Ignored_payload event_id event_type reason,
      ne_ignore_reason = Some reason\<rparr>"

definition normalize_reaction ::
  "json \<Rightarrow> string \<Rightarrow> json \<Rightarrow> string \<Rightarrow> exn_name + normalized_event" where
  "normalize_reaction body event_id event event_type =
     (let item = jget ''item'' event; reaction = jget ''reaction'' event; user = jget ''user'' event
      in if \<not> is_jobj item \<or> jget ''type'' item \<noteq> JStr ''message''
         then Inr (ignored event_id event_type ''unsupported_reaction'')
         else if \<not> hashable reaction then Inl ''TypeError''
         else if reaction \<notin> {JStr ''cheese_wedge'', JStr ''electric_plug''} \<or> \<not> is_jstr user
         then Inr (ignored event_id event_type ''unsupported_reaction'')
         else case (jstr (jget ''channel'' item), jstr (jget ''ts'' item), jstr user, jstr reaction) of
             (Some channel, Some message_ts, Some usr, Some react) \<Rightarrow>
               Inr \<lparr>ne_slack_event_id = event_id, ne_event_type = event_type,
                    ne_kind = (if event_type = ''reaction_added'' then Ek_reaction_added
                               else Ek_reaction_removed),
                    ne_payload = Reaction_payload
                      \<lparr>rp_event_id = event_id, rp_event_type = event_type,
                       rp_team_id = jget ''team_id'' body, rp_channel = channel,
                       rp_message_ts = message_ts, rp_user = usr, rp_reaction = react\<rparr>,
                    ne_ignore_reason = None\<rparr>
           | _ \<Rightarrow> Inr (ignored event_id event_type ''invalid_reaction_item''))"

definition duplicate_mention :: "string option \<Rightarrow> json \<Rightarrow> bool" where
  "duplicate_mention bot_user_id text =
     (case (bot_user_id, jstr text) of
        (Some uid, Some t) \<Rightarrow> uid \<noteq> '''' \<and> contains (''<@'' @ uid @ ''>'') t
      | _ \<Rightarrow> False)"

definition normalize_message ::
  "json \<Rightarrow> string \<Rightarrow> json \<Rightarrow> string \<Rightarrow> string option \<Rightarrow> app_config
   \<Rightarrow> exn_name + normalized_event" where
  "normalize_message body event_id event event_type bot_user_id config =
     (if event_type \<notin> {''app_mention'', ''message''}
      then Inr (ignored event_id event_type ''unsupported_event_type'')
      else if \<not> hashable (jget ''channel_type'' event) then Inl ''TypeError''
      else if jget ''channel_type'' event \<notin> {JNull, JStr ''channel'', JStr ''group''}
      then Inr (ignored event_id event_type ''unsupported_channel_type'')
      else if jget ''subtype'' event \<noteq> JNull \<or> jget ''bot_id'' event \<noteq> JNull
      then Inr (ignored event_id event_type ''non_human_message'')
      else case (jstr (jget ''user'' event), jstr (jget ''channel'' event), jstr (jget ''ts'' event)) of
        (Some user, Some channel, Some message_ts) \<Rightarrow>
          (if event_type = ''message'' \<and> \<not> is_jstr (jget ''thread_ts'' event)
           then Inr (ignored event_id event_type ''message_outside_thread'')
           else if event_type = ''message'' \<and> duplicate_mention bot_user_id (jget ''text'' event)
           then Inr (ignored event_id event_type ''duplicate_mention_delivery'')
           else
             (let thread_ts = jget ''thread_ts'' event;
                  root_ts = (if truthy thread_ts then thread_ts else JStr message_ts);
                  (files, summary) = safe_images (jget ''files'' event) config
              in Inr \<lparr>ne_slack_event_id = event_id, ne_event_type = event_type,
                      ne_kind = (if event_type = ''app_mention'' then Ek_mention
                                 else Ek_thread_message),
                      ne_payload = Message_payload
                        \<lparr>mp_event_id = event_id, mp_event_type = event_type,
                         mp_team_id = jget ''team_id'' body, mp_channel = channel,
                         mp_message_ts = message_ts, mp_thread_ts = root_ts, mp_user = user,
                         mp_text = without_bot_mention (jget ''text'' event) bot_user_id
                                     (event_type = ''app_mention''),
                         mp_files = files, mp_attachment_summary = summary\<rparr>,
                      ne_ignore_reason = None\<rparr>))
      | _ \<Rightarrow> Inr (ignored event_id event_type ''invalid_message''))"

definition normalize_event ::
  "json \<Rightarrow> string option \<Rightarrow> app_config \<Rightarrow> exn_name + normalized_event" where
  "normalize_event body bot_user_id config =
     (let event_id = jget ''event_id'' body; event = jget ''event'' body in
      if \<not> is_jstr event_id \<or> \<not> is_jobj event
      then Inr (ignored (if truthy event_id then py_str event_id else ''missing'')
                  ''unknown'' ''invalid_envelope'')
      else case (jstr event_id, jstr (jget ''type'' event)) of
        (Some eid, Some event_type) \<Rightarrow>
          (if event_type \<in> {''reaction_added'', ''reaction_removed''}
           then normalize_reaction body eid event event_type
           else normalize_message body eid event event_type bot_user_id config)
      | (Some eid, None) \<Rightarrow> Inr (ignored eid ''unknown'' ''missing_event_type'')
      | _ \<Rightarrow> Inr (ignored ''missing'' ''unknown'' ''invalid_envelope''))"

section \<open>Lemmas\<close>

lemma safe_image_sound:
  "safe_image raw config = Some im \<Longrightarrow>
   im_mimetype im \<in> set allowed_image_mimetypes \<and> 0 < im_size im \<and>
   im_size im \<le> max_image_bytes config \<and> im_id im \<noteq> ''''"
  by (auto simp: safe_image_def split: if_splits option.splits)

lemma safe_images_loop_sound:
  "\<forall>im \<in> set result. P im \<Longrightarrow> (\<And>raw im. safe_image raw config = Some im \<Longrightarrow> P im)
   \<Longrightarrow> \<forall>im \<in> set (safe_images_loop raws config result). P im"
  by (induction raws config result rule: safe_images_loop.induct) (auto split: option.splits)

lemma safe_images_loop_bound:
  "int (length result) \<le> max 0 (max_images config) \<Longrightarrow>
   int (length (safe_images_loop raws config result)) \<le> max 0 (max_images config)"
  by (induction raws config result rule: safe_images_loop.induct) (auto split: option.splits)

lemma safe_images_loop_length:
  "length (safe_images_loop raws config result) \<le> length result + length raws"
  by (induction raws config result rule: safe_images_loop.induct)
    (auto split: option.splits intro: le_SucI)

lemma safe_images_accounting:
  assumes "safe_images v config = (files, summary)"
  shows "as_accepted summary = int (length files) \<and>
         as_accepted summary + as_rejected summary = as_requested summary \<and>
         (1 \<le> max_images config \<longrightarrow> int (length files) \<le> max_images config) \<and>
         (\<forall>im \<in> set files. im_mimetype im \<in> set allowed_image_mimetypes \<and> 0 < im_size im \<and>
            im_size im \<le> max_image_bytes config \<and> im_id im \<noteq> '''')"
proof (cases "\<exists>raws. v = JArr raws")
  case True
  then obtain raws where v: "v = JArr raws" by blast
  have len: "length (safe_images_loop raws config []) \<le> length raws"
    using safe_images_loop_length [of raws config "[]"] by simp
  have bound: "int (length (safe_images_loop raws config [])) \<le> max 0 (max_images config)"
    by (rule safe_images_loop_bound) simp
  have sound: "\<forall>im \<in> set (safe_images_loop raws config []).
      im_mimetype im \<in> set allowed_image_mimetypes \<and> 0 < im_size im \<and>
      im_size im \<le> max_image_bytes config \<and> im_id im \<noteq> ''''"
    by (rule safe_images_loop_sound) (auto dest: safe_image_sound)
  from assms v len bound sound show ?thesis
    by (auto simp: safe_images_def Let_def)
next
  case False
  with assms show ?thesis by (cases v) (auto simp: safe_images_def)
qed

lemma jstr_Some [simp]: "jstr v = Some s \<longleftrightarrow> v = JStr s"
  by (cases v) auto

lemma reaction_not_message:
  "normalize_reaction body eid event etype = Inr ev \<Longrightarrow> ne_payload ev \<noteq> Message_payload p"
  by (auto simp: normalize_reaction_def ignored_def Let_def simp del: insert_iff
      split: if_split_asm option.split_asm)

lemma ignored_not_message [simp]: "ne_payload (ignored a b c) \<noteq> Message_payload p"
  by (simp add: ignored_def)

lemma normalize_event_message:
  assumes "normalize_event body uid config = Inr ev" and "ne_payload ev = Message_payload p"
  shows "\<exists>eid etype. jget ''type'' (jget ''event'' body) = JStr etype \<and>
           normalize_message body eid (jget ''event'' body) etype uid config = Inr ev"
  using assms unfolding normalize_event_def Let_def
  by (auto simp del: insert_iff dest: reaction_not_message split: if_split_asm option.split_asm)

lemma normalize_message_Inr:
  assumes "normalize_message body eid event etype uid config = Inr ev"
    and "ne_payload ev = Message_payload p"
  shows "jget ''subtype'' event = JNull \<and> jget ''bot_id'' event = JNull \<and>
         jget ''channel_type'' event \<in> {JNull, JStr ''channel'', JStr ''group''} \<and>
         jget ''user'' event = JStr (mp_user p) \<and> jget ''channel'' event = JStr (mp_channel p) \<and>
         jget ''ts'' event = JStr (mp_message_ts p) \<and>
         (etype = ''message'' \<longrightarrow> is_jstr (jget ''thread_ts'' event) \<and>
            \<not> duplicate_mention uid (jget ''text'' event)) \<and>
         ne_kind ev = (if etype = ''app_mention'' then Ek_mention else Ek_thread_message) \<and>
         safe_images (jget ''files'' event) config = (mp_files p, mp_attachment_summary p)"
proof -
  let ?kind_ok = "etype \<in> {''app_mention'', ''message''}"
  let ?channel_ok = "jget ''channel_type'' event \<in> {JNull, JStr ''channel'', JStr ''group''}"
  let ?thread_ok = "is_jstr (jget ''thread_ts'' event)"
  let ?dup = "duplicate_mention uid (jget ''text'' event)"
  have kind: ?kind_ok
    by (rule ccontr) (use assms in \<open>auto simp: normalize_message_def simp del: insert_iff\<close>)
  have hash: "hashable (jget ''channel_type'' event)"
    by (rule ccontr) (use assms kind in \<open>auto simp: normalize_message_def simp del: insert_iff\<close>)
  have channel: ?channel_ok
    by (rule ccontr) (use assms kind hash in \<open>auto simp: normalize_message_def simp del: insert_iff\<close>)
  have human: "jget ''subtype'' event = JNull \<and> jget ''bot_id'' event = JNull"
    by (rule ccontr)
      (use assms kind hash channel in \<open>auto simp: normalize_message_def simp del: insert_iff\<close>)
  obtain user where user: "jget ''user'' event = JStr user"
    using assms kind hash channel human
    by (auto simp: normalize_message_def simp del: insert_iff split: option.split_asm)
  obtain chan where chan: "jget ''channel'' event = JStr chan"
    using assms kind hash channel human user
    by (auto simp: normalize_message_def simp del: insert_iff split: option.split_asm)
  obtain ts where ts: "jget ''ts'' event = JStr ts"
    using assms kind hash channel human user chan
    by (auto simp: normalize_message_def simp del: insert_iff split: option.split_asm)
  note base = kind hash channel human user chan ts
  have thread: "etype = ''message'' \<longrightarrow> ?thread_ok"
    by (rule ccontr) (use assms base in \<open>auto simp: normalize_message_def simp del: insert_iff\<close>)
  have dup: "etype = ''message'' \<longrightarrow> \<not> ?dup"
    by (rule ccontr) (use assms base thread in \<open>auto simp: normalize_message_def simp del: insert_iff\<close>)
  obtain files summary where fs: "safe_images (jget ''files'' event) config = (files, summary)"
    by (cases "safe_images (jget ''files'' event) config")
  have guards: "\<not> (etype = ''message'' \<and> \<not> ?thread_ok)" "\<not> (etype = ''message'' \<and> ?dup)"
    using thread dup by blast+
  from assms(1) have "ne_kind ev = (if etype = ''app_mention'' then Ek_mention else Ek_thread_message) \<and>
      (\<exists>p'. ne_payload ev = Message_payload p' \<and> mp_user p' = user \<and> mp_channel p' = chan \<and>
         mp_message_ts p' = ts \<and> mp_files p' = files \<and> mp_attachment_summary p' = summary)"
    unfolding normalize_message_def Let_def
    by (simp only: base guards fs jstr.simps option.case prod.case not_False_eq_True simp_thms
        if_False if_True sum.inject) auto
  with assms(2) base thread dup fs show ?thesis by auto
qed

section \<open>Properties\<close>

text \<open>A message that survives normalisation came from a human in a channel or group: it has
  no subtype and no bot id, an allowed channel type, string user, channel and timestamp; a plain
  message is inside a thread and is not the duplicate delivery of a mention of this bot.\<close>

theorem normalized_message_is_human:
  assumes "normalize_event body uid config = Inr ev" and "ne_payload ev = Message_payload p"
  shows "let event = jget ''event'' body in
           jget ''subtype'' event = JNull \<and> jget ''bot_id'' event = JNull \<and>
           jget ''channel_type'' event \<in> {JNull, JStr ''channel'', JStr ''group''} \<and>
           jget ''user'' event = JStr (mp_user p) \<and> jget ''channel'' event = JStr (mp_channel p) \<and>
           jget ''ts'' event = JStr (mp_message_ts p) \<and>
           (jget ''type'' event = JStr ''message'' \<longrightarrow>
              is_jstr (jget ''thread_ts'' event) \<and>
              \<not> duplicate_mention uid (jget ''text'' event) \<and> ne_kind ev = Ek_thread_message) \<and>
           (jget ''type'' event = JStr ''app_mention'' \<longrightarrow> ne_kind ev = Ek_mention)"
proof -
  obtain eid etype where m: "normalize_message body eid (jget ''event'' body) etype uid config = Inr ev"
    and t: "jget ''type'' (jget ''event'' body) = JStr etype"
    using normalize_event_message [OF assms] by blast
  from normalize_message_Inr [OF m assms(2)] t show ?thesis
    by (simp add: Let_def)
qed

lemma normalized_message_is_human_witness:
  "\<exists>ev p. normalize_event
     (JObj [(''event_id'', JStr ''Ev1''),
            (''event'', JObj [(''type'', JStr ''message''), (''user'', JStr ''U1''),
              (''channel'', JStr ''C1''), (''ts'', JStr ''2.0''), (''thread_ts'', JStr ''1.0''),
              (''text'', JStr ''hola'')])]) (Some ''B1'') default_config = Inr ev \<and>
     ne_payload ev = Message_payload p \<and> ne_kind ev = Ek_thread_message"
proof -
  let ?body = "JObj [(''event_id'', JStr ''Ev1''),
            (''event'', JObj [(''type'', JStr ''message''), (''user'', JStr ''U1''),
              (''channel'', JStr ''C1''), (''ts'', JStr ''2.0''), (''thread_ts'', JStr ''1.0''),
              (''text'', JStr ''hola'')])]"
  obtain ev p where 1: "normalize_event ?body (Some ''B1'') default_config = Inr ev"
    and 2: "ne_payload ev = Message_payload p"
    by (simp add: normalize_event_def normalize_message_def safe_images_def Let_def
        duplicate_mention_def starts_with_def)
  from normalized_message_is_human [OF 1 2] have "ne_kind ev = Ek_thread_message"
    by (simp add: Let_def)
  with 1 2 show ?thesis by blast
qed

text \<open>C0: Attachments are bounded and accounted for: what a normalised message keeps are files of
  an allowed type with an id and a size between 1 and the configured maximum, at most
  \<open>max_images\<close> of them, and requested = accepted + rejected.\<close>

theorem normalized_attachments_bounded:
  assumes "normalize_event body uid config = Inr ev" and "ne_payload ev = Message_payload p"
    and "config_valid config"
  shows "int (length (mp_files p)) \<le> max_images config \<and>
         (\<forall>im \<in> set (mp_files p). im_mimetype im \<in> set allowed_image_mimetypes \<and>
            0 < im_size im \<and> im_size im \<le> max_image_bytes config \<and> im_id im \<noteq> '''') \<and>
         as_accepted (mp_attachment_summary p) = int (length (mp_files p)) \<and>
         as_requested (mp_attachment_summary p) =
           as_accepted (mp_attachment_summary p) + as_rejected (mp_attachment_summary p)"
proof -
  obtain eid etype where m: "normalize_message body eid (jget ''event'' body) etype uid config = Inr ev"
    using normalize_event_message [OF assms(1,2)] by blast
  from normalize_message_Inr [OF m assms(2)]
  have "safe_images (jget ''files'' (jget ''event'' body)) config =
      (mp_files p, mp_attachment_summary p)" by simp
  from safe_images_accounting [OF this] assms(3) show ?thesis
    by (simp add: config_valid_def within_def)
qed

lemma normalized_attachments_bounded_witness:
  "\<exists>ev p. normalize_event
     (JObj [(''event_id'', JStr ''Ev1''),
            (''event'', JObj [(''type'', JStr ''app_mention''), (''user'', JStr ''U1''),
              (''channel'', JStr ''C1''), (''ts'', JStr ''2.0''),
              (''files'', JArr [JNull, JObj [(''id'', JStr ''F1''), (''size'', JInt 10),
                 (''mimetype'', JStr ''image/png'')]])])]) None default_config = Inr ev \<and>
     ne_payload ev = Message_payload p \<and> mp_files p \<noteq> [] \<and>
     int (length (mp_files p)) \<le> max_images default_config"
proof -
  let ?body = "JObj [(''event_id'', JStr ''Ev1''),
            (''event'', JObj [(''type'', JStr ''app_mention''), (''user'', JStr ''U1''),
              (''channel'', JStr ''C1''), (''ts'', JStr ''2.0''),
              (''files'', JArr [JNull, JObj [(''id'', JStr ''F1''), (''size'', JInt 10),
                 (''mimetype'', JStr ''image/png'')]])])]"
  have im: "safe_image (JObj [(''id'', JStr ''F1''), (''size'', JInt 10),
                 (''mimetype'', JStr ''image/png'')]) default_config =
            Some \<lparr>im_id = ''F1'', im_name = None, im_mimetype = ''image/png'', im_size = 10\<rparr>"
    by (simp add: safe_image_def allowed_image_mimetypes_def default_config_def)
  have mx: "max_images default_config = 4" by (simp add: default_config_def)
  obtain ev p where 1: "normalize_event ?body None default_config = Inr ev"
    and 2: "ne_payload ev = Message_payload p" and 3: "mp_files p \<noteq> []"
    by (simp add: normalize_event_def normalize_message_def safe_images_def Let_def
        safe_image_def [of JNull] im mx)
  from normalized_attachments_bounded [OF 1 2 default_config_valid] 1 2 3 show ?thesis by blast
qed

end
