(* ===== verification/Store.thy ===== *)
theory Store
  imports SlackEvents
begin

text \<open>
  The workflow database (\<open>db/models.py\<close>) and the job queue (\<open>jobs/enqueue.py\<close>). A table is the
  list of its rows in insertion order; primary keys, random UUIDs in the code, are numbers drawn
  from one counter, so a new row never reuses a key. Times are seconds as integers.

  Every table satisfies the contract of the locale \<open>row_table\<close>: what a lookup returns after an
  update and after an insertion. The procrastinate queue is not part of the repository: deferring a
  job is the parameter \<open>dq\<close>, which says whether the queue accepts the job, refuses it because
  of its queueing lock (\<open>AlreadyEnqueued\<close>) or fails.
\<close>

section \<open>Rows\<close>

record event_row =
  ev_id :: nat
  ev_slack_event_id :: string
  ev_event_type :: string
  ev_payload :: event_payload
  ev_kind :: event_kind
  ev_disposition :: event_disposition
  ev_received_at :: int
  ev_processed_at :: "int option"
  ev_error :: "string option"

record conversation_row =
  cv_id :: nat
  cv_channel :: string
  cv_thread_ts :: string
  cv_requester :: string
  cv_state :: conversation_state
  cv_latest_question :: "string option"

record message_row =
  ms_id :: nat
  ms_conversation_id :: nat
  ms_channel :: string
  ms_message_ts :: string
  ms_thread_ts :: string
  ms_sender :: "string option"
  ms_direction :: string
  ms_kind :: string
  ms_text :: "string option"
  ms_file_metadata :: "json list option"
  ms_raw :: json
  ms_event_at :: int
  ms_created_at :: int

record snapshot_message =
  sm_direction :: string
  sm_text :: "string option"
  sm_event_at :: int
  sm_sender :: "string option"
  sm_slack_message_ts :: "string option"
  sm_image_count :: nat

record input_snapshot =
  sn_messages :: "snapshot_message list"
  sn_image_ingestion :: image_ingestion

datatype run_step =
  Ingestion_step image_ingestion
| Agent_step agent_step
| Tool_step string string  \<comment> \<open>tool name, status\<close>

datatype structured_result =
  Answer_result string
| Identification_result payment_identification

record run_row =
  rn_id :: nat
  rn_conversation_id :: nat
  rn_trigger_message_id :: "nat option"
  rn_status :: run_status
  rn_request_kind :: request_kind
  rn_input_snapshot :: "input_snapshot option"
  rn_steps :: "run_step list option"
  rn_structured_result :: "structured_result option"
  rn_output_message :: "string option"
  rn_prompt_version :: "string option"
  rn_knowledge_version :: "string option"
  rn_completion_reason :: "completion_reason option"
  rn_model :: "string option"
  rn_input_tokens :: "int option"
  rn_output_tokens :: "int option"
  rn_turns :: "int option"
  rn_tool_calls :: "int option"
  rn_latency_ms :: "int option"
  rn_started_at :: "int option"
  rn_finished_at :: "int option"
  rn_error_code :: "string option"
  rn_error_detail :: "string option"
  rn_created_at :: int

record tool_call_row =
  tc_id :: nat
  tc_run_id :: nat
  tc_record :: tool_audit_record

record output_row =
  so_id :: nat
  so_conversation_id :: nat
  so_run_id :: "nat option"
  so_channel :: string
  so_thread_ts :: string
  so_message_ts :: "string option"
  so_idempotency_key :: string
  so_body :: string
  so_kind :: output_kind
  so_status :: delivery_status
  so_attempts :: int
  so_last_error :: "string option"
  so_sent_at :: "int option"
  so_created_at :: int
  so_updated_at :: int

record feedback_row =
  fb_id :: nat
  fb_conversation_id :: nat
  fb_run_id :: "nat option"
  fb_channel :: string
  fb_message_ts :: string
  fb_user :: string
  fb_reaction :: string
  fb_sentiment :: string
  fb_is_active :: bool
  fb_updated_at :: int

record db =
  db_next_id :: nat
  db_events :: "event_row list"
  db_conversations :: "conversation_row list"
  db_messages :: "message_row list"
  db_runs :: "run_row list"
  db_tool_calls :: "tool_call_row list"
  db_outputs :: "output_row list"
  db_feedback :: "feedback_row list"

definition empty_db :: db where
  "empty_db = \<lparr>db_next_id = 0, db_events = [], db_conversations = [], db_messages = [],
     db_runs = [], db_tool_calls = [], db_outputs = [], db_feedback = []\<rparr>"

section \<open>Table access\<close>

definition get_event :: "db \<Rightarrow> nat \<Rightarrow> event_row option" where
  "get_event d i = row_get ev_id (db_events d) i"

definition upd_event :: "nat \<Rightarrow> (event_row \<Rightarrow> event_row) \<Rightarrow> db \<Rightarrow> db" where
  "upd_event i f d = d\<lparr>db_events := row_upd ev_id i f (db_events d)\<rparr>"

definition add_event :: "event_row \<Rightarrow> db \<Rightarrow> db" where
  "add_event r d = d\<lparr>db_events := db_events d @ [r], db_next_id := Suc (db_next_id d)\<rparr>"

definition get_conversation :: "db \<Rightarrow> nat \<Rightarrow> conversation_row option" where
  "get_conversation d i = row_get cv_id (db_conversations d) i"

definition upd_conversation :: "nat \<Rightarrow> (conversation_row \<Rightarrow> conversation_row) \<Rightarrow> db \<Rightarrow> db" where
  "upd_conversation i f d = d\<lparr>db_conversations := row_upd cv_id i f (db_conversations d)\<rparr>"

definition add_conversation :: "conversation_row \<Rightarrow> db \<Rightarrow> db" where
  "add_conversation r d =
     d\<lparr>db_conversations := db_conversations d @ [r], db_next_id := Suc (db_next_id d)\<rparr>"

definition get_message :: "db \<Rightarrow> nat \<Rightarrow> message_row option" where
  "get_message d i = row_get ms_id (db_messages d) i"

definition upd_message :: "nat \<Rightarrow> (message_row \<Rightarrow> message_row) \<Rightarrow> db \<Rightarrow> db" where
  "upd_message i f d = d\<lparr>db_messages := row_upd ms_id i f (db_messages d)\<rparr>"

definition add_message :: "message_row \<Rightarrow> db \<Rightarrow> db" where
  "add_message r d = d\<lparr>db_messages := db_messages d @ [r], db_next_id := Suc (db_next_id d)\<rparr>"

definition get_run :: "db \<Rightarrow> nat \<Rightarrow> run_row option" where
  "get_run d i = row_get rn_id (db_runs d) i"

definition upd_run :: "nat \<Rightarrow> (run_row \<Rightarrow> run_row) \<Rightarrow> db \<Rightarrow> db" where
  "upd_run i f d = d\<lparr>db_runs := row_upd rn_id i f (db_runs d)\<rparr>"

definition add_run :: "run_row \<Rightarrow> db \<Rightarrow> db" where
  "add_run r d = d\<lparr>db_runs := db_runs d @ [r], db_next_id := Suc (db_next_id d)\<rparr>"

definition get_output :: "db \<Rightarrow> nat \<Rightarrow> output_row option" where
  "get_output d i = row_get so_id (db_outputs d) i"

definition upd_output :: "nat \<Rightarrow> (output_row \<Rightarrow> output_row) \<Rightarrow> db \<Rightarrow> db" where
  "upd_output i f d = d\<lparr>db_outputs := row_upd so_id i f (db_outputs d)\<rparr>"

definition add_output :: "output_row \<Rightarrow> db \<Rightarrow> db" where
  "add_output r d = d\<lparr>db_outputs := db_outputs d @ [r], db_next_id := Suc (db_next_id d)\<rparr>"

definition add_tool_call :: "tool_call_row \<Rightarrow> db \<Rightarrow> db" where
  "add_tool_call r d =
     d\<lparr>db_tool_calls := db_tool_calls d @ [r], db_next_id := Suc (db_next_id d)\<rparr>"

definition add_feedback :: "feedback_row \<Rightarrow> db \<Rightarrow> db" where
  "add_feedback r d = d\<lparr>db_feedback := db_feedback d @ [r], db_next_id := Suc (db_next_id d)\<rparr>"

definition map_feedback :: "(feedback_row \<Rightarrow> bool) \<Rightarrow> (feedback_row \<Rightarrow> feedback_row) \<Rightarrow> db \<Rightarrow> db" where
  "map_feedback p f d = d\<lparr>db_feedback := map (\<lambda>r. if p r then f r else r) (db_feedback d)\<rparr>"

lemmas table_defs =
  get_event_def upd_event_def add_event_def get_conversation_def upd_conversation_def
  add_conversation_def get_message_def upd_message_def add_message_def get_run_def upd_run_def
  add_run_def get_output_def upd_output_def add_output_def add_tool_call_def add_feedback_def
  map_feedback_def

section \<open>The contract of a table\<close>

locale row_table =
  fixes key :: "'r \<Rightarrow> nat"
    and get :: "'d \<Rightarrow> nat \<Rightarrow> 'r option"
    and upd :: "nat \<Rightarrow> ('r \<Rightarrow> 'r) \<Rightarrow> 'd \<Rightarrow> 'd"
    and add :: "'r \<Rightarrow> 'd \<Rightarrow> 'd"
  assumes get_key: "get d i = Some r \<Longrightarrow> key r = i"
    and get_upd: "keeps key f \<Longrightarrow>
      get (upd j f d) i = (if i = j then map_option f (get d i) else get d i)"
    and get_add: "get (add r d) i =
      (case get d i of None \<Rightarrow> (if key r = i then Some r else None) | Some x \<Rightarrow> Some x)"
begin

lemma get_upd_same: "keeps key f \<Longrightarrow> get (upd i f d) i = map_option f (get d i)"
  by (simp add: get_upd)

lemma get_upd_other: "keeps key f \<Longrightarrow> i \<noteq> j \<Longrightarrow> get (upd j f d) i = get d i"
  by (simp add: get_upd)

lemma get_add_old: "get d i = Some x \<Longrightarrow> get (add r d) i = Some x"
  by (simp add: get_add)

lemma get_add_new: "get d (key r) = None \<Longrightarrow> get (add r d) (key r) = Some r"
  by (simp add: get_add)

text \<open>A projection that an update leaves alone reads the same before and after.\<close>

lemma project_upd:
  assumes "keeps key f" and "\<And>r. p (f r) = p r"
  shows "map_option p (get (upd j f d) i) = map_option p (get d i)"
  using assms by (simp add: get_upd option.map_comp comp_def)

text \<open>A guarded update never leaves a protected state: the guard excludes it.\<close>

lemma guarded_upd:
  assumes "keeps key f" and "get d j = Some r0" and "\<not> protected r0"
    and "get d i = Some r" and "protected r"
  shows "get (upd j f d) i = Some r"
  using assms by (cases "i = j") (simp_all add: get_upd)

end

interpretation events: row_table ev_id get_event upd_event add_event
  by unfold_locales
    (simp_all add: table_defs row_simps row_get_Some split: option.splits)

interpretation conversations: row_table cv_id get_conversation upd_conversation add_conversation
  by unfold_locales
    (simp_all add: table_defs row_simps row_get_Some split: option.splits)

interpretation messages: row_table ms_id get_message upd_message add_message
  by unfold_locales
    (simp_all add: table_defs row_simps row_get_Some split: option.splits)

interpretation runs: row_table rn_id get_run upd_run add_run
  by unfold_locales
    (simp_all add: table_defs row_simps row_get_Some split: option.splits)

interpretation outputs: row_table so_id get_output upd_output add_output
  by unfold_locales
    (simp_all add: table_defs row_simps row_get_Some split: option.splits)

text \<open>Operations on one table leave the others alone.\<close>

lemma frame_simps [row_simps]:
  "get_run (upd_event i f d) j = get_run d j"
  "get_run (add_event e d) j = get_run d j"
  "get_run (upd_conversation i fc d) j = get_run d j"
  "get_run (add_conversation c d) j = get_run d j"
  "get_run (upd_message i fm d) j = get_run d j"
  "get_run (add_message m d) j = get_run d j"
  "get_run (upd_output i fo d) j = get_run d j"
  "get_run (add_output out d) j = get_run d j"
  "get_run (add_tool_call t d) j = get_run d j"
  "get_run (add_feedback fb d) j = get_run d j"
  "get_run (map_feedback p ff d) j = get_run d j"
  "get_output (upd_event i f d) j = get_output d j"
  "get_output (add_event e d) j = get_output d j"
  "get_output (upd_conversation i fc d) j = get_output d j"
  "get_output (add_conversation c d) j = get_output d j"
  "get_output (upd_message i fm d) j = get_output d j"
  "get_output (add_message m d) j = get_output d j"
  "get_output (upd_run i fr d) j = get_output d j"
  "get_output (add_run r d) j = get_output d j"
  "get_output (add_tool_call t d) j = get_output d j"
  "get_output (add_feedback fb d) j = get_output d j"
  "get_output (map_feedback p ff d) j = get_output d j"
  by (simp_all add: table_defs)

lemma frame_event_simps [row_simps]:
  "get_event (upd_conversation i fc d) j = get_event d j"
  "get_event (add_conversation c d) j = get_event d j"
  "get_event (add_message m d) j = get_event d j"
  "get_event (upd_run i fr d) j = get_event d j"
  "get_event (add_run r d) j = get_event d j"
  "get_event (upd_output i fo d) j = get_event d j"
  "get_event (add_output out d) j = get_event d j"
  "get_event (add_feedback fb d) j = get_event d j"
  "get_event (map_feedback p ff d) j = get_event d j"
  by (simp_all add: table_defs)

section \<open>The job queue\<close>

record job =
  jb_task :: string
  jb_queueing_lock :: string
  jb_lock :: "string option"
  jb_argument :: nat

datatype defer_outcome = Deferred | Already_enqueued | Defer_failed exn_name

type_synonym dq_fn = "job \<Rightarrow> job list \<Rightarrow> defer_outcome"

definition enqueue :: "dq_fn \<Rightarrow> job \<Rightarrow> job list \<Rightarrow> exn_name + (bool \<times> job list)" where
  "enqueue dq j jobs =
     (case dq j jobs of
        Deferred \<Rightarrow> Inr (True, jobs @ [j])
      | Already_enqueued \<Rightarrow> Inr (False, jobs)
      | Defer_failed e \<Rightarrow> Inl e)"

definition slack_event_job :: "nat \<Rightarrow> job" where
  "slack_event_job event_id =
     \<lparr>jb_task = ''cerebro.jobs.tasks.process_slack_event'',
      jb_queueing_lock = ''slack-event:'' @ show_nat event_id,
      jb_lock = None, jb_argument = event_id\<rparr>"

definition agent_run_job :: "nat \<Rightarrow> nat \<Rightarrow> job" where
  "agent_run_job run_id conversation_id =
     \<lparr>jb_task = ''cerebro.jobs.tasks.execute_agent_run'',
      jb_queueing_lock = ''agent-run:'' @ show_nat run_id,
      jb_lock = Some (''conversation:'' @ show_nat conversation_id), jb_argument = run_id\<rparr>"

definition slack_output_job :: "nat \<Rightarrow> job" where
  "slack_output_job output_id =
     \<lparr>jb_task = ''cerebro.jobs.tasks.deliver_slack_output'',
      jb_queueing_lock = ''slack-output:'' @ show_nat output_id,
      jb_lock = Some (''slack-output:'' @ show_nat output_id), jb_argument = output_id\<rparr>"

definition enqueue_slack_event :: "dq_fn \<Rightarrow> nat \<Rightarrow> job list \<Rightarrow> exn_name + (bool \<times> job list)" where
  "enqueue_slack_event dq event_id jobs = enqueue dq (slack_event_job event_id) jobs"

definition enqueue_agent_run ::
  "dq_fn \<Rightarrow> nat \<Rightarrow> nat \<Rightarrow> job list \<Rightarrow> exn_name + (bool \<times> job list)" where
  "enqueue_agent_run dq run_id conversation_id jobs =
     enqueue dq (agent_run_job run_id conversation_id) jobs"

definition enqueue_slack_output :: "dq_fn \<Rightarrow> nat \<Rightarrow> job list \<Rightarrow> exn_name + (bool \<times> job list)" where
  "enqueue_slack_output dq output_id jobs = enqueue dq (slack_output_job output_id) jobs"

lemmas enqueue_defs = enqueue_slack_event_def enqueue_agent_run_def enqueue_slack_output_def

text \<open>The documented behaviour of the queue: a job is refused exactly when a waiting job holds the
  same queueing lock. Under it the waiting jobs never share a lock.\<close>

definition lock_respecting :: "dq_fn \<Rightarrow> bool" where
  "lock_respecting dq \<longleftrightarrow>
     (\<forall>j jobs. dq j jobs = Deferred \<longrightarrow> jb_queueing_lock j \<notin> jb_queueing_lock ` set jobs)"

definition locks_distinct :: "job list \<Rightarrow> bool" where
  "locks_distinct jobs \<longleftrightarrow> distinct (map jb_queueing_lock jobs)"

lemma enqueue_locks_distinct:
  "lock_respecting dq \<Longrightarrow> locks_distinct jobs \<Longrightarrow> enqueue dq j jobs = Inr (b, jobs')
   \<Longrightarrow> locks_distinct jobs'"
  by (auto simp: enqueue_def lock_respecting_def locks_distinct_def split: defer_outcome.splits)

lemma enqueue_keeps_jobs: "enqueue dq j jobs = Inr (b, jobs') \<Longrightarrow> set jobs \<subseteq> set jobs'"
  by (auto simp: enqueue_def split: defer_outcome.splits)

definition plain_defer :: dq_fn where
  \<comment> \<open>a queue that behaves as documented, for examples\<close>
  "plain_defer j jobs =
     (if jb_queueing_lock j \<in> jb_queueing_lock ` set jobs then Already_enqueued else Deferred)"

lemma plain_defer_respecting: "lock_respecting plain_defer"
  by (simp add: lock_respecting_def plain_defer_def)

section \<open>Well-formed databases\<close>

text \<open>Every key is below the counter, keys are distinct, and the unique constraints hold.\<close>

definition ids_ok :: "nat \<Rightarrow> nat list \<Rightarrow> bool" where
  "ids_ok n ids \<longleftrightarrow> distinct ids \<and> (\<forall>i \<in> set ids. i < n)"

definition unique_some :: "'a option list \<Rightarrow> bool" where
  \<comment> \<open>a unique constraint on a nullable column\<close>
  "unique_some xs \<longleftrightarrow> distinct (List.map_filter id xs)"

definition db_ok :: "db \<Rightarrow> bool" where
  "db_ok d \<longleftrightarrow>
     ids_ok (db_next_id d) (map ev_id (db_events d)) \<and>
     ids_ok (db_next_id d) (map cv_id (db_conversations d)) \<and>
     ids_ok (db_next_id d) (map ms_id (db_messages d)) \<and>
     ids_ok (db_next_id d) (map rn_id (db_runs d)) \<and>
     ids_ok (db_next_id d) (map so_id (db_outputs d)) \<and>
     distinct (map ev_slack_event_id (db_events d)) \<and>
     distinct (map (\<lambda>c. (cv_channel c, cv_thread_ts c)) (db_conversations d)) \<and>
     distinct (map (\<lambda>m. (ms_channel m, ms_message_ts m)) (db_messages d)) \<and>
     unique_some (map rn_trigger_message_id (db_runs d)) \<and>
     distinct (map so_idempotency_key (db_outputs d)) \<and>
     distinct (map (\<lambda>t. (tc_run_id t, ta_sequence (tc_record t))) (db_tool_calls d)) \<and>
     distinct (map (\<lambda>f. (fb_channel f, fb_message_ts f, fb_user f, fb_reaction f)) (db_feedback d))"

lemma db_ok_empty: "db_ok empty_db"
  by (simp add: db_ok_def empty_db_def ids_ok_def unique_some_def map_filter_simps)

lemma ids_ok_add: "ids_ok n ids \<Longrightarrow> ids_ok (Suc n) (ids @ [n])"
  by (auto simp: ids_ok_def less_Suc_eq)

lemma ids_ok_mono: "ids_ok n ids \<Longrightarrow> ids_ok (Suc n) ids"
  by (auto simp: ids_ok_def less_Suc_eq)

lemma unique_some_add:
  "unique_some xs \<Longrightarrow> (\<forall>v. x = Some v \<longrightarrow> Some v \<notin> set xs) \<Longrightarrow> unique_some (xs @ [x])"
  by (cases x) (auto simp: unique_some_def map_filter_def)

lemmas db_ok_simps = db_ok_def table_defs ids_ok_mono ids_ok_add

lemma db_ok_add_event:
  "db_ok d \<Longrightarrow> ev_id r = db_next_id d \<Longrightarrow> ev_slack_event_id r \<notin> ev_slack_event_id ` set (db_events d)
   \<Longrightarrow> db_ok (add_event r d)"
  by (simp add: db_ok_simps)

lemma db_ok_add_conversation:
  "db_ok d \<Longrightarrow> cv_id r = db_next_id d \<Longrightarrow>
   (cv_channel r, cv_thread_ts r) \<notin> (\<lambda>c. (cv_channel c, cv_thread_ts c)) ` set (db_conversations d)
   \<Longrightarrow> db_ok (add_conversation r d)"
  by (simp add: db_ok_simps)

lemma db_ok_add_message:
  "db_ok d \<Longrightarrow> ms_id r = db_next_id d \<Longrightarrow>
   (ms_channel r, ms_message_ts r) \<notin> (\<lambda>m. (ms_channel m, ms_message_ts m)) ` set (db_messages d)
   \<Longrightarrow> db_ok (add_message r d)"
  by (simp add: db_ok_simps)

lemma db_ok_add_run:
  "db_ok d \<Longrightarrow> rn_id r = db_next_id d \<Longrightarrow>
   rn_trigger_message_id r \<notin> rn_trigger_message_id ` set (db_runs d) \<Longrightarrow> db_ok (add_run r d)"
  by (auto simp: db_ok_simps image_iff intro!: unique_some_add)

lemma db_ok_add_output:
  "db_ok d \<Longrightarrow> so_id r = db_next_id d \<Longrightarrow>
   so_idempotency_key r \<notin> so_idempotency_key ` set (db_outputs d) \<Longrightarrow> db_ok (add_output r d)"
  by (simp add: db_ok_simps)

lemma db_ok_add_tool_call:
  "db_ok d \<Longrightarrow> (tc_run_id r, ta_sequence (tc_record r))
     \<notin> (\<lambda>t. (tc_run_id t, ta_sequence (tc_record t))) ` set (db_tool_calls d)
   \<Longrightarrow> db_ok (add_tool_call r d)"
  by (simp add: db_ok_simps)

lemma db_ok_add_feedback:
  "db_ok d \<Longrightarrow> (fb_channel r, fb_message_ts r, fb_user r, fb_reaction r)
     \<notin> (\<lambda>f. (fb_channel f, fb_message_ts f, fb_user f, fb_reaction f)) ` set (db_feedback d)
   \<Longrightarrow> db_ok (add_feedback r d)"
  by (simp add: db_ok_simps)

lemmas db_ok_adds =
  db_ok_add_event db_ok_add_conversation db_ok_add_message db_ok_add_run db_ok_add_output
  db_ok_add_tool_call db_ok_add_feedback

text \<open>An update that keeps the key and the unique columns of its row keeps the database well
  formed.\<close>

lemma db_ok_upd_event:
  "db_ok d \<Longrightarrow> (\<And>r. ev_id (f r) = ev_id r) \<Longrightarrow> (\<And>r. ev_slack_event_id (f r) = ev_slack_event_id r)
   \<Longrightarrow> db_ok (upd_event i f d)"
  by (simp add: db_ok_simps map_row_upd)

lemma db_ok_upd_conversation:
  "db_ok d \<Longrightarrow> (\<And>r. cv_id (f r) = cv_id r) \<Longrightarrow>
   (\<And>r. (cv_channel (f r), cv_thread_ts (f r)) = (cv_channel r, cv_thread_ts r))
   \<Longrightarrow> db_ok (upd_conversation i f d)"
  by (simp add: db_ok_simps map_row_upd)

lemma db_ok_upd_run:
  "db_ok d \<Longrightarrow> (\<And>r. rn_id (f r) = rn_id r) \<Longrightarrow>
   (\<And>r. rn_trigger_message_id (f r) = rn_trigger_message_id r) \<Longrightarrow> db_ok (upd_run i f d)"
  by (simp add: db_ok_simps map_row_upd)

lemma db_ok_upd_output:
  "db_ok d \<Longrightarrow> (\<And>r. so_id (f r) = so_id r) \<Longrightarrow>
   (\<And>r. so_idempotency_key (f r) = so_idempotency_key r) \<Longrightarrow> db_ok (upd_output i f d)"
  by (simp add: db_ok_simps map_row_upd)

lemma db_ok_map_feedback:
  assumes "db_ok d"
    and "\<And>r. (fb_channel (f r), fb_message_ts (f r), fb_user (f r), fb_reaction (f r)) =
           (fb_channel r, fb_message_ts r, fb_user r, fb_reaction r)"
  shows "db_ok (map_feedback p f d)"
proof -
  have eq: "map (\<lambda>r. (fb_channel r, fb_message_ts r, fb_user r, fb_reaction r))
          (map (\<lambda>r. if p r then f r else r) rows) =
        map (\<lambda>r. (fb_channel r, fb_message_ts r, fb_user r, fb_reaction r)) rows" for rows
    using assms(2) by (induction rows) auto
  show ?thesis
    using assms(1) by (simp add: db_ok_simps eq del: map_map)
qed

lemmas db_ok_upds =
  db_ok_upd_event db_ok_upd_conversation db_ok_upd_run db_ok_upd_output db_ok_map_feedback

lemma fresh_run_trigger:
  \<comment> \<open>a message key drawn from the counter is not yet the trigger of a run\<close>
  "(\<forall>r \<in> set (db_runs d). \<forall>m. rn_trigger_message_id r = Some m \<longrightarrow> m < db_next_id d) \<Longrightarrow>
   Some (db_next_id d) \<notin> rn_trigger_message_id ` set (db_runs d)"
  by force

lemma keeps_simps [simp]:
  "(\<And>r. key (f r) = key r) \<Longrightarrow> keeps key f"
  by (simp add: keeps_def)

text \<open>Foreign keys: what a row refers to exists. Nothing is ever deleted, so they survive.\<close>

definition fk_ok :: "db \<Rightarrow> bool" where
  "fk_ok d \<longleftrightarrow>
     (\<forall>m \<in> set (db_messages d). ms_conversation_id m \<in> cv_id ` set (db_conversations d)) \<and>
     (\<forall>r \<in> set (db_runs d). rn_conversation_id r \<in> cv_id ` set (db_conversations d) \<and>
        (\<forall>m. rn_trigger_message_id r = Some m \<longrightarrow> m \<in> ms_id ` set (db_messages d))) \<and>
     (\<forall>out \<in> set (db_outputs d). so_conversation_id out \<in> cv_id ` set (db_conversations d) \<and>
        (\<forall>r. so_run_id out = Some r \<longrightarrow> r \<in> rn_id ` set (db_runs d)))"

definition invariant :: "db \<Rightarrow> bool" where
  "invariant d \<longleftrightarrow> db_ok d \<and> fk_ok d"

lemma invariant_empty: "invariant empty_db"
  by (simp add: invariant_def db_ok_empty) (simp add: fk_ok_def empty_db_def)

lemma image_row_upd:
  assumes "\<And>r. key (f r) = key r"
  shows "key ` set (row_upd key i f rows) = key ` set rows"
proof -
  have "map key (row_upd key i f rows) = map key rows"
    using assms by (intro keys_row_upd) (simp add: keeps_def)
  then show ?thesis by (metis set_map)
qed

lemma fk_ok_adds:
  "fk_ok d \<Longrightarrow> fk_ok (add_event e d)"
  "fk_ok d \<Longrightarrow> fk_ok (add_conversation c d)"
  "fk_ok d \<Longrightarrow> ms_conversation_id m \<in> cv_id ` set (db_conversations d) \<Longrightarrow> fk_ok (add_message m d)"
  "fk_ok d \<Longrightarrow> rn_conversation_id r \<in> cv_id ` set (db_conversations d) \<Longrightarrow>
     (\<And>m. rn_trigger_message_id r = Some m \<Longrightarrow> m \<in> ms_id ` set (db_messages d)) \<Longrightarrow> fk_ok (add_run r d)"
  "fk_ok d \<Longrightarrow> so_conversation_id out \<in> cv_id ` set (db_conversations d) \<Longrightarrow>
     (\<And>r. so_run_id out = Some r \<Longrightarrow> r \<in> rn_id ` set (db_runs d)) \<Longrightarrow> fk_ok (add_output out d)"
  "fk_ok d \<Longrightarrow> fk_ok (add_tool_call t d)"
  "fk_ok d \<Longrightarrow> fk_ok (add_feedback fb d)"
  by (auto simp: fk_ok_def table_defs)

lemma fk_ok_upd_event: "fk_ok d \<Longrightarrow> fk_ok (upd_event i f d)"
  by (simp add: fk_ok_def table_defs)

lemma fk_ok_map_feedback: "fk_ok d \<Longrightarrow> fk_ok (map_feedback p f d)"
  by (simp add: fk_ok_def table_defs)

lemma fk_ok_upd_conversation:
  "fk_ok d \<Longrightarrow> (\<And>r. cv_id (f r) = cv_id r) \<Longrightarrow> fk_ok (upd_conversation i f d)"
  by (simp add: fk_ok_def table_defs image_row_upd)

lemma fk_ok_upd_run:
  assumes "fk_ok d" and "\<And>r. rn_id (f r) = rn_id r"
    and "\<And>r. rn_conversation_id (f r) = rn_conversation_id r"
    and "\<And>r. rn_trigger_message_id (f r) = rn_trigger_message_id r"
  shows "fk_ok (upd_run i f d)"
  using assms by (auto simp: fk_ok_def table_defs image_row_upd dest!: set_row_upd split: if_splits)

lemma fk_ok_upd_output:
  assumes "fk_ok d" and "\<And>r. so_conversation_id (f r) = so_conversation_id r"
    and "\<And>r. so_run_id (f r) = so_run_id r"
  shows "fk_ok (upd_output i f d)"
  using assms by (auto simp: fk_ok_def table_defs dest!: set_row_upd split: if_splits)

lemmas fk_ok_upds =
  fk_ok_upd_event fk_ok_map_feedback fk_ok_upd_conversation fk_ok_upd_run fk_ok_upd_output

lemma invariant_upd_event:
  "invariant d \<Longrightarrow> (\<And>r. ev_id (f r) = ev_id r) \<Longrightarrow>
   (\<And>r. ev_slack_event_id (f r) = ev_slack_event_id r) \<Longrightarrow> invariant (upd_event i f d)"
  by (simp add: invariant_def db_ok_upds fk_ok_upds)

lemma invariant_upd_conversation:
  "invariant d \<Longrightarrow> (\<And>r. cv_id (f r) = cv_id r) \<Longrightarrow> (\<And>r. cv_channel (f r) = cv_channel r) \<Longrightarrow>
   (\<And>r. cv_thread_ts (f r) = cv_thread_ts r) \<Longrightarrow> invariant (upd_conversation i f d)"
  by (simp add: invariant_def db_ok_upds fk_ok_upds)

lemma invariant_upd_run:
  "invariant d \<Longrightarrow> (\<And>r. rn_id (f r) = rn_id r) \<Longrightarrow>
   (\<And>r. rn_conversation_id (f r) = rn_conversation_id r) \<Longrightarrow>
   (\<And>r. rn_trigger_message_id (f r) = rn_trigger_message_id r) \<Longrightarrow> invariant (upd_run i f d)"
  by (simp add: invariant_def db_ok_upds fk_ok_upds)

lemma invariant_upd_output:
  "invariant d \<Longrightarrow> (\<And>r. so_id (f r) = so_id r) \<Longrightarrow>
   (\<And>r. so_idempotency_key (f r) = so_idempotency_key r) \<Longrightarrow>
   (\<And>r. so_conversation_id (f r) = so_conversation_id r) \<Longrightarrow>
   (\<And>r. so_run_id (f r) = so_run_id r) \<Longrightarrow> invariant (upd_output i f d)"
  by (simp add: invariant_def db_ok_upds fk_ok_upds)

lemma invariant_add_output:
  "invariant d \<Longrightarrow> so_id out = db_next_id d \<Longrightarrow>
   so_idempotency_key out \<notin> so_idempotency_key ` set (db_outputs d) \<Longrightarrow>
   so_conversation_id out \<in> cv_id ` set (db_conversations d) \<Longrightarrow>
   (\<And>r. so_run_id out = Some r \<Longrightarrow> r \<in> rn_id ` set (db_runs d)) \<Longrightarrow> invariant (add_output out d)"
  by (simp add: invariant_def db_ok_adds fk_ok_adds)

lemma invariant_add_message:
  "invariant d \<Longrightarrow> ms_id m = db_next_id d \<Longrightarrow>
   (ms_channel m, ms_message_ts m) \<notin> (\<lambda>m. (ms_channel m, ms_message_ts m)) ` set (db_messages d) \<Longrightarrow>
   ms_conversation_id m \<in> cv_id ` set (db_conversations d) \<Longrightarrow> invariant (add_message m d)"
  by (simp add: invariant_def db_ok_adds fk_ok_adds)

lemma invariant_add_run:
  "invariant d \<Longrightarrow> rn_id r = db_next_id d \<Longrightarrow>
   rn_trigger_message_id r \<notin> rn_trigger_message_id ` set (db_runs d) \<Longrightarrow>
   rn_conversation_id r \<in> cv_id ` set (db_conversations d) \<Longrightarrow>
   (\<And>m. rn_trigger_message_id r = Some m \<Longrightarrow> m \<in> ms_id ` set (db_messages d)) \<Longrightarrow>
   invariant (add_run r d)"
  by (simp add: invariant_def db_ok_adds fk_ok_adds)

lemma invariant_add_tool_call:
  "invariant d \<Longrightarrow> (tc_run_id r, ta_sequence (tc_record r))
     \<notin> (\<lambda>t. (tc_run_id t, ta_sequence (tc_record t))) ` set (db_tool_calls d)
   \<Longrightarrow> invariant (add_tool_call r d)"
  by (simp add: invariant_def db_ok_add_tool_call fk_ok_adds)

lemma invariant_add_feedback:
  "invariant d \<Longrightarrow> (fb_channel r, fb_message_ts r, fb_user r, fb_reaction r)
     \<notin> (\<lambda>f. (fb_channel f, fb_message_ts f, fb_user f, fb_reaction f)) ` set (db_feedback d)
   \<Longrightarrow> invariant (add_feedback r d)"
  by (simp add: invariant_def db_ok_add_feedback fk_ok_adds)

lemma invariant_map_feedback:
  "invariant d \<Longrightarrow> (\<And>r. fb_channel (f r) = fb_channel r) \<Longrightarrow>
   (\<And>r. fb_message_ts (f r) = fb_message_ts r) \<Longrightarrow> (\<And>r. fb_user (f r) = fb_user r) \<Longrightarrow>
   (\<And>r. fb_reaction (f r) = fb_reaction r) \<Longrightarrow> invariant (map_feedback p f d)"
  by (simp add: invariant_def db_ok_map_feedback fk_ok_map_feedback)

lemmas invariant_adds =
  invariant_add_output invariant_add_message invariant_add_run invariant_add_tool_call
  invariant_add_feedback

lemma add_simps [row_simps]:
  "db_next_id (add_message m d) = Suc (db_next_id d)"
  "db_conversations (add_message m d) = db_conversations d"
  "db_messages (add_message m d) = db_messages d @ [m]"
  "db_runs (add_message m d) = db_runs d"
  "db_runs (add_run r d) = db_runs d @ [r]"
  "db_conversations (add_run r d) = db_conversations d"
  "db_messages (add_run r d) = db_messages d"
  "db_outputs (add_output out d) = db_outputs d @ [out]"
  "db_runs (add_output out d) = db_runs d"
  "db_messages (add_output out d) = db_messages d"
  "db_runs (upd_event i f d) = db_runs d"
  "db_messages (upd_event i f d) = db_messages d"
  "db_outputs (upd_event i f d) = db_outputs d"
  "db_runs (upd_conversation i fc d) = db_runs d"
  "db_messages (upd_conversation i fc d) = db_messages d"
  "db_runs (add_conversation c d) = db_runs d"
  "db_messages (add_conversation c d) = db_messages d"
  "db_conversations (upd_event i f d) = db_conversations d"
  by (simp_all add: table_defs)

lemmas invariant_upds =
  invariant_upd_event invariant_upd_conversation invariant_upd_run invariant_upd_output
  invariant_map_feedback

end
