(* ===== verification/Service.thy ===== *)
theory Service
  imports Store
begin

text \<open>
  Ingestion (\<open>slack/service.py\<close>): persisting an event once, turning a stored message event into a
  conversation, a message and a queued run, and recording reactions as feedback. A transaction that
  raises leaves the database as it was; the handler then records the failure in a transaction of
  its own, as the code does. \<open>svc_env\<close> holds what the code reads from outside: the settings, the
  clock, the queue, and \<open>parse_ts\<close>, the conversion of a Slack timestamp by \<open>float\<close> and
  \<open>datetime.fromtimestamp\<close>.
\<close>

datatype ts_parse = Ts_ok int | Ts_value_error | Ts_raises exn_name

record svc_env =
  se_config :: app_config
  se_now :: int
  se_parse_ts :: "string \<Rightarrow> ts_parse"
  se_dq :: dq_fn

datatype slack_call =
  Set_status string string string           \<comment> \<open>channel, thread, status\<close>
| Post_message string string string string  \<comment> \<open>channel, thread, text, client message id\<close>

record world =
  w_db :: db
  w_jobs :: "job list"
  w_slack :: "slack_call list"

section \<open>Receiving\<close>

definition event_time :: "svc_env \<Rightarrow> string \<Rightarrow> exn_name + int" where
  "event_time env message_ts =
     (case se_parse_ts env message_ts of
        Ts_ok t \<Rightarrow> Inr t
      | Ts_value_error \<Rightarrow> Inr (se_now env)
      | Ts_raises e \<Rightarrow> Inl e)"

definition event_ignored :: "svc_env \<Rightarrow> normalized_event \<Rightarrow> bool" where
  "event_ignored env event \<longleftrightarrow>
     ne_kind event = Ek_ignored \<or> cfg_global_mode (se_config env) = Mode_off"

definition new_event_row :: "svc_env \<Rightarrow> nat \<Rightarrow> normalized_event \<Rightarrow> event_row" where
  "new_event_row env i event =
     \<lparr>ev_id = i, ev_slack_event_id = ne_slack_event_id event, ev_event_type = ne_event_type event,
      ev_payload = ne_payload event, ev_kind = ne_kind event,
      ev_disposition = (if event_ignored env event then Ev_ignored else Ev_received),
      ev_received_at = se_now env,
      ev_processed_at = (if event_ignored env event then Some (se_now env) else None),
      ev_error = None\<rparr>"

definition insert_event :: "svc_env \<Rightarrow> normalized_event \<Rightarrow> db \<Rightarrow> db \<times> nat option" where
  "insert_event env event d =
     (if ne_slack_event_id event \<in> ev_slack_event_id ` set (db_events d) then (d, None)
      else (add_event (new_event_row env (db_next_id d) event) d, Some (db_next_id d)))"

definition mark_queued :: "nat \<Rightarrow> db \<Rightarrow> db" where
  "mark_queued event_id d =
     (case get_event d event_id of
        Some stored \<Rightarrow>
          (if ev_disposition stored = Ev_received
           then upd_event event_id (\<lambda>r. r\<lparr>ev_disposition := Ev_queued\<rparr>) d else d)
      | None \<Rightarrow> d)"

definition receive_event ::
  "svc_env \<Rightarrow> normalized_event \<Rightarrow> world \<Rightarrow> world \<times> (exn_name + nat option)" where
  "receive_event env event w =
     (let (d, event_id) = insert_event env event (w_db w); w1 = w\<lparr>w_db := d\<rparr> in
      case event_id of
        None \<Rightarrow> (w1, Inr None)
      | Some i \<Rightarrow>
          (if event_ignored env event then (w1, Inr (Some i))
           else case enqueue_slack_event (se_dq env) i (w_jobs w1) of
                  Inl e \<Rightarrow> (w1, Inl e)
                | Inr (True, jobs) \<Rightarrow>
                    (w1\<lparr>w_jobs := jobs, w_db := mark_queued i d\<rparr>, Inr (Some i))
                | Inr (False, jobs) \<Rightarrow> (w1\<lparr>w_jobs := jobs\<rparr>, Inr (Some i))))"

section \<open>Messages\<close>

text \<open>Reading a key that the payload does not have raises \<open>KeyError\<close>: \<open>None\<close> here.\<close>

fun payload_channel :: "event_payload \<Rightarrow> string option" where
  "payload_channel (Ignored_payload _ _ _) = None"
| "payload_channel (Reaction_payload p) = Some (rp_channel p)"
| "payload_channel (Message_payload p) = Some (mp_channel p)"

fun payload_message_ts :: "event_payload \<Rightarrow> string option" where
  "payload_message_ts (Ignored_payload _ _ _) = None"
| "payload_message_ts (Reaction_payload p) = Some (rp_message_ts p)"
| "payload_message_ts (Message_payload p) = Some (mp_message_ts p)"

fun payload_user :: "event_payload \<Rightarrow> string option" where
  "payload_user (Ignored_payload _ _ _) = None"
| "payload_user (Reaction_payload p) = Some (rp_user p)"
| "payload_user (Message_payload p) = Some (mp_user p)"

fun payload_reaction :: "event_payload \<Rightarrow> string option" where
  "payload_reaction (Reaction_payload p) = Some (rp_reaction p)"
| "payload_reaction _ = None"

definition find_conversation :: "db \<Rightarrow> string \<Rightarrow> string \<Rightarrow> conversation_row option" where
  "find_conversation d channel thread_ts =
     List.find (\<lambda>c. cv_channel c = channel \<and> cv_thread_ts c = thread_ts) (db_conversations d)"

definition upsert_conversation ::
  "db \<Rightarrow> event_payload \<Rightarrow> bool \<Rightarrow> exn_name + (db \<times> nat option)" where
  "upsert_conversation d payload create =
     (case payload of
        Message_payload p \<Rightarrow>
          (let channel = mp_channel p; thread_ts = py_str (mp_thread_ts p);
               existing = find_conversation d channel thread_ts
           in if \<not> create then Inr (d, map_option cv_id existing)
              else case existing of
                Some c \<Rightarrow>
                  Inr (upd_conversation (cv_id c)
                         (\<lambda>r. r\<lparr>cv_latest_question := Some (mp_text p)\<rparr>) d, Some (cv_id c))
              | None \<Rightarrow>
                  Inr (add_conversation
                         \<lparr>cv_id = db_next_id d, cv_channel = channel, cv_thread_ts = thread_ts,
                          cv_requester = mp_user p, cv_state = Conv_open,
                          cv_latest_question = Some (mp_text p)\<rparr> d,
                       Some (db_next_id d)))
      | _ \<Rightarrow> Inl ''KeyError'')"

definition image_json :: "image_meta \<Rightarrow> json" where
  "image_json im =
     JObj [(''id'', JStr (im_id im)),
           (''name'', (case im_name im of Some n \<Rightarrow> JStr n | None \<Rightarrow> JNull)),
           (''mimetype'', JStr (im_mimetype im)), (''size'', JInt (im_size im))]"

definition summary_json :: "attachment_summary \<Rightarrow> json" where
  "summary_json s =
     JObj [(''requested'', JInt (as_requested s)), (''accepted'', JInt (as_accepted s)),
           (''rejected'', JInt (as_rejected s))]"

definition inbound_row ::
  "svc_env \<Rightarrow> nat \<Rightarrow> nat \<Rightarrow> message_payload \<Rightarrow> int \<Rightarrow> message_row" where
  "inbound_row env i conversation_id p event_at =
     (let file_metadata = map image_json (mp_files p) in
      \<lparr>ms_id = i, ms_conversation_id = conversation_id, ms_channel = mp_channel p,
       ms_message_ts = mp_message_ts p, ms_thread_ts = py_str (mp_thread_ts p),
       ms_sender = Some (mp_user p), ms_direction = ''inbound'',
       ms_kind = (if file_metadata \<noteq> [] then ''image'' else ''text''),
       ms_text = Some (mp_text p),
       ms_file_metadata = (if file_metadata \<noteq> [] then Some file_metadata else None),
       ms_raw = JObj [(''event_type'', JStr (mp_event_type p)),
                      (''image_count'', JInt (int (length file_metadata))),
                      (''attachment_summary'', summary_json (mp_attachment_summary p))],
       ms_event_at = event_at, ms_created_at = se_now env\<rparr>)"

definition queued_run :: "svc_env \<Rightarrow> nat \<Rightarrow> nat \<Rightarrow> nat \<Rightarrow> run_row" where
  "queued_run env i conversation_id message_id =
     \<lparr>rn_id = i, rn_conversation_id = conversation_id, rn_trigger_message_id = Some message_id,
      rn_status = Run_queued, rn_request_kind = Req_payment_identification,
      rn_input_snapshot = None, rn_steps = None, rn_structured_result = None,
      rn_output_message = None, rn_prompt_version = None, rn_knowledge_version = None,
      rn_completion_reason = None, rn_model = None, rn_input_tokens = None,
      rn_output_tokens = None, rn_turns = None, rn_tool_calls = None, rn_latency_ms = None,
      rn_started_at = None, rn_finished_at = None, rn_error_code = None, rn_error_detail = None,
      rn_created_at = se_now env\<rparr>"

definition store_trigger ::
  "svc_env \<Rightarrow> db \<Rightarrow> nat \<Rightarrow> message_payload \<Rightarrow> exn_name + (db \<times> nat option \<times> nat option)" where
  "store_trigger env d conversation_id p =
     (case event_time env (mp_message_ts p) of
        Inl e \<Rightarrow> Inl e
      | Inr event_at \<Rightarrow>
          (if (mp_channel p, mp_message_ts p) \<in> (\<lambda>m. (ms_channel m, ms_message_ts m)) ` set (db_messages d)
           then Inr (d, None, None)
           else
             (let message_id = db_next_id d;
                  d1 = add_message (inbound_row env message_id conversation_id p event_at) d
              in if Some message_id \<in> rn_trigger_message_id ` set (db_runs d1)
                 then Inr (d1, Some message_id, None)
                 else let run_id = db_next_id d1 in
                   Inr (add_run (queued_run env run_id conversation_id message_id) d1,
                        Some message_id, Some run_id))))"

definition finish_event :: "svc_env \<Rightarrow> nat \<Rightarrow> event_disposition \<Rightarrow> db \<Rightarrow> db" where
  "finish_event env i disposition d =
     upd_event i (\<lambda>r. r\<lparr>ev_disposition := disposition, ev_processed_at := Some (se_now env)\<rparr>) d"

definition process_message ::
  "svc_env \<Rightarrow> db \<Rightarrow> event_row \<Rightarrow> exn_name + (db \<times> (nat \<times> nat) option)" where
  "process_message env d event =
     (case upsert_conversation d (ev_payload event) (ev_event_type event = ''app_mention'') of
        Inl e \<Rightarrow> Inl e
      | Inr (d1, None) \<Rightarrow> Inr (finish_event env (ev_id event) Ev_ignored d1, None)
      | Inr (d1, Some conversation_id) \<Rightarrow>
          (case ev_payload event of
             Message_payload p \<Rightarrow>
               (case store_trigger env d1 conversation_id p of
                  Inl e \<Rightarrow> Inl e
                | Inr (d2, _, run_id) \<Rightarrow>
                    (let d3 = finish_event env (ev_id event) Ev_processed d2 in
                     case run_id of
                       None \<Rightarrow> Inr (d3, None)
                     | Some rid \<Rightarrow>
                         Inr (upd_conversation conversation_id
                                (\<lambda>c. c\<lparr>cv_state := Conv_running,
                                       cv_latest_question := Some (mp_text p)\<rparr>) d3,
                              Some (rid, conversation_id))))
           | _ \<Rightarrow> Inl ''KeyError''))"

section \<open>Reactions\<close>

definition flavor_body :: string where
  \<comment> \<open>the code's text ends with two emoji, which the alphabet of the model does not have\<close>
  "flavor_body = ''Arrrrgghhh ''"

definition flavor_key :: "reaction_payload \<Rightarrow> string" where
  "flavor_key p = ''feedback:'' @ rp_channel p @ '':'' @ rp_message_ts p @ '':'' @ rp_user p
                  @ '':electric_plug''"

definition find_reply :: "db \<Rightarrow> string \<Rightarrow> string \<Rightarrow> output_row option" where
  "find_reply d channel message_ts =
     List.find (\<lambda>r. so_channel r = channel \<and> so_message_ts r = Some message_ts \<and>
                    so_kind r \<in> {Kind_investigation, Kind_general_reply}) (db_outputs d)"

definition same_feedback :: "reaction_payload \<Rightarrow> feedback_row \<Rightarrow> bool" where
  "same_feedback p f \<longleftrightarrow>
     fb_channel f = rp_channel p \<and> fb_message_ts f = rp_message_ts p \<and>
     fb_user f = rp_user p \<and> fb_reaction f = rp_reaction p"

definition upsert_feedback :: "svc_env \<Rightarrow> output_row \<Rightarrow> reaction_payload \<Rightarrow> db \<Rightarrow> db" where
  "upsert_feedback env reply p d =
     (if \<exists>f \<in> set (db_feedback d). same_feedback p f
      then map_feedback (same_feedback p)
             (\<lambda>f. f\<lparr>fb_is_active := True, fb_updated_at := se_now env\<rparr>) d
      else add_feedback
             \<lparr>fb_id = db_next_id d, fb_conversation_id = so_conversation_id reply,
              fb_run_id = so_run_id reply, fb_channel = rp_channel p,
              fb_message_ts = rp_message_ts p, fb_user = rp_user p, fb_reaction = rp_reaction p,
              fb_sentiment = (if rp_reaction p = ''cheese_wedge'' then ''positive'' else ''negative''),
              fb_is_active = True, fb_updated_at = se_now env\<rparr> d)"

definition deactivate_feedback :: "svc_env \<Rightarrow> reaction_payload \<Rightarrow> db \<Rightarrow> db" where
  "deactivate_feedback env p d =
     map_feedback (same_feedback p)
       (\<lambda>f. if fb_is_active f then f\<lparr>fb_is_active := False, fb_updated_at := se_now env\<rparr> else f) d"

definition pending_output ::
  "svc_env \<Rightarrow> nat \<Rightarrow> nat \<Rightarrow> nat option \<Rightarrow> string \<Rightarrow> string \<Rightarrow> string \<Rightarrow> string \<Rightarrow> output_kind
   \<Rightarrow> output_row" where
  "pending_output env i conversation_id run_id channel thread_ts key body kind =
     \<lparr>so_id = i, so_conversation_id = conversation_id, so_run_id = run_id, so_channel = channel,
      so_thread_ts = thread_ts, so_message_ts = None, so_idempotency_key = key, so_body = body,
      so_kind = kind, so_status = Out_pending, so_attempts = 0, so_last_error = None,
      so_sent_at = None, so_created_at = se_now env, so_updated_at = se_now env\<rparr>"

definition insert_output :: "output_row \<Rightarrow> db \<Rightarrow> db \<times> nat option" where
  \<comment> \<open>\<open>on_conflict_do_nothing\<close> on the idempotency key, returning the new id\<close>
  "insert_output r d =
     (if so_idempotency_key r \<in> so_idempotency_key ` set (db_outputs d) then (d, None)
      else (add_output r d, Some (so_id r)))"

definition process_reaction ::
  "svc_env \<Rightarrow> db \<Rightarrow> event_row \<Rightarrow> exn_name + (db \<times> nat option)" where
  "process_reaction env d event =
     (case (payload_channel (ev_payload event), payload_message_ts (ev_payload event)) of
        (Some channel, Some message_ts) \<Rightarrow>
          (case find_reply d channel message_ts of
             None \<Rightarrow> Inr (finish_event env (ev_id event) Ev_ignored d, None)
           | Some reply \<Rightarrow>
               (case ev_payload event of
                  Reaction_payload p \<Rightarrow>
                    (let added = (ev_event_type event = ''reaction_added'');
                         d1 = (if added then upsert_feedback env reply p d
                               else deactivate_feedback env p d);
                         (d2, output_id) =
                           (if added \<and> rp_reaction p = ''electric_plug''
                               \<and> cfg_global_mode (se_config env) = Mode_enabled
                            then insert_output
                                   (pending_output env (db_next_id d1) (so_conversation_id reply)
                                      (so_run_id reply) (so_channel reply) (so_thread_ts reply)
                                      (flavor_key p) flavor_body Kind_feedback_flavor) d1
                            else (d1, None))
                     in Inr (finish_event env (ev_id event) Ev_processed d2, output_id))
                | _ \<Rightarrow> Inl ''KeyError''))
      | _ \<Rightarrow> Inl ''KeyError'')"

section \<open>Processing a stored event\<close>

datatype process_outcome =
  Nothing_to_do
| Processed "(nat \<times> nat) option" "nat option"  \<comment> \<open>run to enqueue, output to enqueue\<close>

definition process_txn :: "svc_env \<Rightarrow> db \<Rightarrow> nat \<Rightarrow> exn_name + (db \<times> process_outcome)" where
  "process_txn env d event_id =
     (case get_event d event_id of
        None \<Rightarrow> Inr (d, Nothing_to_do)
      | Some event \<Rightarrow>
          (if ev_disposition event \<in> {Ev_processed, Ev_ignored} then Inr (d, Nothing_to_do)
           else if cfg_global_mode (se_config env) = Mode_off
           then Inr (finish_event env event_id Ev_ignored d, Nothing_to_do)
           else if ev_event_type event \<in> {''app_mention'', ''message''} then
             (case process_message env d event of
                Inl e \<Rightarrow> Inl e
              | Inr (d1, run_id) \<Rightarrow> Inr (d1, Processed run_id None))
           else if ev_event_type event \<in> {''reaction_added'', ''reaction_removed''} then
             (case process_reaction env d event of
                Inl e \<Rightarrow> Inl e
              | Inr (d1, output_id) \<Rightarrow> Inr (d1, Processed None output_id))
           else Inr (finish_event env event_id Ev_ignored d, Processed None None)))"

definition mark_event_failed :: "nat \<Rightarrow> exn_name \<Rightarrow> db \<Rightarrow> db" where
  "mark_event_failed event_id e d =
     (case get_event d event_id of
        None \<Rightarrow> d
      | Some _ \<Rightarrow> upd_event event_id (\<lambda>r. r\<lparr>ev_disposition := Ev_failed, ev_error := Some e\<rparr>) d)"

definition process_stored_event ::
  "svc_env \<Rightarrow> nat \<Rightarrow> world \<Rightarrow> world \<times> (exn_name + unit)" where
  "process_stored_event env event_id w =
     (case process_txn env (w_db w) event_id of
        Inl e \<Rightarrow> (w\<lparr>w_db := mark_event_failed event_id e (w_db w)\<rparr>, Inl e)
      | Inr (d, Nothing_to_do) \<Rightarrow> (w\<lparr>w_db := d\<rparr>, Inr ())
      | Inr (d, Processed run_to_enqueue output_to_enqueue) \<Rightarrow>
          (case (case run_to_enqueue of
                   None \<Rightarrow> Inr (w_jobs w)
                 | Some (run_id, conversation_id) \<Rightarrow>
                     map_sum id snd (enqueue_agent_run (se_dq env) run_id conversation_id (w_jobs w))) of
             Inl e \<Rightarrow> (w\<lparr>w_db := d\<rparr>, Inl e)
           | Inr jobs1 \<Rightarrow>
               (case (case output_to_enqueue of
                        None \<Rightarrow> Inr jobs1
                      | Some output_id \<Rightarrow>
                          map_sum id snd (enqueue_slack_output (se_dq env) output_id jobs1)) of
                  Inl e \<Rightarrow> (w\<lparr>w_db := d, w_jobs := jobs1\<rparr>, Inl e)
                | Inr jobs2 \<Rightarrow> (w\<lparr>w_db := d, w_jobs := jobs2\<rparr>, Inr ()))))"

section \<open>What ingestion keeps\<close>

lemma invariant_db_ok: "invariant d \<Longrightarrow> db_ok d"
  by (simp add: invariant_def)

lemma invariant_insert_event: "invariant d \<Longrightarrow> invariant (fst (insert_event env e d))"
  by (simp add: insert_event_def invariant_def db_ok_add_event fk_ok_adds new_event_row_def)

lemma invariant_mark_queued: "invariant d \<Longrightarrow> invariant (mark_queued i d)"
  by (auto simp: mark_queued_def intro!: invariant_upd_event split: option.splits)

lemma invariant_finish_event: "invariant d \<Longrightarrow> invariant (finish_event env i disp d)"
  by (auto simp: finish_event_def intro!: invariant_upd_event)

lemma invariant_mark_event_failed: "invariant d \<Longrightarrow> invariant (mark_event_failed i e d)"
  by (auto simp: mark_event_failed_def intro!: invariant_upd_event split: option.splits)

lemma find_conversation_Some:
  "find_conversation d channel thread = Some c \<Longrightarrow>
   c \<in> set (db_conversations d) \<and> cv_channel c = channel \<and> cv_thread_ts c = thread"
  by (auto simp: find_conversation_def find_Some_iff)

lemma find_conversation_None:
  "find_conversation d channel thread = None \<Longrightarrow>
   (channel, thread) \<notin> (\<lambda>c. (cv_channel c, cv_thread_ts c)) ` set (db_conversations d)"
  by (auto simp: find_conversation_def find_None_iff)

lemma conversation_ids_upd [simp]:
  assumes "\<And>r. cv_id (f r) = cv_id r"
  shows "cv_id ` set (db_conversations (upd_conversation i f d)) = cv_id ` set (db_conversations d)"
  using assms by (simp add: table_defs image_row_upd)

lemma upsert_conversation_invariant:
  assumes "invariant d" and "upsert_conversation d payload create = Inr (d1, c)"
  shows "invariant d1" and "\<And>i. c = Some i \<Longrightarrow> i \<in> cv_id ` set (db_conversations d1)"
proof -
  from assms(2) obtain p where p: "payload = Message_payload p"
    by (cases payload) (simp_all add: upsert_conversation_def)
  define thread where "thread = py_str (mp_thread_ts p)"
  consider (old) e where "find_conversation d (mp_channel p) thread = Some e"
    | (new) "find_conversation d (mp_channel p) thread = None"
    by (cases "find_conversation d (mp_channel p) thread") auto
  then have "invariant d1 \<and> (\<forall>i. c = Some i \<longrightarrow> i \<in> cv_id ` set (db_conversations d1))"
  proof cases
    case old
    note mem = find_conversation_Some [OF old]
    show ?thesis
      using assms mem old
      by (auto simp: upsert_conversation_def p thread_def [symmetric] Let_def
          intro!: invariant_upd_conversation split: if_splits)
  next
    case new
    note none = find_conversation_None [OF new]
    show ?thesis
      using assms none new
      by (auto simp: upsert_conversation_def p thread_def [symmetric] Let_def invariant_def
          intro!: db_ok_add_conversation fk_ok_adds split: if_splits)
        (simp add: table_defs)
  qed
  then show "invariant d1" and "\<And>i. c = Some i \<Longrightarrow> i \<in> cv_id ` set (db_conversations d1)"
    by auto
qed

text \<open>A message key drawn from the counter is not yet the trigger of a run, because the foreign
  key of every run points to an older message.\<close>

lemma fresh_trigger:
  assumes "invariant d"
  shows "Some (db_next_id d) \<notin> rn_trigger_message_id ` set (db_runs d)"
proof
  assume "Some (db_next_id d) \<in> rn_trigger_message_id ` set (db_runs d)"
  with assms have "db_next_id d \<in> ms_id ` set (db_messages d)"
    by (auto simp: invariant_def fk_ok_def)
  with assms show False
    by (auto simp: invariant_def db_ok_def ids_ok_def)
qed

lemma store_trigger_cases:
  assumes "invariant d" and "store_trigger env d c p = Inr (d1, m, r)"
  obtains (known) "(mp_channel p, mp_message_ts p)
        \<in> (\<lambda>m. (ms_channel m, ms_message_ts m)) ` set (db_messages d)"
      "d1 = d" "m = None" "r = None"
  | (fresh) t where "event_time env (mp_message_ts p) = Inr t"
      "(mp_channel p, mp_message_ts p) \<notin> (\<lambda>m. (ms_channel m, ms_message_ts m)) ` set (db_messages d)"
      "m = Some (db_next_id d)" "r = Some (Suc (db_next_id d))"
      "d1 = add_run (queued_run env (Suc (db_next_id d)) c (db_next_id d))
              (add_message (inbound_row env (db_next_id d) c p t) d)"
proof (cases "event_time env (mp_message_ts p)")
  case (Inl e)
  with assms show thesis by (simp add: store_trigger_def)
next
  case (Inr t)
  have fresh: "Some (db_next_id d) \<notin> rn_trigger_message_id `
      set (db_runs (add_message (inbound_row env (db_next_id d) c p t) d))"
    using fresh_trigger [OF assms(1)] by (simp add: table_defs)
  have next_id: "db_next_id (add_message x d) = Suc (db_next_id d)" for x
    by (simp add: table_defs)
  show thesis
    using assms Inr fresh known that(2) [OF Inr]
    by (auto simp: store_trigger_def Let_def next_id split: if_splits)
qed

lemma inbound_row_keys [simp]:
  "ms_id (inbound_row env i c p t) = i" "ms_conversation_id (inbound_row env i c p t) = c"
  "ms_channel (inbound_row env i c p t) = mp_channel p"
  "ms_message_ts (inbound_row env i c p t) = mp_message_ts p"
  "ms_direction (inbound_row env i c p t) = ''inbound''"
  "ms_text (inbound_row env i c p t) = Some (mp_text p)"
  "ms_event_at (inbound_row env i c p t) = t"
  by (simp_all add: inbound_row_def Let_def)

lemma queued_run_keys [simp]:
  "rn_id (queued_run env i c m) = i" "rn_conversation_id (queued_run env i c m) = c"
  "rn_trigger_message_id (queued_run env i c m) = Some m"
  "rn_status (queued_run env i c m) = Run_queued"
  by (simp_all add: queued_run_def)

lemma store_trigger_invariant:
  assumes "invariant d" and "c \<in> cv_id ` set (db_conversations d)"
    and "store_trigger env d c p = Inr (d1, m, r)"
  shows "invariant d1"
  using assms(1,3)
proof (cases rule: store_trigger_cases)
  case known
  with assms show ?thesis by simp
next
  case (fresh t)
  have "invariant (add_message (inbound_row env (db_next_id d) c p t) d)"
    using assms(1,2) fresh(2) by (intro invariant_add_message) simp_all
  then show ?thesis
    using assms(2) fresh_trigger [OF assms(1)] unfolding fresh(5)
    by (intro invariant_add_run) (simp_all add: row_simps)
qed

lemma conversation_ids_add_run [simp]:
  "cv_id ` set (db_conversations (finish_event env i disp d)) = cv_id ` set (db_conversations d)"
  by (simp add: finish_event_def row_simps)

lemma process_message_invariant:
  assumes "invariant d" and "process_message env d event = Inr (d', out)"
  shows "invariant d'"
proof -
  obtain d1 c where up: "upsert_conversation d (ev_payload event)
      (ev_event_type event = ''app_mention'') = Inr (d1, c)"
    using assms(2) by (auto simp: process_message_def split: sum.splits)
  note d1 = upsert_conversation_invariant [OF assms(1) up]
  show ?thesis
  proof (cases c)
    case None
    with assms(2) up d1 show ?thesis
      by (auto simp: process_message_def intro: invariant_finish_event)
  next
    case (Some i)
    from assms(2) up Some obtain p d2 m r where
        pay: "ev_payload event = Message_payload p" and st: "store_trigger env d1 i p = Inr (d2, m, r)"
      by (auto simp: process_message_def split: event_payload.splits sum.splits prod.splits)
    have "invariant d2"
      using d1 st Some by (blast intro: store_trigger_invariant)
    then have "invariant (finish_event env (ev_id event) Ev_processed d2)"
      by (rule invariant_finish_event)
    with assms(2) up Some st pay show ?thesis
      by (cases r) (auto simp: process_message_def Let_def intro!: invariant_upd_conversation)
  qed
qed

lemma find_reply_mem: "find_reply d channel ts = Some r \<Longrightarrow> r \<in> set (db_outputs d)"
  by (auto simp: find_reply_def find_Some_iff)

lemma invariant_upsert_feedback: "invariant d \<Longrightarrow> invariant (upsert_feedback env reply p d)"
  by (auto simp: upsert_feedback_def same_feedback_def
      intro!: invariant_map_feedback invariant_add_feedback)

lemma invariant_deactivate_feedback: "invariant d \<Longrightarrow> invariant (deactivate_feedback env p d)"
  by (auto simp: deactivate_feedback_def intro!: invariant_map_feedback)

lemma outputs_feedback [simp]:
  "db_outputs (upsert_feedback env reply p d) = db_outputs d"
  "db_conversations (upsert_feedback env reply p d) = db_conversations d"
  "db_runs (upsert_feedback env reply p d) = db_runs d"
  "db_outputs (deactivate_feedback env p d) = db_outputs d"
  by (simp_all add: upsert_feedback_def deactivate_feedback_def table_defs)

lemma invariant_insert_output:
  assumes "insert_output r d = (d', out)" and "invariant d" and "so_id r = db_next_id d"
    and "so_conversation_id r \<in> cv_id ` set (db_conversations d)"
    and "\<And>i. so_run_id r = Some i \<Longrightarrow> i \<in> rn_id ` set (db_runs d)"
  shows "invariant d'"
  using assms by (auto simp: insert_output_def invariant_add_output split: if_splits)

lemma pending_output_keys [simp]:
  "so_id (pending_output env i c r ch th k b kd) = i"
  "so_conversation_id (pending_output env i c r ch th k b kd) = c"
  "so_run_id (pending_output env i c r ch th k b kd) = r"
  "so_idempotency_key (pending_output env i c r ch th k b kd) = k"
  "so_status (pending_output env i c r ch th k b kd) = Out_pending"
  by (simp_all add: pending_output_def)

lemma process_reaction_invariant:
  assumes "invariant d" and "process_reaction env d event = Inr (d', out)"
  shows "invariant d'"
proof -
  from assms(2) obtain p where p: "ev_payload event = Reaction_payload p \<or>
      find_reply d (the (payload_channel (ev_payload event)))
        (the (payload_message_ts (ev_payload event))) = None"
    by (cases "ev_payload event") (auto simp: process_reaction_def split: option.splits)
  show ?thesis
  proof (cases "find_reply d (the (payload_channel (ev_payload event)))
      (the (payload_message_ts (ev_payload event)))")
    case None
    with assms show ?thesis
      by (auto simp: process_reaction_def intro!: invariant_finish_event split: option.splits)
  next
    case (Some reply)
    with p have pay: "ev_payload event = Reaction_payload p" by auto
    note mem = find_reply_mem [OF Some]
    have fk: "so_conversation_id reply \<in> cv_id ` set (db_conversations d)"
        "\<And>i. so_run_id reply = Some i \<Longrightarrow> i \<in> rn_id ` set (db_runs d)"
      using assms(1) mem by (auto simp: invariant_def fk_ok_def)
    have up: "invariant (upsert_feedback env reply p d)" "invariant (deactivate_feedback env p d)"
      using assms(1) by (simp_all add: invariant_upsert_feedback invariant_deactivate_feedback)
    have ins: "invariant x"
      if "insert_output (pending_output env (db_next_id (upsert_feedback env reply p d))
        (so_conversation_id reply) (so_run_id reply) ch th key body kind)
        (upsert_feedback env reply p d) = (x, y)" for ch th key body kind x y
      using that up(1) by (rule invariant_insert_output) (simp_all add: fk)
    show ?thesis
      using assms(2) Some pay up ins
      by (auto simp: process_reaction_def Let_def
          intro!: invariant_finish_event split: prod.splits if_splits)
  qed
qed

lemma process_txn_invariant:
  assumes "invariant d" and "process_txn env d i = Inr (d', out)"
  shows "invariant d'"
  using assms
  by (auto simp: process_txn_def simp del: insert_iff
      intro: invariant_finish_event process_message_invariant process_reaction_invariant
      split: option.splits if_splits sum.splits)


lemma mode_off_iff: "cfg_global_mode c \<noteq> Mode_enabled \<longleftrightarrow> cfg_global_mode c = Mode_off"
  by (cases "cfg_global_mode c") simp_all

lemma ingestion_invariant_step:
  assumes inv: "invariant (w_db w)"
  shows "invariant (w_db (fst (receive_event env event w)))"
    and "invariant (w_db (fst (process_stored_event env' event_id w)))"
proof -
  have "invariant (fst (insert_event env event (w_db w)))"
    using inv by (rule invariant_insert_event)
  then show "invariant (w_db (fst (receive_event env event w)))"
    by (auto simp: receive_event_def Let_def invariant_mark_queued
        split: prod.splits option.splits sum.splits bool.splits)
  show "invariant (w_db (fst (process_stored_event env' event_id w)))"
  proof (cases "process_txn env' (w_db w) event_id")
    case (Inl e)
    with inv show ?thesis by (simp add: process_stored_event_def invariant_mark_event_failed)
  next
    case (Inr r)
    obtain d out where r: "r = (d, out)" by (cases r)
    with Inr inv have "invariant d" by (blast intro: process_txn_invariant)
    with Inr r show ?thesis
      by (cases out) (auto simp: process_stored_event_def split: option.splits sum.splits prod.splits)
  qed
qed

text \<open>Ingestion keeps the database well formed. From a database in which keys, unique
  constraints and foreign keys hold, both handlers, receiving an event and processing a stored
  one, end in such a database on every path: whatever the event, the settings, the timestamp
  parser and the queue answer, and also when the handler raises.\<close>

theorem ingestion_keeps_invariant:
  "invariant (w_db w) \<Longrightarrow>
   invariant (w_db (fst (receive_event env event w))) \<and>
   invariant (w_db (fst (process_stored_event env' event_id w)))"
  using ingestion_invariant_step by blast

section \<open>Example values\<close>

definition example_env :: svc_env where
  "example_env = \<lparr>se_config = default_config\<lparr>cfg_global_mode := Mode_enabled\<rparr>, se_now = 100,
     se_parse_ts = (\<lambda>s. if s = [] then Ts_value_error else Ts_ok (int (length s))),
     se_dq = plain_defer\<rparr>"

definition example_mention :: message_payload where
  "example_mention = \<lparr>mp_event_id = ''Ev1'', mp_event_type = ''app_mention'', mp_team_id = JNull,
     mp_channel = ''C1'', mp_message_ts = ''1.0'', mp_thread_ts = JStr ''1.0'', mp_user = ''U1'',
     mp_text = ''pago de 100'', mp_files = [],
     mp_attachment_summary = \<lparr>as_requested = 0, as_accepted = 0, as_rejected = 0\<rparr>\<rparr>"

definition example_event :: normalized_event where
  "example_event = \<lparr>ne_slack_event_id = ''Ev1'', ne_event_type = ''app_mention'',
     ne_kind = Ek_mention, ne_payload = Message_payload example_mention, ne_ignore_reason = None\<rparr>"

definition empty_world :: world where
  "empty_world = \<lparr>w_db = empty_db, w_jobs = [], w_slack = []\<rparr>"

definition received_world :: world where
  "received_world = fst (receive_event example_env example_event empty_world)"

lemmas example_defs = example_env_def example_mention_def example_event_def empty_world_def
  default_config_def

lemma empty_world_invariant: "invariant (w_db empty_world)"
  by (simp add: empty_world_def invariant_empty)

lemma received_world_db:
  "w_db received_world = empty_db\<lparr>db_next_id := 1, db_events :=
     [(new_event_row example_env 0 example_event)\<lparr>ev_disposition := Ev_queued\<rparr>]\<rparr>"
  by (simp add: received_world_def receive_event_def insert_event_def example_defs event_ignored_def
      new_event_row_def enqueue_defs enqueue_def plain_defer_def mark_queued_def empty_db_def
      table_defs row_upd_def)

lemma received_world_jobs: "w_jobs received_world = [slack_event_job 0]"
  by (simp add: received_world_def receive_event_def insert_event_def example_defs event_ignored_def
      new_event_row_def enqueue_defs enqueue_def plain_defer_def mark_queued_def empty_db_def
      table_defs row_upd_def)

lemma ingestion_keeps_invariant_witness:
  "invariant (w_db (fst (receive_event example_env example_event empty_world))) \<and>
   invariant (w_db (fst (process_stored_event example_env 0 empty_world)))"
  by (rule ingestion_keeps_invariant [OF empty_world_invariant])

section \<open>Receiving once, processing once\<close>

lemma insert_event_known:
  "insert_event env event d = (d1, r) \<Longrightarrow>
   ne_slack_event_id event \<in> ev_slack_event_id ` set (db_events d1)"
  by (auto simp: insert_event_def table_defs new_event_row_def split: if_splits)

lemma slack_ids_upd [simp]:
  assumes "\<And>r. ev_slack_event_id (f r) = ev_slack_event_id r"
  shows "ev_slack_event_id ` set (db_events (upd_event i f d)) = ev_slack_event_id ` set (db_events d)"
proof -
  have "map ev_slack_event_id (row_upd ev_id i f (db_events d)) = map ev_slack_event_id (db_events d)"
    using assms by (simp add: map_row_upd)
  then show ?thesis by (simp add: upd_event_def) (metis set_map)
qed

lemma mark_queued_ids [simp]:
  "ev_slack_event_id ` set (db_events (mark_queued i d)) = ev_slack_event_id ` set (db_events d)"
  by (simp add: mark_queued_def split: option.splits)

lemma receive_event_stores:
  "ne_slack_event_id event \<in>
     ev_slack_event_id ` set (db_events (w_db (fst (receive_event env event w))))"
proof -
  obtain d1 r where ins: "insert_event env event (w_db w) = (d1, r)"
    by (cases "insert_event env event (w_db w)")
  from insert_event_known [OF ins] show ?thesis
    by (auto simp: receive_event_def ins Let_def split: option.splits sum.splits bool.splits)
qed

text \<open>Slack's repeated deliveries are absorbed. Once an event has been received, receiving any
  event with the same Slack event id again, under whatever settings, stores nothing, queues
  nothing and answers that there is no new event.\<close>

theorem receive_event_once:
  assumes "receive_event env event w = (w1, r)"
    and "ne_slack_event_id again = ne_slack_event_id event"
  shows "receive_event env' again w1 = (w1, Inr None)"
proof -
  have "ne_slack_event_id event \<in> ev_slack_event_id ` set (db_events (w_db w1))"
    using receive_event_stores [of event env w] assms(1) by simp
  then have "insert_event env' again (w_db w1) = (w_db w1, None)"
    using assms(2) by (simp add: insert_event_def)
  then show ?thesis by (simp add: receive_event_def)
qed

lemma receive_event_once_witness:
  "receive_event example_env example_event received_world = (received_world, Inr None)"
proof -
  have "receive_event example_env example_event empty_world =
      (received_world, snd (receive_event example_env example_event empty_world))"
    by (simp add: received_world_def)
  from receive_event_once [OF this refl] show ?thesis .
qed

lemma finished_event:
  "get_event d i = Some e \<Longrightarrow> \<exists>e'. get_event (finish_event env i disp d) i = Some e' \<and>
     ev_disposition e' = disp"
  by (simp add: finish_event_def events.get_upd_same)

lemma upsert_conversation_events:
  "upsert_conversation d payload create = Inr (d1, c) \<Longrightarrow> get_event d1 i = get_event d i"
  by (auto simp: upsert_conversation_def Let_def row_simps
      split: event_payload.splits if_splits option.splits)

lemma store_trigger_events:
  "store_trigger env d c p = Inr (d1, m, r) \<Longrightarrow> get_event d1 i = get_event d i"
  by (auto simp: store_trigger_def Let_def row_simps split: sum.splits if_splits)

lemma process_message_finishes:
  assumes "process_message env d event = Inr (d', out)" and "get_event d (ev_id event) = Some e"
  shows "\<exists>e'. get_event d' (ev_id event) = Some e' \<and> ev_disposition e' \<in> {Ev_processed, Ev_ignored}"
proof -
  obtain d1 c where up: "upsert_conversation d (ev_payload event)
      (ev_event_type event = ''app_mention'') = Inr (d1, c)"
    using assms(1) by (auto simp: process_message_def split: sum.splits)
  note e1 = upsert_conversation_events [OF up]
  show ?thesis
  proof (cases c)
    case None
    with assms up e1 show ?thesis
      using finished_event [of d1 "ev_id event" e env Ev_ignored] by (auto simp: process_message_def)
  next
    case (Some i)
    with assms(1) up obtain p d2 m r where
        pay: "ev_payload event = Message_payload p" and st: "store_trigger env d1 i p = Inr (d2, m, r)"
      by (auto simp: process_message_def split: event_payload.splits sum.splits prod.splits)
    have "get_event d2 (ev_id event) = Some e"
      using store_trigger_events [OF st] e1 assms(2) by simp
    then obtain e' where "get_event (finish_event env (ev_id event) Ev_processed d2) (ev_id event) = Some e'"
        "ev_disposition e' = Ev_processed"
      using finished_event by blast
    with assms(1) up Some pay st show ?thesis
      by (cases r) (auto simp: process_message_def Let_def row_simps)
  qed
qed

lemma insert_output_events: "insert_output r d = (d', out) \<Longrightarrow> get_event d' i = get_event d i"
  by (auto simp: insert_output_def row_simps split: if_splits)

lemma feedback_events [simp]:
  "get_event (upsert_feedback env reply p d) i = get_event d i"
  "get_event (deactivate_feedback env p d) i = get_event d i"
  by (simp_all add: upsert_feedback_def deactivate_feedback_def row_simps)

lemma process_reaction_finishes:
  assumes "process_reaction env d event = Inr (d', out)" and "get_event d (ev_id event) = Some e"
  shows "\<exists>e'. get_event d' (ev_id event) = Some e' \<and> ev_disposition e' \<in> {Ev_processed, Ev_ignored}"
proof -
  have "\<exists>d1 disp. d' = finish_event env (ev_id event) disp d1 \<and> disp \<in> {Ev_processed, Ev_ignored} \<and>
      get_event d1 (ev_id event) = get_event d (ev_id event)"
    using assms(1)
    by (auto simp: process_reaction_def Let_def
        split: option.splits event_payload.splits prod.splits if_splits)
      (metis insert_output_events feedback_events)+
  with assms(2) show ?thesis using finished_event by fastforce
qed

text \<open>C29: processing a stored event is idempotent. Once the transaction for an event has committed
  with an effect or an ignore, a second delivery of the same job, under whatever settings, finds the
  event finished, changes nothing and starts nothing.\<close>

theorem process_txn_idempotent:
  assumes "process_txn env d i = Inr (d', out)" and "get_event d i \<noteq> None"
  shows "process_txn env' d' i = Inr (d', Nothing_to_do)"
proof -
  from assms(2) obtain e where e: "get_event d i = Some e" by blast
  then have i: "ev_id e = i" by (rule events.get_key)
  have "\<exists>e'. get_event d' i = Some e' \<and> ev_disposition e' \<in> {Ev_processed, Ev_ignored}"
  proof (cases "ev_disposition e \<in> {Ev_processed, Ev_ignored}")
    case True
    with assms(1) e show ?thesis by (auto simp: process_txn_def)
  next
    case False
    note fin = finished_event [OF e]
    have msg: "\<exists>e'. get_event d1 i = Some e' \<and> ev_disposition e' \<in> {Ev_processed, Ev_ignored}"
      if "process_message env d e = Inr (d1, r)" for d1 r
      using process_message_finishes [OF that] e i by simp
    have react: "\<exists>e'. get_event d1 i = Some e' \<and> ev_disposition e' \<in> {Ev_processed, Ev_ignored}"
      if "process_reaction env d e = Inr (d1, r)" for d1 r
      using process_reaction_finishes [OF that] e i by simp
    have ign: "\<exists>e'. get_event (finish_event env i Ev_ignored d) i = Some e' \<and>
        ev_disposition e' \<in> {Ev_processed, Ev_ignored}"
      using fin by fastforce
    show ?thesis
      using assms(1) e False msg react ign
      by (auto simp: process_txn_def simp del: insert_iff split: if_splits sum.splits)
  qed
  then show ?thesis by (auto simp: process_txn_def)
qed

lemma mention_conversation:
  assumes "invariant d"
  shows "\<exists>d1 c. upsert_conversation d (Message_payload p) True = Inr (d1, Some (cv_id c)) \<and>
     get_conversation d1 (cv_id c) = Some c \<and> cv_channel c = mp_channel p \<and>
     cv_thread_ts c = py_str (mp_thread_ts p) \<and> db_messages d1 = db_messages d \<and>
     db_runs d1 = db_runs d"
proof (cases "find_conversation d (mp_channel p) (py_str (mp_thread_ts p))")
  case None
  have "db_next_id d \<notin> cv_id ` set (db_conversations d)"
    using assms by (auto simp: invariant_def db_ok_def ids_ok_def)
  then have "get_conversation d (db_next_id d) = None"
    by (simp add: table_defs row_get_None_iff)
  with None show ?thesis
    by (intro exI [of _ "add_conversation \<lparr>cv_id = db_next_id d, cv_channel = mp_channel p,
          cv_thread_ts = py_str (mp_thread_ts p), cv_requester = mp_user p, cv_state = Conv_open,
          cv_latest_question = Some (mp_text p)\<rparr> d"]
        exI [of _ "\<lparr>cv_id = db_next_id d, cv_channel = mp_channel p,
          cv_thread_ts = py_str (mp_thread_ts p), cv_requester = mp_user p, cv_state = Conv_open,
          cv_latest_question = Some (mp_text p)\<rparr>"])
      (simp add: upsert_conversation_def row_simps conversations.get_add)
next
  case (Some c)
  note mem = find_conversation_Some [OF Some]
  have "distinct (map cv_id (db_conversations d))"
    using assms by (simp add: invariant_def db_ok_def ids_ok_def)
  then have get: "get_conversation d (cv_id c) = Some c"
    using mem by (simp add: get_conversation_def row_get_mem)
  define c' where "c' = c\<lparr>cv_latest_question := Some (mp_text p)\<rparr>"
  have "cv_id c' = cv_id c" by (simp add: c'_def)
  then show ?thesis
    using mem Some get
    by (intro exI [of _ "upd_conversation (cv_id c) (\<lambda>r. r\<lparr>cv_latest_question := Some (mp_text p)\<rparr>) d"]
        exI [of _ c'])
      (simp add: upsert_conversation_def conversations.get_upd_same row_simps c'_def)
qed

text \<open>A mention becomes exactly one queued run. Processing an unfinished mention event whose
  message is not stored yet, with the gate open, appends exactly one inbound message with the
  mention's text and exactly one queued run that it triggers, in the conversation of that channel
  and thread (created if absent), which is marked running; the run and its conversation are
  returned to be enqueued.\<close>

theorem mention_starts_one_run:
  assumes "invariant d" and "get_event d i = Some e"
    and "ev_disposition e \<notin> {Ev_processed, Ev_ignored}"
    and "cfg_global_mode (se_config env) = Mode_enabled"
    and "ev_event_type e = ''app_mention''" and "ev_payload e = Message_payload p"
    and "event_time env (mp_message_ts p) = Inr t"
    and "(mp_channel p, mp_message_ts p) \<notin> (\<lambda>m. (ms_channel m, ms_message_ts m)) ` set (db_messages d)"
  shows "\<exists>d' r m c. process_txn env d i = Inr (d', Processed (Some (rn_id r, cv_id c)) None) \<and>
     db_runs d' = db_runs d @ [r] \<and> rn_status r = Run_queued \<and>
     rn_conversation_id r = cv_id c \<and> rn_trigger_message_id r = Some (ms_id m) \<and>
     db_messages d' = db_messages d @ [m] \<and> ms_direction m = ''inbound'' \<and>
     ms_text m = Some (mp_text p) \<and> ms_event_at m = t \<and> ms_conversation_id m = cv_id c \<and>
     ms_channel m = mp_channel p \<and> ms_message_ts m = mp_message_ts p \<and>
     get_conversation d' (cv_id c) = Some c \<and> cv_channel c = mp_channel p \<and>
     cv_thread_ts c = py_str (mp_thread_ts p) \<and> cv_state c = Conv_running \<and>
     cv_latest_question c = Some (mp_text p)"
proof -
  have i: "ev_id e = i" using assms(2) by (rule events.get_key)
  obtain d1 c where up: "upsert_conversation d (Message_payload p) True = Inr (d1, Some (cv_id c))"
    and c: "get_conversation d1 (cv_id c) = Some c" "cv_channel c = mp_channel p"
      "cv_thread_ts c = py_str (mp_thread_ts p)"
    and same: "db_messages d1 = db_messages d" "db_runs d1 = db_runs d"
    using mention_conversation [OF assms(1)] by blast
  have inv1: "invariant d1" using upsert_conversation_invariant [OF assms(1) up] by blast
  let ?m = "inbound_row env (db_next_id d1) (cv_id c) p t"
  let ?r = "queued_run env (Suc (db_next_id d1)) (cv_id c) (db_next_id d1)"
  have st: "store_trigger env d1 (cv_id c) p =
      Inr (add_run ?r (add_message ?m d1), Some (db_next_id d1), Some (Suc (db_next_id d1)))"
    using fresh_trigger [OF inv1] assms(7,8) same
    by (simp add: store_trigger_def Let_def row_simps)
  let ?c = "c\<lparr>cv_state := Conv_running, cv_latest_question := Some (mp_text p)\<rparr>"
  let ?d' = "upd_conversation (cv_id c) (\<lambda>c. c\<lparr>cv_state := Conv_running,
      cv_latest_question := Some (mp_text p)\<rparr>)
      (finish_event env i Ev_processed (add_run ?r (add_message ?m d1)))"
  have conv: "get_conversation ?d' (cv_id c) = Some ?c"
    using c(1) by (simp add: conversations.get_upd_same finish_event_def)
      (simp add: table_defs)
  have "process_txn env d i = Inr (?d', Processed (Some (rn_id ?r, cv_id ?c)) None)"
    using assms(2-6) i up st by (simp add: process_txn_def process_message_def Let_def)
  moreover have "db_runs ?d' = db_runs d @ [?r]" "db_messages ?d' = db_messages d @ [?m]"
    using same by (simp_all add: finish_event_def row_simps)
  ultimately show ?thesis
    using conv c by (intro exI [of _ ?d'] exI [of _ ?r] exI [of _ ?m] exI [of _ ?c]) simp
qed

lemma received_event:
  "get_event (w_db received_world) 0 =
     Some ((new_event_row example_env 0 example_event)\<lparr>ev_disposition := Ev_queued\<rparr>)"
  by (simp add: received_world_db table_defs new_event_row_def)

lemma received_world_invariant: "invariant (w_db received_world)"
  unfolding received_world_def by (rule ingestion_invariant_step(1) [OF empty_world_invariant])

lemma mention_starts_one_run_witness:
  "\<exists>d' r c. process_txn example_env (w_db received_world) 0 =
       Inr (d', Processed (Some (rn_id r, cv_id c)) None) \<and>
     db_runs d' = [r] \<and> rn_status r = Run_queued \<and>
     get_conversation d' (cv_id c) = Some c \<and> cv_latest_question c = Some ''pago de 100''"
proof -
  let ?e = "(new_event_row example_env 0 example_event)\<lparr>ev_disposition := Ev_queued\<rparr>"
  have 1: "ev_disposition ?e \<notin> {Ev_processed, Ev_ignored}" "ev_event_type ?e = ''app_mention''"
      "ev_payload ?e = Message_payload example_mention"
    by (simp_all add: new_event_row_def example_event_def)
  have 2: "cfg_global_mode (se_config example_env) = Mode_enabled"
    by (simp add: example_env_def)
  have 3: "event_time example_env (mp_message_ts example_mention) = Inr 3"
    by (simp add: event_time_def example_env_def example_mention_def)
  have 4: "(mp_channel example_mention, mp_message_ts example_mention)
      \<notin> (\<lambda>m. (ms_channel m, ms_message_ts m)) ` set (db_messages (w_db received_world))"
    and 5: "db_runs (w_db received_world) = []"
    by (simp_all add: received_world_db empty_db_def)
  have body: "mp_text example_mention = ''pago de 100''"
    by (simp add: example_mention_def)
  from mention_starts_one_run [OF received_world_invariant received_event 1(1) 2 1(2,3) 3 4]
  show ?thesis unfolding 5 append_Nil body by blast
qed

lemma process_txn_idempotent_witness:
  "\<exists>d' out. process_txn example_env (w_db received_world) 0 = Inr (d', out) \<and>
     process_txn example_env d' 0 = Inr (d', Nothing_to_do)"
proof -
  obtain d' out where 1: "process_txn example_env (w_db received_world) 0 = Inr (d', out)"
    by (simp add: process_txn_def received_event new_event_row_def example_defs process_message_def
        upsert_conversation_def store_trigger_def event_time_def Let_def find_conversation_def
        received_world_db empty_db_def table_defs)
  have "get_event (w_db received_world) 0 \<noteq> None" by (simp add: received_event)
  from process_txn_idempotent [OF 1 this] 1 show ?thesis by blast
qed

section \<open>Messages and events without effect\<close>

text \<open>A message starts nothing unless it is new and addressed to a known conversation. A thread
  message outside every conversation is ignored and leaves all messages, conversations and runs
  as they were; a message already stored, whoever delivers it, adds no message and no run.\<close>

theorem message_without_effect:
  assumes "get_event d i = Some e" and "ev_disposition e \<notin> {Ev_processed, Ev_ignored}"
    and "cfg_global_mode (se_config env) = Mode_enabled"
    and "ev_event_type e \<in> {''app_mention'', ''message''}" and "ev_payload e = Message_payload p"
    and "event_time env (mp_message_ts p) = Inr t"
    and "(ev_event_type e = ''message'' \<and>
            find_conversation d (mp_channel p) (py_str (mp_thread_ts p)) = None) \<or>
         (mp_channel p, mp_message_ts p) \<in> (\<lambda>m. (ms_channel m, ms_message_ts m)) ` set (db_messages d)"
  shows "\<exists>d'. process_txn env d i = Inr (d', Processed None None) \<and>
     db_runs d' = db_runs d \<and> db_messages d' = db_messages d"
proof -
  have i: "ev_id e = i" using assms(1) by (rule events.get_key)
  obtain d1 c where up: "upsert_conversation d (Message_payload p)
      (ev_event_type e = ''app_mention'') = Inr (d1, c)"
    by (cases "upsert_conversation d (Message_payload p) (ev_event_type e = ''app_mention'')")
      (auto simp: upsert_conversation_def Let_def split: option.splits if_splits)
  have same: "db_messages d1 = db_messages d" "db_runs d1 = db_runs d"
    using up by (auto simp: upsert_conversation_def Let_def row_simps split: if_splits option.splits)
  show ?thesis
  proof (cases c)
    case None
    with assms(1-5) up same show ?thesis
      by (simp add: process_txn_def process_message_def finish_event_def row_simps)
  next
    case (Some k)
    have "(mp_channel p, mp_message_ts p) \<in> (\<lambda>m. (ms_channel m, ms_message_ts m)) ` set (db_messages d1)"
      using assms(7) up Some same by (auto simp: upsert_conversation_def Let_def)
    with assms(1-6) up same Some show ?thesis
      by (simp add: process_txn_def process_message_def store_trigger_def finish_event_def row_simps)
  qed
qed

lemma message_without_effect_witness:
  "\<exists>d'. process_txn example_env
       (add_event ((new_event_row example_env 0 example_event)\<lparr>ev_event_type := ''message''\<rparr>) empty_db) 0 =
       Inr (d', Processed None None) \<and> db_runs d' = [] \<and> db_messages d' = []"
proof -
  let ?e = "(new_event_row example_env 0 example_event)\<lparr>ev_event_type := ''message''\<rparr>"
  have 1: "get_event (add_event ?e empty_db) 0 = Some ?e"
    by (simp add: table_defs empty_db_def new_event_row_def)
  have 2: "ev_disposition ?e \<notin> {Ev_processed, Ev_ignored}"
      "ev_event_type ?e \<in> {''app_mention'', ''message''}"
      "ev_payload ?e = Message_payload example_mention"
    by (simp_all add: new_event_row_def event_ignored_def example_defs)
  have 3: "cfg_global_mode (se_config example_env) = Mode_enabled"
    by (simp add: example_env_def)
  have 4: "event_time example_env (mp_message_ts example_mention) = Inr 3"
    by (simp add: event_time_def example_env_def example_mention_def)
  have 5: "find_conversation (add_event ?e empty_db) ch th = None" for ch th
    by (simp add: find_conversation_def empty_db_def table_defs)
  have 6: "db_runs (add_event ?e empty_db) = []" "db_messages (add_event ?e empty_db) = []"
    by (simp_all add: empty_db_def table_defs)
  from message_without_effect [OF 1 2(1) 3 2(2,3) 4] 5 6 show ?thesis by simp
qed

text \<open>The global gate closes ingestion. With the mode off, receiving an event or processing a
  stored one queues no job and leaves conversations, messages, runs, outputs and feedback as they
  were; a stored event that is not finished yet becomes ignored.\<close>

theorem off_gate_blocks_ingestion:
  assumes "cfg_global_mode (se_config env) = Mode_off"
    and "w' = fst (receive_event env event w) \<or> w' = fst (process_stored_event env i w)"
  shows "w_jobs w' = w_jobs w \<and> w_slack w' = w_slack w \<and>
     db_conversations (w_db w') = db_conversations (w_db w) \<and>
     db_messages (w_db w') = db_messages (w_db w) \<and> db_runs (w_db w') = db_runs (w_db w) \<and>
     db_outputs (w_db w') = db_outputs (w_db w) \<and> db_feedback (w_db w') = db_feedback (w_db w)"
  using assms(2)
proof
  assume "w' = fst (receive_event env event w)"
  with assms(1) show ?thesis
    by (auto simp: receive_event_def insert_event_def event_ignored_def table_defs)
next
  assume "w' = fst (process_stored_event env i w)"
  with assms(1) show ?thesis
    by (auto simp: process_stored_event_def process_txn_def finish_event_def table_defs
        split: option.splits)
qed

lemma off_gate_blocks_ingestion_witness:
  "w_jobs (fst (receive_event (example_env\<lparr>se_config := default_config\<rparr>) example_event empty_world)) = []"
proof -
  have "cfg_global_mode (se_config (example_env\<lparr>se_config := default_config\<rparr>)) = Mode_off"
    by (simp add: default_config_def)
  from off_gate_blocks_ingestion [OF this disjI1 [OF refl], of example_event empty_world]
  show ?thesis by (simp add: empty_world_def)
qed

section \<open>Feedback\<close>

lemma distinct_map_unique:
  "distinct (map g xs) \<Longrightarrow> x \<in> set xs \<Longrightarrow> y \<in> set xs \<Longrightarrow> g x = g y \<Longrightarrow> x = y"
  by (simp add: distinct_map inj_on_def)

lemma same_feedback_unique:
  assumes "db_ok d" and "f \<in> set (db_feedback d)" and "g \<in> set (db_feedback d)"
    and "same_feedback p f" and "same_feedback p g"
  shows "f = g"
proof (rule distinct_map_unique)
  show "distinct (map (\<lambda>f. (fb_channel f, fb_message_ts f, fb_user f, fb_reaction f)) (db_feedback d))"
    using assms(1) by (simp add: db_ok_def)
qed (use assms in \<open>auto simp: same_feedback_def\<close>)

lemma upsert_feedback_active:
  assumes "f \<in> set (db_feedback (upsert_feedback env reply p d))" and "same_feedback p f"
  shows "fb_is_active f"
  using assms by (auto simp: upsert_feedback_def table_defs same_feedback_def split: if_splits)

lemma upsert_feedback_exists: "\<exists>f \<in> set (db_feedback (upsert_feedback env reply p d)). same_feedback p f"
proof (cases "\<exists>f \<in> set (db_feedback d). same_feedback p f")
  case True
  then obtain f where "f \<in> set (db_feedback d)" "same_feedback p f" by blast
  then have "f\<lparr>fb_is_active := True, fb_updated_at := se_now env\<rparr>
      \<in> set (db_feedback (upsert_feedback env reply p d))"
    by (auto simp: upsert_feedback_def map_feedback_def image_iff)
  moreover have "same_feedback p (f\<lparr>fb_is_active := True, fb_updated_at := se_now env\<rparr>)"
    using \<open>same_feedback p f\<close> by (simp add: same_feedback_def)
  ultimately show ?thesis by blast
next
  case False
  then show ?thesis by (simp add: upsert_feedback_def add_feedback_def) (simp add: same_feedback_def)
qed

lemma deactivate_feedback_inactive:
  assumes "f \<in> set (db_feedback (deactivate_feedback env p d))" and "same_feedback p f"
  shows "\<not> fb_is_active f"
  using assms by (auto simp: deactivate_feedback_def table_defs same_feedback_def split: if_splits)

lemma insert_output_feedback: "insert_output r d = (d', out) \<Longrightarrow> db_feedback d' = db_feedback d"
  by (auto simp: insert_output_def table_defs split: if_splits)

text \<open>Feedback follows the last reaction. When a user adds one of the two reactions to an
  answer of the bot, exactly one feedback row carries that channel, message, user and reaction
  and it is active, however often the reaction was added before; when the user removes it, no
  active row with that identity is left and no output is created.\<close>

theorem feedback_follows_reaction:
  assumes "invariant d" and "process_reaction env d e = Inr (d', out)"
    and "ev_payload e = Reaction_payload p"
    and "find_reply d (rp_channel p) (rp_message_ts p) \<noteq> None"
  shows "if ev_event_type e = ''reaction_added''
     then (\<exists>!f. f \<in> set (db_feedback d') \<and> same_feedback p f) \<and>
          (\<forall>f \<in> set (db_feedback d'). same_feedback p f \<longrightarrow> fb_is_active f)
     else (\<forall>f \<in> set (db_feedback d'). same_feedback p f \<longrightarrow> \<not> fb_is_active f) \<and>
          out = None \<and> db_outputs d' = db_outputs d"
proof -
  from assms(4) obtain reply where reply: "find_reply d (rp_channel p) (rp_message_ts p) = Some reply"
    by blast
  have inv: "invariant d'" using assms(1,2) by (rule process_reaction_invariant)
  show ?thesis
  proof (cases "ev_event_type e = ''reaction_added''")
    case True
    obtain d1 where "db_feedback d1 = db_feedback (upsert_feedback env reply p d)"
        "d' = finish_event env (ev_id e) Ev_processed d1"
      using assms(2,3) reply True
      by (auto simp: process_reaction_def Let_def dest: insert_output_feedback
          split: prod.splits if_splits)
    then have fb: "db_feedback d' = db_feedback (upsert_feedback env reply p d)"
      by (simp add: finish_event_def upd_event_def)
    have "\<exists>!f. f \<in> set (db_feedback d') \<and> same_feedback p f"
    proof (rule ex_ex1I)
      show "\<exists>f. f \<in> set (db_feedback d') \<and> same_feedback p f"
        using upsert_feedback_exists [of env reply p d] fb by auto
      show "f = g" if "f \<in> set (db_feedback d') \<and> same_feedback p f"
        and "g \<in> set (db_feedback d') \<and> same_feedback p g" for f g
        using that same_feedback_unique [OF invariant_db_ok [OF inv]] by blast
    qed
    with True show ?thesis by (simp add: fb upsert_feedback_active)
  next
    case False
    then have "d' = finish_event env (ev_id e) Ev_processed (deactivate_feedback env p d) \<and> out = None"
      using assms(2,3) reply by (auto simp: process_reaction_def)
    with False show ?thesis
      by (auto simp: finish_event_def upd_event_def dest: deactivate_feedback_inactive)
  qed
qed

definition answered_db :: db where
  "answered_db = empty_db\<lparr>db_next_id := 2,
     db_conversations := [\<lparr>cv_id = 0, cv_channel = ''C1'', cv_thread_ts = ''1.0'',
       cv_requester = ''U1'', cv_state = Conv_answered, cv_latest_question = None\<rparr>],
     db_outputs := [(pending_output example_env 1 0 None ''C1'' ''1.0'' ''k'' ''hola''
       Kind_general_reply)\<lparr>so_status := Out_sent, so_message_ts := Some ''9.0''\<rparr>]\<rparr>"

definition plug_reaction :: reaction_payload where
  "plug_reaction = \<lparr>rp_event_id = ''Ev2'', rp_event_type = ''reaction_added'', rp_team_id = JNull,
     rp_channel = ''C1'', rp_message_ts = ''9.0'', rp_user = ''U2'', rp_reaction = ''electric_plug''\<rparr>"

definition plug_event :: event_row where
  "plug_event = \<lparr>ev_id = 0, ev_slack_event_id = ''Ev2'', ev_event_type = ''reaction_added'',
     ev_payload = Reaction_payload plug_reaction, ev_kind = Ek_reaction_added,
     ev_disposition = Ev_queued, ev_received_at = 0, ev_processed_at = None, ev_error = None\<rparr>"

lemma answered_db_invariant: "invariant answered_db"
  by (simp add: invariant_def db_ok_def fk_ok_def answered_db_def empty_db_def ids_ok_def
      unique_some_def map_filter_simps pending_output_def)

lemma feedback_follows_reaction_witness:
  "\<exists>d' out. process_reaction example_env answered_db plug_event = Inr (d', out) \<and>
     (\<exists>!f. f \<in> set (db_feedback d') \<and> same_feedback plug_reaction f)"
proof -
  have 1: "find_reply answered_db (rp_channel plug_reaction) (rp_message_ts plug_reaction) \<noteq> None"
    by (simp add: find_reply_def answered_db_def pending_output_def plug_reaction_def)
  have 2: "ev_payload plug_event = Reaction_payload plug_reaction"
      "ev_event_type plug_event = ''reaction_added''"
    by (simp_all add: plug_event_def)
  obtain d' out where 3: "process_reaction example_env answered_db plug_event = Inr (d', out)"
    using 1 2(1)
    by (cases "process_reaction example_env answered_db plug_event")
      (auto simp: process_reaction_def Let_def plug_reaction_def split: prod.splits option.splits)
  from feedback_follows_reaction [OF answered_db_invariant 3 2(1) 1] 2(2) 3 show ?thesis
    by auto
qed

end
