(* ===== verification/Rendering.thy ===== *)
theory Rendering
  imports Service
begin

text \<open>
  The Slack presentation (\<open>slack/rendering.py\<close>): the text of an identification and of a general
  answer, each bounded in words. The regular expressions of the source are written out: the final
  ellipsis, the split after sentence punctuation and the split at line breaks. Letters
  outside ASCII are written by their code in the alphabet of the prelude.
\<close>

section \<open>Words of joined texts\<close>

definition newline :: string where
  "newline = [CHR 0x0A]"

lemma word_count_join_newline:
  "word_count (str_join newline xs) = sum_list (map word_count xs)"
  by (simp add: newline_def word_count_join_blank)

lemma ends_blank_append: "ends_blank b (xs @ ys) = ends_blank (ends_blank b xs) ys"
  by (induction xs arbitrary: b) auto

lemma words_from_Cons_nonspace: "\<not> is_space c \<Longrightarrow> words_from False (c # cs) + 1 = word_count (c # cs)"
  by (simp add: word_count_words_from)

lemma word_count_glue_right:
  \<comment> \<open>text glued after a word adds a word less than it has, if it starts with one\<close>
  assumes "xs \<noteq> []" and "\<forall>c \<in> set xs. \<not> is_space c" and "ys = [] \<or> \<not> is_space (hd ys)"
  shows "word_count (xs @ ys) = max 1 (word_count ys)"
proof -
  have w: "words_from True xs = 1" "ends_blank True xs = False"
    using assms(1,2) words_from_nonblank [of xs True]
    by (simp, metis append_butlast_last_id ends_blank.simps ends_blank_append last_in_set)
  show ?thesis
  proof (cases ys)
    case Nil
    with w show ?thesis by (simp add: word_count_words_from)
  next
    case (Cons c cs)
    with assms(3) w show ?thesis by (simp add: word_count_words_from words_from_append)
  qed
qed

lemma word_count_glue_left:
  \<comment> \<open>characters glued after the last word add no word\<close>
  assumes "xs \<noteq> []" and "\<not> is_space (last xs)" and "\<forall>c \<in> set ys. \<not> is_space c"
  shows "word_count (xs @ ys) = word_count xs"
proof -
  have "ends_blank True xs = False"
    using assms(1,2) by (metis append_butlast_last_id ends_blank.simps ends_blank_append)
  moreover have "words_from False ys = 0"
    using assms(3) words_from_nonblank [of ys False] by (cases "ys = []") simp_all
  ultimately show ?thesis by (simp add: word_count_words_from words_from_append)
qed

lemma join_words_hd:
  assumes "\<forall>w \<in> set ws. w \<noteq> [] \<and> (\<forall>c \<in> set w. \<not> is_space c)" and "ws \<noteq> []"
  shows "str_join '' '' ws \<noteq> [] \<and> \<not> is_space (hd (str_join '' '' ws)) \<and>
         \<not> is_space (last (str_join '' '' ws))"
  using assms
proof (induction "'' ''" ws rule: str_join.induct)
  case (2 x)
  then show ?case by simp
next
  case (3 x y zs)
  then show ?case by auto
qed simp

section \<open>Clipping\<close>

definition finish_ellipsis :: "string \<Rightarrow> string" where
  \<comment> \<open>\<open>re.sub\<close> of a final \<open>...\<close> or ellipsis character by a full stop, on the stripped text\<close>
  "finish_ellipsis value =
     (let v = str_strip value in
      if ends_with ''...'' v then take (length v - 3) v @ ''.''
      else if ends_with [CHR 0x85] v then butlast v @ ''.''
      else v)"

definition ends_sentence :: "char \<Rightarrow> bool" where
  "ends_sentence c \<longleftrightarrow> c \<in> {CHR ''.'', CHR ''!'', CHR ''?''}"

lemma drop_shorter [termination_simp]: "length (dropWhile P xs) < Suc (length xs)"
  by (simp add: le_imp_less_Suc length_dropWhile_le)

fun split_units :: "bool \<Rightarrow> string \<Rightarrow> string \<Rightarrow> string list" where
  \<comment> \<open>\<open>re.split\<close> at white space after a sentence mark, and with the flag also at line breaks; \<open>cur\<close>
     is the piece read so far\<close>
  "split_units nl cur [] = [cur]"
| "split_units nl cur (c # cs) =
     (if is_space c \<and> cur \<noteq> [] \<and> ends_sentence (last cur)
      then cur # split_units nl [] (dropWhile is_space cs)
      else if nl \<and> c = CHR 0x0A
      then cur # split_units nl [] (dropWhile (\<lambda>d. d = CHR 0x0A) cs)
      else split_units nl (cur @ [c]) cs)"

definition split_sentences :: "string \<Rightarrow> string list" where
  "split_sentences s = split_units False [] s"

fun clip_select :: "nat \<Rightarrow> string list \<Rightarrow> string list \<Rightarrow> string list" where
  "clip_select limit selected [] = selected"
| "clip_select limit selected (s # ss) =
     (if limit < word_count (str_join '' '' (selected @ [s])) then selected
      else clip_select limit (selected @ [s]) ss)"

definition clip_words :: "string \<Rightarrow> nat \<Rightarrow> string" where
  "clip_words raw limit =
     (let value = finish_ellipsis raw in
      if length (str_split value) \<le> limit then str_strip value
      else let text = str_join '' '' (clip_select limit [] (split_sentences (str_strip value)))
           in if text = [] then ''Detalle pendiente.'' else text)"

lemma clip_select_bound:
  "word_count (str_join '' '' selected) \<le> limit \<Longrightarrow>
   word_count (str_join '' '' (clip_select limit selected ss)) \<le> limit"
  by (induction limit selected ss rule: clip_select.induct) auto

lemma word_count_pending: "word_count ''Detalle pendiente.'' = 2"
  by (simp add: word_count_words_from text_simps)

lemma clip_words_bound: "2 \<le> limit \<Longrightarrow> word_count (clip_words raw limit) \<le> limit"
proof -
  assume "2 \<le> limit"
  moreover have "word_count (str_join '' '' (clip_select limit [] ss)) \<le> limit" for ss
    by (rule clip_select_bound) simp
  ultimately show ?thesis
    by (auto simp: clip_words_def Let_def word_count_pending word_count_def [symmetric])
qed

section \<open>General answers\<close>

definition general_fallback :: string where
  "general_fallback = ''Mi respuesta excedi'' @ [CHR 0xF3] @ '' el formato breve de Slack. P''
     @ [CHR 0xED] @ ''deme que la divida y desplegar'' @ [CHR 0xE9]
     @ '' el resto de mi intelecto.''"

fun take_units :: "int \<Rightarrow> int \<Rightarrow> string list \<Rightarrow> string list" where
  \<comment> \<open>the loop over the units, with the words used so far\<close>
  "take_units available used [] = []"
| "take_units available used (u # us) =
     (let size' = int (length (str_split u)) in
      if available < used + size' then [] else u # take_units available (used + size') us)"

definition answer_units :: "string \<Rightarrow> string list" where
  "answer_units answer =
     filter (\<lambda>u. u \<noteq> []) (map str_strip (split_units True [] answer))"

definition limit_complete_answer :: "string \<Rightarrow> int \<Rightarrow> string option \<Rightarrow> string" where
  "limit_complete_answer value limit required_suffix =
     (let answer = finish_ellipsis value;
          suffix_words = (case required_suffix of
             Some s \<Rightarrow> (if s \<noteq> [] then str_split s else []) | None \<Rightarrow> []);
          available = max (limit - int (length suffix_words)) 1;
          parts = (if int (length (str_split answer)) \<le> available then [answer]
                   else let ps = take_units available 0 (answer_units answer)
                        in if ps = [] then [general_fallback] else ps)
      in str_join newline
           (parts @ (case required_suffix of Some s \<Rightarrow> (if s \<noteq> [] then [s] else []) | None \<Rightarrow> [])))"

definition general_image_note :: "image_ingestion \<Rightarrow> string" where
  "general_image_note ing =
     ''No pude procesar '' @ show_int (unprocessed ing) @ '' de '' @ show_int (ing_requested ing)
     @ '' capturas.''"

definition render_general_answer ::
  "app_config \<Rightarrow> general_answer \<Rightarrow> image_ingestion option \<Rightarrow> string" where
  "render_general_answer config response ingestion =
     limit_complete_answer (ga_answer response) (general_max_words config)
       (case ingestion of
          Some ing \<Rightarrow> (if unprocessed ing \<noteq> 0 then Some (general_image_note ing) else None)
        | None \<Rightarrow> None)"

lemma take_units_bound:
  "used \<le> available \<Longrightarrow>
   used + int (sum_list (map word_count (take_units available used us))) \<le> available"
proof (induction available used us rule: take_units.induct)
  case (2 available used u us)
  then show ?case by (auto simp: Let_def word_count_def)
qed simp

lemma show_nat_nonspace: "c \<in> set (show_nat n) \<Longrightarrow> \<not> is_space c"
proof (induction n rule: show_nat.induct)
  case (1 n)
  have "\<not> is_space (digit_char d)" if "d < 10" for d
  proof -
    have "code (digit_char d) = 48 + d" using that by (simp add: digit_char_def code_def)
    then show ?thesis using that by (auto simp: is_space_def)
  qed
  then show ?case
    using 1 by (subst (asm) (2) show_nat.simps) (auto split: if_splits)
qed

lemma show_int_nonspace: "c \<in> set (show_int i) \<Longrightarrow> \<not> is_space c"
  by (auto simp: show_int_def text_simps dest: show_nat_nonspace split: if_splits)

lemma show_nat_nonempty [simp]: "show_nat n \<noteq> []"
  by (subst show_nat.simps) simp

lemma show_int_nonempty [simp]: "show_int i \<noteq> []"
  by (simp add: show_int_def)

lemma word_count_show_int: "word_count (show_int i) = 1"
  using words_from_nonblank [of "show_int i" True] show_int_nonspace
  by (simp add: word_count_words_from)

lemma word_count_general_fallback: "word_count general_fallback = 19"
  by (simp add: word_count_words_from general_fallback_def text_simps)

lemma word_count_add: "word_count x \<le> a \<Longrightarrow> word_count y \<le> b \<Longrightarrow> word_count (x @ y) \<le> a + b"
  using word_count_append [of x y] by linarith

lemma word_count_show: "word_count (show_int i) \<le> 1"
  by (simp add: word_count_show_int)

lemmas count_literal = word_count_words_from text_simps

lemma word_count_general_note: "word_count (general_image_note ing) \<le> 7"
proof -
  have "word_count ''No pude procesar '' \<le> 3" "word_count '' de '' \<le> 1" "word_count '' capturas.'' \<le> 1"
    by (simp_all add: count_literal)
  then have "word_count (general_image_note ing) \<le> 3 + (1 + (1 + (1 + 1)))"
    unfolding general_image_note_def by (intro word_count_add word_count_show)
  then show ?thesis by simp
qed

text \<open>The shape of a general answer: the parts that fit, then the suffix.\<close>

lemma limit_complete_answer_bound:
  assumes "19 + int (word_count suffix) \<le> limit" and "suffix \<noteq> []"
  shows "int (word_count (limit_complete_answer value limit (Some suffix))) \<le> limit"
    and "int (word_count (limit_complete_answer value limit None)) \<le> limit"
proof -
  have parts: "int (sum_list (map word_count (take_units available 0 us))) \<le> available"
    if "0 \<le> available" for available us
    using take_units_bound [of 0 available us] that by simp
  note bound = parts word_count_general_fallback word_count_join_newline
  show "int (word_count (limit_complete_answer value limit (Some suffix))) \<le> limit"
    using assms parts [of "limit - int (word_count suffix)" "answer_units (finish_ellipsis value)"]
    by (auto simp: limit_complete_answer_def Let_def word_count_join_newline
        word_count_general_fallback word_count_def [symmetric] max_def)
  show "int (word_count (limit_complete_answer value limit None)) \<le> limit"
    using assms parts [of limit "answer_units (finish_ellipsis value)"]
    by (auto simp: limit_complete_answer_def Let_def word_count_join_newline
        word_count_general_fallback word_count_def [symmetric] max_def)
qed

section \<open>Identifications\<close>

fun confidence_label :: "confidence \<Rightarrow> string" where
  "confidence_label Conf_high = ''alta''"
| "confidence_label Conf_medium = ''media''"
| "confidence_label Conf_low = ''baja''"
| "confidence_label Conf_unknown = ''no s'' @ [CHR 0xE9]"

fun evidence_label :: "evidence_kind \<Rightarrow> string option" where
  "evidence_label Exact_address = Some (''direcci'' @ [CHR 0xF3] @ ''n exacta'')"
| "evidence_label Partial_address = Some (''direcci'' @ [CHR 0xF3] @ ''n parcial'')"
| "evidence_label Customer_name = Some ''nombre del cliente''"
| "evidence_label Signee_name = Some ''nombre de firmante''"
| "evidence_label Name_fragment = Some ''fragmento de nombre''"
| "evidence_label Rut = Some ''RUT''"
| "evidence_label Email = Some ''correo''"
| "evidence_label Phone = Some (''tel'' @ [CHR 0xE9] @ ''fono'')"
| "evidence_label Bank_name = Some ''titular bancario''"
| "evidence_label Bank_account = Some ''cuenta bancaria''"
| "evidence_label Exact_outstanding = Some ''saldo exacto''"
| "evidence_label Partial_payment = Some ''abono posible''"
| "evidence_label Vambe_context = Some ''contexto de Vambe''"
| "evidence_label _ = None"

definition customer_link :: "customer_candidate \<Rightarrow> nat \<Rightarrow> string" where
  "customer_link candidate max_name_words =
     ''<'' @ cc_crm_url candidate @ ''|''
     @ str_join '' '' (take max_name_words (str_split (cc_customer_name candidate))) @ ''>''"

definition evidence_of :: "payment_identification \<Rightarrow> string \<Rightarrow> evidence_signal option" where
  \<comment> \<open>the dict by evidence id: a later signal replaces an earlier one\<close>
  "evidence_of result k = List.find (\<lambda>s. sig_evidence_id s = k) (rev (pi_evidence result))"

definition compact_reason :: "payment_identification \<Rightarrow> customer_candidate \<Rightarrow> string" where
  "compact_reason result candidate =
     (let reasons = fromkeys (List.map_filter
            (\<lambda>k. case evidence_of result k of
                   Some signal \<Rightarrow> (if supports signal then evidence_label (sig_kind signal) else None)
                 | None \<Rightarrow> None) (cc_evidence_ids candidate))
      in if reasons = [] then ''evidencia por verificar''
         else str_join '' + '' (take 2 reasons))"

definition dash :: string where
  "dash = '' '' @ [CHR 0x97] @ '' ''"

definition middle_dot :: string where
  "middle_dot = '' '' @ [CHR 0xB7] @ '' ''"

definition render_alternatives :: "payment_identification \<Rightarrow> string" where
  "render_alternatives result =
     str_join ''; '' (map (\<lambda>c. customer_link c 5 @ dash @ compact_reason result c)
       (take 3 (pi_alternatives result)))"

definition identification_image_note :: "image_ingestion option \<Rightarrow> string" where
  "identification_image_note ingestion =
     (case ingestion of
        Some ing \<Rightarrow>
          (if unprocessed ing \<noteq> 0
           then show_int (unprocessed ing) @ ''/'' @ show_int (ing_requested ing)
                @ '' capturas no procesadas''
           else [])
      | None \<Rightarrow> [])"

definition pending_details :: "payment_identification \<Rightarrow> image_ingestion option \<Rightarrow> string list" where
  "pending_details result ingestion =
     (let image_note = identification_image_note ingestion;
          unable = pi_unable_to_verify result
            @ (if image_note \<noteq> [] \<and> image_note \<notin> set (pi_unable_to_verify result)
               then [image_note] else []);
          details = take (if image_note \<noteq> [] then 2 else 3) (filter (\<lambda>item. item \<noteq> image_note) unable)
      in details @ (if image_note \<noteq> [] then [image_note] else []))"

definition pending_text :: "payment_identification \<Rightarrow> image_ingestion option \<Rightarrow> string" where
  "pending_text result ingestion =
     str_join '', '' (map (\<lambda>item. clip_words item 5) (pending_details result ingestion))"

definition clarification_lines :: "payment_identification \<Rightarrow> string list" where
  "clarification_lines result =
     (case pi_clarification_question result of
        Some q \<Rightarrow> (if q \<noteq> [] then [clip_words (str_join '' '' (str_split q)) 20] else [])
      | None \<Rightarrow> [])"

definition why_label :: string where
  "why_label = ''*Por qu'' @ [CHR 0xE9] @ '':* ''"

definition render_matched ::
  "payment_identification \<Rightarrow> customer_candidate \<Rightarrow> string \<Rightarrow> string" where
  "render_matched result candidate pending =
     (let lines =
            [''*Resultado:* coincidencia'' @ dash @ ''confianza ''
               @ confidence_label (pi_confidence result) @ ''.'',
             ''*Cliente:* '' @ customer_link candidate 8]
            @ (case pi_account_receivable_summary result of
                 Some summary \<Rightarrow> (if summary \<noteq> [] then [''*Cuenta:* '' @ clip_words summary 16] else [])
               | None \<Rightarrow> [])
            @ [why_label @ clip_words (pi_investigation_summary result) 34];
          tail = (if pending \<noteq> [] then [''*No pude verificar:* '' @ pending] else [])
            @ (if pi_alternatives result \<noteq> []
               then [''*Alternativas:* '' @ render_alternatives result] else [])
      in str_join newline (lines @ (if tail \<noteq> [] then [str_join middle_dot tail] else [])))"

definition render_not_found :: "payment_identification \<Rightarrow> string \<Rightarrow> string" where
  "render_not_found result pending =
     str_join newline
       ([''*Resultado:* no encontr'' @ [CHR 0xE9] @ '' un cliente.'',
         why_label @ clip_words (pi_investigation_summary result) 24]
        @ (if pending \<noteq> [] then [''*No pude verificar:* '' @ pending] else [])
        @ clarification_lines result)"

definition render_ambiguous :: "payment_identification \<Rightarrow> string \<Rightarrow> string" where
  "render_ambiguous result pending =
     (let details = (if pi_alternatives result \<noteq> []
            then [''*Opciones:* '' @ render_alternatives result] else [])
            @ (if pending \<noteq> [] then [''*Falta:* '' @ pending] else [])
      in str_join newline
           ([''*Resultado:* no s'' @ [CHR 0xE9] @ ''; FinOps debe revisar el pago.'',
             why_label @ clip_words (pi_investigation_summary result) 24]
            @ (if details \<noteq> [] then [str_join middle_dot details] else [])
            @ clarification_lines result))"

definition render_identification ::
  "payment_identification \<Rightarrow> image_ingestion option \<Rightarrow> string" where
  "render_identification result ingestion =
     (if pi_outcome result = Out_out_of_scope
      then ''*Resultado:* '' @ clip_words (pi_investigation_summary result) 25
      else
        (let pending = pending_text result ingestion in
         case (pi_outcome result, pi_recommended_customer result) of
           (Out_matched, Some candidate) \<Rightarrow> render_matched result candidate pending
         | (Out_no_customer_found, _) \<Rightarrow> render_not_found result pending
         | _ \<Rightarrow> render_ambiguous result pending))"

fun render_response :: "app_config \<Rightarrow> runner_result \<Rightarrow> image_ingestion option \<Rightarrow> string" where
  "render_response config (General_result response _) ingestion =
     render_general_answer config response ingestion"
| "render_response config (Payment_result result _) ingestion =
     render_identification result ingestion"

section \<open>Word bounds\<close>

lemma split_nonblank: "\<forall>w \<in> set (take n (str_split s)). w \<noteq> [] \<and> (\<forall>c \<in> set w. \<not> is_space c)"
  using str_split_nonblank by (meson in_set_takeD)

lemma customer_link_count:
  assumes "\<forall>c \<in> set (cc_crm_url candidate). \<not> is_space c" and "1 \<le> n"
  shows "word_count (customer_link candidate n) \<le> n"
proof -
  let ?name = "str_join '' '' (take n (str_split (cc_customer_name candidate)))"
  let ?url = "''<'' @ cc_crm_url candidate @ ''|''"
  have url: "?url \<noteq> []" "\<forall>c \<in> set ?url. \<not> is_space c"
    using assms(1) by (auto simp: text_simps)
  have name: "?name = [] \<or> (\<not> is_space (hd ?name) \<and> \<not> is_space (last ?name))"
    using join_words_hd [OF split_nonblank]
    by (cases "take n (str_split (cc_customer_name candidate)) = []") (simp only: str_join.simps simp_thms, blast)
  have bound: "word_count ?name \<le> n"
    by (simp add: word_count_take_words)
  have "word_count (?url @ ?name @ ''>'') = max 1 (word_count (?name @ ''>''))"
    using url name by (intro word_count_glue_right) (auto simp: hd_append text_simps)
  moreover have "word_count (?name @ ''>'') \<le> max 1 (word_count ?name)"
  proof (cases "?name = []")
    case True
    then show ?thesis by (simp only: append_Nil) (simp add: count_literal)
  next
    case False
    with name have "word_count (?name @ ''>'') = word_count ?name"
      by (intro word_count_glue_left) (auto simp: text_simps)
    then show ?thesis by simp
  qed
  ultimately have "word_count (?url @ ?name @ ''>'') \<le> n"
    using bound assms(2) by linarith
  then show ?thesis by (simp add: customer_link_def)
qed

lemma evidence_label_count: "evidence_label k = Some l \<Longrightarrow> word_count l \<le> 3"
  by (cases k) (auto simp: count_literal)

lemma in_map_filter: "x \<in> set (List.map_filter f ys) \<Longrightarrow> \<exists>y \<in> set ys. f y = Some x"
  by (induction ys) (auto simp: map_filter_simps split: option.splits)

lemma compact_reason_count: "word_count (compact_reason result candidate) \<le> 7"
proof -
  define reasons where "reasons = fromkeys (List.map_filter
            (\<lambda>k. case evidence_of result k of
                   Some signal \<Rightarrow> (if supports signal then evidence_label (sig_kind signal) else None)
                 | None \<Rightarrow> None) (cc_evidence_ids candidate))"
  have r: "\<forall>l \<in> set (take 2 reasons). word_count l \<le> 3"
    using evidence_label_count
    by (fastforce simp: reasons_def dest!: in_set_takeD in_map_filter split: option.splits if_splits)
  have "sum_list (map word_count (take 2 reasons)) \<le> length (take 2 reasons) * 3"
    using r by (rule sum_list_le_const)
  moreover have "word_count '' + '' = 1" by (simp add: count_literal)
  ultimately have "word_count (str_join '' + '' (take 2 reasons)) \<le> 2 * 3 + 1"
    using word_count_join_le [of "'' + ''" "take 2 reasons"] by (auto simp: min_def split: if_splits)
  then show ?thesis
    by (simp add: compact_reason_def reasons_def [symmetric] count_literal)
qed

lemma join_count:
  assumes "\<forall>x \<in> set xs. word_count x \<le> m" and "length xs \<le> n" and "word_count sep \<le> k" 
  shows "word_count (str_join sep xs) \<le> n * m + (n - 1) * k"
proof -
  have "sum_list (map word_count xs) \<le> length xs * m"
    using assms(1) by (rule sum_list_le_const)
  also have "\<dots> \<le> n * m" using assms(2) by simp
  finally have "sum_list (map word_count xs) \<le> n * m" .
  moreover have "(length xs - 1) * word_count sep \<le> (n - 1) * k"
    using assms(2,3) by (intro mult_le_mono) auto
  ultimately show ?thesis using word_count_join_le [of sep xs] by linarith
qed

lemma count_comma: "word_count '', '' \<le> 1"
  by (simp add: count_literal)

lemma count_semicolon: "word_count ''; '' \<le> 1"
  by (simp add: count_literal)

lemma pending_text_count: "word_count (pending_text result ingestion) \<le> 17"
proof -
  have "length (pending_details result ingestion) \<le> 3"
    by (auto simp: pending_details_def Let_def)
  then have "word_count (pending_text result ingestion) \<le> 3 * 5 + (3 - 1) * 1"
    unfolding pending_text_def
    using count_comma by (intro join_count) (auto simp: clip_words_bound)
  then show ?thesis by simp
qed

definition links_ok :: "payment_identification \<Rightarrow> bool" where
  \<comment> \<open>the CRM links of the candidates have no white space\<close>
  "links_ok result \<longleftrightarrow>
     (\<forall>c \<in> set (pi_alternatives result) \<union> set_option (pi_recommended_customer result).
        \<forall>x \<in> set (cc_crm_url c). \<not> is_space x)"

lemma render_alternatives_count:
  assumes "links_ok result"
  shows "word_count (render_alternatives result) \<le> 41"
proof -
  have dash: "word_count dash \<le> 1" by (simp add: dash_def count_literal)
  have "word_count (customer_link c 5 @ dash @ compact_reason result c) \<le> 5 + (1 + 7)"
    if "c \<in> set (take 3 (pi_alternatives result))" for c
    using assms in_set_takeD [OF that]
    by (intro word_count_add customer_link_count dash compact_reason_count)
      (auto simp: links_ok_def)
  then have "word_count (render_alternatives result) \<le> 3 * 13 + (3 - 1) * 1"
    unfolding render_alternatives_def using count_semicolon by (intro join_count) auto
  then show ?thesis by simp
qed

lemma clip_counts:
  "word_count (clip_words s 5) \<le> 5" "word_count (clip_words s 16) \<le> 16"
  "word_count (clip_words s 20) \<le> 20" "word_count (clip_words s 24) \<le> 24"
  "word_count (clip_words s 25) \<le> 25" "word_count (clip_words s 34) \<le> 34"
  by (simp_all add: clip_words_bound)

lemma head_counts:
  "word_count ''*Resultado:* '' \<le> 1"
  "word_count ''*Cliente:* '' \<le> 1" "word_count ''*Cuenta:* '' \<le> 1" "word_count why_label \<le> 2"
  "word_count ''*No pude verificar:* '' \<le> 3" "word_count ''*Alternativas:* '' \<le> 1"
  "word_count ''*Opciones:* '' \<le> 1" "word_count ''*Falta:* '' \<le> 1" "word_count middle_dot \<le> 1"
  "word_count (''*Resultado:* no encontr'' @ [CHR 0xE9] @ '' un cliente.'') \<le> 5"
  "word_count (''*Resultado:* no s'' @ [CHR 0xE9] @ ''; FinOps debe revisar el pago.'') \<le> 8"
  by (simp_all add: count_literal why_label_def middle_dot_def)

lemma matched_head_count:
  "c \<in> {Conf_high, Conf_medium} \<Longrightarrow>
   word_count (''*Resultado:* coincidencia'' @ dash @ ''confianza '' @ confidence_label c @ ''.'') \<le> 5"
  by (auto simp: count_literal dash_def)

lemma pending_line_count:
  "word_count (''*No pude verificar:* '' @ pending_text result ingestion) \<le> 3 + 17"
  "word_count (''*Falta:* '' @ pending_text result ingestion) \<le> 1 + 17"
  by (rule word_count_add head_counts pending_text_count)+

lemma alternatives_line_count:
  assumes "links_ok result"
  shows "word_count (''*Alternativas:* '' @ render_alternatives result) \<le> 1 + 41"
    and "word_count (''*Opciones:* '' @ render_alternatives result) \<le> 1 + 41"
  using assms by (intro word_count_add head_counts render_alternatives_count; simp)+

lemma tail_count:
  assumes "word_count a \<le> m" and "word_count b \<le> n"
  shows "word_count (str_join middle_dot [a, b]) \<le> m + (1 + n)"
  using assms by (simp only: str_join.simps) (intro word_count_add head_counts; simp)

text \<open>The words of a list of lines, with one rule per way the lines are put together.\<close>

definition words_in :: "string list \<Rightarrow> nat" where
  "words_in xs = sum_list (map word_count xs)"

lemma word_count_lines: "word_count (str_join newline xs) = words_in xs"
  by (simp add: words_in_def word_count_join_newline)

lemma words_in_Cons: "word_count x \<le> a \<Longrightarrow> words_in xs \<le> b \<Longrightarrow> words_in (x # xs) \<le> a + b"
  by (simp add: words_in_def)

lemma words_in_one: "word_count x \<le> a \<Longrightarrow> words_in [x] \<le> a"
  by (simp add: words_in_def)

lemma words_in_append: "words_in xs \<le> a \<Longrightarrow> words_in ys \<le> b \<Longrightarrow> words_in (xs @ ys) \<le> a + b"
  by (simp add: words_in_def)

lemma words_in_if:
  "(b \<Longrightarrow> words_in xs \<le> n) \<Longrightarrow> (\<not> b \<Longrightarrow> words_in ys \<le> n) \<Longrightarrow> words_in (if b then xs else ys) \<le> n"
  by simp

lemma words_in_Nil: "words_in [] \<le> n"
  by (simp add: words_in_def)

lemma words_in_option:
  "(\<And>x. words_in (f x) \<le> n) \<Longrightarrow> words_in (case v of None \<Rightarrow> [] | Some x \<Rightarrow> f x) \<le> n"
  by (cases v) (simp_all add: words_in_Nil)

lemmas words_in_rules =
  words_in_append words_in_if words_in_Nil words_in_option words_in_one words_in_Cons

lemma clarification_count: "words_in (clarification_lines result) \<le> 20"
  unfolding clarification_lines_def by (intro words_in_rules clip_counts)

lemma joined_tail_count:
  assumes "word_count a \<le> m" and "word_count b \<le> n"
  shows "word_count (str_join middle_dot ((if p then [a] else []) @ (if q then [b] else []))) \<le>
    (if q then m + (1 + n) else m)"
  using assms tail_count [OF assms] by (auto simp del: str_join.simps(3))

lemma render_matched_count:
  assumes "links_ok result" and "pi_recommended_customer result = Some candidate"
    and "pi_confidence result \<in> {Conf_high, Conf_medium}"
  shows "word_count (render_matched result candidate (pending_text result ingestion)) \<le>
    (if pi_alternatives result = [] then 110 else 130)"
proof -
  have link: "word_count (''*Cliente:* '' @ customer_link candidate 8) \<le> 1 + 8"
    using assms(1,2) by (intro word_count_add head_counts customer_link_count) (auto simp: links_ok_def)
  have account: "word_count (''*Cuenta:* '' @ clip_words s 16) \<le> 1 + 16" for s
    by (intro word_count_add head_counts clip_counts)
  have why: "word_count (why_label @ clip_words s 34) \<le> 2 + 34" for s
    by (intro word_count_add head_counts clip_counts)
  note tail = joined_tail_count [OF pending_line_count(1) alternatives_line_count(1) [OF assms(1)]]
  have "words_in (([''*Resultado:* coincidencia'' @ dash @ ''confianza ''
               @ confidence_label (pi_confidence result) @ ''.'',
             ''*Cliente:* '' @ customer_link candidate 8]
            @ (case pi_account_receivable_summary result of
                 Some summary \<Rightarrow> (if summary \<noteq> [] then [''*Cuenta:* '' @ clip_words summary 16] else [])
               | None \<Rightarrow> [])
            @ [why_label @ clip_words (pi_investigation_summary result) 34]) @ t)
      \<le> ((5 + (1 + 8)) + ((1 + 16) + (2 + 34))) + n" if "words_in t \<le> n" for t n
    by (intro words_in_append words_in_Cons [OF matched_head_count [OF assms(3)] words_in_one [OF link]]
        words_in_option words_in_if words_in_one [OF account] words_in_Nil words_in_one [OF why] that)
  moreover have "words_in (if t \<noteq> [] then [str_join middle_dot t] else []) \<le>
        (if pi_alternatives result \<noteq> [] then (3 + 17) + (1 + (1 + 41)) else 3 + 17)"
    if "t = (if pending_text result ingestion \<noteq> []
               then [''*No pude verificar:* '' @ pending_text result ingestion] else [])
            @ (if pi_alternatives result \<noteq> []
               then [''*Alternativas:* '' @ render_alternatives result] else [])" for t
    unfolding that by (rule words_in_if, rule words_in_one, rule tail, rule words_in_Nil)
  ultimately have "word_count (render_matched result candidate (pending_text result ingestion)) \<le>
      ((5 + (1 + 8)) + ((1 + 16) + (2 + 34))) +
      (if pi_alternatives result \<noteq> [] then (3 + 17) + (1 + (1 + 41)) else 3 + 17)"
    unfolding render_matched_def Let_def word_count_lines by (metis (lifting))
  then show ?thesis by (simp split: if_splits)
qed

lemma render_not_found_count:
  "word_count (render_not_found result (pending_text result ingestion)) \<le> 75"
proof -
  have why: "word_count (why_label @ clip_words s 24) \<le> 2 + 24" for s
    by (intro word_count_add head_counts clip_counts)
  have "word_count (render_not_found result (pending_text result ingestion)) \<le>
      (5 + (2 + 24)) + ((3 + 17) + 20)"
    unfolding render_not_found_def word_count_lines
    by (intro words_in_append words_in_Cons [OF head_counts(10) words_in_one [OF why]] words_in_if
        words_in_one [OF pending_line_count(1)] words_in_Nil clarification_count)
  then show ?thesis by simp
qed

lemma render_ambiguous_count:
  assumes "links_ok result"
  shows "word_count (render_ambiguous result (pending_text result ingestion)) \<le>
    (if pi_alternatives result = [] then 75 else 130)"
proof -
  have why: "word_count (why_label @ clip_words s 24) \<le> 2 + 24" for s
    by (intro word_count_add head_counts clip_counts)
  have parts: "word_count (str_join middle_dot ((if p then [a] else []) @ (if q then [b] else []))) \<le>
      (if p then (1 + 41) + (1 + (1 + 17)) else 1 + 17)"
    if "p \<Longrightarrow> word_count a \<le> 1 + 41" and "word_count b \<le> 1 + 17" for p q a b
    using that tail_count [of a "1 + 41" b "1 + 17"] by (auto simp del: str_join.simps(3))
  have "words_in (if t \<noteq> [] then [str_join middle_dot t] else []) \<le>
        (if pi_alternatives result \<noteq> [] then (1 + 41) + (1 + (1 + 17)) else 1 + 17)"
    if "t = (if pi_alternatives result \<noteq> []
               then [''*Opciones:* '' @ render_alternatives result] else [])
            @ (if pending_text result ingestion \<noteq> []
               then [''*Falta:* '' @ pending_text result ingestion] else [])" for t
    unfolding that
    by (rule words_in_if, rule words_in_one, rule parts, rule alternatives_line_count [OF assms],
        rule pending_line_count, rule words_in_Nil)
  moreover have "words_in ([''*Resultado:* no s'' @ [CHR 0xE9] @ ''; FinOps debe revisar el pago.'',
             why_label @ clip_words (pi_investigation_summary result) 24] @ t @
             clarification_lines result) \<le> (8 + (2 + 24)) + (n + 20)" if "words_in t \<le> n" for t n
    by (intro words_in_append words_in_Cons [OF head_counts(11) words_in_one [OF why]] that
        clarification_count)
  ultimately have "word_count (render_ambiguous result (pending_text result ingestion)) \<le>
      (8 + (2 + 24)) +
      ((if pi_alternatives result \<noteq> [] then (1 + 41) + (1 + (1 + 17)) else 1 + 17) + 20)"
    unfolding render_ambiguous_def Let_def word_count_lines by (metis (lifting))
  then show ?thesis by (simp split: if_splits)
qed

section \<open>Properties\<close>

text \<open>An identification is short. For a result that passes its own validators and whose CRM
  links have no white space, the rendered text has at most 40 words when the request is out of
  scope, 130 when it lists alternatives, 110 for a match without alternatives and 75 otherwise:
  the limits the pilot gate grades by, whatever the texts of the result and the images.\<close>

theorem identification_words_bounded:
  assumes "outcome_is_consistent result = Inr result" and "links_ok result"
  shows "word_count (render_identification result ingestion) \<le>
    (if pi_outcome result = Out_out_of_scope then 40
     else if pi_alternatives result \<noteq> [] then 130
     else if pi_outcome result = Out_matched then 110 else 75)"
proof (cases "pi_outcome result")
  case Out_matched
  with assms(1) obtain candidate where rec: "pi_recommended_customer result = Some candidate"
      and conf: "pi_confidence result \<in> {Conf_high, Conf_medium}"
    by (auto simp: outcome_is_consistent_def split: if_splits)
  from render_matched_count [OF assms(2) rec conf, of ingestion] Out_matched rec show ?thesis
    by (simp add: render_identification_def split: if_splits)
next
  case Out_out_of_scope
  have "word_count (''*Resultado:* '' @ clip_words (pi_investigation_summary result) 25) \<le> 1 + 25"
    by (intro word_count_add head_counts clip_counts)
  then have "word_count (''*Resultado:* '' @ clip_words (pi_investigation_summary result) 25) \<le> 40"
    by (rule order_trans) simp
  with Out_out_of_scope show ?thesis
    unfolding render_identification_def by (simp only: if_True refl)
next
  case Out_no_customer_found
  then show ?thesis
    using render_not_found_count [of result ingestion] by (simp add: render_identification_def)
next
  case Out_ambiguous
  then show ?thesis
    using render_ambiguous_count [OF assms(2), of ingestion]
    by (simp add: render_identification_def split: if_splits)
qed

text \<open>C0: a general answer respects the configured length. Under a valid configuration the rendered
  answer has at most \<open>general_max_words\<close> words, whatever the model wrote, the note about images
  that could not be processed included.\<close>

theorem general_answer_words_bounded:
  assumes "config_valid config"
  shows "int (word_count (render_general_answer config response ingestion)) \<le> general_max_words config"
proof -
  have limit: "19 + int (word_count (general_image_note ing)) \<le> general_max_words config" for ing
    using word_count_general_note [of ing] assms by (simp add: config_valid_def within_def)
  have "general_image_note ing \<noteq> []" for ing by (simp add: general_image_note_def)
  note bounds = limit_complete_answer_bound [OF limit this]
  show ?thesis
    by (auto simp: render_general_answer_def bounds split: option.splits)
qed

lemma str_join_snoc: "xs \<noteq> [] \<Longrightarrow> str_join sep (xs @ [y]) = str_join sep xs @ sep @ y"
proof (induction sep xs rule: str_join.induct)
  case (3 sep x y' zs)
  then show ?case by simp
qed simp_all

lemma limit_complete_answer_suffix:
  assumes "suffix \<noteq> []"
  shows "\<exists>pre. limit_complete_answer value limit (Some suffix) = pre @ newline @ suffix"
proof -
  have shape: "\<exists>pre. str_join newline (parts @ [suffix]) = pre @ newline @ suffix" if "parts \<noteq> []" for parts
    using str_join_snoc [OF that] by blast
  let ?available = "max (limit - int (length (str_split suffix))) 1"
  let ?answer = "finish_ellipsis value"
  let ?units = "take_units ?available 0 (answer_units ?answer)"
  have "(if int (length (str_split ?answer)) \<le> ?available then [?answer]
       else if ?units = [] then [general_fallback] else ?units) \<noteq> []"
    by simp
  from shape [OF this] show ?thesis
    using assms by (simp only: limit_complete_answer_def Let_def option.case if_True not_False_eq_True
        simp_thms)
qed

text \<open>Failed screenshots are never hidden. When some requested image was not processed, the
  text posted for a general answer ends with a line that says how many were not, whatever the
  answer, and the pending list of an identification still contains its own notice.\<close>

theorem image_notice_survives:
  assumes "unprocessed ing \<noteq> 0"
  shows "(\<exists>pre. render_general_answer config response (Some ing) =
            pre @ newline @ general_image_note ing) \<and>
         identification_image_note (Some ing) \<in> set (pending_details result (Some ing)) \<and>
         length (pending_details result (Some ing)) \<le> 3"
proof -
  have "general_image_note ing \<noteq> []" by (simp add: general_image_note_def)
  from limit_complete_answer_suffix [OF this] assms show ?thesis
    by (auto simp: render_general_answer_def pending_details_def identification_image_note_def Let_def)
qed

section \<open>Witnesses\<close>

definition example_candidate :: customer_candidate where
  "example_candidate = \<lparr>cc_customer_name = ''Ana Rojas'', cc_order_id = ''o1'',
     cc_crm_url = ''https://crm/o1'', cc_reason = ''r'', cc_evidence_ids = []\<rparr>"

definition example_match :: payment_identification where
  "example_match = \<lparr>pi_outcome = Out_matched, pi_recommended_customer = Some example_candidate,
     pi_account_receivable_summary = None, pi_confidence = Conf_high,
     pi_investigation_summary = ''Saldo exacto.'', pi_unable_to_verify = [''fecha''],
     pi_alternatives = [], pi_evidence = [], pi_clarification_question = None\<rparr>"

definition one_failed_image :: image_ingestion where
  "one_failed_image = \<lparr>ing_requested = 2, ing_metadata_accepted = 2, ing_downloaded = 1,
     ing_rejected = 0, ing_failure_categories = [''download_failed'']\<rparr>"

lemma identification_words_bounded_witness:
  "word_count (render_identification example_match None) \<le> 110"
proof -
  have 1: "outcome_is_consistent example_match = Inr example_match"
    by (simp add: outcome_is_consistent_def example_match_def)
  have 2: "links_ok example_match"
    by (simp add: links_ok_def example_match_def example_candidate_def text_simps)
  from identification_words_bounded [OF 1 2, of None] show ?thesis
    by (simp add: example_match_def)
qed

lemma general_answer_words_bounded_witness:
  "int (word_count (render_general_answer default_config
     \<lparr>ga_answer = ''hola'', ga_route_correction = None\<rparr> (Some one_failed_image))) \<le> 180"
  using general_answer_words_bounded [OF default_config_valid]
  by (simp add: default_config_def)

lemma image_notice_survives_witness:
  "\<exists>pre. render_general_answer default_config \<lparr>ga_answer = ''hola'', ga_route_correction = None\<rparr>
     (Some one_failed_image) = pre @ newline @ general_image_note one_failed_image"
proof -
  have "unprocessed one_failed_image \<noteq> 0"
    by (simp add: unprocessed_def one_failed_image_def)
  from image_notice_survives [OF this] show ?thesis by blast
qed

end
