(* ===== verification/Pipeline.thy ===== *)
theory Pipeline
  imports Rendering
begin

text \<open>
  Running the agent and delivering its answer (\<open>slack/pipeline.py\<close>, \<open>slack/gateway.py\<close>). Each
  database session of the source that ends in a commit is one transaction on \<open>db\<close>; the handlers
  \<open>execute_run\<close> and \<open>deliver_output\<close> compose them with the calls to Slack, to the image ingestion
  and to the runner, in the order of the code. Between two transactions other workers may act: the
  function \<open>pe_interfere\<close> of the environment stands for what they do to the world at each such
  point, and the lifecycle theory states what it may be. Log events are not modelled.

  What is not under \<open>src/\<close> or lives behind a protocol is a field of \<open>pipeline_env\<close>: the Slack API's
  responses, the runner's result (the port \<open>AgentRunner\<close>), and the image download.
\<close>

section \<open>JSON text\<close>

definition json_escape :: "char \<Rightarrow> string" where
  "json_escape c =
     (if code c = 34 \<or> code c = 92 then [char_of (92::nat), c]
      else if code c = 8 then [char_of (92::nat), CHR ''b'']
      else if code c = 12 then [char_of (92::nat), CHR ''f'']
      else if code c = 10 then [char_of (92::nat), CHR ''n'']
      else if code c = 13 then [char_of (92::nat), CHR ''r'']
      else if code c = 9 then [char_of (92::nat), CHR ''t'']
      else if code c < 32
      then [char_of (92::nat), CHR ''u'', CHR ''0'', CHR ''0'', hex_digit (code c div 16),
            hex_digit (code c mod 16)]
      else [c])"

definition json_str :: "string \<Rightarrow> string" where
  "json_str s = char_of (34::nat) # concat (map json_escape s) @ [char_of (34::nat)]"

fun json_dumps :: "json \<Rightarrow> string" where
  \<comment> \<open>\<open>json.dumps(value, ensure_ascii=False)\<close>\<close>
  "json_dumps JNull = ''null''"
| "json_dumps (JBool b) = (if b then ''true'' else ''false'')"
| "json_dumps (JInt i) = show_int i"
| "json_dumps (JFloat s) = s"
| "json_dumps (JStr s) = json_str s"
| "json_dumps (JArr xs) = ''['' @ str_join '', '' (map json_dumps xs) @ '']''"
| "json_dumps (JObj kvs) =
     ''{'' @ str_join '', '' (map (\<lambda>(k, v). json_str k @ '': '' @ json_dumps v) kvs) @ ''}''"

section \<open>Tool calls\<close>

definition bounded_json :: "json option \<Rightarrow> json option" where
  "bounded_json value =
     (case value of
        None \<Rightarrow> None
      | Some v \<Rightarrow>
          (let encoded = json_dumps v in
           if length encoded \<le> 8000 then Some v
           else Some (JObj [(''truncated'', JBool True), (''preview'', JStr (take 7500 encoded))])))"

definition stored_call :: "tool_audit_record \<Rightarrow> tool_audit_record" where
  "stored_call call = call\<lparr>ta_input := bounded_json (ta_input call),
     ta_output := bounded_json (ta_output call),
     ta_error := (case ta_error call of
        Some e \<Rightarrow> (if e \<noteq> [] then Some (take 2000 e) else None) | None \<Rightarrow> None)\<rparr>"

definition persist_tool_call :: "nat \<Rightarrow> tool_audit_record \<Rightarrow> db \<Rightarrow> db" where
  "persist_tool_call run_id call d =
     (if (run_id, ta_sequence call) \<in> (\<lambda>t. (tc_run_id t, ta_sequence (tc_record t))) ` set (db_tool_calls d)
      then d
      else add_tool_call
             \<lparr>tc_id = db_next_id d, tc_run_id = run_id, tc_record = stored_call call\<rparr> d)"

definition persist_tool_calls :: "nat \<Rightarrow> tool_audit_record list \<Rightarrow> db \<Rightarrow> db" where
  "persist_tool_calls run_id calls d = foldl (\<lambda>d call. persist_tool_call run_id call d) d calls"

section \<open>Messages\<close>

definition attachment_of :: "json \<Rightarrow> transcript_attachment option" where
  "attachment_of item =
     (case (jstr (jget ''id'' item), jstr (jget ''mimetype'' item), jint (jget ''size'' item)) of
        (Some file_id, Some mimetype, Some sz) \<Rightarrow>
          Some \<lparr>at_slack_file_id = file_id,
                at_name = (let n = jget ''name'' item in if truthy n then Some (py_str n) else None),
                at_mimetype = mimetype, at_size = sz\<rparr>
      | _ \<Rightarrow> None)"

definition attachments :: "json list option \<Rightarrow> transcript_attachment list" where
  "attachments metadata =
     (case metadata of None \<Rightarrow> [] | Some items \<Rightarrow> List.map_filter attachment_of items)"

definition metadata_count :: "message_row \<Rightarrow> int" where
  "metadata_count m = (case ms_file_metadata m of None \<Rightarrow> 0 | Some items \<Rightarrow> int (length items))"

definition stored_summary :: "message_row \<Rightarrow> int \<times> int" where
  \<comment> \<open>\<open>_attachment_summary\<close>: requested and rejected\<close>
  "stored_summary trigger =
     (let summary = jget ''attachment_summary'' (ms_raw trigger) in
      if \<not> is_jobj summary then (metadata_count trigger, 0)
      else ((case jint (jget ''requested'' summary) of
               Some n \<Rightarrow> (if 0 \<le> n then n else metadata_count trigger)
             | None \<Rightarrow> metadata_count trigger),
            (case jint (jget ''rejected'' summary) of
               Some n \<Rightarrow> (if 0 \<le> n then n else 0) | None \<Rightarrow> 0)))"

definition newer_inbound :: "db \<Rightarrow> nat \<Rightarrow> int \<Rightarrow> bool" where
  \<comment> \<open>the query for an inbound message of the conversation after the trigger\<close>
  "newer_inbound d conversation_id event_at \<longleftrightarrow>
     (\<exists>m \<in> set (db_messages d). ms_conversation_id m = conversation_id \<and>
        ms_direction m = ''inbound'' \<and> event_at < ms_event_at m)"

definition transcript_limit :: nat where
  "transcript_limit = 30"

fun insert_by_time :: "message_row \<Rightarrow> message_row list \<Rightarrow> message_row list" where
  "insert_by_time m [] = [m]"
| "insert_by_time m (n # ns) =
     (if ms_event_at m < ms_event_at n
         \<or> (ms_event_at m = ms_event_at n \<and> ms_created_at m \<le> ms_created_at n) then m # n # ns
      else n # insert_by_time m ns)"

definition by_time :: "message_row list \<Rightarrow> message_row list" where
  \<comment> \<open>oldest first; rows with equal times keep their order in the table\<close>
  "by_time ms = foldr insert_by_time ms []"

definition stored_messages :: "db \<Rightarrow> nat \<Rightarrow> message_row list" where
  \<comment> \<open>the newest \<open>transcript_limit\<close> messages of the conversation, oldest first\<close>
  "stored_messages d conversation_id =
     rev (take transcript_limit
       (rev (by_time (filter (\<lambda>m. ms_conversation_id m = conversation_id) (db_messages d)))))"

definition transcript_of :: "message_row \<Rightarrow> transcript_message" where
  "transcript_of m =
     \<lparr>tm_direction = ms_direction m, tm_text = ms_text m, tm_event_at = ms_event_at m,
      tm_sender = ms_sender m, tm_slack_message_ts = Some (ms_message_ts m),
      tm_attachments = attachments (ms_file_metadata m)\<rparr>"

definition snapshot_of :: "transcript_message \<Rightarrow> snapshot_message" where
  "snapshot_of m =
     \<lparr>sm_direction = tm_direction m, sm_text = tm_text m, sm_event_at = tm_event_at m,
      sm_sender = tm_sender m, sm_slack_message_ts = tm_slack_message_ts m,
      sm_image_count = length (tm_attachments m)\<rparr>"

section \<open>Starting a run\<close>

record run_start =
  sr_conversation_id :: nat
  sr_channel :: string
  sr_thread_ts :: string
  sr_requester :: string
  sr_trigger_ts :: string
  sr_transcript :: "transcript_message list"
  sr_attachments :: "transcript_attachment list"
  sr_requested :: int
  sr_rejected :: int

definition cancel_run :: "svc_env \<Rightarrow> nat \<Rightarrow> db \<Rightarrow> db" where
  "cancel_run env run_id d =
     upd_run run_id (\<lambda>r. r\<lparr>rn_status := Run_cancelled, rn_finished_at := Some (se_now env)\<rparr>) d"

definition set_conversation_state :: "nat \<Rightarrow> conversation_state \<Rightarrow> db \<Rightarrow> db" where
  "set_conversation_state i st d = upd_conversation i (\<lambda>c. c\<lparr>cv_state := st\<rparr>) d"

definition trigger_of :: "db \<Rightarrow> run_row \<Rightarrow> message_row option" where
  "trigger_of d r =
     (case rn_trigger_message_id r of None \<Rightarrow> None | Some m \<Rightarrow> get_message d m)"

definition run_start_of :: "db \<Rightarrow> conversation_row \<Rightarrow> message_row \<Rightarrow> run_start" where
  "run_start_of d conversation trigger =
     \<lparr>sr_conversation_id = cv_id conversation, sr_channel = cv_channel conversation,
      sr_thread_ts = cv_thread_ts conversation, sr_requester = cv_requester conversation,
      sr_trigger_ts = ms_message_ts trigger,
      sr_transcript = map transcript_of (stored_messages d (cv_id conversation)),
      sr_attachments = attachments (ms_file_metadata trigger),
      sr_requested = fst (stored_summary trigger), sr_rejected = snd (stored_summary trigger)\<rparr>"

definition first_snapshot :: "run_start \<Rightarrow> input_snapshot" where
  "first_snapshot st =
     \<lparr>sn_messages = map snapshot_of (sr_transcript st),
      sn_image_ingestion = \<lparr>ing_requested = sr_requested st,
        ing_metadata_accepted = int (length (sr_attachments st)), ing_downloaded = 0,
        ing_rejected = sr_rejected st, ing_failure_categories = []\<rparr>\<rparr>"

definition begin_run :: "svc_env \<Rightarrow> nat \<Rightarrow> db \<Rightarrow> exn_name + (db \<times> run_start option)" where
  \<comment> \<open>the first session: \<open>None\<close> when the handler returns, else what the run starts from\<close>
  "begin_run env run_id d =
     (case get_run d run_id of
        None \<Rightarrow> Inr (d, None)
      | Some run \<Rightarrow>
          (if rn_status run \<noteq> Run_queued then Inr (d, None)
           else if cfg_global_mode (se_config env) = Mode_off
           then Inr (cancel_run env run_id d, None)
           else case (get_conversation d (rn_conversation_id run), trigger_of d run) of
             (Some conversation, Some trigger) \<Rightarrow>
               (if newer_inbound d (rn_conversation_id run) (ms_event_at trigger)
                then Inr (set_conversation_state (rn_conversation_id run) Conv_running
                            (cancel_run env run_id d), None)
                else
                  (let st = run_start_of d conversation trigger in
                   Inr (upd_run run_id
                          (\<lambda>r. r\<lparr>rn_status := Run_running, rn_started_at := Some (se_now env),
                                 rn_input_snapshot := Some (first_snapshot st)\<rparr>) d, Some st)))
           | _ \<Rightarrow> Inl ''AssertionError''))"

section \<open>Staleness\<close>

definition cancel_if_stale :: "svc_env \<Rightarrow> nat \<Rightarrow> db \<Rightarrow> exn_name + (db \<times> bool)" where
  "cancel_if_stale env run_id d =
     (case get_run d run_id of
        None \<Rightarrow> Inr (d, True)
      | Some run \<Rightarrow>
          (if rn_status run \<notin> {Run_queued, Run_running} then Inr (d, True)
           else case trigger_of d run of
             None \<Rightarrow> Inl ''AssertionError''
           | Some trigger \<Rightarrow>
               (if \<not> newer_inbound d (rn_conversation_id run) (ms_event_at trigger)
                   \<and> cfg_global_mode (se_config env) \<noteq> Mode_off
                then Inr (d, False)
                else Inr (set_conversation_state (rn_conversation_id run) Conv_running
                            (cancel_run env run_id d), True))))"

section \<open>Images and the runner's input\<close>

record image_batch =
  ib_paths :: "string list"
  ib_ingestion :: image_ingestion

type_synonym ingest_fn =
  "nat \<Rightarrow> transcript_attachment list \<Rightarrow> int \<Rightarrow> int \<Rightarrow> exn_name + image_batch"

definition run_images ::
  "ingest_fn \<Rightarrow> nat \<Rightarrow> transcript_attachment list \<Rightarrow> int \<Rightarrow> int \<Rightarrow> bool \<Rightarrow> exn_name + image_batch" where
  "run_images ingest run_id atts requested rejected supports_image_input =
     (if supports_image_input \<and> atts \<noteq> [] then ingest run_id atts requested rejected
      else Inr \<lparr>ib_paths = [],
             ib_ingestion = \<lparr>ing_requested = requested,
               ing_metadata_accepted = int (length atts), ing_downloaded = 0,
               ing_rejected = rejected,
               ing_failure_categories =
                 (if requested \<noteq> 0
                  then [if supports_image_input then ''no_accepted_images''
                        else ''runner_does_not_support_images''] else [])\<rparr>\<rparr>)"

definition unprocessed_note :: "image_ingestion \<Rightarrow> string" where
  "unprocessed_note ing =
     show_int (unprocessed ing) @ ''/'' @ show_int (ing_requested ing) @ '' capturas no procesadas''"

definition append_image_limitation :: "runner_result \<Rightarrow> image_ingestion \<Rightarrow> runner_result" where
  "append_image_limitation result ing =
     (if unprocessed ing = 0 then result
      else case result of
        General_result r m \<Rightarrow> General_result r m
      | Payment_result p m \<Rightarrow>
          (let note = unprocessed_note ing; unable = pi_unable_to_verify p in
           Payment_result
             (p\<lparr>pi_unable_to_verify := (if note \<notin> set unable then unable @ [note] else unable)\<rparr>) m))"

lemma tl_drop_shorter [termination_simp]: "length (dropWhile P (drop (Suc 0) cs)) - Suc 0 < Suc (length cs)"
  using length_dropWhile_le [of P "drop (Suc 0) cs"] by (simp add: less_Suc_eq_le)

fun strip_mentions :: "string \<Rightarrow> string" where
  \<comment> \<open>\<open>re.sub(r"<@[^>]+>", "", text)\<close>\<close>
  "strip_mentions [] = []"
| "strip_mentions (c # cs) =
     (let inner = takeWhile (\<lambda>d. d \<noteq> CHR ''>'') (drop 1 cs);
          rest = dropWhile (\<lambda>d. d \<noteq> CHR ''>'') (drop 1 cs) in
      if c = CHR ''<'' \<and> take 1 cs = ''@'' \<and> inner \<noteq> [] \<and> rest \<noteq> []
      then strip_mentions (tl rest)
      else c # strip_mentions cs)"

definition usable_text :: "transcript_message \<Rightarrow> bool" where
  "usable_text m \<longleftrightarrow>
     tm_direction m = ''inbound'' \<and>
     (case tm_text m of None \<Rightarrow> False | Some t \<Rightarrow> t \<noteq> [] \<and> str_strip (strip_mentions t) \<noteq> [])"

definition has_usable_evidence :: "agent_run_input \<Rightarrow> bool" where
  "has_usable_evidence ri \<longleftrightarrow>
     ri_image_paths ri \<noteq> [] \<or> list_ex usable_text (ri_transcript ri)"

section \<open>Finishing a run\<close>

definition record_ingestion :: "nat \<Rightarrow> image_ingestion \<Rightarrow> db \<Rightarrow> exn_name + db" where
  \<comment> \<open>the second session: the ingestion replaces the one of the snapshot\<close>
  "record_ingestion run_id ing d =
     (case get_run d run_id of
        None \<Rightarrow> Inl ''AssertionError''
      | Some _ \<Rightarrow>
          Inr (upd_run run_id
                 (\<lambda>r. r\<lparr>rn_input_snapshot :=
                    (case rn_input_snapshot r of
                       Some sn \<Rightarrow> Some (sn\<lparr>sn_image_ingestion := ing\<rparr>)
                     | None \<Rightarrow> Some \<lparr>sn_messages = [], sn_image_ingestion = ing\<rparr>)\<rparr>) d))"

definition prompt_version :: string where
  "prompt_version = ''payment-identification-v5''"

definition no_evidence_result :: runner_result where
  "no_evidence_result =
     Payment_result
       \<lparr>pi_outcome = infer_legacy_outcome None None, pi_recommended_customer = None,
        pi_account_receivable_summary = None, pi_confidence = Conf_unknown,
        pi_investigation_summary = ''No qued'' @ [CHR 0xF3] @ '' texto ni una captura v''
          @ [CHR 0xE1] @ ''lida para investigar el pago.'',
        pi_unable_to_verify = [''cliente'', ''cuenta por cobrar'', ''evidencia del pago''],
        pi_alternatives = [], pi_evidence = [], pi_clarification_question = None\<rparr>
       (default_meta\<lparr>rm_prompt_version := Some prompt_version\<rparr>)"

fun structured_of :: "runner_result \<Rightarrow> structured_result" where
  "structured_of (General_result r _) = Answer_result (ga_answer r)"
| "structured_of (Payment_result p _) = Identification_result p"

fun result_kind :: "runner_result \<Rightarrow> request_kind" where
  "result_kind (General_result _ _) = Req_general"
| "result_kind (Payment_result _ _) = Req_payment_identification"

definition tool_steps :: "tool_audit_record list \<Rightarrow> run_step list" where
  "tool_steps calls = map (\<lambda>c. Tool_step (ta_tool_name c) (ta_status c)) calls"

definition succeeded_run ::
  "svc_env \<Rightarrow> runner_result \<Rightarrow> string \<Rightarrow> image_ingestion \<Rightarrow> int \<Rightarrow> run_row \<Rightarrow> run_row" where
  "succeeded_run env result body ing latency r =
     (let m = result_meta result in
      r\<lparr>rn_status := Run_succeeded, rn_request_kind := result_kind result,
        rn_structured_result := Some (structured_of result),
        rn_steps := Some ([Ingestion_step ing] @ map Agent_step (rm_steps m)
          @ tool_steps (rm_tool_calls m)),
        rn_output_message := Some body, rn_prompt_version := rm_prompt_version m,
        rn_knowledge_version := rm_knowledge_version m,
        rn_completion_reason := Some (rm_completion_reason m),
        rn_model := us_model (rm_usage m), rn_input_tokens := us_input_tokens (rm_usage m),
        rn_output_tokens := us_output_tokens (rm_usage m), rn_turns := Some (us_turns (rm_usage m)),
        rn_tool_calls := Some (us_tool_calls (rm_usage m)), rn_latency_ms := Some latency,
        rn_finished_at := Some (se_now env)\<rparr>)"

definition answer_kind :: "runner_result \<Rightarrow> output_kind" where
  "answer_kind result = (if is_general result then Kind_general_reply else Kind_investigation)"

definition run_output_key :: "nat \<Rightarrow> output_kind \<Rightarrow> string" where
  "run_output_key run_id kind = ''agent-run:'' @ show_nat run_id @ '':'' @ output_kind_value kind"

definition run_output ::
  "svc_env \<Rightarrow> nat \<Rightarrow> conversation_row \<Rightarrow> nat \<Rightarrow> string \<Rightarrow> output_kind \<Rightarrow> output_row" where
  "run_output env i conversation run_id body kind =
     pending_output env i (cv_id conversation) (Some run_id) (cv_channel conversation)
       (cv_thread_ts conversation) (run_output_key run_id kind) body kind"

definition complete_run ::
  "svc_env \<Rightarrow> nat \<Rightarrow> runner_result \<Rightarrow> string \<Rightarrow> image_ingestion \<Rightarrow> int \<Rightarrow> db
   \<Rightarrow> exn_name + (db \<times> nat option)" where
  \<comment> \<open>the success session: the id of the output to submit, when one was created\<close>
  "complete_run env run_id result body ing latency d =
     (case get_run d run_id of
        None \<Rightarrow> Inl ''AssertionError''
      | Some run \<Rightarrow>
          (if rn_status run \<noteq> Run_running then Inr (d, None)
           else case get_conversation d (rn_conversation_id run) of
             None \<Rightarrow> Inl ''AssertionError''
           | Some conversation \<Rightarrow>
               (let d1 = upd_run run_id (succeeded_run env result body ing latency) d;
                    d2 = set_conversation_state (cv_id conversation) Conv_answered d1;
                    d3 = persist_tool_calls run_id (rm_tool_calls (result_meta result)) d2
                in if cfg_global_mode (se_config env) = Mode_enabled
                   then Inr (insert_output (run_output env (db_next_id d3) conversation run_id body
                               (answer_kind result)) d3)
                   else Inr (d3, None))))"

definition failure_body :: "request_kind \<Rightarrow> string" where
  "failure_body kind =
     (if kind = Req_general
      then ''No pude completar la respuesta. Mis circuitos no son ''
           @ ''infalibles, aunque me duela admitirlo.''
      else ''No pude completar la investigaci'' @ [CHR 0xF3]
           @ ''n. FinOps debe revisar el pago manualmente.'')"

definition failed_meta :: "py_exception \<Rightarrow> run_row \<Rightarrow> run_row" where
  "failed_meta ex r =
     (case ex of
        Run_failure f \<Rightarrow>
          r\<lparr>rn_prompt_version := fl_prompt_version f, rn_knowledge_version := fl_knowledge_version f,
            rn_request_kind := fl_request_kind f,
            rn_tool_calls := Some (int (length (fl_tool_calls f))),
            rn_steps := Some (tool_steps (fl_tool_calls f))\<rparr>
      | Other_exception _ \<Rightarrow> r)"

definition failure_calls :: "py_exception \<Rightarrow> tool_audit_record list" where
  "failure_calls ex = (case ex of Run_failure f \<Rightarrow> fl_tool_calls f | Other_exception _ \<Rightarrow> [])"

definition failed_run ::
  "svc_env \<Rightarrow> string \<Rightarrow> string \<Rightarrow> run_row \<Rightarrow> run_row" where
  "failed_run env error_code error_detail r =
     r\<lparr>rn_status := Run_failed, rn_error_code := Some error_code,
       rn_error_detail := Some error_detail, rn_finished_at := Some (se_now env)\<rparr>"

definition fail_run ::
  "svc_env \<Rightarrow> nat \<Rightarrow> py_exception \<Rightarrow> db \<Rightarrow> db \<times> nat option" where
  \<comment> \<open>the session of the exception handler\<close>
  "fail_run env run_id ex d =
     (case get_run d run_id of
        None \<Rightarrow> (d, None)
      | Some run \<Rightarrow>
          (if rn_status run \<noteq> Run_running then (d, None)
           else
             (let d1 = persist_tool_calls run_id (failure_calls ex) (upd_run run_id (failed_meta ex) d);
                  d2 = upd_run run_id (failed_run env ''runner_error'' (exception_name ex)) d1
              in case get_conversation d2 (rn_conversation_id run) of
                   None \<Rightarrow> (d2, None)
                 | Some conversation \<Rightarrow>
                     (let d3 = set_conversation_state (cv_id conversation) Conv_failed d2 in
                      if cfg_global_mode (se_config env) = Mode_enabled
                      then insert_output (run_output env (db_next_id d3) conversation run_id
                             (failure_body (rn_request_kind (failed_meta ex run))) Kind_error) d3
                      else (d3, None)))))"

section \<open>The run handler\<close>

record pipeline_env =
  pe_svc :: svc_env
  pe_supports_images :: bool
  pe_ingest :: ingest_fn
  pe_run :: "agent_run_input \<Rightarrow> py_exception + runner_result"
  pe_latency :: int
  pe_post :: "slack_call \<Rightarrow> exn_name + json"   \<comment> \<open>the response of \<open>chat_postMessage\<close>\<close>
  pe_interfere :: "nat \<Rightarrow> world \<Rightarrow> world"

definition posts_to_slack :: "pipeline_env \<Rightarrow> bool" where
  "posts_to_slack pe \<longleftrightarrow> cfg_global_mode (se_config (pe_svc pe)) = Mode_enabled"

definition set_status :: "string \<Rightarrow> string \<Rightarrow> string \<Rightarrow> world \<Rightarrow> world" where
  \<comment> \<open>a failed call is only logged, so the call is what matters\<close>
  "set_status channel thread_ts status w =
     w\<lparr>w_slack := w_slack w @ [Set_status channel thread_ts status]\<rparr>"

definition clear_status :: "string \<Rightarrow> string \<Rightarrow> world \<Rightarrow> world" where
  "clear_status channel thread_ts w = set_status channel thread_ts [] w"

definition thinking :: string where
  "thinking = ''Pensando'' @ [CHR 0x85]"

definition clear_if_posting :: "pipeline_env \<Rightarrow> run_start \<Rightarrow> world \<Rightarrow> world" where
  "clear_if_posting pe st w =
     (if posts_to_slack pe then clear_status (sr_channel st) (sr_thread_ts st) w else w)"

definition runner_input :: "nat \<Rightarrow> run_start \<Rightarrow> image_batch \<Rightarrow> agent_run_input" where
  "runner_input run_id st batch =
     \<lparr>ri_run_id = run_id, ri_slack_channel_id = sr_channel st, ri_slack_thread_ts = sr_thread_ts st,
      ri_requester = sr_requester st, ri_transcript = sr_transcript st,
      ri_trigger_ts = Some (sr_trigger_ts st), ri_image_paths = ib_paths batch,
      ri_image_ingestion = ib_ingestion batch\<rparr>"

definition run_agent :: "pipeline_env \<Rightarrow> agent_run_input \<Rightarrow> py_exception + runner_result" where
  "run_agent pe ri = (if has_usable_evidence ri then pe_run pe ri else Inr no_evidence_result)"

definition submit_output :: "pipeline_env \<Rightarrow> nat option \<Rightarrow> world \<Rightarrow> world" where
  \<comment> \<open>a failed submission is left to the periodic recovery\<close>
  "submit_output pe output_id w =
     (case output_id of
        None \<Rightarrow> w
      | Some i \<Rightarrow>
          (case enqueue_slack_output (se_dq (pe_svc pe)) i (w_jobs w) of
             Inl _ \<Rightarrow> w | Inr (_, jobs) \<Rightarrow> w\<lparr>w_jobs := jobs\<rparr>))"

definition finish_attempt ::
  "pipeline_env \<Rightarrow> nat \<Rightarrow> run_start \<Rightarrow> image_batch \<Rightarrow> runner_result \<Rightarrow> world
   \<Rightarrow> world \<times> (py_exception + unit)" where
  \<comment> \<open>from the rendered result to the end of the try block\<close>
  "finish_attempt pe run_id st batch result w =
     (let env = pe_svc pe;
          body = render_response (se_config env) result (Some (ib_ingestion batch))
      in case cancel_if_stale env run_id (w_db w) of
           Inl e \<Rightarrow> (w, Inl (Other_exception e))
         | Inr (d, True) \<Rightarrow> (clear_if_posting pe st (w\<lparr>w_db := d\<rparr>), Inr ())
         | Inr (d, False) \<Rightarrow>
             (let w1 = pe_interfere pe 3 (w\<lparr>w_db := d\<rparr>) in
              case complete_run env run_id result body (ib_ingestion batch) (pe_latency pe) (w_db w1) of
                Inl e \<Rightarrow> (w1, Inl (Other_exception e))
              | Inr (d1, output_id) \<Rightarrow> (submit_output pe output_id (w1\<lparr>w_db := d1\<rparr>), Inr ())))"

definition attempt_run ::
  "pipeline_env \<Rightarrow> nat \<Rightarrow> run_start \<Rightarrow> world \<Rightarrow> world \<times> (py_exception + unit)" where
  \<comment> \<open>the try block\<close>
  "attempt_run pe run_id st w =
     (let env = pe_svc pe in
      case run_images (pe_ingest pe) run_id (sr_attachments st) (sr_requested st) (sr_rejected st)
             (pe_supports_images pe) of
        Inl e \<Rightarrow> (w, Inl (Other_exception e))
      | Inr batch \<Rightarrow>
          (case record_ingestion run_id (ib_ingestion batch) (w_db w) of
             Inl e \<Rightarrow> (w, Inl (Other_exception e))
           | Inr d \<Rightarrow>
               (let w1 = pe_interfere pe 1 (w\<lparr>w_db := d\<rparr>) in
                case cancel_if_stale env run_id (w_db w1) of
                  Inl e \<Rightarrow> (w1, Inl (Other_exception e))
                | Inr (d1, True) \<Rightarrow> (clear_if_posting pe st (w1\<lparr>w_db := d1\<rparr>), Inr ())
                | Inr (d1, False) \<Rightarrow>
                    (let w2 = pe_interfere pe 2 (w1\<lparr>w_db := d1\<rparr>) in
                     case run_agent pe (runner_input run_id st batch) of
                       Inl ex \<Rightarrow> (w2, Inl ex)
                     | Inr result \<Rightarrow>
                         finish_attempt pe run_id st batch
                           (append_image_limitation result (ib_ingestion batch)) w2))))"

definition handle_failure ::
  "pipeline_env \<Rightarrow> nat \<Rightarrow> run_start \<Rightarrow> py_exception \<Rightarrow> world \<Rightarrow> world \<times> (exn_name + unit)" where
  "handle_failure pe run_id st ex w =
     (let (d, output_id) = fail_run (pe_svc pe) run_id ex (w_db w);
          w1 = clear_if_posting pe st (w\<lparr>w_db := d\<rparr>)
      in case output_id of
           None \<Rightarrow> (w1, Inr ())
         | Some i \<Rightarrow>
             (case enqueue_slack_output (se_dq (pe_svc pe)) i (w_jobs w1) of
                Inl e \<Rightarrow> (w1, Inl e)
              | Inr (_, jobs) \<Rightarrow> (w1\<lparr>w_jobs := jobs\<rparr>, Inr ())))"

definition execute_run :: "pipeline_env \<Rightarrow> nat \<Rightarrow> world \<Rightarrow> world \<times> (exn_name + unit)" where
  "execute_run pe run_id w =
     (case begin_run (pe_svc pe) run_id (w_db w) of
        Inl e \<Rightarrow> (w, Inl e)
      | Inr (d, None) \<Rightarrow> (w\<lparr>w_db := d\<rparr>, Inr ())
      | Inr (d, Some st) \<Rightarrow>
          (let w1 = w\<lparr>w_db := d\<rparr>;
               w2 = (if posts_to_slack pe then set_status (sr_channel st) (sr_thread_ts st) thinking w1
                     else w1)
           in case attempt_run pe run_id st (pe_interfere pe 0 w2) of
                (w3, Inr u) \<Rightarrow> (w3, Inr u)
              | (w3, Inl ex) \<Rightarrow> handle_failure pe run_id st ex (pe_interfere pe 4 w3)))"

section \<open>Delivery\<close>

definition gateway_post :: "pipeline_env \<Rightarrow> slack_call \<Rightarrow> exn_name + string" where
  \<comment> \<open>\<open>SlackSdkGateway.post_message\<close>\<close>
  "gateway_post pe call =
     (case pe_post pe call of
        Inl e \<Rightarrow> Inl e
      | Inr response \<Rightarrow>
          (case jstr (jget ''ts'' response) of Some ts \<Rightarrow> Inr ts | None \<Rightarrow> Inl ''RuntimeError''))"

definition output_stale :: "db \<Rightarrow> output_row \<Rightarrow> bool" where
  "output_stale d out =
     (if so_kind out = Kind_feedback_flavor then False
      else case so_run_id out of
        None \<Rightarrow> False
      | Some r \<Rightarrow>
          (case get_run d r of
             None \<Rightarrow> False
           | Some run \<Rightarrow>
               (case trigger_of d run of
                  None \<Rightarrow> False
                | Some trigger \<Rightarrow> newer_inbound d (so_conversation_id out) (ms_event_at trigger))))"

definition cancel_output :: "svc_env \<Rightarrow> string \<Rightarrow> output_row \<Rightarrow> output_row" where
  "cancel_output env reason out =
     out\<lparr>so_status := Out_cancelled, so_last_error := Some reason, so_updated_at := se_now env\<rparr>"

definition claim_output :: "svc_env \<Rightarrow> nat \<Rightarrow> db \<Rightarrow> db \<times> output_row option" where
  \<comment> \<open>the first session: the row to post, or \<open>None\<close> when the handler returns\<close>
  "claim_output env output_id d =
     (case get_output d output_id of
        None \<Rightarrow> (d, None)
      | Some out \<Rightarrow>
          (if so_status out \<noteq> Out_pending then (d, None)
           else if cfg_global_mode (se_config env) = Mode_off \<or> output_stale d out
           then (upd_output output_id
                   (cancel_output env (if cfg_global_mode (se_config env) = Mode_off
                                       then ''disabled'' else ''superseded'')) d, None)
           else (upd_output output_id
                   (\<lambda>r. r\<lparr>so_attempts := so_attempts r + 1, so_updated_at := se_now env\<rparr>) d,
                 Some out)))"

definition output_call :: "output_row \<Rightarrow> slack_call" where
  "output_call out =
     Post_message (so_channel out) (so_thread_ts out) (so_body out) (show_nat (so_id out))"

definition fail_delivery :: "svc_env \<Rightarrow> nat \<Rightarrow> exn_name \<Rightarrow> db \<Rightarrow> db \<times> bool" where
  \<comment> \<open>the session after a failed post: whether it failed for good\<close>
  "fail_delivery env output_id e d =
     (case get_output d output_id of
        None \<Rightarrow> (d, False)
      | Some out \<Rightarrow>
          (let permanently = slack_delivery_max_attempts (se_config env) \<le> so_attempts out in
           (upd_output output_id
              (\<lambda>r. r\<lparr>so_last_error := Some e, so_updated_at := se_now env,
                     so_status := (if permanently then Out_failed else so_status r)\<rparr>) d,
            permanently)))"

definition outbound_row ::
  "svc_env \<Rightarrow> nat \<Rightarrow> output_row \<Rightarrow> string \<Rightarrow> message_row" where
  "outbound_row env i out message_ts =
     \<lparr>ms_id = i, ms_conversation_id = so_conversation_id out, ms_channel = so_channel out,
      ms_message_ts = message_ts, ms_thread_ts = so_thread_ts out, ms_sender = None,
      ms_direction = ''outbound'', ms_kind = output_kind_value (so_kind out),
      ms_text = Some (so_body out), ms_file_metadata = None, ms_raw = JNull,
      ms_event_at = se_now env, ms_created_at = se_now env\<rparr>"

definition insert_message :: "message_row \<Rightarrow> db \<Rightarrow> db" where
  \<comment> \<open>\<open>on_conflict_do_nothing\<close> on the identity in Slack\<close>
  "insert_message m d =
     (if (ms_channel m, ms_message_ts m) \<in> (\<lambda>m. (ms_channel m, ms_message_ts m)) ` set (db_messages d)
      then d else add_message m d)"

definition sent_output :: "svc_env \<Rightarrow> string \<Rightarrow> output_row \<Rightarrow> output_row" where
  "sent_output env message_ts out =
     out\<lparr>so_status := Out_sent, so_message_ts := Some message_ts, so_sent_at := Some (se_now env),
         so_last_error := None, so_updated_at := se_now env\<rparr>"

definition finish_delivery ::
  "svc_env \<Rightarrow> output_row \<Rightarrow> string \<Rightarrow> db \<Rightarrow> exn_name + db" where
  \<comment> \<open>the session after a post; the timestamp of an output is unique in the table\<close>
  "finish_delivery env posted message_ts d =
     (case get_output d (so_id posted) of
        None \<Rightarrow> Inr d
      | Some out \<Rightarrow>
          (if so_status out = Out_sent then Inr d
           else if \<exists>x \<in> set (db_outputs d). so_id x \<noteq> so_id posted \<and> so_message_ts x = Some message_ts
           then Inl ''IntegrityError''
           else
             (let d1 = upd_output (so_id posted) (sent_output env message_ts) d in
              Inr (insert_message (outbound_row env (db_next_id d1) posted message_ts) d1))))"

definition deliver_output :: "pipeline_env \<Rightarrow> nat \<Rightarrow> world \<Rightarrow> world \<times> (exn_name + unit)" where
  "deliver_output pe output_id w =
     (let env = pe_svc pe; (d, claimed) = claim_output env output_id (w_db w);
          w1 = w\<lparr>w_db := d\<rparr>
      in case claimed of
           None \<Rightarrow> (w1, Inr ())
         | Some out \<Rightarrow>
             (let w2 = pe_interfere pe 5 (w1\<lparr>w_slack := w_slack w1 @ [output_call out]\<rparr>) in
              case gateway_post pe (output_call out) of
                Inl e \<Rightarrow>
                  (let (d2, permanently) = fail_delivery env output_id e (w_db w2);
                       w3 = w2\<lparr>w_db := d2\<rparr>
                   in (if permanently then clear_status (so_channel out) (so_thread_ts out) w3 else w3,
                       Inr ()))
              | Inr message_ts \<Rightarrow>
                  (case finish_delivery env out message_ts (w_db w2) of
                     Inl e \<Rightarrow> (w2, Inl e)
                   | Inr d2 \<Rightarrow> (w2\<lparr>w_db := d2\<rparr>, Inr ()))))"

end
