(* ===== verification/Heartbeats.thy ===== *)
theory Heartbeats
  imports Config
begin

text \<open>
  Runtime presence and readiness (\<open>ops/runtime.py\<close>, \<open>ops/readiness.py\<close>, the two routes of
  \<open>main.py\<close>): the heartbeat table and the transaction that touches it, the life of a process as the
  touches it attempts, the health of the components read back from the table, and the readiness
  report built on it. Times are seconds as integers, as in the workflow database. What the database answers to the probes of the
  report, whether a touch fails and how long it takes are parameters; the log events are left out.
\<close>

section \<open>The heartbeat table\<close>

datatype runtime_component = Comp_slack | Comp_control_worker | Comp_agent_worker

fun component_name :: "runtime_component \<Rightarrow> string" where
  "component_name Comp_slack = ''slack''"
| "component_name Comp_control_worker = ''control-worker''"
| "component_name Comp_agent_worker = ''agent-worker''"

definition pilot_components :: "runtime_component list" where
  "pilot_components = [Comp_slack, Comp_control_worker, Comp_agent_worker]"

record heartbeat_row =
  hb_component :: string
  hb_instance :: string
  hb_status :: string
  hb_version :: string
  hb_started_at :: int
  hb_last_seen_at :: int
  hb_detail :: "string option"

record touch =
  \<comment> \<open>the arguments of one call and the clock it reads\<close>
  to_component :: string
  to_instance :: string
  to_status :: string
  to_detail :: "string option"
  to_now :: int

definition heartbeat_of :: "string \<Rightarrow> heartbeat_row list \<Rightarrow> heartbeat_row option" where
  "heartbeat_of name rows = List.find (\<lambda>r. hb_component r = name) rows"

definition replace_heartbeat ::
  "string \<Rightarrow> (heartbeat_row \<Rightarrow> heartbeat_row) \<Rightarrow> heartbeat_row list \<Rightarrow> heartbeat_row list" where
  "replace_heartbeat name f rows = map (\<lambda>r. if hb_component r = name then f r else r) rows"

definition touched_row :: "string \<Rightarrow> touch \<Rightarrow> heartbeat_row" where
  "touched_row version t =
     \<lparr>hb_component = to_component t, hb_instance = to_instance t, hb_status = to_status t,
      hb_version = version, hb_started_at = to_now t, hb_last_seen_at = to_now t, hb_detail = to_detail t\<rparr>"

definition upsert_heartbeat :: "string \<Rightarrow> touch \<Rightarrow> heartbeat_row list \<Rightarrow> nat \<times> heartbeat_row list" where
  \<comment> \<open>the insert with its conditional update: the number of rows it wrote and the table\<close>
  "upsert_heartbeat version t rows =
     (case heartbeat_of (to_component t) rows of
        None \<Rightarrow> (1, rows @ [touched_row version t])
      | Some old \<Rightarrow>
          (if hb_instance old \<noteq> to_instance t
           then (1, replace_heartbeat (to_component t) (\<lambda>_. touched_row version t) rows)
           else (0, rows)))"

definition touch_heartbeat :: "string \<Rightarrow> touch \<Rightarrow> heartbeat_row list \<Rightarrow> heartbeat_row list" where
  "touch_heartbeat version t rows =
     (case upsert_heartbeat version t rows of
        (n, rows1) \<Rightarrow>
          (if n = 0
           then replace_heartbeat (to_component t)
                  (\<lambda>r. if hb_instance r = to_instance t
                       then r\<lparr>hb_status := to_status t, hb_last_seen_at := to_now t, hb_detail := to_detail t\<rparr>
                       else r) rows1
           else rows1))"

section \<open>The life of a process\<close>

type_synonym attempt = "touch \<times> exn_name option"

definition attempt_touch :: "string \<Rightarrow> attempt \<Rightarrow> heartbeat_row list \<Rightarrow> heartbeat_row list" where
  \<comment> \<open>a touch that fails leaves the table as it was\<close>
  "attempt_touch version a rows = (case snd a of None \<Rightarrow> touch_heartbeat version (fst a) rows | Some _ \<Rightarrow> rows)"

definition run_attempts :: "string \<Rightarrow> attempt list \<Rightarrow> heartbeat_row list \<Rightarrow> heartbeat_row list" where
  "run_attempts version as rows = foldl (\<lambda>rs a. attempt_touch version a rs) rows as"

fun heartbeat_loop ::
  "app_config \<Rightarrow> runtime_component \<Rightarrow> string \<Rightarrow> int \<Rightarrow> (int \<times> exn_name option) list \<Rightarrow> attempt list" where
  \<comment> \<open>one turn per entry: how long the touch took and whether it failed; a failure is only logged\<close>
  "heartbeat_loop cfg c i now [] = []"
| "heartbeat_loop cfg c i now ((took, failure) # beats) =
     (\<lparr>to_component = component_name c, to_instance = i, to_status = ''running'', to_detail = None,
       to_now = now\<rparr>, failure)
     # heartbeat_loop cfg c i (now + took + runtime_heartbeat_seconds cfg) beats"

record process_life =
  pl_component :: runtime_component
  pl_instance :: string
  pl_started :: int
  pl_first :: "int \<times> exn_name option"
  pl_beats :: "(int \<times> exn_name option) list"
  pl_ended :: int
  pl_last :: "exn_name option"

definition life_touch :: "process_life \<Rightarrow> string \<Rightarrow> int \<Rightarrow> touch" where
  "life_touch p status now =
     \<lparr>to_component = component_name (pl_component p), to_instance = pl_instance p, to_status = status,
      to_detail = None, to_now = now\<rparr>"

definition maintain_heartbeat ::
  "app_config \<Rightarrow> process_life \<Rightarrow> exn_name + 'a \<Rightarrow> (exn_name + 'a) \<times> attempt list" where
  \<comment> \<open>the context manager around its body: a failing first touch keeps the body from running, a failing
    last one is suppressed\<close>
  "maintain_heartbeat cfg p body =
     (let first = (life_touch p ''running'' (pl_started p), snd (pl_first p)) in
      case snd (pl_first p) of
        Some e \<Rightarrow> (Inl e, [first])
      | None \<Rightarrow>
          (body, first # heartbeat_loop cfg (pl_component p) (pl_instance p)
                            (pl_started p + fst (pl_first p)) (pl_beats p)
                 @ [(life_touch p ''stopped'' (pl_ended p), pl_last p)]))"

section \<open>Health of the components\<close>

definition health_of :: "int \<Rightarrow> heartbeat_row option \<Rightarrow> string" where
  \<comment> \<open>one turn of the loop, for a given cutoff\<close>
  "health_of cutoff row =
     (case row of
        None \<Rightarrow> ''missing''
      | Some r \<Rightarrow>
          (if hb_status r \<noteq> ''running'' then ''stopped''
           else if hb_last_seen_at r < cutoff then ''stale'' else ''ok''))"

definition component_health ::
  "runtime_component list \<Rightarrow> int \<Rightarrow> int \<Rightarrow> heartbeat_row list \<Rightarrow> (string \<times> string) list" where
  "component_health components stale_seconds now rows =
     map (\<lambda>name. (name, health_of (now - stale_seconds) (heartbeat_of name rows)))
       (map component_name components)"

section \<open>Readiness\<close>

record readiness_database =
  \<comment> \<open>what the session and its three statements do, and the heartbeat query\<close>
  rd_open :: "exn_name + unit"
  rd_select :: "exn_name + unit"
  rd_version :: "exn_name + string option"
  rd_jobs :: "exn_name + string option"
  rd_heartbeats :: "exn_name + heartbeat_row list"

record foundation_checks =
  fc_database :: string
  fc_alembic :: string
  fc_jobs :: string
  fc_error_code :: "string option"

definition foundation_report :: "string \<Rightarrow> readiness_database \<Rightarrow> foundation_checks" where
  "foundation_report head rd =
     (let none = \<lparr>fc_database = ''unavailable'', fc_alembic = ''unavailable'', fc_jobs = ''unavailable'',
                  fc_error_code = None\<rparr>;
          failed = (\<lambda>checks e. checks\<lparr>fc_error_code := Some (''database_'' @ e)\<rparr>)
      in case rd_open rd of
           Inl e \<Rightarrow> failed none e
         | Inr _ \<Rightarrow>
         (case rd_select rd of
            Inl e \<Rightarrow> failed none e
          | Inr _ \<Rightarrow>
              (let c1 = none\<lparr>fc_database := ''ok''\<rparr> in
               case rd_version rd of
                 Inl e \<Rightarrow> failed c1 e
               | Inr version \<Rightarrow>
                   (let c2 = c1\<lparr>fc_alembic := (if version = Some head then ''ok'' else ''outdated'')\<rparr> in
                    case rd_jobs rd of
                      Inl e \<Rightarrow> failed c2 e
                    | Inr jobs \<Rightarrow> c2\<lparr>fc_jobs := (if jobs = None \<or> jobs = Some [] then ''missing'' else ''ok'')\<rparr>))))"

record pilot_checks =
  pc_configuration :: string
  pc_components :: "(string \<times> string) list"
  pc_component_error :: "string option"

definition pilot_report :: "app_config \<Rightarrow> int \<Rightarrow> readiness_database \<Rightarrow> pilot_checks" where
  "pilot_report cfg now rd =
     (let configuration = (if pilot_configuration_ready cfg then ''ok'' else ''incomplete'')
      in case rd_heartbeats rd of
           Inl e \<Rightarrow> \<lparr>pc_configuration = configuration, pc_components = [(''status'', ''unavailable'')],
                     pc_component_error = Some e\<rparr>
         | Inr rows \<Rightarrow> \<lparr>pc_configuration = configuration,
                     pc_components = component_health pilot_components (runtime_stale_seconds cfg) now rows,
                     pc_component_error = None\<rparr>)"

record readiness =
  ry_ready :: bool
  ry_foundation :: foundation_checks
  ry_pilot :: "pilot_checks option"

definition readiness_report :: "string \<Rightarrow> app_config \<Rightarrow> int \<Rightarrow> readiness_database \<Rightarrow> readiness" where
  "readiness_report head cfg now rd =
     (let foundation = foundation_report head rd;
          pilot = (if cfg_readiness_profile cfg = Pilot then Some (pilot_report cfg now rd) else None);
          foundation_ready = (fc_database foundation = ''ok'' \<and> fc_alembic foundation = ''ok''
                              \<and> fc_jobs foundation = ''ok'');
          pilot_ready = (case pilot of
             None \<Rightarrow> True
           | Some p \<Rightarrow> pc_configuration p = ''ok'' \<and> pc_components p \<noteq> []
                       \<and> list_all (\<lambda>v. snd v = ''ok'') (pc_components p))
      in \<lparr>ry_ready = (foundation_ready \<and> pilot_ready), ry_foundation = foundation, ry_pilot = pilot\<rparr>)"

definition health_route :: "string \<Rightarrow> app_config \<Rightarrow> (string \<times> string) list" where
  "health_route version cfg =
     [(''status'', ''ok''), (''service'', ''cerebro-agent''), (''version'', version),
      (''environment'', environment cfg)]"

definition ready_route :: "string \<Rightarrow> app_config \<Rightarrow> int \<Rightarrow> readiness_database \<Rightarrow> int \<times> readiness" where
  "ready_route head cfg now rd =
     (let report = readiness_report head cfg now rd in (if ry_ready report then 200 else 503, report))"

section \<open>The table is the last touch of every component\<close>

definition last_touch :: "string \<Rightarrow> touch list \<Rightarrow> touch option" where
  "last_touch name ts = List.find (\<lambda>t. to_component t = name) (rev ts)"

definition stored_touches :: "attempt list \<Rightarrow> touch list" where
  "stored_touches as = map fst (filter (\<lambda>a. snd a = None) as)"

definition mirrors :: "touch option \<Rightarrow> heartbeat_row option \<Rightarrow> bool" where
  \<comment> \<open>the abstraction: what the row of a component says of its last touch\<close>
  "mirrors t row \<longleftrightarrow>
     map_option (\<lambda>r. (hb_instance r, hb_status r, hb_last_seen_at r, hb_detail r)) row =
     map_option (\<lambda>u. (to_instance u, to_status u, to_now u, to_detail u)) t"

lemma heartbeat_of_append: "heartbeat_of name (rows @ [r]) =
    (case heartbeat_of name rows of
       Some old \<Rightarrow> Some old | None \<Rightarrow> if hb_component r = name then Some r else None)"
  by (induction rows) (auto simp: heartbeat_of_def)

lemma heartbeat_of_replace:
  assumes "\<And>r. hb_component r = name \<Longrightarrow> hb_component (f r) = name"
  shows "heartbeat_of other (replace_heartbeat name f rows) =
     (if other = name then map_option f (heartbeat_of name rows) else heartbeat_of other rows)"
  using assms by (induction rows) (auto simp: heartbeat_of_def replace_heartbeat_def)

lemma heartbeat_of_name: "heartbeat_of name rows = Some r \<Longrightarrow> hb_component r = name"
  by (auto simp: heartbeat_of_def find_Some_iff)

lemma touch_heartbeat_row:
  "heartbeat_of name (touch_heartbeat version t rows) =
     (if name = to_component t
      then Some (case heartbeat_of name rows of
             None \<Rightarrow> touched_row version t
           | Some old \<Rightarrow>
               (if hb_instance old \<noteq> to_instance t then touched_row version t
                else old\<lparr>hb_status := to_status t, hb_last_seen_at := to_now t, hb_detail := to_detail t\<rparr>))
      else heartbeat_of name rows)"
proof -
  have replaced: "heartbeat_of name (replace_heartbeat (to_component t) (\<lambda>_. touched_row version t) rows) =
      (if name = to_component t then map_option (\<lambda>_. touched_row version t) (heartbeat_of (to_component t) rows)
       else heartbeat_of name rows)"
    by (rule heartbeat_of_replace) (simp add: touched_row_def)
  have updated: "heartbeat_of name (replace_heartbeat (to_component t)
        (\<lambda>r. if hb_instance r = to_instance t
             then r\<lparr>hb_status := to_status t, hb_last_seen_at := to_now t, hb_detail := to_detail t\<rparr> else r) rows) =
      (if name = to_component t
       then map_option (\<lambda>r. if hb_instance r = to_instance t
             then r\<lparr>hb_status := to_status t, hb_last_seen_at := to_now t, hb_detail := to_detail t\<rparr> else r)
            (heartbeat_of (to_component t) rows)
       else heartbeat_of name rows)"
    by (rule heartbeat_of_replace) simp
  show ?thesis
    using replaced updated
    by (auto simp: touch_heartbeat_def upsert_heartbeat_def heartbeat_of_append touched_row_def
        split: option.splits)
qed

lemma touch_mirrors:
  "mirrors u (heartbeat_of name rows) \<Longrightarrow>
   mirrors (if to_component t = name then Some t else u) (heartbeat_of name (touch_heartbeat version t rows))"
  by (auto simp: mirrors_def touch_heartbeat_row touched_row_def split: option.splits)

lemma run_attempts_snoc: "run_attempts version (as @ [a]) rows = attempt_touch version a (run_attempts version as rows)"
  by (simp add: run_attempts_def)

lemma run_attempts_mirrors: "mirrors (last_touch name (stored_touches as)) (heartbeat_of name (run_attempts version as []))"
proof (induction as rule: rev_induct)
  case Nil
  show ?case by (simp add: mirrors_def last_touch_def stored_touches_def run_attempts_def heartbeat_of_def)
next
  case (snoc a as)
  show ?case
  proof (cases "snd a")
    case None
    then show ?thesis
      using touch_mirrors [OF snoc, of "fst a" version]
      by (simp add: run_attempts_snoc attempt_touch_def stored_touches_def last_touch_def split: if_splits)
  next
    case (Some e)
    with snoc show ?thesis by (simp add: run_attempts_snoc attempt_touch_def stored_touches_def)
  qed
qed

definition alive :: "int \<Rightarrow> int \<Rightarrow> attempt list \<Rightarrow> string \<Rightarrow> bool" where
  \<comment> \<open>the last stored touch of a component says it runs and is not too old\<close>
  "alive stale_seconds now as name \<longleftrightarrow>
     (\<exists>t. last_touch name (stored_touches as) = Some t \<and> to_status t = ''running''
        \<and> now - stale_seconds \<le> to_now t)"

lemma health_ok_iff:
  "health_of (now - stale) (heartbeat_of name (run_attempts version as [])) = ''ok'' \<longleftrightarrow> alive stale now as name"
  using run_attempts_mirrors [of name as version]
  by (cases "last_touch name (stored_touches as)"; cases "heartbeat_of name (run_attempts version as [])")
    (auto simp: health_of_def alive_def mirrors_def)

section \<open>A component that beats\<close>

definition next_touch :: "app_config \<Rightarrow> int \<Rightarrow> (int \<times> exn_name option) list \<Rightarrow> int" where
  \<comment> \<open>when the loop touches again after the given turns\<close>
  "next_touch cfg now beats = now + sum_list (map (\<lambda>b. fst b + runtime_heartbeat_seconds cfg) beats)"

lemma next_touch_simps [simp]:
  "next_touch cfg now [] = now"
  "next_touch cfg now (b # beats) = next_touch cfg (now + fst b + runtime_heartbeat_seconds cfg) beats"
  by (simp_all add: next_touch_def)

lemma heartbeat_loop_snoc:
  "heartbeat_loop cfg c i now (beats @ [b]) =
     heartbeat_loop cfg c i now beats @
     [(\<lparr>to_component = component_name c, to_instance = i, to_status = ''running'', to_detail = None,
        to_now = next_touch cfg now beats\<rparr>, snd b)]"
  by (induction beats arbitrary: now) (cases b, auto)

lemma next_touch_snoc:
  "next_touch cfg now (beats @ [b]) = next_touch cfg now beats + fst b + runtime_heartbeat_seconds cfg"
  by (simp add: next_touch_def)

definition elsewhere :: "string \<Rightarrow> attempt list \<Rightarrow> bool" where
  "elsewhere name as \<longleftrightarrow> list_all (\<lambda>a. to_component (fst a) \<noteq> name) as"

lemma last_touch_elsewhere:
  "elsewhere name later \<Longrightarrow> last_touch name (stored_touches (as @ later)) = last_touch name (stored_touches as)"
proof (induction later rule: rev_induct)
  case (snoc a later)
  then show ?case
    by (cases "snd a = None") (simp_all add: elsewhere_def stored_touches_def last_touch_def flip: append_assoc)
qed simp

lemma last_touch_snoc:
  "last_touch name (stored_touches (as @ [(t, None)])) =
     (if to_component t = name then Some t else last_touch name (stored_touches as))"
  by (simp add: stored_touches_def last_touch_def)

theorem beats_keep_alive_iff:
  fixes cfg c before others i now beats took
  defines "as \<equiv> before @ heartbeat_loop cfg c i now (beats @ [(took, None)]) @ others"
  assumes "config_valid cfg" "0 \<le> took" "elsewhere (component_name c) others"
  shows "(\<forall>t. next_touch cfg now beats \<le> t \<and> t \<le> next_touch cfg now (beats @ [(took, None)]) \<longrightarrow>
            alive (runtime_stale_seconds cfg) t as (component_name c))
     \<longleftrightarrow> took + runtime_heartbeat_seconds cfg \<le> runtime_stale_seconds cfg"
proof -
  have "last_touch (component_name c) (stored_touches as) =
      Some \<lparr>to_component = component_name c, to_instance = i, to_status = ''running'', to_detail = None,
            to_now = next_touch cfg now beats\<rparr>"
    using last_touch_elsewhere [OF assms(4), of "before @ heartbeat_loop cfg c i now (beats @ [(took, None)])"]
    by (simp add: as_def heartbeat_loop_snoc last_touch_snoc flip: append_assoc)
  then have alive: "alive (runtime_stale_seconds cfg) t as (component_name c) \<longleftrightarrow>
      t - runtime_stale_seconds cfg \<le> next_touch cfg now beats" for t
    by (simp add: alive_def)
  have "0 \<le> took + runtime_heartbeat_seconds cfg"
    using assms(2,3) by (simp add: config_valid_def within_def)
  then show ?thesis
    by (auto simp: alive next_touch_snoc algebra_simps dest: spec [of _ "next_touch cfg now (beats @ [(took, None)])"])
qed

section \<open>What ready means\<close>

lemma every_component: "(\<forall>c. P (component_name c)) \<longleftrightarrow> list_all P (map component_name pilot_components)"
proof -
  have "c \<in> set pilot_components" for c by (cases c) (simp_all add: pilot_components_def)
  then show ?thesis by (auto simp: list_all_iff)
qed

lemma foundation_ready_iff:
  "fc_database (foundation_report head rd) = ''ok'' \<and> fc_alembic (foundation_report head rd) = ''ok''
   \<and> fc_jobs (foundation_report head rd) = ''ok'' \<longleftrightarrow>
     rd_open rd = Inr () \<and> rd_select rd = Inr () \<and> rd_version rd = Inr (Some head)
     \<and> (\<exists>jobs. rd_jobs rd = Inr (Some jobs) \<and> jobs \<noteq> [])"
  by (auto simp: foundation_report_def Let_def split: sum.splits)

definition foundation_holds :: "string \<Rightarrow> readiness_database \<Rightarrow> bool" where
  "foundation_holds head rd \<longleftrightarrow> rd_open rd = Inr () \<and> rd_select rd = Inr () \<and> rd_version rd = Inr (Some head)
     \<and> (\<exists>jobs. rd_jobs rd = Inr (Some jobs) \<and> jobs \<noteq> [])"

lemma ready_iff:
  "ry_ready (readiness_report head cfg now (rd\<lparr>rd_heartbeats := Inr (run_attempts version as [])\<rparr>)) \<longleftrightarrow>
     foundation_holds head rd
     \<and> (cfg_readiness_profile cfg = Pilot \<longrightarrow> pilot_configuration_ready cfg
         \<and> (\<forall>c. alive (runtime_stale_seconds cfg) now as (component_name c)))"
proof -
  let ?rd = "rd\<lparr>rd_heartbeats := Inr (run_attempts version as [])\<rparr>"
  have components: "list_all (\<lambda>v. snd v = ''ok'') (component_health pilot_components (runtime_stale_seconds cfg) now
        (run_attempts version as [])) \<longleftrightarrow> (\<forall>c. alive (runtime_stale_seconds cfg) now as (component_name c))"
    by (simp add: component_health_def every_component list_all_iff health_ok_iff)
  have some: "component_health pilot_components stale now rows \<noteq> []" for stale rows
    by (simp add: component_health_def pilot_components_def)
  have "ry_ready (readiness_report head cfg now ?rd) \<longleftrightarrow>
      (fc_database (foundation_report head ?rd) = ''ok'' \<and> fc_alembic (foundation_report head ?rd) = ''ok''
        \<and> fc_jobs (foundation_report head ?rd) = ''ok'')
      \<and> (cfg_readiness_profile cfg = Pilot \<longrightarrow> pilot_configuration_ready cfg
         \<and> list_all (\<lambda>v. snd v = ''ok'') (component_health pilot_components (runtime_stale_seconds cfg) now
              (run_attempts version as [])))"
    by (auto simp: readiness_report_def Let_def pilot_report_def some)
  then show ?thesis
    unfolding foundation_ready_iff components by (simp add: foundation_holds_def)
qed

text \<open>C0: What a ready answer means. Over a heartbeat table that any interleaving of the processes' touches
  has left, stored or failed, \<open>/ready\<close> answers 200 exactly when the database answers all three probes
  with the head of the migrations and an existing job table and, in the pilot profile, the
  configuration is complete, tracing stays inside, and the last stored touch of each of the three
  components says that it runs and is no older than the stale limit. It answers 503 otherwise.\<close>

theorem ready_means_alive:
  "fst (ready_route head cfg now (rd\<lparr>rd_heartbeats := Inr (run_attempts version as [])\<rparr>)) =
     (if foundation_holds head rd
         \<and> (cfg_readiness_profile cfg = Pilot \<longrightarrow> pilot_configuration_ready cfg
             \<and> (\<forall>c. alive (runtime_stale_seconds cfg) now as (component_name c)))
      then 200 else 503)"
  by (simp add: ready_route_def Let_def ready_iff)

section \<open>A replaced instance\<close>

definition stored :: "runtime_component \<Rightarrow> string \<Rightarrow> string \<Rightarrow> int \<Rightarrow> attempt" where
  "stored c i status t =
     (\<lparr>to_component = component_name c, to_instance = i, to_status = status, to_detail = None, to_now = t\<rparr>, None)"

definition replacement :: "runtime_component \<Rightarrow> string \<Rightarrow> string \<Rightarrow> int \<Rightarrow> int \<Rightarrow> int \<Rightarrow> attempt list" where
  "replacement c old new t0 t1 t2 =
     [stored c old ''running'' t0, stored c new ''running'' t1, stored c old ''stopped'' t2]"

lemma run_attempts_append:
  "run_attempts version (as @ later) rows = run_attempts version later (run_attempts version as rows)"
  by (simp add: run_attempts_def)

lemma stored_row:
  "heartbeat_of (component_name c) (attempt_touch version (stored c i status t) rows) =
     Some (case heartbeat_of (component_name c) rows of
             Some old \<Rightarrow> if hb_instance old = i
                         then old\<lparr>hb_status := status, hb_last_seen_at := t, hb_detail := None\<rparr>
                         else touched_row version (fst (stored c i status t))
           | None \<Rightarrow> touched_row version (fst (stored c i status t)))"
  by (simp add: attempt_touch_def stored_def touch_heartbeat_row split: option.splits)

lemma touched_stored:
  "touched_row version (fst (stored c i status t)) =
     \<lparr>hb_component = component_name c, hb_instance = i, hb_status = status, hb_version = version,
      hb_started_at = t, hb_last_seen_at = t, hb_detail = None\<rparr>"
  by (simp add: touched_row_def stored_def)

lemma replacement_row:
  assumes "old \<noteq> new"
  shows "\<exists>r. heartbeat_of (component_name c) (run_attempts version (before @ replacement c old new t0 t1 t2) []) = Some r
    \<and> hb_status r = ''stopped'' \<and> hb_instance r = old"
  using assms
  by (auto simp: run_attempts_append replacement_def run_attempts_def stored_row touched_stored
      split: option.splits)

text \<open>An instance that stops after its replacement has started takes the component down with it. Touched
  as running by the old and by the new instance and then as stopped by the old one, the component is
  reported stopped and a pilot deployment is not ready, although the new instance runs; its next beat
  repairs the report, but the row then says that the new instance has only started with that beat.\<close>

theorem late_stop_hides_replacement:
  assumes "old \<noteq> new"
  shows "component_health [c] stale now (run_attempts version (before @ replacement c old new t0 t1 t2) []) =
           [(component_name c, ''stopped'')]
    \<and> (\<exists>r. heartbeat_of (component_name c)
              (run_attempts version (before @ replacement c old new t0 t1 t2 @ [stored c new ''running'' t3]) []) = Some r
          \<and> hb_instance r = new \<and> hb_status r = ''running'' \<and> hb_started_at r = t3)"
proof -
  obtain r where r: "heartbeat_of (component_name c)
      (run_attempts version (before @ replacement c old new t0 t1 t2) []) = Some r"
    "hb_status r = ''stopped''" "hb_instance r = old"
    using replacement_row [OF assms] by blast
  have "heartbeat_of (component_name c)
      (run_attempts version (before @ replacement c old new t0 t1 t2 @ [stored c new ''running'' t3]) []) =
      Some (touched_row version (fst (stored c new ''running'' t3)))"
    using r assms run_attempts_snoc [of version "before @ replacement c old new t0 t1 t2" "stored c new ''running'' t3"]
    by (simp add: stored_row)
  with r show ?thesis
    by (simp add: component_health_def health_of_def touched_stored)
qed

text \<open>The settings do not tie the two limits together: a component that beats every sixty seconds is
  reported stale for three quarters of them when the stale limit is fifteen.\<close>

lemma valid_settings_can_flap:
  "config_valid (default_config\<lparr>runtime_heartbeat_seconds := 60, runtime_stale_seconds := 15\<rparr>)"
  by (simp add: config_valid_def default_config_def within_def)

section \<open>Witnesses\<close>

lemma beats_keep_alive_witness:
  "\<forall>t. next_touch default_config 0 [] \<le> t \<and> t \<le> next_touch default_config 0 [(10, None)] \<longrightarrow>
     alive (runtime_stale_seconds default_config) t (heartbeat_loop default_config Comp_slack ''a'' 0 [(10, None)]) ''slack''"
  using beats_keep_alive_iff [where cfg = default_config and took = 10 and c = Comp_slack and others = "[]"
      and before = "[]" and i = "''a''" and now = 0 and beats = "[]"] default_config_valid
  by (simp add: elsewhere_def default_config_def)

definition ready_database :: readiness_database where
  "ready_database = \<lparr>rd_open = Inr (), rd_select = Inr (), rd_version = Inr (Some ''20260907_0006''),
     rd_jobs = Inr (Some ''procrastinate_jobs''), rd_heartbeats = Inr []\<rparr>"

lemma ready_means_alive_witness:
  "fst (ready_route ''20260907_0006'' default_config 100
      (ready_database\<lparr>rd_heartbeats := Inr (run_attempts ''1'' [stored Comp_slack ''a'' ''running'' 1] [])\<rparr>)) = 200"
  using ready_means_alive [of "''20260907_0006''" default_config 100 "''1''" "[stored Comp_slack ''a'' ''running'' 1]" ready_database]
  by (simp add: foundation_holds_def ready_database_def default_config_def)

lemma late_stop_hides_replacement_witness:
  "component_health [Comp_agent_worker] 45 10
     (run_attempts ''1'' (replacement Comp_agent_worker ''old'' ''new'' 1 2 3) []) = [(''agent-worker'', ''stopped'')]"
  using late_stop_hides_replacement [of "''old''" "''new''" Comp_agent_worker 45 10 "''1''" "[]" 1 2 3 4] by simp

end
