(* ===== verification/Tasks.thy ===== *)
theory Tasks
  imports Pipeline Heartbeats
begin

text \<open>
  The worker's tasks (\<open>jobs/tasks.py\<close>): the periodic recovery of work whose job was lost, the
  closing of runs whose worker died, and the watchdog's counts. The queue's list of stalled jobs
  and the table of heartbeats are arguments; finishing a job in the queue is the list of job ids
  finished.
\<close>

section \<open>Interrupted jobs\<close>

record stalled_job =
  sj_id :: "nat option"
  sj_task_name :: string
  sj_run_id :: nat  \<comment> \<open>\<open>task_kwargs["run_id"]\<close> of a run job\<close>

definition interrupted_body :: string where
  "interrupted_body = ''La respuesta se interrumpi'' @ [CHR 0xF3] @ ''. ''
     @ ''Puedes pedirme que lo intente de nuevo.''"

definition interrupt_run :: "svc_env \<Rightarrow> nat \<Rightarrow> db \<Rightarrow> db" where
  "interrupt_run env run_id d =
     (case get_run d run_id of
        None \<Rightarrow> d
      | Some run \<Rightarrow>
          (if rn_status run \<noteq> Run_running then d
           else
             (let d1 = upd_run run_id
                    (failed_run env ''worker_interrupted'' ''worker_heartbeat_expired'') d
              in case get_conversation d1 (rn_conversation_id run) of
                   None \<Rightarrow> d1
                 | Some conversation \<Rightarrow>
                     (let d2 = set_conversation_state (cv_id conversation) Conv_failed d1 in
                      if cfg_global_mode (se_config env) = Mode_enabled
                      then fst (insert_output (run_output env (db_next_id d2) conversation run_id
                                  interrupted_body Kind_error) d2)
                      else d2))))"

definition task_prefix :: string where
  "task_prefix = ''cerebro.jobs.tasks.''"

definition recover_job :: "svc_env \<Rightarrow> stalled_job \<Rightarrow> db \<Rightarrow> db \<times> nat list" where
  "recover_job env j d =
     (case sj_id j of
        None \<Rightarrow> (d, [])
      | Some i \<Rightarrow>
          (if \<not> starts_with task_prefix (sj_task_name j) then (d, [])
           else if sj_task_name j = ''cerebro.jobs.tasks.execute_agent_run''
           then (interrupt_run env (sj_run_id j) d, [i])
           else (d, [i])))"

fun recover_interrupted_jobs :: "svc_env \<Rightarrow> stalled_job list \<Rightarrow> db \<Rightarrow> db \<times> nat list" where
  "recover_interrupted_jobs env [] d = (d, [])"
| "recover_interrupted_jobs env (j # js) d =
     (let (d1, done1) = recover_job env j d; (d2, done2) = recover_interrupted_jobs env js d1
      in (d2, done1 @ done2))"

section \<open>Pending work\<close>

fun enqueue_all :: "dq_fn \<Rightarrow> job list \<Rightarrow> job list \<Rightarrow> job list \<times> (exn_name + unit)" where
  \<comment> \<open>one enqueue after the other; an exception ends the task\<close>
  "enqueue_all dq [] jobs = (jobs, Inr ())"
| "enqueue_all dq (j # js) jobs =
     (case enqueue dq j jobs of
        Inl e \<Rightarrow> (jobs, Inl e)
      | Inr (_, jobs1) \<Rightarrow> enqueue_all dq js jobs1)"

definition pending_jobs :: "db \<Rightarrow> job list" where
  "pending_jobs d =
     map (\<lambda>e. slack_event_job (ev_id e))
       (filter (\<lambda>e. ev_disposition e \<in> {Ev_received, Ev_queued}) (db_events d))
     @ map (\<lambda>r. agent_run_job (rn_id r) (rn_conversation_id r))
         (filter (\<lambda>r. rn_status r = Run_queued) (db_runs d))
     @ map (\<lambda>r. slack_output_job (so_id r))
         (filter (\<lambda>r. so_status r = Out_pending) (db_outputs d))"

definition recover_pending_work ::
  "svc_env \<Rightarrow> stalled_job list \<Rightarrow> world \<Rightarrow> world \<times> nat list \<times> (exn_name + unit)" where
  "recover_pending_work env stalled w =
     (let (d, finished) = recover_interrupted_jobs env stalled (w_db w);
          (jobs, r) = enqueue_all (se_dq env) (pending_jobs d) (w_jobs w)
      in (w\<lparr>w_db := d, w_jobs := jobs\<rparr>, finished, r))"

section \<open>The watchdog\<close>

record watchdog_counts =
  wd_stale_events :: nat
  wd_stale_queued_runs :: nat
  wd_stale_outputs :: nat
  wd_failed_count :: nat
  wd_stale_components :: nat
  wd_stale_running_runs :: nat

definition count_where :: "('a \<Rightarrow> bool) \<Rightarrow> 'a list \<Rightarrow> nat" where
  "count_where p xs = length (filter p xs)"

definition before :: "int option \<Rightarrow> int \<Rightarrow> bool" where
  \<comment> \<open>SQL's \<open><\<close>: a null column satisfies no comparison\<close>
  "before t limit = (case t of None \<Rightarrow> False | Some x \<Rightarrow> x < limit)"

definition not_before :: "int option \<Rightarrow> int \<Rightarrow> bool" where
  "not_before t limit = (case t of None \<Rightarrow> False | Some x \<Rightarrow> limit \<le> x)"

definition operational_watchdog :: "int \<Rightarrow> heartbeat_row list \<Rightarrow> db \<Rightarrow> watchdog_counts" where
  "operational_watchdog now heartbeats d =
     \<lparr>wd_stale_events = count_where (\<lambda>e. ev_disposition e \<in> {Ev_received, Ev_queued} \<and>
          ev_received_at e < now - 120) (db_events d),
      wd_stale_queued_runs = count_where (\<lambda>r. rn_status r = Run_queued \<and>
          rn_created_at r < now - 300) (db_runs d),
      wd_stale_outputs = count_where (\<lambda>r. so_status r = Out_pending \<and>
          so_created_at r < now - 120) (db_outputs d),
      wd_failed_count =
          count_where (\<lambda>r. rn_status r = Run_failed \<and> not_before (rn_finished_at r) (now - 300)) (db_runs d)
        + count_where (\<lambda>e. ev_disposition e = Ev_failed \<and> now - 300 \<le> ev_received_at e) (db_events d)
        + count_where (\<lambda>r. so_status r = Out_failed \<and> now - 300 \<le> so_updated_at r) (db_outputs d),
      wd_stale_components = count_where (\<lambda>h. hb_status h \<noteq> ''running'' \<or>
          hb_last_seen_at h < now - 45) heartbeats,
      wd_stale_running_runs = count_where (\<lambda>r. rn_status r = Run_running \<and>
          before (rn_started_at r) (now - 240)) (db_runs d)\<rparr>"

definition watchdog_warns :: "watchdog_counts \<Rightarrow> bool" where
  \<comment> \<open>\<open>any(values.values())\<close>: the level of the log event\<close>
  "watchdog_warns c \<longleftrightarrow>
     wd_stale_events c \<noteq> 0 \<or> wd_stale_queued_runs c \<noteq> 0 \<or> wd_stale_outputs c \<noteq> 0 \<or>
     wd_failed_count c \<noteq> 0 \<or> wd_stale_components c \<noteq> 0"

end
