(* ===== verification/Lifecycle.thy ===== *)
theory Lifecycle
  imports Tasks
begin

text \<open>
  The life of runs and outputs under concurrency. Every database transaction of ingestion, of the
  pipeline and of the recovery is one rule of the step relation \<open>job_step\<close>; a schedule is any
  sequence of such steps, whatever handler, worker, setting or clock each belongs to. The argument
  of \<open>job_step\<close> says with which results and exceptions runs end; \<open>db_step\<close> allows all.

  \<open>evolves\<close> is what a transaction promises: it keeps the database well formed, never changes the
  identity of a run or an output, moves the status of a run only forward and never touches the
  result of a finished run. The locale \<open>transaction\<close> derives from it what holds along every
  schedule; it is interpreted on \<open>db_step\<close>.
\<close>

section \<open>What may change\<close>

definition terminal :: "run_status \<Rightarrow> bool" where
  "terminal s \<longleftrightarrow> s \<in> {Run_succeeded, Run_failed, Run_cancelled}"

text \<open>The statuses are ordered by how far a run has come; the terminal ones are the maximal ones.\<close>

instantiation run_status :: order
begin

definition less_eq_run_status :: "run_status \<Rightarrow> run_status \<Rightarrow> bool" where
  "s \<le> t \<longleftrightarrow> s = t \<or> s = Run_queued \<or> (s = Run_running \<and> t \<noteq> Run_queued)"

definition less_run_status :: "run_status \<Rightarrow> run_status \<Rightarrow> bool" where
  "s < t \<longleftrightarrow> s \<le> t \<and> s \<noteq> (t :: run_status)"

instance
  by standard (auto simp: less_eq_run_status_def less_run_status_def)

end

definition run_move :: "run_row \<Rightarrow> run_row \<Rightarrow> bool" where
  "run_move r r' \<longleftrightarrow>
     rn_id r' = rn_id r \<and> rn_conversation_id r' = rn_conversation_id r \<and>
     rn_trigger_message_id r' = rn_trigger_message_id r \<and> rn_created_at r' = rn_created_at r \<and>
     rn_status r \<le> rn_status r' \<and>
     (terminal (rn_status r) \<longrightarrow>
        rn_request_kind r' = rn_request_kind r \<and> rn_structured_result r' = rn_structured_result r \<and>
        rn_output_message r' = rn_output_message r \<and> rn_error_code r' = rn_error_code r \<and>
        rn_finished_at r' = rn_finished_at r)"

definition output_move :: "output_row \<Rightarrow> output_row \<Rightarrow> bool" where
  "output_move r r' \<longleftrightarrow>
     so_id r' = so_id r \<and> so_conversation_id r' = so_conversation_id r \<and> so_run_id r' = so_run_id r \<and>
     so_channel r' = so_channel r \<and> so_thread_ts r' = so_thread_ts r \<and>
     so_idempotency_key r' = so_idempotency_key r \<and> so_body r' = so_body r \<and> so_kind r' = so_kind r"

lemma run_move_refl [simp]: "run_move r r"
  by (simp add: run_move_def less_eq_run_status_def)

lemma terminal_maximal: "terminal s \<longleftrightarrow> (\<forall>t \<ge> s. t = s)"
  by (cases s) (auto simp: terminal_def less_eq_run_status_def)

lemma terminal_final: "terminal s \<Longrightarrow> s \<le> t \<Longrightarrow> t = s"
  by (simp add: terminal_maximal)

lemma run_move_trans:
  assumes "run_move a b" and "run_move b c"
  shows "run_move a c"
proof -
  have "rn_status a \<le> rn_status c"
    using assms order_trans unfolding run_move_def by blast
  moreover have "terminal (rn_status b)" if "terminal (rn_status a)"
    using assms(1) that terminal_final unfolding run_move_def by metis
  ultimately show ?thesis
    using assms unfolding run_move_def by auto
qed

lemma output_move_refl [simp]: "output_move r r"
  by (simp add: output_move_def)

lemma output_move_trans: "output_move a b \<Longrightarrow> output_move b c \<Longrightarrow> output_move a c"
  by (simp add: output_move_def)

definition runs_move :: "db \<Rightarrow> db \<Rightarrow> bool" where
  "runs_move d d' \<longleftrightarrow> (\<forall>i r. get_run d i = Some r \<longrightarrow> (\<exists>r'. get_run d' i = Some r' \<and> run_move r r'))"

definition outputs_move :: "db \<Rightarrow> db \<Rightarrow> bool" where
  "outputs_move d d' \<longleftrightarrow>
     (\<forall>i r. get_output d i = Some r \<longrightarrow> (\<exists>r'. get_output d' i = Some r' \<and> output_move r r'))"

section \<open>Answers belong to finished runs\<close>

definition answer_matches :: "run_row \<Rightarrow> output_row \<Rightarrow> bool" where
  \<comment> \<open>an output that is not feedback flavor states the outcome its run finished with\<close>
  "answer_matches run out \<longleftrightarrow>
     so_idempotency_key out = run_output_key (rn_id run) (so_kind out) \<and>
     (case so_kind out of
        Kind_investigation \<Rightarrow>
          rn_status run = Run_succeeded \<and> rn_request_kind run = Req_payment_identification
      | Kind_general_reply \<Rightarrow> rn_status run = Run_succeeded \<and> rn_request_kind run = Req_general
      | Kind_error \<Rightarrow> rn_status run = Run_failed
      | Kind_feedback_flavor \<Rightarrow> False)"

definition answer_ok :: "db \<Rightarrow> output_row \<Rightarrow> bool" where
  "answer_ok d out \<longleftrightarrow>
     so_kind out = Kind_feedback_flavor \<or>
     (\<exists>i run. so_run_id out = Some i \<and> get_run d i = Some run \<and> answer_matches run out)"

definition consistent :: "db \<Rightarrow> bool" where
  "consistent d \<longleftrightarrow> invariant d \<and> (\<forall>out \<in> set (db_outputs d). answer_ok d out)"

lemma consistent_empty: "consistent empty_db"
  by (simp add: consistent_def invariant_empty) (simp add: empty_db_def)

lemma answer_matches_stable: "run_move r r' \<Longrightarrow> answer_matches r out \<Longrightarrow> answer_matches r' out"
  by (auto simp: answer_matches_def run_move_def less_eq_run_status_def terminal_def split: output_kind.splits)

lemma answer_ok_stable:
  assumes "runs_move d d'" and "answer_ok d out" and "output_move out out'"
  shows "answer_ok d' out'"
proof (cases "so_kind out = Kind_feedback_flavor")
  case True
  with assms(3) show ?thesis by (simp add: answer_ok_def output_move_def)
next
  case False
  with assms(2) obtain i run where run: "so_run_id out = Some i" "get_run d i = Some run"
      "answer_matches run out"
    by (auto simp: answer_ok_def)
  with assms(1) obtain run' where "get_run d' i = Some run'" "run_move run run'"
    unfolding runs_move_def by blast
  moreover from this(2) run(3) have "answer_matches run' out" by (rule answer_matches_stable)
  then have "answer_matches run' out'"
    using assms(3) by (simp add: answer_matches_def output_move_def)
  ultimately show ?thesis
    using run(1) assms(3) by (auto simp: answer_ok_def output_move_def)
qed

section \<open>The promise of a transaction\<close>

definition evolves :: "db \<Rightarrow> db \<Rightarrow> bool" where
  "evolves d d' \<longleftrightarrow> (consistent d \<longrightarrow> consistent d') \<and> runs_move d d' \<and> outputs_move d d'"

lemma evolves_refl [simp]: "evolves d d"
  by (auto simp: evolves_def runs_move_def outputs_move_def)

lemma evolves_trans:
  assumes "evolves a b" and "evolves b c"
  shows "evolves a c"
  using assms unfolding evolves_def runs_move_def outputs_move_def
  by (meson output_move_trans run_move_trans)

lemma evolves_same:
  \<comment> \<open>a change outside the two tables\<close>
  assumes "invariant d \<Longrightarrow> invariant d'" and "db_runs d' = db_runs d" and "db_outputs d' = db_outputs d"
  shows "evolves d d'"
proof -
  have "get_run d' i = get_run d i" "get_output d' i = get_output d i" for i
    using assms(2,3) by (simp_all add: get_run_def get_output_def)
  then show ?thesis
    using assms by (simp add: evolves_def runs_move_def outputs_move_def consistent_def answer_ok_def)
qed

lemma evolves_extend:
  \<comment> \<open>new rows only; the new outputs carry no answer\<close>
  assumes "invariant d \<Longrightarrow> invariant d'" and "db_runs d' = db_runs d @ rs"
    and "db_outputs d' = db_outputs d @ os" and "\<forall>out \<in> set os. so_kind out = Kind_feedback_flavor"
  shows "evolves d d'"
proof -
  have runs: "runs_move d d'"
    using assms(2) by (simp add: runs_move_def get_run_def row_get_append)
  have outs: "outputs_move d d'"
    using assms(3) by (simp add: outputs_move_def get_output_def row_get_append)
  have "answer_ok d' out" if "consistent d" "out \<in> set (db_outputs d')" for out
  proof (cases "out \<in> set os")
    case True
    with assms(4) show ?thesis by (simp add: answer_ok_def)
  next
    case False
    with that assms(3) have "answer_ok d out" by (auto simp: consistent_def)
    with runs show ?thesis by (rule answer_ok_stable) simp
  qed
  then show ?thesis
    using assms(1) runs outs by (simp add: evolves_def consistent_def)
qed

lemma evolves_upd_run:
  assumes "get_run d i = Some r" and "run_move r (f r)"
    and "\<And>x. rn_id (f x) = rn_id x" and "\<And>x. rn_conversation_id (f x) = rn_conversation_id x"
    and "\<And>x. rn_trigger_message_id (f x) = rn_trigger_message_id x"
  shows "evolves d (upd_run i f d)"
proof -
  have moved: "runs_move d (upd_run i f d)"
    using assms by (simp add: runs_move_def runs.get_upd)
  have same: "db_outputs (upd_run i f d) = db_outputs d"
    by (simp add: upd_run_def)
  have "consistent (upd_run i f d)" if "consistent d"
    using that assms(3-5) same answer_ok_stable [OF moved _ output_move_refl]
    by (simp add: consistent_def invariant_upd_run Ball_def)
  with moved same show ?thesis
    by (simp add: evolves_def outputs_move_def get_output_def)
qed

lemma evolves_upd_output:
  assumes "\<And>x. output_move x (f x)"
  shows "evolves d (upd_output i f d)"
proof -
  have keys: "so_id (f x) = so_id x" "so_idempotency_key (f x) = so_idempotency_key x"
    "so_conversation_id (f x) = so_conversation_id x" "so_run_id (f x) = so_run_id x" for x
    using assms [of x] by (simp_all add: output_move_def)
  have runs: "runs_move d (upd_output i f d)"
    by (simp add: runs_move_def row_simps)
  have "answer_ok (upd_output i f d) out"
    if "consistent d" and out: "out \<in> set (db_outputs (upd_output i f d))" for out
  proof -
    from out obtain out0 where "out0 \<in> set (db_outputs d)" "out = (if so_id out0 = i then f out0 else out0)"
      unfolding upd_output_def using set_row_upd by fastforce
    moreover from this that(1) have "answer_ok d out0" by (simp add: consistent_def)
    ultimately show ?thesis
      using assms [of out0] answer_ok_stable [OF runs, of out0 out] by (simp split: if_splits)
  qed
  then show ?thesis
    using keys assms runs
    by (auto simp: evolves_def consistent_def invariant_upd_output outputs_move_def outputs.get_upd)
qed

lemma evolves_insert_output:
  assumes "so_id out = db_next_id d" and "get_conversation d (so_conversation_id out) = Some c"
    and "so_run_id out = Some i" and "get_run d i = Some run" and "answer_matches run out"
  shows "evolves d (fst (insert_output out d))"
proof -
  have conv: "so_conversation_id out \<in> cv_id ` set (db_conversations d)"
    using assms(2) by (force simp: get_conversation_def dest: row_get_Some)
  have fk: "j \<in> rn_id ` set (db_runs d)" if "so_run_id out = Some j" for j
    using that assms(3,4) by (force simp: get_run_def dest: row_get_Some)
  have runs: "runs_move d (add_output out d)"
    by (simp add: runs_move_def row_simps)
  have outs: "outputs_move d (add_output out d)"
    by (auto simp: outputs_move_def outputs.get_add)
  have "answer_ok (add_output out d) x" if "consistent d" "x \<in> set (db_outputs (add_output out d))" for x
    using that assms(3-5) answer_ok_stable [OF runs _ output_move_refl]
    by (auto simp: consistent_def row_simps answer_ok_def)
  moreover have "invariant (fst (insert_output out d))" if "invariant d"
    using invariant_insert_output [OF _ that assms(1) conv fk, of "fst (insert_output out d)"]
    by (metis prod.collapse)
  ultimately have "consistent (add_output out d)"
    if "consistent d" "so_idempotency_key out \<notin> so_idempotency_key ` set (db_outputs d)"
    using that by (simp add: consistent_def insert_output_def)
  then have added: "evolves d (add_output out d)"
    if "so_idempotency_key out \<notin> so_idempotency_key ` set (db_outputs d)"
    using that runs outs by (simp add: evolves_def)
  show ?thesis
    by (cases "so_idempotency_key out \<in> so_idempotency_key ` set (db_outputs d)")
      (simp_all add: insert_output_def added)
qed

section \<open>Every transaction keeps the promise\<close>

lemma evolves_upd_conversation:
  assumes "\<And>r. cv_id (f r) = cv_id r" and "\<And>r. cv_channel (f r) = cv_channel r"
    and "\<And>r. cv_thread_ts (f r) = cv_thread_ts r"
  shows "evolves d (upd_conversation i f d)"
  using assms by (intro evolves_same invariant_upd_conversation) (simp_all add: upd_conversation_def)

lemma evolves_set_state: "evolves d (set_conversation_state i st d)"
  unfolding set_conversation_state_def by (rule evolves_upd_conversation) simp_all

lemma evolves_upd_event:
  assumes "\<And>r. ev_id (f r) = ev_id r" and "\<And>r. ev_slack_event_id (f r) = ev_slack_event_id r"
  shows "evolves d (upd_event i f d)"
  using assms by (intro evolves_same invariant_upd_event) (simp_all add: upd_event_def)

lemma evolves_insert_event: "evolves d (fst (insert_event env event d))"
  by (intro evolves_same invariant_insert_event) (simp_all add: insert_event_def add_event_def)

lemma evolves_mark_queued: "evolves d (mark_queued i d)"
  by (auto simp: mark_queued_def intro!: evolves_upd_event split: option.splits)

lemma evolves_mark_event_failed: "evolves d (mark_event_failed i e d)"
  by (auto simp: mark_event_failed_def intro!: evolves_upd_event split: option.splits)

lemma upsert_conversation_tables:
  "upsert_conversation d payload create = Inr (d1, c) \<Longrightarrow> db_runs d1 = db_runs d \<and> db_outputs d1 = db_outputs d"
  by (auto simp: upsert_conversation_def Let_def table_defs
      split: event_payload.splits if_splits option.splits)

lemma store_trigger_tables:
  "store_trigger env d c p = Inr (d1, m, r) \<Longrightarrow>
   (\<exists>rs. db_runs d1 = db_runs d @ rs) \<and> db_outputs d1 = db_outputs d"
  by (auto simp: store_trigger_def Let_def table_defs split: sum.splits if_splits)

lemma finish_event_tables [simp]:
  "db_runs (finish_event env i disp d) = db_runs d"
  "db_outputs (finish_event env i disp d) = db_outputs d"
  by (simp_all add: finish_event_def upd_event_def)

lemma process_message_tables:
  assumes "process_message env d event = Inr (d', out)"
  shows "(\<exists>rs. db_runs d' = db_runs d @ rs) \<and> db_outputs d' = db_outputs d"
proof -
  obtain d1 c where up: "upsert_conversation d (ev_payload event)
      (ev_event_type event = ''app_mention'') = Inr (d1, c)"
    using assms by (auto simp: process_message_def split: sum.splits)
  note t1 = upsert_conversation_tables [OF up]
  show ?thesis
  proof (cases c)
    case None
    with assms up t1 show ?thesis by (auto simp: process_message_def)
  next
    case (Some i)
    with assms up obtain p d2 m r where
        pay: "ev_payload event = Message_payload p" and st: "store_trigger env d1 i p = Inr (d2, m, r)"
      by (auto simp: process_message_def split: event_payload.splits sum.splits prod.splits)
    from store_trigger_tables [OF st] assms up Some pay st t1 show ?thesis
      by (cases r) (auto simp: process_message_def Let_def upd_conversation_def)
  qed
qed

lemma process_reaction_tables:
  assumes "process_reaction env d event = Inr (d', out)"
  shows "db_runs d' = db_runs d \<and>
    (\<exists>os. db_outputs d' = db_outputs d @ os \<and> (\<forall>o' \<in> set os. so_kind o' = Kind_feedback_flavor))"
proof -
  have ins: "db_runs x = db_runs d0 \<and>
      (\<exists>os. db_outputs x = db_outputs d0 @ os \<and> (\<forall>o' \<in> set os. so_kind o' = Kind_feedback_flavor))"
    if "insert_output (pending_output env i c r ch th k b Kind_feedback_flavor) d0 = (x, y)"
    for i c r ch th k b d0 x y
    using that by (auto simp: insert_output_def table_defs pending_output_def split: if_splits)
  show ?thesis
  proof (cases "ev_payload event")
    case (Reaction_payload p)
    show ?thesis
    proof (cases "find_reply d (rp_channel p) (rp_message_ts p)")
      case None
      with assms Reaction_payload show ?thesis by (auto simp: process_reaction_def)
    next
      case (Some reply)
      have up: "db_runs (deactivate_feedback env p d) = db_runs d"
        by (simp add: deactivate_feedback_def map_feedback_def)
      show ?thesis
        using assms Reaction_payload Some up
        by (auto simp: process_reaction_def Let_def dest!: ins split: prod.splits if_splits)
    qed
  next
    case (Message_payload p)
    with assms show ?thesis by (auto simp: process_reaction_def split: option.splits)
  next
    case (Ignored_payload a b c)
    with assms show ?thesis by (auto simp: process_reaction_def)
  qed
qed

lemma evolves_process_txn:
  assumes "process_txn env d i = Inr (d', out)"
  shows "evolves d d'"
proof -
  have "\<exists>rs os. db_runs d' = db_runs d @ rs \<and> db_outputs d' = db_outputs d @ os \<and>
      (\<forall>o' \<in> set os. so_kind o' = Kind_feedback_flavor)"
    using assms
    by (auto simp: process_txn_def simp del: insert_iff
        dest!: process_message_tables process_reaction_tables
        split: option.splits if_splits sum.splits)
  then obtain rs os where "db_runs d' = db_runs d @ rs" "db_outputs d' = db_outputs d @ os"
      "\<forall>o' \<in> set os. so_kind o' = Kind_feedback_flavor"
    by blast
  then show ?thesis
    using process_txn_invariant [OF _ assms] by (rule_tac evolves_extend) 
qed

lemma evolves_cancel_run:
  assumes "get_run d i = Some r" and "rn_status r \<in> {Run_queued, Run_running}"
  shows "evolves d (cancel_run env i d)"
  unfolding cancel_run_def using assms(1)
  by (rule evolves_upd_run) (use assms(2) in \<open>auto simp: run_move_def less_eq_run_status_def terminal_def\<close>)

lemma evolves_begin_run:
  assumes "begin_run env i d = Inr (d', st)"
  shows "evolves d d'"
proof (cases "get_run d i")
  case None
  with assms show ?thesis by (simp add: begin_run_def)
next
  case (Some run)
  show ?thesis
  proof (cases "rn_status run = Run_queued")
    case True
    have cancel: "evolves d (cancel_run env i d)"
      using True by (intro evolves_cancel_run [OF Some]) simp
    have start: "evolves d (upd_run i (\<lambda>r. r\<lparr>rn_status := Run_running,
        rn_started_at := Some (se_now env), rn_input_snapshot := sn\<rparr>) d)" for sn
      using Some by (rule evolves_upd_run) (use True in \<open>simp_all add: run_move_def less_eq_run_status_def terminal_def\<close>)
    show ?thesis
      using assms Some True cancel start evolves_trans [OF cancel evolves_set_state]
      by (auto simp: begin_run_def Let_def split: if_splits option.splits)
  next
    case False
    with assms Some show ?thesis by (simp add: begin_run_def)
  qed
qed

lemma evolves_cancel_if_stale:
  assumes "cancel_if_stale env i d = Inr (d', b)"
  shows "evolves d d'"
proof (cases "get_run d i")
  case None
  with assms show ?thesis by (simp add: cancel_if_stale_def)
next
  case (Some run)
  show ?thesis
  proof (cases "rn_status run \<in> {Run_queued, Run_running}")
    case True
    note cancel = evolves_cancel_run [OF Some True]
    show ?thesis
      using assms Some True evolves_trans [OF cancel evolves_set_state]
      by (auto simp: cancel_if_stale_def simp del: insert_iff split: if_splits option.splits)
  next
    case False
    with assms Some show ?thesis by (simp add: cancel_if_stale_def)
  qed
qed

lemma evolves_record_ingestion:
  assumes "record_ingestion i ing d = Inr d'"
  shows "evolves d d'"
proof -
  from assms obtain r where "get_run d i = Some r"
    by (auto simp: record_ingestion_def split: option.splits)
  then have "evolves d (upd_run i (\<lambda>r. r\<lparr>rn_input_snapshot := f r\<rparr>) d)" for f
    by (rule evolves_upd_run) (simp_all add: run_move_def less_eq_run_status_def)
  with assms show ?thesis
    by (auto simp: record_ingestion_def split: option.splits)
qed

lemma evolves_persist_tool_call: "evolves d (persist_tool_call i call d)"
  unfolding persist_tool_call_def
  by (cases "(i, ta_sequence call) \<in> (\<lambda>t. (tc_run_id t, ta_sequence (tc_record t))) ` set (db_tool_calls d)")
    (auto simp: stored_call_def intro!: evolves_same invariant_add_tool_call,
      simp_all add: add_tool_call_def)

lemma evolves_persist_tool_calls: "evolves d (persist_tool_calls i calls d)"
  unfolding persist_tool_calls_def
proof (induction calls arbitrary: d)
  case (Cons call calls)
  show ?case by simp (rule evolves_trans [OF evolves_persist_tool_call Cons.IH])
qed simp

lemma persist_tool_calls_frame [simp]:
  "get_run (persist_tool_calls i calls d) j = get_run d j"
  "get_conversation (persist_tool_calls i calls d) j = get_conversation d j"
proof (induction calls arbitrary: d)
  case Nil
  { case 1 then show ?case by (simp add: persist_tool_calls_def) }
  { case 2 then show ?case by (simp add: persist_tool_calls_def) }
next
  case (Cons c cs)
  have "get_run (persist_tool_call i c d) j = get_run d j"
      "get_conversation (persist_tool_call i c d) j = get_conversation d j" for d
    by (simp_all add: persist_tool_call_def table_defs)
  { case 1 then show ?case using Cons \<open>\<And>d. get_run (persist_tool_call i c d) j = get_run d j\<close>
      by (simp add: persist_tool_calls_def) }
  { case 2 then show ?case using Cons \<open>\<And>d. get_conversation (persist_tool_call i c d) j = get_conversation d j\<close>
      by (simp add: persist_tool_calls_def) }
qed

lemma set_state_frame [simp]:
  "get_run (set_conversation_state k st d) j = get_run d j"
  "get_conversation (set_conversation_state k st d) j =
     (if j = k then map_option (\<lambda>c. c\<lparr>cv_state := st\<rparr>) (get_conversation d j) else get_conversation d j)"
  "get_conversation (upd_run i f d) j = get_conversation d j"
  by (simp_all add: set_conversation_state_def row_simps conversations.get_upd) (simp add: table_defs)

text \<open>A finished run gets its answer: the common end of completing, failing and interrupting.\<close>

lemma evolves_answer:
  assumes "get_run d i = Some run" and "get_conversation d (cv_id c) = Some c'"
    and "answer_matches run (run_output env (db_next_id d) c i body kind)"
  shows "evolves d (fst (insert_output (run_output env (db_next_id d) c i body kind) d))"
  using assms(1) 
  by (intro evolves_insert_output [OF _ _ _ assms(1) assms(3)])
    (simp_all add: run_output_def assms(2))

lemma evolves_succeed:
  assumes "get_run d i = Some r" and "rn_status r = Run_running"
  shows "evolves d (upd_run i (succeeded_run env result body ing latency) d)"
  using assms(1)
  by (rule evolves_upd_run)
    (use assms(2) in \<open>simp_all add: succeeded_run_def Let_def run_move_def less_eq_run_status_def terminal_def\<close>)

lemma evolves_failed:
  assumes "get_run d i = Some r" and "rn_status r = Run_running"
  shows "evolves d (upd_run i (failed_run env ecode detail) d)"
  using assms(1)
  by (rule evolves_upd_run)
    (use assms(2) in \<open>simp_all add: failed_run_def run_move_def less_eq_run_status_def terminal_def\<close>)

lemma failed_meta_keys [simp]:
  "rn_id (failed_meta ex r) = rn_id r" "rn_status (failed_meta ex r) = rn_status r"
  "rn_conversation_id (failed_meta ex r) = rn_conversation_id r"
  "rn_trigger_message_id (failed_meta ex r) = rn_trigger_message_id r"
  "rn_created_at (failed_meta ex r) = rn_created_at r"
  by (simp_all add: failed_meta_def split: py_exception.splits)

lemma failed_run_keys [simp]:
  "rn_id (failed_run env ecode detail r) = rn_id r"
  "rn_status (failed_run env ecode detail r) = Run_failed"
  "rn_conversation_id (failed_run env ecode detail r) = rn_conversation_id r"
  by (simp_all add: failed_run_def)

lemma succeeded_run_keys [simp]:
  "rn_id (succeeded_run env result body ing latency r) = rn_id r"
  "rn_status (succeeded_run env result body ing latency r) = Run_succeeded"
  "rn_request_kind (succeeded_run env result body ing latency r) = result_kind result"
  by (simp_all add: succeeded_run_def Let_def)

lemma answer_matches_success:
  assumes "get_run d i = Some r"
  shows "answer_matches (succeeded_run env result body ing latency r)
    (run_output env' n c i body' (answer_kind result))"
  using assms runs.get_key [OF assms]
  by (cases result) (simp_all add: answer_matches_def run_output_def answer_kind_def pending_output_def)

lemma answer_matches_failure:
  assumes "get_run d i = Some r"
  shows "answer_matches (failed_run env ecode detail r) (run_output env' n c i body Kind_error)"
  using runs.get_key [OF assms]
  by (simp add: answer_matches_def run_output_def pending_output_def)

lemma evolves_complete_run:
  assumes "complete_run env i result body ing latency d = Inr (d', out)"
  shows "evolves d d'"
proof (cases "get_run d i")
  case None
  with assms show ?thesis by (simp add: complete_run_def)
next
  case (Some run)
  show ?thesis
  proof (cases "rn_status run = Run_running")
    case False
    with assms Some show ?thesis by (simp add: complete_run_def)
  next
    case True
    with assms Some obtain conv where conv: "get_conversation d (rn_conversation_id run) = Some conv"
      by (auto simp: complete_run_def split: option.splits)
    have id: "cv_id conv = rn_conversation_id run" using conv by (rule conversations.get_key)
    define d3 where "d3 = persist_tool_calls i (rm_tool_calls (result_meta result))
      (set_conversation_state (cv_id conv) Conv_answered
        (upd_run i (succeeded_run env result body ing latency) d))"
    have upto: "evolves d d3"
      unfolding d3_def
      by (rule evolves_trans [OF evolves_succeed [OF Some True]
            evolves_trans [OF evolves_set_state evolves_persist_tool_calls]])
    have run3: "get_run d3 i = Some (succeeded_run env result body ing latency run)"
      using Some by (simp add: d3_def runs.get_upd_same)
    have conv3: "get_conversation d3 (cv_id conv) = Some (conv\<lparr>cv_state := Conv_answered\<rparr>)"
      using conv id by (simp add: d3_def)
    have answer: "evolves d3 (fst (insert_output (run_output env (db_next_id d3) conv i body
        (answer_kind result)) d3))"
      using run3 conv3 answer_matches_success [OF Some] by (rule evolves_answer)
    show ?thesis
      using assms Some True conv upto evolves_trans [OF upto answer]
      by (auto simp: complete_run_def Let_def d3_def [symmetric] split: if_splits)
  qed
qed

lemma evolves_close_run:
  \<comment> \<open>the end of a failed run: its conversation and its error message\<close>
  assumes "get_run d i = Some run" and "rn_status run = Run_failed"
    and "get_conversation d k = Some conv"
  shows "evolves d (fst (insert_output (run_output env
      (db_next_id (set_conversation_state (cv_id conv) Conv_failed d)) conv i body Kind_error)
      (set_conversation_state (cv_id conv) Conv_failed d)))"
proof -
  let ?d = "set_conversation_state (cv_id conv) Conv_failed d"
  have run: "get_run ?d i = Some run" using assms(1) by simp
  have conv: "get_conversation ?d (cv_id conv) = Some (conv\<lparr>cv_state := Conv_failed\<rparr>)"
    using assms(3) conversations.get_key [OF assms(3)] by simp
  have "answer_matches run (run_output env (db_next_id ?d) conv i body Kind_error)"
    using assms(2) runs.get_key [OF assms(1)]
    by (simp add: answer_matches_def run_output_def pending_output_def)
  from evolves_trans [OF evolves_set_state evolves_answer [OF run conv this]] show ?thesis .
qed

lemma evolves_fail_run:
  assumes "fail_run env i ex d = (d', out)"
  shows "evolves d d'"
proof (cases "get_run d i")
  case None
  with assms show ?thesis by (simp add: fail_run_def)
next
  case (Some run)
  show ?thesis
  proof (cases "rn_status run = Run_running")
    case False
    with assms Some show ?thesis by (simp add: fail_run_def)
  next
    case True
    define d1 where "d1 = persist_tool_calls i (failure_calls ex) (upd_run i (failed_meta ex) d)"
    define d2 where "d2 = upd_run i (failed_run env ''runner_error'' (exception_name ex)) d1"
    have meta: "evolves d (upd_run i (failed_meta ex) d)"
      using Some by (rule evolves_upd_run) (use True in \<open>simp_all add: run_move_def less_eq_run_status_def terminal_def\<close>)
    have run1: "get_run d1 i = Some (failed_meta ex run)"
      using Some by (simp add: d1_def runs.get_upd_same)
    have "evolves d1 d2"
      unfolding d2_def using run1 by (rule evolves_failed) (simp add: True)
    then have upto: "evolves d d2"
      unfolding d1_def by (rule evolves_trans [OF evolves_trans [OF meta evolves_persist_tool_calls]])
    have run2: "get_run d2 i = Some (failed_run env ''runner_error'' (exception_name ex) (failed_meta ex run))"
      using run1 by (simp add: d2_def runs.get_upd_same)
    show ?thesis
    proof (cases "get_conversation d2 (rn_conversation_id run)")
      case None
      then have "get_conversation d1 (rn_conversation_id run) = None" by (simp add: d2_def)
      with assms Some True upto show ?thesis
        by (simp add: fail_run_def Let_def d1_def [symmetric]) (simp add: d2_def)
    next
      case conv: (Some conv)
      then have conv1: "get_conversation d1 (rn_conversation_id run) = Some conv"
        by (simp add: d2_def)
      have close: "evolves d (fst (insert_output (run_output env
          (db_next_id (set_conversation_state (cv_id conv) Conv_failed d2)) conv i body Kind_error)
          (set_conversation_state (cv_id conv) Conv_failed d2)))" for body
        using evolves_trans [OF upto evolves_close_run [OF run2 _ conv]] by simp
      have "d' = set_conversation_state (cv_id conv) Conv_failed d2 \<or>
          (\<exists>body. d' = fst (insert_output (run_output env
            (db_next_id (set_conversation_state (cv_id conv) Conv_failed d2)) conv i body Kind_error)
            (set_conversation_state (cv_id conv) Conv_failed d2)))"
        using assms Some True conv1
        by (simp add: fail_run_def Let_def d1_def [symmetric] d2_def split: if_splits) (metis fst_conv)
      then show ?thesis
        using close evolves_trans [OF upto evolves_set_state] by auto
    qed
  qed
qed

lemma evolves_interrupt_run: "evolves d (interrupt_run env i d)"
proof (cases "get_run d i")
  case None
  then show ?thesis by (simp add: interrupt_run_def)
next
  case (Some run)
  show ?thesis
  proof (cases "rn_status run = Run_running")
    case False
    with Some show ?thesis by (simp add: interrupt_run_def)
  next
    case True
    define d1 where "d1 = upd_run i (failed_run env ''worker_interrupted'' ''worker_heartbeat_expired'') d"
    have upto: "evolves d d1"
      unfolding d1_def using Some True by (rule evolves_failed)
    have run1: "get_run d1 i = Some (failed_run env ''worker_interrupted'' ''worker_heartbeat_expired'' run)"
      using Some by (simp add: d1_def runs.get_upd_same)
    show ?thesis
    proof (cases "get_conversation d1 (rn_conversation_id run)")
      case None
      with Some True upto show ?thesis by (simp add: interrupt_run_def Let_def d1_def [symmetric])
    next
      case conv: (Some conv)
      note close = evolves_trans [OF upto evolves_close_run [OF run1 _ conv]]
      show ?thesis
        using Some True conv close evolves_trans [OF upto evolves_set_state]
        by (simp add: interrupt_run_def Let_def d1_def [symmetric])
    qed
  qed
qed

lemma evolves_claim_output:
  assumes "claim_output env i d = (d', out)"
  shows "evolves d d'"
proof -
  have "evolves d (upd_output i (cancel_output env reason) d)" for reason
    by (rule evolves_upd_output) (simp add: cancel_output_def output_move_def)
  moreover have "evolves d (upd_output i
      (\<lambda>r. r\<lparr>so_attempts := so_attempts r + 1, so_updated_at := se_now env\<rparr>) d)"
    by (rule evolves_upd_output) (simp add: output_move_def)
  ultimately show ?thesis
    using assms by (auto simp: claim_output_def split: option.splits if_splits)
qed

lemma evolves_fail_delivery:
  assumes "fail_delivery env i e d = (d', b)"
  shows "evolves d d'"
  using assms
  by (auto simp: fail_delivery_def Let_def output_move_def intro!: evolves_upd_output
      split: option.splits)

lemma evolves_insert_message:
  assumes "ms_id m = db_next_id d" and "get_conversation d (ms_conversation_id m) \<noteq> None"
  shows "evolves d (insert_message m d)"
proof -
  have "ms_conversation_id m \<in> cv_id ` set (db_conversations d)"
    using assms(2) by (force simp: get_conversation_def dest: row_get_Some)
  then show ?thesis
    using assms(1) by (auto simp: insert_message_def intro!: evolves_same invariant_add_message)
      (simp_all add: add_message_def)
qed

lemma conversation_of_output:
  assumes "consistent d" and "get_output d i = Some out"
  shows "get_conversation d (so_conversation_id out) \<noteq> None"
proof -
  have "out \<in> set (db_outputs d)"
    using assms(2) by (auto simp: get_output_def dest: row_get_Some)
  with assms(1) have "so_conversation_id out \<in> cv_id ` set (db_conversations d)"
    by (auto simp: consistent_def invariant_def fk_ok_def)
  then show ?thesis
    by (simp add: get_conversation_def row_get_None_iff)
qed

text \<open>A delivery finishes for a row it claimed before: the conversation of that row still is the
  conversation of the stored one.\<close>

definition claimed_as :: "db \<Rightarrow> output_row \<Rightarrow> bool" where
  "claimed_as d posted \<longleftrightarrow>
     (\<forall>out. get_output d (so_id posted) = Some out \<longrightarrow> output_move posted out)"

lemma evolves_finish_delivery:
  assumes "consistent d" and "finish_delivery env posted ts d = Inr d'" and "claimed_as d posted"
  shows "evolves d d'"
proof (cases "get_output d (so_id posted)")
  case None
  with assms show ?thesis by (simp add: finish_delivery_def)
next
  case (Some out)
  let ?d = "upd_output (so_id posted) (sent_output env ts) d"
  have sent: "evolves d ?d"
    by (rule evolves_upd_output) (simp add: sent_output_def output_move_def)
  have "so_conversation_id out = so_conversation_id posted"
    using assms(3) Some by (simp add: claimed_as_def output_move_def)
  with conversation_of_output [OF assms(1) Some]
  have "get_conversation ?d (so_conversation_id posted) \<noteq> None"
    by (simp add: table_defs)
  then have "evolves ?d (insert_message (outbound_row env (db_next_id ?d) posted ts) ?d)"
    by (intro evolves_insert_message) (simp_all add: outbound_row_def)
  from evolves_trans [OF sent this] assms(2) Some show ?thesis
    by (auto simp: finish_delivery_def Let_def split: if_splits)
qed

section \<open>Steps and schedules\<close>

inductive job_step :: "(py_exception + runner_result \<Rightarrow> bool) \<Rightarrow> db \<Rightarrow> db \<Rightarrow> bool" for ends where
  step_receive: "job_step ends d (fst (insert_event env event d))"
| step_queued: "job_step ends d (mark_queued i d)"
| step_process: "process_txn env d i = Inr (d', out) \<Longrightarrow> job_step ends d d'"
| step_event_failed: "job_step ends d (mark_event_failed i e d)"
| step_begin: "begin_run env i d = Inr (d', st) \<Longrightarrow> job_step ends d d'"
| step_ingestion: "record_ingestion i ing d = Inr d' \<Longrightarrow> job_step ends d d'"
| step_stale: "cancel_if_stale env i d = Inr (d', b) \<Longrightarrow> job_step ends d d'"
| step_complete: "ends (Inr result) \<Longrightarrow> complete_run env i result body ing latency d = Inr (d', out) \<Longrightarrow> job_step ends d d'"
| step_fail: "ends (Inl ex) \<Longrightarrow> fail_run env i ex d = (d', out) \<Longrightarrow> job_step ends d d'"
| step_interrupt: "job_step ends d (interrupt_run env i d)"
| step_claim: "claim_output env i d = (d', claimed) \<Longrightarrow> job_step ends d d'"
| step_undelivered: "fail_delivery env i e d = (d', b) \<Longrightarrow> job_step ends d d'"
| step_delivered: "finish_delivery env posted ts d = Inr d' \<Longrightarrow> claimed_as d posted \<Longrightarrow> job_step ends d d'"

text \<open>Where it does not matter how the runs end, every end is allowed.\<close>

abbreviation db_step :: "db \<Rightarrow> db \<Rightarrow> bool" where
  "db_step \<equiv> job_step (\<lambda>_. True)"

lemma job_step_db: "job_step ends d d' \<Longrightarrow> db_step d d'"
  by (induction rule: job_step.induct) (auto intro: job_step.intros)

lemma job_steps_db: "(job_step ends)\<^sup>*\<^sup>* d d' \<Longrightarrow> db_step\<^sup>*\<^sup>* d d'"
  by (rule rtranclp_mono [THEN predicate2D]) (auto intro: job_step_db)

locale transaction =
  fixes step :: "db \<Rightarrow> db \<Rightarrow> bool"
  assumes step_evolves: "consistent d \<Longrightarrow> step d d' \<Longrightarrow> evolves d d'"

sublocale transaction \<subseteq> preserving step consistent
  by unfold_locales (use step_evolves in \<open>auto simp: evolves_def\<close>)

context transaction
begin

lemma schedule_evolves:
  assumes "step\<^sup>*\<^sup>* d d'" and "consistent d"
  shows "evolves d d'" and "consistent d'"
proof -
  show "consistent d'" by (rule steps_good [OF assms])
  show "evolves d d'"
    using assms(1)
  proof (induction rule: rtranclp_induct)
    case (step a b)
    then have "evolves a b" using step_evolves steps_good [OF _ assms(2)] by blast
    then show ?case by (rule evolves_trans [OF step.IH])
  qed simp
qed

lemma run_survives:
  assumes "step\<^sup>*\<^sup>* d d'" and "consistent d" and "get_run d i = Some r"
  shows "\<exists>r'. get_run d' i = Some r' \<and> run_move r r'"
  using schedule_evolves(1) [OF assms(1,2)] assms(3) by (simp add: evolves_def runs_move_def)

lemma output_survives:
  assumes "step\<^sup>*\<^sup>* d d'" and "consistent d" and "get_output d i = Some out"
  shows "\<exists>out'. get_output d' i = Some out' \<and> output_move out out'"
  using schedule_evolves(1) [OF assms(1,2)] assms(3) by (simp add: evolves_def outputs_move_def)

lemma finished_run_fixed:
  assumes "step\<^sup>*\<^sup>* d d'" and "consistent d" and "get_run d i = Some r" and "terminal (rn_status r)"
  shows "\<exists>r'. get_run d' i = Some r' \<and> rn_status r' = rn_status r \<and>
    rn_request_kind r' = rn_request_kind r \<and> rn_structured_result r' = rn_structured_result r \<and>
    rn_output_message r' = rn_output_message r \<and> rn_finished_at r' = rn_finished_at r"
proof -
  obtain r' where r': "get_run d' i = Some r'" and move: "run_move r r'"
    using run_survives [OF assms(1-3)] by blast
  from move have "rn_status r \<le> rn_status r'"
    by (simp add: run_move_def)
  with assms(4) have "rn_status r' = rn_status r" by (rule terminal_final)
  with r' move assms(4) show ?thesis
    unfolding run_move_def by (intro exI [of _ r']) simp
qed

lemma one_answer:
  assumes "step\<^sup>*\<^sup>* d d'" and "consistent d"
    and "a \<in> set (db_outputs d')" and "b \<in> set (db_outputs d')"
    and "so_run_id a = Some i" and "so_run_id b = Some i"
    and "so_kind a \<noteq> Kind_feedback_flavor" and "so_kind b \<noteq> Kind_feedback_flavor"
  shows "a = b"
proof -
  have c: "consistent d'" using schedule_evolves(2) [OF assms(1,2)] .
  obtain run where a: "get_run d' i = Some run" "answer_matches run a"
    using c assms(3,5,7) by (auto simp: consistent_def answer_ok_def)
  have b: "answer_matches run b"
    using c assms(4,6,8) a(1) by (auto simp: consistent_def answer_ok_def)
  from a(2) b have "so_kind a = so_kind b"
    by (cases "so_kind a"; cases "so_kind b") (auto simp: answer_matches_def)
  with a(2) b have "so_idempotency_key a = so_idempotency_key b"
    by (simp add: answer_matches_def)
  moreover have "distinct (map so_idempotency_key (db_outputs d'))"
    using c by (simp add: consistent_def invariant_def db_ok_def)
  ultimately show ?thesis
    using assms(3,4) by (auto intro: distinct_map_unique)
qed

end

interpretation workers: transaction db_step
proof
  fix d d'
  assume "consistent d" and "db_step d d'"
  from this(2,1) show "evolves d d'"
    by (induction rule: job_step.induct)
      (simp_all add: evolves_insert_event evolves_mark_queued evolves_process_txn
        evolves_mark_event_failed evolves_begin_run evolves_record_ingestion
        evolves_cancel_if_stale evolves_complete_run evolves_fail_run evolves_interrupt_run
        evolves_claim_output evolves_fail_delivery evolves_finish_delivery)
qed

definition reachable :: "db \<Rightarrow> bool" where
  "reachable d \<longleftrightarrow> db_step\<^sup>*\<^sup>* empty_db d"

lemma reachable_consistent: "reachable d \<Longrightarrow> consistent d"
  unfolding reachable_def by (rule workers.schedule_evolves(2) [OF _ consistent_empty])

lemma reachable_step: "reachable d \<Longrightarrow> db_step\<^sup>*\<^sup>* d d' \<Longrightarrow> reachable d'"
  unfolding reachable_def by simp

section \<open>Handlers are schedules\<close>

definition fair_for :: "(py_exception + runner_result \<Rightarrow> bool) \<Rightarrow> pipeline_env \<Rightarrow> bool" where
  \<comment> \<open>what happens between two transactions of a handler is itself a schedule\<close>
  "fair_for ends pe \<longleftrightarrow> (\<forall>k w. (job_step ends)\<^sup>*\<^sup>* (w_db w) (w_db (pe_interfere pe k w)))"

abbreviation fair :: "pipeline_env \<Rightarrow> bool" where
  "fair \<equiv> fair_for (\<lambda>_. True)"

definition runs_end :: "(py_exception + runner_result \<Rightarrow> bool) \<Rightarrow> pipeline_env \<Rightarrow> bool" where
  \<comment> \<open>what the runner gives, with the note about images appended, and what goes wrong around it\<close>
  "runs_end ends pe \<longleftrightarrow> (\<forall>ri result ing. run_agent pe ri = Inr result \<longrightarrow> ends (Inr (append_image_limitation result ing)))
     \<and> (\<forall>ri ex. run_agent pe ri = Inl ex \<longrightarrow> ends (Inl ex)) \<and> (\<forall>e. ends (Inl (Other_exception e)))"

lemma runs_end_True [simp]: "runs_end (\<lambda>_. True) pe"
  by (simp add: runs_end_def)

lemma fairD: "fair_for ends pe \<Longrightarrow> (job_step ends)\<^sup>*\<^sup>* (w_db w) (w_db (pe_interfere pe k w))"
  by (simp add: fair_for_def)

lemma step_then:
  assumes "job_step ends a b" and "(job_step ends)\<^sup>*\<^sup>* b c"
  shows "(job_step ends)\<^sup>*\<^sup>* a c"
  using assms by (rule converse_rtranclp_into_rtranclp)

lemma slack_effects_db [simp]:
  "w_db (set_status ch th st w) = w_db w" "w_db (clear_status ch th w) = w_db w"
  "w_db (clear_if_posting pe st' w) = w_db w" "w_db (submit_output pe out w) = w_db w"
  by (simp_all add: set_status_def clear_status_def clear_if_posting_def submit_output_def
      split: option.splits sum.splits)

lemma finish_attempt_schedule:
  assumes "fair_for ends pe" and "finish_attempt pe i st batch result w = (w', res)" and "ends (Inr result)"
  shows "(job_step ends)\<^sup>*\<^sup>* (w_db w) (w_db w')"
proof (cases "cancel_if_stale (pe_svc pe) i (w_db w)")
  case (Inl e)
  with assms show ?thesis by (simp add: finish_attempt_def Let_def)
next
  case (Inr p)
  obtain d b where p: "p = (d, b)" by (cases p)
  have s1: "job_step ends (w_db w) d" using Inr p step_stale by simp
  show ?thesis
  proof (cases b)
    case True
    with assms Inr p s1 show ?thesis
      by (auto simp: finish_attempt_def Let_def)
  next
    case False
    let ?w1 = "pe_interfere pe 3 (w\<lparr>w_db := d\<rparr>)"
    have s2: "(job_step ends)\<^sup>*\<^sup>* d (w_db ?w1)"
      using fairD [OF assms(1), of "w\<lparr>w_db := d\<rparr>" 3] by simp
    note s12 = step_then [OF s1 s2]
    have s3: "(job_step ends)\<^sup>*\<^sup>* (w_db w) d1"
      if "complete_run (pe_svc pe) i result body ing latency (w_db ?w1) = Inr (d1, out)"
      for body ing latency d1 out
      using s12 step_complete [of ends, OF assms(3) that] by (rule rtranclp.rtrancl_into_rtrancl)
    show ?thesis
      using assms(2) Inr p False s12
      by (auto simp: finish_attempt_def Let_def dest: s3 split: sum.splits prod.splits)
  qed
qed

lemma attempt_run_schedule:
  assumes "fair_for ends pe" and "attempt_run pe i st w = (w', res)" and "runs_end ends pe"
  shows "(job_step ends)\<^sup>*\<^sup>* (w_db w) (w_db w')"
proof (cases "run_images (pe_ingest pe) i (sr_attachments st) (sr_requested st) (sr_rejected st)
    (pe_supports_images pe)")
  case (Inl e)
  with assms show ?thesis by (simp add: attempt_run_def Let_def)
next
  case batch: (Inr batch)
  show ?thesis
  proof (cases "record_ingestion i (ib_ingestion batch) (w_db w)")
    case (Inl e)
    with assms batch show ?thesis by (simp add: attempt_run_def Let_def)
  next
    case (Inr d)
    let ?w1 = "pe_interfere pe 1 (w\<lparr>w_db := d\<rparr>)"
    have s1: "(job_step ends)\<^sup>*\<^sup>* (w_db w) (w_db ?w1)"
      using step_then [OF step_ingestion [OF Inr]] fairD [OF assms(1), of "w\<lparr>w_db := d\<rparr>" 1] by simp
    show ?thesis
    proof (cases "cancel_if_stale (pe_svc pe) i (w_db ?w1)")
      case (Inl e)
      with assms batch Inr s1 show ?thesis by (simp add: attempt_run_def Let_def)
    next
      case stale: (Inr p)
      obtain d1 b where p: "p = (d1, b)" by (cases p)
      have s2: "(job_step ends)\<^sup>*\<^sup>* (w_db w) d1"
        using s1 step_stale [of "pe_svc pe" i "w_db ?w1" d1 b ends] stale p
        by (simp add: rtranclp.rtrancl_into_rtrancl)
      show ?thesis
      proof (cases b)
        case True
        with assms batch Inr stale p s2 show ?thesis
          by (auto simp: attempt_run_def Let_def)
      next
        case False
        let ?w2 = "pe_interfere pe 2 (?w1\<lparr>w_db := d1\<rparr>)"
        have s3: "(job_step ends)\<^sup>*\<^sup>* (w_db w) (w_db ?w2)"
          using rtranclp_trans [OF s2] fairD [OF assms(1), of "?w1\<lparr>w_db := d1\<rparr>" 2] by simp
        have "w' = ?w2 \<or> (\<exists>result. ends (Inr result) \<and> finish_attempt pe i st batch result ?w2 = (w', res))"
          using assms(2,3) batch Inr stale p False
          by (auto simp: attempt_run_def Let_def runs_end_def split: sum.splits)
        then show ?thesis
          using s3 rtranclp_trans [OF s3 finish_attempt_schedule [OF assms(1)]] by auto
      qed
    qed
  qed
qed

lemma attempt_run_exception:
  assumes "attempt_run pe i st w = (w', Inl ex)" and "runs_end ends pe"
  shows "ends (Inl ex)"
  using assms
  by (auto simp: attempt_run_def finish_attempt_def runs_end_def Let_def split: sum.splits prod.splits bool.splits)

lemma handle_failure_schedule: "ends (Inl ex) \<Longrightarrow> (job_step ends)\<^sup>*\<^sup>* (w_db w) (w_db (fst (handle_failure pe i st ex w)))"
proof -
  assume ex: "ends (Inl ex)"
  obtain d out where f: "fail_run (pe_svc pe) i ex (w_db w) = (d, out)"
    by (cases "fail_run (pe_svc pe) i ex (w_db w)")
  have "job_step ends (w_db w) d" using ex f by (rule step_fail)
  then show ?thesis
    by (auto simp: handle_failure_def f Let_def split: option.splits sum.splits)
qed

lemma execute_run_schedule:
  assumes "fair_for ends pe" and "runs_end ends pe"
  shows "(job_step ends)\<^sup>*\<^sup>* (w_db w) (w_db (fst (execute_run pe i w)))"
proof (cases "begin_run (pe_svc pe) i (w_db w)")
  case (Inl e)
  then show ?thesis by (simp add: execute_run_def)
next
  case (Inr p)
  obtain d st where p: "p = (d, st)" by (cases p)
  have s1: "job_step ends (w_db w) d" using Inr p step_begin by simp
  show ?thesis
  proof (cases st)
    case None
    with Inr p s1 show ?thesis by (auto simp: execute_run_def)
  next
    case (Some st)
    define w2 where "w2 = (if posts_to_slack pe
      then set_status (sr_channel st) (sr_thread_ts st) thinking (w\<lparr>w_db := d\<rparr>) else w\<lparr>w_db := d\<rparr>)"
    have w2: "w_db w2 = d" by (simp add: w2_def)
    obtain w3 res where att: "attempt_run pe i st (pe_interfere pe 0 w2) = (w3, res)"
      by (cases "attempt_run pe i st (pe_interfere pe 0 w2)")
    have "(job_step ends)\<^sup>*\<^sup>* d (w_db w3)"
      using rtranclp_trans [OF fairD [OF assms(1), of w2 0] attempt_run_schedule [OF assms(1) att assms(2)]] w2 by simp
    with s1 have s3: "(job_step ends)\<^sup>*\<^sup>* (w_db w) (w_db w3)" by (rule step_then)
    have s4: "(job_step ends)\<^sup>*\<^sup>* (w_db w3) (w_db (fst (handle_failure pe i st ex (pe_interfere pe 4 w3))))"
      if "res = Inl ex" for ex
      using rtranclp_trans [OF fairD [OF assms(1)] handle_failure_schedule] attempt_run_exception [OF _ assms(2)] att that
      by blast
    show ?thesis
      using Inr p Some att s3 rtranclp_trans [OF s3 s4]
      by (cases res) (auto simp: execute_run_def Let_def w2_def [symmetric])
  qed
qed

lemma claimed_row:
  assumes "claim_output env i d = (d', Some out)"
  shows "get_output d i = Some out \<and> so_id out = i \<and> so_status out = Out_pending \<and>
    cfg_global_mode (se_config env) \<noteq> Mode_off \<and> \<not> output_stale d out"
  using assms outputs.get_key by (auto simp: claim_output_def split: option.splits if_splits)

lemma claimed_as_later:
  assumes "consistent d" and "get_output d i = Some out" and "(job_step ends)\<^sup>*\<^sup>* d d'"
  shows "claimed_as d' out"
proof -
  have "so_id out = i" using assms(2) by (rule outputs.get_key)
  with workers.output_survives [OF job_steps_db [OF assms(3)] assms(1,2)] show ?thesis
    by (auto simp: claimed_as_def)
qed

lemma deliver_output_schedule:
  assumes "fair_for ends pe" and "consistent (w_db w)"
  shows "(job_step ends)\<^sup>*\<^sup>* (w_db w) (w_db (fst (deliver_output pe i w)))"
proof -
  obtain d claimed where c: "claim_output (pe_svc pe) i (w_db w) = (d, claimed)"
    by (cases "claim_output (pe_svc pe) i (w_db w)")
  have s1: "job_step ends (w_db w) d" using c by (rule step_claim)
  show ?thesis
  proof (cases claimed)
    case None
    with c s1 show ?thesis by (auto simp: deliver_output_def)
  next
    case (Some out)
    let ?w2 = "pe_interfere pe 5 (w\<lparr>w_db := d, w_slack := w_slack w @ [output_call out]\<rparr>)"
    have s2: "(job_step ends)\<^sup>*\<^sup>* (w_db w) (w_db ?w2)"
      using step_then [OF s1] fairD [OF assms(1), of "w\<lparr>w_db := d, w_slack := w_slack w @ [output_call out]\<rparr>" 5]
      by simp
    have claim: "claimed_as (w_db ?w2) out"
      using claimed_row c Some claimed_as_later [OF assms(2) _ s2] by blast
    have failed: "(job_step ends)\<^sup>*\<^sup>* (w_db w) d2" if "fail_delivery (pe_svc pe) i e (w_db ?w2) = (d2, b)" for e d2 b
      using s2 step_undelivered [OF that] by (rule rtranclp.rtrancl_into_rtrancl)
    have sent: "(job_step ends)\<^sup>*\<^sup>* (w_db w) d2" if "finish_delivery (pe_svc pe) out ts (w_db ?w2) = Inr d2" for ts d2
      using s2 step_delivered [OF that claim] by (rule rtranclp.rtrancl_into_rtrancl)
    show ?thesis
      using c Some s2
      by (auto simp: deliver_output_def Let_def dest: failed sent split: sum.splits prod.splits)
  qed
qed

lemma recover_schedule:
  "recover_interrupted_jobs env js d = (d', finished) \<Longrightarrow> (job_step ends)\<^sup>*\<^sup>* d d'"
proof (induction env js d arbitrary: d' finished rule: recover_interrupted_jobs.induct)
  case (2 env j js d)
  obtain d1 done1 where r: "recover_job env j d = (d1, done1)" by (cases "recover_job env j d")
  have "(job_step ends)\<^sup>*\<^sup>* d d1"
    using r by (auto simp: recover_job_def step_interrupt split: option.splits if_splits)
  with 2 r show ?case
    by (auto split: prod.splits intro: rtranclp_trans)
qed simp

lemma receive_schedule: "(job_step ends)\<^sup>*\<^sup>* (w_db w) (w_db (fst (receive_event env event w)))"
proof -
  obtain d id' where ins: "insert_event env event (w_db w) = (d, id')"
    by (cases "insert_event env event (w_db w)")
  have s1: "job_step ends (w_db w) d" using step_receive [of ends "w_db w" env event] ins by simp
  have "(job_step ends)\<^sup>*\<^sup>* (w_db w) (mark_queued k d)" for k
    using s1 step_queued by (meson converse_rtranclp_into_rtranclp r_into_rtranclp)
  with s1 show ?thesis
    by (auto simp: receive_event_def ins Let_def split: option.splits sum.splits bool.splits)
qed

lemma process_schedule: "(job_step ends)\<^sup>*\<^sup>* (w_db w) (w_db (fst (process_stored_event env i w)))"
proof (cases "process_txn env (w_db w) i")
  case (Inl e)
  then show ?thesis
    using step_event_failed by (simp add: process_stored_event_def r_into_rtranclp)
next
  case (Inr r)
  obtain d out where r: "r = (d, out)" by (cases r)
  with Inr have "job_step ends (w_db w) d" by (auto intro: step_process)
  with Inr r show ?thesis
    by (cases out) (auto simp: process_stored_event_def split: option.splits sum.splits prod.splits)
qed

lemma recover_pending_schedule:
  "(job_step ends)\<^sup>*\<^sup>* (w_db w) (w_db (fst (recover_pending_work env stalled w)))"
  by (auto simp: recover_pending_work_def Let_def split: prod.splits dest: recover_schedule)

text \<open>Every handler is an interleaving of transactions. When what other workers do between two
  transactions is itself a schedule of steps, the whole effect of receiving an event, processing
  it, executing a run, delivering an output or recovering lost work on the database is a schedule
  of steps, on every path through the handler, failures included. So what holds along schedules
  holds of the handlers, however they interleave.\<close>

theorem handlers_are_schedules:
  assumes "fair pe" and "reachable (w_db w)"
  shows "reachable (w_db (fst (receive_event env event w))) \<and>
     reachable (w_db (fst (process_stored_event env i w))) \<and>
     reachable (w_db (fst (execute_run pe i w))) \<and>
     reachable (w_db (fst (deliver_output pe i w))) \<and>
     reachable (w_db (fst (recover_pending_work env stalled w)))"
  using reachable_step [OF assms(2)] receive_schedule process_schedule recover_pending_schedule
    execute_run_schedule [OF assms(1) runs_end_True]
    deliver_output_schedule [OF assms(1) reachable_consistent [OF assms(2)]]
  by blast

section \<open>A run is always closed\<close>

definition begun :: "db \<Rightarrow> nat \<Rightarrow> bool" where
  "begun d i \<longleftrightarrow> (\<exists>r. get_run d i = Some r \<and> rn_status r \<noteq> Run_queued)"

definition closed :: "db \<Rightarrow> nat \<Rightarrow> bool" where
  "closed d i \<longleftrightarrow> (\<exists>r. get_run d i = Some r \<and> terminal (rn_status r))"

lemma begun_later:
  assumes "begun d i" and "consistent d" and "db_step\<^sup>*\<^sup>* d d'"
  shows "begun d' i"
proof -
  obtain r where r: "get_run d i = Some r" "rn_status r \<noteq> Run_queued"
    using assms(1) by (auto simp: begun_def)
  obtain r' where "get_run d' i = Some r'" "run_move r r'"
    using workers.run_survives [OF assms(3,2) r(1)] by blast
  with r(2) show ?thesis by (auto simp: begun_def run_move_def less_eq_run_status_def)
qed

lemma cancelled_closed:
  assumes "get_run d i = Some r"
  shows "closed (cancel_run env i d) i"
  using assms by (simp add: closed_def cancel_run_def runs.get_upd_same terminal_def)

lemma closed_set_state [simp]: "closed (set_conversation_state k st d) i = closed d i"
  by (simp add: closed_def)

lemma cancel_if_stale_closes:
  assumes "cancel_if_stale env i d = Inr (d', b)" and "begun d i"
  shows "if b then closed d' i else d' = d"
proof -
  obtain r where r: "get_run d i = Some r" "rn_status r \<noteq> Run_queued"
    using assms(2) by (auto simp: begun_def)
  have "closed d i" if "rn_status r \<noteq> Run_running"
    using r that by (cases "rn_status r") (simp_all add: closed_def terminal_def)
  then show ?thesis
    using assms(1) r cancelled_closed [OF r(1)]
    by (cases "rn_status r = Run_running")
      (auto simp: cancel_if_stale_def split: option.splits if_splits)
qed

lemma insert_output_run [simp]: "get_run (fst (insert_output out d)) i = get_run d i"
  by (simp add: insert_output_def row_simps)

lemma complete_run_closes:
  assumes "complete_run env i result body ing latency d = Inr (d', out)" and "begun d i"
  shows "closed d' i"
proof -
  obtain r where r: "get_run d i = Some r" "rn_status r \<noteq> Run_queued"
    using assms(2) by (auto simp: begun_def)
  show ?thesis
  proof (cases "rn_status r = Run_running")
    case False
    with assms(1) r have "d' = d" by (simp add: complete_run_def)
    with r False show ?thesis by (cases "rn_status r") (auto simp: closed_def terminal_def)
  next
    case True
    let ?d1 = "upd_run i (succeeded_run env result body ing latency) d"
    have c1: "get_run ?d1 i = Some (succeeded_run env result body ing latency r)"
      using r(1) by (simp add: runs.get_upd_same)
    have "get_run d' i = get_run ?d1 i"
      using assms(1) r(1) True
      by (auto simp: complete_run_def Let_def split: option.splits if_splits dest!: arg_cong [where f = fst])
    with c1 show ?thesis by (simp add: closed_def terminal_def)
  qed
qed

lemma fail_run_closes:
  assumes "fail_run env i ex d = (d', out)" and "begun d i"
  shows "closed d' i"
proof -
  obtain r where r: "get_run d i = Some r" "rn_status r \<noteq> Run_queued"
    using assms(2) by (auto simp: begun_def)
  show ?thesis
  proof (cases "rn_status r = Run_running")
    case False
    with assms(1) r have "d' = d" by (simp add: fail_run_def)
    with r False show ?thesis by (cases "rn_status r") (auto simp: closed_def terminal_def)
  next
    case True
    let ?d2 = "upd_run i (failed_run env ''runner_error'' (exception_name ex))
      (persist_tool_calls i (failure_calls ex) (upd_run i (failed_meta ex) d))"
    have c1: "get_run ?d2 i = Some (failed_run env ''runner_error'' (exception_name ex) (failed_meta ex r))"
      using r(1) by (simp add: runs.get_upd_same)
    have "get_run d' i = get_run ?d2 i"
      using assms(1) r(1) True
      by (auto simp: fail_run_def Let_def split: option.splits if_splits dest!: arg_cong [where f = fst])
    with c1 show ?thesis by (simp add: closed_def terminal_def)
  qed
qed

lemma finish_attempt_closes:
  assumes "fair pe" and "consistent (w_db w)" and "begun (w_db w) i"
    and "finish_attempt pe i st batch result w = (w', Inr ())"
  shows "closed (w_db w') i"
proof (cases "cancel_if_stale (pe_svc pe) i (w_db w)")
  case (Inl e)
  with assms(4) show ?thesis by (simp add: finish_attempt_def Let_def)
next
  case (Inr p)
  obtain d b where p: "p = (d, b)" by (cases p)
  note stale = cancel_if_stale_closes [OF Inr [unfolded p] assms(3)]
  show ?thesis
  proof (cases b)
    case True
    with assms(4) Inr p stale show ?thesis by (auto simp: finish_attempt_def Let_def)
  next
    case False
    with stale have d: "d = w_db w" by simp
    let ?w1 = "pe_interfere pe 3 (w\<lparr>w_db := d\<rparr>)"
    have "begun (w_db ?w1) i"
      using begun_later [OF assms(3,2)] fairD [OF assms(1), of "w\<lparr>w_db := d\<rparr>" 3] d by simp
    with assms(4) Inr p False show ?thesis
      by (auto simp: finish_attempt_def Let_def dest: complete_run_closes split: sum.splits prod.splits)
  qed
qed

lemma attempt_run_closes:
  assumes "fair pe" and "consistent (w_db w)" and "begun (w_db w) i"
    and "attempt_run pe i st w = (w', Inr ())"
  shows "closed (w_db w') i"
proof -
  obtain batch where batch: "run_images (pe_ingest pe) i (sr_attachments st) (sr_requested st)
      (sr_rejected st) (pe_supports_images pe) = Inr batch"
    using assms(4) by (auto simp: attempt_run_def Let_def split: sum.splits)
  obtain d where d: "record_ingestion i (ib_ingestion batch) (w_db w) = Inr d"
    using assms(4) batch by (auto simp: attempt_run_def Let_def split: sum.splits)
  let ?w1 = "pe_interfere pe 1 (w\<lparr>w_db := d\<rparr>)"
  have s1: "db_step\<^sup>*\<^sup>* (w_db w) (w_db ?w1)"
    using step_then [OF step_ingestion [OF d]] fairD [OF assms(1), of "w\<lparr>w_db := d\<rparr>" 1] by simp
  note b1 = begun_later [OF assms(3,2) s1]
  obtain d1 b where stale: "cancel_if_stale (pe_svc pe) i (w_db ?w1) = Inr (d1, b)"
    using assms(4) batch d by (auto simp: attempt_run_def Let_def split: sum.splits)
  note closes = cancel_if_stale_closes [OF stale b1]
  show ?thesis
  proof (cases b)
    case True
    with assms(4) batch d stale closes show ?thesis by (auto simp: attempt_run_def Let_def)
  next
    case False
    with closes have d1: "d1 = w_db ?w1" by simp
    let ?w2 = "pe_interfere pe 2 (?w1\<lparr>w_db := d1\<rparr>)"
    have s2: "db_step\<^sup>*\<^sup>* (w_db w) (w_db ?w2)"
      using rtranclp_trans [OF s1] fairD [OF assms(1), of "?w1\<lparr>w_db := d1\<rparr>" 2] d1 by simp
    obtain result where "finish_attempt pe i st batch result ?w2 = (w', Inr ())"
      using assms(4) batch d stale False by (auto simp: attempt_run_def Let_def split: sum.splits)
    with finish_attempt_closes [OF assms(1) workers.schedule_evolves(2) [OF s2 assms(2)]
        begun_later [OF assms(3,2) s2]]
    show ?thesis by blast
  qed
qed

lemma handle_failure_closes:
  "begun (w_db w) i \<Longrightarrow> closed (w_db (fst (handle_failure pe i st ex w))) i"
  by (auto simp: handle_failure_def Let_def dest: fail_run_closes split: prod.splits option.splits sum.splits)

lemma begin_run_cases:
  assumes "consistent d" and "get_run d i = Some r" and "rn_status r = Run_queued"
    and "rn_trigger_message_id r \<noteq> None"
  obtains (cancelled) d' where "begin_run env i d = Inr (d', None)" and "closed d' i"
  | (started) d' st where "begin_run env i d = Inr (d', Some st)" and "begun d' i"
proof -
  have mem: "r \<in> set (db_runs d)" using assms(2) by (auto simp: get_run_def dest: row_get_Some)
  obtain conv where conv: "get_conversation d (rn_conversation_id r) = Some conv"
    using assms(1) mem
    by (cases "get_conversation d (rn_conversation_id r)")
      (auto simp: consistent_def invariant_def fk_ok_def get_conversation_def row_get_None_iff)
  obtain trigger where trigger: "trigger_of d r = Some trigger"
    using assms(1,4) mem
    by (cases "trigger_of d r")
      (auto simp: consistent_def invariant_def fk_ok_def trigger_of_def get_message_def row_get_None_iff)
  note cancel = cancelled_closed [OF assms(2)]
  have begun: "begun (upd_run i (\<lambda>r. r\<lparr>rn_status := Run_running, rn_started_at := t,
      rn_input_snapshot := sn\<rparr>) d) i" for t sn
    using assms(2) by (simp add: begun_def runs.get_upd_same)
  show thesis
    using assms(2,3) conv trigger cancel begun cancelled started
    by (cases "cfg_global_mode (se_config env) = Mode_off";
        cases "newer_inbound d (rn_conversation_id r) (ms_event_at trigger)")
      (simp_all add: begin_run_def Let_def)
qed

lemma execute_run_closes:
  assumes "fair pe" and "consistent (w_db w)" and "get_run (w_db w) i = Some r"
    and "rn_status r = Run_queued" and "rn_trigger_message_id r \<noteq> None"
  shows "closed (w_db (fst (execute_run pe i w))) i"
  using assms(2-5)
proof (cases rule: begin_run_cases [where env = "pe_svc pe"])
  case (cancelled d')
  then show ?thesis by (simp add: execute_run_def)
next
  case (started d' st)
  define w2 where "w2 = (if posts_to_slack pe
    then set_status (sr_channel st) (sr_thread_ts st) thinking (w\<lparr>w_db := d'\<rparr>) else w\<lparr>w_db := d'\<rparr>)"
  have w2: "w_db w2 = d'" by (simp add: w2_def)
  have c: "consistent d'"
    using started(1) assms(2) evolves_begin_run by (auto simp: evolves_def)
  let ?w = "pe_interfere pe 0 w2"
  have s: "db_step\<^sup>*\<^sup>* d' (w_db ?w)" using fairD [OF assms(1), of w2 0] w2 by simp
  have c': "consistent (w_db ?w)" using workers.schedule_evolves(2) [OF s c] .
  have b': "begun (w_db ?w) i" using begun_later [OF started(2) c s] .
  obtain w3 res where att: "attempt_run pe i st ?w = (w3, res)"
    by (cases "attempt_run pe i st ?w")
  note s3 = attempt_run_schedule [OF assms(1) att runs_end_True]
  have b4: "begun (w_db (pe_interfere pe 4 w3)) i"
    using begun_later [OF b' c' rtranclp_trans [OF s3 fairD [OF assms(1)]]] .
  show ?thesis
  proof (cases res)
    case (Inl ex)
    with started(1) att handle_failure_closes [OF b4] show ?thesis
      by (simp add: execute_run_def Let_def w2_def)
  next
    case (Inr u)
    with started(1) att attempt_run_closes [OF assms(1) c' b'] show ?thesis
      by (simp add: execute_run_def Let_def w2_def)
  qed
qed

lemma frames [simp]:
  "db_outputs (persist_tool_calls i calls d) = db_outputs d"
  "db_messages (persist_tool_calls i calls d) = db_messages d"
  "db_outputs (set_conversation_state k st d) = db_outputs d"
  "db_messages (set_conversation_state k st d) = db_messages d"
  "db_outputs (upd_run i f d) = db_outputs d"
  "db_messages (upd_run i f d) = db_messages d"
proof -
  have "db_outputs (foldl (\<lambda>d call. persist_tool_call i call d) d calls) = db_outputs d \<and>
      db_messages (foldl (\<lambda>d call. persist_tool_call i call d) d calls) = db_messages d"
  proof (induction calls arbitrary: d)
    case (Cons c cs)
    then show ?case by (simp add: persist_tool_call_def add_tool_call_def)
  qed simp
  then show "db_outputs (persist_tool_calls i calls d) = db_outputs d"
      "db_messages (persist_tool_calls i calls d) = db_messages d"
    by (simp_all add: persist_tool_calls_def)
qed (simp_all add: set_conversation_state_def table_defs)

lemma run_output_fields [simp]:
  "so_run_id (run_output env n c i body kind) = Some i"
  "so_body (run_output env n c i body kind) = body"
  "so_kind (run_output env n c i body kind) = kind"
  "so_status (run_output env n c i body kind) = Out_pending"
  "so_channel (run_output env n c i body kind) = cv_channel c"
  "so_thread_ts (run_output env n c i body kind) = cv_thread_ts c"
  "so_idempotency_key (run_output env n c i body kind) = run_output_key i kind"
  "so_id (run_output env n c i body kind) = n"
  "so_message_ts (run_output env n c i body kind) = None"
  "so_conversation_id (run_output env n c i body kind) = cv_id c"
  by (simp_all add: run_output_def pending_output_def)

section \<open>Example values\<close>

definition mentioned_world :: world where
  "mentioned_world = fst (process_stored_event example_env 0 received_world)"

definition hello_result :: runner_result where
  "hello_result = General_result \<lparr>ga_answer = ''Hola.'', ga_route_correction = None\<rparr> default_meta"

definition example_pe :: pipeline_env where
  "example_pe = \<lparr>pe_svc = example_env, pe_supports_images = False,
     pe_ingest = (\<lambda>_ _ _ _. Inl ''RuntimeError''), pe_run = (\<lambda>_. Inr hello_result),
     pe_latency = 5, pe_post = (\<lambda>_. Inr (JObj [(''ts'', JStr ''9.9'')])),
     pe_interfere = (\<lambda>_ w. w)\<rparr>"

definition mentioned_run :: run_row where
  "mentioned_run = queued_run example_env 3 1 2"

definition mentioned_conversation :: conversation_row where
  "mentioned_conversation = \<lparr>cv_id = 1, cv_channel = ''C1'', cv_thread_ts = ''1.0'',
     cv_requester = ''U1'', cv_state = Conv_running, cv_latest_question = Some ''pago de 100''\<rparr>"

definition mentioned_message :: message_row where
  "mentioned_message = inbound_row example_env 2 1 example_mention 3"

lemma mentioned_world_db:
  "w_db mentioned_world = \<lparr>db_next_id = 4,
     db_events = [(new_event_row example_env 0 example_event)\<lparr>ev_disposition := Ev_processed,
       ev_processed_at := Some 100\<rparr>],
     db_conversations = [mentioned_conversation], db_messages = [mentioned_message],
     db_runs = [mentioned_run], db_tool_calls = [], db_outputs = [], db_feedback = []\<rparr>"
  by (simp add: mentioned_world_def process_stored_event_def process_txn_def received_event
      new_event_row_def example_defs process_message_def upsert_conversation_def store_trigger_def
      event_time_def Let_def find_conversation_def received_world_db empty_db_def table_defs
      finish_event_def row_upd_def queued_run_def inbound_row_def py_str_def
      enqueue_defs enqueue_def plain_defer_def mentioned_conversation_def mentioned_message_def
      mentioned_run_def received_world_jobs slack_event_job_def agent_run_job_def)

lemma mentioned_reachable: "reachable (w_db mentioned_world)"
proof -
  have "reachable (w_db empty_world)" by (simp add: reachable_def empty_world_def)
  then have "reachable (w_db received_world)"
    unfolding received_world_def using receive_schedule by (rule reachable_step)
  then show ?thesis
    unfolding mentioned_world_def using process_schedule by (rule reachable_step)
qed

lemma example_pe_fair: "fair example_pe"
  by (simp add: fair_for_def example_pe_def)

lemma mentioned_get [simp]:
  "get_run (w_db mentioned_world) 3 = Some mentioned_run"
  "get_conversation (w_db mentioned_world) 1 = Some mentioned_conversation"
  "get_message (w_db mentioned_world) 2 = Some mentioned_message"
  by (simp_all add: mentioned_world_db table_defs mentioned_run_def mentioned_conversation_def
      mentioned_message_def)

lemma handlers_are_schedules_witness:
  "reachable (w_db (fst (execute_run example_pe 3 mentioned_world))) \<and>
   reachable (w_db (fst (deliver_output example_pe 4 mentioned_world)))"
  using handlers_are_schedules [OF example_pe_fair mentioned_reachable] by blast

section \<open>Properties of every schedule\<close>



definition interrupted_db :: db where
  "interrupted_db = (case begin_run example_env 3 (w_db mentioned_world) of
       Inr (d, _) \<Rightarrow> interrupt_run example_env 3 d | Inl _ \<Rightarrow> empty_db)"

lemma mentioned_begins: "\<exists>st. begin_run example_env 3 (w_db mentioned_world) =
    Inr (upd_run 3 (\<lambda>r. r\<lparr>rn_status := Run_running, rn_started_at := Some 100,
      rn_input_snapshot := Some (first_snapshot st)\<rparr>) (w_db mentioned_world), Some st)"
  using mentioned_get
  by (simp add: begin_run_def mentioned_run_def trigger_of_def Let_def example_env_def newer_inbound_def
      mentioned_world_db)

lemma interrupted_reachable: "reachable interrupted_db"
proof -
  obtain d st where b: "begin_run example_env 3 (w_db mentioned_world) = Inr (d, Some st)"
    using mentioned_begins by blast
  then have "db_step\<^sup>*\<^sup>* (w_db mentioned_world) interrupted_db"
    using step_begin [OF b, of "\<lambda>_. True"] step_interrupt [of "\<lambda>_. True" d example_env 3]
    by (simp add: interrupted_db_def)
  with mentioned_reachable show ?thesis by (rule reachable_step)
qed

lemma interrupted_facts:
  "\<exists>r out. get_run interrupted_db 3 = Some r \<and> rn_status r = Run_failed \<and>
     db_outputs interrupted_db = [out] \<and> so_run_id out = Some 3 \<and> so_kind out = Kind_error"
proof -
  obtain d st where b: "begin_run example_env 3 (w_db mentioned_world) = Inr (d, Some st)"
    and d: "d = upd_run 3 (\<lambda>r. r\<lparr>rn_status := Run_running, rn_started_at := Some 100,
      rn_input_snapshot := Some (first_snapshot st)\<rparr>) (w_db mentioned_world)"
    using mentioned_begins by blast
  let ?r = "mentioned_run\<lparr>rn_status := Run_running, rn_started_at := Some 100,
      rn_input_snapshot := Some (first_snapshot st)\<rparr>"
  have run: "get_run d 3 = Some ?r"
    using mentioned_get(1) by (simp add: d runs.get_upd_same)
  have conv: "get_conversation d (rn_conversation_id ?r) = Some mentioned_conversation"
    using mentioned_get(2) by (simp add: d mentioned_run_def)
  have none: "db_outputs d = []" by (simp add: d upd_run_def mentioned_world_db)
  have mode: "cfg_global_mode (se_config example_env) = Mode_enabled"
    by (simp add: example_env_def)
  have eq: "interrupted_db = interrupt_run example_env 3 d"
    using b by (simp add: interrupted_db_def)
  show ?thesis
    unfolding eq using run conv none mode
    by (simp add: interrupt_run_def Let_def insert_output_def row_simps runs.get_upd_same)
qed

text \<open>C10: a finished run is never touched again. Once a run has succeeded, failed or been cancelled,
  no later transaction of any handler, in any order, changes its status, kind, result, answer or
  finishing time, and the run never disappears.\<close>

theorem finished_run_never_changes:
  assumes "reachable d" and "db_step\<^sup>*\<^sup>* d d'" and "get_run d i = Some r"
    and "terminal (rn_status r)"
  shows "\<exists>r'. get_run d' i = Some r' \<and> rn_status r' = rn_status r \<and>
    rn_request_kind r' = rn_request_kind r \<and> rn_structured_result r' = rn_structured_result r \<and>
    rn_output_message r' = rn_output_message r \<and> rn_finished_at r' = rn_finished_at r"
  by (rule workers.finished_run_fixed [OF assms(2) reachable_consistent [OF assms(1)] assms(3,4)])

lemma finished_run_never_changes_witness:
  "\<exists>r'. get_run (fst (claim_output example_env 4 interrupted_db)) 3 = Some r' \<and> rn_status r' = Run_failed"
proof -
  obtain r where r: "get_run interrupted_db 3 = Some r" "rn_status r = Run_failed"
    using interrupted_facts by blast
  have step: "db_step\<^sup>*\<^sup>* interrupted_db (fst (claim_output example_env 4 interrupted_db))"
    by (rule r_into_rtranclp, rule step_claim [of example_env 4 _ _ "snd (claim_output example_env 4 interrupted_db)"])
      simp
  have "terminal (rn_status r)" using r(2) by (simp add: terminal_def)
  from finished_run_never_changes [OF interrupted_reachable step r(1) this] r(2) show ?thesis by auto
qed

text \<open>C1: one answer per run. In every reachable database at most one output, feedback flavor aside,
  refers to a run: retries, concurrent workers and recovery never produce a second answer or an
  answer beside an error message.\<close>

theorem one_answer_per_run:
  assumes "reachable d" and "a \<in> set (db_outputs d)" and "b \<in> set (db_outputs d)"
    and "so_run_id a = Some i" and "so_run_id b = Some i"
    and "so_kind a \<noteq> Kind_feedback_flavor" and "so_kind b \<noteq> Kind_feedback_flavor"
  shows "a = b"
  by (rule workers.one_answer [OF assms(1) [unfolded reachable_def] consistent_empty assms(2-7)])

lemma one_answer_per_run_witness:
  "\<exists>out. db_outputs interrupted_db = [out] \<and> (\<forall>a \<in> set (db_outputs interrupted_db). a = out)"
proof -
  obtain out where out: "db_outputs interrupted_db = [out]" "so_run_id out = Some 3" "so_kind out = Kind_error"
    using interrupted_facts by blast
  have "a = out" if "a \<in> set (db_outputs interrupted_db)" for a
    using that out by (intro one_answer_per_run [OF interrupted_reachable, of a out 3]) simp_all
  with out show ?thesis by blast
qed



section \<open>The handler's normal path\<close>

lemma newer_inbound_frame [simp]:
  "newer_inbound (upd_run k f d) c t = newer_inbound d c t"
  "newer_inbound (upd_conversation k fc d) c t = newer_inbound d c t"
  by (simp_all add: newer_inbound_def table_defs)

lemma trigger_of_frame [simp]: "trigger_of (upd_run k f d) r = trigger_of d r"
  by (simp add: trigger_of_def table_defs split: option.splits)

lemma trigger_of_upd: "rn_trigger_message_id r' = rn_trigger_message_id r \<Longrightarrow> trigger_of d r' = trigger_of d r"
  by (simp add: trigger_of_def)

lemma complete_run_answers:
  assumes "get_run d i = Some r" and "rn_status r = Run_running"
    and "get_conversation d (rn_conversation_id r) = Some c"
    and "cfg_global_mode (se_config env) = Mode_enabled"
    and "run_output_key i (answer_kind result) \<notin> so_idempotency_key ` set (db_outputs d)"
  shows "\<exists>d' n. complete_run env i result body ing latency d = Inr (d', Some n) \<and>
    get_run d' i = Some (succeeded_run env result body ing latency r) \<and>
    db_messages d' = db_messages d \<and>
    db_outputs d' = db_outputs d @ [run_output env n c i body (answer_kind result)]"
proof -
  let ?d3 = "persist_tool_calls i (rm_tool_calls (result_meta result))
      (set_conversation_state (cv_id c) Conv_answered
        (upd_run i (succeeded_run env result body ing latency) d))"
  let ?out = "run_output env (db_next_id ?d3) c i body (answer_kind result)"
  have "so_idempotency_key ?out \<notin> so_idempotency_key ` set (db_outputs ?d3)"
    using assms(5) by simp
  then have "insert_output ?out ?d3 = (add_output ?out ?d3, Some (db_next_id ?d3))"
    by (simp add: insert_output_def run_output_def)
  with assms(1-4) show ?thesis
    by (simp add: complete_run_def Let_def row_simps runs.get_upd_same)
qed

lemma cancel_if_stale_fresh:
  assumes "get_run d i = Some r" and "rn_status r = Run_running" and "trigger_of d r = Some m"
    and "\<not> newer_inbound d (rn_conversation_id r) (ms_event_at m)"
    and "cfg_global_mode (se_config env) \<noteq> Mode_off"
  shows "cancel_if_stale env i d = Inr (d, False)"
  using assms by (simp add: cancel_if_stale_def)

lemma run_answered:
  assumes "get_run (w_db w) i = Some r" and "rn_status r = Run_queued"
    and "get_conversation (w_db w) (rn_conversation_id r) = Some c"
    and "trigger_of (w_db w) r = Some m"
    and "\<not> newer_inbound (w_db w) (rn_conversation_id r) (ms_event_at m)"
    and "cfg_global_mode (se_config (pe_svc pe)) = Mode_enabled"
    and "\<And>k x. pe_interfere pe k x = x"
    and "st = run_start_of (w_db w) c m"
    and "run_images (pe_ingest pe) i (sr_attachments st) (sr_requested st) (sr_rejected st)
           (pe_supports_images pe) = Inr batch"
    and "run_agent pe (runner_input i st batch) = Inr result"
    and "answer = append_image_limitation result (ib_ingestion batch)"
    and "body = render_response (se_config (pe_svc pe)) answer (Some (ib_ingestion batch))"
    and "run_output_key i (answer_kind answer) \<notin> so_idempotency_key ` set (db_outputs (w_db w))"
  shows "\<exists>w' r' out. execute_run pe i w = (w', Inr ()) \<and>
     get_run (w_db w') i = Some r' \<and> rn_status r' = Run_succeeded \<and>
     rn_output_message r' = Some body \<and> rn_structured_result r' = Some (structured_of answer) \<and>
     rn_request_kind r' = result_kind answer \<and>
     rn_trigger_message_id r' = rn_trigger_message_id r \<and> rn_conversation_id r' = rn_conversation_id r \<and>
     db_messages (w_db w') = db_messages (w_db w) \<and> db_outputs (w_db w') = db_outputs (w_db w) @ [out] \<and>
     so_run_id out = Some i \<and> so_body out = body \<and> so_kind out = answer_kind answer \<and>
     so_status out = Out_pending \<and> so_message_ts out = None \<and> so_conversation_id out = cv_id c \<and>
     so_channel out = cv_channel c \<and> so_thread_ts out = cv_thread_ts c \<and>
     w_slack w' = w_slack w @ [Set_status (cv_channel c) (cv_thread_ts c) thinking] \<and>
     (se_dq (pe_svc pe) (slack_output_job (so_id out)) (w_jobs w) = Deferred \<longrightarrow>
        w_jobs w' = w_jobs w @ [slack_output_job (so_id out)])"
proof -
  let ?env = "pe_svc pe" and ?ing = "ib_ingestion batch" and ?d = "w_db w"
  define start where "start = (\<lambda>r :: run_row. r\<lparr>rn_status := Run_running,
      rn_started_at := Some (se_now ?env), rn_input_snapshot := Some (first_snapshot st)\<rparr>)"
  define note_ing where "note_ing = (\<lambda>r :: run_row. r\<lparr>rn_input_snapshot :=
      (case rn_input_snapshot r of
         Some sn \<Rightarrow> Some (sn\<lparr>sn_image_ingestion := ?ing\<rparr>)
       | None \<Rightarrow> Some \<lparr>sn_messages = [], sn_image_ingestion = ?ing\<rparr>)\<rparr>)"
  let ?d1 = "upd_run i start ?d"
  let ?d2 = "upd_run i note_ing ?d1"
  have begin_eq: "begin_run ?env i ?d = Inr (?d1, Some st)"
    using assms(1-6,8) by (simp add: begin_run_def Let_def start_def)
  have run1: "get_run ?d1 i = Some (start r)"
    using assms(1) by (simp add: runs.get_upd_same start_def)
  have record_eq: "record_ingestion i ?ing ?d1 = Inr ?d2"
    using run1 by (simp add: record_ingestion_def note_ing_def)
  let ?r2 = "note_ing (start r)"
  have run2: "get_run ?d2 i = Some ?r2"
    using run1 by (simp add: runs.get_upd_same note_ing_def)
  have r2: "rn_status ?r2 = Run_running" "rn_conversation_id ?r2 = rn_conversation_id r"
      "rn_trigger_message_id ?r2 = rn_trigger_message_id r"
    by (simp_all add: note_ing_def start_def)
  have stale_eq: "cancel_if_stale ?env i ?d2 = Inr (?d2, False)"
    using run2 r2(1) by (rule cancel_if_stale_fresh)
      (use assms(4-6) r2 trigger_of_upd [OF r2(3)] in simp_all)
  have conv2: "get_conversation ?d2 (rn_conversation_id ?r2) = Some c"
    using assms(3) r2(2) by simp
  have key2: "run_output_key i (answer_kind answer) \<notin> so_idempotency_key ` set (db_outputs ?d2)"
    using assms(13) by simp
  obtain d' n where complete_eq: "complete_run ?env i answer body ?ing (pe_latency pe) ?d2 = Inr (d', Some n)"
    and run': "get_run d' i = Some (succeeded_run ?env answer body ?ing (pe_latency pe) ?r2)"
    and messages': "db_messages d' = db_messages ?d"
    and out': "db_outputs d' = db_outputs ?d @ [run_output ?env n c i body (answer_kind answer)]"
    using complete_run_answers [OF run2 r2(1) conv2 assms(6) key2, of body ?ing "pe_latency pe"] by auto
  have "\<exists>w'. execute_run pe i w = (w', Inr ()) \<and> w_db w' = d' \<and>
      w_slack w' = w_slack w @ [Set_status (cv_channel c) (cv_thread_ts c) thinking] \<and>
      (se_dq ?env (slack_output_job n) (w_jobs w) = Deferred \<longrightarrow> w_jobs w' = w_jobs w @ [slack_output_job n])"
    using begin_eq record_eq stale_eq complete_eq assms(6,8-12)
    by (simp add: execute_run_def attempt_run_def finish_attempt_def assms(7) Let_def
        set_status_def posts_to_slack_def submit_output_def run_start_of_def enqueue_defs enqueue_def
        split: defer_outcome.splits)
  with run' out' messages' show ?thesis
    by (auto simp: succeeded_run_def note_ing_def start_def Let_def)
qed

text \<open>A queued run is answered. With the gate open, no newer inbound message and nobody
  interfering, when the images and the runner deliver a result, the handler returns without an
  exception, the run has succeeded with that result (the image limitation appended), and exactly
  one output is added: pending, in the run's thread, of the kind of the result, with the rendered
  text as its body.\<close>

theorem queued_run_is_answered:
  assumes "get_run (w_db w) i = Some r" and "rn_status r = Run_queued"
    and "get_conversation (w_db w) (rn_conversation_id r) = Some c"
    and "trigger_of (w_db w) r = Some m"
    and "\<not> newer_inbound (w_db w) (rn_conversation_id r) (ms_event_at m)"
    and "cfg_global_mode (se_config (pe_svc pe)) = Mode_enabled"
    and "\<And>k x. pe_interfere pe k x = x"
    and "st = run_start_of (w_db w) c m"
    and "run_images (pe_ingest pe) i (sr_attachments st) (sr_requested st) (sr_rejected st)
           (pe_supports_images pe) = Inr batch"
    and "run_agent pe (runner_input i st batch) = Inr result"
    and "answer = append_image_limitation result (ib_ingestion batch)"
    and "body = render_response (se_config (pe_svc pe)) answer (Some (ib_ingestion batch))"
    and "run_output_key i (answer_kind answer) \<notin> so_idempotency_key ` set (db_outputs (w_db w))"
  shows "\<exists>w' r' out. execute_run pe i w = (w', Inr ()) \<and>
     get_run (w_db w') i = Some r' \<and> rn_status r' = Run_succeeded \<and>
     rn_output_message r' = Some body \<and> rn_structured_result r' = Some (structured_of answer) \<and>
     rn_request_kind r' = result_kind answer \<and>
     db_outputs (w_db w') = db_outputs (w_db w) @ [out] \<and> so_run_id out = Some i \<and>
     so_body out = body \<and> so_kind out = answer_kind answer \<and> so_status out = Out_pending \<and>
     so_channel out = cv_channel c \<and> so_thread_ts out = cv_thread_ts c"
  using run_answered [OF assms] by blast

lemma queued_run_is_answered_witness:
  "\<exists>w' r' out. execute_run example_pe 3 mentioned_world = (w', Inr ()) \<and>
     get_run (w_db w') 3 = Some r' \<and> rn_status r' = Run_succeeded \<and>
     db_outputs (w_db w') = [out] \<and> so_body out = ''Hola.'' \<and> so_channel out = ''C1''"
proof -
  let ?st = "run_start_of (w_db mentioned_world) mentioned_conversation mentioned_message"
  let ?batch = "\<lparr>ib_paths = [], ib_ingestion = \<lparr>ing_requested = 0, ing_metadata_accepted = 0,
      ing_downloaded = 0, ing_rejected = 0, ing_failure_categories = []\<rparr>\<rparr>"
  have run: "rn_status mentioned_run = Run_queued"
      "get_conversation (w_db mentioned_world) (rn_conversation_id mentioned_run) = Some mentioned_conversation"
      "trigger_of (w_db mentioned_world) mentioned_run = Some mentioned_message"
    using mentioned_get(2) by (simp_all add: mentioned_run_def trigger_of_def)
  have time: "\<not> newer_inbound (w_db mentioned_world) (rn_conversation_id mentioned_run)
      (ms_event_at mentioned_message)"
    by (simp add: newer_inbound_def mentioned_world_db)
  have mode: "cfg_global_mode (se_config (pe_svc example_pe)) = Mode_enabled"
    by (simp add: example_pe_def example_env_def)
  have quiet: "pe_interfere example_pe k x = x" for k x
    by (simp add: example_pe_def)
  have atts: "attachments (ms_file_metadata mentioned_message) = []"
      "stored_summary mentioned_message = (0, 0)"
    by (simp_all add: mentioned_message_def inbound_row_def example_mention_def attachments_def
        stored_summary_def summary_json_def)
  have images: "run_images (pe_ingest example_pe) 3 (sr_attachments ?st) (sr_requested ?st)
      (sr_rejected ?st) (pe_supports_images example_pe) = Inr ?batch"
    by (simp add: run_images_def run_start_of_def atts)
  have agent: "run_agent example_pe (runner_input 3 ?st ?batch) = Inr hello_result"
    by (simp add: run_agent_def has_usable_evidence_def runner_input_def run_start_of_def
        stored_messages_def by_time_def mentioned_world_db transcript_limit_def transcript_of_def
        usable_text_def mentioned_message_def inbound_row_def Let_def example_mention_def
        mentioned_conversation_def str_strip_def str_lstrip_def str_rstrip_def text_simps example_pe_def)
  have limit: "append_image_limitation hello_result (ib_ingestion ?batch) = hello_result"
    by (simp add: append_image_limitation_def unprocessed_def)
  have body: "render_response (se_config (pe_svc example_pe)) hello_result (Some (ib_ingestion ?batch)) = ''Hola.''"
    by (simp add: hello_result_def render_general_answer_def unprocessed_def limit_complete_answer_def
        finish_ellipsis_def str_strip_def str_lstrip_def str_rstrip_def text_simps ends_with_def
        str_split_def Let_def example_pe_def example_env_def default_config_def)
  have key: "run_output_key 3 (answer_kind hello_result) \<notin> so_idempotency_key ` set (db_outputs (w_db mentioned_world))"
    by (simp add: mentioned_world_db)
  from queued_run_is_answered [OF mentioned_get(1) run time mode quiet refl images agent
      limit [symmetric] body [symmetric] key]
  show ?thesis by (simp add: mentioned_world_db) (metis mentioned_conversation_def conversation_row.select_convs(2))
qed

end
