(* ===== verification/Delivery.thy ===== *)
theory Delivery
  imports Lifecycle
begin

text \<open>
  What the delivery of an output and the periodic recovery promise: nothing disabled or superseded
  is posted, a posted output is recorded once with its message, a failing delivery gives up after
  the configured number of attempts, and recovery resubmits exactly the work that is still pending
  and closes the runs of dead workers.
\<close>

section \<open>Claiming\<close>

lemma claim_output_None:
  assumes "claim_output env i d = (d', None)" and "get_output d i = Some out"
  shows "\<exists>out'. get_output d' i = Some out' \<and> so_status out' \<noteq> Out_pending"
  using assms
  by (auto simp: claim_output_def outputs.get_upd_same cancel_output_def split: if_splits)


section \<open>A successful delivery\<close>

text \<open>A posted output is recorded once. When Slack accepts the message with a fresh timestamp
  and nobody interferes, delivering a pending, current output makes exactly one call, with the
  output's own id as client message id, marks the output sent with that timestamp and one more
  attempt, and appends exactly one outbound message with its body to the conversation; delivering
  it again makes no further call.\<close>

theorem posted_output_is_recorded:
  assumes "get_output (w_db w) i = Some out" and "so_status out = Out_pending"
    and "cfg_global_mode (se_config (pe_svc pe)) = Mode_enabled" and "\<not> output_stale (w_db w) out"
    and "\<And>k x. pe_interfere pe k x = x"
    and "pe_post pe (output_call out) = Inr response" and "jget ''ts'' response = JStr ts"
    and "\<forall>x \<in> set (db_outputs (w_db w)). so_message_ts x \<noteq> Some ts"
    and "(so_channel out, ts) \<notin> (\<lambda>m. (ms_channel m, ms_message_ts m)) ` set (db_messages (w_db w))"
  shows "\<exists>w' out' m. deliver_output pe i w = (w', Inr ()) \<and>
     w_slack w' = w_slack w @ [Post_message (so_channel out) (so_thread_ts out) (so_body out) (show_nat i)] \<and>
     get_output (w_db w') i = Some out' \<and> so_status out' = Out_sent \<and>
     so_message_ts out' = Some ts \<and> so_attempts out' = so_attempts out + 1 \<and>
     db_messages (w_db w') = db_messages (w_db w) @ [m] \<and> ms_direction m = ''outbound'' \<and>
     ms_text m = Some (so_body out) \<and> ms_conversation_id m = so_conversation_id out \<and>
     ms_message_ts m = ts \<and> w_slack (fst (deliver_output pe i w')) = w_slack w'"
proof -
  let ?env = "pe_svc pe"
  let ?claim = "\<lambda>r :: output_row. r\<lparr>so_attempts := so_attempts r + 1, so_updated_at := se_now ?env\<rparr>"
  let ?d1 = "upd_output i ?claim (w_db w)"
  have id: "so_id out = i" using assms(1) by (rule outputs.get_key)
  have claim: "claim_output ?env i (w_db w) = (?d1, Some out)"
    using assms(1-4) by (simp add: claim_output_def)
  have post: "gateway_post pe (output_call out) = Inr ts"
    using assms(6,7) by (simp add: gateway_post_def)
  have out1: "get_output ?d1 i = Some (?claim out)"
    using assms(1) by (simp add: outputs.get_upd_same)
  have fresh: "\<not> (\<exists>x \<in> set (db_outputs ?d1). so_id x \<noteq> i \<and> so_message_ts x = Some ts)"
    using assms(8) by (auto simp: upd_output_def dest!: set_row_upd split: if_splits)
  let ?d2 = "upd_output i (sent_output ?env ts) ?d1"
  let ?m = "outbound_row ?env (db_next_id ?d2) out ts"
  have msgs: "db_messages ?d2 = db_messages (w_db w)" by (simp add: upd_output_def)
  have finish: "finish_delivery ?env out ts ?d1 = Inr (add_message ?m ?d2)"
    using out1 fresh assms(2,9) id msgs
    by (simp add: finish_delivery_def Let_def insert_message_def outbound_row_def)
  have sent: "get_output (add_message ?m ?d2) i = Some (sent_output ?env ts (?claim out))"
  proof -
    have "get_output (add_message ?m ?d2) i = get_output ?d2 i"
      by (simp add: get_output_def add_message_def)
    then show ?thesis
      using assms(1) by (simp add: outputs.get_upd_same sent_output_def)
  qed
  let ?w' = "w\<lparr>w_db := add_message ?m ?d2, w_slack := w_slack w @ [output_call out]\<rparr>"
  have deliver: "deliver_output pe i w = (?w', Inr ())"
    using claim post finish assms(5) by (simp add: deliver_output_def Let_def)
  have again: "w_slack (fst (deliver_output pe i ?w')) = w_slack ?w'"
    using sent by (simp add: deliver_output_def claim_output_def Let_def sent_output_def)
  show ?thesis
    using deliver sent again msgs id
    by (intro exI [of _ ?w'] exI [of _ "sent_output ?env ts (?claim out)"] exI [of _ ?m])
      (simp add: output_call_def row_simps, simp add: sent_output_def outbound_row_def)
qed

section \<open>Giving up\<close>

definition deliver_times :: "pipeline_env \<Rightarrow> nat \<Rightarrow> nat \<Rightarrow> world \<Rightarrow> world" where
  \<comment> \<open>the delivery job run several times in a row, as recovery resubmits it\<close>
  "deliver_times pe i n w = ((\<lambda>w. fst (deliver_output pe i w)) ^^ n) w"

definition posts :: "slack_call list \<Rightarrow> slack_call list" where
  "posts calls = filter (\<lambda>c. case c of Post_message _ _ _ _ \<Rightarrow> True | _ \<Rightarrow> False) calls"

lemma output_stale_frame [simp]: "output_stale (upd_output j f d) out = output_stale d out"
proof -
  have "trigger_of (upd_output j f d) r = trigger_of d r" for r
    by (simp add: trigger_of_def table_defs split: option.splits)
  moreover have "newer_inbound (upd_output j f d) c t = newer_inbound d c t" for c t
    by (simp add: newer_inbound_def table_defs)
  ultimately show ?thesis by (simp add: output_stale_def row_simps split: option.splits)
qed

lemma output_stale_same:
  "so_kind b = so_kind a \<Longrightarrow> so_run_id b = so_run_id a \<Longrightarrow> so_conversation_id b = so_conversation_id a \<Longrightarrow>
   output_stale d b = output_stale d a"
  by (simp add: output_stale_def split: option.splits)

lemma failing_delivery:
  assumes "get_output (w_db w) i = Some out" and "so_status out = Out_pending"
    and "cfg_global_mode (se_config (pe_svc pe)) = Mode_enabled" and "\<not> output_stale (w_db w) out"
    and "\<And>k x. pe_interfere pe k x = x" and "\<And>c. pe_post pe c = Inl e"
  shows "\<exists>out'. get_output (w_db (fst (deliver_output pe i w))) i = Some out' \<and>
     so_attempts out' = so_attempts out + 1 \<and> so_last_error out' = Some e \<and>
     so_status out' = (if slack_delivery_max_attempts (se_config (pe_svc pe)) \<le> so_attempts out + 1
       then Out_failed else Out_pending) \<and>
     \<not> output_stale (w_db (fst (deliver_output pe i w))) out' \<and>
     length (posts (w_slack (fst (deliver_output pe i w)))) = length (posts (w_slack w)) + 1"
proof -
  let ?env = "pe_svc pe"
  let ?claim = "\<lambda>r :: output_row. r\<lparr>so_attempts := so_attempts r + 1, so_updated_at := se_now ?env\<rparr>"
  define d1 where "d1 = upd_output i ?claim (w_db w)"
  let ?perm = "slack_delivery_max_attempts (se_config ?env) \<le> so_attempts out + 1"
  let ?fail = "\<lambda>r :: output_row. r\<lparr>so_last_error := Some e, so_updated_at := se_now ?env,
      so_status := (if ?perm then Out_failed else so_status r)\<rparr>"
  have claim: "claim_output ?env i (w_db w) = (d1, Some out)"
    using assms(1-4) by (simp add: claim_output_def d1_def)
  have out1: "get_output d1 i = Some (?claim out)"
    using assms(1) by (simp add: outputs.get_upd_same d1_def)
  have fail: "fail_delivery ?env i e d1 = (upd_output i ?fail d1, ?perm)"
    using out1 by (simp add: fail_delivery_def Let_def)
  have out2: "get_output (upd_output i ?fail d1) i = Some (?fail (?claim out))"
    using out1 by (simp add: outputs.get_upd_same)
  have post: "gateway_post pe c = Inl e" for c
    by (simp add: gateway_post_def assms(6))
  have db: "w_db (fst (deliver_output pe i w)) = upd_output i ?fail d1"
    using claim fail post assms(5) by (simp add: deliver_output_def Let_def)
  have slack: "posts (w_slack (fst (deliver_output pe i w))) = posts (w_slack w) @ [output_call out]"
    using claim fail post assms(5)
    by (simp add: deliver_output_def Let_def posts_def output_call_def clear_status_def set_status_def)
  have stale: "\<not> output_stale (w_db (fst (deliver_output pe i w))) (?fail (?claim out))"
    using assms(4) output_stale_same [of "?fail (?claim out)" out "w_db w"] by (simp add: db d1_def)
  show ?thesis
    using out2 slack stale assms(2) by (intro exI [of _ "?fail (?claim out)"]) (simp add: db)
qed

text \<open>A failing delivery gives up. With Slack refusing every call, running the delivery job of a
  new pending output as often as the configured maximum leaves the output failed with the last
  error, after exactly that many posts, and no number of further runs posts again.\<close>

theorem delivery_gives_up:
  assumes "get_output (w_db w) i = Some out" and "so_status out = Out_pending" and "so_attempts out = 0"
    and "cfg_global_mode (se_config (pe_svc pe)) = Mode_enabled" and "\<not> output_stale (w_db w) out"
    and "\<And>k x. pe_interfere pe k x = x" and "\<And>c. pe_post pe c = Inl e"
    and "slack_delivery_max_attempts (se_config (pe_svc pe)) = int limit" and "0 < limit"
  shows "\<exists>out'. get_output (w_db (deliver_times pe i (limit + n) w)) i = Some out' \<and>
     so_status out' = Out_failed \<and> so_last_error out' = Some e \<and>
     length (posts (w_slack (deliver_times pe i (limit + n) w))) = length (posts (w_slack w)) + limit"
proof -
  have upto: "\<exists>out'. get_output (w_db (deliver_times pe i k w)) i = Some out' \<and>
      so_attempts out' = int k \<and> \<not> output_stale (w_db (deliver_times pe i k w)) out' \<and>
      (0 < k \<longrightarrow> so_last_error out' = Some e) \<and>
      so_status out' = (if k = limit then Out_failed else Out_pending) \<and>
      length (posts (w_slack (deliver_times pe i k w))) = length (posts (w_slack w)) + k"
    if "k \<le> limit" for k
    using that
  proof (induction k)
    case 0
    with assms show ?case by (simp add: deliver_times_def)
  next
    case (Suc k)
    then obtain o1 where o1: "get_output (w_db (deliver_times pe i k w)) i = Some o1"
        "so_attempts o1 = int k" "\<not> output_stale (w_db (deliver_times pe i k w)) o1"
        "so_status o1 = Out_pending"
        "length (posts (w_slack (deliver_times pe i k w))) = length (posts (w_slack w)) + k"
      by auto
    from failing_delivery [OF o1(1,4) assms(4) o1(3) assms(6,7)] o1(2,5) assms(8) Suc.prems
    show ?case by (auto simp: deliver_times_def)
  qed
  have after: "\<exists>out'. get_output (w_db (deliver_times pe i (limit + n) w)) i = Some out' \<and>
      so_status out' = Out_failed \<and> so_last_error out' = Some e \<and>
      length (posts (w_slack (deliver_times pe i (limit + n) w))) = length (posts (w_slack w)) + limit" for n
  proof (induction n)
    case 0
    from upto [OF order_refl] assms(9) show ?case by auto
  next
    case (Suc n)
    then obtain o1 where o1: "get_output (w_db (deliver_times pe i (limit + n) w)) i = Some o1"
        "so_status o1 = Out_failed" "so_last_error o1 = Some e"
        "length (posts (w_slack (deliver_times pe i (limit + n) w))) = length (posts (w_slack w)) + limit"
      by blast
    then have "deliver_output pe i (deliver_times pe i (limit + n) w) = (deliver_times pe i (limit + n) w, Inr ())"
      by (simp add: deliver_output_def claim_output_def Let_def)
    with o1 show ?case by (simp add: deliver_times_def)
  qed
  show ?thesis by (rule after)
qed

text \<open>The session after a failed post does not look at the status of the row, unlike the one after a post.
  When the job of a slow worker has been released and a second delivery has posted the answer
  meanwhile, the late failure of the first hides it: the row says \<open>failed\<close> beside the timestamp of its
  message in Slack.\<close>

lemma late_failure_hides_delivery:
  assumes "get_output d i = Some out" "so_status out = Out_sent"
    and "slack_delivery_max_attempts (se_config env) \<le> so_attempts out"
  shows "\<exists>out'. get_output (fst (fail_delivery env i e d)) i = Some out' \<and> so_status out' = Out_failed \<and>
    so_message_ts out' = so_message_ts out \<and> so_sent_at out' = so_sent_at out"
  using assms by (simp add: fail_delivery_def Let_def outputs.get_upd_same)

lemma late_success_changes_nothing:
  assumes "get_output d (so_id out) = Some x" "so_status x = Out_sent"
  shows "finish_delivery env out ts d = Inr d"
  using assms by (simp add: finish_delivery_def)

section \<open>Recovery\<close>

lemma enqueue_all_keeps: "enqueue_all dq js jobs = (jobs', r) \<Longrightarrow> set jobs \<subseteq> set jobs'"
proof (induction js arbitrary: jobs)
  case (Cons j js)
  show ?case
  proof (cases "enqueue dq j jobs")
    case (Inl e)
    with Cons.prems show ?thesis by simp
  next
    case (Inr p)
    obtain b jobs1 where p: "p = (b, jobs1)" by (cases p)
    with Inr have "set jobs \<subseteq> set jobs1" using enqueue_keeps_jobs by blast
    moreover have "set jobs1 \<subseteq> set jobs'"
      using Cons Inr p by simp
    ultimately show ?thesis by blast
  qed
qed simp

definition never_loses :: "dq_fn \<Rightarrow> bool" where
  \<comment> \<open>the queue refuses a job only when one with its queueing lock is waiting\<close>
  "never_loses dq \<longleftrightarrow>
     (\<forall>j jobs. dq j jobs = Already_enqueued \<longrightarrow> jb_queueing_lock j \<in> jb_queueing_lock ` set jobs)"

lemma enqueue_present:
  assumes "never_loses dq" and "enqueue dq j jobs = Inr (b, jobs')"
  shows "jb_queueing_lock j \<in> jb_queueing_lock ` set jobs'"
  using assms by (auto simp: enqueue_def never_loses_def split: defer_outcome.splits)

lemma enqueue_all_present:
  assumes "never_loses dq"
  shows "enqueue_all dq js jobs = (jobs', Inr ()) \<Longrightarrow> j \<in> set js \<Longrightarrow>
    jb_queueing_lock j \<in> jb_queueing_lock ` set jobs'"
proof (induction js arbitrary: jobs)
  case (Cons k ks)
  obtain b jobs1 where e: "enqueue dq k jobs = Inr (b, jobs1)"
    using Cons.prems(1) by (auto split: sum.splits)
  with Cons.prems(1) have rest: "enqueue_all dq ks jobs1 = (jobs', Inr ())" by simp
  show ?case
  proof (cases "j = k")
    case True
    with enqueue_present [OF assms e] enqueue_all_keeps [OF rest] show ?thesis by blast
  next
    case False
    with Cons rest show ?thesis by auto
  qed
qed simp

lemma enqueue_all_locks:
  assumes "lock_respecting dq"
  shows "enqueue_all dq js jobs = (jobs', r) \<Longrightarrow> locks_distinct jobs \<Longrightarrow> locks_distinct jobs'"
  using assms
proof (induction dq js jobs arbitrary: jobs' r rule: enqueue_all.induct)
  case (2 dq j js jobs)
  then show ?case
    by (auto split: sum.splits dest: enqueue_locks_distinct)
qed simp

definition not_running :: "db \<Rightarrow> nat \<Rightarrow> bool" where
  "not_running d i \<longleftrightarrow> (\<exists>r. get_run d i = Some r \<and> rn_status r \<noteq> Run_running)"

lemma interrupt_run_run:
  "get_run (interrupt_run env k d) i =
     (if i = k then map_option (\<lambda>r. if rn_status r = Run_running
        then failed_run env ''worker_interrupted'' ''worker_heartbeat_expired'' r else r) (get_run d i)
      else get_run d i)"
proof (cases "get_run d k")
  case None
  then show ?thesis by (auto simp: interrupt_run_def)
next
  case (Some r)
  then show ?thesis
    by (cases "rn_status r = Run_running")
      (simp_all add: interrupt_run_def Let_def runs.get_upd split: option.splits)
qed

lemma interrupt_keeps: "not_running d i \<Longrightarrow> not_running (interrupt_run env k d) i"
  by (auto simp: not_running_def interrupt_run_run)

lemma interrupt_settles: "get_run d i = Some r \<Longrightarrow> not_running (interrupt_run env i d) i"
  by (auto simp: not_running_def interrupt_run_run)

lemma recover_job_db: "fst (recover_job env j d) = d \<or> fst (recover_job env j d) = interrupt_run env (sj_run_id j) d"
  by (simp add: recover_job_def split: option.splits)

lemma recover_Cons:
  "fst (recover_interrupted_jobs env (j # js) d) =
   fst (recover_interrupted_jobs env js (fst (recover_job env j d)))"
  by (simp split: prod.splits)

lemma recover_keeps:
  "not_running d i \<Longrightarrow> not_running (fst (recover_interrupted_jobs env js d)) i"
proof (induction js arbitrary: d)
  case (Cons j js)
  have "not_running (fst (recover_job env j d)) i"
    using recover_job_db [of env j d] Cons.prems interrupt_keeps by metis
  from Cons.IH [OF this] show ?case by (simp only: recover_Cons)
qed simp

lemma recover_settles:
  assumes "j \<in> set js" and "sj_id j \<noteq> None"
    and "sj_task_name j = ''cerebro.jobs.tasks.execute_agent_run''"
  shows "get_run d (sj_run_id j) = Some r \<Longrightarrow> not_running (fst (recover_interrupted_jobs env js d)) (sj_run_id j)"
  using assms(1)
proof (induction js arbitrary: d r)
  case (Cons k ks)
  show ?case
  proof (cases "k = j")
    case True
    then have "fst (recover_job env k d) = interrupt_run env (sj_run_id j) d"
      using assms(2,3) by (auto simp: recover_job_def task_prefix_def starts_with_def)
    with interrupt_settles [OF Cons.prems(1)] recover_keeps show ?thesis
      unfolding recover_Cons by simp
  next
    case False
    have "\<exists>r'. get_run (fst (recover_job env k d)) (sj_run_id j) = Some r'"
      using recover_job_db [of env k d] Cons.prems(1) by (auto simp: interrupt_run_run)
    with Cons False show ?thesis unfolding recover_Cons by auto
  qed
qed simp

text \<open>C31: recovery loses no work. When the queue refuses a job only because one with its lock is
  waiting, a completed recovery leaves a waiting job for every stored event still received or
  queued, every queued run and every pending output; if the queue respects its locks no lock is
  held twice; and no run whose job was found stalled is left running.\<close>

theorem recovery_resubmits_pending:
  assumes "recover_pending_work env stalled w = (w', finished, Inr ())" and "never_loses (se_dq env)"
  shows "(\<forall>e \<in> set (db_events (w_db w')). ev_disposition e \<in> {Ev_received, Ev_queued} \<longrightarrow>
        jb_queueing_lock (slack_event_job (ev_id e)) \<in> jb_queueing_lock ` set (w_jobs w')) \<and>
     (\<forall>r \<in> set (db_runs (w_db w')). rn_status r = Run_queued \<longrightarrow>
        jb_queueing_lock (agent_run_job (rn_id r) (rn_conversation_id r)) \<in> jb_queueing_lock ` set (w_jobs w')) \<and>
     (\<forall>r \<in> set (db_outputs (w_db w')). so_status r = Out_pending \<longrightarrow>
        jb_queueing_lock (slack_output_job (so_id r)) \<in> jb_queueing_lock ` set (w_jobs w')) \<and>
     (lock_respecting (se_dq env) \<and> locks_distinct (w_jobs w) \<longrightarrow> locks_distinct (w_jobs w')) \<and>
     (\<forall>j \<in> set stalled. sj_id j \<noteq> None \<and> sj_task_name j = ''cerebro.jobs.tasks.execute_agent_run'' \<and>
        get_run (w_db w) (sj_run_id j) \<noteq> None \<longrightarrow>
        (\<exists>r'. get_run (w_db w') (sj_run_id j) = Some r' \<and> rn_status r' \<noteq> Run_running))"
proof -
  obtain d fin where rec: "recover_interrupted_jobs env stalled (w_db w) = (d, fin)"
    by (cases "recover_interrupted_jobs env stalled (w_db w)")
  have enq: "enqueue_all (se_dq env) (pending_jobs d) (w_jobs w) = (w_jobs w', Inr ())"
    and db: "w_db w' = d"
    using assms(1) rec by (auto simp: recover_pending_work_def Let_def split: prod.splits)
  note present = enqueue_all_present [OF assms(2) enq]
  have settled: "not_running d (sj_run_id j)"
    if "j \<in> set stalled" "sj_id j \<noteq> None" "sj_task_name j = ''cerebro.jobs.tasks.execute_agent_run''"
      "get_run (w_db w) (sj_run_id j) = Some r" for j r
    using recover_settles [OF that(1-3), of "w_db w" r env] that(4) rec by simp
  have locks: "locks_distinct (w_jobs w')"
    if "lock_respecting (se_dq env)" "locks_distinct (w_jobs w)"
    using enqueue_all_locks [OF that(1) enq that(2)] .
  show ?thesis
    using locks settled
    by (auto simp: db pending_jobs_def not_running_def intro!: present)
qed

section \<open>Witnesses\<close>

definition pending_world :: world where
  "pending_world = \<lparr>w_db = answered_db\<lparr>db_outputs :=
     [pending_output example_env 1 0 None ''C1'' ''1.0'' ''k'' ''hola'' Kind_general_reply]\<rparr>,
     w_jobs = [], w_slack = []\<rparr>"

lemma pending_get: "get_output (w_db pending_world) 1 =
    Some (pending_output example_env 1 0 None ''C1'' ''1.0'' ''k'' ''hola'' Kind_general_reply)"
  by (simp add: pending_world_def table_defs pending_output_def)

lemma pending_not_stale: "\<not> output_stale d (pending_output env i c None ch th k b kind)"
  by (simp add: output_stale_def pending_output_def)


lemma posted_output_is_recorded_witness:
  "\<exists>w' m. deliver_output example_pe 1 pending_world = (w', Inr ()) \<and>
     w_slack w' = [Post_message ''C1'' ''1.0'' ''hola'' ''1''] \<and>
     db_messages (w_db w') = [m] \<and> ms_text m = Some ''hola''"
proof -
  let ?out = "pending_output example_env 1 0 None ''C1'' ''1.0'' ''k'' ''hola'' Kind_general_reply"
  have 1: "cfg_global_mode (se_config (pe_svc example_pe)) = Mode_enabled"
    by (simp add: example_pe_def example_env_def)
  have 2: "pe_interfere example_pe k x = x" for k x by (simp add: example_pe_def)
  have 3: "pe_post example_pe (output_call ?out) = Inr (JObj [(''ts'', JStr ''9.9'')])"
    by (simp add: example_pe_def)
  have 4: "jget ''ts'' (JObj [(''ts'', JStr ''9.9'')]) = JStr ''9.9''" by simp
  have 5: "\<forall>x \<in> set (db_outputs (w_db pending_world)). so_message_ts x \<noteq> Some ''9.9''"
    by (simp add: pending_world_def pending_output_def)
  have 6: "(so_channel ?out, ''9.9'') \<notin> (\<lambda>m. (ms_channel m, ms_message_ts m)) ` set (db_messages (w_db pending_world))"
    by (simp add: pending_world_def answered_db_def empty_db_def)
  have 7: "db_messages (w_db pending_world) = []" "w_slack pending_world = []"
    by (simp_all add: pending_world_def answered_db_def empty_db_def)
  have 8: "so_status ?out = Out_pending" "so_channel ?out = ''C1''" "so_thread_ts ?out = ''1.0''" "so_body ?out = ''hola''"
    by (simp_all add: pending_output_def)
  have 9: "show_nat 1 = ''1''"
    by code_simp
  from posted_output_is_recorded [OF pending_get 8(1) 1 pending_not_stale 2 3 4 5 6] 7 8 9
  show ?thesis by auto
qed

lemma delivery_gives_up_witness:
  "\<exists>out'. get_output (w_db (deliver_times (example_pe\<lparr>pe_post := (\<lambda>_. Inl ''SlackApiError'')\<rparr>) 1 7 pending_world)) 1 =
       Some out' \<and> so_status out' = Out_failed \<and>
     length (posts (w_slack (deliver_times (example_pe\<lparr>pe_post := (\<lambda>_. Inl ''SlackApiError'')\<rparr>) 1 7 pending_world))) = 3"
proof -
  let ?pe = "example_pe\<lparr>pe_post := (\<lambda>_. Inl ''SlackApiError'')\<rparr>"
  have 1: "cfg_global_mode (se_config (pe_svc ?pe)) = Mode_enabled"
    by (simp add: example_pe_def example_env_def)
  have 2: "pe_interfere ?pe k x = x" for k x by (simp add: example_pe_def)
  have 3: "pe_post ?pe c = Inl ''SlackApiError''" for c by simp
  have 4: "slack_delivery_max_attempts (se_config (pe_svc ?pe)) = int 3"
    by (simp add: example_pe_def example_env_def default_config_def)
  have 5: "so_attempts (pending_output example_env 1 0 None ''C1'' ''1.0'' ''k'' ''hola'' Kind_general_reply) = 0"
    by (simp add: pending_output_def)
  have 6: "posts (w_slack pending_world) = []" by (simp add: pending_world_def posts_def)
  have "(0::nat) < 3" by simp
  from delivery_gives_up [OF pending_get _ 5 1 pending_not_stale 2 3 4 this, of 4] 6 show ?thesis
    by auto
qed

lemma plain_defer_never_loses: "never_loses plain_defer"
  by (simp add: never_loses_def plain_defer_def)

lemma recovery_resubmits_pending_witness:
  "\<exists>w'. recover_pending_work example_env [] pending_world = (w', [], Inr ()) \<and>
     jb_queueing_lock (slack_output_job 1) \<in> jb_queueing_lock ` set (w_jobs w')"
proof -
  obtain w' where 1: "recover_pending_work example_env [] pending_world = (w', [], Inr ())"
      and 2: "w_db w' = w_db pending_world"
    by (simp add: recover_pending_work_def pending_jobs_def pending_world_def answered_db_def
        empty_db_def pending_output_def enqueue_def plain_defer_def example_env_def)
  have q: "never_loses (se_dq example_env)"
    using plain_defer_never_loses by (simp add: example_env_def)
  have "jb_queueing_lock (slack_output_job 1) \<in> jb_queueing_lock ` set (w_jobs w')"
    using recovery_resubmits_pending [OF 1 q] 2 by (simp add: pending_world_def pending_output_def)
  with 1 show ?thesis by blast
qed

end
