(* ===== verification/DataTools.thy ===== *)
theory DataTools
  imports Models
begin

text \<open>
  The typed, read-only data boundary of the agent (\<open>agent/data_tools.py\<close>): the nine tool requests
  with the checks of their constructors, the observations the tools return, the summaries of
  inputs and outputs kept in the audit, the data port (\<open>InvestigationData\<close>) as a record of
  operations, and its two in-repository backends, the empty one and the synthetic one.
\<close>

section \<open>Decimal numbers\<close>

text \<open>A finite \<open>decimal.Decimal\<close> is a coefficient and a power of ten; numbers that differ only in
  trailing zeros are equal but print differently. NaN, the infinities and negative zero are left out.\<close>

datatype decimal = Decimal (dec_coeff: int) (dec_exp: int)

definition dec_scaled :: "int \<Rightarrow> decimal \<Rightarrow> int" where
  "dec_scaled k d = dec_coeff d * 10 ^ nat (dec_exp d - k)"

definition dec_eq :: "decimal \<Rightarrow> decimal \<Rightarrow> bool" where
  "dec_eq a b \<longleftrightarrow> (let k = min (dec_exp a) (dec_exp b) in dec_scaled k a = dec_scaled k b)"

definition dec_less :: "decimal \<Rightarrow> decimal \<Rightarrow> bool" where
  "dec_less a b \<longleftrightarrow> (let k = min (dec_exp a) (dec_exp b) in dec_scaled k a < dec_scaled k b)"

definition dec_pos :: "decimal \<Rightarrow> bool" where
  "dec_pos d \<longleftrightarrow> 0 < dec_coeff d"

definition dec_sub :: "decimal \<Rightarrow> decimal \<Rightarrow> decimal" where
  "dec_sub a b = (let k = min (dec_exp a) (dec_exp b) in Decimal (dec_scaled k a - dec_scaled k b) k)"

lemma dec_scaled_shift:
  "k \<le> j \<Longrightarrow> j \<le> dec_exp a \<Longrightarrow> dec_scaled k a = dec_scaled j a * 10 ^ nat (j - k)"
proof -
  assume "k \<le> j" "j \<le> dec_exp a"
  then have "nat (dec_exp a - k) = nat (dec_exp a - j) + nat (j - k)" by simp
  then show ?thesis by (simp add: dec_scaled_def power_add)
qed

lemma dec_eq_at:
  assumes "k \<le> dec_exp a" "k \<le> dec_exp b"
  shows "dec_eq a b \<longleftrightarrow> dec_scaled k a = dec_scaled k b"
proof -
  define j where "j = min (dec_exp a) (dec_exp b)"
  have "k \<le> j" "j \<le> dec_exp a" "j \<le> dec_exp b" using assms by (auto simp: j_def)
  then have "dec_scaled k a = dec_scaled j a * 10 ^ nat (j - k)"
    "dec_scaled k b = dec_scaled j b * 10 ^ nat (j - k)"
    using dec_scaled_shift by blast+
  then show ?thesis by (simp add: dec_eq_def j_def [symmetric])
qed

lemma dec_less_at:
  assumes "k \<le> dec_exp a" "k \<le> dec_exp b"
  shows "dec_less a b \<longleftrightarrow> dec_scaled k a < dec_scaled k b"
proof -
  define j where "j = min (dec_exp a) (dec_exp b)"
  have "k \<le> j" "j \<le> dec_exp a" "j \<le> dec_exp b" using assms by (auto simp: j_def)
  then have "dec_scaled k a = dec_scaled j a * 10 ^ nat (j - k)"
    "dec_scaled k b = dec_scaled j b * 10 ^ nat (j - k)"
    using dec_scaled_shift by blast+
  then show ?thesis by (simp add: dec_less_def j_def [symmetric])
qed

lemma dec_eq_refl [simp]: "dec_eq a a"
  by (simp add: dec_eq_def)

lemma dec_eq_sym: "dec_eq a b \<longleftrightarrow> dec_eq b a"
  by (auto simp: dec_eq_def min.commute Let_def)

lemma dec_eq_trans: "dec_eq a b \<Longrightarrow> dec_eq b c \<Longrightarrow> dec_eq a c"
proof -
  define k where "k = min (dec_exp a) (min (dec_exp b) (dec_exp c))"
  have "k \<le> dec_exp a" "k \<le> dec_exp b" "k \<le> dec_exp c" by (auto simp: k_def)
  then show "dec_eq a b \<Longrightarrow> dec_eq b c \<Longrightarrow> dec_eq a c" by (simp add: dec_eq_at)
qed

lemma dec_trichotomy: "dec_less a b \<or> dec_eq a b \<or> dec_less b a"
  by (auto simp: dec_less_def dec_eq_def Let_def min.commute)

lemma dec_less_not_eq: "dec_less a b \<Longrightarrow> \<not> dec_eq a b"
  by (auto simp: dec_less_def dec_eq_def Let_def)

section \<open>Requests\<close>

datatype knowledge_topic =
  Topic_general_capabilities | Topic_identification_policy | Topic_data_scope | Topic_limitations

fun topic_value :: "knowledge_topic \<Rightarrow> string" where
  "topic_value Topic_general_capabilities = ''general_capabilities''"
| "topic_value Topic_identification_policy = ''identification_policy''"
| "topic_value Topic_data_scope = ''data_scope''"
| "topic_value Topic_limitations = ''limitations''"

record schema_search_query =
  ss_query :: string
  ss_offset :: int
  ss_limit :: int

definition build_schema_search :: "schema_search_query \<Rightarrow> exn_name + schema_search_query" where
  "build_schema_search q =
     (if length (ss_query q) \<le> 200 \<and> within 0 100000 (ss_offset q) \<and> within 1 50 (ss_limit q)
      then Inr q else Inl ''ValidationError'')"

record memory_recall_query =
  mr_query :: string
  mr_limit :: int

definition build_memory_recall :: "memory_recall_query \<Rightarrow> exn_name + memory_recall_query" where
  "build_memory_recall q =
     (if 1 \<le> length (mr_query q) \<and> length (mr_query q) \<le> 500 \<and> within 1 10 (mr_limit q)
      then Inr q else Inl ''ValidationError'')"

definition build_schema_query :: "string list \<Rightarrow> exn_name + string list" where
  "build_schema_query names =
     (if 1 \<le> length names \<and> length names \<le> 8 then Inr names else Inl ''ValidationError'')"

definition max_len :: "nat \<Rightarrow> string option \<Rightarrow> bool" where
  "max_len n v = (case v of None \<Rightarrow> True | Some s \<Rightarrow> length s \<le> n)"

definition truthy :: "string option \<Rightarrow> bool" where
  \<comment> \<open>Python's truth of an optional string\<close>
  "truthy v = (case v of None \<Rightarrow> False | Some s \<Rightarrow> s \<noteq> '''')"

definition amount_ok :: "decimal option \<Rightarrow> bool" where
  "amount_ok v = (case v of None \<Rightarrow> True | Some d \<Rightarrow> dec_pos d)"

definition currency_ok :: "string option \<Rightarrow> bool" where
  "currency_ok v = (case v of None \<Rightarrow> True | Some c \<Rightarrow> c \<in> set [''CLP'', ''USD'', ''CLF''])"

record payment_candidate_query =
  pq_glosa_or_address :: "string option"
  pq_transferor_name :: "string option"
  pq_transferor_rut :: "string option"
  pq_origin_account_number :: "string option"
  pq_email :: "string option"
  pq_phone :: "string option"
  pq_amount :: "decimal option"
  pq_currency :: "string option"
  pq_payment_date :: "string option"

definition identity_fields :: "payment_candidate_query \<Rightarrow> string option list" where
  "identity_fields q = [pq_glosa_or_address q, pq_transferor_name q, pq_transferor_rut q,
     pq_origin_account_number q, pq_email q, pq_phone q]"

definition has_identity :: "payment_candidate_query \<Rightarrow> bool" where
  \<comment> \<open>the \<open>any((...))\<close> over the six identity fields\<close>
  "has_identity q \<longleftrightarrow> list_ex truthy (identity_fields q)"

definition has_signal :: "payment_candidate_query \<Rightarrow> exn_name + payment_candidate_query" where
  "has_signal q =
     (if list_ex (\<lambda>v. v \<noteq> None \<and> v \<noteq> Some '''') (identity_fields q) \<or> pq_amount q \<noteq> None
      then Inr q else Inl ''ValidationError'')"

definition build_payment_query ::
  "payment_candidate_query \<Rightarrow> exn_name + payment_candidate_query" where
  "build_payment_query q =
     (if max_len 500 (pq_glosa_or_address q) \<and> max_len 300 (pq_transferor_name q)
         \<and> max_len 30 (pq_transferor_rut q) \<and> max_len 80 (pq_origin_account_number q)
         \<and> max_len 320 (pq_email q) \<and> max_len 40 (pq_phone q)
         \<and> amount_ok (pq_amount q) \<and> currency_ok (pq_currency q)
      then has_signal q else Inl ''ValidationError'')"

record record_key =
  rk_column :: string
  rk_value :: string

record source_record_query =
  sq_relation :: string
  sq_keys :: "record_key list"

definition record_key_ok :: "record_key \<Rightarrow> bool" where
  "record_key_ok k \<longleftrightarrow> 1 \<le> length (rk_column k) \<and> length (rk_column k) \<le> 128 \<and> length (rk_value k) \<le> 500"

definition source_query_ok :: "source_record_query \<Rightarrow> bool" where
  "source_query_ok q \<longleftrightarrow> 1 \<le> length (sq_relation q) \<and> length (sq_relation q) \<le> 260
     \<and> 1 \<le> length (sq_keys q) \<and> length (sq_keys q) \<le> 8 \<and> list_all record_key_ok (sq_keys q)"

record source_record =
  sr_reference :: string
  sr_record :: source_record_query

record source_link =
  sl_reference :: string
  sl_relationship_path :: "string list"

record verify_candidate_query =
  vc_order_id :: uuid
  vc_account_receivable_id :: "uuid option"
  vc_amount :: "decimal option"
  vc_currency :: "string option"
  vc_transferor_name :: "string option"
  vc_address :: "string option"
  vc_source_links :: "source_link list"

definition build_verify_query :: "verify_candidate_query \<Rightarrow> exn_name + verify_candidate_query" where
  "build_verify_query q =
     (if amount_ok (vc_amount q) \<and> currency_ok (vc_currency q)
         \<and> max_len 300 (vc_transferor_name q) \<and> max_len 500 (vc_address q)
         \<and> length (vc_source_links q) \<le> 4
         \<and> list_all (\<lambda>l. length (sl_relationship_path l) \<le> 8) (vc_source_links q)
      then Inr q else Inl ''ValidationError'')"

record vambe_query =
  vq_order_id :: "uuid option"
  vq_phone :: "string option"
  vq_query :: "string option"
  vq_start_date :: "string option"
  vq_end_date :: "string option"

definition candidate_scoped :: "vambe_query \<Rightarrow> exn_name + vambe_query" where
  "candidate_scoped q =
     (if vq_order_id q = None \<and> \<not> truthy (vq_phone q) then Inl ''ValidationError''
      else if (vq_start_date q = None) \<noteq> (vq_end_date q = None) then Inl ''ValidationError''
      else Inr q)"

definition build_vambe_query :: "vambe_query \<Rightarrow> exn_name + vambe_query" where
  "build_vambe_query q =
     (if max_len 40 (vq_phone q) \<and> max_len 300 (vq_query q)
      then candidate_scoped q else Inl ''ValidationError'')"

record readonly_sql_query =
  rq_query :: string
  rq_offset :: int
  rq_source_records :: "source_record_query list"

definition build_sql_query :: "readonly_sql_query \<Rightarrow> exn_name + readonly_sql_query" where
  "build_sql_query q =
     (if 1 \<le> length (rq_query q) \<and> length (rq_query q) \<le> 10000 \<and> within 0 100000 (rq_offset q)
         \<and> length (rq_source_records q) \<le> 4 \<and> list_all source_query_ok (rq_source_records q)
      then Inr q else Inl ''ValidationError'')"

datatype memory_kind = Mem_fact | Mem_procedure | Mem_rule

fun memory_kind_value :: "memory_kind \<Rightarrow> string" where
  "memory_kind_value Mem_fact = ''fact''"
| "memory_kind_value Mem_procedure = ''procedure''"
| "memory_kind_value Mem_rule = ''rule''"

record shared_memory_note =
  mn_content :: string
  mn_kind :: memory_kind
  mn_topic :: "string option"

definition build_memory_note :: "shared_memory_note \<Rightarrow> exn_name + shared_memory_note" where
  "build_memory_note n =
     (if 8 \<le> length (mn_content n) \<and> length (mn_content n) \<le> 1500 \<and> max_len 80 (mn_topic n)
      then Inr n else Inl ''ValidationError'')"

datatype tool_request =
  Knowledge_query knowledge_topic
| Schema_query "string list"
| Payment_query payment_candidate_query
| Verify_query verify_candidate_query
| Vambe_query vambe_query
| Sql_query readonly_sql_query
| Memory_note shared_memory_note
| Schema_search schema_search_query
| Memory_recall memory_recall_query

section \<open>Audit summary of a request\<close>

definition present :: "(string \<times> bool) list \<Rightarrow> json" where
  \<comment> \<open>\<open>{f"has_{name}": True for name in values}\<close> over the fields a dump without \<open>None\<close> keeps\<close>
  "present fs = JObj (map (\<lambda>f. (''has_'' @ fst f, JBool True)) (filter snd fs))"

definition payment_fields :: "payment_candidate_query \<Rightarrow> (string \<times> bool) list" where
  "payment_fields q =
     [(''glosa_or_address'', pq_glosa_or_address q \<noteq> None),
      (''transferor_name'', pq_transferor_name q \<noteq> None),
      (''transferor_rut'', pq_transferor_rut q \<noteq> None),
      (''origin_account_number'', pq_origin_account_number q \<noteq> None),
      (''email'', pq_email q \<noteq> None), (''phone'', pq_phone q \<noteq> None),
      (''amount'', pq_amount q \<noteq> None), (''currency'', pq_currency q \<noteq> None),
      (''payment_date'', pq_payment_date q \<noteq> None)]"

definition verify_fields :: "verify_candidate_query \<Rightarrow> (string \<times> bool) list" where
  "verify_fields q =
     [(''order_id'', True), (''account_receivable_id'', vc_account_receivable_id q \<noteq> None),
      (''amount'', vc_amount q \<noteq> None), (''currency'', vc_currency q \<noteq> None),
      (''transferor_name'', vc_transferor_name q \<noteq> None), (''address'', vc_address q \<noteq> None),
      (''source_links'', True)]"

definition vambe_fields :: "vambe_query \<Rightarrow> (string \<times> bool) list" where
  "vambe_fields q =
     [(''order_id'', vq_order_id q \<noteq> None), (''phone'', vq_phone q \<noteq> None),
      (''query'', vq_query q \<noteq> None), (''start_date'', vq_start_date q \<noteq> None),
      (''end_date'', vq_end_date q \<noteq> None)]"

fun safe_input_summary :: "tool_request \<Rightarrow> json" where
  "safe_input_summary (Schema_search q) =
     JObj [(''query_characters'', JInt (int (length (ss_query q)))), (''limit'', JInt (ss_limit q))]"
| "safe_input_summary (Memory_recall q) =
     JObj [(''query_characters'', JInt (int (length (mr_query q)))), (''limit'', JInt (mr_limit q))]"
| "safe_input_summary (Sql_query q) =
     JObj [(''query_present'', JBool True),
           (''query_characters'', JInt (int (length (rq_query q))))]"
| "safe_input_summary (Schema_query names) = JObj [(''table_count'', JInt (int (length names)))]"
| "safe_input_summary (Knowledge_query t) = JObj [(''topic'', JStr (topic_value t))]"
| "safe_input_summary (Memory_note n) =
     JObj [(''kind'', JStr (memory_kind_value (mn_kind n))),
           (''characters'', JInt (int (length (mn_content n))))]"
| "safe_input_summary (Payment_query q) = present (payment_fields q)"
| "safe_input_summary (Verify_query q) = present (verify_fields q)"
| "safe_input_summary (Vambe_query q) = present (vambe_fields q)"

text \<open>What a summary may depend on: two requests are alike when they are of one class, the same
  fields are filled, and texts and lists have the same length; contents are not compared.\<close>

definition same_shape :: "tool_request \<Rightarrow> tool_request \<Rightarrow> bool" where
  "same_shape a b \<longleftrightarrow>
     (case a of
        Schema_search x \<Rightarrow>
          (case b of Schema_search y \<Rightarrow> length (ss_query x) = length (ss_query y) \<and> ss_limit x = ss_limit y | _ \<Rightarrow> False)
      | Memory_recall x \<Rightarrow>
          (case b of Memory_recall y \<Rightarrow> length (mr_query x) = length (mr_query y) \<and> mr_limit x = mr_limit y | _ \<Rightarrow> False)
      | Sql_query x \<Rightarrow> (case b of Sql_query y \<Rightarrow> length (rq_query x) = length (rq_query y) | _ \<Rightarrow> False)
      | Schema_query x \<Rightarrow> (case b of Schema_query y \<Rightarrow> length x = length y | _ \<Rightarrow> False)
      | Knowledge_query x \<Rightarrow> (case b of Knowledge_query y \<Rightarrow> x = y | _ \<Rightarrow> False)
      | Memory_note x \<Rightarrow>
          (case b of Memory_note y \<Rightarrow> mn_kind x = mn_kind y \<and> length (mn_content x) = length (mn_content y) | _ \<Rightarrow> False)
      | Payment_query x \<Rightarrow>
          (case b of
             Payment_query y \<Rightarrow>
               list_all2 (\<lambda>s t. (s = None) = (t = None)) (identity_fields x) (identity_fields y)
               \<and> (pq_amount x = None) = (pq_amount y = None) \<and> (pq_currency x = None) = (pq_currency y = None)
               \<and> (pq_payment_date x = None) = (pq_payment_date y = None)
           | _ \<Rightarrow> False)
      | Verify_query x \<Rightarrow>
          (case b of
             Verify_query y \<Rightarrow>
               (vc_account_receivable_id x = None) = (vc_account_receivable_id y = None)
               \<and> (vc_amount x = None) = (vc_amount y = None) \<and> (vc_currency x = None) = (vc_currency y = None)
               \<and> (vc_transferor_name x = None) = (vc_transferor_name y = None)
               \<and> (vc_address x = None) = (vc_address y = None)
           | _ \<Rightarrow> False)
      | Vambe_query x \<Rightarrow>
          (case b of
             Vambe_query y \<Rightarrow>
               (vq_order_id x = None) = (vq_order_id y = None) \<and> (vq_phone x = None) = (vq_phone y = None)
               \<and> (vq_query x = None) = (vq_query y = None) \<and> (vq_start_date x = None) = (vq_start_date y = None)
               \<and> (vq_end_date x = None) = (vq_end_date y = None)
           | _ \<Rightarrow> False))"

text \<open>The audit summary of a tool input carries no content. Two requests of one class with the
  same fields filled and texts of the same length have the same summary, whatever the names, tax
  numbers, accounts, addresses, phones, amounts, queries or note texts in them are.\<close>

theorem input_summary_hides_content:
  "same_shape a b \<Longrightarrow> safe_input_summary a = safe_input_summary b"
  unfolding same_shape_def
  by (cases a; cases b)
    (simp_all add: payment_fields_def verify_fields_def vambe_fields_def identity_fields_def split del: if_split)

definition example_query :: payment_candidate_query where
  "example_query = \<lparr>pq_glosa_or_address = Some ''Los Olmos 120'', pq_transferor_name = Some ''Ana Rojas'',
     pq_transferor_rut = None, pq_origin_account_number = None, pq_email = None, pq_phone = None,
     pq_amount = Some (Decimal 120000 0), pq_currency = None, pq_payment_date = None\<rparr>"

lemma input_summary_hides_content_witness:
  "safe_input_summary (Payment_query example_query) =
   safe_input_summary (Payment_query (example_query\<lparr>pq_transferor_name := Some ''Eva Soto'',
      pq_amount := Some (Decimal 5 2)\<rparr>))"
  by (rule input_summary_hides_content) (simp add: same_shape_def example_query_def identity_fields_def)

section \<open>Observations\<close>

record tool_audit_metadata =
  am_query_fingerprint :: "string option"
  am_referenced_relations :: "string list"
  am_row_count :: "int option"
  am_truncated :: "bool option"
  am_memory_ids :: "string list"
  am_memory_version :: "string option"
  am_source_references :: "string list"
  am_identity_search_complete :: bool

definition default_audit :: tool_audit_metadata where
  "default_audit = \<lparr>am_query_fingerprint = None, am_referenced_relations = [],
     am_row_count = None, am_truncated = None, am_memory_ids = [], am_memory_version = None,
     am_source_references = [], am_identity_search_complete = False\<rparr>"

record investigation_candidate =
  ic_customer_name :: string
  ic_order_id :: uuid
  ic_order_number :: "int option"
  ic_account_receivable_id :: "uuid option"
  ic_account_receivable_summary :: "string option"
  ic_outstanding_amount :: "decimal option"
  ic_currency :: "string option"
  ic_evidence :: "evidence_signal list"
  ic_verified :: bool

record tool_observation =
  to_source :: string
  to_available :: bool
  to_summary :: string
  to_candidates :: "investigation_candidate list"
  to_evidence :: "evidence_signal list"
  to_rows :: "(string \<times> json) list list"
  to_source_records :: "source_record list"
  to_limitations :: "string list"
  to_audit :: tool_audit_metadata

definition observation :: "string \<Rightarrow> bool \<Rightarrow> string \<Rightarrow> tool_observation" where
  \<comment> \<open>the constructor with the other fields at their defaults\<close>
  "observation source available summary = \<lparr>to_source = source, to_available = available,
     to_summary = summary, to_candidates = [], to_evidence = [], to_rows = [],
     to_source_records = [], to_limitations = [], to_audit = default_audit\<rparr>"

fun bump :: "string \<Rightarrow> (string \<times> int) list \<Rightarrow> (string \<times> int) list" where
  \<comment> \<open>\<open>d[k] = d.get(k, 0) + 1\<close> on an insertion-ordered dict\<close>
  "bump k [] = [(k, 1)]"
| "bump k ((j, n) # rest) = (if j = k then (j, n + 1) # rest else (j, n) # bump k rest)"

definition all_signals :: "tool_observation \<Rightarrow> evidence_signal list" where
  "all_signals obs = to_evidence obs @ concat (map ic_evidence (to_candidates obs))"

definition evidence_kinds :: "tool_observation \<Rightarrow> (string \<times> int) list" where
  "evidence_kinds obs =
     fold (\<lambda>s d. bump (evidence_kind_value (sig_kind s)) d) (all_signals obs) []"

definition json_opt :: "('a \<Rightarrow> json) \<Rightarrow> 'a option \<Rightarrow> json" where
  "json_opt f v = (case v of None \<Rightarrow> JNull | Some x \<Rightarrow> f x)"

definition json_strs :: "string list \<Rightarrow> json" where
  "json_strs xs = JArr (map JStr xs)"

definition safe_audit_summary :: "tool_observation \<Rightarrow> json" where
  "safe_audit_summary obs = JObj
     [(''source'', JStr (to_source obs)),
      (''available'', JBool (to_available obs)),
      (''candidate_count'', JInt (int (length (to_candidates obs)))),
      (''row_count'', json_opt JInt (am_row_count (to_audit obs))),
      (''truncated'', json_opt JBool (am_truncated (to_audit obs))),
      (''limitation_count'', JInt (int (length (to_limitations obs)))),
      (''evidence_kinds'', JObj (map (\<lambda>p. (fst p, JInt (snd p))) (evidence_kinds obs))),
      (''source_reference_count'', JInt (int (length (to_source_records obs)))),
      (''memory_ids'', json_strs (am_memory_ids (to_audit obs))),
      (''memory_version'', json_opt JStr (am_memory_version (to_audit obs))),
      (''source_references'', json_strs (am_source_references (to_audit obs)))]"

lemma bump_total: "sum_list (map snd (bump k d)) = sum_list (map snd d) + 1"
  by (induction k d rule: bump.induct) auto

lemma bump_keys: "distinct (map fst d) \<Longrightarrow> distinct (map fst (bump k d)) \<and>
    set (map fst (bump k d)) = insert k (set (map fst d))"
  by (induction k d rule: bump.induct) (auto simp: image_iff)

lemma bump_fold_total:
  "sum_list (map snd (fold (\<lambda>s d. bump (f s) d) xs d)) = sum_list (map snd d) + int (length xs)"
  by (induction xs arbitrary: d) (auto simp: bump_total)

lemma bump_fold_keys: "distinct (map fst d) \<Longrightarrow>
  distinct (map fst (fold (\<lambda>s d. bump (f s) d) xs d)) \<and>
  set (map fst (fold (\<lambda>s d. bump (f s) d) xs d)) = f ` set xs \<union> set (map fst d)"
proof (induction xs arbitrary: d)
  case (Cons x xs)
  show ?case using Cons.IH [of "bump (f x) d"] bump_keys [OF Cons.prems, of "f x"] by auto
qed simp

text \<open>The evidence histogram of an audit row counts every signal of the observation exactly once
  (its own and those of its candidates), under one entry per kind that occurs.\<close>

theorem evidence_histogram:
  "sum_list (map snd (evidence_kinds obs))
     = int (length (to_evidence obs) + sum_list (map (\<lambda>c. length (ic_evidence c)) (to_candidates obs)))
   \<and> distinct (map fst (evidence_kinds obs))
   \<and> set (map fst (evidence_kinds obs))
     = (\<lambda>s. evidence_kind_value (sig_kind s)) ` set (all_signals obs)"
proof -
  have "length (all_signals obs)
    = length (to_evidence obs) + sum_list (map (\<lambda>c. length (ic_evidence c)) (to_candidates obs))"
    by (simp add: all_signals_def length_concat comp_def)
  then show ?thesis
    using bump_fold_keys [of "[]" "\<lambda>s. evidence_kind_value (sig_kind s)" "all_signals obs"]
    by (simp add: evidence_kinds_def bump_fold_total)
qed

section \<open>The data port\<close>

text \<open>\<open>InvestigationData\<close> is a record of operations; each may raise, so each returns a sum. Opening
  and closing the backend has no effect in the modelled ones and is left out.\<close>

type_synonym tool_result = "exn_name + tool_observation"

record data_port =
  dp_finops_knowledge :: "knowledge_topic \<Rightarrow> tool_result"
  dp_describe_tables :: "string list \<Rightarrow> tool_result"
  dp_search_schema :: "schema_search_query \<Rightarrow> tool_result"
  dp_relationships :: "string list \<Rightarrow> tool_result"
  dp_verify_sources :: "verify_candidate_query \<Rightarrow> source_record list \<Rightarrow> tool_result"
  dp_search_candidates :: "payment_candidate_query \<Rightarrow> tool_result"
  dp_verify_candidate :: "verify_candidate_query \<Rightarrow> tool_result"
  dp_search_vambe :: "vambe_query \<Rightarrow> tool_result"
  dp_readonly_sql :: "readonly_sql_query \<Rightarrow> tool_result"

definition unavailable :: "string \<Rightarrow> tool_observation" where
  \<comment> \<open>\<open>EmptyInvestigationData._unavailable\<close>\<close>
  "unavailable source =
     (observation source False
        (''La fuente de datos reales todav'' @ [CHR 0xED] @ ''a no est'' @ [CHR 0xE1] @ '' conectada.''))
     \<lparr>to_limitations := [''No se consultaron datos de clientes de Ruuf.'']\<rparr>"

definition empty_data :: data_port where
  "empty_data = \<lparr>
     dp_finops_knowledge = (\<lambda>_. Inr (unavailable ''finops_knowledge'')),
     dp_describe_tables = (\<lambda>_. Inr (unavailable ''database_schema'')),
     dp_search_schema = (\<lambda>_. Inr (unavailable ''database_schema'')),
     dp_relationships = (\<lambda>_. Inr (unavailable ''database_relationships'')),
     dp_verify_sources = (\<lambda>_ _. Inr (unavailable ''candidate_verification'')),
     dp_search_candidates = (\<lambda>_. Inr (unavailable ''payment_candidates'')),
     dp_verify_candidate = (\<lambda>_. Inr (unavailable ''candidate_verification'')),
     dp_search_vambe = (\<lambda>_. Inr (unavailable ''vambe'')),
     dp_readonly_sql = (\<lambda>_. Inr (unavailable ''readonly_sql''))\<rparr>"

section \<open>The synthetic backend\<close>

type_synonym fixtures = "(string \<times> tool_observation) list"

definition fixture_get :: "fixtures \<Rightarrow> string \<Rightarrow> tool_observation" where
  \<comment> \<open>a deep copy of the stored observation: the stored one is never changed\<close>
  "fixture_get obs name =
     (case map_of obs name of
        Some found \<Rightarrow> found
      | None \<Rightarrow> observation name True (''Sin coincidencias sint'' @ [CHR 0xE9] @ ''ticas.''))"

definition set_row_count :: "tool_observation \<Rightarrow> tool_observation" where
  "set_row_count obs =
     obs\<lparr>to_audit := (to_audit obs)\<lparr>am_row_count := Some (int (length (to_candidates obs)))\<rparr>\<rparr>"

definition amount_matches :: "payment_candidate_query \<Rightarrow> investigation_candidate \<Rightarrow> bool" where
  "amount_matches q c \<longleftrightarrow>
     (case (ic_outstanding_amount c, pq_amount q) of
        (Some owed, Some paid) \<Rightarrow> dec_eq owed paid
      | (None, None) \<Rightarrow> True
      | _ \<Rightarrow> False)
     \<and> ic_currency c = Some (if truthy (pq_currency q) then the (pq_currency q) else ''CLP'')"

definition fixture_search_candidates :: "fixtures \<Rightarrow> payment_candidate_query \<Rightarrow> tool_observation" where
  "fixture_search_candidates obs q =
     (let found = fixture_get obs ''payment_candidates''
      in if \<not> to_available found then found
         else let amount_only = \<not> has_identity q;
                  narrowed = (if amount_only \<and> pq_amount q \<noteq> None
                              then found\<lparr>to_candidates := filter (amount_matches q) (to_candidates found)\<rparr>
                              else found)
              in set_row_count narrowed)"

definition requested :: "verify_candidate_query \<Rightarrow> investigation_candidate \<Rightarrow> bool" where
  "requested q c \<longleftrightarrow> ic_order_id c = vc_order_id q \<and>
     (vc_account_receivable_id q = None
      \<or> ic_account_receivable_id c = vc_account_receivable_id q)"

definition fixture_verify_candidate :: "fixtures \<Rightarrow> verify_candidate_query \<Rightarrow> tool_observation" where
  "fixture_verify_candidate obs q =
     (let found = fixture_get obs ''candidate_verification''
      in set_row_count (found\<lparr>to_candidates := filter (requested q) (to_candidates found)\<rparr>))"

definition about_order :: "uuid \<Rightarrow> evidence_signal \<Rightarrow> bool" where
  "about_order order s \<longleftrightarrow>
     (sig_order_id s = None \<or> sig_order_id s = Some order) \<and> sig_kind s = Vambe_context"

definition fixture_search_vambe :: "fixtures \<Rightarrow> vambe_query \<Rightarrow> tool_observation" where
  "fixture_search_vambe obs q =
     (let found = fixture_get obs ''vambe''
      in case vq_order_id q of
           Some order \<Rightarrow> found\<lparr>to_evidence := filter (about_order order) (to_evidence found)\<rparr>
         | None \<Rightarrow> found)"

definition fixture_data :: "fixtures \<Rightarrow> data_port" where
  "fixture_data obs = \<lparr>
     dp_finops_knowledge = (\<lambda>_. Inr (fixture_get obs ''finops_knowledge'')),
     dp_describe_tables = (\<lambda>_. Inr (fixture_get obs ''database_schema'')),
     dp_search_schema = (\<lambda>_. Inr (fixture_get obs ''database_schema'')),
     dp_relationships = (\<lambda>_. Inr (fixture_get obs ''database_relationships'')),
     dp_verify_sources = (\<lambda>q _. Inr (fixture_verify_candidate obs q)),
     dp_search_candidates = (\<lambda>q. Inr (fixture_search_candidates obs q)),
     dp_verify_candidate = (\<lambda>q. Inr (fixture_verify_candidate obs q)),
     dp_search_vambe = (\<lambda>q. Inr (fixture_search_vambe obs q)),
     dp_readonly_sql = (\<lambda>_. Inr (fixture_get obs ''readonly_sql''))\<rparr>"

section \<open>What the runner may rely on\<close>

text \<open>The contract of a backend: a verification answers about the order and the account receivable
  it was asked about and nothing else, and a message search scoped to an order brings no evidence
  about another order.\<close>

locale investigation_port =
  fixes port :: data_port
  assumes verify_scoped:
      "dp_verify_candidate port q = Inr obs \<Longrightarrow> c \<in> set (to_candidates obs) \<Longrightarrow> requested q c"
    and sources_scoped:
      "dp_verify_sources port q srcs = Inr obs \<Longrightarrow> c \<in> set (to_candidates obs) \<Longrightarrow> requested q c"
    and vambe_scoped:
      "dp_search_vambe port v = Inr obs \<Longrightarrow> vq_order_id v = Some order \<Longrightarrow>
       s \<in> set (to_evidence obs) \<Longrightarrow> sig_order_id s \<in> {None, Some order}"
begin

lemma verified_order:
  "dp_verify_candidate port q = Inr obs \<or> dp_verify_sources port q srcs = Inr obs \<Longrightarrow>
   ic_order_id ` set (to_candidates obs) \<subseteq> {vc_order_id q}"
  using verify_scoped sources_scoped by (auto simp: requested_def)

lemma verified_receivable:
  "dp_verify_candidate port q = Inr obs \<or> dp_verify_sources port q srcs = Inr obs \<Longrightarrow>
   vc_account_receivable_id q = Some r \<Longrightarrow>
   ic_account_receivable_id ` set (to_candidates obs) \<subseteq> {Some r}"
  using verify_scoped sources_scoped by (fastforce simp: requested_def)

end

interpretation empty: investigation_port empty_data
  by unfold_locales (auto simp: empty_data_def unavailable_def observation_def)

interpretation fixture: investigation_port "fixture_data obs" for obs
  by unfold_locales
    (auto simp: fixture_data_def fixture_verify_candidate_def fixture_search_vambe_def
      set_row_count_def about_order_def Let_def)

text \<open>The synthetic backend answers within the scope of the question: a verification, with or
  without source links, only ever returns candidates of the requested order, and of the requested
  account receivable when one is named; its row count is the number of candidates returned.\<close>

theorem fixture_verification_scoped:
  assumes "dp_verify_candidate (fixture_data obs) q = Inr out \<or>
    dp_verify_sources (fixture_data obs) q srcs = Inr out"
  shows "ic_order_id ` set (to_candidates out) \<subseteq> {vc_order_id q} \<and>
    (\<forall>r. vc_account_receivable_id q = Some r \<longrightarrow>
      ic_account_receivable_id ` set (to_candidates out) \<subseteq> {Some r}) \<and>
    am_row_count (to_audit out) = Some (int (length (to_candidates out)))"
proof -
  have "out = fixture_verify_candidate obs q"
    using assms by (auto simp: fixture_data_def)
  then have "am_row_count (to_audit out) = Some (int (length (to_candidates out)))"
    by (simp add: fixture_verify_candidate_def set_row_count_def Let_def)
  with fixture.verified_order [OF assms] fixture.verified_receivable [OF assms] show ?thesis
    by blast
qed

definition example_candidate :: investigation_candidate where
  "example_candidate = \<lparr>ic_customer_name = ''Ana Rojas'', ic_order_id = ''o-1'', ic_order_number = Some 7,
     ic_account_receivable_id = Some ''ar-1'', ic_account_receivable_summary = Some ''Cuota 1'',
     ic_outstanding_amount = Some (Decimal 120000 0), ic_currency = Some ''CLP'',
     ic_evidence = [], ic_verified = True\<rparr>"

definition example_verify :: verify_candidate_query where
  "example_verify = \<lparr>vc_order_id = ''o-1'', vc_account_receivable_id = Some ''ar-1'',
     vc_amount = None, vc_currency = None, vc_transferor_name = None, vc_address = None,
     vc_source_links = []\<rparr>"

definition example_fixtures :: fixtures where
  "example_fixtures = [(''candidate_verification'', (observation ''candidate_verification'' True ''ok'')
     \<lparr>to_candidates := [example_candidate, example_candidate\<lparr>ic_order_id := ''o-2''\<rparr>]\<rparr>)]"

lemma fixture_verification_scoped_witness:
  "let out = fixture_verify_candidate example_fixtures example_verify
   in to_candidates out = [example_candidate] \<and>
      ic_order_id ` set (to_candidates out) \<subseteq> {vc_order_id example_verify}"
proof -
  have "dp_verify_candidate (fixture_data example_fixtures) example_verify
      = Inr (fixture_verify_candidate example_fixtures example_verify)"
    by (simp add: fixture_data_def)
  then have "ic_order_id ` set (to_candidates (fixture_verify_candidate example_fixtures example_verify))
      \<subseteq> {vc_order_id example_verify}"
    using fixture_verification_scoped by blast
  moreover have "to_candidates (fixture_verify_candidate example_fixtures example_verify)
      = [example_candidate]"
    by (simp add: fixture_verify_candidate_def fixture_get_def example_fixtures_def set_row_count_def
        requested_def example_candidate_def example_verify_def observation_def)
  ultimately show ?thesis by (simp add: Let_def)
qed

lemma fixture_amount_only:
  assumes "\<not> has_identity q" "pq_amount q = Some paid"
    "c \<in> set (to_candidates (fixture_search_candidates obs q))"
    "to_available (fixture_get obs ''payment_candidates'')"
  shows "\<exists>owed. ic_outstanding_amount c = Some owed \<and> dec_eq owed paid"
  using assms
  by (auto simp: fixture_search_candidates_def set_row_count_def amount_matches_def Let_def
      split: option.splits)

section \<open>Request validation\<close>

lemma nonempty_is_truthy: "list_ex (\<lambda>v. v \<noteq> None \<and> v \<noteq> Some '''') xs = list_ex truthy xs"
  by (induction xs) (auto simp: truthy_def split: option.splits)

lemma payment_query_accepted:
  assumes "build_payment_query q = Inr q'"
  shows "q' = q \<and> (has_identity q \<or> (\<exists>d. pq_amount q = Some d \<and> dec_pos d))"
proof -
  have "amount_ok (pq_amount q)" and s: "has_signal q = Inr q'"
    using assms unfolding build_payment_query_def by (meson sum.distinct(1))+
  moreover from s have "(has_identity q \<or> pq_amount q \<noteq> None) \<and> q' = q"
    unfolding has_signal_def has_identity_def nonempty_is_truthy by (simp split: if_split_asm)
  ultimately show ?thesis by (cases "pq_amount q") (simp_all add: amount_ok_def)
qed

lemma vambe_query_accepted:
  assumes "build_vambe_query v = Inr v'"
  shows "v' = v \<and> (vq_order_id v \<noteq> None \<or> truthy (vq_phone v)) \<and>
    (vq_start_date v = None \<longleftrightarrow> vq_end_date v = None)"
proof -
  have "candidate_scoped v = Inr v'"
    using assms unfolding build_vambe_query_def by (meson sum.distinct(1))
  then show ?thesis unfolding candidate_scoped_def by (simp split: if_split_asm)
qed


definition example_vambe :: vambe_query where
  "example_vambe = \<lparr>vq_order_id = Some ''o-1'', vq_phone = None, vq_query = None,
     vq_start_date = None, vq_end_date = None\<rparr>"


end
