(* ===== verification/Evidence.thy ===== *)
theory Evidence
  imports DataTools
begin

text \<open>
  The evidence side of the model runner (\<open>agent/openai_runner.py\<close>): the state of one run, with the
  registry that numbers every signal and source record the tools bring, and the audited tool call.
  What becomes of the evidence is in \<open>Identification\<close>. An insertion-ordered dict is an association list written with \<open>dict_put\<close>.
\<close>

section \<open>Insertion-ordered dictionaries\<close>

fun dict_put :: "'k \<Rightarrow> 'v \<Rightarrow> ('k \<times> 'v) list \<Rightarrow> ('k \<times> 'v) list" where
  "dict_put k v [] = [(k, v)]"
| "dict_put k v ((j, w) # d) = (if j = k then (k, v) # d else (j, w) # dict_put k v d)"

lemma map_of_dict_put [row_simps]: "map_of (dict_put k v d) = (map_of d)(k \<mapsto> v)"
  by (induction k v d rule: dict_put.induct) (auto simp: fun_eq_iff)

lemma keys_dict_put: "set (map fst (dict_put k v d)) = insert k (set (map fst d))"
  by (induction k v d rule: dict_put.induct) auto

lemma distinct_dict_put: "distinct (map fst d) \<Longrightarrow> distinct (map fst (dict_put k v d))"
proof (induction k v d rule: dict_put.induct)
  case (2 k v j w d)
  then show ?case using keys_dict_put [of k v d] by (auto simp: image_iff)
qed simp

lemma dict_put_fresh: "k \<notin> set (map fst d) \<Longrightarrow> dict_put k v d = d @ [(k, v)]"
  by (induction k v d rule: dict_put.induct) auto

lemma set_dict_put: "set (dict_put k v d) \<subseteq> insert (k, v) (set d)"
  by (induction k v d rule: dict_put.induct) auto

section \<open>Turns and the state of a run\<close>

record specialist_turns =
  tn_limit :: int
  tn_used :: int
  tn_input_tokens :: int
  tn_output_tokens :: int

type_synonym candidate_key = "string \<times> string option"

record run_state =
  rs_turns :: specialist_turns
  rs_requested_route :: "request_kind option"
  rs_source_records :: "(string \<times> source_record) list"
  rs_calls :: "tool_audit_record list"
  rs_candidate_order_ids :: "string set"
  rs_candidates :: "(candidate_key \<times> investigation_candidate) list"
  rs_verified :: "(candidate_key \<times> investigation_candidate) list"
  rs_evidence :: "(string \<times> evidence_signal) list"
  rs_source_available :: "(string \<times> bool) list"
  rs_search_succeeded :: bool
  rs_search_count :: "int option"
  rs_search_conclusive :: bool

definition new_turns :: "int \<Rightarrow> specialist_turns" where
  "new_turns limit = \<lparr>tn_limit = limit, tn_used = 0, tn_input_tokens = 0, tn_output_tokens = 0\<rparr>"

definition new_run_state :: "specialist_turns \<Rightarrow> run_state" where
  "new_run_state turns = \<lparr>rs_turns = turns, rs_requested_route = None, rs_source_records = [],
     rs_calls = [], rs_candidate_order_ids = {}, rs_candidates = [], rs_verified = [],
     rs_evidence = [], rs_source_available = [], rs_search_succeeded = False,
     rs_search_count = None, rs_search_conclusive = False\<rparr>"

section \<open>Registering what a tool brought\<close>

definition numbered :: "string \<Rightarrow> nat \<Rightarrow> string" where
  \<comment> \<open>\<open>f"{prefix}{n:03d}"\<close>\<close>
  "numbered prefix n = prefix @ zero_pad 3 (show_nat n)"

definition register_signal :: "evidence_signal \<Rightarrow> run_state \<Rightarrow> evidence_signal \<times> run_state" where
  "register_signal s st =
     (let ident = numbered ''ev_'' (length (rs_evidence st) + 1);
          registered = s\<lparr>sig_evidence_id := ident\<rparr>
      in (registered, st\<lparr>rs_evidence := dict_put ident registered (rs_evidence st)\<rparr>))"

fun register_signals ::
  "evidence_signal list \<Rightarrow> run_state \<Rightarrow> evidence_signal list \<times> run_state" where
  "register_signals [] st = ([], st)"
| "register_signals (s # ss) st =
     (let (r, st1) = register_signal s st; (rs, st2) = register_signals ss st1 in (r # rs, st2))"

definition register_source :: "source_record \<Rightarrow> run_state \<Rightarrow> source_record \<times> run_state" where
  "register_source r st =
     (let ref = numbered ''src_'' (length (rs_source_records st) + 1);
          r' = r\<lparr>sr_reference := ref\<rparr>
      in (r', st\<lparr>rs_source_records := dict_put ref r' (rs_source_records st)\<rparr>))"

fun register_sources ::
  "source_record list \<Rightarrow> run_state \<Rightarrow> source_record list \<times> run_state" where
  "register_sources [] st = ([], st)"
| "register_sources (r # rs) st =
     (let (r', st1) = register_source r st; (rs', st2) = register_sources rs st1 in (r' # rs', st2))"

definition candidate_key_of :: "investigation_candidate \<Rightarrow> candidate_key" where
  "candidate_key_of c = (ic_order_id c, ic_account_receivable_id c)"

definition register_candidate ::
  "investigation_candidate \<Rightarrow> run_state \<Rightarrow> investigation_candidate \<times> run_state" where
  "register_candidate c st =
     (let (sigs, st1) = register_signals (ic_evidence c) st;
          c' = c\<lparr>ic_evidence := sigs\<rparr>;
          key = candidate_key_of c';
          st2 = st1\<lparr>rs_candidate_order_ids := insert (ic_order_id c') (rs_candidate_order_ids st1),
                    rs_candidates := dict_put key c' (rs_candidates st1)\<rparr>
      in (c', if ic_verified c' then st2\<lparr>rs_verified := dict_put key c' (rs_verified st2)\<rparr> else st2))"

fun register_candidates ::
  "investigation_candidate list \<Rightarrow> run_state \<Rightarrow> investigation_candidate list \<times> run_state" where
  "register_candidates [] st = ([], st)"
| "register_candidates (c # cs) st =
     (let (c', st1) = register_candidate c st; (cs', st2) = register_candidates cs st1
      in (c' # cs', st2))"

definition search_count_after :: "run_state \<Rightarrow> tool_observation \<Rightarrow> int" where
  "search_count_after st obs =
     max (case rs_search_count st of None \<Rightarrow> 0 | Some n \<Rightarrow> n) (int (length (to_candidates obs)))"

definition conclusive_search :: "tool_request \<Rightarrow> tool_observation \<Rightarrow> bool" where
  \<comment> \<open>a complete, untruncated search over at least one identity field\<close>
  "conclusive_search request obs =
     (case request of
        Payment_query q \<Rightarrow>
          am_identity_search_complete (to_audit obs) \<and> am_truncated (to_audit obs) \<noteq> Some True
          \<and> has_identity q
      | _ \<Rightarrow> False)"

definition note_availability ::
  "string \<Rightarrow> tool_request \<Rightarrow> tool_observation \<Rightarrow> run_state \<Rightarrow> run_state" where
  "note_availability name request obs st =
     (let st1 = st\<lparr>rs_source_available := dict_put name (to_available obs) (rs_source_available st)\<rparr>
      in if name = ''search_payment_candidates'' \<and> to_available obs
         then st1\<lparr>rs_search_succeeded := True,
                  rs_search_count := Some (search_count_after st1 obs),
                  rs_search_conclusive := rs_search_conclusive st1 \<or> conclusive_search request obs\<rparr>
         else st1)"

definition register_observation ::
  "string \<Rightarrow> tool_request \<Rightarrow> tool_observation \<Rightarrow> run_state \<Rightarrow> tool_observation \<times> run_state" where
  "register_observation name request obs st =
     (let st0 = note_availability name request obs st;
          (srcs, st1) = register_sources (to_source_records obs) st0;
          (sigs, st2) = register_signals (to_evidence obs) st1;
          (cands, st3) = register_candidates (to_candidates obs) st2
      in (obs\<lparr>to_source_records := srcs, to_evidence := sigs, to_candidates := cands\<rparr>, st3))"

section \<open>The audited tool call\<close>

definition call_record ::
  "nat \<Rightarrow> string \<Rightarrow> string \<Rightarrow> json \<Rightarrow> int \<Rightarrow> tool_audit_record" where
  "call_record seq name status input ms = \<lparr>ta_sequence = seq, ta_tool_name = name, ta_status = status,
     ta_input = Some input, ta_output = None, ta_duration_ms = Some ms, ta_error = None,
     ta_query_fingerprint = None, ta_referenced_relations = [], ta_row_count = None,
     ta_truncated = None\<rparr>"

definition succeeded_record ::
  "nat \<Rightarrow> string \<Rightarrow> json \<Rightarrow> int \<Rightarrow> tool_observation \<Rightarrow> tool_audit_record" where
  "succeeded_record seq name input ms obs =
     (call_record seq name ''succeeded'' input ms)
     \<lparr>ta_output := Some (safe_audit_summary obs),
      ta_query_fingerprint := am_query_fingerprint (to_audit obs),
      ta_referenced_relations := am_referenced_relations (to_audit obs),
      ta_row_count := am_row_count (to_audit obs),
      ta_truncated := am_truncated (to_audit obs)\<rparr>"

definition failed_observation :: "string \<Rightarrow> tool_observation" where
  "failed_observation name =
     (observation name False
        (''La fuente de datos fall'' @ [CHR 0xF3] @ '' temporalmente durante esta investigaci''
         @ [CHR 0xF3] @ ''n.''))
     \<lparr>to_limitations := [''La consulta no produjo evidencia; se debe reintentar o revisar manualmente.'']\<rparr>"

definition invoke ::
  "string \<Rightarrow> tool_request \<Rightarrow> int \<Rightarrow> (tool_request \<Rightarrow> tool_result) \<Rightarrow> run_state
   \<Rightarrow> tool_observation \<times> run_state" where
  \<comment> \<open>\<open>ms\<close> is the measured duration; the result is the observation whose JSON the model reads\<close>
  "invoke name request ms call st =
     (let seq = length (rs_calls st) + 1; input = safe_input_summary request
      in case call request of
           Inr obs \<Rightarrow>
             (let (obs', st') = register_observation name request obs st
              in (obs', st'\<lparr>rs_calls := rs_calls st' @ [succeeded_record seq name input ms obs']\<rparr>))
         | Inl e \<Rightarrow>
             (failed_observation name,
              st\<lparr>rs_source_available := dict_put name False (rs_source_available st),
                 rs_calls := rs_calls st
                   @ [(call_record seq name ''failed'' input ms)\<lparr>ta_error := Some e\<rparr>]\<rparr>))"

section \<open>The registry invariant\<close>

definition numbered_dict :: "string \<Rightarrow> (string \<times> 'v) list \<Rightarrow> bool" where
  "numbered_dict p d \<longleftrightarrow> map fst d = map (numbered p) [1..<Suc (length d)]"

definition evidence_ok :: "run_state \<Rightarrow> bool" where
  "evidence_ok st \<longleftrightarrow> numbered_dict ''ev_'' (rs_evidence st)
     \<and> (\<forall>(k, s) \<in> set (rs_evidence st). sig_evidence_id s = k)"

definition sources_ok :: "run_state \<Rightarrow> bool" where
  "sources_ok st \<longleftrightarrow> numbered_dict ''src_'' (rs_source_records st)
     \<and> (\<forall>(k, r) \<in> set (rs_source_records st). sr_reference r = k)"

definition verified_entry_ok ::
  "(string \<times> evidence_signal) list \<Rightarrow> candidate_key \<times> investigation_candidate \<Rightarrow> bool" where
  "verified_entry_ok ev e \<longleftrightarrow> candidate_key_of (snd e) = fst e \<and> ic_verified (snd e)
     \<and> (\<forall>s \<in> set (ic_evidence (snd e)). (sig_evidence_id s, s) \<in> set ev)"

definition verified_ok :: "run_state \<Rightarrow> bool" where
  "verified_ok st \<longleftrightarrow> distinct (map fst (rs_verified st))
     \<and> (\<forall>e \<in> set (rs_verified st). verified_entry_ok (rs_evidence st) e)"

definition calls_ok :: "run_state \<Rightarrow> bool" where
  "calls_ok st \<longleftrightarrow> map ta_sequence (rs_calls st) = [1..<Suc (length (rs_calls st))]"

definition run_state_ok :: "run_state \<Rightarrow> bool" where
  "run_state_ok st \<longleftrightarrow> evidence_ok st \<and> sources_ok st \<and> verified_ok st \<and> calls_ok st"

definition same_but_evidence :: "run_state \<Rightarrow> run_state \<Rightarrow> bool" where
  "same_but_evidence st st' \<longleftrightarrow> (\<exists>ev. st' = st\<lparr>rs_evidence := ev\<rparr>)"

definition same_but_sources :: "run_state \<Rightarrow> run_state \<Rightarrow> bool" where
  "same_but_sources st st' \<longleftrightarrow> (\<exists>srcs. st' = st\<lparr>rs_source_records := srcs\<rparr>)"

lemma numbered_inject: "numbered p m = numbered p n \<longleftrightarrow> m = n"
  by (simp add: numbered_def zero_pad_show_inject)

lemma numbered_dict_distinct: "numbered_dict p d \<Longrightarrow> distinct (map fst d)"
  by (simp add: numbered_dict_def distinct_map inj_on_def numbered_inject)

lemma numbered_dict_put:
  assumes "numbered_dict p d"
  shows "dict_put (numbered p (length d + 1)) v d = d @ [(numbered p (length d + 1), v)]"
    and "numbered_dict p (d @ [(numbered p (length d + 1), v)])"
proof -
  have "numbered p (length d + 1) \<notin> set (map fst d)"
    using assms by (auto simp: numbered_dict_def numbered_inject)
  then show "dict_put (numbered p (length d + 1)) v d = d @ [(numbered p (length d + 1), v)]"
    by (rule dict_put_fresh)
  show "numbered_dict p (d @ [(numbered p (length d + 1), v)])"
    using assms by (simp add: numbered_dict_def)
qed

lemma register_signal_ok:
  assumes "evidence_ok st" "register_signal s st = (r, st')"
  shows "evidence_ok st' \<and> rs_evidence st' = rs_evidence st @ [(sig_evidence_id r, r)]
    \<and> r = s\<lparr>sig_evidence_id := sig_evidence_id r\<rparr> \<and> same_but_evidence st st'"
proof -
  have n: "numbered_dict ''ev_'' (rs_evidence st)" using assms(1) by (simp add: evidence_ok_def)
  have "st' = st\<lparr>rs_evidence := rs_evidence st @ [(sig_evidence_id r, r)]\<rparr>"
    "r = s\<lparr>sig_evidence_id := numbered ''ev_'' (length (rs_evidence st) + 1)\<rparr>"
    using assms(2) numbered_dict_put(1) [OF n] by (auto simp: register_signal_def Let_def)
  then show ?thesis
    using assms(1) numbered_dict_put(2) [OF n, of r]
    by (auto simp: evidence_ok_def same_but_evidence_def)
qed

lemma same_but_evidence_refl [simp]: "same_but_evidence st st"
  unfolding same_but_evidence_def by (rule exI [of _ "rs_evidence st"]) simp

lemma same_but_sources_refl [simp]: "same_but_sources st st"
  unfolding same_but_sources_def by (rule exI [of _ "rs_source_records st"]) simp

lemma same_but_evidence_trans:
  "same_but_evidence a b \<Longrightarrow> same_but_evidence b c \<Longrightarrow> same_but_evidence a c"
  by (auto simp: same_but_evidence_def)

lemma same_but_sources_trans:
  "same_but_sources a b \<Longrightarrow> same_but_sources b c \<Longrightarrow> same_but_sources a c"
  by (auto simp: same_but_sources_def)

lemma register_signals_ok:
  "evidence_ok st \<Longrightarrow> register_signals ss st = (rs, st') \<Longrightarrow>
   evidence_ok st' \<and> rs_evidence st' = rs_evidence st @ map (\<lambda>r. (sig_evidence_id r, r)) rs
   \<and> list_all2 (\<lambda>s r. r = s\<lparr>sig_evidence_id := sig_evidence_id r\<rparr>) ss rs
   \<and> same_but_evidence st st'"
proof (induction ss arbitrary: st rs st')
  case Nil
  then show ?case by auto
next
  case (Cons s ss)
  obtain r st1 where 1: "register_signal s st = (r, st1)" by fastforce
  obtain rs1 st2 where 2: "register_signals ss st1 = (rs1, st2)" by fastforce
  have eq: "rs = r # rs1" "st' = st2" using Cons.prems(2) 1 2 by auto
  note a = register_signal_ok [OF Cons.prems(1) 1]
  have e1: "evidence_ok st1" using a by blast
  note b = Cons.IH [OF e1 2]
  have "rs_evidence st2 = rs_evidence st @ (sig_evidence_id r, r) # map (\<lambda>r. (sig_evidence_id r, r)) rs1"
    using a b by simp
  moreover have "same_but_evidence st st2"
    using a b same_but_evidence_trans by blast
  ultimately show ?case using a b eq by simp
qed

lemma register_source_ok:
  assumes "sources_ok st" "register_source s st = (r, st')"
  shows "sources_ok st' \<and> same_but_sources st st'
    \<and> r = s\<lparr>sr_reference := sr_reference r\<rparr>
    \<and> (\<exists>more. rs_source_records st' = rs_source_records st @ more)"
proof -
  have n: "numbered_dict ''src_'' (rs_source_records st)" using assms(1) by (simp add: sources_ok_def)
  have "st' = st\<lparr>rs_source_records := rs_source_records st @ [(sr_reference r, r)]\<rparr>"
    "r = s\<lparr>sr_reference := numbered ''src_'' (length (rs_source_records st) + 1)\<rparr>"
    using assms(2) numbered_dict_put(1) [OF n] by (auto simp: register_source_def Let_def)
  then show ?thesis
    using assms(1) numbered_dict_put(2) [OF n, of r] by (auto simp: sources_ok_def same_but_sources_def)
qed

lemma register_sources_ok:
  "sources_ok st \<Longrightarrow> register_sources ss st = (rs, st') \<Longrightarrow>
   sources_ok st' \<and> same_but_sources st st'
   \<and> (\<exists>more. rs_source_records st' = rs_source_records st @ more)"
proof (induction ss arbitrary: st rs st')
  case (Cons s ss)
  obtain r st1 where 1: "register_source s st = (r, st1)" by fastforce
  obtain rs1 st2 where 2: "register_sources ss st1 = (rs1, st2)" by fastforce
  have eq: "st' = st2" using Cons.prems(2) 1 2 by auto
  note a = register_source_ok [OF Cons.prems(1) 1]
  have s1: "sources_ok st1" using a by blast
  obtain m where m: "rs_source_records st1 = rs_source_records st @ m" using a by blast
  obtain m2 where m2: "rs_source_records st2 = rs_source_records st1 @ m2"
    using Cons.IH [OF s1 2] by blast
  have "same_but_sources st st2"
    using a Cons.IH [OF s1 2] same_but_sources_trans by blast
  then show ?case using Cons.IH [OF s1 2] m m2 eq by simp
qed auto

text \<open>What a registration leaves behind, relative to the state before: more evidence and more source
  records at the end, verified candidates that carry registered signals, and nothing else of the
  run's bookkeeping.\<close>

definition extends_registry :: "run_state \<Rightarrow> run_state \<Rightarrow> bool" where
  "extends_registry st st' \<longleftrightarrow>
     (\<exists>ev. rs_evidence st' = rs_evidence st @ ev)
     \<and> (\<exists>srcs. rs_source_records st' = rs_source_records st @ srcs)
     \<and> rs_turns st' = rs_turns st \<and> rs_requested_route st' = rs_requested_route st
     \<and> rs_calls st' = rs_calls st"

lemma extends_registry_refl [simp]: "extends_registry st st"
  by (simp add: extends_registry_def)

lemma extends_registry_trans:
  "extends_registry a b \<Longrightarrow> extends_registry b c \<Longrightarrow> extends_registry a c"
  by (auto simp: extends_registry_def)

lemma same_but_evidence_extends:
  "same_but_evidence st st' \<Longrightarrow> rs_evidence st' = rs_evidence st @ ev \<Longrightarrow> extends_registry st st'"
  by (auto simp: same_but_evidence_def extends_registry_def)

lemma same_but_sources_extends:
  "same_but_sources st st' \<Longrightarrow> rs_source_records st' = rs_source_records st @ srcs \<Longrightarrow>
   extends_registry st st'"
  by (auto simp: same_but_sources_def extends_registry_def)

lemma verified_entry_mono:
  "verified_entry_ok ev e \<Longrightarrow> set ev \<subseteq> set ev' \<Longrightarrow> verified_entry_ok ev' e"
  by (auto simp: verified_entry_ok_def)

lemma verified_ok_extend:
  "verified_ok st \<Longrightarrow> rs_verified st' = rs_verified st \<Longrightarrow> rs_evidence st' = rs_evidence st @ ev \<Longrightarrow>
   verified_ok st'"
  unfolding verified_ok_def by (metis verified_entry_mono set_append sup_ge1)

lemma verified_ok_put:
  assumes "verified_ok st" "verified_entry_ok (rs_evidence st) (k, c)"
  shows "verified_ok (st\<lparr>rs_verified := dict_put k c (rs_verified st)\<rparr>)"
  using assms set_dict_put [of k c "rs_verified st"]
  by (auto simp: verified_ok_def distinct_dict_put)

lemma register_candidate_ok:
  assumes ok: "evidence_ok st" "sources_ok st" "verified_ok st"
    and reg: "register_candidate c st = (c', st')"
  shows "evidence_ok st' \<and> sources_ok st' \<and> verified_ok st' \<and> extends_registry st st'
    \<and> rs_source_available st' = rs_source_available st
    \<and> rs_search_count st' = rs_search_count st
    \<and> rs_search_succeeded st' = rs_search_succeeded st
    \<and> rs_search_conclusive st' = rs_search_conclusive st
    \<and> set (map fst (rs_verified st')) \<subseteq>
        set (map fst (rs_verified st)) \<union> (if ic_verified c then {candidate_key_of c} else {})"
proof -
  obtain sigs st1 where r: "register_signals (ic_evidence c) st = (sigs, st1)" by fastforce
  note a = register_signals_ok [OF ok(1) r]
  then obtain ev where st1: "st1 = st\<lparr>rs_evidence := ev\<rparr>" by (auto simp: same_but_evidence_def)
  define st2 where "st2 = st1\<lparr>rs_candidate_order_ids := insert (ic_order_id c) (rs_candidate_order_ids st1),
     rs_candidates := dict_put (candidate_key_of c) (c\<lparr>ic_evidence := sigs\<rparr>) (rs_candidates st1)\<rparr>"
  have st': "st' = (if ic_verified c
       then st2\<lparr>rs_verified := dict_put (candidate_key_of c) (c\<lparr>ic_evidence := sigs\<rparr>) (rs_verified st2)\<rparr>
       else st2)"
    using reg r by (auto simp: register_candidate_def Let_def candidate_key_of_def st2_def)
  have ev: "rs_evidence st2 = rs_evidence st @ map (\<lambda>r. (sig_evidence_id r, r)) sigs"
    using a by (simp add: st2_def)
  have "evidence_ok st1" using a by blast
  then have e2: "evidence_ok st2" by (simp add: st2_def evidence_ok_def)
  have s2: "sources_ok st2" using ok(2) by (simp add: st2_def st1 sources_ok_def)
  have v2: "verified_ok st2"
    by (rule verified_ok_extend [OF ok(3) _ ev]) (simp add: st2_def st1)
  have entry: "ic_verified c \<Longrightarrow>
      verified_entry_ok (rs_evidence st2) (candidate_key_of c, c\<lparr>ic_evidence := sigs\<rparr>)"
    using ev by (auto simp: verified_entry_ok_def candidate_key_of_def)
  have "verified_ok st'" using st' v2 verified_ok_put [OF v2 entry] by simp
  moreover have "evidence_ok st'" "sources_ok st'" "extends_registry st st'"
    using st' e2 s2 ev by (auto simp: evidence_ok_def sources_ok_def extends_registry_def st2_def st1)
  moreover have "set (map fst (rs_verified st')) \<subseteq>
      set (map fst (rs_verified st)) \<union> (if ic_verified c then {candidate_key_of c} else {})"
    using st' keys_dict_put [of "candidate_key_of c" "c\<lparr>ic_evidence := sigs\<rparr>" "rs_verified st2"]
    by (auto simp: st2_def st1)
  ultimately show ?thesis using st' by (auto simp: st2_def st1)
qed

lemma register_candidates_ok:
  "evidence_ok st \<Longrightarrow> sources_ok st \<Longrightarrow> verified_ok st \<Longrightarrow> register_candidates cs st = (cs', st') \<Longrightarrow>
   evidence_ok st' \<and> sources_ok st' \<and> verified_ok st' \<and> extends_registry st st'
   \<and> rs_source_available st' = rs_source_available st
   \<and> rs_search_count st' = rs_search_count st
   \<and> rs_search_succeeded st' = rs_search_succeeded st
   \<and> rs_search_conclusive st' = rs_search_conclusive st
   \<and> set (map fst (rs_verified st')) \<subseteq>
        set (map fst (rs_verified st)) \<union> candidate_key_of ` {c \<in> set cs. ic_verified c}"
proof (induction cs arbitrary: st cs' st')
  case (Cons c cs)
  obtain d st1 where 1: "register_candidate c st = (d, st1)" by fastforce
  obtain ds st2 where 2: "register_candidates cs st1 = (ds, st2)" by fastforce
  have eq: "st' = st2" using Cons.prems(4) 1 2 by auto
  note a = register_candidate_ok [OF Cons.prems(1-3) 1]
  have o: "evidence_ok st1" "sources_ok st1" "verified_ok st1" using a by blast+
  note b = Cons.IH [OF o 2]
  have "extends_registry st st2" using a b extends_registry_trans by blast
  moreover have "set (map fst (rs_verified st2)) \<subseteq>
      set (map fst (rs_verified st)) \<union> candidate_key_of ` {x \<in> set (c # cs). ic_verified x}"
  proof -
    have "set (map fst (rs_verified st1)) \<subseteq>
        set (map fst (rs_verified st)) \<union> (if ic_verified c then {candidate_key_of c} else {})"
      "set (map fst (rs_verified st2)) \<subseteq>
        set (map fst (rs_verified st1)) \<union> candidate_key_of ` {x \<in> set cs. ic_verified x}"
      using a b by blast+
    moreover have "candidate_key_of ` {x \<in> set (c # cs). ic_verified x}
        = (if ic_verified c then {candidate_key_of c} else {})
          \<union> candidate_key_of ` {x \<in> set cs. ic_verified x}"
      by auto
    ultimately show ?thesis by blast
  qed
  ultimately show ?case using a b eq by simp
qed auto

lemma note_availability_frame:
  "rs_evidence (note_availability name request obs st) = rs_evidence st
   \<and> rs_source_records (note_availability name request obs st) = rs_source_records st
   \<and> rs_verified (note_availability name request obs st) = rs_verified st
   \<and> rs_calls (note_availability name request obs st) = rs_calls st
   \<and> rs_turns (note_availability name request obs st) = rs_turns st
   \<and> rs_requested_route (note_availability name request obs st) = rs_requested_route st"
  by (simp add: note_availability_def Let_def)

lemma register_observation_ok:
  assumes ok: "run_state_ok st" and reg: "register_observation name request obs st = (obs', st')"
  shows "run_state_ok st' \<and> extends_registry st st'
    \<and> rs_search_count st' = rs_search_count (note_availability name request obs st)
    \<and> rs_search_succeeded st' = rs_search_succeeded (note_availability name request obs st)
    \<and> rs_search_conclusive st' = rs_search_conclusive (note_availability name request obs st)
    \<and> set (map fst (rs_verified st')) \<subseteq>
        set (map fst (rs_verified st)) \<union> candidate_key_of ` {c \<in> set (to_candidates obs). ic_verified c}"
proof -
  define st0 where "st0 = note_availability name request obs st"
  note f = note_availability_frame [of name request obs st, folded st0_def]
  obtain srcs st1 where 1: "register_sources (to_source_records obs) st0 = (srcs, st1)" by fastforce
  obtain sigs st2 where 2: "register_signals (to_evidence obs) st1 = (sigs, st2)" by fastforce
  obtain cands st3 where 3: "register_candidates (to_candidates obs) st2 = (cands, st3)" by fastforce
  have eq: "st' = st3"
    using reg 1 2 3 by (simp add: register_observation_def st0_def [symmetric])
  have o0: "evidence_ok st0" "sources_ok st0" "verified_ok st0" "extends_registry st st0"
    using ok f by (simp_all add: run_state_ok_def evidence_ok_def sources_ok_def verified_ok_def
        extends_registry_def)
  note a = register_sources_ok [OF o0(2) 1]
  obtain ss where ss: "st1 = st0\<lparr>rs_source_records := ss\<rparr>"
    using a by (auto simp: same_but_sources_def)
  have o1: "evidence_ok st1" "sources_ok st1" "verified_ok st1" "extends_registry st0 st1"
    using o0 a ss same_but_sources_extends
    by (auto simp: evidence_ok_def verified_ok_def)
  note b = register_signals_ok [OF o1(1) 2]
  obtain ev where ev: "st2 = st1\<lparr>rs_evidence := ev\<rparr>"
    using b by (auto simp: same_but_evidence_def)
  have e2: "rs_evidence st2 = rs_evidence st1 @ map (\<lambda>r. (sig_evidence_id r, r)) sigs" using b by blast
  have o2: "evidence_ok st2" "sources_ok st2" "verified_ok st2" "extends_registry st1 st2"
    using b o1(2) verified_ok_extend [OF o1(3) _ e2] same_but_evidence_extends [OF _ e2]
    by (auto simp: ev sources_ok_def)
  note c = register_candidates_ok [OF o2(1-3) 3]
  have ext: "extends_registry st st3"
    using o0(4) o1(4) o2(4) c extends_registry_trans by blast
  then have "calls_ok st3" using ok by (simp add: extends_registry_def run_state_ok_def calls_ok_def)
  then have "run_state_ok st3" using c by (simp add: run_state_ok_def)
  moreover have "rs_verified st2 = rs_verified st" using f by (simp add: ev ss)
  ultimately show ?thesis
    using c ext eq by (simp add: ev ss st0_def)
qed

lemma new_run_state_ok: "run_state_ok (new_run_state turns)"
  by (simp add: run_state_ok_def new_run_state_def evidence_ok_def sources_ok_def verified_ok_def
      calls_ok_def numbered_dict_def)

text \<open>How a call changes the run, on both of its branches.\<close>

lemma invoke_failed:
  assumes "call request = Inl e"
  shows "fst (invoke name request ms call st) = failed_observation name
    \<and> rs_evidence (snd (invoke name request ms call st)) = rs_evidence st
    \<and> rs_verified (snd (invoke name request ms call st)) = rs_verified st
    \<and> map_of (rs_source_available (snd (invoke name request ms call st))) name = Some False"
  using assms by (simp add: invoke_def Let_def row_simps)

lemma invoke_succeeded:
  assumes "call request = Inr obs"
    and "register_observation name request obs st = (obs', st1)"
  shows "invoke name request ms call st = (obs', st1\<lparr>rs_calls := rs_calls st1
    @ [succeeded_record (length (rs_calls st) + 1) name (safe_input_summary request) ms obs']\<rparr>)"
  using assms by (simp add: invoke_def Let_def)

lemma record_sequence [simp]:
  "ta_sequence (call_record n name status input ms) = n"
  "ta_sequence (succeeded_record n name input ms obs) = n"
  by (simp_all add: call_record_def succeeded_record_def)

lemma invoke_run_state_ok:
  assumes ok: "run_state_ok st"
  shows "run_state_ok (snd (invoke name request ms call st))
    \<and> (\<exists>ev. rs_evidence (snd (invoke name request ms call st)) = rs_evidence st @ ev)
    \<and> (\<exists>r. rs_calls (snd (invoke name request ms call st)) = rs_calls st @ [r]
         \<and> ta_tool_name r = name \<and> ta_input r = Some (safe_input_summary request)
         \<and> (ta_status r = ''failed'' \<longleftrightarrow> (\<exists>e. call request = Inl e \<and> ta_error r = Some e)))
    \<and> rs_turns (snd (invoke name request ms call st)) = rs_turns st
    \<and> rs_requested_route (snd (invoke name request ms call st)) = rs_requested_route st"
proof (cases "call request")
  case (Inl e)
  then show ?thesis
    using ok by (auto simp: invoke_def Let_def run_state_ok_def evidence_ok_def sources_ok_def
        verified_ok_def calls_ok_def call_record_def)
next
  case (Inr obs)
  obtain obs' st1 where r: "register_observation name request obs st = (obs', st1)" by fastforce
  note a = register_observation_ok [OF ok r]
  have calls: "rs_calls st1 = rs_calls st" "rs_turns st1 = rs_turns st"
      "rs_requested_route st1 = rs_requested_route st"
    and ev: "\<exists>ev. rs_evidence st1 = rs_evidence st @ ev"
    using a by (auto simp: extends_registry_def)
  have "run_state_ok st1" using a by blast
  then show ?thesis
    unfolding invoke_succeeded [where call = call, OF Inr r] using calls ev Inr
    by (simp add: run_state_ok_def evidence_ok_def sources_ok_def verified_ok_def calls_ok_def
        succeeded_record_def call_record_def)
qed

text \<open>C0: Every tool call of a run is accounted for. Starting from a consistent run state, the call
  appends exactly one audit row with the next sequence number, carrying the content-free summary of
  its input, and the row says \<open>failed\<close>, with the exception's name, exactly when the tool raised;
  evidence is only ever appended under fresh identifiers, and a tool that raised adds none.\<close>

theorem tool_calls_are_audited:
  assumes "run_state_ok st" "invoke name request ms call st = (out, st')"
  shows "run_state_ok st'
    \<and> (\<exists>r. rs_calls st' = rs_calls st @ [r] \<and> ta_sequence r = length (rs_calls st) + 1
         \<and> ta_tool_name r = name \<and> ta_input r = Some (safe_input_summary request)
         \<and> (ta_status r = ''failed'' \<longleftrightarrow> (\<exists>e. call request = Inl e \<and> ta_error r = Some e)))
    \<and> (\<exists>ev. rs_evidence st' = rs_evidence st @ ev \<and> distinct (map fst (rs_evidence st @ ev))
         \<and> ((\<exists>e. call request = Inl e) \<longrightarrow> ev = []))"
proof -
  have st': "st' = snd (invoke name request ms call st)" using assms(2) by simp
  note a = invoke_run_state_ok [OF assms(1), of name request ms call, folded st']
  obtain r where r: "rs_calls st' = rs_calls st @ [r]" "ta_tool_name r = name"
    "ta_input r = Some (safe_input_summary request)"
    "ta_status r = ''failed'' \<longleftrightarrow> (\<exists>e. call request = Inl e \<and> ta_error r = Some e)"
    using a by blast
  have "calls_ok st'" using a by (simp add: run_state_ok_def)
  then have "ta_sequence r = length (rs_calls st) + 1" using r(1) by (simp add: calls_ok_def)
  moreover obtain ev where ev: "rs_evidence st' = rs_evidence st @ ev" using a by blast
  moreover have "distinct (map fst (rs_evidence st'))"
    using a by (auto simp: run_state_ok_def evidence_ok_def intro: numbered_dict_distinct)
  moreover have "(\<exists>e. call request = Inl e) \<longrightarrow> ev = []"
    using ev invoke_failed [of call request _ name ms st] st' by auto
  ultimately show ?thesis using a r by (intro conjI exI [of _ r] exI [of _ ev]) simp_all
qed

definition example_state :: run_state where
  "example_state = snd (invoke ''search_payment_candidates'' (Payment_query example_query) 12
     (\<lambda>_. Inl ''TimeoutError'') (new_run_state (new_turns 14)))"

lemma tool_calls_are_audited_witness:
  "run_state_ok example_state \<and> (\<exists>r. rs_calls example_state = [r] \<and> ta_status r = ''failed''
     \<and> ta_error r = Some ''TimeoutError'')"
proof -
  have "invoke ''search_payment_candidates'' (Payment_query example_query) 12 (\<lambda>_. Inl ''TimeoutError'')
      (new_run_state (new_turns 14)) = (failed_observation ''search_payment_candidates'', example_state)"
    by (simp add: example_state_def invoke_def Let_def)
  from tool_calls_are_audited [OF new_run_state_ok this] show ?thesis
    by (auto simp: example_state_def invoke_def Let_def new_run_state_def call_record_def)
qed

section \<open>Verification through a contracted port\<close>

text \<open>The client side of the data port's contract: a verification adds to the verified candidates
  only candidates of the order (and account receivable) it asked about.\<close>

context investigation_port
begin

lemma verification_adds_requested:
  assumes "run_state_ok st"
    and call: "call (Verify_query q) = dp_verify_candidate port q \<or>
      call (Verify_query q) = dp_verify_sources port q srcs"
  shows "set (map fst (rs_verified (snd (invoke name (Verify_query q) ms call st)))) \<subseteq>
    set (map fst (rs_verified st))
    \<union> {(ord, rcv). ord = vc_order_id q \<and> (vc_account_receivable_id q = None \<or> rcv = vc_account_receivable_id q)}"
proof (cases "call (Verify_query q)")
  case (Inl e)
  then show ?thesis
    using invoke_failed [of call "Verify_query q" e name ms st] by auto
next
  case (Inr obs)
  obtain obs' st1 where r: "register_observation name (Verify_query q) obs st = (obs', st1)" by fastforce
  have sub: "set (map fst (rs_verified st1)) \<subseteq>
      set (map fst (rs_verified st)) \<union> candidate_key_of ` {c \<in> set (to_candidates obs). ic_verified c}"
    using register_observation_ok [OF assms(1) r] by blast
  have "requested q c" if "c \<in> set (to_candidates obs)" for c
    using call Inr that verify_scoped sources_scoped by metis
  then have keys: "candidate_key_of ` {c \<in> set (to_candidates obs). ic_verified c} \<subseteq>
      {(ord, rcv). ord = vc_order_id q \<and> (vc_account_receivable_id q = None \<or> rcv = vc_account_receivable_id q)}"
    by (auto simp: candidate_key_of_def requested_def)
  have "rs_verified (snd (invoke name (Verify_query q) ms call st)) = rs_verified st1"
    unfolding invoke_succeeded [where call = call, OF Inr r] by simp
  then show ?thesis using subset_trans [OF sub Un_mono [OF subset_refl keys]] by simp
qed

end

end
