(* ===== verification/Identification.thy ===== *)
theory Identification
  imports Evidence "HOL-Library.List_Lexorder" "HOL-Library.Multiset"
begin

text \<open>
  The policy half of the model runner (\<open>agent/openai_runner.py\<close>): the type of the model's structured
  answer, the resolution of the candidates and evidence it cites against the run's registry, the
  ranking and confidence rules, and \<open>_map_output\<close>, which turns the answer into the identification
  that is shown. Python's order on equally long tuples of integers is the lexicographic order on
  lists.
\<close>

section \<open>The model's structured answer\<close>

record model_candidate =
  mc_order_id :: string
  mc_account_receivable_id :: "string option"
  mc_evidence_ids :: "string list"

record model_identification =
  mo_outcome :: identification_outcome
  mo_recommended_customer :: "model_candidate option"
  mo_unable_to_verify :: "unverified_field list"
  mo_alternatives :: "model_candidate list"
  mo_clarification_question :: "string option"
  mo_route_correction :: "request_kind option"

definition model_candidate_ok :: "model_candidate \<Rightarrow> bool" where
  "model_candidate_ok c \<longleftrightarrow> 1 \<le> length (mc_evidence_ids c) \<and> length (mc_evidence_ids c) \<le> 8"

definition model_identification_ok :: "model_identification \<Rightarrow> bool" where
  \<comment> \<open>the field bounds of the output type, checked when the SDK parses the answer\<close>
  "model_identification_ok m \<longleftrightarrow>
     (case mo_recommended_customer m of None \<Rightarrow> True | Some c \<Rightarrow> model_candidate_ok c)
     \<and> length (mo_unable_to_verify m) \<le> 5
     \<and> length (mo_alternatives m) \<le> 3 \<and> list_all model_candidate_ok (mo_alternatives m)
     \<and> (case mo_clarification_question m of None \<Rightarrow> True | Some q \<Rightarrow> length q \<le> 240)"

definition direct_identity :: "evidence_kind list" where
  "direct_identity = [Customer_name, Signee_name, Rut, Email, Phone]"

definition bank_identity :: "evidence_kind list" where
  "bank_identity = [Bank_name, Bank_account]"

definition hard_contradictions :: "evidence_kind list" where
  "hard_contradictions = [Amount_exceeds_outstanding, Currency_mismatch]"

fun unverified_label :: "unverified_field \<Rightarrow> string" where
  "unverified_label Unv_amount = ''monto''"
| "unverified_label Unv_glosa = ''glosa''"
| "unverified_label Unv_transferor = ''transferente''"
| "unverified_label Unv_date = ''fecha''"
| "unverified_label Unv_customer_identity = ''identidad del cliente''"
| "unverified_label Unv_account_receivable = ''cuenta por cobrar''"
| "unverified_label Unv_vambe_context = ''contexto de Vambe''"
| "unverified_label Unv_payment_evidence = ''evidencia del pago''"

section \<open>Candidates and their signals\<close>

definition resolve_candidate ::
  "model_candidate \<Rightarrow> run_state \<Rightarrow> (candidate_key \<times> investigation_candidate) option" where
  "resolve_candidate value st =
     (let key = (mc_order_id value, mc_account_receivable_id value)
      in case map_of (rs_verified st) key of
           Some verified \<Rightarrow> Some (key, verified)
         | None \<Rightarrow>
             (if mc_account_receivable_id value \<noteq> None then None
              else case filter (\<lambda>e. fst (fst e) = mc_order_id value) (rs_verified st) of
                     [only] \<Rightarrow> Some only
                   | _ \<Rightarrow> None))"

definition belongs_to :: "candidate_key \<Rightarrow> evidence_signal \<Rightarrow> bool" where
  "belongs_to key s \<longleftrightarrow> sig_order_id s = Some (fst key)
     \<and> (sig_account_receivable_id s = None \<or> sig_account_receivable_id s = snd key)"

definition signals_for_candidate :: "candidate_key \<Rightarrow> run_state \<Rightarrow> evidence_signal list" where
  "signals_for_candidate key st = filter (belongs_to key) (map snd (rs_evidence st))"

definition by_evidence_id :: "evidence_signal list \<Rightarrow> (string \<times> evidence_signal) list" where
  \<comment> \<open>the dict comprehension \<open>{item.evidence_id: item for item in ...}\<close>\<close>
  "by_evidence_id ss = fold (\<lambda>s d. dict_put (sig_evidence_id s) s d) ss []"

definition selected_signals ::
  "model_candidate \<Rightarrow> candidate_key \<Rightarrow> run_state \<Rightarrow> evidence_signal list option" where
  "selected_signals value key st =
     (let allowed = by_evidence_id (signals_for_candidate key st);
          ids = mc_evidence_ids value
      in if ids = [] \<or> list_ex (\<lambda>i. map_of allowed i = None) ids then None
         else let signals = map (\<lambda>i. the (map_of allowed i)) (fromkeys ids)
              in if \<not> list_ex supports signals then None else Some signals)"

definition supporting_kinds :: "evidence_signal list \<Rightarrow> evidence_kind list" where
  "supporting_kinds ss = map sig_kind (filter supports ss)"

definition contradicting_kinds :: "evidence_signal list \<Rightarrow> evidence_kind list" where
  "contradicting_kinds ss = map sig_kind (filter contradicts ss)"

definition meets :: "evidence_kind list \<Rightarrow> evidence_kind list \<Rightarrow> bool" where
  \<comment> \<open>the truth of a set intersection\<close>
  "meets xs ys \<longleftrightarrow> list_ex (\<lambda>x. x \<in> set ys) xs"

definition material_contradiction :: "evidence_signal list \<Rightarrow> bool" where
  "material_contradiction ss =
     (let kinds = supporting_kinds ss; contra = contradicting_kinds ss
      in if meets contra hard_contradictions then True
         else if Identity_conflict \<in> set contra
         then \<not> (Vambe_context \<in> set kinds
                \<and> (Exact_outstanding \<in> set kinds \<or> Exact_address \<in> set kinds))
         else False)"

definition flag :: "bool \<Rightarrow> int" where
  "flag b = (if b then 1 else 0)"

definition rank :: "evidence_signal list \<Rightarrow> int list" where
  "rank ss =
     (let kinds = supporting_kinds ss
      in [flag (Exact_address \<in> set kinds),
          int (length (filter (\<lambda>k. k \<in> set kinds) direct_identity)),
          flag (Exact_outstanding \<in> set kinds),
          flag (Vambe_context \<in> set kinds),
          flag (Partial_address \<in> set kinds),
          flag (Name_fragment \<in> set kinds),
          flag (Partial_payment \<in> set kinds),
          - int (length (filter contradicts ss))])"

definition confidence_of :: "evidence_signal list \<Rightarrow> confidence" where
  "confidence_of ss =
     (if material_contradiction ss then Conf_unknown
      else let kinds = supporting_kinds ss
           in if Exact_address \<in> set kinds then Conf_high
              else if meets kinds direct_identity then Conf_medium
              else if Exact_outstanding \<in> set kinds
                \<and> (Vambe_context \<in> set kinds \<or> Partial_address \<in> set kinds
                    \<or> Name_fragment \<in> set kinds \<or> meets kinds bank_identity)
              then Conf_medium
              else Conf_unknown)"

definition signal_identity :: "evidence_signal \<Rightarrow> string" where
  "signal_identity s =
     (if sig_evidence_id s \<noteq> '''' then sig_evidence_id s
      else str_join ''|''
        [case sig_order_id s of None \<Rightarrow> '''' | Some x \<Rightarrow> x,
         case sig_account_receivable_id s of None \<Rightarrow> '''' | Some x \<Rightarrow> x,
         evidence_kind_value (sig_kind s),
         evidence_polarity_value (sig_polarity s),
         sig_description s])"

fun dedup_from :: "string list \<Rightarrow> evidence_signal list \<Rightarrow> evidence_signal list" where
  "dedup_from seen [] = []"
| "dedup_from seen (s # ss) =
     (if signal_identity s \<in> set seen then dedup_from seen ss
      else s # dedup_from (signal_identity s # seen) ss)"

definition deduplicate_signals :: "evidence_signal list \<Rightarrow> evidence_signal list" where
  "deduplicate_signals ss = dedup_from [] ss"

section \<open>Percent encoding\<close>

definition code_point :: "char \<Rightarrow> nat" where
  \<comment> \<open>the Unicode code point of a character of the model's alphabet\<close>
  "code_point c =
     (case map_of
        [(128, 8364), (130, 8218), (131, 402), (132, 8222), (133, 8230), (134, 8224), (135, 8225),
         (136, 710), (137, 8240), (138, 352), (139, 8249), (140, 338), (142, 381), (145, 8216),
         (146, 8217), (147, 8220), (148, 8221), (149, 8226), (150, 8211), (151, 8212), (152, 732),
         (153, 8482), (154, 353), (155, 8250), (156, 339), (158, 382), (159, 376)] (code c) of
        Some p \<Rightarrow> p
      | None \<Rightarrow> code c)"

definition utf8 :: "char \<Rightarrow> nat list" where
  "utf8 c =
     (let p = code_point c
      in if p < 128 then [p]
         else if p < 2048 then [192 + p div 64, 128 + p mod 64]
         else [224 + p div 4096, 128 + p div 64 mod 64, 128 + p mod 64])"

definition upper_hex :: "nat \<Rightarrow> char" where
  "upper_hex d = (if d < 10 then char_of (48 + d) else char_of (55 + d))"

definition unreserved :: "char \<Rightarrow> bool" where
  "unreserved c \<longleftrightarrow> is_plain c \<or> (65 \<le> code c \<and> code c \<le> 90) \<or> c \<in> set ''_.-~''"

definition quote_char :: "char \<Rightarrow> string" where
  "quote_char c =
     (if unreserved c then [c]
      else concat (map (\<lambda>b. [CHR 0x25, upper_hex (b div 16), upper_hex (b mod 16)]) (utf8 c)))"

definition url_quote :: "string \<Rightarrow> string" where
  \<comment> \<open>\<open>urllib.parse.quote(text, safe="")\<close>\<close>
  "url_quote s = concat (map quote_char s)"

lemma url_quote_unreserved: "list_all unreserved s \<Longrightarrow> url_quote s = s"
  by (induction s) (auto simp: url_quote_def quote_char_def)

lemma upper_hex_unreserved: "d < 16 \<Longrightarrow> unreserved (upper_hex d)"
  by (auto simp: upper_hex_def unreserved_def is_plain_def code_def)

lemma utf8_bytes: "b \<in> set (utf8 c) \<Longrightarrow> b < 256"
proof -
  have "code c < 256" by (simp add: code_def)
  then have "code_point c < 65536"
    unfolding code_point_def by (simp split: option.split)
  then show "b \<in> set (utf8 c) \<Longrightarrow> b < 256"
    by (auto simp: utf8_def Let_def split: if_splits)
qed

lemma url_quote_chars:
  "d \<in> set (url_quote s) \<Longrightarrow> unreserved d \<or> d = CHR 0x25"
proof -
  assume "d \<in> set (url_quote s)"
  then obtain c where d: "d \<in> set (quote_char c)" by (auto simp: url_quote_def)
  show ?thesis
  proof (cases "unreserved c")
    case True
    with d show ?thesis by (simp add: quote_char_def)
  next
    case False
    with d have "d = CHR 0x25 \<or> (\<exists>b \<in> set (utf8 c). d = upper_hex (b div 16) \<or> d = upper_hex (b mod 16))"
      by (auto simp: quote_char_def split: if_splits)
    then show ?thesis using utf8_bytes [of _ c] by (fastforce intro: upper_hex_unreserved)
  qed
qed

section \<open>From the model's answer to an identification\<close>

definition descriptions :: "evidence_signal list \<Rightarrow> string list" where
  "descriptions ss = fromkeys (map sig_description ss)"

definition customer_of ::
  "app_config \<Rightarrow> model_candidate \<Rightarrow> investigation_candidate \<Rightarrow> evidence_signal list
   \<Rightarrow> customer_candidate" where
  "customer_of cfg value verified signals = \<lparr>
     cc_customer_name = ic_customer_name verified,
     cc_order_id = mc_order_id value,
     cc_crm_url = rstrip_char (CHR ''/'') (crm_finops_base_url cfg) @ ''/'' @ url_quote (mc_order_id value),
     cc_reason = str_join '' '' (take 2 (descriptions (filter supports signals))),
     cc_evidence_ids = map sig_evidence_id signals\<rparr>"

definition source_labels :: "(string \<times> string) list" where
  "source_labels =
     [(''search_payment_candidates'', ''b'' @ [CHR 0xFA] @ ''squeda de clientes''),
      (''verify_payment_candidate'', ''verificaci'' @ [CHR 0xF3] @ ''n del cliente''),
      (''search_vambe_messages'', ''contexto de Vambe'')]"

definition unable_to_verify :: "model_identification \<Rightarrow> run_state \<Rightarrow> string list" where
  "unable_to_verify out st =
     take 3 (fromkeys
       (map unverified_label (mo_unable_to_verify out)
        @ map snd (filter (\<lambda>p. map_of (rs_source_available st) (fst p) = Some False) source_labels)))"

definition summary_of :: "evidence_signal list \<Rightarrow> string \<Rightarrow> string" where
  "summary_of ss fallback =
     (let canonical = deduplicate_signals ss;
          text = str_join '' '' (take 3 (descriptions (filter supports canonical))
                                @ take 2 (descriptions (filter contradicts canonical)))
      in if text \<noteq> '''' then text else fallback)"

type_synonym resolved = "int list \<times> customer_candidate \<times> evidence_signal list"

definition meaningful :: "evidence_signal list \<Rightarrow> bool" where
  "meaningful ss \<longleftrightarrow>
     (let kinds = supporting_kinds ss
      in confidence_of ss \<noteq> Conf_unknown \<or> Exact_outstanding \<in> set kinds
         \<or> Exact_address \<in> set kinds \<or> Partial_address \<in> set kinds)"

fun resolve_alternatives ::
  "app_config \<Rightarrow> run_state \<Rightarrow> candidate_key list \<Rightarrow> model_candidate list \<Rightarrow> resolved list" where
  "resolve_alternatives cfg st seen [] = []"
| "resolve_alternatives cfg st seen (v # vs) =
     (case resolve_candidate v st of
        None \<Rightarrow> resolve_alternatives cfg st seen vs
      | Some (key, verified) \<Rightarrow>
          (if key \<in> set seen then resolve_alternatives cfg st seen vs
           else case selected_signals v key st of
                  None \<Rightarrow> resolve_alternatives cfg st seen vs
                | Some signals \<Rightarrow>
                    (if \<not> meaningful signals then resolve_alternatives cfg st seen vs
                     else (rank signals, customer_of cfg v verified signals, signals)
                          # resolve_alternatives cfg st (key # seen) vs)))"

definition sort_desc :: "resolved list \<Rightarrow> resolved list" where
  \<comment> \<open>\<open>sort(key=..., reverse=True)\<close>: descending, equal keys keep their order\<close>
  "sort_desc rs = rev (sort_key fst (rev rs))"

definition alternatives_of ::
  "app_config \<Rightarrow> model_candidate list \<Rightarrow> run_state
   \<Rightarrow> customer_candidate list \<times> evidence_signal list" where
  "alternatives_of cfg values st =
     (let best = take 3 (sort_desc (resolve_alternatives cfg st [] values))
      in (map (\<lambda>r. fst (snd r)) best,
          deduplicate_signals (concat (map (\<lambda>r. snd (snd r)) best))))"

definition ambiguous ::
  "app_config \<Rightarrow> model_identification \<Rightarrow> run_state \<Rightarrow> string \<Rightarrow> bool
   \<Rightarrow> exn_name + payment_identification" where
  "ambiguous cfg out st summary include_recommendation =
     (let values = (case mo_recommended_customer out of
                      Some r \<Rightarrow> (if include_recommendation then r # mo_alternatives out
                                else mo_alternatives out)
                    | None \<Rightarrow> mo_alternatives out);
          (alts, ev) = alternatives_of cfg values st
      in build_identification \<lparr>pi_outcome = Out_ambiguous, pi_recommended_customer = None,
           pi_account_receivable_summary = None, pi_confidence = Conf_unknown,
           pi_investigation_summary = summary, pi_unable_to_verify = unable_to_verify out st,
           pi_alternatives = alts, pi_evidence = ev,
           pi_clarification_question = mo_clarification_question out\<rparr>)"

definition not_found :: "model_identification \<Rightarrow> run_state \<Rightarrow> exn_name + payment_identification" where
  "not_found out st =
     build_identification \<lparr>pi_outcome = Out_no_customer_found, pi_recommended_customer = None,
       pi_account_receivable_summary = None, pi_confidence = Conf_unknown,
       pi_investigation_summary = ''No encontr'' @ [CHR 0xE9] @ '' coincidencias en las identidades consultadas; ''
         @ ''esto no descarta otros v'' @ [CHR 0xED] @ ''nculos con un cliente.'',
       pi_unable_to_verify = unable_to_verify out st, pi_alternatives = [], pi_evidence = [],
       pi_clarification_question = mo_clarification_question out\<rparr>"

definition may_rule_out :: "run_state \<Rightarrow> bool" where
  "may_rule_out st \<longleftrightarrow> rs_search_succeeded st \<and> rs_search_conclusive st \<and> rs_search_count st = Some 0"

definition competitor_exists :: "candidate_key \<Rightarrow> run_state \<Rightarrow> bool" where
  "competitor_exists key st \<longleftrightarrow>
     (let target = rank (signals_for_candidate key st)
      in list_ex (\<lambda>k. k \<noteq> key \<and> target \<le> rank (signals_for_candidate k st)) (map fst (rs_verified st)))"

definition matched ::
  "app_config \<Rightarrow> model_identification \<Rightarrow> run_state \<Rightarrow> model_candidate \<Rightarrow> investigation_candidate
   \<Rightarrow> evidence_signal list \<Rightarrow> exn_name + payment_identification" where
  "matched cfg out st value verified grounded =
     (let missing = unable_to_verify out st;
          missing' = (if ic_account_receivable_id verified = None
                      then take 3 (fromkeys (missing @ [''cuenta por cobrar elegible'']))
                      else missing)
      in build_identification \<lparr>pi_outcome = Out_matched,
           pi_recommended_customer = Some (customer_of cfg value verified grounded),
           pi_account_receivable_summary = ic_account_receivable_summary verified,
           pi_confidence = confidence_of grounded,
           pi_investigation_summary =
             summary_of grounded ''El cliente y la cuenta por cobrar fueron verificados.'',
           pi_unable_to_verify = missing', pi_alternatives = [], pi_evidence = grounded,
           pi_clarification_question = None\<rparr>)"

definition grounded_signals ::
  "evidence_signal list \<Rightarrow> candidate_key \<Rightarrow> run_state \<Rightarrow> evidence_signal list" where
  \<comment> \<open>the cited signals and every contradiction the run holds against the candidate\<close>
  "grounded_signals selected key st =
     deduplicate_signals (selected @ filter contradicts (signals_for_candidate key st))"

definition recommend ::
  "app_config \<Rightarrow> model_identification \<Rightarrow> run_state \<Rightarrow> model_candidate
   \<Rightarrow> exn_name + payment_identification" where
  \<comment> \<open>the part of \<open>_map_output\<close> after a customer was recommended\<close>
  "recommend cfg out st value =
     (case resolve_candidate value st of
        None \<Rightarrow> ambiguous cfg out st (''La propuesta no fue verificada por las herramientas.'') True
      | Some (key, verified) \<Rightarrow>
          (case selected_signals value key st of
             None \<Rightarrow> ambiguous cfg out st
               (''La propuesta no cit'' @ [CHR 0xF3] @ '' evidencia v'' @ [CHR 0xE1]
                @ ''lida de esta investigaci'' @ [CHR 0xF3] @ ''n.'') True
           | Some selected \<Rightarrow>
               (let grounded = grounded_signals selected key st
                in if confidence_of grounded = Conf_unknown
                   then ambiguous cfg out st (summary_of grounded
                     ''La evidencia disponible es insuficiente o contradictoria.'') True
                   else if competitor_exists key st
                   then ambiguous cfg out st
                     (''Hay m'' @ [CHR 0xE1] @ ''s de un cliente con evidencia de igual o mayor precedencia.'') True
                   else matched cfg out st value verified grounded)))"

definition map_output ::
  "app_config \<Rightarrow> model_identification \<Rightarrow> run_state \<Rightarrow> exn_name + payment_identification" where
  "map_output cfg out st =
     (if mo_outcome out = Out_out_of_scope
      then ambiguous cfg out st (''El flujo de pagos no recibi'' @ [CHR 0xF3]
             @ '' evidencia suficiente para identificar.'') False
      else if mo_outcome out = Out_no_customer_found
      then (if may_rule_out st then not_found out st
            else ambiguous cfg out st (''No fue posible completar una b'' @ [CHR 0xFA]
              @ ''squeda suficiente para descartar clientes.'') False)
      else if mo_outcome out = Out_ambiguous
      then ambiguous cfg out st (''La evidencia no permite elegir un '' @ [CHR 0xFA] @ ''nico cliente.'') False
      else case mo_recommended_customer out of
             None \<Rightarrow> ambiguous cfg out st (''El resultado no incluy'' @ [CHR 0xF3] @ '' un cliente verificable.'') False
           | Some value \<Rightarrow> recommend cfg out st value)"

section \<open>What an identification guarantees\<close>

lemma build_ambiguous [simp]:
  "pi_outcome p = Out_ambiguous \<Longrightarrow> pi_recommended_customer p = None \<Longrightarrow>
   pi_account_receivable_summary p = None \<Longrightarrow> pi_confidence p = Conf_unknown \<Longrightarrow>
   length (pi_alternatives p) \<le> 3 \<Longrightarrow>
   (\<forall>q. pi_clarification_question p = Some q \<longrightarrow> length q \<le> 240) \<Longrightarrow>
   build_identification p = Inr p"
  by (auto simp: build_identification_def outcome_is_consistent_def)

lemma length_alternatives: "length (fst (alternatives_of cfg values st)) \<le> 3"
  by (simp add: alternatives_of_def Let_def)

lemma ambiguous_Inr:
  assumes "model_identification_ok out"
  shows "\<exists>p. ambiguous cfg out st summary incl = Inr p \<and> pi_outcome p = Out_ambiguous
    \<and> pi_recommended_customer p = None \<and> pi_investigation_summary p = summary"
proof -
  define vs where "vs = (case mo_recommended_customer out of
      Some r \<Rightarrow> (if incl then r # mo_alternatives out else mo_alternatives out)
    | None \<Rightarrow> mo_alternatives out)"
  have q: "\<forall>q. mo_clarification_question out = Some q \<longrightarrow> length q \<le> 240"
    using assms by (auto simp: model_identification_ok_def split: option.splits)
  show ?thesis
    using q length_alternatives [of cfg vs st]
    unfolding ambiguous_def vs_def [symmetric]
    by (cases "alternatives_of cfg vs st") (simp add: Let_def)
qed

lemma ambiguous_outcome:
  "ambiguous cfg out st summary incl = Inr p \<Longrightarrow> pi_outcome p = Out_ambiguous"
  unfolding ambiguous_def Let_def
  by (auto dest!: build_identification_Inr split: prod.splits)

lemma resolve_candidate_Some:
  assumes "resolve_candidate value st = Some (key, c)" "verified_ok st"
  shows "map_of (rs_verified st) key = Some c \<and> ic_verified c \<and> candidate_key_of c = key
    \<and> fst key = mc_order_id value
    \<and> (mc_account_receivable_id value \<noteq> None \<longrightarrow> snd key = mc_account_receivable_id value)"
proof -
  have mem: "map_of (rs_verified st) key = Some c \<and> fst key = mc_order_id value
    \<and> (mc_account_receivable_id value \<noteq> None \<longrightarrow> snd key = mc_account_receivable_id value)"
  proof (cases "map_of (rs_verified st) (mc_order_id value, mc_account_receivable_id value)")
    case (Some d)
    with assms(1) show ?thesis by (auto simp: resolve_candidate_def)
  next
    case None
    with assms(1) have n: "mc_account_receivable_id value = None"
      and f: "filter (\<lambda>e. fst (fst e) = mc_order_id value) (rs_verified st) = [(key, c)]"
      by (auto simp: resolve_candidate_def Let_def split: if_splits list.splits)
    have "(key, c) \<in> set (filter (\<lambda>e. fst (fst e) = mc_order_id value) (rs_verified st))"
      by (simp add: f)
    then have "(key, c) \<in> set (rs_verified st)" "fst key = mc_order_id value" by simp_all
    moreover have "distinct (map fst (rs_verified st))" using assms(2) by (simp add: verified_ok_def)
    ultimately show ?thesis using n by simp
  qed
  then have "verified_entry_ok (rs_evidence st) (key, c)"
    using assms(2) unfolding verified_ok_def by (meson map_of_SomeD)
  with mem show ?thesis by (simp add: verified_entry_ok_def)
qed

lemma by_evidence_id_Some:
  "map_of (by_evidence_id ss) i = Some s \<Longrightarrow> s \<in> set ss \<and> sig_evidence_id s = i"
proof -
  have "map_of (fold (\<lambda>s d. dict_put (sig_evidence_id s) s d) ss d) i = Some s \<Longrightarrow>
      map_of d i = Some s \<or> s \<in> set ss \<and> sig_evidence_id s = i" for d
  proof (induction ss arbitrary: d)
    case (Cons a ss)
    from Cons.prems Cons.IH [of "dict_put (sig_evidence_id a) a d"] show ?case
      by (auto simp: map_of_dict_put split: if_split_asm)
  qed simp
  from this [of "[]"] show "map_of (by_evidence_id ss) i = Some s \<Longrightarrow> ?thesis"
    by (simp add: by_evidence_id_def)
qed

lemma selected_signals_Some:
  assumes "selected_signals value key st = Some ss"
  shows "map sig_evidence_id ss = fromkeys (mc_evidence_ids value)
    \<and> set ss \<subseteq> set (signals_for_candidate key st) \<and> (\<exists>s \<in> set ss. supports s)"
proof -
  define allowed where "allowed = by_evidence_id (signals_for_candidate key st)"
  have all: "list_all (\<lambda>i. map_of allowed i \<noteq> None) (mc_evidence_ids value)"
    and ss: "ss = map (\<lambda>i. the (map_of allowed i)) (fromkeys (mc_evidence_ids value))"
    and sup: "list_ex supports ss"
    using assms
    by (auto simp: selected_signals_def allowed_def [symmetric] Let_def list_ex_iff list_all_iff
        split: if_splits)
  have one: "the (map_of allowed i) \<in> set (signals_for_candidate key st)
      \<and> sig_evidence_id (the (map_of allowed i)) = i" if "i \<in> set (mc_evidence_ids value)" for i
    using all that by_evidence_id_Some [of "signals_for_candidate key st" i]
    by (auto simp: list_all_iff allowed_def)
  have "map sig_evidence_id ss = fromkeys (mc_evidence_ids value)"
    unfolding ss by (simp add: comp_def) (rule map_idI, simp add: one)
  moreover have "set ss \<subseteq> set (signals_for_candidate key st)" using one ss by auto
  ultimately show ?thesis using sup by (auto simp: list_ex_iff)
qed

lemma dedup_from_set:
  "set (dedup_from seen ss) \<subseteq> set ss
   \<and> signal_identity ` set ss \<subseteq> set seen \<union> signal_identity ` set (dedup_from seen ss)
   \<and> distinct (map signal_identity (dedup_from seen ss))
   \<and> (\<forall>s \<in> set (dedup_from seen ss). signal_identity s \<notin> set seen)"
proof (induction seen ss rule: dedup_from.induct)
  case (2 seen s ss)
  then show ?case by (cases "signal_identity s \<in> set seen") auto
qed simp

lemma numbered_not_empty: "numbered p n \<noteq> ''''"
  by (simp add: numbered_def zero_pad_def show_nat.simps [of n])

lemma signals_registered:
  assumes "evidence_ok st" "s \<in> set (signals_for_candidate key st)"
  shows "(sig_evidence_id s, s) \<in> set (rs_evidence st) \<and> belongs_to key s
    \<and> signal_identity s = sig_evidence_id s"
proof -
  obtain k where k: "(k, s) \<in> set (rs_evidence st)" and b: "belongs_to key s"
    using assms(2) by (auto simp: signals_for_candidate_def)
  have id: "sig_evidence_id s = k" using assms(1) k by (auto simp: evidence_ok_def)
  have "k \<in> set (map fst (rs_evidence st))" using k by force
  moreover have "map fst (rs_evidence st) = map (numbered ''ev_'') [1..<Suc (length (rs_evidence st))]"
    using assms(1) by (simp add: evidence_ok_def numbered_dict_def)
  ultimately obtain n where "k = numbered ''ev_'' n" by auto
  then have "k \<noteq> ''''" using numbered_not_empty by simp
  then show ?thesis using k b id by (simp add: signal_identity_def)
qed

lemma registered_unique:
  assumes "evidence_ok st" "s \<in> set (signals_for_candidate key st)"
    "t \<in> set (signals_for_candidate key st)" "signal_identity s = signal_identity t"
  shows "s = t"
proof -
  have "distinct (map fst (rs_evidence st))"
    using assms(1) numbered_dict_distinct unfolding evidence_ok_def by blast
  then show ?thesis
    using signals_registered [OF assms(1,2)] signals_registered [OF assms(1,3)] assms(4)
    by (metis eq_key_imp_eq_value)
qed

lemma deduplicate_registered:
  assumes "evidence_ok st" "set ss \<subseteq> set (signals_for_candidate key st)"
  shows "set (deduplicate_signals ss) = set ss"
proof
  note d = dedup_from_set [of "[]" ss, folded deduplicate_signals_def]
  then show "set (deduplicate_signals ss) \<subseteq> set ss" by blast
  show "set ss \<subseteq> set (deduplicate_signals ss)"
  proof
    fix s assume s: "s \<in> set ss"
    then obtain t where t: "t \<in> set (deduplicate_signals ss)" "signal_identity s = signal_identity t"
      using d by auto
    then have "t \<in> set ss" using d by blast
    then show "s \<in> set (deduplicate_signals ss)"
      using registered_unique [OF assms(1)] s t assms(2) by (metis subsetD)
  qed
qed

lemma grounded_set:
  assumes "evidence_ok st" "set selected \<subseteq> set (signals_for_candidate key st)"
  shows "set (grounded_signals selected key st) =
    set selected \<union> {s \<in> set (signals_for_candidate key st). contradicts s}"
  unfolding grounded_signals_def
  by (subst deduplicate_registered [OF assms(1), of _ key]) (use assms(2) in auto)

definition corroborated :: "evidence_signal list \<Rightarrow> bool" where
  \<comment> \<open>an exact balance together with context, a partial address or name, or a bank identity\<close>
  "corroborated ss \<longleftrightarrow> Exact_outstanding \<in> set (supporting_kinds ss)
     \<and> set (supporting_kinds ss) \<inter> {Vambe_context, Partial_address, Name_fragment, Bank_name, Bank_account} \<noteq> {}"

lemma confidence_cases:
  "confidence_of ss = Conf_high \<Longrightarrow> Exact_address \<in> set (supporting_kinds ss)"
  "confidence_of ss = Conf_medium \<Longrightarrow>
     set (supporting_kinds ss) \<inter> set direct_identity \<noteq> {} \<or> corroborated ss"
  "confidence_of ss \<noteq> Conf_unknown \<Longrightarrow> \<not> material_contradiction ss"
  "confidence_of ss \<noteq> Conf_low"
  by (auto simp: confidence_of_def corroborated_def meets_def list_ex_iff bank_identity_def Let_def
      split: if_splits)

lemma confidence_known:
  "confidence_of ss \<noteq> Conf_unknown \<Longrightarrow> confidence_of ss = Conf_high \<or> confidence_of ss = Conf_medium"
  using confidence_cases(4) [of ss] by (cases "confidence_of ss") auto

lemma no_hard_contradiction:
  "confidence_of ss \<noteq> Conf_unknown \<Longrightarrow> s \<in> set ss \<Longrightarrow> contradicts s \<Longrightarrow>
   sig_kind s \<notin> {Amount_exceeds_outstanding, Currency_mismatch}"
  using confidence_cases(3) [of ss]
  by (auto simp: material_contradiction_def meets_def list_ex_iff contradicting_kinds_def
      hard_contradictions_def Let_def split: if_splits)

text \<open>The shape of a match: what \<open>recommend\<close> went through.\<close>

definition match_of ::
  "app_config \<Rightarrow> model_identification \<Rightarrow> run_state \<Rightarrow> model_candidate \<Rightarrow> candidate_key
   \<Rightarrow> investigation_candidate \<Rightarrow> evidence_signal list \<Rightarrow> payment_identification \<Rightarrow> bool" where
  "match_of cfg out st value key verified selected p \<longleftrightarrow>
     mo_outcome out = Out_matched \<and> mo_recommended_customer out = Some value
     \<and> resolve_candidate value st = Some (key, verified)
     \<and> selected_signals value key st = Some selected
     \<and> confidence_of (grounded_signals selected key st) \<noteq> Conf_unknown
     \<and> \<not> competitor_exists key st
     \<and> matched cfg out st value verified (grounded_signals selected key st) = Inr p"

lemma matched_fields:
  "matched cfg out st value verified grounded = Inr p \<Longrightarrow>
   pi_recommended_customer p = Some (customer_of cfg value verified grounded)
   \<and> pi_confidence p = confidence_of grounded \<and> pi_evidence p = grounded
   \<and> pi_account_receivable_summary p = ic_account_receivable_summary verified
   \<and> pi_outcome p = Out_matched \<and> pi_alternatives p = []"
  unfolding matched_def Let_def by (drule build_identification_Inr) simp

lemma matched_Inr:
  "confidence_of grounded \<noteq> Conf_unknown \<Longrightarrow> \<exists>p. matched cfg out st value verified grounded = Inr p"
  using confidence_known [of grounded]
  by (auto simp: matched_def Let_def build_identification_def outcome_is_consistent_def)

lemma not_found_Inr:
  "model_identification_ok out \<Longrightarrow> \<exists>p. not_found out st = Inr p \<and> pi_outcome p = Out_no_customer_found"
  by (auto simp: not_found_def build_identification_def outcome_is_consistent_def
      model_identification_ok_def split: option.splits)

lemma not_found_outcome: "not_found out st = Inr p \<Longrightarrow> pi_outcome p = Out_no_customer_found"
  unfolding not_found_def by (drule build_identification_Inr) simp

lemma recommend_matched:
  assumes "recommend cfg out st value = Inr p" "pi_outcome p = Out_matched"
    "mo_outcome out = Out_matched" "mo_recommended_customer out = Some value"
  shows "\<exists>key verified selected. match_of cfg out st value key verified selected p"
proof (cases "resolve_candidate value st")
  case None
  with assms show ?thesis by (auto simp: recommend_def dest: ambiguous_outcome)
next
  case (Some r)
  obtain key verified where r: "r = (key, verified)" by fastforce
  show ?thesis
  proof (cases "selected_signals value key st")
    case None
    with assms Some r show ?thesis by (auto simp: recommend_def dest: ambiguous_outcome)
  next
    case (Some selected)
    have "confidence_of (grounded_signals selected key st) \<noteq> Conf_unknown"
      "\<not> competitor_exists key st"
      "matched cfg out st value verified (grounded_signals selected key st) = Inr p"
      using assms \<open>resolve_candidate value st = Some r\<close> r Some
      by (auto simp: recommend_def Let_def dest: ambiguous_outcome split: if_splits)
    then show ?thesis
      using assms \<open>resolve_candidate value st = Some r\<close> r Some by (auto simp: match_of_def)
  qed
qed

lemma map_output_matched:
  assumes "map_output cfg out st = Inr p" "pi_outcome p = Out_matched"
  shows "\<exists>value key verified selected. match_of cfg out st value key verified selected p"
proof -
  have "mo_outcome out = Out_matched"
    using assms ambiguous_outcome not_found_outcome
    by (cases "mo_outcome out") (fastforce simp: map_output_def split: if_splits)+
  then obtain v where "mo_outcome out = Out_matched" "mo_recommended_customer out = Some v"
    "recommend cfg out st v = Inr p"
    using assms by (auto simp: map_output_def dest: ambiguous_outcome split: option.splits)
  then show ?thesis using recommend_matched assms(2) by blast
qed

text \<open>C2: An identification is only a match when it is grounded. The recommended customer is one the
  tools verified in this run, under the order the model named (and the account receivable it named,
  if any); every identifier the model cited is evidence of this run about that very candidate, at
  least one cited signal supports it, all of it is shown, and so is every contradiction the run
  holds against the candidate, even if the model left it out.\<close>

theorem matched_is_grounded:
  assumes "run_state_ok st" "map_output cfg out st = Inr p" "pi_outcome p = Out_matched"
  shows "\<exists>v key verified c.
    mo_recommended_customer out = Some v \<and> map_of (rs_verified st) key = Some verified
    \<and> ic_verified verified \<and> fst key = mc_order_id v
    \<and> (mc_account_receivable_id v \<noteq> None \<longrightarrow> snd key = mc_account_receivable_id v)
    \<and> pi_recommended_customer p = Some c
    \<and> cc_customer_name c = ic_customer_name verified \<and> cc_order_id c = ic_order_id verified
    \<and> set (mc_evidence_ids v) \<subseteq> sig_evidence_id ` set (pi_evidence p)
    \<and> (\<forall>s \<in> set (pi_evidence p). (sig_evidence_id s, s) \<in> set (rs_evidence st) \<and> belongs_to key s)
    \<and> (\<exists>s \<in> set (pi_evidence p). supports s \<and> sig_evidence_id s \<in> set (mc_evidence_ids v))
    \<and> (\<forall>s \<in> set (signals_for_candidate key st). contradicts s \<longrightarrow> s \<in> set (pi_evidence p))"
proof -
  have ok: "evidence_ok st" "verified_ok st" using assms(1) by (simp_all add: run_state_ok_def)
  obtain v key verified selected where m: "match_of cfg out st v key verified selected p"
    using map_output_matched [OF assms(2,3)] by blast
  then have res: "resolve_candidate v st = Some (key, verified)"
    and sel: "selected_signals v key st = Some selected"
    and fin: "matched cfg out st v verified (grounded_signals selected key st) = Inr p"
    and rec: "mo_recommended_customer out = Some v"
    by (simp_all add: match_of_def)
  note r = resolve_candidate_Some [OF res ok(2)]
  note s = selected_signals_Some [OF sel]
  note f = matched_fields [OF fin]
  have ids: "sig_evidence_id ` set selected = set (mc_evidence_ids v)"
    using s by (metis list.set_map set_fromkeys)
  have ev: "set (pi_evidence p) = set selected \<union> {x \<in> set (signals_for_candidate key st). contradicts x}"
    using grounded_set [OF ok(1), of selected key] s f by simp
  have "set (mc_evidence_ids v) \<subseteq> sig_evidence_id ` set (pi_evidence p)"
    using ids ev by auto
  moreover have "\<forall>x \<in> set (pi_evidence p). (sig_evidence_id x, x) \<in> set (rs_evidence st) \<and> belongs_to key x"
    using ev s signals_registered [OF ok(1)] by blast
  moreover have "\<exists>x \<in> set (pi_evidence p). supports x \<and> sig_evidence_id x \<in> set (mc_evidence_ids v)"
    using ev s ids by blast
  moreover have "ic_order_id verified = mc_order_id v" using r by (auto simp: candidate_key_of_def)
  ultimately show ?thesis
    using r f rec ev by (intro exI [of _ v] exI [of _ key] exI [of _ verified]) (auto simp: customer_of_def)
qed

text \<open>C16: The confidence of a match is earned. High confidence needs a shown signal that supports an
  exact address; medium confidence needs a direct identity (name, signee, tax number, email, phone)
  or an exact balance corroborated by context, a partial address or name, or the bank; no match has
  another confidence, and no match stands against an amount above the balance or another currency.\<close>

theorem matched_confidence_is_earned:
  assumes "run_state_ok st" "map_output cfg out st = Inr p" "pi_outcome p = Out_matched"
  shows "(pi_confidence p = Conf_high \<and> Exact_address \<in> set (supporting_kinds (pi_evidence p))
      \<or> pi_confidence p = Conf_medium
        \<and> (set (supporting_kinds (pi_evidence p)) \<inter> set direct_identity \<noteq> {}
           \<or> corroborated (pi_evidence p)))
    \<and> (\<exists>key c. pi_recommended_customer p = Some c \<and> fst key = cc_order_id c
         \<and> key \<in> set (map fst (rs_verified st))
         \<and> (\<forall>s \<in> set (signals_for_candidate key st). contradicts s \<longrightarrow>
              sig_kind s \<notin> {Amount_exceeds_outstanding, Currency_mismatch}))"
proof -
  have ok: "evidence_ok st" "verified_ok st" using assms(1) by (simp_all add: run_state_ok_def)
  obtain v key verified selected where m: "match_of cfg out st v key verified selected p"
    using map_output_matched [OF assms(2,3)] by blast
  define g where "g = grounded_signals selected key st"
  have known: "confidence_of g \<noteq> Conf_unknown" using m by (simp add: match_of_def g_def)
  note f = matched_fields [of cfg out st v verified g p]
  have fin: "pi_confidence p = confidence_of g" "pi_evidence p = g"
    "pi_recommended_customer p = Some (customer_of cfg v verified g)"
    using m f by (auto simp: match_of_def g_def)
  have key: "map_of (rs_verified st) key = Some verified" "fst key = mc_order_id v"
    using m resolve_candidate_Some ok(2) unfolding match_of_def by blast+
  have sub: "set selected \<subseteq> set (signals_for_candidate key st)"
    using m selected_signals_Some unfolding match_of_def by blast
  have "sig_kind s \<notin> {Amount_exceeds_outstanding, Currency_mismatch}"
    if "s \<in> set (signals_for_candidate key st)" "contradicts s" for s
  proof -
    have "s \<in> set g" using that grounded_set [OF ok(1) sub] by (simp add: g_def)
    then show ?thesis using no_hard_contradiction [OF known _ that(2)] by blast
  qed
  moreover have "key \<in> set (map fst (rs_verified st))" using key(1) map_of_SomeD by force
  moreover have "fst key = cc_order_id (customer_of cfg v verified g)"
    using key(2) by (simp add: customer_of_def)
  moreover have "confidence_of g = Conf_high \<and> Exact_address \<in> set (supporting_kinds g)
      \<or> confidence_of g = Conf_medium
        \<and> (set (supporting_kinds g) \<inter> set direct_identity \<noteq> {} \<or> corroborated g)"
    using confidence_known [OF known] confidence_cases(1,2) [of g] by blast
  ultimately show ?thesis unfolding fin by blast
qed

text \<open>C11: A match is unique. When a customer is recommended, every other candidate the run verified
  ranks strictly below it on all the evidence of the run: address first, then direct identities,
  exact balance, message context, partial address, name fragment, partial payment, and last the
  fewest contradictions.\<close>

theorem matched_outranks_all:
  assumes "run_state_ok st" "map_output cfg out st = Inr p" "pi_outcome p = Out_matched"
  shows "\<exists>key c. pi_recommended_customer p = Some c \<and> fst key = cc_order_id c
    \<and> key \<in> set (map fst (rs_verified st))
    \<and> (\<forall>other \<in> set (map fst (rs_verified st)). other \<noteq> key \<longrightarrow>
         rank (signals_for_candidate other st) < rank (signals_for_candidate key st))"
proof -
  have ok: "verified_ok st" using assms(1) by (simp add: run_state_ok_def)
  obtain v key verified selected where m: "match_of cfg out st v key verified selected p"
    using map_output_matched [OF assms(2,3)] by blast
  then have "\<not> competitor_exists key st" by (simp add: match_of_def)
  then have "\<forall>other \<in> set (map fst (rs_verified st)). other \<noteq> key \<longrightarrow>
      rank (signals_for_candidate other st) < rank (signals_for_candidate key st)"
    by (auto simp: competitor_exists_def list_ex_iff Let_def not_le)
  moreover have key: "map_of (rs_verified st) key = Some verified" "fst key = mc_order_id v"
    using m resolve_candidate_Some ok unfolding match_of_def by blast+
  moreover have "key \<in> set (map fst (rs_verified st))" using key(1) map_of_SomeD by force
  moreover have "pi_recommended_customer p
      = Some (customer_of cfg v verified (grounded_signals selected key st))"
    using m matched_fields unfolding match_of_def by blast
  moreover have "fst key = cc_order_id (customer_of cfg v verified (grounded_signals selected key st))"
    using key(2) by (simp add: customer_of_def)
  ultimately show ?thesis by blast
qed

text \<open>A run in which one verification brought a customer with an exact address.\<close>

definition address_signal :: evidence_signal where
  "address_signal = \<lparr>sig_evidence_id = '''', sig_kind = Exact_address,
     sig_source = Src_candidate_verification, sig_polarity = Supporting, sig_strength = Strong,
     sig_description = ''La glosa contiene la direccion completa.'', sig_order_id = Some ''o-1'',
     sig_account_receivable_id = Some ''ar-1'', sig_source_reference = None\<rparr>"

definition verified_observation :: tool_observation where
  "verified_observation = (observation ''candidate_verification'' True ''ok'')
     \<lparr>to_candidates := [example_candidate\<lparr>ic_evidence := [address_signal]\<rparr>]\<rparr>"

definition verified_state :: run_state where
  "verified_state = snd (invoke ''verify_payment_candidate'' (Verify_query example_verify) 8
     (\<lambda>_. Inr verified_observation) (new_run_state (new_turns 14)))"

definition example_choice :: model_candidate where
  "example_choice = \<lparr>mc_order_id = ''o-1'', mc_account_receivable_id = Some ''ar-1'',
     mc_evidence_ids = [''ev_001'']\<rparr>"

definition example_answer :: model_identification where
  "example_answer = \<lparr>mo_outcome = Out_matched, mo_recommended_customer = Some example_choice,
     mo_unable_to_verify = [], mo_alternatives = [], mo_clarification_question = None,
     mo_route_correction = None\<rparr>"

definition registered_address :: evidence_signal where
  "registered_address = address_signal\<lparr>sig_evidence_id := ''ev_001''\<rparr>"

lemma verified_state_ok: "run_state_ok verified_state"
  unfolding verified_state_def using invoke_run_state_ok [OF new_run_state_ok] by blast

lemma verified_state_facts:
  "rs_evidence verified_state = [(''ev_001'', registered_address)]"
  "rs_verified verified_state =
     [((''o-1'', Some ''ar-1''), example_candidate\<lparr>ic_evidence := [registered_address]\<rparr>)]"
  "rs_source_available verified_state = [(''verify_payment_candidate'', True)]"
proof -
  have one: "numbered ''ev_'' 1 = ''ev_001''"
    by code_simp
  have "rs_evidence verified_state = [(''ev_001'', registered_address)] \<and> rs_verified verified_state =
     [((''o-1'', Some ''ar-1''), example_candidate\<lparr>ic_evidence := [registered_address]\<rparr>)]
     \<and> rs_source_available verified_state = [(''verify_payment_candidate'', True)]"
    using one
    by (simp add: verified_state_def invoke_def Let_def register_observation_def note_availability_def
        verified_observation_def observation_def register_candidate_def register_signal_def
        candidate_key_of_def new_run_state_def example_candidate_def registered_address_def)
  then show "rs_evidence verified_state = [(''ev_001'', registered_address)]"
    "rs_verified verified_state =
       [((''o-1'', Some ''ar-1''), example_candidate\<lparr>ic_evidence := [registered_address]\<rparr>)]"
    "rs_source_available verified_state = [(''verify_payment_candidate'', True)]"
    by blast+
qed

lemma example_match:
  "\<exists>p. map_output default_config example_answer verified_state = Inr p \<and> pi_outcome p = Out_matched
     \<and> pi_confidence p = Conf_high \<and> pi_evidence p = [registered_address]
     \<and> map_option cc_customer_name (pi_recommended_customer p) = Some ''Ana Rojas''"
proof -
  have sup: "supports registered_address" "\<not> contradicts registered_address"
    "sig_kind registered_address = Exact_address"
    by (simp_all add: registered_address_def address_signal_def supports_def contradicts_def)
  have sigs: "signals_for_candidate (''o-1'', Some ''ar-1'') verified_state = [registered_address]"
    by (simp add: signals_for_candidate_def verified_state_facts belongs_to_def registered_address_def
        address_signal_def)
  have res: "resolve_candidate example_choice verified_state
      = Some ((''o-1'', Some ''ar-1''), example_candidate\<lparr>ic_evidence := [registered_address]\<rparr>)"
    by (simp add: resolve_candidate_def verified_state_facts example_choice_def Let_def)
  have sel: "selected_signals example_choice (''o-1'', Some ''ar-1'') verified_state
      = Some [registered_address]"
    using sup by (simp add: selected_signals_def sigs by_evidence_id_def example_choice_def Let_def
        registered_address_def)
  have gr: "grounded_signals [registered_address] (''o-1'', Some ''ar-1'') verified_state
      = [registered_address]"
    using sup by (simp add: grounded_signals_def sigs deduplicate_signals_def)
  have conf: "confidence_of [registered_address] = Conf_high"
    using sup by (simp add: confidence_of_def material_contradiction_def supporting_kinds_def
        contradicting_kinds_def meets_def Let_def)
  have comp: "\<not> competitor_exists (''o-1'', Some ''ar-1'') verified_state"
    by (simp add: competitor_exists_def verified_state_facts Let_def)
  have "map_output default_config example_answer verified_state
      = matched default_config example_answer verified_state example_choice
          (example_candidate\<lparr>ic_evidence := [registered_address]\<rparr>) [registered_address]"
    by (simp add: map_output_def recommend_def example_answer_def res sel gr conf comp Let_def)
  moreover obtain p where "matched default_config example_answer verified_state example_choice
      (example_candidate\<lparr>ic_evidence := [registered_address]\<rparr>) [registered_address] = Inr p"
    using matched_Inr [of "[registered_address]" default_config example_answer verified_state
        example_choice "example_candidate\<lparr>ic_evidence := [registered_address]\<rparr>"] conf
    by (metis confidence.distinct(5))
  ultimately show ?thesis
    using matched_fields conf by (auto simp: customer_of_def example_candidate_def)
qed

lemma matched_is_grounded_witness:
  "\<exists>p. map_output default_config example_answer verified_state = Inr p
     \<and> (\<exists>s \<in> set (pi_evidence p). supports s \<and> sig_evidence_id s = ''ev_001'')"
proof -
  obtain p where p: "map_output default_config example_answer verified_state = Inr p"
    "pi_outcome p = Out_matched" using example_match by blast
  from matched_is_grounded [OF verified_state_ok p]
  have "\<exists>s \<in> set (pi_evidence p). supports s \<and> sig_evidence_id s \<in> set (mc_evidence_ids example_choice)"
    by (auto simp: example_answer_def)
  then show ?thesis using p by (auto simp: example_choice_def)
qed

lemma matched_confidence_is_earned_witness:
  "\<exists>p. map_output default_config example_answer verified_state = Inr p \<and> pi_confidence p = Conf_high
     \<and> Exact_address \<in> set (supporting_kinds (pi_evidence p))"
proof -
  obtain p where p: "map_output default_config example_answer verified_state = Inr p"
    "pi_outcome p = Out_matched" "pi_confidence p = Conf_high" using example_match by blast
  from matched_confidence_is_earned [OF verified_state_ok p(1,2)] p show ?thesis by auto
qed

lemma matched_outranks_all_witness:
  "\<exists>p c. map_output default_config example_answer verified_state = Inr p
     \<and> pi_recommended_customer p = Some c \<and> cc_order_id c = ''o-1''"
proof -
  obtain p where p: "map_output default_config example_answer verified_state = Inr p"
    "pi_outcome p = Out_matched" using example_match by blast
  from matched_outranks_all [OF verified_state_ok p]
  obtain key c where "pi_recommended_customer p = Some c" "fst key = cc_order_id c"
    "key \<in> set (map fst (rs_verified verified_state))" by blast
  then show ?thesis using p by (auto simp: verified_state_facts)
qed

lemma map_output_total:
  assumes "model_identification_ok out"
  shows "\<exists>p. map_output cfg out st = Inr p
    \<and> pi_outcome p \<in> {Out_matched, Out_ambiguous, Out_no_customer_found}
    \<and> (pi_recommended_customer p \<noteq> None \<longleftrightarrow> pi_outcome p = Out_matched)"
proof -
  note amb = ambiguous_Inr [OF assms, of cfg st]
  have rec: "\<exists>p. recommend cfg out st v = Inr p \<and> pi_outcome p \<in> {Out_matched, Out_ambiguous}
      \<and> (pi_recommended_customer p \<noteq> None \<longleftrightarrow> pi_outcome p = Out_matched)" for v
  proof (cases "resolve_candidate v st")
    case None
    then show ?thesis using amb by (fastforce simp: recommend_def)
  next
    case (Some r)
    obtain key verified where r: "r = (key, verified)" by fastforce
    show ?thesis
    proof (cases "selected_signals v key st")
      case None
      then show ?thesis using amb Some r by (fastforce simp: recommend_def)
    next
      case (Some selected)
      define g where "g = grounded_signals selected key st"
      show ?thesis
      proof (cases "confidence_of g = Conf_unknown \<or> competitor_exists key st")
        case True
        then show ?thesis
          using amb Some \<open>resolve_candidate v st = Some r\<close> r
          by (fastforce simp: recommend_def Let_def g_def)
      next
        case False
        then obtain p where "matched cfg out st v verified g = Inr p" using matched_Inr by blast
        then show ?thesis
          using False Some \<open>resolve_candidate v st = Some r\<close> r matched_fields
          by (auto simp: recommend_def Let_def g_def)
      qed
    qed
  qed
  have nf: "\<exists>p. not_found out st = Inr p \<and> pi_outcome p = Out_no_customer_found
      \<and> pi_recommended_customer p = None"
    using not_found_Inr [OF assms, of st] unfolding not_found_def
    by (metis (no_types, lifting) build_identification_Inr payment_identification.select_convs(2))
  show ?thesis
    using amb nf rec unfolding map_output_def
    by (auto split: option.split) (fastforce)+
qed

text \<open>The policy always produces an identification. For any answer within the bounds of the output
  type and any state of the run, the mapping to the shown result passes the result's own validator:
  it is a match, an ambiguous result or a no-customer result (a claim of being out of scope is
  reported as ambiguous), and only a match names a customer.\<close>

theorem answer_always_maps:
  assumes "model_identification_ok out"
  shows "\<exists>p. map_output cfg out st = Inr p
    \<and> pi_outcome p \<in> {Out_matched, Out_ambiguous, Out_no_customer_found}
    \<and> (pi_recommended_customer p \<noteq> None \<longleftrightarrow> pi_outcome p = Out_matched)"
  by (rule map_output_total [OF assms])

lemma answer_always_maps_witness:
  "model_identification_ok example_answer \<and> (\<exists>p. map_output default_config example_answer
     (new_run_state (new_turns 14)) = Inr p \<and> pi_outcome p \<noteq> Out_out_of_scope)"
proof -
  have "model_identification_ok example_answer"
    by (simp add: model_identification_ok_def model_candidate_ok_def example_answer_def
        example_choice_def)
  from answer_always_maps [OF this, of default_config "new_run_state (new_turns 14)"] this
  show ?thesis by auto
qed

section \<open>Alternatives\<close>

text \<open>A shown alternative under its key: a verified candidate, its reason and evidence from signals the
  model cited about it.\<close>

definition resolves :: "app_config \<Rightarrow> run_state \<Rightarrow> candidate_key \<Rightarrow> resolved \<Rightarrow> bool" where
  "resolves cfg st key r \<longleftrightarrow>
     (\<exists>v verified ss. r = (rank ss, customer_of cfg v verified ss, ss)
        \<and> resolve_candidate v st = Some (key, verified)
        \<and> selected_signals v key st = Some ss \<and> meaningful ss)"

lemma resolve_alternatives_keys:
  "\<exists>ks. list_all2 (resolves cfg st) ks (resolve_alternatives cfg st seen vs)
     \<and> distinct ks \<and> set ks \<inter> set seen = {}"
proof (induction vs arbitrary: seen)
  case (Cons v vs)
  show ?case
  proof (cases "resolve_alternatives cfg st seen (v # vs) = resolve_alternatives cfg st seen vs")
    case True
    then show ?thesis using Cons.IH [of seen] by simp
  next
    case False
    then obtain key verified ss where
      1: "resolve_candidate v st = Some (key, verified)" "key \<notin> set seen"
        "selected_signals v key st = Some ss" "meaningful ss"
      and 2: "resolve_alternatives cfg st seen (v # vs)
        = (rank ss, customer_of cfg v verified ss, ss) # resolve_alternatives cfg st (key # seen) vs"
      by (auto split: option.splits if_splits prod.splits)
    obtain ks where ks: "list_all2 (resolves cfg st) ks (resolve_alternatives cfg st (key # seen) vs)"
      "distinct ks" "set ks \<inter> set (key # seen) = {}" using Cons.IH by blast
    have "resolves cfg st key (rank ss, customer_of cfg v verified ss, ss)"
      using 1 unfolding resolves_def by blast
    then have "list_all2 (resolves cfg st) (key # ks) (resolve_alternatives cfg st seen (v # vs))"
      using ks(1) 2 by simp
    moreover have "distinct (key # ks)" "set (key # ks) \<inter> set seen = {}" using ks 1(2) by auto
    ultimately show ?thesis by blast
  qed
qed simp

lemma mset_sort_desc: "mset (sort_desc rs) = mset rs"
  by (simp add: sort_desc_def)

lemma sorted_sort_desc: "sorted_wrt (\<lambda>a b. fst b \<le> fst a) (sort_desc rs)"
proof -
  have "sorted (map fst (sort_key fst (rev rs)))" by simp
  then have "sorted_wrt (\<lambda>a b. fst a \<le> fst b) (sort_key fst (rev rs))" by (simp add: sorted_map)
  then show ?thesis by (simp add: sort_desc_def sorted_wrt_rev)
qed

lemma sorted_wrt_take: "sorted_wrt P xs \<Longrightarrow> sorted_wrt P (take n xs)"
  by (metis append_take_drop_id sorted_wrt_append)

lemma resolved_facts:
  assumes "resolves cfg st k entry" "verified_ok st"
  shows "cc_order_id (fst (snd entry)) = fst k
      \<and> map_option ic_customer_name (map_of (rs_verified st) k) = Some (cc_customer_name (fst (snd entry)))
      \<and> cc_evidence_ids (fst (snd entry)) = map sig_evidence_id (snd (snd entry))
      \<and> set (snd (snd entry)) \<subseteq> set (signals_for_candidate k st)
      \<and> (\<exists>s \<in> set (snd (snd entry)). supports s)
      \<and> fst entry = rank (snd (snd entry)) \<and> k \<in> set (map fst (rs_verified st))"
proof -
  obtain v verified ss where b: "entry = (rank ss, customer_of cfg v verified ss, ss)"
    and r: "resolve_candidate v st = Some (k, verified)" and s: "selected_signals v k st = Some ss"
    using assms(1) unfolding resolves_def by blast
  note rr = resolve_candidate_Some [OF r assms(2)]
  then have "k \<in> set (map fst (rs_verified st))" using map_of_SomeD by force
  then show ?thesis using rr selected_signals_Some [OF s] b by (simp add: customer_of_def)
qed

text \<open>Alternatives are different verified candidates, strongest first. There are at most three; they
  belong to pairwise different candidates of the run that the tools verified; each carries the
  verified customer's name and order, cites only evidence of the run about that candidate, with at
  least one supporting signal; and they are ordered by the rank of the cited evidence.\<close>

theorem alternatives_are_verified:
  assumes "run_state_ok st" "alternatives_of cfg vs st = (alts, ev)"
  shows "length alts \<le> 3 \<and> (\<exists>ks sss.
    distinct ks \<and> set ks \<subseteq> set (map fst (rs_verified st)) \<and> length ks = length alts
    \<and> length sss = length alts
    \<and> (\<forall>i < length alts.
         cc_order_id (alts ! i) = fst (ks ! i)
         \<and> map_option ic_customer_name (map_of (rs_verified st) (ks ! i)) = Some (cc_customer_name (alts ! i))
         \<and> cc_evidence_ids (alts ! i) = map sig_evidence_id (sss ! i)
         \<and> set (sss ! i) \<subseteq> set (signals_for_candidate (ks ! i) st) \<and> (\<exists>s \<in> set (sss ! i). supports s))
    \<and> sorted_wrt (\<lambda>a b. rank b \<le> rank a) sss)"
proof -
  have ok: "verified_ok st" using assms(1) by (simp add: run_state_ok_def)
  define rs where "rs = resolve_alternatives cfg st [] vs"
  define best where "best = take 3 (sort_desc rs)"
  have alts: "alts = map (\<lambda>r. fst (snd r)) best"
    using assms(2) by (simp add: alternatives_of_def best_def rs_def Let_def)
  obtain ks0 where ks0: "list_all2 (resolves cfg st) ks0 rs" "distinct ks0"
    using resolve_alternatives_keys [of cfg st "[]" vs] rs_def by auto
  obtain ks1 where ks1: "list_all2 (resolves cfg st) ks1 (sort_desc rs)" "mset ks1 = mset ks0"
  proof -
    have "list_all2 (\<lambda>r k. resolves cfg st k r) rs ks0" using ks0(1) by (simp add: list_all2_conv_all_nth)
    from list_all2_reorder_left_invariance [OF this mset_sort_desc]
    obtain ys where "list_all2 (\<lambda>r k. resolves cfg st k r) (sort_desc rs) ys" and m: "mset ys = mset ks0" by blast
    then have "list_all2 (resolves cfg st) ys (sort_desc rs)" by (simp add: list_all2_conv_all_nth)
    then show ?thesis using m by (rule that)
  qed
  define ks where "ks = take 3 ks1"
  have all: "list_all2 (resolves cfg st) ks best"
    unfolding ks_def best_def by (rule list_all2_takeI [OF ks1(1)])
  have dist: "distinct ks"
    using ks1(2) ks0(2) unfolding ks_def by (metis distinct_take mset_eq_imp_distinct_iff)
  define sss where "sss = map (\<lambda>r. snd (snd r)) best"
  have len: "length ks = length best" using all by (rule list_all2_lengthD)
  have one: "resolves cfg st (ks ! i) (best ! i)" if "i < length best" for i
    using all that len by (simp add: list_all2_conv_all_nth)
  note facts = resolved_facts [OF one ok]
  have "sorted_wrt (\<lambda>a b. fst b \<le> fst a) best"
    unfolding best_def by (rule sorted_wrt_take [OF sorted_sort_desc])
  then have "sorted_wrt (\<lambda>a b. rank b \<le> rank a) sss"
    using facts unfolding sss_def sorted_wrt_iff_nth_less by (simp add: less_trans)
  moreover have "set ks \<subseteq> set (map fst (rs_verified st))"
    using facts len by (metis in_set_conv_nth subsetI)
  moreover have "length alts \<le> 3" by (simp add: alts best_def)
  ultimately show ?thesis
    using facts dist len
    by (intro conjI exI [of _ ks] exI [of _ sss]) (simp_all add: alts sss_def)
qed

lemma alternatives_are_verified_witness:
  "\<exists>alts ev ks. alternatives_of default_config [example_choice] verified_state = (alts, ev)
     \<and> set ks \<subseteq> set (map fst (rs_verified verified_state)) \<and> length ks = length alts"
proof -
  obtain alts ev where a: "alternatives_of default_config [example_choice] verified_state = (alts, ev)"
    by fastforce
  from alternatives_are_verified [OF verified_state_ok a] a show ?thesis by blast
qed

section \<open>Ruling a customer out\<close>

text \<open>A run's tool calls in order: the tool's name, the request, the duration and what the tool did.\<close>

type_synonym tool_call = "string \<times> tool_request \<times> int \<times> tool_result"

fun run_calls :: "tool_call list \<Rightarrow> run_state \<Rightarrow> run_state" where
  "run_calls [] st = st"
| "run_calls ((name, request, ms, res) # calls) st =
     run_calls calls (snd (invoke name request ms (\<lambda>_. res) st))"

fun customer_search :: "tool_call \<Rightarrow> tool_observation option" where
  \<comment> \<open>a customer search that answered\<close>
  "customer_search (name, request, ms, Inr obs) =
     (if name = ''search_payment_candidates'' \<and> to_available obs then Some obs else None)"
| "customer_search (name, request, ms, Inl e) = None"

definition rules_out :: "tool_call \<Rightarrow> bool" where
  "rules_out c \<longleftrightarrow> (\<exists>obs. customer_search c = Some obs \<and> conclusive_search (fst (snd c)) obs)"

definition search_log :: "tool_call list \<Rightarrow> tool_observation list" where
  "search_log calls = List.map_filter customer_search calls"

definition searches_recorded :: "tool_call list \<Rightarrow> run_state \<Rightarrow> bool" where
  "searches_recorded calls st \<longleftrightarrow> run_state_ok st
     \<and> (rs_search_succeeded st \<longleftrightarrow> search_log calls \<noteq> [])
     \<and> rs_search_count st = (if search_log calls = [] then None
          else Some (int (Max (set (map (\<lambda>obs. length (to_candidates obs)) (search_log calls))))))
     \<and> (rs_search_conclusive st \<longleftrightarrow> list_ex rules_out calls)"

lemma search_log_append: "search_log (xs @ ys) = search_log xs @ search_log ys"
  by (simp add: search_log_def map_filter_def)

lemma search_log_single:
  "search_log [c] = (case customer_search c of None \<Rightarrow> [] | Some obs \<Rightarrow> [obs])"
  by (simp add: search_log_def map_filter_def split: option.split)

lemma invoke_searches:
  assumes "searches_recorded calls st"
  shows "searches_recorded (calls @ [(name, request, ms, res)])
    (snd (invoke name request ms (\<lambda>_. res) st))"
proof -
  have ok: "run_state_ok st" using assms by (simp add: searches_recorded_def)
  have ok': "run_state_ok (snd (invoke name request ms (\<lambda>_. res) st))"
    using invoke_run_state_ok [OF ok] by blast
  show ?thesis
  proof (cases res)
    case (Inl e)
    then have "customer_search (name, request, ms, res) = None"
      "\<not> rules_out (name, request, ms, res)" by (simp_all add: rules_out_def)
    then show ?thesis
      using assms ok' Inl
      by (simp add: searches_recorded_def search_log_append search_log_single invoke_def Let_def)
  next
    case (Inr obs)
    obtain obs' st1 where r: "register_observation name request obs st = (obs', st1)" by fastforce
    note a = register_observation_ok [OF ok r]
    define n where "n = note_availability name request obs st"
    have fields: "rs_search_count (snd (invoke name request ms (\<lambda>_. res) st)) = rs_search_count n"
      "rs_search_succeeded (snd (invoke name request ms (\<lambda>_. res) st)) = rs_search_succeeded n"
      "rs_search_conclusive (snd (invoke name request ms (\<lambda>_. res) st)) = rs_search_conclusive n"
      using a Inr r by (simp_all add: n_def invoke_def Let_def)
    show ?thesis
    proof (cases "name = ''search_payment_candidates'' \<and> to_available obs")
      case False
      then have "customer_search (name, request, ms, res) = None"
        "\<not> rules_out (name, request, ms, res)" using Inr by (auto simp: rules_out_def)
      moreover have "rs_search_count n = rs_search_count st" "rs_search_succeeded n = rs_search_succeeded st"
        "rs_search_conclusive n = rs_search_conclusive st"
        using False by (auto simp: n_def note_availability_def Let_def)
      ultimately show ?thesis
        using assms ok' fields
        by (simp add: searches_recorded_def search_log_append search_log_single)
    next
      case True
      then have c: "customer_search (name, request, ms, res) = Some obs"
        "rules_out (name, request, ms, res) = conclusive_search request obs"
        using Inr by (simp_all add: rules_out_def)
      define old where "old = (\<lambda>obs. length (to_candidates obs)) ` set (search_log calls)"
      have "finite old" by (simp add: old_def)
      have count: "rs_search_count st = (if search_log calls = [] then None else Some (int (Max old)))"
        using assms by (simp add: searches_recorded_def old_def)
      have "search_log calls \<noteq> [] \<Longrightarrow> Max (insert (length (to_candidates obs)) old)
          = max (length (to_candidates obs)) (Max old)"
        using \<open>finite old\<close> by (simp add: old_def)
      then have "rs_search_count n
          = Some (int (Max (insert (length (to_candidates obs)) old)))"
        using True count by (auto simp: n_def note_availability_def Let_def search_count_after_def
            old_def max.commute)
      moreover have "rs_search_succeeded n" "rs_search_conclusive n \<longleftrightarrow>
          rs_search_conclusive st \<or> conclusive_search request obs"
        using True by (simp_all add: n_def note_availability_def Let_def)
      ultimately show ?thesis
        using assms ok' fields c
        by (simp add: searches_recorded_def search_log_append search_log_single old_def)
    qed
  qed
qed

lemma run_calls_searches:
  "searches_recorded past st \<Longrightarrow> searches_recorded (past @ calls) (run_calls calls st)"
proof (induction calls arbitrary: past st)
  case (Cons c calls)
  obtain name request ms res where c: "c = (name, request, ms, res)" by (metis prod_cases4)
  have "searches_recorded (past @ [c]) (snd (invoke name request ms (\<lambda>_. res) st))"
    unfolding c by (rule invoke_searches [OF Cons.prems])
  from Cons.IH [OF this] show ?case by (simp add: c)
qed simp

lemma new_run_searches: "searches_recorded [] (new_run_state turns)"
  using new_run_state_ok [of turns] by (simp add: searches_recorded_def search_log_def new_run_state_def)

text \<open>C18: No customer is ruled out without a search. After any sequence of tool calls, an answer that no
  customer was found is reported as such exactly when some customer search answered, at least one
  of them was a complete and untruncated search by an identity (not by the amount alone), and every
  customer search that answered, whatever it looked for, brought no candidate; otherwise the same
  answer is reported as ambiguous.\<close>

theorem no_customer_needs_a_search:
  assumes "model_identification_ok out" "mo_outcome out = Out_no_customer_found"
  shows "\<exists>p. map_output cfg out (run_calls calls (new_run_state turns)) = Inr p \<and>
    (if list_ex rules_out calls
        \<and> (\<forall>c \<in> set calls. \<forall>obs. customer_search c = Some obs \<longrightarrow> to_candidates obs = [])
     then pi_outcome p = Out_no_customer_found else pi_outcome p = Out_ambiguous)"
proof -
  define st where "st = run_calls calls (new_run_state turns)"
  have rec: "searches_recorded calls st"
    using run_calls_searches [OF new_run_searches, of calls turns] by (simp add: st_def)
  have log: "set (search_log calls) = {obs. \<exists>c \<in> set calls. customer_search c = Some obs}"
    by (force simp: search_log_def map_filter_def)
  have ne: "list_ex rules_out calls \<Longrightarrow> search_log calls \<noteq> []"
  proof -
    assume "list_ex rules_out calls"
    then have "set (search_log calls) \<noteq> {}" unfolding log by (auto simp: list_ex_iff rules_out_def)
    then show "search_log calls \<noteq> []" by auto
  qed
  have zero: "Max (set (map (\<lambda>obs. length (to_candidates obs)) (search_log calls))) = 0 \<longleftrightarrow>
      (\<forall>obs \<in> set (search_log calls). to_candidates obs = [])" if "search_log calls \<noteq> []"
    using that by (simp add: Max_eq_iff) (metis (mono_tags) image_eqI length_0_conv list.set_sel(1))
  have "may_rule_out st \<longleftrightarrow> list_ex rules_out calls
      \<and> (\<forall>c \<in> set calls. \<forall>obs. customer_search c = Some obs \<longrightarrow> to_candidates obs = [])"
    using rec ne zero unfolding may_rule_out_def searches_recorded_def log by auto
  moreover have "map_output cfg out st = (if may_rule_out st then not_found out st
      else ambiguous cfg out st (''No fue posible completar una b'' @ [CHR 0xFA]
        @ ''squeda suficiente para descartar clientes.'') False)"
    using assms(2) by (simp add: map_output_def)
  ultimately show ?thesis
    using not_found_Inr [OF assms(1), of st] ambiguous_Inr [OF assms(1), of cfg st]
    unfolding st_def [symmetric] by metis
qed

definition no_customer_answer :: model_identification where
  "no_customer_answer = example_answer\<lparr>mo_outcome := Out_no_customer_found,
     mo_recommended_customer := None\<rparr>"

definition empty_search :: "bool \<Rightarrow> tool_call" where
  "empty_search complete = (''search_payment_candidates'', Payment_query example_query, 5,
     Inr ((observation ''payment_candidates'' True ''Sin coincidencias.'')
       \<lparr>to_audit := default_audit\<lparr>am_identity_search_complete := complete\<rparr>\<rparr>))"

lemma no_customer_needs_a_search_witness:
  "(\<exists>p. map_output default_config no_customer_answer
      (run_calls [empty_search True] (new_run_state (new_turns 14))) = Inr p
      \<and> pi_outcome p = Out_no_customer_found) \<and>
   (\<exists>p. map_output default_config no_customer_answer
      (run_calls [empty_search False] (new_run_state (new_turns 14))) = Inr p
      \<and> pi_outcome p = Out_ambiguous)"
proof -
  have m: "model_identification_ok no_customer_answer"
    "mo_outcome no_customer_answer = Out_no_customer_found"
    by (simp_all add: model_identification_ok_def no_customer_answer_def example_answer_def)
  have r: "rules_out (empty_search b) = b" for b
    by (simp add: rules_out_def empty_search_def observation_def conclusive_search_def default_audit_def
        has_identity_def identity_fields_def example_query_def truthy_def)
  have e: "\<forall>obs. customer_search (empty_search b) = Some obs \<longrightarrow> to_candidates obs = []" for b
    by (simp add: empty_search_def observation_def)
  show ?thesis
    using no_customer_needs_a_search [OF m, of default_config "[empty_search True]" "new_turns 14"]
      no_customer_needs_a_search [OF m, of default_config "[empty_search False]" "new_turns 14"] r e
    by simp
qed

section \<open>Links\<close>

text \<open>The link of a customer stays inside the configured CRM. It is the configured base without its
  trailing slashes, one slash, and one path segment in which every character of the order
  identifier that has a meaning in a URL or in a Slack link is percent-encoded.\<close>

theorem crm_link_is_one_segment:
  "\<exists>segment. cc_crm_url (customer_of cfg v verified ss)
      = rstrip_char (CHR ''/'') (crm_finops_base_url cfg) @ ''/'' @ segment
    \<and> (\<forall>d \<in> set segment. unreserved d \<or> d = CHR 0x25)
    \<and> set segment \<inter> set ''/?#<>|&@: '' = {}
    \<and> (list_all unreserved (mc_order_id v) \<longrightarrow> segment = mc_order_id v)"
proof -
  have chars: "\<forall>d \<in> set (url_quote (mc_order_id v)). unreserved d \<or> d = CHR 0x25"
    using url_quote_chars by blast
  have "\<not> unreserved d \<and> d \<noteq> CHR 0x25" if "d \<in> set ''/?#<>|&@: ''" for d
    using that by (auto simp: unreserved_def is_plain_def code_def)
  with chars have "set (url_quote (mc_order_id v)) \<inter> set ''/?#<>|&@: '' = {}" by blast
  then show ?thesis
    using chars url_quote_unreserved
    by (intro exI [of _ "url_quote (mc_order_id v)"]) (simp add: customer_of_def)
qed

lemma crm_link_is_one_segment_witness:
  "\<exists>segment. cc_crm_url (customer_of default_config (example_choice\<lparr>mc_order_id := ''a/b''\<rparr>)
       example_candidate []) = crm_finops_base_url default_config @ ''/'' @ segment
     \<and> CHR ''/'' \<notin> set segment"
proof -
  have "rstrip_char (CHR ''/'') (crm_finops_base_url default_config) = crm_finops_base_url default_config"
    by (simp add: rstrip_char_def default_config_def)
  with crm_link_is_one_segment [of default_config "example_choice\<lparr>mc_order_id := ''a/b''\<rparr>"
      example_candidate "[]"] show ?thesis by fastforce
qed

end
