(* ===== verification/InputItems.thy ===== *)
theory InputItems
  imports Pipeline
begin

text \<open>
  What the model is sent (\<open>normalize_azure_base_url\<close> and \<open>build_input_items\<close> of
  \<open>agent/openai_runner.py\<close>): the endpoint's base URL and the conversation as input items, with the
  images of the current message inlined as base64 data URLs. Reading an image file is the parameter
  \<open>read_bytes\<close>; a byte is a character of the 256-character alphabet.
\<close>

definition normalize_azure_base_url :: "string \<Rightarrow> string" where
  "normalize_azure_base_url endpoint =
     (let base = rstrip_char (CHR ''/'') endpoint
      in if ends_with ''/openai/v1'' base then base @ ''/'' else base @ ''/openai/v1/'')"

section \<open>Base64\<close>

definition base64_alphabet :: string where
  "base64_alphabet = ''ABCDEFGHIJKLMNOPQRSTUVWXYZabcdefghijklmnopqrstuvwxyz0123456789+/''"

definition base64_char :: "nat \<Rightarrow> char" where
  "base64_char n = base64_alphabet ! n"

fun b64encode :: "string \<Rightarrow> string" where
  "b64encode (a # b # c # rest) =
     (let n = 65536 * code a + 256 * code b + code c
      in [base64_char (n div 262144), base64_char (n div 4096 mod 64),
          base64_char (n div 64 mod 64), base64_char (n mod 64)] @ b64encode rest)"
| "b64encode [a, b] =
     (let n = 1024 * code a + 4 * code b
      in [base64_char (n div 4096), base64_char (n div 64 mod 64), base64_char (n mod 64), CHR ''='' ])"
| "b64encode [a] =
     (let n = 16 * code a in [base64_char (n div 64), base64_char (n mod 64), CHR ''='', CHR ''='' ])"
| "b64encode [] = []"

section \<open>Items\<close>

datatype content_part =
  Input_text string
| Input_image string  \<comment> \<open>the data URL; the detail is always high\<close>

datatype item_content = Plain_text string | Parts "content_part list"

record input_item =
  it_role :: string
  it_content :: item_content

fun last_index :: "char \<Rightarrow> string \<Rightarrow> nat option" where
  \<comment> \<open>\<open>str.rfind\<close>\<close>
  "last_index c [] = None"
| "last_index c (d # ds) =
     (case last_index c ds of
        Some i \<Rightarrow> Some (Suc i)
      | None \<Rightarrow> (if d = c then Some 0 else None))"

definition path_suffix :: "string \<Rightarrow> string" where
  \<comment> \<open>\<open>PurePath.suffix\<close> of the final component: from its last dot, unless that is its first or
    last character\<close>
  "path_suffix path =
     (let name = last (split_on (CHR ''/'') path)
      in case last_index (CHR ''.'') name of
           Some i \<Rightarrow> (if 0 < i \<and> i < length name - 1 then drop i name else '''')
         | None \<Rightarrow> '''')"

definition image_mimetype :: "string \<Rightarrow> exn_name + string" where
  "image_mimetype path =
     (case map_of [(''.png'', ''image/png''), (''.jpg'', ''image/jpeg''), (''.jpeg'', ''image/jpeg''),
                   (''.webp'', ''image/webp'')] (str_lower (path_suffix path)) of
        Some m \<Rightarrow> Inr m
      | None \<Rightarrow> Inl ''KeyError'')"

definition image_part :: "(string \<Rightarrow> exn_name + string) \<Rightarrow> string \<Rightarrow> exn_name + content_part" where
  "image_part read_bytes path =
     (case image_mimetype path of
        Inl e \<Rightarrow> Inl e
      | Inr mimetype \<Rightarrow>
          (case read_bytes path of
             Inl e \<Rightarrow> Inl e
           | Inr bytes \<Rightarrow> Inr (Input_image (''data:'' @ mimetype @ '';base64,'' @ b64encode bytes))))"

fun collect :: "('a \<Rightarrow> exn_name + 'b) \<Rightarrow> 'a list \<Rightarrow> exn_name + 'b list" where
  \<comment> \<open>a loop that builds a list and may raise\<close>
  "collect f [] = Inr []"
| "collect f (x # xs) =
     (case f x of
        Inl e \<Rightarrow> Inl e
      | Inr y \<Rightarrow> (case collect f xs of Inl e \<Rightarrow> Inl e | Inr ys \<Rightarrow> Inr (y # ys)))"

definition is_trigger :: "agent_run_input \<Rightarrow> transcript_message \<Rightarrow> bool" where
  "is_trigger ri m \<longleftrightarrow> tm_slack_message_ts m = ri_trigger_ts ri"

definition role_of :: "transcript_message \<Rightarrow> string" where
  "role_of m = (if tm_direction m = ''outbound'' then ''assistant'' else ''user'')"

definition item_text :: "agent_run_input \<Rightarrow> transcript_message \<Rightarrow> string" where
  "item_text ri m =
     (let text = (case tm_text m of None \<Rightarrow> '''' | Some t \<Rightarrow> t);
          count = show_nat (length (tm_attachments m))
      in if tm_attachments m = [] then text
         else if is_trigger ri m
         then str_strip (text @ [CHR 0x0A] @ ''[El mensaje actual incluye '' @ count
           @ '' captura(s); usa solamente las im'' @ [CHR 0xE1] @ ''genes adjuntas a este turno.]'')
         else str_strip (text @ [CHR 0x0A] @ ''[Hay '' @ count @ '' captura(s) hist'' @ [CHR 0xF3]
           @ ''rica(s) sanitizada(s), no reenviadas al modelo.]''))"

definition input_item_of ::
  "(string \<Rightarrow> exn_name + string) \<Rightarrow> agent_run_input \<Rightarrow> transcript_message
   \<Rightarrow> exn_name + input_item" where
  "input_item_of read_bytes ri m =
     (if role_of m = ''user'' \<and> is_trigger ri m \<and> ri_image_paths ri \<noteq> []
      then case collect (image_part read_bytes) (ri_image_paths ri) of
             Inl e \<Rightarrow> Inl e
           | Inr images \<Rightarrow> Inr \<lparr>it_role = role_of m,
               it_content = Parts (Input_text (item_text ri m) # images)\<rparr>
      else Inr \<lparr>it_role = role_of m, it_content = Plain_text (item_text ri m)\<rparr>)"

definition recent_transcript :: "agent_run_input \<Rightarrow> transcript_message list" where
  "recent_transcript ri = drop (length (ri_transcript ri) - transcript_limit) (ri_transcript ri)"

definition build_input_items ::
  "(string \<Rightarrow> exn_name + string) \<Rightarrow> agent_run_input \<Rightarrow> exn_name + input_item list" where
  "build_input_items read_bytes ri = collect (input_item_of read_bytes ri) (recent_transcript ri)"

section \<open>Lemmas\<close>

lemma collect_Inr:
  "collect f xs = Inr ys \<Longrightarrow> list_all2 (\<lambda>x y. f x = Inr y) xs ys"
  by (induction xs arbitrary: ys) (auto split: sum.splits)

lemma collect_total: "\<forall>x \<in> set xs. \<exists>y. f x = Inr y \<Longrightarrow> \<exists>ys. collect f xs = Inr ys"
  by (induction xs) (auto split: sum.splits)

lemma b64encode_length: "length (b64encode bs) = 4 * ((length bs + 2) div 3)"
proof (induction bs rule: b64encode.induct)
  case (1 a b c rest)
  have "(length (a # b # c # rest) + 2) div 3 = Suc ((length rest + 2) div 3)" by simp
  then show ?case using 1 by (simp add: Let_def)
qed (simp_all add: Let_def)

lemma base64_char_alphabet: "n < 64 \<Longrightarrow> base64_char n \<in> set base64_alphabet"
  unfolding base64_char_def by (rule nth_mem) (simp add: base64_alphabet_def)

lemma code_less: "code c < 256"
  by (simp add: code_def)

lemma b64encode_chars: "set (b64encode bs) \<subseteq> set base64_alphabet \<union> {CHR ''=''}"
proof (induction bs rule: b64encode.induct)
  case (1 a b c rest)
  have "(65536 * code a + 256 * code b + code c) div 262144 < 64"
    using code_less [of a] code_less [of b] code_less [of c] by linarith
  then show ?case using 1 by (auto simp: Let_def base64_char_alphabet)
next
  case (2 a b)
  have "(1024 * code a + 4 * code b) div 4096 < 64"
    using code_less [of a] code_less [of b] by linarith
  then show ?case by (auto simp: Let_def base64_char_alphabet)
next
  case (3 a)
  have "16 * code a div 64 < 64" using code_less [of a] by linarith
  then show ?case by (auto simp: Let_def base64_char_alphabet)
qed simp

definition sends_image :: "input_item \<Rightarrow> bool" where
  "sends_image i = (case it_content i of Plain_text _ \<Rightarrow> False | Parts _ \<Rightarrow> True)"

text \<open>What the model sees of a conversation. The input has one item per message of the last thirty,
  in order; an item speaks as the assistant exactly for the application's own messages; and images
  are only ever sent with the message that triggered the run, never with an earlier one, however
  many captures the thread holds.\<close>

theorem input_is_recent_transcript:
  assumes "build_input_items read_bytes ri = Inr items"
  shows "length items = min 30 (length (ri_transcript ri))
    \<and> (\<forall>i < length items.
         (it_role (items ! i) = ''assistant'' \<longleftrightarrow> tm_direction (recent_transcript ri ! i) = ''outbound'')
         \<and> (sends_image (items ! i) \<longleftrightarrow>
              ri_image_paths ri \<noteq> [] \<and> tm_direction (recent_transcript ri ! i) \<noteq> ''outbound''
              \<and> tm_slack_message_ts (recent_transcript ri ! i) = ri_trigger_ts ri))"
proof -
  have all: "list_all2 (\<lambda>m i. input_item_of read_bytes ri m = Inr i) (recent_transcript ri) items"
    using assms unfolding build_input_items_def by (rule collect_Inr)
  then have len: "length items = length (recent_transcript ri)" by (simp add: list_all2_lengthD)
  moreover have "length (recent_transcript ri) = min 30 (length (ri_transcript ri))"
    by (simp add: recent_transcript_def transcript_limit_def)
  moreover have "(it_role y = ''assistant'' \<longleftrightarrow> tm_direction m = ''outbound'')
      \<and> (sends_image y \<longleftrightarrow> ri_image_paths ri \<noteq> [] \<and> tm_direction m \<noteq> ''outbound''
           \<and> tm_slack_message_ts m = ri_trigger_ts ri)"
    if "input_item_of read_bytes ri m = Inr y" for m y
    using that
    by (auto simp: input_item_of_def role_of_def is_trigger_def sends_image_def
        split: if_split_asm sum.splits)
  ultimately show ?thesis using all by (simp add: list_all2_conv_all_nth)
qed

definition example_question :: transcript_message where
  "example_question = \<lparr>tm_direction = ''inbound'', tm_text = Some ''De quien es este pago?'',
     tm_event_at = 10, tm_sender = Some ''U1'', tm_slack_message_ts = Some ''1.0'',
     tm_attachments = [\<lparr>at_slack_file_id = ''F1'', at_name = None, at_mimetype = ''image/png'',
       at_size = 10\<rparr>]\<rparr>"

definition example_input :: agent_run_input where
  "example_input = \<lparr>ri_run_id = 1, ri_slack_channel_id = ''C1'', ri_slack_thread_ts = ''1.0'',
     ri_requester = ''U1'', ri_transcript = [example_question], ri_trigger_ts = Some ''1.0'',
     ri_image_paths = [''/tmp/x/f.PNG''],
     ri_image_ingestion = \<lparr>ing_requested = 1, ing_metadata_accepted = 1, ing_downloaded = 1,
       ing_rejected = 0, ing_failure_categories = []\<rparr>\<rparr>"

lemma example_image:
  "image_part (\<lambda>_. Inr ''Man'') ''/tmp/x/f.PNG'' = Inr (Input_image ''data:image/png;base64,TWFu'')"
proof -
  have low: "str_lower ''.PNG'' = ''.png''" by code_simp
  have "image_mimetype ''/tmp/x/f.PNG'' = Inr ''image/png''"
    by (simp add: image_mimetype_def path_suffix_def low)
  moreover have "b64encode ''Man'' = ''TWFu''"
    by (simp add: code_def base64_char_def base64_alphabet_def)
  ultimately show ?thesis by (simp add: image_part_def)
qed

lemma input_is_recent_transcript_witness:
  "\<exists>item. build_input_items (\<lambda>_. Inr ''Man'') example_input = Inr [item] \<and> sends_image item"
proof -
  have "\<exists>item. build_input_items (\<lambda>_. Inr ''Man'') example_input = Inr [item]"
    using example_image
    by (simp add: build_input_items_def recent_transcript_def transcript_limit_def example_input_def
        input_item_of_def)
  then obtain i where "build_input_items (\<lambda>_. Inr ''Man'') example_input = Inr [i]" by blast
  moreover have "sends_image i"
    using input_is_recent_transcript [OF calculation]
    by (simp add: example_input_def example_question_def recent_transcript_def transcript_limit_def)
  ultimately show ?thesis by blast
qed

end
