(* ===== verification/RunnerLoop.thy ===== *)
theory RunnerLoop
  imports InputItems Identification
begin

text \<open>
  The model runner itself (\<open>agent/turns.py\<close>, and \<open>OpenAIAgentsRunner\<close> and \<open>build_agent_runner\<close> of
  \<open>agent/openai_runner.py\<close>): the shared budget of specialist turns, the tools an agent is given, the
  router, the two specialists and the loop that allows one correction of the route.

  The Agents SDK and the model behind it are third party. What they do in one \<open>Runner.run\<close> is a
  \<open>script\<close>, a parameter: the sequence of model responses that asked for tools, each with its token
  counts and tool calls, and how the run ends, by a final output or by an exception.
  \<open>play\<close> executes a script as the SDK documents it: a response counts
  one turn against \<open>max_turns\<close> (\<open>MaxTurnsExceeded\<close> beyond it), a call of a tool the agent does not
  have is a \<open>ModelBehaviorError\<close>, tool calls run in order, and any other exception propagates. Every
  choice the model makes, from whatever it has read, is some script, so a theorem for all scripts
  covers all models.
\<close>

section \<open>The turn budget\<close>

record model_kwargs =
  kw_tools :: "string list"
  kw_handoffs :: "string list"
  kw_tool_choice :: "string option"
  kw_system_instructions :: "string option"

definition last_turn_notice :: string where
  "last_turn_notice = [CHR 0x0A, CHR 0xDA] @ ''ltimo turno: responde ahora con evidencia disponible o una pregunta ''
     @ [CHR 0xFA] @ ''til. No solicites herramientas ni cambio de flujo; no inventes lo que falta.''"

definition prepare ::
  "specialist_turns \<Rightarrow> model_kwargs \<Rightarrow> exn_name + (model_kwargs \<times> specialist_turns)" where
  "prepare turns kwargs =
     (if tn_limit turns \<le> tn_used turns then Inl ''MaxTurnsExceeded''
      else let turns' = turns\<lparr>tn_used := tn_used turns + 1\<rparr>
           in Inr (if tn_used turns' = tn_limit turns'
                   then kwargs\<lparr>kw_tools := [], kw_handoffs := [], kw_tool_choice := Some ''none'',
                     kw_system_instructions := Some
                       ((case kw_system_instructions kwargs of None \<Rightarrow> '''' | Some s \<Rightarrow> s) @ last_turn_notice)\<rparr>
                   else kwargs, turns'))"

definition count_tokens :: "int \<Rightarrow> int \<Rightarrow> specialist_turns \<Rightarrow> specialist_turns" where
  "count_tokens i out turns = turns\<lparr>tn_input_tokens := tn_input_tokens turns + i,
     tn_output_tokens := tn_output_tokens turns + out\<rparr>"

section \<open>Environment\<close>

datatype route_certainty = Certain | Uncertain

fun certainty_value :: "route_certainty \<Rightarrow> string" where
  "certainty_value Certain = ''certain''"
| "certainty_value Uncertain = ''uncertain''"

record model_route =
  mr_request_kind :: request_kind
  mr_certainty :: route_certainty
  mr_potentially_adversarial :: bool
  mr_clarify :: bool
  mr_clarification_question :: "string option"

datatype sdk_output =
  Sdk_identification model_identification
| Sdk_general general_answer
| Sdk_route model_route
| Sdk_other  \<comment> \<open>a value of another type\<close>

record tool_use =
  tu_name :: string
  tu_request :: tool_request
  tu_ms :: int

record model_response =
  re_input_tokens :: int
  re_output_tokens :: int
  re_tool_uses :: "tool_use list"

datatype ending =
  Final int int sdk_output  \<comment> \<open>the last response: its token counts and the parsed output\<close>
| Raised exn_name

type_synonym script = "model_response list \<times> ending"

record runner_env =
  rn_config :: app_config
  rn_port :: data_port
  rn_shared_memory_enabled :: bool
  rn_memory_client :: bool
  rn_recall :: "tool_request \<Rightarrow> tool_result"
  rn_remember :: "tool_request \<Rightarrow> tool_result"
  rn_memory_block :: "(string \<times> string) option"
  rn_payment_prompt :: "exn_name + (string \<times> string \<times> string)"
  rn_general_prompt :: "exn_name + (string \<times> string \<times> string)"
  rn_read_bytes :: "string \<Rightarrow> exn_name + string"
  rn_router :: "input_item list \<Rightarrow> script"
  rn_specialist :: "request_kind \<Rightarrow> nat \<Rightarrow> string \<Rightarrow> input_item list \<Rightarrow> script"

definition router_prompt_version :: string where
  "router_prompt_version = ''cerebro-router-v2''"

datatype model_client = Responses_model string | Chat_completions_model string

definition model_for :: "app_config \<Rightarrow> string option \<Rightarrow> model_client" where
  "model_for cfg deployment =
     (let model = (if truthy deployment then the deployment else azure_deployment_main cfg)
      in if azure_openai_use_responses cfg then Responses_model model else Chat_completions_model model)"

section \<open>Tools\<close>

definition generic_tools :: "runner_env \<Rightarrow> string list" where
  "generic_tools env =
     [''read_finops_knowledge'', ''search_database_schema'', ''describe_database_tables'',
      ''inspect_database_relationships'', ''run_readonly_sql'']
     @ (if rn_shared_memory_enabled env then [''recall_shared_memory''] else [])"

definition memory_tools :: "runner_env \<Rightarrow> string list" where
  "memory_tools env =
     (if \<not> rn_shared_memory_enabled env \<or> \<not> rn_memory_client env then []
      else [''remember_shared_memory''])"

definition payment_tools :: "runner_env \<Rightarrow> string list" where
  "payment_tools env = generic_tools env
     @ [''search_payment_candidates'', ''verify_payment_candidate'', ''search_vambe_messages'']"

fun agent_tools :: "runner_env \<Rightarrow> request_kind \<Rightarrow> string list" where
  "agent_tools env Req_payment_identification = payment_tools env"
| "agent_tools env Req_general = generic_tools env @ memory_tools env"

definition unknown_source :: tool_observation where
  "unknown_source = observation ''candidate_verification'' False
     (''Referencia de fuente desconocida en esta ejecuci'' @ [CHR 0xF3] @ ''n.'')"

definition verify_call ::
  "runner_env \<Rightarrow> run_state \<Rightarrow> verify_candidate_query \<Rightarrow> tool_result" where
  \<comment> \<open>with source links every reference must be one of this run\<close>
  "verify_call env st q =
     (if vc_source_links q \<noteq> [] then
        (let sources = List.map_filter (\<lambda>l. map_of (rs_source_records st) (sl_reference l)) (vc_source_links q)
         in if length sources \<noteq> length (vc_source_links q) then Inr unknown_source
            else dp_verify_sources (rn_port env) q sources)
      else dp_verify_candidate (rn_port env) q)"

definition tool_function ::
  "runner_env \<Rightarrow> run_state \<Rightarrow> string \<Rightarrow> tool_request \<Rightarrow> tool_result option" where
  \<comment> \<open>what the tool of that name calls; \<open>None\<close> when the request is not of the tool's type\<close>
  "tool_function env st name request =
     (case request of
        Knowledge_query t \<Rightarrow>
          (if name = ''read_finops_knowledge'' then Some (dp_finops_knowledge (rn_port env) t) else None)
      | Schema_query names \<Rightarrow>
          (if name = ''describe_database_tables'' then Some (dp_describe_tables (rn_port env) names)
           else if name = ''inspect_database_relationships'' then Some (dp_relationships (rn_port env) names)
           else None)
      | Payment_query q \<Rightarrow>
          (if name = ''search_payment_candidates'' then Some (dp_search_candidates (rn_port env) q) else None)
      | Verify_query q \<Rightarrow>
          (if name = ''verify_payment_candidate'' then Some (verify_call env st q) else None)
      | Vambe_query q \<Rightarrow>
          (if name = ''search_vambe_messages'' then Some (dp_search_vambe (rn_port env) q) else None)
      | Sql_query q \<Rightarrow>
          (if name = ''run_readonly_sql'' then Some (dp_readonly_sql (rn_port env) q) else None)
      | Memory_note n \<Rightarrow>
          (if name = ''remember_shared_memory'' then Some (rn_remember env request) else None)
      | Schema_search q \<Rightarrow>
          (if name = ''search_database_schema'' then Some (dp_search_schema (rn_port env) q) else None)
      | Memory_recall q \<Rightarrow>
          (if name = ''recall_shared_memory'' then Some (rn_recall env request) else None))"

fun use_tools ::
  "runner_env \<Rightarrow> string list \<Rightarrow> tool_use list \<Rightarrow> run_state \<Rightarrow> run_state \<times> exn_name option" where
  "use_tools env tools [] st = (st, None)"
| "use_tools env tools (u # us) st =
     (if tu_name u \<notin> set tools then (st, Some ''ModelBehaviorError'')
      else case tool_function env st (tu_name u) (tu_request u) of
             None \<Rightarrow> (st, Some ''ModelBehaviorError'')
           | Some res \<Rightarrow>
               use_tools env tools us
                 (snd (invoke (tu_name u) (tu_request u) (tu_ms u) (\<lambda>_. res) st)))"

section \<open>One run of the SDK\<close>

record sdk_result =
  sk_output :: sdk_output
  sk_requests :: nat
  sk_input_tokens :: int
  sk_output_tokens :: int

definition take_turn :: "int \<Rightarrow> nat \<Rightarrow> run_state \<Rightarrow> exn_name + run_state" where
  \<comment> \<open>the SDK's own turn count first, then \<open>TurnLimitedModel\<close>\<close>
  "take_turn max_turns done_turns st =
     (if max_turns \<le> int done_turns then Inl ''MaxTurnsExceeded''
      else case prepare (rs_turns st) \<lparr>kw_tools = [], kw_handoffs = [], kw_tool_choice = None,
             kw_system_instructions = None\<rparr> of
             Inl e \<Rightarrow> Inl e
           | Inr (_, turns) \<Rightarrow> Inr (st\<lparr>rs_turns := turns\<rparr>))"

definition add_tokens :: "int \<Rightarrow> int \<Rightarrow> run_state \<Rightarrow> run_state" where
  "add_tokens i out st = st\<lparr>rs_turns := count_tokens i out (rs_turns st)\<rparr>"

fun play ::
  "runner_env \<Rightarrow> string list \<Rightarrow> int \<Rightarrow> nat \<Rightarrow> int \<Rightarrow> int \<Rightarrow> model_response list \<Rightarrow> ending \<Rightarrow> run_state
   \<Rightarrow> run_state \<times> (exn_name + sdk_result)" where
  "play env tools max_turns n i out [] fin st =
     (case fin of
        Raised e \<Rightarrow>
          (case take_turn max_turns n st of Inl e' \<Rightarrow> (st, Inl e') | Inr st' \<Rightarrow> (st', Inl e))
      | Final fi fo result \<Rightarrow>
          (case take_turn max_turns n st of
             Inl e \<Rightarrow> (st, Inl e)
           | Inr st' \<Rightarrow> (add_tokens fi fo st',
               Inr \<lparr>sk_output = result, sk_requests = n + 1, sk_input_tokens = i + fi,
                    sk_output_tokens = out + fo\<rparr>)))"
| "play env tools max_turns n i out (r # rs) fin st =
     (case take_turn max_turns n st of
        Inl e \<Rightarrow> (st, Inl e)
      | Inr st' \<Rightarrow>
          (case use_tools env tools (re_tool_uses r)
                  (add_tokens (re_input_tokens r) (re_output_tokens r) st') of
             (st'', Some e) \<Rightarrow> (st'', Inl e)
           | (st'', None) \<Rightarrow>
               play env tools max_turns (n + 1) (i + re_input_tokens r) (out + re_output_tokens r)
                 rs fin st''))"

definition runner_run ::
  "runner_env \<Rightarrow> request_kind \<Rightarrow> script \<Rightarrow> run_state \<Rightarrow> run_state \<times> (exn_name + sdk_result)" where
  "runner_run env kind scr st =
     (let turns = rs_turns st
      in play env (agent_tools env kind) (max 1 (tn_limit turns - tn_used turns)) 0 0 0
           (fst scr) (snd scr) st)"

section \<open>Usage\<close>

definition usage_of :: "sdk_result \<Rightarrow> string \<Rightarrow> int \<Rightarrow> agent_usage" where
  "usage_of res model tool_calls = \<lparr>us_model = Some model, us_input_tokens = Some (sk_input_tokens res),
     us_output_tokens = Some (sk_output_tokens res), us_turns = int (sk_requests res),
     us_tool_calls = tool_calls\<rparr>"

definition or_zero :: "int option \<Rightarrow> int" where
  "or_zero v = (case v of None \<Rightarrow> 0 | Some n \<Rightarrow> n)"

definition total :: "int option \<Rightarrow> int option \<Rightarrow> int option" where
  "total l r = (if l = None \<and> r = None then None else Some (or_zero l + or_zero r))"

definition combined_usage :: "agent_usage \<Rightarrow> agent_usage \<Rightarrow> agent_usage" where
  "combined_usage router specialist = \<lparr>us_model = us_model specialist,
     us_input_tokens = total (us_input_tokens router) (us_input_tokens specialist),
     us_output_tokens = total (us_output_tokens router) (us_output_tokens specialist),
     us_turns = us_turns router + us_turns specialist,
     us_tool_calls = us_tool_calls specialist\<rparr>"

definition model_usage :: "string \<Rightarrow> int \<Rightarrow> agent_usage" where
  "model_usage model tool_calls = no_usage\<lparr>us_model := Some model, us_tool_calls := tool_calls\<rparr>"

section \<open>The router\<close>

definition route_play :: "script \<Rightarrow> exn_name + sdk_result" where
  \<comment> \<open>one turn and no tools\<close>
  "route_play scr =
     (if fst scr \<noteq> [] then Inl ''ModelBehaviorError''
      else case snd scr of
             Raised e \<Rightarrow> Inl e
           | Final fi fo result \<Rightarrow> Inr \<lparr>sk_output = result, sk_requests = 1,
               sk_input_tokens = fi, sk_output_tokens = fo\<rparr>)"

definition handled_exceptions :: "string list" where
  \<comment> \<open>the SDK's exceptions named in the \<open>except\<close> clauses\<close>
  "handled_exceptions = [''MaxTurnsExceeded'', ''ModelBehaviorError'', ''ModelRefusalError'', ''ModelTimeoutError'']"

definition value_exceptions :: "string list" where
  \<comment> \<open>\<open>TypeError\<close>, \<open>ValueError\<close> and its subclasses that parsing and encoding raise\<close>
  "value_exceptions = [''TypeError'', ''ValueError'', ''ValidationError'', ''JSONDecodeError'',
     ''UnicodeDecodeError'', ''UnicodeEncodeError'']"

definition unclear_route :: model_route where
  "unclear_route = \<lparr>mr_request_kind = Req_general, mr_certainty = Uncertain,
     mr_potentially_adversarial = False, mr_clarify = True, mr_clarification_question = None\<rparr>"

definition route_step :: "app_config \<Rightarrow> string \<Rightarrow> string \<Rightarrow> agent_step" where
  "route_step cfg name status = \<lparr>st_type = ''request_classified'', st_name = Some name,
     st_status = Some status, st_model = Some (azure_deployment_small cfg),
     st_prompt_version = Some router_prompt_version\<rparr>"

definition route :: "runner_env \<Rightarrow> input_item list \<Rightarrow> exn_name + (model_route \<times> agent_usage \<times> agent_step)" where
  "route env items =
     (let cfg = rn_config env; small = azure_deployment_small cfg;
          unclear = (unclear_route, model_usage small 0,
                     route_step cfg ''clarification'' (certainty_value Uncertain))
      in case route_play (rn_router env items) of
           Inl e \<Rightarrow> (if e \<in> set handled_exceptions \<or> e \<in> set value_exceptions then Inr unclear else Inl e)
         | Inr res \<Rightarrow>
             (case sk_output res of
                Sdk_route r \<Rightarrow>
                  (let r' = (if mr_certainty r = Uncertain then r\<lparr>mr_clarify := True\<rparr> else r)
                   in Inr (r', usage_of res small 0,
                        route_step cfg
                          (if mr_clarify r' then ''clarification'' else request_kind_value (mr_request_kind r'))
                          (if mr_potentially_adversarial r' then ''potentially_adversarial''
                           else certainty_value (mr_certainty r'))))
              | _ \<Rightarrow> Inr unclear))"

section \<open>The specialists\<close>

definition unknown :: "string \<Rightarrow> completion_reason \<Rightarrow> runner_result" where
  "unknown summary reason =
     Payment_result
       \<lparr>pi_outcome = infer_legacy_outcome None None, pi_recommended_customer = None,
        pi_account_receivable_summary = None, pi_confidence = Conf_unknown,
        pi_investigation_summary = summary,
        pi_unable_to_verify = [''cliente'', ''cuenta por cobrar'', ''evidencia en fuentes reales''],
        pi_alternatives = [], pi_evidence = [], pi_clarification_question = None\<rparr>
       (default_meta\<lparr>rm_completion_reason := reason\<rparr>)"

definition invalid_payment :: string where
  "invalid_payment = ''El modelo no produjo una respuesta estructurada v'' @ [CHR 0xE1] @ ''lida.''"

definition payment_fallback :: "exn_name \<Rightarrow> (string \<times> completion_reason) option" where
  "payment_fallback e =
     (if e = ''ModelTimeoutError''
      then Some (''Una solicitud a Azure excedi'' @ [CHR 0xF3] @ '' su tiempo de espera.'', Timeout)
      else if e = ''MaxTurnsExceeded''
      then Some (''La investigaci'' @ [CHR 0xF3] @ ''n agot'' @ [CHR 0xF3] @ '' el l'' @ [CHR 0xED]
             @ ''mite de turnos.'', Turn_limit)
      else if e = ''ModelRefusalError''
      then Some (''El modelo no pudo responder esta solicitud.'', Refusal)
      else if e = ''ModelBehaviorError'' then Some (invalid_payment, Invalid_output)
      else None)"

definition model_steps :: "sdk_result \<Rightarrow> agent_step list" where
  "model_steps res = replicate (sk_requests res)
     \<lparr>st_type = ''model_response'', st_name = None, st_status = None, st_model = None,
      st_prompt_version = None\<rparr>"

definition completed_meta :: "runner_env \<Rightarrow> run_state \<Rightarrow> sdk_result \<Rightarrow> run_meta" where
  "completed_meta env st res = default_meta\<lparr>rm_steps := model_steps res,
     rm_usage := usage_of res (azure_deployment_main (rn_config env)) (int (length (rs_calls st))),
     rm_completion_reason := Completed\<rparr>"

definition run_payment ::
  "runner_env \<Rightarrow> input_item list \<Rightarrow> nat \<Rightarrow> string \<Rightarrow> run_state
   \<Rightarrow> run_state \<times> (exn_name + runner_result)" where
  "run_payment env items attempt instructions st =
     (case runner_run env Req_payment_identification
             (rn_specialist env Req_payment_identification attempt instructions items) st of
        (st', Inl e) \<Rightarrow>
          (case payment_fallback e of
             Some (summary, reason) \<Rightarrow> (st', Inr (unknown summary reason))
           | None \<Rightarrow> (st', Inl e))
      | (st', Inr res) \<Rightarrow>
          (case sk_output res of
             Sdk_identification out \<Rightarrow>
               (let st'' = st'\<lparr>rs_requested_route := mo_route_correction out\<rparr>
                in case map_output (rn_config env) out st'' of
                     Inl e \<Rightarrow> (st'', Inl e)
                   | Inr p \<Rightarrow> (st'', Inr (Payment_result p (completed_meta env st'' res))))
           | _ \<Rightarrow> (st', Inr (unknown invalid_payment Invalid_output))))"

definition invalid_general :: string where
  "invalid_general = ''No pude construir una respuesta v'' @ [CHR 0xE1]
     @ ''lida. Incluso mi cerebro tiene d'' @ [CHR 0xED] @ ''as dif'' @ [CHR 0xED] @ ''ciles.''"

definition general_fallback_for :: "exn_name \<Rightarrow> (string \<times> completion_reason) option" where
  "general_fallback_for e =
     (if e = ''ModelTimeoutError''
      then Some (''Una solicitud a Azure excedi'' @ [CHR 0xF3]
             @ '' su tiempo de espera; no pude cerrar la respuesta.'', Timeout)
      else if e = ''MaxTurnsExceeded''
      then Some (''Pens'' @ [CHR 0xE9] @ '' demasiado y agot'' @ [CHR 0xE9]
             @ '' mis turnos. Intenta una pregunta m'' @ [CHR 0xE1] @ ''s acotada.'', Turn_limit)
      else if e = ''ModelRefusalError'' then Some (''No puedo responder esa solicitud.'', Refusal)
      else if e = ''ModelBehaviorError'' then Some (invalid_general, Invalid_output)
      else None)"

definition answer_only :: "string \<Rightarrow> general_answer" where
  "answer_only text = \<lparr>ga_answer = text, ga_route_correction = None\<rparr>"

definition general_failure ::
  "runner_env \<Rightarrow> run_state \<Rightarrow> string \<Rightarrow> completion_reason \<Rightarrow> runner_result" where
  "general_failure env st text reason =
     General_result (answer_only text)
       (default_meta\<lparr>rm_usage := model_usage (azure_deployment_main (rn_config env)) (int (length (rs_calls st))),
          rm_completion_reason := reason\<rparr>)"

definition run_general ::
  "runner_env \<Rightarrow> input_item list \<Rightarrow> nat \<Rightarrow> string \<Rightarrow> run_state
   \<Rightarrow> run_state \<times> (exn_name + runner_result)" where
  "run_general env items attempt instructions st =
     (case runner_run env Req_general (rn_specialist env Req_general attempt instructions items) st of
        (st', Inl e) \<Rightarrow>
          (case general_fallback_for e of
             Some (text, reason) \<Rightarrow> (st', Inr (general_failure env st' text reason))
           | None \<Rightarrow> (st', Inl e))
      | (st', Inr res) \<Rightarrow>
          (case sk_output res of
             Sdk_general a \<Rightarrow>
               (let st'' = st'\<lparr>rs_requested_route := ga_route_correction a\<rparr>
                in (st'', Inr (General_result a (completed_meta env st'' res))))
           | _ \<Rightarrow> (st', Inr (general_failure env st' invalid_general Invalid_output))))"

section \<open>The run\<close>

record prompts =
  pr_general_instructions :: string
  pr_general_version :: string
  pr_general_knowledge :: string
  pr_payment_instructions :: string
  pr_payment_version :: string
  pr_payment_knowledge :: string

definition prefix_memory :: "(string \<times> string) option \<Rightarrow> prompts \<Rightarrow> prompts" where
  "prefix_memory memory pr =
     (case memory of
        None \<Rightarrow> pr
      | Some (text, version) \<Rightarrow>
          (let sep = [CHR 0x0A, CHR 0x0A]
           in pr\<lparr>pr_general_instructions := text @ sep @ pr_general_instructions pr,
                pr_payment_instructions := text @ sep @ pr_payment_instructions pr,
                pr_general_knowledge := pr_general_knowledge pr @ ''+'' @ version,
                pr_payment_knowledge := pr_payment_knowledge pr @ ''+'' @ version\<rparr>))"

definition version_for :: "prompts \<Rightarrow> request_kind \<Rightarrow> string" where
  "version_for pr kind = (if kind = Req_general then pr_general_version pr else pr_payment_version pr)"

definition knowledge_for :: "prompts \<Rightarrow> request_kind \<Rightarrow> string" where
  "knowledge_for pr kind = (if kind = Req_general then pr_general_knowledge pr else pr_payment_knowledge pr)"

record loop_state =
  lp_kind :: request_kind
  lp_state :: run_state
  lp_accumulated :: agent_usage
  lp_corrections :: "agent_step list"
  lp_result :: runner_result

definition run_specialist ::
  "runner_env \<Rightarrow> input_item list \<Rightarrow> prompts \<Rightarrow> nat \<Rightarrow> request_kind \<Rightarrow> run_state
   \<Rightarrow> run_state \<times> (exn_name + runner_result)" where
  "run_specialist env items pr attempt kind st =
     (if kind = Req_general then run_general env items attempt (pr_general_instructions pr) st
      else run_payment env items attempt (pr_payment_instructions pr) st)"

definition correction_step :: "runner_env \<Rightarrow> prompts \<Rightarrow> request_kind \<Rightarrow> request_kind \<Rightarrow> agent_step" where
  "correction_step env pr current target = \<lparr>st_type = ''route_correction'',
     st_name = Some (request_kind_value target), st_status = Some ''requested'',
     st_model = Some (azure_deployment_main (rn_config env)),
     st_prompt_version = Some (version_for pr current)\<rparr>"

definition set_used :: "int \<Rightarrow> run_state \<Rightarrow> run_state" where
  "set_used n st = st\<lparr>rs_turns := (rs_turns st)\<lparr>tn_used := n\<rparr>\<rparr>"

definition no_objective :: string where
  "no_objective = ''No pude aclarar el objetivo dentro de los turnos disponibles.''"

fun attempts ::
  "runner_env \<Rightarrow> input_item list \<Rightarrow> prompts \<Rightarrow> nat list \<Rightarrow> loop_state \<Rightarrow> loop_state \<times> exn_name option" where
  \<comment> \<open>\<open>for attempt in range(2)\<close>\<close>
  "attempts env items pr [] lp = (lp, None)"
| "attempts env items pr (attempt # rest) lp =
     (let kind = lp_kind lp;
          st = (lp_state lp)\<lparr>rs_requested_route := None\<rparr>;
          used_before = tn_used (rs_turns st)
      in case run_specialist env items pr attempt kind st of
           (st', Inl e) \<Rightarrow> (lp\<lparr>lp_state := st'\<rparr>, Some e)
         | (st', Inr res) \<Rightarrow>
             (let usage = rm_usage (result_meta res);
                  st'' = set_used (max (tn_used (rs_turns st')) (used_before + us_turns usage)) st';
                  lp' = lp\<lparr>lp_state := st'', lp_accumulated := combined_usage (lp_accumulated lp) usage,
                           lp_result := res\<rparr>
              in case rs_requested_route st'' of
                   None \<Rightarrow> (lp', None)
                 | Some target \<Rightarrow>
                     (if target = kind then (lp', None)
                      else let lp'' = lp'\<lparr>lp_corrections := lp_corrections lp' @ [correction_step env pr kind target]\<rparr>
                           in if attempt \<noteq> 0 \<or> tn_limit (rs_turns st'') \<le> tn_used (rs_turns st'')
                              then (lp''\<lparr>lp_kind := Req_payment_identification,
                                         lp_result := unknown no_objective Turn_limit\<rparr>, None)
                              else attempts env items pr rest (lp''\<lparr>lp_kind := target\<rparr>))))"

definition failure :: "prompts \<Rightarrow> request_kind \<Rightarrow> run_state \<Rightarrow> py_exception" where
  "failure pr kind st = Run_failure \<lparr>fl_tool_calls = rs_calls st,
     fl_prompt_version = Some (version_for pr kind), fl_knowledge_version = Some (knowledge_for pr kind),
     fl_request_kind = kind\<rparr>"

definition finish ::
  "runner_env \<Rightarrow> prompts \<Rightarrow> agent_usage \<Rightarrow> agent_step \<Rightarrow> loop_state \<Rightarrow> runner_result" where
  "finish env pr router_usage step lp =
     (let st = lp_state lp; turns = rs_turns st; acc = lp_accumulated lp;
          specialist = \<lparr>us_model = Some (azure_deployment_main (rn_config env)),
            us_input_tokens = Some (max (or_zero (us_input_tokens acc)) (tn_input_tokens turns)),
            us_output_tokens = Some (max (or_zero (us_output_tokens acc)) (tn_output_tokens turns)),
            us_turns = tn_used turns, us_tool_calls = int (length (rs_calls st))\<rparr>;
          usage = combined_usage router_usage specialist;
          meta = (\<lambda>version knowledge m. \<lparr>rm_steps = step # lp_corrections lp @ rm_steps m, rm_usage = usage,
            rm_prompt_version = Some version, rm_knowledge_version = Some knowledge,
            rm_completion_reason = rm_completion_reason m, rm_tool_calls = rs_calls st\<rparr>)
      in case lp_result lp of
           General_result a m \<Rightarrow> General_result a (meta (pr_general_version pr) (pr_general_knowledge pr) m)
         | Payment_result p m \<Rightarrow> Payment_result p (meta (pr_payment_version pr) (pr_payment_knowledge pr) m))"

definition start_loop :: "runner_env \<Rightarrow> request_kind \<Rightarrow> loop_state" where
  "start_loop env kind = \<lparr>lp_kind = kind,
     lp_state = new_run_state (new_turns (max_agent_turns (rn_config env))),
     lp_accumulated = model_usage (azure_deployment_main (rn_config env)) 0, lp_corrections = [],
     lp_result = unknown (''No hubo una respuesta v'' @ [CHR 0xE1] @ ''lida.'') Invalid_output\<rparr>"

definition clarification_default :: string where
  "clarification_default = [CHR 0xBF] @ ''Qu'' @ [CHR 0xE9]
     @ '' necesitas resolver: identificar un pago o consultar otro tema?''"

definition investigate ::
  "runner_env \<Rightarrow> prompts \<Rightarrow> input_item list \<Rightarrow> py_exception + runner_result" where
  \<comment> \<open>\<open>run\<close> after the prompts and the items are built\<close>
  "investigate env pr items =
     (case route env items of
        Inl e \<Rightarrow> Inl (failure pr Req_payment_identification
                        (lp_state (start_loop env Req_payment_identification)))
      | Inr (r, usage, step) \<Rightarrow>
          (if mr_clarify r then
             (let pr' = pr\<lparr>pr_general_version := router_prompt_version\<rparr>;
                  text = (if truthy (mr_clarification_question r) then the (mr_clarification_question r)
                          else clarification_default);
                  lp = (start_loop env Req_general)\<lparr>lp_result := General_result (answer_only text) default_meta\<rparr>
              in Inr (finish env pr' usage step lp))
           else
             (let pr' = prefix_memory (if rn_shared_memory_enabled env then rn_memory_block env else None) pr
              in case attempts env items pr' [0, 1] (start_loop env (mr_request_kind r)) of
                   (lp, Some e) \<Rightarrow> Inl (failure pr' (lp_kind lp) (lp_state lp))
                 | (lp, None) \<Rightarrow> Inr (finish env pr' usage step lp))))"

definition run_agent_model ::
  "runner_env \<Rightarrow> agent_run_input \<Rightarrow> py_exception + runner_result" where
  \<comment> \<open>\<open>OpenAIAgentsRunner.run\<close>\<close>
  "run_agent_model env ri =
     (case rn_payment_prompt env of
        Inl e \<Rightarrow> Inl (Other_exception e)
      | Inr (payment_text, payment_version, payment_knowledge) \<Rightarrow>
          (case rn_general_prompt env of
             Inl e \<Rightarrow> Inl (Other_exception e)
           | Inr (general_text, general_version, general_knowledge) \<Rightarrow>
               (case build_input_items (rn_read_bytes env) ri of
                  Inl e \<Rightarrow> Inl (Other_exception e)
                | Inr items \<Rightarrow>
                    investigate env
                      \<lparr>pr_general_instructions = general_text, pr_general_version = general_version,
                       pr_general_knowledge = general_knowledge, pr_payment_instructions = payment_text,
                       pr_payment_version = payment_version, pr_payment_knowledge = payment_knowledge\<rparr>
                      items)))"

section \<open>Choosing a runner\<close>

datatype built_runner =
  Fake_runner
| Azure_runner bool  \<comment> \<open>whether it investigates through the read replica\<close>

definition build_agent_runner :: "app_config \<Rightarrow> exn_name option \<Rightarrow> exn_name + built_runner" where
  \<comment> \<open>the second argument is the exception of loading the knowledge files, if they cannot be read\<close>
  "build_agent_runner cfg knowledge_error =
     (if azure_agent_partially_configured cfg then Inl ''ValueError''
      else if azure_openai_endpoint cfg = '''' \<and> azure_openai_api_key cfg = ''''
      then (if environment cfg \<notin> {''local'', ''test''} then Inl ''ValueError'' else Inr Fake_runner)
      else if azure_deployment_main cfg = '''' then Inl ''ValueError''
      else if azure_deployment_small cfg = '''' then Inl ''ValueError''
      else if replica_ready cfg
      then (case knowledge_error of Some e \<Rightarrow> Inl e | None \<Rightarrow> Inr (Azure_runner True))
      else Inr (Azure_runner False))"

section \<open>What one run of the SDK preserves\<close>

text \<open>The last turn of the budget is prepared without tools, and no turn is prepared beyond it.\<close>

lemma prepare_cases:
  "prepare t kw = Inl e \<longleftrightarrow> e = ''MaxTurnsExceeded'' \<and> tn_limit t \<le> tn_used t"
  "prepare t kw = Inr (kw', t') \<Longrightarrow> tn_used t < tn_limit t \<and> t' = t\<lparr>tn_used := tn_used t + 1\<rparr>
     \<and> (tn_used t + 1 = tn_limit t \<longrightarrow> kw_tools kw' = [] \<and> kw_handoffs kw' = []
          \<and> kw_tool_choice kw' = Some ''none'')
     \<and> (tn_used t + 1 \<noteq> tn_limit t \<longrightarrow> kw' = kw)"
  by (auto simp: prepare_def Let_def split: if_split_asm)

definition some_success :: "run_state \<Rightarrow> bool" where
  "some_success st \<longleftrightarrow> (\<exists>r \<in> set (rs_calls st). ta_status r = ''succeeded'')"

definition loop_ok :: "run_state \<Rightarrow> bool" where
  "loop_ok st \<longleftrightarrow> run_state_ok st \<and> (rs_verified st \<noteq> [] \<longrightarrow> some_success st)
     \<and> 0 \<le> tn_used (rs_turns st) \<and> tn_used (rs_turns st) \<le> tn_limit (rs_turns st)"

definition advances :: "run_state \<Rightarrow> run_state \<Rightarrow> bool" where
  "advances st st' \<longleftrightarrow> loop_ok st' \<and> tn_limit (rs_turns st') = tn_limit (rs_turns st)
     \<and> tn_used (rs_turns st) \<le> tn_used (rs_turns st')
     \<and> rs_requested_route st' = rs_requested_route st
     \<and> (\<exists>more. rs_calls st' = rs_calls st @ more)"

lemma advances_refl: "loop_ok st \<Longrightarrow> advances st st"
  by (simp add: advances_def)

lemma advances_trans: "advances a b \<Longrightarrow> advances b c \<Longrightarrow> advances a c"
  by (auto simp: advances_def)

lemma run_state_ok_turns [simp]:
  "run_state_ok (st\<lparr>rs_turns := t\<rparr>) = run_state_ok st"
  "run_state_ok (st\<lparr>rs_requested_route := r\<rparr>) = run_state_ok st"
  "run_state_ok (set_used n st) = run_state_ok st"
  by (simp_all add: run_state_ok_def evidence_ok_def sources_ok_def verified_ok_def calls_ok_def
      set_used_def)

lemma some_success_turns [simp]:
  "some_success (st\<lparr>rs_turns := t\<rparr>) = some_success st"
  "some_success (st\<lparr>rs_requested_route := r\<rparr>) = some_success st"
  "some_success (set_used n st) = some_success st"
  by (simp_all add: some_success_def set_used_def)

lemma invoke_success:
  assumes "run_state_ok st" "rs_verified st \<noteq> [] \<longrightarrow> some_success st"
  shows "rs_verified (snd (invoke name request ms call st)) \<noteq> [] \<longrightarrow>
    some_success (snd (invoke name request ms call st))"
proof (cases "call request")
  case (Inl e)
  obtain more where "rs_calls (snd (invoke name request ms call st)) = rs_calls st @ more"
    using invoke_run_state_ok [OF assms(1), of name request ms call] by blast
  moreover have "rs_verified (snd (invoke name request ms call st)) = rs_verified st"
    using invoke_failed [of call request e name ms st, OF Inl] by simp
  ultimately show ?thesis using assms(2) by (auto simp: some_success_def)
next
  case (Inr obs)
  obtain obs' st1 where r: "register_observation name request obs st = (obs', st1)" by fastforce
  have "some_success (snd (invoke name request ms call st))"
    unfolding invoke_succeeded [where call = call, OF Inr r]
    by (simp add: some_success_def succeeded_record_def call_record_def)
  then show ?thesis by simp
qed

lemma invoke_advances:
  assumes "loop_ok st"
  shows "advances st (snd (invoke name request ms call st))"
proof -
  have ok: "run_state_ok st" "rs_verified st \<noteq> [] \<longrightarrow> some_success st"
    using assms by (simp_all add: loop_ok_def)
  note a = invoke_run_state_ok [OF ok(1), of name request ms call]
  obtain r where "rs_calls (snd (invoke name request ms call st)) = rs_calls st @ [r]" using a by blast
  then show ?thesis
    using a invoke_success [OF ok, of name request ms call] assms
    by (simp add: advances_def loop_ok_def)
qed

lemma use_tools_advances:
  "loop_ok st \<Longrightarrow> use_tools env tools us st = (st', e) \<Longrightarrow>
   advances st st' \<and> (e = None \<or> e = Some ''ModelBehaviorError'')
   \<and> tn_used (rs_turns st') = tn_used (rs_turns st)"
proof (induction us arbitrary: st)
  case Nil
  then show ?case by (simp add: advances_refl)
next
  case (Cons u us)
  show ?case
  proof (cases "tu_name u \<notin> set tools \<or> tool_function env st (tu_name u) (tu_request u) = None")
    case True
    then have "st' = st \<and> e = Some ''ModelBehaviorError''"
      using Cons.prems(2) by (cases "tu_name u \<in> set tools") auto
    then show ?thesis using advances_refl [OF Cons.prems(1)] by simp
  next
    case False
    then obtain res where f: "tool_function env st (tu_name u) (tu_request u) = Some res" by blast
    define st1 where "st1 = snd (invoke (tu_name u) (tu_request u) (tu_ms u) (\<lambda>_. res) st)"
    have adv: "advances st st1" unfolding st1_def by (rule invoke_advances [OF Cons.prems(1)])
    have "use_tools env tools us st1 = (st', e)" using Cons.prems(2) False f by (simp add: st1_def)
    then have "advances st1 st' \<and> (e = None \<or> e = Some ''ModelBehaviorError'')
        \<and> tn_used (rs_turns st') = tn_used (rs_turns st1)"
      using Cons.IH adv unfolding advances_def by blast
    moreover have "rs_turns st1 = rs_turns st"
      using invoke_run_state_ok [of st "tu_name u" "tu_request u" "tu_ms u" "\<lambda>_. res"] Cons.prems(1)
      by (simp add: st1_def loop_ok_def)
    ultimately show ?thesis using advances_trans [OF adv, of st'] by simp
  qed
qed

lemma take_turn_cases:
  "take_turn m n st = Inl e \<Longrightarrow> e = ''MaxTurnsExceeded''"
  "take_turn m n st = Inr st' \<Longrightarrow> loop_ok st \<Longrightarrow> advances st st'
     \<and> tn_used (rs_turns st') = tn_used (rs_turns st) + 1"
  by (auto simp: take_turn_def advances_def loop_ok_def prepare_cases(1)
      split: if_split_asm sum.splits dest!: prepare_cases(2))

lemma add_tokens_advances:
  "loop_ok st \<Longrightarrow> advances st (add_tokens i out st) \<and>
   tn_used (rs_turns (add_tokens i out st)) = tn_used (rs_turns st)"
  by (simp add: add_tokens_def count_tokens_def advances_def loop_ok_def)

definition script_error :: "ending \<Rightarrow> exn_name \<Rightarrow> bool" where
  "script_error fin e \<longleftrightarrow> e \<in> {''MaxTurnsExceeded'', ''ModelBehaviorError''} \<or> fin = Raised e"

lemma play_advances:
  "loop_ok st \<Longrightarrow> play env tools m n i out rs fin st = (st', res) \<Longrightarrow>
   advances st st'
   \<and> (\<forall>e. res = Inl e \<longrightarrow> script_error fin e)
   \<and> (\<forall>r. res = Inr r \<longrightarrow> int (sk_requests r) = int n + (tn_used (rs_turns st') - tn_used (rs_turns st))
        \<and> (\<exists>fi fo. fin = Final fi fo (sk_output r)))"
proof (induction rs arbitrary: st n i out)
  case Nil
  show ?case
  proof (cases "take_turn m n st")
    case (Inl e)
    then show ?thesis
      using Nil take_turn_cases(1) [OF Inl] advances_refl
      by (cases fin) (auto simp: script_error_def)
  next
    case (Inr st1)
    note t = take_turn_cases(2) [OF Inr Nil(1)]
    have l1: "loop_ok st1" using t by (simp add: advances_def)
    show ?thesis
    proof (cases fin)
      case (Final fi fo result)
      then have st': "st' = add_tokens fi fo st1" using Nil(2) Inr by simp
      have "advances st1 st'" "tn_used (rs_turns st') = tn_used (rs_turns st1)"
        using add_tokens_advances [OF l1] st' by simp_all
      then show ?thesis using t Nil(2) Inr Final advances_trans by auto
    next
      case (Raised e)
      then show ?thesis using t Nil(2) Inr by (auto simp: script_error_def)
    qed
  qed
next
  case (Cons r rs)
  show ?case
  proof (cases "take_turn m n st")
    case (Inl e)
    then show ?thesis
      using Cons.prems take_turn_cases(1) [OF Inl] advances_refl by (auto simp: script_error_def)
  next
    case (Inr st1)
    note t = take_turn_cases(2) [OF Inr Cons.prems(1)]
    define st2 where "st2 = add_tokens (re_input_tokens r) (re_output_tokens r) st1"
    have l1: "loop_ok st1" using t by (simp add: advances_def)
    have a2: "advances st1 st2" "tn_used (rs_turns st2) = tn_used (rs_turns st1)"
      using add_tokens_advances [OF l1] by (simp_all add: st2_def)
    have l2: "loop_ok st2" using a2 by (simp add: advances_def)
    obtain st3 e where u: "use_tools env tools (re_tool_uses r) st2 = (st3, e)" by fastforce
    note a3 = use_tools_advances [OF l2 u]
    have a03: "advances st st3" using t a2 a3 advances_trans by blast
    have used3: "tn_used (rs_turns st3) = tn_used (rs_turns st) + 1" using t a2 a3 by simp
    show ?thesis
    proof (cases e)
      case (Some x)
      then show ?thesis using Cons.prems(2) Inr u a3 a03 by (auto simp: st2_def script_error_def)
    next
      case None
      have l3: "loop_ok st3" using a3 by (simp add: advances_def)
      have "play env tools m (n + 1) (i + re_input_tokens r) (out + re_output_tokens r) rs fin st3 = (st', res)"
        using Cons.prems(2) Inr u None by (simp add: st2_def)
      from Cons.IH [OF l3 this] show ?thesis using a03 used3 advances_trans by fastforce
    qed
  qed
qed

end
