(* ===== verification/RunnerProofs.thy ===== *)
theory RunnerProofs
  imports RunnerLoop
begin

text \<open>
  What a whole run guarantees (\<open>run_agent_model\<close>): its turns and route corrections are bounded, its
  audit is complete whether it answers or fails, it fails only when the provider does, and a match
  rests on a tool call of the same run.
\<close>

definition is_match :: "runner_result \<Rightarrow> bool" where
  "is_match r = (case r of Payment_result p _ \<Rightarrow> pi_outcome p = Out_matched | General_result _ _ \<Rightarrow> False)"

definition well_typed :: "runner_result \<Rightarrow> bool" where
  \<comment> \<open>the identification of a result passes its own validator, and its steps are model responses\<close>
  "well_typed r \<longleftrightarrow>
     (case r of Payment_result p _ \<Rightarrow> build_identification p = Inr p | General_result _ _ \<Rightarrow> True)
     \<and> list_all (\<lambda>s. st_type s = ''model_response'') (rm_steps (result_meta r))"

lemma unknown_facts [simp]:
  "\<not> is_match (unknown summary reason)" "well_typed (unknown summary reason)"
  "result_meta (unknown summary reason) = default_meta\<lparr>rm_completion_reason := reason\<rparr>"
  by (simp_all add: unknown_def is_match_def well_typed_def infer_legacy_outcome_def
      default_meta_def)

lemma general_failure_facts [simp]:
  "\<not> is_match (general_failure env st text reason)" "well_typed (general_failure env st text reason)"
  "us_turns (rm_usage (result_meta (general_failure env st text reason))) = 0"
  by (simp_all add: general_failure_def is_match_def well_typed_def model_usage_def no_usage_def
      default_meta_def)

lemma usage_turns [simp]:
  "us_turns (rm_usage (completed_meta env st res)) = int (sk_requests res)"
  "us_turns (rm_usage (default_meta\<lparr>rm_completion_reason := reason\<rparr>)) = 0"
  "us_turns (rm_usage default_meta) = 0"
  by (simp_all add: completed_meta_def usage_of_def default_meta_def no_usage_def)

lemma completed_steps [simp]:
  "list_all (\<lambda>s. st_type s = ''model_response'') (rm_steps (completed_meta env st res))"
  by (simp add: completed_meta_def model_steps_def list_all_iff)

lemma loop_ok_route [simp]: "loop_ok (st\<lparr>rs_requested_route := r\<rparr>) = loop_ok st"
  by (simp add: loop_ok_def)

definition specialist_ok :: "run_state \<Rightarrow> run_state \<Rightarrow> runner_result \<Rightarrow> bool" where
  "specialist_ok st st' r \<longleftrightarrow>
     (let n = us_turns (rm_usage (result_meta r))
      in 0 \<le> n \<and> tn_used (rs_turns st) + n \<le> tn_used (rs_turns st'))
     \<and> (is_match r \<longrightarrow> some_success st') \<and> well_typed r"

definition specialist_frame :: "run_state \<Rightarrow> run_state \<Rightarrow> bool" where
  "specialist_frame st st' \<longleftrightarrow> loop_ok st' \<and> tn_limit (rs_turns st') = tn_limit (rs_turns st)"

lemma matched_needs_success:
  assumes "map_output cfg out st = Inr p" "pi_outcome p = Out_matched" "loop_ok st"
  shows "some_success st"
proof -
  have "verified_ok st" using assms(3) by (simp add: loop_ok_def run_state_ok_def)
  moreover obtain v key verified selected where "match_of cfg out st v key verified selected p"
    using map_output_matched [OF assms(1,2)] by blast
  ultimately have "map_of (rs_verified st) key = Some verified"
    using resolve_candidate_Some unfolding match_of_def by blast
  then have "rs_verified st \<noteq> []" by auto
  then show ?thesis using assms(3) by (simp add: loop_ok_def)
qed

definition built :: "(exn_name + payment_identification) \<Rightarrow> bool" where
  "built r \<longleftrightarrow> (\<exists>p. r = build_identification p)"

lemma map_output_built: "built (map_output cfg out st)"
proof -
  have a: "built (ambiguous cfg out st s b)" for s b
    unfolding ambiguous_def built_def Let_def by (auto split: prod.split)
  have m: "built (matched cfg out st v c g)" "built (not_found out st)" for v c g
    unfolding matched_def not_found_def built_def Let_def by blast+
  have "built (recommend cfg out st v)" for v
    unfolding recommend_def Let_def by (simp add: a m split: option.split prod.split)
  then show ?thesis
    unfolding map_output_def by (simp add: a m split: option.split)
qed

lemma map_output_valid: "map_output cfg out st = Inr p \<Longrightarrow> build_identification p = Inr p"
  using map_output_built [of cfg out st] build_identification_Inr unfolding built_def by metis

lemma runner_run_ok:
  assumes "loop_ok st" "runner_run env kind scr st = (st', res)"
  shows "advances st st' \<and> (\<forall>e. res = Inl e \<longrightarrow> script_error (snd scr) e)
    \<and> (\<forall>r. res = Inr r \<longrightarrow> int (sk_requests r) = tn_used (rs_turns st') - tn_used (rs_turns st)
         \<and> (\<exists>fi fo. snd scr = Final fi fo (sk_output r)))"
  using play_advances [OF assms(1)] assms(2) unfolding runner_run_def Let_def by fastforce

lemma advances_frame: "advances st st' \<Longrightarrow> specialist_frame st st'"
  by (simp add: advances_def specialist_frame_def)

lemma advances_zero: "advances st st' \<Longrightarrow> \<not> is_match r \<Longrightarrow> well_typed r \<Longrightarrow>
    us_turns (rm_usage (result_meta r)) = 0 \<Longrightarrow> specialist_ok st st' r"
  by (simp add: advances_def specialist_ok_def)

lemma run_payment_ok:
  assumes ok: "loop_ok st" and run: "run_payment env items n instr st = (st', res)"
  shows "specialist_frame st st' \<and> (\<forall>r. res = Inr r \<longrightarrow> specialist_ok st st' r)"
proof -
  obtain st1 out where r: "runner_run env Req_payment_identification
      (rn_specialist env Req_payment_identification n instr items) st = (st1, out)" by fastforce
  note a = runner_run_ok [OF ok r]
  then have adv: "advances st st1" by blast
  show ?thesis
  proof (cases out)
    case (Inl e)
    then show ?thesis
      using run r adv advances_frame [OF adv] advances_zero [OF adv]
      by (cases "payment_fallback e") (auto simp: run_payment_def)
  next
    case (Inr out')
    show ?thesis
    proof (cases "sk_output out'")
      case (Sdk_identification o')
      define st2 where "st2 = st1\<lparr>rs_requested_route := mo_route_correction o'\<rparr>"
      have l2: "loop_ok st2" "rs_turns st2 = rs_turns st1"
        using adv by (simp_all add: st2_def advances_def)
      show ?thesis
      proof (cases "map_output (rn_config env) o' st2")
        case (Inl e)
        then have "st' = st2" "res = Inl e"
          using run r Inr Sdk_identification by (simp_all add: run_payment_def st2_def [symmetric])
        then show ?thesis using l2 adv by (simp add: specialist_frame_def advances_def)
      next
        case (Inr p)
        then have eq: "st' = st2" "res = Inr (Payment_result p (completed_meta env st2 out'))"
          using run r \<open>out = Inr out'\<close> Sdk_identification
          by (auto simp: run_payment_def st2_def [symmetric])
        have "is_match (Payment_result p (completed_meta env st2 out')) \<longrightarrow> some_success st2"
          using matched_needs_success [OF Inr _ l2(1)] by (simp add: is_match_def)
        moreover have "well_typed (Payment_result p (completed_meta env st2 out'))"
          using map_output_valid [OF Inr] by (simp add: well_typed_def)
        ultimately show ?thesis
          using eq l2 adv a \<open>out = Inr out'\<close>
          by (simp add: specialist_frame_def specialist_ok_def advances_def)
      qed
    qed (use run r Inr adv advances_frame [OF adv] advances_zero [OF adv] in
        \<open>auto simp: run_payment_def\<close>)
  qed
qed

lemma run_general_ok:
  assumes ok: "loop_ok st" and run: "run_general env items n instr st = (st', res)"
  shows "specialist_frame st st' \<and> (\<forall>r. res = Inr r \<longrightarrow> specialist_ok st st' r)"
proof -
  obtain st1 out where r: "runner_run env Req_general
      (rn_specialist env Req_general n instr items) st = (st1, out)" by fastforce
  note a = runner_run_ok [OF ok r]
  then have adv: "advances st st1" by blast
  show ?thesis
  proof (cases out)
    case (Inl e)
    then show ?thesis
      using run r adv advances_frame [OF adv] advances_zero [OF adv]
      by (cases "general_fallback_for e") (auto simp: run_general_def)
  next
    case (Inr out')
    show ?thesis
    proof (cases "sk_output out'")
      case (Sdk_general g)
      define st2 where "st2 = st1\<lparr>rs_requested_route := ga_route_correction g\<rparr>"
      have "st' = st2" "res = Inr (General_result g (completed_meta env st2 out'))"
        using run r Inr Sdk_general by (auto simp: run_general_def st2_def Let_def)
      then show ?thesis
        using adv a Inr
        by (simp add: st2_def specialist_frame_def specialist_ok_def advances_def is_match_def well_typed_def)
    qed (use run r Inr adv advances_frame [OF adv] advances_zero [OF adv] in
        \<open>auto simp: run_general_def\<close>)
  qed
qed

lemma run_specialist_ok:
  "loop_ok st \<Longrightarrow> run_specialist env items pr n kind st = (st', res) \<Longrightarrow>
   specialist_frame st st' \<and> (\<forall>r. res = Inr r \<longrightarrow> specialist_ok st st' r)"
  unfolding run_specialist_def
  by (cases "kind = Req_general") (auto dest: run_payment_ok run_general_ok)

section \<open>The loop\<close>

definition lp_ok :: "loop_state \<Rightarrow> bool" where
  "lp_ok lp \<longleftrightarrow> loop_ok (lp_state lp) \<and> (is_match (lp_result lp) \<longrightarrow> some_success (lp_state lp))
     \<and> well_typed (lp_result lp)"

lemma set_used_same: "set_used (tn_used (rs_turns st)) st = st"
  by (simp add: set_used_def)

text \<open>One attempt that gives a result: the accounting changes no turn, the loop is sound whatever is
  recorded next, and what happens then depends on the route the specialist asked for.\<close>

lemma attempt_step:
  fixes ns c k
  assumes "lp_ok lp"
    and "run_specialist env items pr n (lp_kind lp) ((lp_state lp)\<lparr>rs_requested_route := None\<rparr>) = (st1, Inr res)"
  defines "lp1 \<equiv> lp\<lparr>lp_state := st1,
      lp_accumulated := combined_usage (lp_accumulated lp) (rm_usage (result_meta res)), lp_result := res\<rparr>"
  shows "lp_ok (lp1\<lparr>lp_corrections := c, lp_kind := k\<rparr>)"
    and "tn_limit (rs_turns st1) = tn_limit (rs_turns (lp_state lp))"
    and "attempts env items pr (n # ns) lp =
      (case rs_requested_route st1 of
         None \<Rightarrow> (lp1, None)
       | Some target \<Rightarrow>
           (if target = lp_kind lp then (lp1, None)
            else let lp2 = lp1\<lparr>lp_corrections := lp_corrections lp1 @ [correction_step env pr (lp_kind lp) target]\<rparr>
                 in if n \<noteq> 0 \<or> tn_limit (rs_turns st1) \<le> tn_used (rs_turns st1)
                    then (lp2\<lparr>lp_kind := Req_payment_identification,
                              lp_result := unknown no_objective Turn_limit\<rparr>, None)
                    else attempts env items pr ns (lp2\<lparr>lp_kind := target\<rparr>)))"
proof -
  define st where "st = (lp_state lp)\<lparr>rs_requested_route := None\<rparr>"
  have ok: "loop_ok st" "rs_turns st = rs_turns (lp_state lp)" using assms(1) by (simp_all add: st_def lp_ok_def)
  note a = run_specialist_ok [OF ok(1) assms(2) [folded st_def]]
  then have s: "specialist_ok st st1 res" by blast
  then have "max (tn_used (rs_turns st1)) (tn_used (rs_turns st) + us_turns (rm_usage (result_meta res)))
      = tn_used (rs_turns st1)" by (simp add: specialist_ok_def Let_def)
  then have same: "set_used (max (tn_used (rs_turns st1)) (tn_used (rs_turns st) +
      us_turns (rm_usage (result_meta res)))) st1 = st1" by (simp add: set_used_same)
  show "lp_ok (lp1\<lparr>lp_corrections := c, lp_kind := k\<rparr>)" "tn_limit (rs_turns st1) = tn_limit (rs_turns (lp_state lp))"
    using a s ok(2) by (simp_all add: lp1_def lp_ok_def specialist_ok_def specialist_frame_def)
  show "attempts env items pr (n # ns) lp =
      (case rs_requested_route st1 of
         None \<Rightarrow> (lp1, None)
       | Some target \<Rightarrow>
           (if target = lp_kind lp then (lp1, None)
            else let lp2 = lp1\<lparr>lp_corrections := lp_corrections lp1 @ [correction_step env pr (lp_kind lp) target]\<rparr>
                 in if n \<noteq> 0 \<or> tn_limit (rs_turns st1) \<le> tn_used (rs_turns st1)
                    then (lp2\<lparr>lp_kind := Req_payment_identification,
                              lp_result := unknown no_objective Turn_limit\<rparr>, None)
                    else attempts env items pr ns (lp2\<lparr>lp_kind := target\<rparr>)))"
    by (simp only: attempts.simps Let_def st_def [symmetric] assms(2) [folded st_def] prod.case sum.case same lp1_def)
qed

lemma attempts_ok:
  "lp_ok lp \<Longrightarrow> attempts env items pr ns lp = (lp', e) \<Longrightarrow>
   loop_ok (lp_state lp')
   \<and> tn_limit (rs_turns (lp_state lp')) = tn_limit (rs_turns (lp_state lp))
   \<and> (\<exists>more. lp_corrections lp' = lp_corrections lp @ more \<and> length more \<le> length ns)
   \<and> (e = None \<longrightarrow> lp_ok lp')"
proof (induction ns arbitrary: lp)
  case Nil
  then show ?case by (auto simp: lp_ok_def)
next
  case (Cons n ns)
  let ?st = "(lp_state lp)\<lparr>rs_requested_route := None\<rparr>"
  obtain st1 out where r: "run_specialist env items pr n (lp_kind lp) ?st = (st1, out)" by fastforce
  show ?case
  proof (cases out)
    case (Inl x)
    have "loop_ok ?st" using Cons.prems(1) by (simp add: lp_ok_def)
    from run_specialist_ok [OF this r] Inl Cons.prems(2) r show ?thesis
      by (auto simp: Let_def specialist_frame_def)
  next
    case (Inr res)
    note one = attempt_step [OF Cons.prems(1) r [unfolded Inr]]
    define lp1 where "lp1 = lp\<lparr>lp_state := st1,
      lp_accumulated := combined_usage (lp_accumulated lp) (rm_usage (result_meta res)), lp_result := res\<rparr>"
    note step = one(3) [where ns = ns, folded lp1_def, unfolded Cons.prems(2) Let_def]
    have ok: "lp_ok (lp1\<lparr>lp_corrections := c, lp_kind := k\<rparr>)" for c k using one(1) by (simp add: lp1_def)
    have ok1: "lp_ok lp1" "loop_ok st1" using ok [where c = "lp_corrections lp1" and k = "lp_kind lp1"] by (simp_all add: lp_ok_def lp1_def)
    let ?lp2 = "\<lambda>t. lp1\<lparr>lp_corrections := lp_corrections lp1 @ [correction_step env pr (lp_kind lp) t]\<rparr>"
    consider (answered) "lp' = lp1" "e = None"
      | (given_up) t where "lp' = ?lp2 t\<lparr>lp_kind := Req_payment_identification,
          lp_result := unknown no_objective Turn_limit\<rparr>" "e = None"
      | (again) t where "attempts env items pr ns (?lp2 t\<lparr>lp_kind := t\<rparr>) = (lp', e)"
      using step by (auto split: option.splits if_split_asm)
    then show ?thesis
    proof cases
      case again
      from Cons.IH [OF _ again] ok one(2) show ?thesis by (auto simp: lp1_def)
    qed (use ok1 one(2) in \<open>auto simp: lp1_def lp_ok_def\<close>)
  qed
qed

lemma start_loop_ok:
  "0 \<le> max_agent_turns (rn_config env) \<Longrightarrow> lp_ok (start_loop env kind)
   \<and> tn_limit (rs_turns (lp_state (start_loop env kind))) = max_agent_turns (rn_config env)
   \<and> lp_corrections (start_loop env kind) = []"
  using new_run_state_ok
  by (simp add: start_loop_def lp_ok_def loop_ok_def new_run_state_def new_turns_def)

lemma clarified_loop_ok:
  "0 \<le> max_agent_turns (rn_config env) \<Longrightarrow>
   lp_ok ((start_loop env kind)\<lparr>lp_result := General_result a default_meta\<rparr>)"
  using start_loop_ok [of env kind]
  by (simp add: lp_ok_def is_match_def well_typed_def default_meta_def)

section \<open>The whole run\<close>

lemma route_turns:
  "route env items = Inr (r, usage, step) \<Longrightarrow>
   us_turns usage \<in> {0, 1} \<and> st_type step = ''request_classified''"
proof -
  have play: "route_play scr = Inr res \<Longrightarrow> sk_requests res = 1" for scr res
    by (auto simp: route_play_def split: if_split_asm ending.splits)
  assume "route env items = Inr (r, usage, step)"
  then show ?thesis
    using play
    by (auto simp: route_def Let_def route_step_def model_usage_def no_usage_def usage_of_def
        split: sum.splits if_split_asm sdk_output.splits)
qed

definition finished :: "runner_env \<Rightarrow> runner_result \<Rightarrow> bool" where
  "finished env r \<longleftrightarrow> (\<exists>pr usage step lp. r = finish env pr usage step lp \<and> lp_ok lp
     \<and> tn_limit (rs_turns (lp_state lp)) = max_agent_turns (rn_config env)
     \<and> length (lp_corrections lp) \<le> 2 \<and> us_turns usage \<in> {0, 1}
     \<and> st_type step = ''request_classified'')"

lemma finishedI:
  "r = finish env pr usage step lp \<Longrightarrow> lp_ok lp \<Longrightarrow>
   tn_limit (rs_turns (lp_state lp)) = max_agent_turns (rn_config env) \<Longrightarrow>
   length (lp_corrections lp) \<le> 2 \<Longrightarrow> us_turns usage \<in> {0, 1} \<Longrightarrow>
   st_type step = ''request_classified'' \<Longrightarrow> finished env r"
  unfolding finished_def by blast

lemma investigate_finished:
  assumes "0 \<le> max_agent_turns (rn_config env)" "investigate env pr items = Inr res"
  shows "finished env res"
proof -
  obtain r usage step where route: "route env items = Inr (r, usage, step)"
    using assms(2) by (auto simp: investigate_def split: sum.splits)
  note rt = route_turns [OF route]
  show ?thesis
  proof (cases "mr_clarify r")
    case True
    then obtain pr' a where res: "res = finish env pr' usage step
        ((start_loop env Req_general)\<lparr>lp_result := General_result a default_meta\<rparr>)"
      using assms(2) route by (auto simp: investigate_def Let_def)
    show ?thesis
      by (rule finishedI [OF res]) (use rt clarified_loop_ok [OF assms(1)] start_loop_ok [OF assms(1)] in simp_all)
  next
    case False
    then obtain pr' lp where lp: "attempts env items pr' [0, 1] (start_loop env (mr_request_kind r)) = (lp, None)"
      "res = finish env pr' usage step lp"
      using assms(2) route by (auto simp: investigate_def Let_def split: option.splits prod.splits)
    have "lp_ok (start_loop env (mr_request_kind r))" using start_loop_ok [OF assms(1)] by blast
    note a = attempts_ok [OF this lp(1)]
    show ?thesis
      by (rule finishedI [OF lp(2)]) (use rt a start_loop_ok [OF assms(1)] in auto)
  qed
qed

lemma investigate_failed:
  assumes "0 \<le> max_agent_turns (rn_config env)" "investigate env pr items = Inl x"
  shows "\<exists>pr' kind st. x = failure pr' kind st \<and> loop_ok st"
proof (cases "route env items")
  case (Inl e)
  have "loop_ok (lp_state (start_loop env Req_payment_identification))"
    using start_loop_ok [OF assms(1)] unfolding lp_ok_def by blast
  then show ?thesis using assms(2) Inl by (auto simp: investigate_def)
next
  case (Inr a)
  obtain r usage step where a: "a = (r, usage, step)" by (metis prod_cases3)
  have "\<not> mr_clarify r" using assms(2) Inr a by (auto simp: investigate_def Let_def)
  then obtain pr' lp e where lp: "attempts env items pr' [0, 1] (start_loop env (mr_request_kind r)) = (lp, Some e)"
    "x = failure pr' (lp_kind lp) (lp_state lp)"
    using assms(2) Inr a by (auto simp: investigate_def Let_def split: option.splits prod.splits)
  have "lp_ok (start_loop env (mr_request_kind r))" using start_loop_ok [OF assms(1)] by blast
  from attempts_ok [OF this lp(1)] show ?thesis using lp(2) by blast
qed

lemma finish_meta:
  "rm_tool_calls (result_meta (finish env pr usage step lp)) = rs_calls (lp_state lp)"
  "rm_steps (result_meta (finish env pr usage step lp))
     = step # lp_corrections lp @ rm_steps (result_meta (lp_result lp))"
  "us_turns (rm_usage (result_meta (finish env pr usage step lp)))
     = us_turns usage + tn_used (rs_turns (lp_state lp))"
  "us_tool_calls (rm_usage (result_meta (finish env pr usage step lp)))
     = int (length (rs_calls (lp_state lp)))"
  "is_match (finish env pr usage step lp) = is_match (lp_result lp)"
  by (cases "lp_result lp"; simp add: finish_def Let_def combined_usage_def is_match_def)+

lemma run_investigates:
  "(\<exists>e. run_agent_model env ri = Inl (Other_exception e)
      \<and> (rn_payment_prompt env = Inl e \<or> rn_general_prompt env = Inl e
         \<or> build_input_items (rn_read_bytes env) ri = Inl e))
   \<or> (\<exists>pr items. run_agent_model env ri = investigate env pr items
        \<and> build_input_items (rn_read_bytes env) ri = Inr items)"
proof (cases "rn_payment_prompt env")
  case (Inl e)
  then show ?thesis by (simp add: run_agent_model_def)
next
  case p: (Inr a)
  show ?thesis
  proof (cases "rn_general_prompt env")
    case (Inl e)
    with p show ?thesis by (simp add: run_agent_model_def split: prod.split)
  next
    case g: (Inr b)
    show ?thesis
    proof (cases "build_input_items (rn_read_bytes env) ri")
      case (Inl e)
      with p g show ?thesis by (simp add: run_agent_model_def split: prod.split)
    next
      case (Inr items)
      with p g have "\<exists>pr. run_agent_model env ri = investigate env pr items"
        by (cases a; cases b) (simp add: run_agent_model_def, blast)
      with Inr show ?thesis by blast
    qed
  qed
qed

lemma run_finished:
  assumes "config_valid (rn_config env)" "run_agent_model env ri = Inr r"
  shows "finished env r"
proof -
  have "0 \<le> max_agent_turns (rn_config env)" using assms(1) by (simp add: config_valid_def within_def)
  moreover obtain pr items where "investigate env pr items = Inr r"
    using run_investigates [of env ri] assms(2) by auto
  ultimately show ?thesis by (rule investigate_finished)
qed

text \<open>A run's work is bounded, whatever the model does. When a run answers, its specialists together
  used no more model turns than the configured limit, across both attempts, and with the router's
  one turn the reported usage is within the limit plus one; the route was corrected at most twice
  on record, after one classification step.\<close>

theorem runner_work_is_bounded:
  assumes "config_valid (rn_config env)" "run_agent_model env ri = Inr r"
  shows "0 \<le> us_turns (rm_usage (result_meta r))
    \<and> us_turns (rm_usage (result_meta r)) \<le> max_agent_turns (rn_config env) + 1
    \<and> length (filter (\<lambda>s. st_type s = ''request_classified'') (rm_steps (result_meta r))) \<ge> 1
    \<and> length (filter (\<lambda>s. st_type s \<noteq> ''model_response'') (rm_steps (result_meta r))) \<le> 3"
proof -
  obtain pr usage step lp where r: "r = finish env pr usage step lp" and ok: "lp_ok lp"
    and limit: "tn_limit (rs_turns (lp_state lp)) = max_agent_turns (rn_config env)"
    and corr: "length (lp_corrections lp) \<le> 2" and u: "us_turns usage \<in> {0, 1}"
    and step: "st_type step = ''request_classified''"
    using run_finished [OF assms] unfolding finished_def by blast
  have "0 \<le> tn_used (rs_turns (lp_state lp))"
    "tn_used (rs_turns (lp_state lp)) \<le> max_agent_turns (rn_config env)"
    using ok limit by (simp_all add: lp_ok_def loop_ok_def)
  moreover have "filter (\<lambda>s. st_type s \<noteq> ''model_response'') (rm_steps (result_meta (lp_result lp))) = []"
    using ok by (auto simp: lp_ok_def well_typed_def list_all_iff filter_empty_conv)
  moreover have "length (filter (\<lambda>s. st_type s \<noteq> ''model_response'') (lp_corrections lp)) \<le> 2"
    using corr length_filter_le le_trans by blast
  ultimately show ?thesis using u step by (auto simp: r finish_meta)
qed

lemma answer_audit:
  assumes "config_valid (rn_config env)" "run_agent_model env ri = Inr r"
  shows "map ta_sequence (rm_tool_calls (result_meta r)) = [1..<Suc (length (rm_tool_calls (result_meta r)))]
    \<and> us_tool_calls (rm_usage (result_meta r)) = int (length (rm_tool_calls (result_meta r)))
    \<and> (\<forall>p m. r = Payment_result p m \<longrightarrow> build_identification p = Inr p
         \<and> (pi_outcome p = Out_matched \<longrightarrow>
              (\<exists>c \<in> set (rm_tool_calls m). ta_status c = ''succeeded'')))"
proof -
  obtain pr usage step lp where r: "r = finish env pr usage step lp" and ok: "lp_ok lp"
    using run_finished [OF assms] unfolding finished_def by blast
  have "calls_ok (lp_state lp)" using ok by (simp add: lp_ok_def loop_ok_def run_state_ok_def)
  then have seq: "map ta_sequence (rm_tool_calls (result_meta r))
      = [1..<Suc (length (rm_tool_calls (result_meta r)))]"
    by (simp add: r finish_meta calls_ok_def)
  have "build_identification p = Inr p
      \<and> (pi_outcome p = Out_matched \<longrightarrow> (\<exists>c \<in> set (rm_tool_calls m). ta_status c = ''succeeded''))"
    if pm: "r = Payment_result p m" for p m
  proof -
    obtain m0 where l: "lp_result lp = Payment_result p m0"
      using pm unfolding r by (cases "lp_result lp") (simp_all add: finish_def Let_def)
    have "rm_tool_calls m = rs_calls (lp_state lp)" using finish_meta(1) pm r by (metis result_meta.simps(1))
    then show ?thesis using ok l by (simp add: lp_ok_def well_typed_def is_match_def some_success_def)
  qed
  then show ?thesis using seq by (simp add: r finish_meta)
qed

text \<open>An answer carries its complete audit. The tool calls of an answered run are numbered one to n
  without gaps and their number is the reported one; an identification passes its own validator;
  and a result that names a customer comes from a run in which some tool call succeeded.\<close>

theorem runner_answers_are_audited:
  assumes "config_valid (rn_config env)" "run_agent_model env ri = Inr r"
  shows "map ta_sequence (rm_tool_calls (result_meta r)) = [1..<Suc (length (rm_tool_calls (result_meta r)))]
    \<and> us_tool_calls (rm_usage (result_meta r)) = int (length (rm_tool_calls (result_meta r)))
    \<and> (\<forall>p m. r = Payment_result p m \<longrightarrow> build_identification p = Inr p
         \<and> (pi_outcome p = Out_matched \<longrightarrow>
              (\<exists>c \<in> set (rm_tool_calls m). ta_status c = ''succeeded'')))"
  using answer_audit [OF assms] .

section \<open>Failures\<close>

text \<open>A script within the documented behaviour the runner is prepared for: it ends in a final output
  that respects the bounds of its type, or in one of the SDK's own exceptions.\<close>

definition handled_ending :: "ending \<Rightarrow> bool" where
  "handled_ending fin \<longleftrightarrow>
     (case fin of
        Raised e \<Rightarrow> e \<in> set handled_exceptions
      | Final fi fo out \<Rightarrow>
          (case out of Sdk_identification o' \<Rightarrow> model_identification_ok o' | _ \<Rightarrow> True))"

definition handled_provider :: "runner_env \<Rightarrow> bool" where
  "handled_provider env \<longleftrightarrow>
     (\<forall>items. handled_ending (snd (rn_router env items)))
     \<and> (\<forall>kind n instr items. handled_ending (snd (rn_specialist env kind n instr items)))"

lemma script_error_handled: "handled_ending fin \<Longrightarrow> script_error fin e \<Longrightarrow> e \<in> set handled_exceptions"
  by (auto simp: script_error_def handled_ending_def handled_exceptions_def)

lemma fallbacks_cover:
  "e \<in> set handled_exceptions \<Longrightarrow> payment_fallback e \<noteq> None \<and> general_fallback_for e \<noteq> None"
  by (auto simp: handled_exceptions_def payment_fallback_def general_fallback_for_def)

lemma run_general_total:
  assumes ok: "loop_ok st" and h: "handled_provider env"
  shows "\<exists>st' r. run_specialist env items pr n Req_general st = (st', Inr r)"
proof -
  obtain st1 out where r: "runner_run env Req_general
      (rn_specialist env Req_general n (pr_general_instructions pr) items) st = (st1, out)" by fastforce
  show ?thesis
  proof (cases out)
    case (Inl e)
    then have "e \<in> set handled_exceptions"
      using runner_run_ok [OF ok r] h script_error_handled unfolding handled_provider_def by blast
    then show ?thesis
      using fallbacks_cover [of e] r Inl
      by (cases "general_fallback_for e") (auto simp: run_specialist_def run_general_def)
  next
    case (Inr res)
    then show ?thesis
      using r by (cases "sk_output res") (auto simp: run_specialist_def run_general_def Let_def)
  qed
qed

lemma run_payment_total:
  assumes ok: "loop_ok st" and h: "handled_provider env"
  shows "\<exists>st' r. run_specialist env items pr n Req_payment_identification st = (st', Inr r)"
proof -
  let ?script = "rn_specialist env Req_payment_identification n (pr_payment_instructions pr) items"
  obtain st1 out where r: "runner_run env Req_payment_identification ?script st = (st1, out)" by fastforce
  note a = runner_run_ok [OF ok r]
  have end_ok: "handled_ending (snd ?script)" using h by (simp add: handled_provider_def)
  show ?thesis
  proof (cases out)
    case (Inl e)
    then have "e \<in> set handled_exceptions" using a end_ok script_error_handled by blast
    then show ?thesis
      using fallbacks_cover [of e] r Inl
      by (cases "payment_fallback e") (auto simp: run_specialist_def run_payment_def)
  next
    case (Inr res)
    show ?thesis
    proof (cases "sk_output res")
      case (Sdk_identification o')
      obtain fi fo where "snd ?script = Final fi fo (Sdk_identification o')"
        using a Inr Sdk_identification by fastforce
      then have "model_identification_ok o'" using end_ok by (simp add: handled_ending_def)
      then obtain p where "map_output (rn_config env) o'
          (st1\<lparr>rs_requested_route := mo_route_correction o'\<rparr>) = Inr p"
        using map_output_total by blast
      then show ?thesis
        using r Inr Sdk_identification by (simp add: run_specialist_def run_payment_def Let_def)
    qed (use r Inr in \<open>auto simp: run_specialist_def run_payment_def\<close>)
  qed
qed

lemma run_specialist_total:
  "loop_ok st \<Longrightarrow> handled_provider env \<Longrightarrow> \<exists>st' r. run_specialist env items pr n kind st = (st', Inr r)"
  by (cases kind) (simp_all add: run_general_total run_payment_total)

lemma attempts_total:
  "lp_ok lp \<Longrightarrow> handled_provider env \<Longrightarrow> \<exists>lp'. attempts env items pr ns lp = (lp', None)"
proof (induction ns arbitrary: lp)
  case (Cons n ns)
  have "loop_ok ((lp_state lp)\<lparr>rs_requested_route := None\<rparr>)" using Cons.prems(1) by (simp add: lp_ok_def)
  from run_specialist_total [OF this Cons.prems(2)] obtain st1 res where
    r: "run_specialist env items pr n (lp_kind lp) ((lp_state lp)\<lparr>rs_requested_route := None\<rparr>) = (st1, Inr res)"
    by blast
  note one = attempt_step [OF Cons.prems(1) r]
  show ?case
    unfolding one(3) Let_def using Cons.IH [OF one(1) Cons.prems(2)] by (simp split: option.split)
qed simp

lemma run_ends:
  assumes "config_valid (rn_config env)"
  shows "(\<exists>r. run_agent_model env ri = Inr r)
    \<or> (\<exists>e. run_agent_model env ri = Inl (Other_exception e)
         \<and> (rn_payment_prompt env = Inl e \<or> rn_general_prompt env = Inl e
            \<or> build_input_items (rn_read_bytes env) ri = Inl e))
    \<or> (\<exists>f. run_agent_model env ri = Inl (Run_failure f) \<and> \<not> handled_provider env
         \<and> map ta_sequence (fl_tool_calls f) = [1..<Suc (length (fl_tool_calls f))]
         \<and> fl_prompt_version f \<noteq> None \<and> fl_knowledge_version f \<noteq> None)"
proof -
  have m: "0 \<le> max_agent_turns (rn_config env)" using assms by (simp add: config_valid_def within_def)
  have total: "\<exists>r. investigate env pr items = Inr r" if h: "handled_provider env" for pr items
  proof -
    have end_ok: "handled_ending (snd (rn_router env items))" using h by (simp add: handled_provider_def)
    have "\<exists>x. route env items = Inr x"
    proof (cases "route_play (rn_router env items)")
      case (Inl e)
      then have "e \<in> set handled_exceptions"
        using end_ok by (auto simp: route_play_def handled_ending_def handled_exceptions_def
            split: if_split_asm ending.splits)
      then show ?thesis using Inl by (simp add: route_def Let_def)
    next
      case (Inr res)
      then show ?thesis by (cases "sk_output res") (simp_all add: route_def Let_def)
    qed
    then obtain r usage step where route: "route env items = Inr (r, usage, step)" by (metis prod_cases3)
    have "\<exists>lp. attempts env items pr' [0, 1] (start_loop env (mr_request_kind r)) = (lp, None)" for pr'
      by (rule attempts_total [OF _ h]) (use start_loop_ok [OF m] in blast)
    then obtain lp where "attempts env items
        (prefix_memory (if rn_shared_memory_enabled env then rn_memory_block env else None) pr) [0, 1]
        (start_loop env (mr_request_kind r)) = (lp, None)" by blast
    then show ?thesis
      by (cases "mr_clarify r") (simp_all add: investigate_def route Let_def)
  qed
  from run_investigates [of env ri] consider
      (no_start) e where "run_agent_model env ri = Inl (Other_exception e)"
        "rn_payment_prompt env = Inl e \<or> rn_general_prompt env = Inl e
         \<or> build_input_items (rn_read_bytes env) ri = Inl e"
    | (started) pr items where "run_agent_model env ri = investigate env pr items"
    by blast
  then show ?thesis
  proof cases
    case no_start
    then show ?thesis by blast
  next
    case started
    show ?thesis
    proof (cases "investigate env pr items")
      case (Inr r)
      with started show ?thesis by simp
    next
      case (Inl x)
      then obtain pr' kind st where f: "x = failure pr' kind st" "loop_ok st"
        using investigate_failed [OF m] by blast
      then have "calls_ok st" by (simp add: loop_ok_def run_state_ok_def)
      moreover have "\<not> handled_provider env"
        using total [of pr items] Inl by (metis sum.distinct(1))
      ultimately show ?thesis using started Inl f by (simp add: failure_def calls_ok_def)
    qed
  qed
qed


text \<open>A run on the synthetic backend: the router is certain of a general request, and the specialist
  answers after one failing search.\<close>

definition example_runner :: runner_env where
  "example_runner = \<lparr>rn_config = default_config, rn_port = empty_data,
     rn_shared_memory_enabled = False, rn_memory_client = False,
     rn_recall = (\<lambda>_. Inl ''RuntimeError''), rn_remember = (\<lambda>_. Inl ''RuntimeError''),
     rn_memory_block = None,
     rn_payment_prompt = Inr (''P'', ''p-v1'', ''k-v1''), rn_general_prompt = Inr (''G'', ''g-v1'', ''k-v1''),
     rn_read_bytes = (\<lambda>_. Inr ''Man''),
     rn_router = (\<lambda>_. ([], Final 10 2 (Sdk_route \<lparr>mr_request_kind = Req_general, mr_certainty = Certain,
        mr_potentially_adversarial = False, mr_clarify = False, mr_clarification_question = None\<rparr>))),
     rn_specialist = (\<lambda>_ _ _ _.
        ([\<lparr>re_input_tokens = 5, re_output_tokens = 5,
           re_tool_uses = [\<lparr>tu_name = ''run_readonly_sql'',
             tu_request = Sql_query \<lparr>rq_query = ''SELECT 1'', rq_offset = 0, rq_source_records = []\<rparr>, tu_ms = 3\<rparr>]\<rparr>],
         Final 7 9 (Sdk_general (answer_only ''Hola.''))))\<rparr>"

definition plain_input :: agent_run_input where
  "plain_input = example_input\<lparr>ri_image_paths := []\<rparr>"

lemma example_answers:
  fixes ri payment general
  defines "env \<equiv> example_runner\<lparr>rn_payment_prompt := Inr payment, rn_general_prompt := Inr general,
    rn_memory_block := None\<rparr>"
  assumes "build_input_items (rn_read_bytes env) ri = Inr items"
  shows "\<exists>m. run_agent_model env ri = Inr (General_result (answer_only ''Hola.'') m)
    \<and> length (rm_tool_calls m) = 1 \<and> us_turns (rm_usage m) = 3"
  using assms(2) unfolding env_def
  by (cases payment; cases general)
    (simp add: run_agent_model_def investigate_def route_def route_play_def example_runner_def
      Let_def prefix_memory_def start_loop_def run_specialist_def run_general_def runner_run_def
      take_turn_def prepare_def new_run_state_def new_turns_def default_config_def add_tokens_def
      count_tokens_def generic_tools_def memory_tools_def tool_function_def invoke_def empty_data_def
      unavailable_def observation_def register_observation_def note_availability_def
      finish_def combined_usage_def usage_of_def set_used_def completed_meta_def answer_only_def
      default_meta_def model_usage_def no_usage_def)

lemma example_runner_same:
  "example_runner\<lparr>rn_payment_prompt := Inr (''P'', ''p-v1'', ''k-v1''),
     rn_general_prompt := Inr (''G'', ''g-v1'', ''k-v1''), rn_memory_block := None\<rparr> = example_runner"
  by (simp add: example_runner_def)

lemmas example_runner_answers = example_answers
  [where payment = "(''P'', ''p-v1'', ''k-v1'')" and general = "(''G'', ''g-v1'', ''k-v1'')", unfolded example_runner_same]

lemma example_run:
  "\<exists>m. run_agent_model example_runner plain_input = Inr (General_result (answer_only ''Hola.'') m)
     \<and> length (rm_tool_calls m) = 1 \<and> us_turns (rm_usage m) = 3"
proof -
  have "\<exists>items. build_input_items (rn_read_bytes example_runner) plain_input = Inr items"
    by (simp add: build_input_items_def recent_transcript_def transcript_limit_def plain_input_def
        example_input_def input_item_of_def)
  then show ?thesis using example_runner_answers by blast
qed

lemma example_runner_valid: "config_valid (rn_config example_runner)"
  using default_config_valid by (simp add: example_runner_def)

lemma runner_work_is_bounded_witness:
  "\<exists>r. run_agent_model example_runner plain_input = Inr r \<and> us_turns (rm_usage (result_meta r)) \<le> 15"
proof -
  obtain m where r: "run_agent_model example_runner plain_input = Inr (General_result (answer_only ''Hola.'') m)"
    using example_run by blast
  from runner_work_is_bounded [OF example_runner_valid r] r show ?thesis
    by (intro exI [of _ "General_result (answer_only ''Hola.'') m"])
      (simp add: example_runner_def default_config_def)
qed

lemma runner_answers_are_audited_witness:
  "\<exists>a m. run_agent_model example_runner plain_input = Inr (General_result a m)
     \<and> map ta_sequence (rm_tool_calls m) = [1]"
proof -
  obtain m where r: "run_agent_model example_runner plain_input = Inr (General_result (answer_only ''Hola.'') m)"
    and one: "length (rm_tool_calls m) = 1"
    using example_run by blast
  from runner_answers_are_audited [OF example_runner_valid r] r one show ?thesis by simp
qed


section \<open>Which runner a process gets\<close>

text \<open>The test double never answers in production. A configuration yields the fake runner only in a
  local or test environment and without any Azure credential; the Azure runner only with complete
  credentials and both deployments, and with the read replica exactly when one is configured; a half
  configured endpoint yields no runner at all.\<close>

theorem fake_runner_only_local:
  "(build_agent_runner cfg k = Inr Fake_runner \<longleftrightarrow>
      environment cfg \<in> {''local'', ''test''} \<and> azure_openai_endpoint cfg = '''' \<and> azure_openai_api_key cfg = '''')
   \<and> (build_agent_runner cfg k = Inr (Azure_runner b) \<longleftrightarrow>
        azure_agent_ready cfg \<and> b = replica_ready cfg \<and> (replica_ready cfg \<longrightarrow> k = None))
   \<and> (azure_agent_partially_configured cfg \<longrightarrow> build_agent_runner cfg k = Inl ''ValueError'')"
proof -
  have part: "azure_agent_partially_configured cfg \<longleftrightarrow>
      (azure_openai_endpoint cfg = '''') \<noteq> (azure_openai_api_key cfg = '''')"
    by (auto simp: azure_agent_partially_configured_def)
  show ?thesis
    unfolding build_agent_runner_def part azure_agent_ready_def
    by (cases k) (auto split: if_split_asm)
qed

lemma fake_runner_only_local_witness:
  "build_agent_runner (default_config\<lparr>environment := ''production''\<rparr>) None \<noteq> Inr Fake_runner \<and>
   build_agent_runner (default_config\<lparr>azure_openai_endpoint := ''https://x''\<rparr>) None = Inl ''ValueError''"
proof -
  have "azure_agent_partially_configured (default_config\<lparr>azure_openai_endpoint := ''https://x''\<rparr>)"
    by (simp add: azure_agent_partially_configured_def default_config_def)
  then show ?thesis
    using fake_runner_only_local [of "default_config\<lparr>environment := ''production''\<rparr>" None True]
      fake_runner_only_local [of "default_config\<lparr>azure_openai_endpoint := ''https://x''\<rparr>" None True]
    by simp
qed

end
