(* ===== verification/Values.thy ===== *)
theory Values
  imports Identification
begin

text \<open>
  The values that come back from the read replica and Python's reading and printing of them: the
  values asyncpg delivers, the JSON-safe cells \<open>replica/database.py\<close> turns them into, \<open>str\<close> of a
  cell, \<open>Decimal(text)\<close> and the format \<open>f\<close>, \<open>int(text)\<close>, \<open>UUID(text)\<close>, the sum type's sequencing,
  and \<open>json.dumps(..., ensure_ascii=False)\<close>, whose UTF-8 length is what the byte limits count.
\<close>

section \<open>Sequencing of computations that may raise\<close>

fun bindE :: "exn_name + 'a \<Rightarrow> ('a \<Rightarrow> exn_name + 'b) \<Rightarrow> exn_name + 'b" where
  "bindE (Inl e) f = Inl e"
| "bindE (Inr x) f = f x"

fun mapE :: "('a \<Rightarrow> exn_name + 'b) \<Rightarrow> 'a list \<Rightarrow> exn_name + 'b list" where
  \<comment> \<open>a comprehension: left to right, the first exception ends it\<close>
  "mapE f [] = Inr []"
| "mapE f (x # xs) = bindE (f x) (\<lambda>y. bindE (mapE f xs) (\<lambda>ys. Inr (y # ys)))"

lemma bindE_Inr [simp]: "bindE m f = Inr z \<longleftrightarrow> (\<exists>x. m = Inr x \<and> f x = Inr z)"
  by (cases m) auto

lemma mapE_Inr: "mapE f xs = Inr ys \<longleftrightarrow> list_all2 (\<lambda>x y. f x = Inr y) xs ys"
proof (induction xs arbitrary: ys)
  case (Cons x xs)
  then show ?case by (cases ys) auto
qed auto

lemma mapE_set: "mapE f xs = Inr ys \<Longrightarrow> y \<in> set ys \<Longrightarrow> \<exists>x \<in> set xs. f x = Inr y"
proof (induction xs arbitrary: ys)
  case (Cons x xs)
  then obtain w ws where w: "f x = Inr w" "mapE f xs = Inr ws" "ys = w # ws" by auto
  show ?case
  proof (cases "y = w")
    case True
    with w show ?thesis by auto
  next
    case False
    with w Cons.prems have "y \<in> set ws" by simp
    then show ?thesis using Cons.IH [OF w(2)] by auto
  qed
qed simp

lemma mapE_length: "mapE f xs = Inr ys \<Longrightarrow> length ys = length xs"
  unfolding mapE_Inr by (simp add: list_all2_lengthD)

lemma mapE_total: "(\<And>x. x \<in> set xs \<Longrightarrow> f x = Inr (g x)) \<Longrightarrow> mapE f xs = Inr (map g xs)"
  by (induction xs) auto

section \<open>Values of the replica\<close>

datatype db_value =
  Db_null | Db_bool bool | Db_int int | Db_float string | Db_str string
| Db_exact string   \<comment> \<open>\<open>Decimal\<close>, \<open>UUID\<close>, \<open>date\<close> and \<open>datetime\<close>, by their \<open>str\<close>\<close>
| Db_bytes nat      \<comment> \<open>\<open>bytes\<close>, by their length\<close>
| Db_other string   \<comment> \<open>anything else (lists, ranges, \<dots>), by its \<open>str\<close>\<close>

datatype cell = Null | Flag bool | Whole int | Floating string | Chars string

definition safe_json_value :: "db_value \<Rightarrow> cell" where
  \<comment> \<open>\<open>_safe_json_value\<close>\<close>
  "safe_json_value v =
     (case v of
        Db_null \<Rightarrow> Null
      | Db_bool b \<Rightarrow> Flag b
      | Db_int i \<Rightarrow> Whole i
      | Db_float f \<Rightarrow> Floating f
      | Db_str s \<Rightarrow> Chars (take 2000 s)
      | Db_exact s \<Rightarrow> Chars s
      | Db_bytes n \<Rightarrow> Chars (''[binary value omitted: '' @ show_nat n @ '' bytes]'')
      | Db_other s \<Rightarrow> Chars (take 2000 s))"

type_synonym db_row = "(string \<times> cell) list"

fun cell_str :: "cell \<Rightarrow> string" where
  \<comment> \<open>\<open>str(value)\<close>\<close>
  "cell_str Null = ''None''"
| "cell_str (Flag b) = (if b then ''True'' else ''False'')"
| "cell_str (Whole i) = show_int i"
| "cell_str (Floating s) = s"
| "cell_str (Chars s) = s"

fun cell_truthy :: "cell \<Rightarrow> bool" where
  "cell_truthy Null = False"
| "cell_truthy (Flag b) = b"
| "cell_truthy (Whole i) = (i \<noteq> 0)"
| "cell_truthy (Floating s) = (s \<notin> {''0.0'', ''-0.0''})"
| "cell_truthy (Chars s) = (s \<noteq> [])"

fun cell_json :: "cell \<Rightarrow> json" where
  "cell_json Null = JNull"
| "cell_json (Flag b) = JBool b"
| "cell_json (Whole i) = JInt i"
| "cell_json (Floating s) = JFloat s"
| "cell_json (Chars s) = JStr s"

definition row_json :: "db_row \<Rightarrow> (string \<times> json) list" where
  "row_json row = map (\<lambda>kv. (fst kv, cell_json (snd kv))) row"

definition cell_at :: "db_row \<Rightarrow> string \<Rightarrow> cell" where
  \<comment> \<open>\<open>row.get(name)\<close>\<close>
  "cell_at row name = (case map_of row name of None \<Rightarrow> Null | Some v \<Rightarrow> v)"

definition text_at :: "db_row \<Rightarrow> string \<Rightarrow> string" where
  \<comment> \<open>\<open>str(row.get(name) or "")\<close>\<close>
  "text_at row name = (if cell_truthy (cell_at row name) then cell_str (cell_at row name) else '''')"

definition item_at :: "db_row \<Rightarrow> string \<Rightarrow> exn_name + string" where
  \<comment> \<open>\<open>str(row[name])\<close>\<close>
  "item_at row name = (case map_of row name of None \<Rightarrow> Inl ''KeyError'' | Some v \<Rightarrow> Inr (cell_str v))"

section \<open>Sorted texts\<close>

definition sorted_texts :: "string list \<Rightarrow> string list" where
  \<comment> \<open>\<open>sorted\<close>, by code points\<close>
  "sorted_texts = sort_key (map code_point)"

lemma length_sorted_texts [simp]: "length (sorted_texts xs) = length xs"
  by (simp add: sorted_texts_def)

lemma set_sorted_texts [simp]: "set (sorted_texts xs) = set xs"
  by (simp add: sorted_texts_def)

section \<open>Reading numbers and identifiers\<close>

definition ascii_digit :: "char \<Rightarrow> bool" where
  "ascii_digit c \<longleftrightarrow> 48 \<le> code c \<and> code c \<le> 57"

definition split_sign :: "string \<Rightarrow> bool \<times> string" where
  \<comment> \<open>is it negative, and the rest\<close>
  "split_sign s = (case s of [] \<Rightarrow> (False, []) | c # cs \<Rightarrow>
     (if c = CHR ''-'' then (True, cs) else if c = CHR ''+'' then (False, cs) else (False, s)))"

definition read_exponent :: "string \<Rightarrow> int option" where
  "read_exponent s = (case s of [] \<Rightarrow> Some 0 | c # cs \<Rightarrow>
     (if c = CHR ''e'' \<or> c = CHR ''E''
      then (case split_sign cs of (neg, ds) \<Rightarrow>
              if ds \<noteq> [] \<and> list_all ascii_digit ds
              then Some (if neg then - int (read_nat ds) else int (read_nat ds)) else None)
      else None))"

definition read_decimal :: "string \<Rightarrow> exn_name + decimal" where
  \<comment> \<open>\<open>Decimal(text)\<close> for finite numbers written in ASCII digits\<close>
  "read_decimal text =
     (case split_sign (filter (\<lambda>c. c \<noteq> CHR ''_'') (str_strip text)) of (neg, s) \<Rightarrow>
        let whole = takeWhile ascii_digit s; r = dropWhile ascii_digit s;
            (frac, r') = (case r of c # cs \<Rightarrow>
               (if c = CHR ''.'' then (takeWhile ascii_digit cs, dropWhile ascii_digit cs) else ([], r))
               | [] \<Rightarrow> ([], []))
        in if whole @ frac = [] then Inl ''InvalidOperation''
           else case read_exponent r' of
                  None \<Rightarrow> Inl ''InvalidOperation''
                | Some e \<Rightarrow>
                    (let n = int (read_nat (whole @ frac))
                     in Inr (Decimal (if neg then - n else n) (e - int (length frac)))))"

definition format_f :: "decimal \<Rightarrow> string" where
  \<comment> \<open>\<open>format(number, "f")\<close>\<close>
  "format_f d =
     (let digits = show_nat (nat \<bar>dec_coeff d\<bar>); k = nat (- dec_exp d);
          sign = (if dec_coeff d < 0 then ''-'' else '''')
      in sign @
         (if 0 \<le> dec_exp d
          then (if dec_coeff d = 0 then ''0'' else digits @ replicate (nat (dec_exp d)) (CHR ''0''))
          else if k < length digits
          then take (length digits - k) digits @ ''.'' @ drop (length digits - k) digits
          else ''0.'' @ replicate (k - length digits) (CHR ''0'') @ digits))"

definition read_int :: "string \<Rightarrow> exn_name + int" where
  \<comment> \<open>\<open>int(text)\<close>: single underscores may stand between digits\<close>
  "read_int text =
     (case split_sign (str_strip text) of (neg, s) \<Rightarrow>
        if list_all (\<lambda>part. part \<noteq> [] \<and> list_all ascii_digit part) (split_on (CHR ''_'') s)
        then (let n = int (read_nat (filter (\<lambda>c. c \<noteq> CHR ''_'') s)) in Inr (if neg then - n else n))
        else Inl ''ValueError'')"

definition is_hex :: "char \<Rightarrow> bool" where
  "is_hex c \<longleftrightarrow> ascii_digit c \<or> (97 \<le> code c \<and> code c \<le> 102) \<or> (65 \<le> code c \<and> code c \<le> 70)"

definition read_uuid :: "string \<Rightarrow> exn_name + uuid" where
  \<comment> \<open>\<open>UUID(text)\<close> without the \<open>urn:\<close> and brace forms, as its canonical text\<close>
  "read_uuid text =
     (let h = str_lower (filter (\<lambda>c. c \<noteq> CHR ''-'') text)
      in if length h = 32 \<and> list_all is_hex h
         then Inr (take 8 h @ ''-'' @ take 4 (drop 8 h) @ ''-'' @ take 4 (drop 12 h) @ ''-''
                   @ take 4 (drop 16 h) @ ''-'' @ drop 20 h)
         else Inl ''ValueError'')"

lemma ascii_digit_plain:
  "ascii_digit c \<Longrightarrow> c \<noteq> CHR ''_'' \<and> c \<noteq> CHR ''-'' \<and> c \<noteq> CHR ''+'' \<and> c \<noteq> CHR ''.'' \<and> \<not> is_space c"
  by (auto simp: ascii_digit_def is_space_def code_def)

lemma str_strip_solid:
  assumes "\<And>c. c \<in> set s \<Longrightarrow> \<not> is_space c"
  shows "str_strip s = s"
proof -
  have dw: "dropWhile is_space xs = xs" if "set xs \<subseteq> set s" for xs
    using that assms by (cases xs) auto
  show ?thesis
    using dw [of s] dw [of "rev s"] by (simp add: str_strip_def str_lstrip_def str_rstrip_def)
qed

lemma take_drop_digits:
  assumes "list_all ascii_digit w" "\<not> ascii_digit c"
  shows "takeWhile ascii_digit (w @ c # r) = w" "dropWhile ascii_digit (w @ c # r) = c # r"
    "takeWhile ascii_digit w = w" "dropWhile ascii_digit w = []"
  using assms by (induction w) auto

lemma read_decimal_fixed:
  assumes "w \<noteq> []" "list_all ascii_digit w" "list_all ascii_digit f"
  shows "read_decimal ((if neg then ''-'' else []) @ w @ (if f = [] then [] else CHR ''.'' # f)) =
    Inr (Decimal ((if neg then - 1 else 1) * int (read_nat (w @ f))) (- int (length f)))"
proof -
  define body where "body = w @ (if f = [] then [] else CHR ''.'' # f)"
  define s where "s = (if neg then ''-'' else []) @ body"
  have body: "\<And>c. c \<in> set body \<Longrightarrow> ascii_digit c \<or> c = CHR ''.''"
    using assms by (auto simp: body_def list_all_iff split: if_splits)
  have solid: "\<And>c. c \<in> set s \<Longrightarrow> c \<noteq> CHR ''_'' \<and> \<not> is_space c"
  proof -
    fix c assume "c \<in> set s"
    then consider "ascii_digit c" | "c = CHR ''.''" | "c = CHR ''-''"
      using body by (auto simp: s_def split: if_splits)
    then show "c \<noteq> CHR ''_'' \<and> \<not> is_space c"
      using ascii_digit_plain by cases (auto simp: is_space_def code_def)
  qed
  have strip: "filter (\<lambda>c. c \<noteq> CHR ''_'') (str_strip s) = s"
    using solid str_strip_solid [of s] by (simp add: filter_id_conv)
  obtain c cs where c: "w = c # cs" using assms(1) by (cases w) auto
  then have hd: "c \<noteq> CHR ''-''" "c \<noteq> CHR ''+''" using ascii_digit_plain [of c] assms(2) by auto
  have sg: "split_sign s = (neg, body)"
    using hd by (cases neg) (simp_all add: s_def body_def split_sign_def c)
  have dot: "\<not> ascii_digit (CHR ''.'')" by (simp add: ascii_digit_def code_def)
  have "read_decimal s = Inr (Decimal ((if neg then - 1 else 1) * int (read_nat (w @ f))) (- int (length f)))"
  proof (cases "f = []")
    case True
    then show ?thesis
      using assms(1)
      by (simp add: read_decimal_def strip sg body_def read_exponent_def Let_def
          take_drop_digits(3,4) [OF assms(2) dot])
  next
    case False
    then show ?thesis
      using assms(1)
      by (simp add: read_decimal_def strip sg body_def read_exponent_def Let_def
          take_drop_digits(1,2) [OF assms(2) dot] take_drop_digits(3,4) [OF assms(3) dot])
  qed
  then show ?thesis by (simp add: s_def body_def)
qed

lemma show_nat_digits: "show_nat n \<noteq> [] \<and> list_all ascii_digit (show_nat n)"
proof (induction n rule: show_nat.induct)
  case (1 n)
  have d: "ascii_digit (digit_char k)" if "k < 10" for k
    using that by (simp add: ascii_digit_def digit_char_def code_def)
  show ?case
  proof (cases "n < 10")
    case True
    then show ?thesis by (simp add: show_nat.simps [of n] d)
  next
    case False
    with 1 show ?thesis by (simp add: show_nat.simps [of n] d)
  qed
qed

lemma read_nat_zeros: "read_nat (replicate k (CHR ''0'') @ s) = read_nat s"
proof -
  have "foldl (\<lambda>acc c. 10 * acc + digit_val c) 0 (replicate k (CHR ''0'')) = 0"
    by (induction k) (auto simp: digit_val_def code_def)
  then show ?thesis by (simp add: read_nat_def)
qed

lemma read_nat_append_zeros: "read_nat (s @ replicate k (CHR ''0'')) = read_nat s * 10 ^ k"
proof -
  have "foldl (\<lambda>acc c. 10 * acc + digit_val c) n (replicate k (CHR ''0'')) = n * 10 ^ k" for n
    by (induction k arbitrary: n) (auto simp: digit_val_def code_def)
  then show ?thesis by (simp add: read_nat_def)
qed

text \<open>What is printed reads back as the same number: the balance shown in a summary or in a piece of
  evidence is the exact balance, whatever its scale.\<close>

lemma read_format_f:
  "\<exists>e. read_decimal (format_f d) = Inr e \<and> dec_eq e d"
proof -
  define n where "n = nat \<bar>dec_coeff d\<bar>"
  define ds where "ds = show_nat n"
  define k where "k = nat (- dec_exp d)"
  define neg where "neg = (dec_coeff d < 0)"
  have ds: "ds \<noteq> []" "list_all ascii_digit ds" "read_nat ds = n"
    using show_nat_digits by (simp_all add: ds_def read_show_nat)
  have c: "(if neg then - 1 else 1) * int n = dec_coeff d" by (simp add: neg_def n_def)
  have z: "list_all ascii_digit (replicate j (CHR ''0''))" for j
    by (simp add: list_all_iff ascii_digit_def code_def)
  consider "0 \<le> dec_exp d" "dec_coeff d = 0" | "0 \<le> dec_exp d" "dec_coeff d \<noteq> 0"
    | "dec_exp d < 0" "k < length ds" | "dec_exp d < 0" "length ds \<le> k"
    by linarith
  then show ?thesis
  proof cases
    case 1
    have "read_decimal ''0'' = Inr (Decimal 0 0)"
      using read_decimal_fixed [of "''0''" "[]" False] z [of 1] by (simp add: read_nat_def digit_val_def code_def)
    then show ?thesis using 1 by (simp add: format_f_def dec_eq_def dec_scaled_def)
  next
    case 2
    define e where "e = nat (dec_exp d)"
    have "read_decimal (format_f d) = Inr (Decimal (dec_coeff d * 10 ^ e) 0)"
      using read_decimal_fixed [of "ds @ replicate e (CHR ''0'')" "[]" neg] ds z [of e] 2 c
      by (simp add: format_f_def Let_def read_nat_append_zeros flip: n_def ds_def neg_def e_def)
    then show ?thesis using 2 by (simp add: dec_eq_def dec_scaled_def e_def)
  next
    case 3
    have "0 < k" using 3 by (simp add: k_def)
    then have k: "(length ds \<le> length ds - k) = False" using 3 by arith
    have "list_all ascii_digit (take (length ds - k) ds)" "list_all ascii_digit (drop (length ds - k) ds)"
      using ds(2) by (auto simp: list_all_iff dest: in_set_takeD in_set_dropD)
    then have "read_decimal (format_f d) = Inr (Decimal (dec_coeff d) (- int k))"
      using read_decimal_fixed [of "take (length ds - k) ds" "drop (length ds - k) ds" neg] ds 3 c
      by (simp add: k format_f_def Let_def flip: n_def ds_def neg_def k_def)
    then show ?thesis using 3 by (cases d) (simp add: k_def)
  next
    case 4
    have "read_nat (CHR ''0'' # replicate (k - length ds) (CHR ''0'') @ ds) = n"
      using read_nat_zeros [of "Suc (k - length ds)" ds] ds(3) by simp
    then have "read_decimal (format_f d) = Inr (Decimal (dec_coeff d) (- int k))"
      using read_decimal_fixed [of "''0''" "replicate (k - length ds) (CHR ''0'') @ ds" neg] ds z [of 1]
        z [of "k - length ds"] 4 c
      by (simp add: format_f_def Let_def flip: n_def ds_def neg_def k_def)
    then show ?thesis using 4 by (cases d) (simp add: k_def)
  qed
qed

lemma split_on_absent: "d \<notin> set s \<Longrightarrow> split_on d s = [s]"
  by (induction s) auto

lemma read_int_show_int: "read_int (show_int i) = Inr i"
proof -
  define ds where "ds = show_nat (nat \<bar>i\<bar>)"
  have ds: "ds \<noteq> []" "list_all ascii_digit ds" "read_nat ds = nat \<bar>i\<bar>"
    using show_nat_digits by (simp_all add: ds_def read_show_nat)
  have solid: "\<And>c. c \<in> set ds \<Longrightarrow> c \<noteq> CHR ''_'' \<and> \<not> is_space c \<and> c \<noteq> CHR ''-'' \<and> c \<noteq> CHR ''+''"
    using ds(2) ascii_digit_plain by (auto simp: list_all_iff)
  then have "CHR ''_'' \<notin> set ds" by blast
  then have "split_on (CHR ''_'') ds = [ds]" "filter (\<lambda>c. c \<noteq> CHR ''_'') ds = ds"
    by (auto simp: split_on_absent filter_id_conv)
  moreover have "str_strip ds = ds" "str_strip (CHR ''-'' # ds) = CHR ''-'' # ds"
    using solid by (auto intro!: str_strip_solid simp: is_space_def code_def)
  moreover have "split_sign ds = (False, ds)" "split_sign (CHR ''-'' # ds) = (True, ds)"
    using ds(1) solid by (cases ds; auto simp: split_sign_def)+
  moreover have "show_int i = (if i < 0 then CHR ''-'' # ds else ds)"
    by (simp add: show_int_def ds_def)
  ultimately show ?thesis
    using ds by (simp add: read_int_def)
qed

lemma digit_chars:
  "digit_char 0 = CHR ''0''" "digit_char 1 = CHR ''1''" "digit_char (Suc 0) = CHR ''1''"
  "digit_char 2 = CHR ''2''" "digit_char 3 = CHR ''3''" "digit_char 4 = CHR ''4''"
  "digit_char 5 = CHR ''5''" "digit_char 6 = CHR ''6''" "digit_char 7 = CHR ''7''"
  "digit_char 8 = CHR ''8''" "digit_char 9 = CHR ''9''"
  by code_simp+

text \<open>What evaluates the readers on literals.\<close>

lemmas strip_eval = str_strip_def str_lstrip_def str_rstrip_def is_space_def code_def

lemmas read_eval =
  read_uuid_def read_decimal_def read_int_def read_exponent_def split_sign_def is_hex_def
  ascii_digit_def str_lower_def lower_char_def read_nat_def digit_val_def strip_eval Let_def

end
