(* ===== verification/Matching.thy ===== *)
theory Matching
  imports Values
begin

text \<open>
  How a database row becomes a candidate with evidence (\<open>replica/investigation.py\<close>, up to the class
  \<open>ReplicaInvestigationData\<close>): text folding, name and address matching, the signals a row earns
  against a request, and which candidates are worth returning. A Python set of tokens is a list
  without repetitions of which only membership and length are used.
\<close>

section \<open>Folding of text\<close>

definition compatible :: "char \<Rightarrow> string" where
  \<comment> \<open>the NFKD decomposition of a case-folded character of the alphabet, its combining marks dropped;
    what decomposes only to characters outside \<open>[a-z0-9]\<close> is left as it is\<close>
  "compatible c =
     (let n = code c in
      if n \<in> {170, 224, 225, 226, 227, 228, 229} then ''a''
      else if n = 231 then ''c''
      else if n \<in> {232, 233, 234, 235} then ''e''
      else if n \<in> {236, 237, 238, 239} then ''i''
      else if n = 241 then ''n''
      else if n \<in> {186, 242, 243, 244, 245, 246} then ''o''
      else if n = 154 then ''s''
      else if n \<in> {249, 250, 251, 252} then ''u''
      else if n \<in> {253, 255} then ''y''
      else if n = 158 then ''z''
      else if n = 185 then ''1''
      else if n = 178 then ''2''
      else if n = 179 then ''3''
      else if n = 188 then ''1/4''
      else if n = 189 then ''1/2''
      else if n = 190 then ''3/4''
      else [c])"

definition unaccented :: "string \<Rightarrow> string" where
  "unaccented value = concat (map compatible (casefold value))"

fun runs_from :: "(char \<Rightarrow> bool) \<Rightarrow> string \<Rightarrow> string \<Rightarrow> string list" where
  \<comment> \<open>\<open>re.findall\<close> of one or more characters of a class\<close>
  "runs_from P cur [] = (if cur = [] then [] else [cur])"
| "runs_from P cur (c # cs) =
     (if P c then runs_from P (cur @ [c]) cs
      else if cur = [] then runs_from P [] cs else cur # runs_from P [] cs)"

definition plain_tokens :: "string \<Rightarrow> string list" where
  "plain_tokens value = runs_from is_plain [] (unaccented value)"

definition plain :: "string \<Rightarrow> string" where
  \<comment> \<open>\<open>_plain\<close>; \<open>None\<close> and the empty text both give the empty text\<close>
  "plain value = (if value = [] then [] else str_join '' '' (plain_tokens value))"

lemma runs_from_plain:
  "(\<forall>c \<in> set cur. P c) \<Longrightarrow> t \<in> set (runs_from P cur s) \<Longrightarrow> t \<noteq> [] \<and> (\<forall>c \<in> set t. P c)"
proof (induction P cur s rule: runs_from.induct)
  case (1 P cur)
  then show ?case by (cases "cur = []") simp_all
next
  case (2 P cur c cs)
  show ?case
  proof (cases "P c")
    case True
    with "2.prems" have "\<forall>d \<in> set (cur @ [c]). P d" "t \<in> set (runs_from P (cur @ [c]) cs)"
      by simp_all
    then show ?thesis by (rule "2.IH" (1) [OF True])
  next
    case False
    show ?thesis
    proof (cases "cur = []")
      case True
      with False "2.prems" have "t \<in> set (runs_from P [] cs)" by simp
      then show ?thesis using "2.IH" (2) [OF False True] by simp
    next
      case nonempty: False
      with False "2.prems"(2) have "t = cur \<or> t \<in> set (runs_from P [] cs)" by simp
      then show ?thesis
      proof
        assume "t = cur"
        then show ?thesis using nonempty "2.prems"(1) by simp
      next
        assume "t \<in> set (runs_from P [] cs)"
        then show ?thesis using "2.IH" (3) [OF False nonempty] by simp
      qed
    qed
  qed
qed

lemma plain_tokens_plain: "t \<in> set (plain_tokens v) \<Longrightarrow> t \<noteq> [] \<and> (\<forall>c \<in> set t. is_plain c)"
  unfolding plain_tokens_def by (rule runs_from_plain) auto

lemma plain_tokens_Nil [simp]: "plain_tokens [] = []"
  by (simp add: plain_tokens_def unaccented_def casefold_def)

lemma plain_join: "plain v = str_join '' '' (plain_tokens v)"
  by (simp add: plain_def)

lemma split_join_solid:
  assumes "\<forall>t \<in> set ts. t \<noteq> [] \<and> (\<forall>c \<in> set t. \<not> is_space c)"
  shows "str_split (str_join '' '' ts) = ts"
proof -
  have word: "split_from cur (t @ r) = split_from (cur @ t) r"
    if "\<forall>c \<in> set t. \<not> is_space c" for cur t r
    using that by (induction t arbitrary: cur) auto
  show ?thesis
    using assms unfolding str_split_def
  proof (induction ts rule: induct_list012)
    case (2 t)
    then show ?case using word [of t "[]" "[]"] by simp
  next
    case (3 t u ts)
    then show ?case using word [of t "[]"] by simp
  qed simp
qed

lemma is_plain_not_space: "is_plain c \<Longrightarrow> \<not> is_space c"
  by (auto simp: text_simps)

text \<open>\<open>_plain(value).split()\<close> is the list of the tokens.\<close>

lemma split_plain [simp]: "str_split (plain v) = plain_tokens v"
  unfolding plain_join by (rule split_join_solid) (auto dest: plain_tokens_plain is_plain_not_space)

lemma unaccented_plain:
  assumes "\<forall>c \<in> set s. is_plain c \<or> c = CHR '' ''"
  shows "unaccented s = s"
proof -
  have one: "concat (map compatible (casefold_char c)) = [c]" if "is_plain c \<or> c = CHR '' ''" for c
  proof -
    have u: "code c \<le> 122" and l: "(65 \<le> code c \<and> code c \<le> 90) = False"
      using that by (auto simp: is_plain_def code_def)
    have "compatible c = [c]" using u by (simp add: compatible_def)
    then show ?thesis using u by (simp add: casefold_char_def lower_char_def l)
  qed
  show ?thesis
    using assms
  proof (induction s)
    case (Cons c s)
    then show ?case using one [of c] by (simp add: unaccented_def casefold_def)
  qed (simp add: unaccented_def casefold_def)
qed

lemma runs_from_join:
  assumes "\<forall>t \<in> set ts. t \<noteq> [] \<and> (\<forall>c \<in> set t. P c)" "\<not> P (CHR '' '')"
  shows "runs_from P [] (str_join '' '' ts) = ts"
proof -
  have word: "runs_from P cur (t @ r) = runs_from P (cur @ t) r" if "\<forall>c \<in> set t. P c" for cur t r
    using that by (induction t arbitrary: cur) auto
  show ?thesis
    using assms(1)
  proof (induction ts rule: induct_list012)
    case (2 t)
    then show ?case using word [of t "[]" "[]"] by simp
  next
    case (3 t u ts)
    then show ?case using word [of t "[]"] assms(2) by simp
  qed simp
qed

text \<open>Folding is idempotent: a folded text is its own folding, so comparing folded texts compares what
  they have in common whatever their case, accents and punctuation.\<close>

lemma plain_tokens_idem [simp]: "plain_tokens (plain v) = plain_tokens v"
proof -
  have "c \<in> set (str_join '' '' ts) \<Longrightarrow> c = CHR '' '' \<or> (\<exists>t \<in> set ts. c \<in> set t)" for c ts
    by (induction "'' ''" ts rule: str_join.induct) auto
  then have "\<forall>c \<in> set (plain v). is_plain c \<or> c = CHR '' ''"
    unfolding plain_join using plain_tokens_plain by blast
  then have "plain_tokens (plain v) = runs_from is_plain [] (str_join '' '' (plain_tokens v))"
    by (simp add: plain_tokens_def unaccented_plain) (simp add: plain_join plain_tokens_def)
  also have "\<dots> = plain_tokens v"
  proof (rule runs_from_join)
    show "\<not> is_plain (CHR '' '')" by (simp add: is_plain_def code_def)
  qed (simp add: plain_tokens_plain)
  finally show ?thesis .
qed

lemma plain_idem [simp]: "plain (plain v) = plain v"
  by (simp add: plain_join [of "plain v"]) (simp add: plain_join)

section \<open>Names and addresses\<close>

definition glosa_ignored :: "string list" where
  "glosa_ignored = [''abono'', ''cliente'', ''cuota'', ''instalacion'', ''pago'', ''paneles'',
     ''proyecto'', ''ruuf'', ''solar'', ''transferencia'']"

definition glosa_name_tokens :: "string \<Rightarrow> string list" where
  \<comment> \<open>the six longest, the earlier first among equals\<close>
  "glosa_name_tokens value =
     take 6 (sort_key (\<lambda>t. - int (length t))
       (fromkeys (filter (\<lambda>t. 4 \<le> length t \<and> t \<notin> set glosa_ignored) (plain_tokens value))))"

definition particles :: "string list" where
  "particles = [''de'', ''del'', ''la'', ''las'', ''los'', ''y'']"

definition person_name_tokens :: "string \<Rightarrow> string list" where
  "person_name_tokens value =
     fromkeys (filter (\<lambda>t. 3 \<le> length t \<and> t \<notin> set particles) (plain_tokens value))"

definition individual_names :: "string \<Rightarrow> string list" where
  "individual_names names =
     filter (\<lambda>p. p \<noteq> []) (map str_strip (split_on (CHR 0x7C) names))"

definition strong_name_match :: "string \<Rightarrow> string \<Rightarrow> bool" where
  \<comment> \<open>the quotients are exact enough as floats: the bound 0.75 is a binary fraction\<close>
  "strong_name_match query candidate =
     (let query_tokens = person_name_tokens query;
          candidate_tokens = person_name_tokens candidate;
          shared = filter (\<lambda>t. t \<in> set candidate_tokens) query_tokens
      in if length shared < 2 then False
         else 3 * length query_tokens \<le> 4 * length shared
              \<or> 3 * length candidate_tokens \<le> 4 * length shared)"

definition any_strong_name_match :: "string \<Rightarrow> string \<Rightarrow> bool" where
  "any_strong_name_match query candidates =
     list_ex (strong_name_match query) (individual_names candidates)"

definition name_fragments :: "string \<Rightarrow> string \<Rightarrow> string list" where
  "name_fragments query candidates =
     (let query_tokens = person_name_tokens query;
          candidate_tokens = concat (map person_name_tokens (individual_names candidates))
      in filter (\<lambda>t. t \<in> set candidate_tokens \<and> 4 \<le> length t) query_tokens)"

definition digits_of :: "string \<Rightarrow> string" where
  \<comment> \<open>\<open>_digits\<close>\<close>
  "digits_of value = filter is_digit value"

definition matches_delimited :: "string \<Rightarrow> string \<Rightarrow> bool \<Rightarrow> bool" where
  "matches_delimited value candidates digits =
     (if digits
      then (let target = digits_of value
            in target \<noteq> [] \<and> list_ex (\<lambda>c. digits_of c = target) (individual_names candidates))
      else (let target = casefold (str_strip value)
            in target \<noteq> [] \<and> list_ex (\<lambda>c. casefold c = target) (individual_names candidates)))"

definition partial_address_match :: "string \<Rightarrow> string \<Rightarrow> bool" where
  \<comment> \<open>both texts are folded already\<close>
  "partial_address_match glosa address =
     (let glosa_tokens = str_split glosa;
          address_tokens = fromkeys (str_split address);
          numeric = filter (list_all is_digit) address_tokens;
          words = filter (\<lambda>t. \<not> list_all is_digit t \<and> 3 \<le> length t) address_tokens;
          matched_words = filter (\<lambda>t. t \<in> set glosa_tokens) words
      in numeric \<noteq> [] \<and> set numeric \<subseteq> set glosa_tokens \<and> 2 \<le> length matched_words
         \<and> 7 * length words \<le> 10 * length matched_words)"

section \<open>Signals\<close>

text \<open>The two requests that candidates are built for; a field one of them lacks reads as \<open>None\<close>, and
  an empty text counts as absent.\<close>

datatype candidate_request = Searching payment_candidate_query | Verifying verify_candidate_query

definition given :: "string option \<Rightarrow> string" where
  "given v = (case v of None \<Rightarrow> [] | Some s \<Rightarrow> s)"

fun asked_address :: "candidate_request \<Rightarrow> string" where
  "asked_address (Searching q) = given (pq_glosa_or_address q)"
| "asked_address (Verifying q) = given (vc_address q)"

fun asked_transferor :: "candidate_request \<Rightarrow> string" where
  "asked_transferor (Searching q) = given (pq_transferor_name q)"
| "asked_transferor (Verifying q) = given (vc_transferor_name q)"

fun asked_amount :: "candidate_request \<Rightarrow> decimal option" where
  "asked_amount (Searching q) = pq_amount q"
| "asked_amount (Verifying q) = vc_amount q"

fun asked_currency :: "candidate_request \<Rightarrow> string" where
  "asked_currency (Searching q) = (if truthy (pq_currency q) then the (pq_currency q) else ''CLP'')"
| "asked_currency (Verifying q) = (if truthy (vc_currency q) then the (vc_currency q) else ''CLP'')"

record clue =
  cl_kind :: evidence_kind
  cl_polarity :: evidence_polarity
  cl_strength :: evidence_strength
  cl_description :: string

definition clue_of ::
  "evidence_kind \<Rightarrow> evidence_polarity \<Rightarrow> evidence_strength \<Rightarrow> string \<Rightarrow> clue" where
  "clue_of k p s d = \<lparr>cl_kind = k, cl_polarity = p, cl_strength = s, cl_description = d\<rparr>"

definition receivable_of :: "db_row \<Rightarrow> string option" where
  "receivable_of row =
     (if cell_truthy (cell_at row ''account_receivable_id'')
      then Some (cell_str (cell_at row ''account_receivable_id'')) else None)"

definition build_signal :: "db_row \<Rightarrow> bool \<Rightarrow> clue \<Rightarrow> exn_name + evidence_signal" where
  \<comment> \<open>\<open>_signal\<close>\<close>
  "build_signal row verified c =
     bindE (item_at row ''order_id'') (\<lambda>order.
       let s = \<lparr>sig_evidence_id = [], sig_kind = cl_kind c,
                sig_source = (if verified then Src_candidate_verification else Src_payment_candidates),
                sig_polarity = cl_polarity c, sig_strength = cl_strength c,
                sig_description = cl_description c, sig_order_id = Some order,
                sig_account_receivable_id = receivable_of row, sig_source_reference = None\<rparr>
       in if signal_valid s then Inr s else Inl ''ValidationError'')"

definition full_address_in :: "string \<Rightarrow> string \<Rightarrow> bool" where
  "full_address_in right left \<longleftrightarrow>
     right \<noteq> [] \<and> contains ('' '' @ right @ '' '') ('' '' @ left @ '' '')"

definition both_names :: "string \<Rightarrow> db_row \<Rightarrow> string" where
  "both_names customer row = customer @ '' | '' @ text_at row ''signee_names''"

definition address_clues :: "string \<Rightarrow> string \<Rightarrow> db_row \<Rightarrow> clue list" where
  "address_clues asked customer row =
     (if asked = [] then []
      else let left = plain asked; right = plain (text_at row ''full_address'')
        in if full_address_in right left
           then [clue_of Exact_address Supporting Strong (''La glosa coincide con la direcci'' @ [CHR 0xF3] @ ''n completa de instalaci'' @ [CHR 0xF3] @ ''n.'')]
           else if right \<noteq> [] \<and> partial_address_match left right
           then [clue_of Partial_address Supporting Medium (''La glosa coincide parcialmente con la direcci'' @ [CHR 0xF3] @ ''n de instalaci'' @ [CHR 0xF3] @ ''n.'')]
           else if strong_name_match asked customer
           then [clue_of Customer_name Supporting Medium (''La glosa contiene el nombre del cliente.'')]
           else if any_strong_name_match asked (text_at row ''signee_names'')
           then [clue_of Signee_name Supporting Medium (''La glosa contiene el nombre de un firmante del contrato.'')]
           else if name_fragments asked (both_names customer row) \<noteq> []
           then [clue_of Name_fragment Supporting Weak (''La glosa comparte un fragmento de nombre con el cliente.'')]
           else [])"

definition transferor_clues :: "string \<Rightarrow> string \<Rightarrow> db_row \<Rightarrow> clue list" where
  "transferor_clues transferor customer row =
     (if transferor = [] then []
      else let normalized = plain transferor
        in if strong_name_match transferor customer
           then [clue_of Customer_name Supporting Medium (''El nombre del transferente coincide con el cliente.'')]
           else if any_strong_name_match transferor (text_at row ''signee_names'')
           then [clue_of Signee_name Supporting Medium (''El transferente coincide con un firmante del contrato.'')]
           else if list_ex (\<lambda>field. contains normalized (plain (text_at row field)))
                     [''legacy_bank_name'', ''normalized_bank_name'']
           then [clue_of Bank_name Supporting Weak (''El nombre coincide con una cuenta bancaria almacenada de apoyo.'')]
           else if name_fragments transferor (both_names customer row) \<noteq> []
           then [clue_of Name_fragment Supporting Weak (''El transferente comparte s'' @ [CHR 0xF3] @ ''lo una parte del nombre registrado.'')]
           else [clue_of Identity_conflict Contradicting Medium (''El nombre del transferente no coincide con el cliente.'')])"

definition amount_clues :: "decimal option \<Rightarrow> string \<Rightarrow> decimal \<Rightarrow> string \<Rightarrow> clue list" where
  "amount_clues asked requested_currency outstanding currency =
     (case asked of
        None \<Rightarrow> []
      | Some amount \<Rightarrow>
          (if requested_currency \<noteq> currency
           then [clue_of Currency_mismatch Contradicting Strong (''La moneda del pago no coincide con la cuenta por cobrar.'')]
           else if dec_eq amount outstanding
           then [clue_of Exact_outstanding Supporting Medium
                   (''El monto coincide exactamente con el saldo '' @ format_f outstanding @ '' '' @ currency @ ''.'')]
           else if dec_less amount outstanding
           then [clue_of Partial_payment Supporting Weak
                   (''El monto puede ser un abono parcial; quedar'' @ [CHR 0xED] @ ''an '' @ format_f (dec_sub outstanding amount) @ '' '' @ currency @ ''.'')]
           else [clue_of Amount_exceeds_outstanding Contradicting Strong
                   (''El monto supera el saldo pendiente '' @ format_f outstanding @ '' '' @ currency @ ''.'')]))"

definition contact_clues :: "payment_candidate_query \<Rightarrow> db_row \<Rightarrow> clue list" where
  "contact_clues q row =
     (let rut = digits_of (given (pq_transferor_rut q));
          account = digits_of (given (pq_origin_account_number q))
      in (if rut \<noteq> [] \<and> list_ex (\<lambda>field. matches_delimited rut (text_at row field) True)
               [''customer_rut'', ''signee_ruts'', ''legacy_bank_rut'', ''normalized_bank_rut'']
          then [clue_of Rut Supporting Medium (''El RUT coincide con la identidad almacenada.'')] else [])
       @ (if account \<noteq> [] \<and> account \<in> {digits_of (text_at row ''legacy_bank_account''),
                                          digits_of (text_at row ''normalized_bank_account'')}
          then [clue_of Bank_account Supporting Weak (''La cuenta de origen coincide con una cuenta almacenada de apoyo.'')] else [])
       @ (if given (pq_email q) \<noteq> [] \<and> list_ex (\<lambda>field. matches_delimited (given (pq_email q)) (text_at row field) False)
               [''customer_email'', ''signee_emails'']
          then [clue_of Email Supporting Medium (''El correo coincide con el cliente.'')] else [])
       @ (if given (pq_phone q) \<noteq> [] \<and> list_ex (\<lambda>field. matches_delimited (given (pq_phone q)) (text_at row field) True)
               [''customer_phone'', ''signee_phones'']
          then [clue_of Phone Supporting Medium (''El tel'' @ [CHR 0xE9] @ ''fono coincide con el cliente.'')] else []))"

fun request_contact_clues :: "candidate_request \<Rightarrow> db_row \<Rightarrow> clue list" where
  "request_contact_clues (Searching q) row = contact_clues q row"
| "request_contact_clues (Verifying q) row = []"

definition candidate_clues ::
  "db_row \<Rightarrow> candidate_request \<Rightarrow> string \<Rightarrow> decimal \<Rightarrow> string \<Rightarrow> clue list" where
  "candidate_clues row request customer outstanding currency =
     address_clues (asked_address request) customer row
     @ transferor_clues (asked_transferor request) customer row
     @ amount_clues (asked_amount request) (asked_currency request) outstanding currency
     @ request_contact_clues request row"

definition installment_text :: "db_row \<Rightarrow> string" where
  "installment_text row =
     (if cell_truthy (cell_at row ''installment_summary'')
      then cell_str (cell_at row ''installment_summary'') else ''sin cuotas descritas'')"

definition candidate :: "db_row \<Rightarrow> candidate_request \<Rightarrow> bool \<Rightarrow> exn_name + investigation_candidate" where
  \<comment> \<open>\<open>_candidate\<close>\<close>
  "candidate row request verified =
     bindE (item_at row ''customer_name'') (\<lambda>customer.
     bindE (bindE (item_at row ''outstanding_amount'') read_decimal) (\<lambda>outstanding.
     bindE (item_at row ''currency'') (\<lambda>currency.
     bindE (mapE (build_signal row verified)
              (candidate_clues row request customer outstanding currency)) (\<lambda>evidence.
     bindE (item_at row ''account_receivable_type'') (\<lambda>ar_type.
     bindE (bindE (item_at row ''order_id'') read_uuid) (\<lambda>order.
     bindE (bindE (item_at row ''order_number'') read_int) (\<lambda>num.
     bindE (bindE (item_at row ''account_receivable_id'') read_uuid) (\<lambda>receivable.
       Inr \<lparr>ic_customer_name = customer, ic_order_id = order, ic_order_number = Some num,
            ic_account_receivable_id = Some receivable,
            ic_account_receivable_summary =
              Some (ar_type @ ''; saldo pendiente '' @ format_f outstanding @ '' '' @ currency
                    @ ''; '' @ installment_text row),
            ic_outstanding_amount = Some outstanding, ic_currency = Some currency,
            ic_evidence = evidence, ic_verified = verified\<rparr>))))))))"

definition identity_transferor_clues :: "string \<Rightarrow> string \<Rightarrow> db_row \<Rightarrow> clue list" where
  "identity_transferor_clues transferor customer row =
     (if transferor = [] then []
      else if strong_name_match transferor customer
      then [clue_of Customer_name Supporting Medium (''El nombre del transferente coincide con el cliente.'')]
      else if any_strong_name_match transferor (text_at row ''signee_names'')
      then [clue_of Signee_name Supporting Medium (''El transferente coincide con un firmante del contrato.'')]
      else if name_fragments transferor (both_names customer row) \<noteq> []
      then [clue_of Name_fragment Supporting Weak (''El transferente comparte s'' @ [CHR 0xF3] @ ''lo una parte del nombre registrado.'')]
      else [])"

definition identity_address_clues :: "string \<Rightarrow> string \<Rightarrow> db_row \<Rightarrow> clue list" where
  "identity_address_clues asked customer row =
     (if asked = [] then []
      else let address = plain (text_at row ''full_address''); glosa = plain asked
        in if full_address_in address glosa
           then [clue_of Exact_address Supporting Strong (''La glosa coincide con la direcci'' @ [CHR 0xF3] @ ''n completa de instalaci'' @ [CHR 0xF3] @ ''n.'')]
           else if address \<noteq> [] \<and> partial_address_match glosa address
           then [clue_of Partial_address Supporting Medium (''La glosa coincide parcialmente con la direcci'' @ [CHR 0xF3] @ ''n de instalaci'' @ [CHR 0xF3] @ ''n.'')]
           else if strong_name_match asked customer
           then [clue_of Customer_name Supporting Medium (''La glosa contiene el nombre del cliente.'')]
           else if any_strong_name_match asked (text_at row ''signee_names'')
           then [clue_of Signee_name Supporting Medium (''La glosa contiene el nombre de un firmante del contrato.'')]
           else [])"

fun identity_contact_clues :: "candidate_request \<Rightarrow> db_row \<Rightarrow> clue list" where
  "identity_contact_clues (Searching q) row =
     (if given (pq_transferor_rut q) \<noteq> []
         \<and> list_ex (\<lambda>field. matches_delimited (given (pq_transferor_rut q)) (text_at row field) True)
             [''customer_rut'', ''signee_ruts'']
      then [clue_of Rut Supporting Medium (''El RUT coincide con la identidad almacenada.'')] else [])
   @ (if given (pq_email q) \<noteq> [] \<and> list_ex (\<lambda>field. matches_delimited (given (pq_email q)) (text_at row field) False)
             [''customer_email'', ''signee_emails'']
      then [clue_of Email Supporting Medium (''El correo coincide con la identidad almacenada.'')] else [])
   @ (if given (pq_phone q) \<noteq> [] \<and> list_ex (\<lambda>field. matches_delimited (given (pq_phone q)) (text_at row field) True)
             [''customer_phone'', ''signee_phones'']
      then [clue_of Phone Supporting Medium (''El tel'' @ [CHR 0xE9] @ ''fono coincide con la identidad almacenada.'')] else [])"
| "identity_contact_clues (Verifying q) row = []"

definition identity_clues :: "db_row \<Rightarrow> candidate_request \<Rightarrow> string \<Rightarrow> clue list" where
  "identity_clues row request customer =
     identity_transferor_clues (asked_transferor request) customer row
     @ identity_address_clues (asked_address request) customer row
     @ identity_contact_clues request row"

definition identity_candidate ::
  "db_row \<Rightarrow> candidate_request \<Rightarrow> bool \<Rightarrow> exn_name + investigation_candidate" where
  \<comment> \<open>\<open>_identity_candidate\<close>: no account receivable is claimed\<close>
  "identity_candidate row request verified =
     bindE (item_at row ''customer_name'') (\<lambda>customer.
     bindE (mapE (build_signal row verified) (identity_clues row request customer)) (\<lambda>evidence.
     bindE (bindE (item_at row ''order_id'') read_uuid) (\<lambda>order.
     bindE (bindE (item_at row ''order_number'') read_int) (\<lambda>num.
       Inr \<lparr>ic_customer_name = customer, ic_order_id = order, ic_order_number = Some num,
            ic_account_receivable_id = None, ic_account_receivable_summary = None,
            ic_outstanding_amount = None, ic_currency = None,
            ic_evidence = evidence, ic_verified = verified\<rparr>))))"

definition meaningful_kinds :: "evidence_kind list" where
  "meaningful_kinds = [Exact_address, Partial_address, Customer_name, Signee_name, Rut, Email, Phone,
     Bank_name, Bank_account, Exact_outstanding, Vambe_context]"

definition is_meaningful_candidate :: "investigation_candidate \<Rightarrow> bool" where
  "is_meaningful_candidate c =
     list_ex (\<lambda>s. supports s \<and> sig_kind s \<in> set meaningful_kinds) (ic_evidence c)"

section \<open>Names\<close>

definition person_names :: "string \<Rightarrow> string set" where
  "person_names v = set (person_name_tokens v)"

lemma length_person_name_tokens: "length (person_name_tokens v) = card (person_names v)"
  unfolding person_names_def by (rule distinct_card [symmetric]) (simp add: person_name_tokens_def)

lemma length_shared_tokens:
  "length (filter (\<lambda>t. t \<in> set (person_name_tokens c)) (person_name_tokens q))
   = card (person_names q \<inter> person_names c)"
proof -
  have "distinct (person_name_tokens q)" by (simp add: person_name_tokens_def)
  then have "length (filter (\<lambda>t. t \<in> set (person_name_tokens c)) (person_name_tokens q))
    = card (set (filter (\<lambda>t. t \<in> set (person_name_tokens c)) (person_name_tokens q)))"
    by (intro distinct_card [symmetric] distinct_filter)
  also have "set (filter (\<lambda>t. t \<in> set (person_name_tokens c)) (person_name_tokens q))
    = person_names q \<inter> person_names c"
    by (auto simp: person_names_def)
  finally show ?thesis .
qed

lemma strong_name_match_card:
  "strong_name_match q c \<longleftrightarrow>
     2 \<le> card (person_names q \<inter> person_names c) \<and>
     (3 * card (person_names q) \<le> 4 * card (person_names q \<inter> person_names c) \<or>
      3 * card (person_names c) \<le> 4 * card (person_names q \<inter> person_names c))"
  by (simp add: strong_name_match_def length_shared_tokens length_person_name_tokens Let_def)

lemma person_names_plain [simp]: "person_names (plain v) = person_names v"
  by (simp add: person_names_def person_name_tokens_def)

lemma person_names_long: "t \<in> person_names v \<Longrightarrow> 3 \<le> length t \<and> t \<notin> set particles"
  by (auto simp: person_names_def person_name_tokens_def)

text \<open>Name matching is a relation between sets of name tokens: two texts match when they share at
  least two tokens of three characters or more (particles left out) and the shared ones are three
  quarters of either set. It is symmetric, and neither case nor accents nor punctuation nor the
  order or repetition of the words matters: a text can be replaced by its folding.\<close>

theorem name_match_is_set_overlap:
  "(strong_name_match q c \<longleftrightarrow>
      (let n = card (person_names q \<inter> person_names c)
       in 2 \<le> n \<and> (3 * card (person_names q) \<le> 4 * n \<or> 3 * card (person_names c) \<le> 4 * n)))
   \<and> strong_name_match q c = strong_name_match c q
   \<and> strong_name_match (plain q) c = strong_name_match q c"
  by (auto simp: strong_name_match_card Int_commute Let_def)

section \<open>Signals of a candidate\<close>

lemma build_signal_Inr:
  assumes "build_signal row verified c = Inr s"
  shows "item_at row ''order_id'' = Inr (the (sig_order_id s)) \<and> sig_order_id s \<noteq> None
    \<and> sig_kind s = cl_kind c \<and> sig_polarity s = cl_polarity c \<and> sig_strength s = cl_strength c
    \<and> sig_description s = cl_description c \<and> sig_account_receivable_id s = receivable_of row
    \<and> sig_source s = (if verified then Src_candidate_verification else Src_payment_candidates)"
  using assms by (auto simp: build_signal_def Let_def split: if_split_asm)

lemma signals_map:
  assumes "mapE (build_signal row verified) cs = Inr ev"
  shows "map sig_kind ev = map cl_kind cs" "map sig_polarity ev = map cl_polarity cs"
    "map sig_description ev = map cl_description cs"
  using assms by (induction cs arbitrary: ev) (auto dest: build_signal_Inr)

definition amount_kinds :: "evidence_kind list" where
  "amount_kinds = [Currency_mismatch, Exact_outstanding, Partial_payment, Amount_exceeds_outstanding]"

definition amount_verdict :: "decimal \<Rightarrow> string \<Rightarrow> decimal \<Rightarrow> string \<Rightarrow> evidence_kind" where
  \<comment> \<open>the specification: what an amount says about a balance\<close>
  "amount_verdict paid paid_currency owed currency =
     (if paid_currency \<noteq> currency then Currency_mismatch
      else if dec_eq paid owed then Exact_outstanding
      else if dec_less owed paid then Amount_exceeds_outstanding
      else Partial_payment)"

lemma amount_clues_kinds:
  "map cl_kind (amount_clues (Some paid) pc owed c) = [amount_verdict paid pc owed c]
   \<and> map cl_polarity (amount_clues (Some paid) pc owed c)
     = [if amount_verdict paid pc owed c \<in> {Currency_mismatch, Amount_exceeds_outstanding}
        then Contradicting else Supporting]"
proof -
  have "dec_less paid owed \<longleftrightarrow> \<not> dec_less owed paid" if "\<not> dec_eq paid owed"
    using that dec_trichotomy [of paid owed] by (auto simp: dec_less_def Let_def min.commute)
  then show ?thesis
    by (auto simp: amount_clues_def amount_verdict_def clue_of_def)
qed

lemma other_clues_kinds:
  "c \<in> set (address_clues a n row) \<Longrightarrow> cl_kind c \<notin> set amount_kinds \<and> cl_polarity c = Supporting"
  "c \<in> set (transferor_clues a n row) \<Longrightarrow> cl_kind c \<notin> set amount_kinds"
  "c \<in> set (request_contact_clues r row) \<Longrightarrow> cl_kind c \<notin> set amount_kinds \<and> cl_polarity c = Supporting"
  by (auto simp: address_clues_def transferor_clues_def clue_of_def amount_kinds_def
      Let_def split: if_splits)
    (cases r; auto simp: contact_clues_def clue_of_def Let_def split: if_splits)+

lemma candidate_Inr:
  assumes "candidate row request verified = Inr c"
  obtains customer owed currency where
    "item_at row ''customer_name'' = Inr customer"
    "bindE (item_at row ''outstanding_amount'') read_decimal = Inr owed"
    "item_at row ''currency'' = Inr currency"
    "mapE (build_signal row verified) (candidate_clues row request customer owed currency)
       = Inr (ic_evidence c)"
    "ic_outstanding_amount c = Some owed" "ic_currency c = Some currency"
    "ic_customer_name c = customer" "ic_verified c = verified"
    "bindE (item_at row ''order_id'') read_uuid = Inr (ic_order_id c)"
    "ic_account_receivable_id c \<noteq> None"
  using assms unfolding candidate_def bindE_Inr by (elim exE conjE) (auto simp: bindE_Inr)

lemma candidate_amount_signals:
  assumes "candidate row request verified = Inr c"
  obtains customer owed currency where
    "ic_outstanding_amount c = Some owed" "ic_currency c = Some currency"
    "map sig_kind (ic_evidence c) = map cl_kind (candidate_clues row request customer owed currency)"
    "map sig_polarity (ic_evidence c)
      = map cl_polarity (candidate_clues row request customer owed currency)"
  using candidate_Inr [OF assms] signals_map by metis

lemma filter_amount_clues:
  "filter (\<lambda>k. k \<in> set amount_kinds) (map cl_kind (candidate_clues row request customer owed currency))
   = (case asked_amount request of None \<Rightarrow> []
      | Some paid \<Rightarrow> [amount_verdict paid (asked_currency request) owed currency])"
proof -
  have none: "filter (\<lambda>k. k \<in> set amount_kinds) (map cl_kind cs) = []"
    if "\<And>c. c \<in> set cs \<Longrightarrow> cl_kind c \<notin> set amount_kinds" for cs
    using that by (induction cs) auto
  have amount: "filter (\<lambda>k. k \<in> set amount_kinds)
      (map cl_kind (amount_clues (asked_amount request) (asked_currency request) owed currency))
    = (case asked_amount request of None \<Rightarrow> []
      | Some paid \<Rightarrow> [amount_verdict paid (asked_currency request) owed currency])"
  proof (cases "asked_amount request")
    case (Some paid)
    have "amount_verdict paid pc owed currency \<in> set amount_kinds" for pc
      by (simp add: amount_verdict_def amount_kinds_def)
    with Some show ?thesis by (simp add: amount_clues_kinds)
  qed (simp add: amount_clues_def)
  show ?thesis
    unfolding candidate_clues_def map_append filter_append amount
    by (simp add: none other_clues_kinds)
qed

text \<open>What a candidate says about the amount is exact: a request without an amount earns no signal
  about it; a request with one earns exactly one, a currency mismatch when the currencies differ,
  an exact match precisely when the two decimals are equal as numbers, an excess when the payment is
  larger than the balance and a partial payment otherwise; mismatch and excess contradict.\<close>

theorem amount_signal_is_exact:
  assumes "candidate row request verified = Inr c"
  shows "\<exists>owed currency. ic_outstanding_amount c = Some owed \<and> ic_currency c = Some currency \<and>
    filter (\<lambda>k. k \<in> set amount_kinds) (map sig_kind (ic_evidence c)) =
      (case asked_amount request of None \<Rightarrow> []
       | Some paid \<Rightarrow> [amount_verdict paid (asked_currency request) owed currency])"
proof -
  obtain customer owed currency where
    "ic_outstanding_amount c = Some owed" "ic_currency c = Some currency"
    "map sig_kind (ic_evidence c) = map cl_kind (candidate_clues row request customer owed currency)"
    using candidate_amount_signals [OF assms] by metis
  then show ?thesis by (simp add: filter_amount_clues)
qed

lemma amount_signal_mem:
  assumes "candidate row request verified = Inr c" "asked_amount request = Some paid"
  obtains owed currency s where
    "ic_outstanding_amount c = Some owed" "ic_currency c = Some currency" "s \<in> set (ic_evidence c)"
    "sig_kind s = amount_verdict paid (asked_currency request) owed currency"
    "sig_polarity s = (if sig_kind s \<in> {Currency_mismatch, Amount_exceeds_outstanding}
       then Contradicting else Supporting)"
proof -
  obtain customer owed currency where c:
    "ic_outstanding_amount c = Some owed" "ic_currency c = Some currency"
    "mapE (build_signal row verified) (candidate_clues row request customer owed currency)
       = Inr (ic_evidence c)"
    using candidate_Inr [OF assms(1)] by metis
  define v where "v = amount_verdict paid (asked_currency request) owed currency"
  obtain k where k: "amount_clues (Some paid) (asked_currency request) owed currency = [k]"
    "cl_kind k = v"
    "cl_polarity k = (if v \<in> {Currency_mismatch, Amount_exceeds_outstanding}
       then Contradicting else Supporting)"
    using amount_clues_kinds [of paid "asked_currency request" owed currency]
    by (auto simp: v_def)
  have "k \<in> set (candidate_clues row request customer owed currency)"
    using assms(2) k(1) by (simp add: candidate_clues_def)
  moreover have "\<exists>s \<in> set ev. build_signal row verified x = Inr s"
    if "mapE (build_signal row verified) cs = Inr ev" "x \<in> set cs" for cs ev x
    using that by (induction cs arbitrary: ev) auto
  ultimately obtain s where "s \<in> set (ic_evidence c)" "build_signal row verified k = Inr s"
    using c(3) by blast
  then show thesis
    using that [OF c(1,2), of s] build_signal_Inr [of row verified k s] k by (simp add: v_def)
qed

definition same_claim :: "evidence_signal \<Rightarrow> evidence_signal \<Rightarrow> bool" where
  \<comment> \<open>the same signal up to the identifier the run gives it\<close>
  "same_claim s t \<longleftrightarrow> sig_evidence_id_update (\<lambda>_. []) s = sig_evidence_id_update (\<lambda>_. []) t"

lemma same_claim_fields:
  "same_claim s t \<Longrightarrow> sig_kind s = sig_kind t \<and> sig_polarity s = sig_polarity t"
  by (cases s; cases t) (simp add: same_claim_def)

text \<open>C12: From the row to the verdict: when the payment is in another currency than the account
  receivable, or larger than its balance, no set of signals that contains the candidate's own ones
  (under whatever identifiers the run gives them) is worth any confidence, however well the name,
  the address, the tax number or the messages fit.\<close>

theorem impossible_amount_blocks_confidence:
  assumes "candidate row request verified = Inr c" "asked_amount request = Some paid"
    "ic_outstanding_amount c = Some owed" "ic_currency c = Some currency"
    "asked_currency request \<noteq> currency \<or> dec_less owed paid"
    "\<forall>s \<in> set (ic_evidence c). \<exists>t \<in> set signals. same_claim s t"
  shows "confidence_of signals = Conf_unknown"
proof -
  obtain s where s: "s \<in> set (ic_evidence c)"
    "sig_kind s = amount_verdict paid (asked_currency request) owed currency"
    "sig_polarity s = (if sig_kind s \<in> {Currency_mismatch, Amount_exceeds_outstanding}
       then Contradicting else Supporting)"
    using amount_signal_mem [OF assms(1,2)] assms(3,4) by (metis option.inject)
  have "\<not> dec_eq paid owed" if "dec_less owed paid"
    using dec_less_not_eq [OF that] dec_eq_sym by blast
  then have "sig_kind s \<in> set hard_contradictions"
    using assms(5) s(2) by (auto simp: amount_verdict_def hard_contradictions_def)
  moreover from this have "sig_polarity s = Contradicting"
    using s(3) by (auto simp: hard_contradictions_def)
  moreover obtain t where "t \<in> set signals" "same_claim s t" using assms(6) s(1) by blast
  ultimately have "meets (contradicting_kinds signals) hard_contradictions"
    using same_claim_fields [of s t]
    by (auto simp: meets_def contradicting_kinds_def contradicts_def list_ex_iff)
  then show ?thesis
    by (simp add: confidence_of_def material_contradiction_def Let_def)
qed

section \<open>Examples\<close>

lemmas plain_eval =
  plain_tokens_def unaccented_def casefold_def casefold_char_def lower_char_def compatible_def
  is_plain_def code_def char_of_def Let_def

definition example_row :: db_row where
  "example_row =
     [(''customer_name'', Chars ''Ana Rojas''), (''order_id'', Chars ''0a000000-0000-4000-8000-00000000000b''),
      (''order_number'', Whole 4711), (''account_receivable_id'', Chars ''0a000000-0000-4000-8000-00000000000c''),
      (''account_receivable_type'', Chars ''balance''), (''outstanding_amount'', Chars ''120000.00''),
      (''currency'', Chars ''CLP''), (''full_address'', Chars ''Los Olmos 120 Renca''),
      (''legacy_bank_name'', Null), (''signee_names'', Null)]"

definition example_check :: verify_candidate_query where
  "example_check = \<lparr>vc_order_id = ''0a000000-0000-4000-8000-00000000000b'', vc_account_receivable_id = None,
     vc_amount = Some (Decimal 150000 0), vc_currency = None, vc_transferor_name = None,
     vc_address = None, vc_source_links = []\<rparr>"

lemma example_balance: "format_f (Decimal 12000000 (- 2)) = ''120000.00''"
  by (simp add: format_f_def show_nat.simps digit_chars Let_def)

lemma example_candidate_built:
  "\<exists>c. candidate example_row (Verifying example_check) True = Inr c
    \<and> ic_outstanding_amount c = Some (Decimal 12000000 (- 2)) \<and> ic_currency c = Some ''CLP''"
  by (simp add: candidate_def candidate_clues_def address_clues_def transferor_clues_def example_row_def
      example_check_def amount_clues_def item_at_def build_signal_def receivable_of_def cell_at_def
      clue_of_def signal_valid_def given_def truthy_def dec_less_def dec_eq_def dec_scaled_def
      read_int_show_int example_balance read_uuid_def read_decimal_def read_exponent_def split_sign_def
      is_hex_def ascii_digit_def str_lower_def lower_char_def read_nat_def digit_val_def strip_eval Let_def)

lemma amount_signal_is_exact_witness:
  "\<exists>c. candidate example_row (Verifying example_check) True = Inr c
    \<and> filter (\<lambda>k. k \<in> set amount_kinds) (map sig_kind (ic_evidence c)) = [Amount_exceeds_outstanding]"
proof -
  obtain c where c: "candidate example_row (Verifying example_check) True = Inr c"
    "ic_outstanding_amount c = Some (Decimal 12000000 (- 2))" "ic_currency c = Some ''CLP''"
    using example_candidate_built by blast
  then show ?thesis
    using amount_signal_is_exact [OF c(1)]
    by (auto simp: example_check_def amount_verdict_def truthy_def dec_eq_def dec_less_def dec_scaled_def)
qed

lemma impossible_amount_blocks_confidence_witness:
  "\<exists>c. candidate example_row (Verifying example_check) True = Inr c
    \<and> confidence_of (ic_evidence c) = Conf_unknown"
proof -
  obtain c where c: "candidate example_row (Verifying example_check) True = Inr c"
    "ic_outstanding_amount c = Some (Decimal 12000000 (- 2))" "ic_currency c = Some ''CLP''"
    using example_candidate_built by blast
  have "confidence_of (ic_evidence c) = Conf_unknown"
  proof (rule impossible_amount_blocks_confidence [OF c(1) _ c(2,3)])
    show "asked_amount (Verifying example_check) = Some (Decimal 150000 0)"
      by (simp add: example_check_def)
    show "asked_currency (Verifying example_check) \<noteq> ''CLP'' \<or>
        dec_less (Decimal 12000000 (- 2)) (Decimal 150000 0)"
      by (simp add: dec_less_def dec_scaled_def)
  qed (auto simp: same_claim_def)
  with c(1) show ?thesis by blast
qed

section \<open>Where matching goes wrong\<close>

text \<open>A transferor whose name folds to nothing (punctuation, or letters outside the Latin alphabet)
  is contained in every stored bank name, so it earns supporting evidence instead of a conflict;
  with an exact balance that is enough for a medium confidence.\<close>

lemma contains_Nil [simp]: "contains [] s"
  by (cases s) (auto simp: starts_with_def)

lemma blank_transferor_clues:
  assumes "transferor \<noteq> []" "plain transferor = []"
  shows "map cl_kind (transferor_clues transferor customer row) = [Bank_name]"
    "map cl_polarity (transferor_clues transferor customer row) = [Supporting]"
proof -
  have "plain_tokens transferor = []"
    using assms(2) split_plain [of transferor] by (simp add: str_split_def)
  then have "person_names transferor = {}"
    by (simp add: person_names_def person_name_tokens_def)
  then have "\<not> strong_name_match transferor x" for x by (simp add: strong_name_match_card)
  moreover from this have "\<not> any_strong_name_match transferor x" for x
    by (simp add: any_strong_name_match_def list_ex_iff)
  ultimately show "map cl_kind (transferor_clues transferor customer row) = [Bank_name]"
    "map cl_polarity (transferor_clues transferor customer row) = [Supporting]"
    using assms by (simp_all add: transferor_clues_def clue_of_def)
qed

text \<open>A transferor name that says nothing counts as evidence. A name made of punctuation only folds to
  the empty text, which every stored bank name contains, so a candidate with an exact amount and no
  other clue than such a name earns medium confidence.\<close>

theorem blank_transferor_is_evidence:
  assumes "candidate row request verified = Inr c" "asked_address request = []"
    "asked_transferor request \<noteq> []" "plain (asked_transferor request) = []"
    "asked_amount request = Some paid" "ic_outstanding_amount c = Some owed"
    "dec_eq paid owed" "ic_currency c = Some (asked_currency request)"
  shows "confidence_of (ic_evidence c) = Conf_medium"
proof -
  obtain customer owed' currency where c:
    "ic_outstanding_amount c = Some owed'" "ic_currency c = Some currency"
    "map sig_kind (ic_evidence c) = map cl_kind (candidate_clues row request customer owed' currency)"
    "map sig_polarity (ic_evidence c)
      = map cl_polarity (candidate_clues row request customer owed' currency)"
    using candidate_amount_signals [OF assms(1)] by metis
  have contact: "\<And>x. x \<in> set (request_contact_clues request row) \<Longrightarrow> cl_polarity x = Supporting"
    using other_clues_kinds(3) by blast
  define ks where "ks = map cl_kind (request_contact_clues request row)"
  have v: "amount_verdict paid (asked_currency request) owed' currency = Exact_outstanding"
    using assms(6-8) c by (simp add: amount_verdict_def)
  have kinds: "map sig_kind (ic_evidence c) = [Bank_name, Exact_outstanding] @ ks"
    using c(3) blank_transferor_clues [OF assms(3,4)] amount_clues_kinds [of paid _ owed' currency] assms(2,5) v
    by (simp add: candidate_clues_def address_clues_def ks_def)
  have pols: "set (map sig_polarity (ic_evidence c)) \<subseteq> {Supporting}"
    using c(4) blank_transferor_clues [OF assms(3,4)] amount_clues_kinds [of paid _ owed' currency] assms(2,5) v
      contact
    by (auto simp: candidate_clues_def address_clues_def)
  then have sup: "\<And>s. s \<in> set (ic_evidence c) \<Longrightarrow> supports s" by (auto simp: supports_def)
  then have sk: "supporting_kinds (ic_evidence c) = [Bank_name, Exact_outstanding] @ ks"
    and ck: "contradicting_kinds (ic_evidence c) = []"
    using kinds by (auto simp: supporting_kinds_def contradicting_kinds_def contradicts_not_supports
        filter_id_conv filter_empty_conv)
  have "Exact_address \<notin> set ks"
    using other_clues_kinds(3) by (cases request) (auto simp: ks_def contact_clues_def clue_of_def Let_def)
  then show ?thesis
    by (simp add: confidence_of_def material_contradiction_def sk ck meets_def hard_contradictions_def
        bank_identity_def Let_def)
qed

definition dashes_check :: verify_candidate_query where
  "dashes_check = example_check\<lparr>vc_amount := Some (Decimal 120000 0), vc_transferor_name := Some ''---''\<rparr>"

lemma dashes_fold: "plain_tokens ''---'' = []"
  by (simp add: plain_eval)

lemma blank_transferor_is_evidence_witness:
  "\<exists>c. candidate example_row (Verifying dashes_check) True = Inr c
    \<and> confidence_of (ic_evidence c) = Conf_medium"
proof -
  have "plain ''---'' = []" by (simp add: plain_join dashes_fold)
  moreover have "\<not> strong_name_match ''---'' x" for x
    by (simp add: strong_name_match_def person_name_tokens_def dashes_fold)
  ultimately have
    "\<exists>c. candidate example_row (Verifying dashes_check) True = Inr c
      \<and> ic_outstanding_amount c = Some (Decimal 12000000 (- 2)) \<and> ic_currency c = Some ''CLP''"
    by (simp add: candidate_def candidate_clues_def address_clues_def transferor_clues_def example_row_def
      example_check_def dashes_check_def amount_clues_def item_at_def build_signal_def receivable_of_def
      cell_at_def text_at_def any_strong_name_match_def individual_names_def
      clue_of_def signal_valid_def given_def truthy_def dec_less_def dec_eq_def dec_scaled_def
      read_int_show_int example_balance read_uuid_def read_decimal_def read_exponent_def split_sign_def
      is_hex_def ascii_digit_def str_lower_def lower_char_def read_nat_def digit_val_def strip_eval Let_def)
  then obtain c where c: "candidate example_row (Verifying dashes_check) True = Inr c"
    "ic_outstanding_amount c = Some (Decimal 12000000 (- 2))" "ic_currency c = Some ''CLP''"
    by blast
  have "confidence_of (ic_evidence c) = Conf_medium"
    using blank_transferor_is_evidence [OF c(1) _ _ _ _ c(2)] c(3)
    by (simp add: dashes_check_def example_check_def given_def truthy_def plain_join dashes_fold
        dec_eq_def dec_scaled_def)
  with c(1) show ?thesis by blast
qed

text \<open>A Chilean tax number ends in a verifier, a digit or \<open>K\<close>, computed modulo 11. Comparing only the
  digits drops a \<open>K\<close> but keeps a digit, so two different valid numbers compare equal.\<close>

fun rut_sum :: "nat \<Rightarrow> nat \<Rightarrow> nat" where
  "rut_sum n m = (if n = 0 then 0 else n mod 10 * m + rut_sum (n div 10) (if m < 7 then m + 1 else 2))"

declare rut_sum.simps [simp del]

definition rut_verifier :: "nat \<Rightarrow> char" where
  "rut_verifier n = (let r = 11 - rut_sum n 2 mod 11
     in if r = 11 then CHR ''0'' else if r = 10 then CHR ''K'' else digit_char r)"

theorem distinct_tax_numbers_match:
  "rut_verifier 1000009 = CHR ''2'' \<and> rut_verifier 10000092 = CHR ''K''
   \<and> matches_delimited ''1.000.009-2'' ''10.000.092-K'' True"
proof (intro conjI)
  show "rut_verifier 1000009 = CHR ''2''" "rut_verifier 10000092 = CHR ''K''"
    by (simp_all add: rut_verifier_def rut_sum.simps digit_chars)
  show "matches_delimited ''1.000.009-2'' ''10.000.092-K'' True"
    by (simp add: matches_delimited_def digits_of_def is_digit_def individual_names_def strip_eval)
qed

text \<open>A customer with two stored accounts never earns account evidence: the stored list is compared as
  one number, although the other lists are compared name by name.\<close>

theorem listed_accounts_do_not_match:
  "digits_of ''222'' \<noteq> digits_of ''111 | 222'' \<and> matches_delimited ''222'' ''111 | 222'' True"
  by (simp add: matches_delimited_def digits_of_def is_digit_def individual_names_def strip_eval)

end
