(* ===== verification/Catalog.thy ===== *)
theory Catalog
  imports Values
begin

text \<open>
  The live metadata of the replica (\<open>replica/catalog.py\<close>) and the curated scope
  (\<open>replica/scope.py\<close>): identifier quoting, relations and foreign keys as loaded from the three
  catalogue queries, the primary-key predicate of a source record, and the walk along foreign keys
  from a source record to \<open>public.order\<close>.
\<close>

section \<open>Identifiers\<close>

definition quote_identifier :: "string \<Rightarrow> string" where
  "quote_identifier value =
     [CHR 0x22] @ concat (map (\<lambda>c. if c = CHR 0x22 then [CHR 0x22, CHR 0x22] else [c]) value) @ [CHR 0x22]"

fun read_quoted :: "string \<Rightarrow> (string \<times> string) option" where
  \<comment> \<open>the specification: how SQL reads the rest of a quoted identifier after its opening quote, as
    the identifier and the text that follows it\<close>
  "read_quoted [] = None"
| "read_quoted (c # cs) =
     (if c \<noteq> CHR 0x22 then map_option (apfst ((#) c)) (read_quoted cs)
      else case cs of
             d # ds \<Rightarrow> (if d = CHR 0x22 then map_option (apfst ((#) c)) (read_quoted ds) else Some ([], cs))
           | [] \<Rightarrow> Some ([], []))"

lemma read_quoted_body:
  assumes "\<And>r. rest \<noteq> CHR 0x22 # r"
  shows "read_quoted (concat (map (\<lambda>c. if c = CHR 0x22 then [CHR 0x22, CHR 0x22] else [c]) v)
           @ CHR 0x22 # rest) = Some (v, rest)"
proof (induction v)
  case Nil
  then show ?case using assms by (cases rest) auto
qed auto

text \<open>Quoting an identifier is lossless and safe: SQL reads back exactly the name that was quoted
  and then exactly the text that the program wrote after it, whatever quotes, spaces, comment marks
  or semicolons the name holds, as long as that text does not start with a quote itself.\<close>

theorem quoted_identifier_roundtrip:
  assumes "\<And>r. rest \<noteq> CHR 0x22 # r"
  shows "\<exists>body. quote_identifier name @ rest = CHR 0x22 # body \<and> read_quoted body = Some (name, rest)"
  using read_quoted_body [OF assms, of name] by (simp add: quote_identifier_def)

lemma quoted_identifier_roundtrip_witness:
  "\<exists>body. quote_identifier (''a'' @ [CHR 0x22] @ ''; DROP'') @ '' t0'' = CHR 0x22 # body
    \<and> read_quoted body = Some (''a'' @ [CHR 0x22] @ ''; DROP'', '' t0'')"
  by (rule quoted_identifier_roundtrip) simp

lemma quote_identifier_inject: "quote_identifier a = quote_identifier b \<longleftrightarrow> a = b"
proof -
  have "read_quoted (tl (quote_identifier v)) = Some (v, [])" for v
    using read_quoted_body [of "[]" v] by (simp add: quote_identifier_def)
  then show ?thesis by (metis option.inject prod.inject)
qed

type_synonym relation_name = "string \<times> string"

definition relation_key :: "string \<Rightarrow> relation_name" where
  \<comment> \<open>the schema before the first dot; \<open>public\<close> when there is none\<close>
  "relation_key name =
     (if CHR ''.'' \<in> set name
      then (takeWhile (\<lambda>c. c \<noteq> CHR ''.'') name, tl (dropWhile (\<lambda>c. c \<noteq> CHR ''.'') name))
      else (''public'', name))"

lemma relation_key_qualified:
  "CHR ''.'' \<notin> set schema \<Longrightarrow> relation_key (schema @ ''.'' @ name) = (schema, name)"
  by (induction schema) (auto simp: relation_key_def)

section \<open>The catalogue\<close>

record relation =
  rel_schema :: string
  rel_name :: string
  rel_kind :: string
  rel_description :: string
  rel_columns :: "(string \<times> string) list"
  rel_primary_key :: "string list"
  rel_writable :: bool

definition rel_key :: "relation \<Rightarrow> relation_name" where
  "rel_key r = (rel_schema r, rel_name r)"

definition rel_qualified :: "relation \<Rightarrow> string" where
  "rel_qualified r = rel_schema r @ ''.'' @ rel_name r"

definition rel_sql :: "relation \<Rightarrow> string" where
  "rel_sql r = quote_identifier (rel_schema r) @ ''.'' @ quote_identifier (rel_name r)"

record foreign_key =
  fk_identifier :: string
  fk_source :: relation_name
  fk_target :: relation_name
  fk_columns :: "string list"
  fk_target_columns :: "string list"

record live_catalog =
  cat_relations :: "(relation_name \<times> relation) list"
  cat_foreign_keys :: "(string \<times> foreign_key) list"

definition placeholder :: "nat \<Rightarrow> string" where
  "placeholder n = CHR ''$'' # show_nat n"

definition table_alias :: "nat \<Rightarrow> string" where
  "table_alias n = CHR ''t'' # show_nat n"

definition key_predicate :: "string list \<Rightarrow> string" where
  "key_predicate columns =
     str_join '' AND ''
       (map (\<lambda>(i, column). ''t0.'' @ quote_identifier column @ ''::text = '' @ placeholder i)
         (zip [1..<Suc (length columns)] columns))"

definition key_values :: "record_key list \<Rightarrow> (string \<times> string) list" where
  \<comment> \<open>\<open>{item.column: item.value for item in keys}\<close>\<close>
  "key_values keys = fold (\<lambda>k d. dict_put (rk_column k) (rk_value k) d) keys []"

definition record_predicate ::
  "live_catalog \<Rightarrow> source_record_query \<Rightarrow> exn_name + (relation \<times> string \<times> string list)" where
  "record_predicate cat request =
     (case map_of (cat_relations cat) (relation_key (sq_relation request)) of
        None \<Rightarrow> Inl ''ValueError''
      | Some r \<Rightarrow>
          (if rel_primary_key r = [] then Inl ''ValueError''
           else let given_values = key_values (sq_keys request) in
             if length given_values \<noteq> length (sq_keys request)
                \<or> set (map fst given_values) \<noteq> set (rel_primary_key r)
             then Inl ''ValueError''
             else Inr (r, key_predicate (rel_primary_key r),
                       map (\<lambda>c. the (map_of given_values c)) (rel_primary_key r))))"

definition join_conditions :: "nat \<Rightarrow> string list \<Rightarrow> string list \<Rightarrow> exn_name + string" where
  \<comment> \<open>\<open>zip(left, right, strict=True)\<close>\<close>
  "join_conditions index left right =
     (if length left \<noteq> length right then Inl ''ValueError''
      else Inr (str_join '' AND ''
        (map (\<lambda>(a, b). table_alias (index - 1) @ ''.'' @ quote_identifier a @ '' = ''
                @ table_alias index @ ''.'' @ quote_identifier b)
          (zip left right))))"

definition edge_from :: "relation \<Rightarrow> foreign_key \<Rightarrow> exn_name + (relation_name \<times> string list \<times> string list)" where
  "edge_from current fk =
     (if rel_key current = fk_source fk then Inr (fk_target fk, fk_columns fk, fk_target_columns fk)
      else if rel_key current = fk_target fk then Inr (fk_source fk, fk_target_columns fk, fk_columns fk)
      else Inl ''ValueError'')"

fun follow ::
  "live_catalog \<Rightarrow> nat \<Rightarrow> relation \<Rightarrow> relation_name list \<Rightarrow> string list
   \<Rightarrow> exn_name + (relation \<times> string list)" where
  \<comment> \<open>the loop over the path: the last relation and the joins\<close>
  "follow cat index current visited [] = Inr (current, [])"
| "follow cat index current visited (identifier # path) =
     (case map_of (cat_foreign_keys cat) identifier of
        None \<Rightarrow> Inl ''ValueError''
      | Some fk \<Rightarrow>
          bindE (edge_from current fk) (\<lambda>(target, left, right).
            if target \<in> set visited then Inl ''ValueError''
            else case map_of (cat_relations cat) target of
                   None \<Rightarrow> Inl ''ValueError''
                 | Some r \<Rightarrow>
                     bindE (join_conditions index left right) (\<lambda>conditions.
                       bindE (follow cat (Suc index) r (target # visited) path) (\<lambda>(last_one, joins).
                         Inr (last_one,
                              (''JOIN '' @ rel_sql r @ '' '' @ table_alias index @ '' ON '' @ conditions)
                              # joins)))))"

definition order_relation :: relation_name where
  "order_relation = (''public'', ''order'')"

definition source_query ::
  "live_catalog \<Rightarrow> source_record_query \<Rightarrow> string list \<Rightarrow> exn_name + (string \<times> string list \<times> relation)" where
  "source_query cat request path =
     bindE (record_predicate cat request) (\<lambda>(r, predicate, params).
       bindE (follow cat 1 r [rel_key r] path) (\<lambda>(current, joins).
         if rel_key current \<noteq> order_relation then Inl ''ValueError''
         else Inr (''SELECT DISTINCT '' @ table_alias (length path) @ ''.'' @ quote_identifier ''id''
                     @ '' AS order_id FROM '' @ rel_sql r @ '' t0 '' @ str_join '' '' joins
                     @ '' WHERE '' @ predicate @ '' LIMIT 2'',
                   params, r)))"

section \<open>Loading\<close>

text \<open>The rows of the three catalogue queries. A relation object is shared between the dict by name
  and the dict by object identifier, so the objects live in a list (the heap) and both dicts hold
  positions in it.\<close>

record relation_row =
  rr_oid :: int
  rr_schema :: string
  rr_name :: string
  rr_kind :: string
  rr_description :: string
  rr_writable :: bool

record column_row =
  cr_oid :: int
  cr_name :: string
  cr_type :: string

record constraint_row =
  kr_name :: string
  kr_type :: string
  kr_oid :: int
  kr_target_oid :: int
  kr_columns :: "string list"
  kr_target_columns :: "string list"

record loading =
  ld_heap :: "relation list"
  ld_names :: "(relation_name \<times> nat) list"
  ld_oids :: "(int \<times> nat) list"
  ld_keys :: "(string \<times> foreign_key) list"

definition load_relation :: "relation_row \<Rightarrow> loading \<Rightarrow> loading" where
  "load_relation row ld =
     (let r = \<lparr>rel_schema = rr_schema row, rel_name = rr_name row, rel_kind = rr_kind row,
               rel_description = rr_description row, rel_columns = [], rel_primary_key = [],
               rel_writable = rr_writable row\<rparr>;
          i = length (ld_heap ld)
      in ld\<lparr>ld_heap := ld_heap ld @ [r], ld_names := dict_put (rel_key r) i (ld_names ld),
            ld_oids := dict_put (rr_oid row) i (ld_oids ld)\<rparr>)"

definition load_column :: "column_row \<Rightarrow> loading \<Rightarrow> exn_name + loading" where
  "load_column row ld =
     (case map_of (ld_oids ld) (cr_oid row) of
        None \<Rightarrow> Inl ''KeyError''
      | Some i \<Rightarrow> Inr (ld\<lparr>ld_heap := (ld_heap ld)[i :=
          (ld_heap ld ! i)\<lparr>rel_columns := dict_put (cr_name row) (cr_type row) (rel_columns (ld_heap ld ! i))\<rparr>]\<rparr>))"

definition load_constraint :: "constraint_row \<Rightarrow> loading \<Rightarrow> exn_name + loading" where
  "load_constraint row ld =
     (case map_of (ld_oids ld) (kr_oid row) of
        None \<Rightarrow> Inl ''KeyError''
      | Some i \<Rightarrow>
          (if kr_type row = ''p''
           then Inr (ld\<lparr>ld_heap := (ld_heap ld)[i := (ld_heap ld ! i)\<lparr>rel_primary_key := kr_columns row\<rparr>]\<rparr>)
           else case map_of (ld_oids ld) (kr_target_oid row) of
                  None \<Rightarrow> Inr ld
                | Some j \<Rightarrow>
                    (let identifier = rel_qualified (ld_heap ld ! i) @ ''.'' @ kr_name row
                     in Inr (ld\<lparr>ld_keys := dict_put identifier
                          \<lparr>fk_identifier = identifier, fk_source = rel_key (ld_heap ld ! i),
                           fk_target = rel_key (ld_heap ld ! j), fk_columns = kr_columns row,
                           fk_target_columns = kr_target_columns row\<rparr> (ld_keys ld)\<rparr>))))"

fun foldE :: "('a \<Rightarrow> 's \<Rightarrow> exn_name + 's) \<Rightarrow> 'a list \<Rightarrow> 's \<Rightarrow> exn_name + 's" where
  "foldE f [] s = Inr s"
| "foldE f (x # xs) s = bindE (f x s) (foldE f xs)"

definition load_catalog ::
  "relation_row list \<Rightarrow> column_row list \<Rightarrow> constraint_row list \<Rightarrow> exn_name + live_catalog" where
  "load_catalog rows columns constraints =
     (let ld = fold load_relation rows \<lparr>ld_heap = [], ld_names = [], ld_oids = [], ld_keys = []\<rparr>
      in bindE (foldE load_column columns ld) (\<lambda>ld1.
         bindE (foldE load_constraint constraints ld1) (\<lambda>ld2.
           Inr \<lparr>cat_relations = map (\<lambda>(k, i). (k, ld_heap ld2 ! i)) (ld_names ld2),
                cat_foreign_keys = ld_keys ld2\<rparr>)))"

section \<open>What a loaded catalogue promises\<close>

definition catalog_ok :: "live_catalog \<Rightarrow> bool" where
  \<comment> \<open>relations stand under their own names, and foreign keys under their identifiers between
    relations of the catalogue\<close>
  "catalog_ok cat \<longleftrightarrow>
     distinct (map fst (cat_relations cat))
     \<and> (\<forall>(k, r) \<in> set (cat_relations cat). rel_key r = k)
     \<and> (\<forall>(i, fk) \<in> set (cat_foreign_keys cat). fk_identifier fk = i
          \<and> {fk_source fk, fk_target fk} \<subseteq> fst ` set (cat_relations cat))"

definition loading_ok :: "loading \<Rightarrow> bool" where
  "loading_ok ld \<longleftrightarrow>
     distinct (map fst (ld_names ld))
     \<and> (\<forall>k i. (k, i) \<in> set (ld_names ld) \<longrightarrow> i < length (ld_heap ld) \<and> rel_key (ld_heap ld ! i) = k)
     \<and> (\<forall>oid i. (oid, i) \<in> set (ld_oids ld) \<longrightarrow> i < length (ld_heap ld)
          \<and> rel_key (ld_heap ld ! i) \<in> fst ` set (ld_names ld))
     \<and> (\<forall>n fk. (n, fk) \<in> set (ld_keys ld) \<longrightarrow> fk_identifier fk = n
          \<and> {fk_source fk, fk_target fk} \<subseteq> fst ` set (ld_names ld))"

lemma loading_okI:
  assumes "distinct (map fst (ld_names ld))"
    "\<And>k i. (k, i) \<in> set (ld_names ld) \<Longrightarrow> i < length (ld_heap ld) \<and> rel_key (ld_heap ld ! i) = k"
    "\<And>oid i. (oid, i) \<in> set (ld_oids ld) \<Longrightarrow> i < length (ld_heap ld)
       \<and> rel_key (ld_heap ld ! i) \<in> fst ` set (ld_names ld)"
    "\<And>n fk. (n, fk) \<in> set (ld_keys ld) \<Longrightarrow> fk_identifier fk = n
       \<and> {fk_source fk, fk_target fk} \<subseteq> fst ` set (ld_names ld)"
  shows "loading_ok ld"
  using assms unfolding loading_ok_def by blast

lemma loading_okD:
  assumes "loading_ok ld"
  shows "distinct (map fst (ld_names ld))"
    "(k, i) \<in> set (ld_names ld) \<Longrightarrow> i < length (ld_heap ld) \<and> rel_key (ld_heap ld ! i) = k"
    "(oid, i) \<in> set (ld_oids ld) \<Longrightarrow> i < length (ld_heap ld)
       \<and> rel_key (ld_heap ld ! i) \<in> fst ` set (ld_names ld)"
    "(n, fk) \<in> set (ld_keys ld) \<Longrightarrow> fk_identifier fk = n
       \<and> {fk_source fk, fk_target fk} \<subseteq> fst ` set (ld_names ld)"
  using assms unfolding loading_ok_def by blast+

lemma fst_dict_put: "fst ` set (dict_put k v d) = insert k (fst ` set d)"
  using keys_dict_put [of k v d] by simp

lemma loading_ok_heap:
  assumes "loading_ok ld" "\<And>r. rel_key (f r) = rel_key r"
  shows "loading_ok (ld\<lparr>ld_heap := (ld_heap ld)[i := f (ld_heap ld ! i)]\<rparr>)"
proof -
  have key: "rel_key ((ld_heap ld)[i := f (ld_heap ld ! i)] ! j) = rel_key (ld_heap ld ! j)"
    if "j < length (ld_heap ld)" for j
    using that assms(2) by (cases "i = j") auto
  note old = loading_okD [OF assms(1)]
  show ?thesis
  proof (rule loading_okI)
    fix k j assume "(k, j) \<in> set (ld_names (ld\<lparr>ld_heap := (ld_heap ld)[i := f (ld_heap ld ! i)]\<rparr>))"
    then have "j < length (ld_heap ld)" "rel_key (ld_heap ld ! j) = k" using old(2) [of k j] by simp_all
    then show "j < length (ld_heap (ld\<lparr>ld_heap := (ld_heap ld)[i := f (ld_heap ld ! i)]\<rparr>)) \<and>
        rel_key (ld_heap (ld\<lparr>ld_heap := (ld_heap ld)[i := f (ld_heap ld ! i)]\<rparr>) ! j) = k"
      by (simp add: key)
  next
    fix oid j assume "(oid, j) \<in> set (ld_oids (ld\<lparr>ld_heap := (ld_heap ld)[i := f (ld_heap ld ! i)]\<rparr>))"
    then have "j < length (ld_heap ld)" "rel_key (ld_heap ld ! j) \<in> fst ` set (ld_names ld)"
      using old(3) [of oid j] by simp_all
    then show "j < length (ld_heap (ld\<lparr>ld_heap := (ld_heap ld)[i := f (ld_heap ld ! i)]\<rparr>)) \<and>
        rel_key (ld_heap (ld\<lparr>ld_heap := (ld_heap ld)[i := f (ld_heap ld ! i)]\<rparr>) ! j)
          \<in> fst ` set (ld_names (ld\<lparr>ld_heap := (ld_heap ld)[i := f (ld_heap ld ! i)]\<rparr>))"
      by (simp add: key)
  qed (use old in auto)
qed

lemma load_relation_ok: "loading_ok ld \<Longrightarrow> loading_ok (load_relation row ld)"
proof -
  assume ok: "loading_ok ld"
  define r where "r = \<lparr>rel_schema = rr_schema row, rel_name = rr_name row, rel_kind = rr_kind row,
    rel_description = rr_description row, rel_columns = [], rel_primary_key = [],
    rel_writable = rr_writable row\<rparr>"
  define n where "n = length (ld_heap ld)"
  have eq: "load_relation row ld = ld\<lparr>ld_heap := ld_heap ld @ [r],
      ld_names := dict_put (rel_key r) n (ld_names ld), ld_oids := dict_put (rr_oid row) n (ld_oids ld)\<rparr>"
    by (simp add: load_relation_def r_def n_def Let_def)
  have old: "(ld_heap ld @ [r]) ! j = ld_heap ld ! j" if "j < n" for j
    using that by (simp add: n_def nth_append)
  have new: "(ld_heap ld @ [r]) ! n = r" by (simp add: n_def)
  note ok = loading_okD [OF ok]
  show ?thesis
  proof (rule loading_okI)
    show "distinct (map fst (ld_names (load_relation row ld)))"
      using ok(1) by (simp add: eq distinct_dict_put)
  next
    fix k i assume "(k, i) \<in> set (ld_names (load_relation row ld))"
    then consider "k = rel_key r" "i = n" | "(k, i) \<in> set (ld_names ld)"
      using set_dict_put [of "rel_key r" n "ld_names ld"] by (auto simp: eq)
    then show "i < length (ld_heap (load_relation row ld)) \<and> rel_key (ld_heap (load_relation row ld) ! i) = k"
      using ok(2) [of k i] old [of i] new by cases (simp_all add: eq n_def)
  next
    fix oid i assume "(oid, i) \<in> set (ld_oids (load_relation row ld))"
    then consider "oid = rr_oid row" "i = n" | "(oid, i) \<in> set (ld_oids ld)"
      using set_dict_put [of "rr_oid row" n "ld_oids ld"] by (auto simp: eq)
    then show "i < length (ld_heap (load_relation row ld))
        \<and> rel_key (ld_heap (load_relation row ld) ! i) \<in> fst ` set (ld_names (load_relation row ld))"
      using ok(3) [of oid i] old [of i] new by cases (simp_all add: eq n_def fst_dict_put)
  next
    fix m fk assume "(m, fk) \<in> set (ld_keys (load_relation row ld))"
    then show "fk_identifier fk = m
        \<and> {fk_source fk, fk_target fk} \<subseteq> fst ` set (ld_names (load_relation row ld))"
      using ok(4) [of m fk] by (auto simp: eq fst_dict_put)
  qed
qed

lemma load_column_ok:
  "load_column row ld = Inr ld' \<Longrightarrow> loading_ok ld \<Longrightarrow> loading_ok ld'"
  unfolding load_column_def
  by (auto split: option.splits intro!: loading_ok_heap simp: rel_key_def)

lemma load_constraint_ok:
  assumes "load_constraint row ld = Inr ld'" "loading_ok ld"
  shows "loading_ok ld'"
proof -
  obtain i where i: "map_of (ld_oids ld) (kr_oid row) = Some i"
    using assms(1) by (auto simp: load_constraint_def split: option.splits)
  show ?thesis
  proof (cases "kr_type row = ''p''")
    case True
    with i assms show ?thesis
      by (auto simp: load_constraint_def rel_key_def intro!: loading_ok_heap)
  next
    case False
    show ?thesis
    proof (cases "map_of (ld_oids ld) (kr_target_oid row)")
      case None
      with False i assms show ?thesis by (auto simp: load_constraint_def)
    next
      case (Some j)
      define n where "n = rel_qualified (ld_heap ld ! i) @ ''.'' @ kr_name row"
      define fk where "fk = \<lparr>fk_identifier = n, fk_source = rel_key (ld_heap ld ! i),
         fk_target = rel_key (ld_heap ld ! j), fk_columns = kr_columns row,
         fk_target_columns = kr_target_columns row\<rparr>"
      have ld': "ld' = ld\<lparr>ld_keys := dict_put n fk (ld_keys ld)\<rparr>"
        using False i Some assms(1) by (simp add: load_constraint_def n_def fk_def Let_def)
      note ok = loading_okD [OF assms(2)]
      have "(kr_oid row, i) \<in> set (ld_oids ld)" "(kr_target_oid row, j) \<in> set (ld_oids ld)"
        using i Some by (simp_all add: map_of_SomeD)
      then have fk: "{fk_source fk, fk_target fk} \<subseteq> fst ` set (ld_names ld)" "fk_identifier fk = n"
        using ok(3) by (simp_all add: fk_def)
      show ?thesis
      proof (rule loading_okI)
        fix m k assume "(m, k) \<in> set (ld_keys ld')"
        then consider "m = n" "k = fk" | "(m, k) \<in> set (ld_keys ld)"
          using set_dict_put [of n fk "ld_keys ld"] by (auto simp: ld')
        then show "fk_identifier k = m \<and> {fk_source k, fk_target k} \<subseteq> fst ` set (ld_names ld')"
          using fk ok(4) [of m k] by cases (simp_all add: ld')
      qed (use ok in \<open>auto simp: ld'\<close>)
    qed
  qed
qed

lemma foldE_invariant:
  assumes "foldE f xs s = Inr s'" "P s" "\<And>x s s'. f x s = Inr s' \<Longrightarrow> P s \<Longrightarrow> P s'"
  shows "P s'"
  using assms(1,2)
proof (induction xs arbitrary: s)
  case (Cons x xs)
  then obtain t where "f x s = Inr t" "foldE f xs t = Inr s'" by auto
  with Cons assms(3) show ?case by blast
qed auto

text \<open>Whatever rows the three catalogue queries return, a catalogue that loads is closed: every
  relation stands under its own qualified name, once, and every foreign key stands under its own
  identifier and joins two relations of the catalogue, so a walk along the keys never leaves what
  the role may read.\<close>

theorem loaded_catalog_is_closed:
  assumes "load_catalog rows columns constraints = Inr cat"
  shows "catalog_ok cat"
proof -
  define empty where "empty = \<lparr>ld_heap = [], ld_names = [], ld_oids = [], ld_keys = []\<rparr>"
  have "loading_ok (fold load_relation rows s)" if "loading_ok s" for s
    using that by (induction rows arbitrary: s) (auto simp: load_relation_ok)
  moreover have "loading_ok empty" by (simp add: empty_def loading_ok_def)
  ultimately have 0: "loading_ok (fold load_relation rows empty)" by blast
  obtain ld1 ld2 where ld: "foldE load_column columns (fold load_relation rows empty) = Inr ld1"
    "foldE load_constraint constraints ld1 = Inr ld2"
    "cat = \<lparr>cat_relations = map (\<lambda>(k, i). (k, ld_heap ld2 ! i)) (ld_names ld2),
            cat_foreign_keys = ld_keys ld2\<rparr>"
    using assms by (auto simp: load_catalog_def empty_def Let_def)
  have "loading_ok ld1" by (rule foldE_invariant [where P = loading_ok, OF ld(1) 0]) (rule load_column_ok)
  then have ok: "loading_ok ld2" by (rule foldE_invariant [where P = loading_ok, OF ld(2)]) (rule load_constraint_ok)
  note ok = loading_okD [OF ok]
  have names: "map fst (cat_relations cat) = map fst (ld_names ld2)"
    by (simp add: ld(3) case_prod_unfold comp_def)
  then have keys: "fst ` set (cat_relations cat) = fst ` set (ld_names ld2)" by (metis list.set_map)
  have "distinct (map fst (cat_relations cat))" unfolding names by (rule ok(1))
  moreover have "\<forall>(k, r) \<in> set (cat_relations cat). rel_key r = k"
    using ok(2) by (auto simp: ld(3))
  moreover have "\<forall>(i, fk) \<in> set (cat_foreign_keys cat). fk_identifier fk = i
      \<and> {fk_source fk, fk_target fk} \<subseteq> fst ` set (cat_relations cat)"
    unfolding keys using ok(4) by (simp add: ld(3)) blast
  ultimately show ?thesis unfolding catalog_ok_def by blast
qed

section \<open>Walks along foreign keys\<close>

text \<open>The specification: an edge of the undirected graph of declared foreign keys, and a walk with the
  list of relations it visits.\<close>

definition links :: "live_catalog \<Rightarrow> relation_name \<Rightarrow> string \<Rightarrow> relation_name \<Rightarrow> bool" where
  "links cat k identifier k' \<longleftrightarrow>
     k' \<in> fst ` set (cat_relations cat) \<and>
     (\<exists>fk. map_of (cat_foreign_keys cat) identifier = Some fk
        \<and> {k, k'} = {fk_source fk, fk_target fk}
        \<and> length (fk_columns fk) = length (fk_target_columns fk))"

inductive fk_walk :: "live_catalog \<Rightarrow> relation_name \<Rightarrow> string list \<Rightarrow> relation_name list \<Rightarrow> bool" where
  walk_here: "fk_walk cat k [] [k]"
| walk_on: "links cat k i k' \<Longrightarrow> fk_walk cat k' p ks \<Longrightarrow> fk_walk cat k (i # p) (k # ks)"

inductive_cases fk_walk_NilE: "fk_walk cat k [] ks"
inductive_cases fk_walk_ConsE: "fk_walk cat k (i # p) ks"

lemma fk_walk_hd: "fk_walk cat k p ks \<Longrightarrow> ks \<noteq> [] \<and> hd ks = k \<and> length ks = Suc (length p)"
  by (induction rule: fk_walk.induct) auto

lemma catalog_lookup:
  assumes "catalog_ok cat"
  shows "map_of (cat_relations cat) k = Some r \<Longrightarrow> rel_key r = k"
    "k \<in> fst ` set (cat_relations cat) \<Longrightarrow> \<exists>r. map_of (cat_relations cat) k = Some r"
  using assms by (auto simp: catalog_ok_def dest!: map_of_SomeD)

lemma edge_from_links:
  assumes "edge_from cur fk = Inr (target, left, right)" "map_of (cat_foreign_keys cat) i = Some fk"
    "target \<in> fst ` set (cat_relations cat)" "length left = length right"
  shows "links cat (rel_key cur) i target"
  using assms unfolding links_def edge_from_def by (auto split: if_split_asm)

lemma links_edge_from:
  assumes "links cat (rel_key cur) i k'" "k' \<noteq> rel_key cur"
  shows "\<exists>fk left right. map_of (cat_foreign_keys cat) i = Some fk \<and>
    edge_from cur fk = Inr (k', left, right) \<and> length left = length right"
  using assms unfolding links_def edge_from_def by (auto simp: doubleton_eq_iff)

lemma follow_is_walk:
  assumes "catalog_ok cat"
  shows "follow cat i cur visited path = Inr (final, joins) \<Longrightarrow>
    \<exists>ks. fk_walk cat (rel_key cur) path (rel_key cur # ks) \<and> distinct ks \<and> set ks \<inter> set visited = {}
      \<and> last (rel_key cur # ks) = rel_key final \<and> length joins = length path"
proof (induction path arbitrary: i cur visited joins)
  case Nil
  then have "rel_key cur = rel_key final" "joins = []" by simp_all
  then show ?case using walk_here [of cat "rel_key cur"] by (intro exI [of _ "[]"]) simp
next
  case (Cons ident path)
  from Cons.prems obtain fk where fk: "map_of (cat_foreign_keys cat) ident = Some fk"
    by (auto split: option.splits)
  with Cons.prems obtain target left right where e: "edge_from cur fk = Inr (target, left, right)"
    and new: "target \<notin> set visited"
    by (auto split: if_split_asm)
  with Cons.prems fk obtain r where r: "map_of (cat_relations cat) target = Some r"
    by (auto split: option.splits)
  from Cons.prems fk e new r obtain conditions js where
    j: "join_conditions i left right = Inr conditions"
      "follow cat (Suc i) r (target # visited) path = Inr (final, js)" "length joins = Suc (length js)"
    by auto
  have len: "length left = length right" using j(1) by (simp add: join_conditions_def split: if_split_asm)
  have key: "rel_key r = target" by (rule catalog_lookup(1) [OF assms r])
  obtain ks where ks: "fk_walk cat (rel_key r) path (rel_key r # ks)" "distinct ks"
    "set ks \<inter> set (target # visited) = {}" "last (rel_key r # ks) = rel_key final" "length js = length path"
    using Cons.IH [OF j(2)] by blast
  have "target \<in> fst ` set (cat_relations cat)"
    using r by (metis fst_conv image_eqI map_of_SomeD)
  then have "links cat (rel_key cur) ident target" by (rule edge_from_links [OF e fk _ len])
  then have "fk_walk cat (rel_key cur) (ident # path) (rel_key cur # target # ks)"
    using ks(1) by (auto simp: key intro: walk_on)
  then show ?case
    using ks new j(3) by (intro exI [of _ "target # ks"]) (auto simp: key)
qed

lemma walk_is_followed:
  assumes "catalog_ok cat"
  shows "fk_walk cat (rel_key cur) path (rel_key cur # ks) \<Longrightarrow> distinct ks \<Longrightarrow>
    set ks \<inter> set visited = {} \<Longrightarrow> rel_key cur \<in> set visited \<Longrightarrow>
    \<exists>final joins. follow cat i cur visited path = Inr (final, joins)
      \<and> rel_key final = last (rel_key cur # ks)"
proof (induction path arbitrary: i cur visited ks)
  case Nil
  then have "ks = []" by (auto elim: fk_walk_NilE)
  then show ?case by simp
next
  case (Cons ident path)
  from Cons.prems(1) obtain k' where k': "links cat (rel_key cur) ident k'" "fk_walk cat k' path ks"
    by (auto elim: fk_walk_ConsE)
  obtain ks' where ks: "ks = k' # ks'" using fk_walk_hd [OF k'(2)] by (cases ks) auto
  have new: "k' \<notin> set visited" "k' \<noteq> rel_key cur" using Cons.prems(3,4) ks by auto
  obtain fk left right where e: "map_of (cat_foreign_keys cat) ident = Some fk"
    "edge_from cur fk = Inr (k', left, right)" "length left = length right"
    using links_edge_from [OF k'(1) new(2)] by blast
  obtain r where r: "map_of (cat_relations cat) k' = Some r"
    using k'(1) catalog_lookup(2) [OF assms, of k'] unfolding links_def by blast
  have key: "rel_key r = k'" by (rule catalog_lookup(1) [OF assms r])
  have "\<exists>final joins. follow cat (Suc i) r (k' # visited) path = Inr (final, joins)
      \<and> rel_key final = last (rel_key r # ks')"
    using Cons.prems(2,3) k'(2) ks by (intro Cons.IH) (auto simp: key)
  then obtain final joins where
    f: "follow cat (Suc i) r (k' # visited) path = Inr (final, joins)" "rel_key final = last (rel_key r # ks')"
    by blast
  obtain cond where "join_conditions i left right = Inr cond" using e(3) by (simp add: join_conditions_def)
  then show ?case using e r new f key ks by simp
qed

text \<open>C0: A source link is accepted exactly when it is evidence: the record names a readable relation
  with its complete primary key, and the proposed identifiers are a walk along declared foreign keys,
  in either direction, through readable relations, never visiting one twice, from the record's
  relation to \<open>public.order\<close>. Nothing else passes, and every such walk passes.\<close>

theorem source_link_accepted_iff_walk:
  assumes "catalog_ok cat"
  shows "(\<exists>query params. source_query cat request path = Inr (query, params, r)) \<longleftrightarrow>
    (\<exists>predicate params. record_predicate cat request = Inr (r, predicate, params)) \<and>
    (\<exists>ks. fk_walk cat (rel_key r) path ks \<and> distinct ks \<and> last ks = order_relation)"
    (is "?lhs \<longleftrightarrow> ?rhs")
proof
  assume ?lhs
  then obtain predicate params final joins where
    "record_predicate cat request = Inr (r, predicate, params)"
    "follow cat 1 r [rel_key r] path = Inr (final, joins)" "rel_key final = order_relation"
    by (auto simp: source_query_def split: if_split_asm)
  then show ?rhs
    using follow_is_walk [OF assms, of 1 r "[rel_key r]" path final joins] by fastforce
next
  assume ?rhs
  then obtain predicate params ks where p: "record_predicate cat request = Inr (r, predicate, params)"
    and ks: "fk_walk cat (rel_key r) path ks" "distinct ks" "last ks = order_relation"
    by blast
  obtain ks' where ks': "ks = rel_key r # ks'" using fk_walk_hd [OF ks(1)] by (cases ks) auto
  obtain final joins where "follow cat 1 r [rel_key r] path = Inr (final, joins)"
    "rel_key final = order_relation"
    using walk_is_followed [OF assms, of r path ks' "[rel_key r]" 1] ks ks' by auto
  with p show ?lhs by (simp add: source_query_def)
qed

lemma key_values_dom: "fst ` set (fold (\<lambda>k d. dict_put (rk_column k) (rk_value k) d) keys d)
    = rk_column ` set keys \<union> fst ` set d"
  by (induction keys arbitrary: d) (auto simp: fst_dict_put)

lemma key_values_columns: "map rk_column keys = map rk_column keys' \<Longrightarrow>
  length (key_values keys) = length (key_values keys') \<and>
  set (map fst (key_values keys)) = set (map fst (key_values keys'))"
proof -
  assume eq: "map rk_column keys = map rk_column keys'"
  have d: "distinct (map fst (fold (\<lambda>k d. dict_put (rk_column k) (rk_value k) d) ks d))"
    if "distinct (map fst d)" for ks and d :: "(string \<times> string) list"
    using that by (induction ks arbitrary: d) (auto simp: distinct_dict_put)
  have "set (map fst (key_values ks)) = set (map rk_column ks)" for ks
    using key_values_dom [of ks "[]"] by (simp add: key_values_def)
  then have s: "set (map fst (key_values keys)) = set (map fst (key_values keys'))"
    using eq by (simp only:)
  have "distinct (map fst (key_values ks))" for ks
    using d [of "[]" ks] by (simp add: key_values_def)
  then have "card (set (map fst (key_values ks))) = length (key_values ks)" for ks
    using distinct_card [of "map fst (key_values ks)"] by simp
  then have "length (key_values keys) = length (key_values keys')"
    using s by metis
  with s show ?thesis by blast
qed

text \<open>The values of a source record never enter SQL text: two requests for the same relation with
  the same key columns, whatever their values, are accepted alike and give the same query text; the
  values travel only as parameters, one for each column of the primary key and in its order.\<close>

theorem record_values_stay_parameters:
  assumes "source_query cat request path = Inr (query, params, r)"
    "sq_relation request' = sq_relation request"
    "map rk_column (sq_keys request') = map rk_column (sq_keys request)"
  shows "\<exists>params'. source_query cat request' path = Inr (query, params', r)
    \<and> length params' = length (rel_primary_key r)"
proof -
  obtain predicate where p: "record_predicate cat request = Inr (r, predicate, params)"
    using assms(1) by (auto simp: source_query_def split: if_split_asm)
  note kv = key_values_columns [OF assms(3)]
  have len: "length (sq_keys request') = length (sq_keys request)"
    using assms(3) by (metis length_map)
  obtain params' where p': "record_predicate cat request' = Inr (r, predicate, params')"
    "length params' = length (rel_primary_key r)"
    using p kv len by (auto simp: record_predicate_def assms(2) Let_def split: option.splits if_split_asm)
  show ?thesis
    using assms(1) p p' by (auto simp: source_query_def split: if_split_asm)
qed

section \<open>An example\<close>

definition example_relations :: "relation_row list" where
  "example_relations =
     [\<lparr>rr_oid = 1, rr_schema = ''ops'', rr_name = ''payer'', rr_kind = ''r'', rr_description = [], rr_writable = False\<rparr>,
      \<lparr>rr_oid = 2, rr_schema = ''public'', rr_name = ''order'', rr_kind = ''r'', rr_description = [], rr_writable = False\<rparr>]"

definition example_constraints :: "constraint_row list" where
  "example_constraints =
     [\<lparr>kr_name = ''payer_pk'', kr_type = ''p'', kr_oid = 1, kr_target_oid = 0, kr_columns = [''id''],
       kr_target_columns = []\<rparr>,
      \<lparr>kr_name = ''payer_order_fk'', kr_type = ''f'', kr_oid = 1, kr_target_oid = 2, kr_columns = [''orderId''],
       kr_target_columns = [''id'']\<rparr>]"

definition example_catalog :: live_catalog where
  "example_catalog = (case load_catalog example_relations
     [\<lparr>cr_oid = 1, cr_name = ''id'', cr_type = ''text''\<rparr>, \<lparr>cr_oid = 1, cr_name = ''fullName'', cr_type = ''text''\<rparr>,
      \<lparr>cr_oid = 2, cr_name = ''id'', cr_type = ''uuid''\<rparr>] example_constraints of
     Inr cat \<Rightarrow> cat | Inl e \<Rightarrow> \<lparr>cat_relations = [], cat_foreign_keys = []\<rparr>)"

definition example_record :: "string \<Rightarrow> source_record_query" where
  "example_record v = \<lparr>sq_relation = ''ops.payer'', sq_keys = [\<lparr>rk_column = ''id'', rk_value = v\<rparr>]\<rparr>"

lemma example_catalog_loads:
  "load_catalog example_relations
     [\<lparr>cr_oid = 1, cr_name = ''id'', cr_type = ''text''\<rparr>, \<lparr>cr_oid = 1, cr_name = ''fullName'', cr_type = ''text''\<rparr>,
      \<lparr>cr_oid = 2, cr_name = ''id'', cr_type = ''uuid''\<rparr>] example_constraints = Inr example_catalog"
  by (simp add: load_catalog_def example_catalog_def example_relations_def example_constraints_def
      load_relation_def load_column_def load_constraint_def rel_key_def rel_qualified_def Let_def)

lemma loaded_catalog_is_closed_witness: "catalog_ok example_catalog"
  by (rule loaded_catalog_is_closed [OF example_catalog_loads])

lemma example_catalog_eq:
  "example_catalog =
    \<lparr>cat_relations =
       [((''ops'', ''payer''), \<lparr>rel_schema = ''ops'', rel_name = ''payer'', rel_kind = ''r'', rel_description = [],
          rel_columns = [(''id'', ''text''), (''fullName'', ''text'')], rel_primary_key = [''id''], rel_writable = False\<rparr>),
        ((''public'', ''order''), \<lparr>rel_schema = ''public'', rel_name = ''order'', rel_kind = ''r'', rel_description = [],
          rel_columns = [(''id'', ''uuid'')], rel_primary_key = [], rel_writable = False\<rparr>)],
     cat_foreign_keys =
       [(''ops.payer.payer_order_fk'', \<lparr>fk_identifier = ''ops.payer.payer_order_fk'', fk_source = (''ops'', ''payer''),
          fk_target = (''public'', ''order''), fk_columns = [''orderId''], fk_target_columns = [''id'']\<rparr>)]\<rparr>"
  by (simp add: load_catalog_def example_catalog_def example_relations_def example_constraints_def
      load_relation_def load_column_def load_constraint_def rel_key_def rel_qualified_def Let_def)

lemma example_source_query:
  "\<exists>query r. source_query example_catalog (example_record v) [''ops.payer.payer_order_fk'']
     = Inr (query, [v], r) \<and> rel_key r = (''ops'', ''payer'')"
  by (simp add: source_query_def record_predicate_def example_catalog_eq example_record_def relation_key_def
      key_values_def rel_key_def edge_from_def join_conditions_def order_relation_def)

lemma source_link_accepted_iff_walk_witness:
  "\<exists>ks. fk_walk example_catalog (''ops'', ''payer'') [''ops.payer.payer_order_fk''] ks
     \<and> distinct ks \<and> last ks = order_relation"
proof -
  have ok: "catalog_ok example_catalog"
    by (simp add: catalog_ok_def example_catalog_eq rel_key_def)
  show ?thesis
    using source_link_accepted_iff_walk [OF ok] example_source_query [of "''x''"] by metis
qed

lemma record_values_stay_parameters_witness:
  "\<exists>query r params'. source_query example_catalog (example_record ''17'') [''ops.payer.payer_order_fk'']
     = Inr (query, [''17''], r) \<and>
   source_query example_catalog (example_record (''17 OR 1=1 --'')) [''ops.payer.payer_order_fk'']
     = Inr (query, params', r)"
proof -
  obtain query r where q: "source_query example_catalog (example_record ''17'') [''ops.payer.payer_order_fk'']
     = Inr (query, [''17''], r)"
    using example_source_query [of "''17''"] by blast
  show ?thesis
    using record_values_stay_parameters [OF q, of "example_record ''17 OR 1=1 --''"] q
    by (auto simp: example_record_def)
qed

end
