(* ===== verification/Scope.thy ===== *)
theory Scope
  imports Catalog
begin

text \<open>
  The curated scope of the replica tools (\<open>replica/scope.py\<close>): the limits, the suggested relations and
  the schema catalogue with the checks pydantic makes when they are built, and the bundle of both.
  Reading the two YAML files is outside the model; the parsed values are the arguments here.
\<close>

record relation_scope =
  rs_name :: string
  rs_reason :: string

record query_limits =
  ql_statement_timeout_seconds :: int
  ql_max_rows :: int
  ql_max_connections :: int
  ql_max_output_bytes :: int
  ql_max_query_characters :: int
  ql_statements :: "string list"
  ql_vambe_default_days :: int
  ql_vambe_max_days :: int
  ql_vambe_max_messages :: int
  ql_schema_descriptions_per_call :: int
  ql_safe_functions :: "string list"
  ql_forbid :: "string list"

definition query_limits_ok :: "query_limits \<Rightarrow> bool" where
  "query_limits_ok q \<longleftrightarrow>
     within 1 60 (ql_statement_timeout_seconds q)
     \<and> within 1 1000 (ql_max_rows q)
     \<and> within 1 10 (ql_max_connections q)
     \<and> within 4096 262144 (ql_max_output_bytes q)
     \<and> within 100 50000 (ql_max_query_characters q)
     \<and> within 1 90 (ql_vambe_default_days q)
     \<and> within 1 365 (ql_vambe_max_days q)
     \<and> within 1 200 (ql_vambe_max_messages q)
     \<and> within 1 20 (ql_schema_descriptions_per_call q)"

record data_scope =
  sc_version :: int
  sc_schema_version :: int
  sc_candidate_defaults :: "(string \<times> json) list"
  sc_relations :: "relation_scope list"
  sc_bank_account_policy :: "(string \<times> json) list"
  sc_explicitly_unavailable :: "(string \<times> string) list list"
  sc_query_limits :: query_limits

definition build_data_scope :: "data_scope \<Rightarrow> exn_name + data_scope" where
  "build_data_scope s = (if query_limits_ok (sc_query_limits s) then Inr s else Inl ''ValidationError'')"

definition relation_names :: "data_scope \<Rightarrow> string list" where
  "relation_names s = fromkeys (map rs_name (sc_relations s))"

record relation_schema =
  sm_description :: string
  sm_columns :: "(string \<times> string) list"
  sm_gotchas :: "string list"

record schema_catalog =
  sm_version :: int
  sm_source :: string
  sm_relations :: "(string \<times> relation_schema) list"

definition nonempty :: "schema_catalog \<Rightarrow> exn_name + schema_catalog" where
  "nonempty c = (if sm_relations c = [] then Inl ''ValidationError'' else Inr c)"

record knowledge_bundle =
  kb_scope :: data_scope
  kb_catalog :: schema_catalog

definition versions_and_relations_match :: "knowledge_bundle \<Rightarrow> exn_name + knowledge_bundle" where
  "versions_and_relations_match k =
     (if sc_schema_version (kb_scope k) \<noteq> sm_version (kb_catalog k) then Inl ''ValidationError''
      else if filter (\<lambda>n. n \<notin> fst ` set (sm_relations (kb_catalog k))) (relation_names (kb_scope k)) \<noteq> []
      then Inl ''ValidationError''
      else Inr k)"

definition load_knowledge :: "data_scope \<Rightarrow> schema_catalog \<Rightarrow> exn_name + knowledge_bundle" where
  \<comment> \<open>of the two parsed files\<close>
  "load_knowledge scope_data catalog_data =
     bindE (build_data_scope scope_data) (\<lambda>s.
     bindE (nonempty catalog_data) (\<lambda>c.
       versions_and_relations_match \<lparr>kb_scope = s, kb_catalog = c\<rparr>))"

lemma load_knowledge_ok:
  assumes "load_knowledge s c = Inr k"
  shows "query_limits_ok (sc_query_limits (kb_scope k)) \<and> sm_relations (kb_catalog k) \<noteq> []
    \<and> set (relation_names (kb_scope k)) \<subseteq> fst ` set (sm_relations (kb_catalog k))"
  using assms
  by (auto simp: load_knowledge_def build_data_scope_def nonempty_def versions_and_relations_match_def
      filter_empty_conv split: if_split_asm)

section \<open>An example\<close>

definition example_limits :: query_limits where
  "example_limits = \<lparr>ql_statement_timeout_seconds = 15, ql_max_rows = 100, ql_max_connections = 4,
     ql_max_output_bytes = 65536, ql_max_query_characters = 10000, ql_statements = [''SELECT''],
     ql_vambe_default_days = 30, ql_vambe_max_days = 180, ql_vambe_max_messages = 50,
     ql_schema_descriptions_per_call = 8, ql_safe_functions = [''COUNT'', ''SUM''], ql_forbid = []\<rparr>"

definition example_scope :: data_scope where
  "example_scope = \<lparr>sc_version = 1, sc_schema_version = 1, sc_candidate_defaults = [],
     sc_relations = [\<lparr>rs_name = ''sale'', rs_reason = []\<rparr>], sc_bank_account_policy = [],
     sc_explicitly_unavailable = [], sc_query_limits = example_limits\<rparr>"

end
