(* ===== verification/Urls.thy ===== *)
theory Urls
  imports Values
begin

text \<open>
  Python's \<open>urlsplit\<close> as the program uses it: the scheme, the network location with its user,
  password, host and port, and the query, and one parameter of a query (\<open>parse_qs\<close>). Used by the
  checks on the replica's DSN and on the addresses Slack files are fetched from.
\<close>

record split_url =
  su_scheme :: string
  su_netloc :: string
  su_rest :: string   \<comment> \<open>path, query and fragment\<close>

definition scheme_char :: "char \<Rightarrow> bool" where
  "scheme_char c \<longleftrightarrow> ascii_digit c \<or> (97 \<le> code c \<and> code c \<le> 122) \<or> (65 \<le> code c \<and> code c \<le> 90)
     \<or> c \<in> set ''+-.''"

definition ascii_alpha :: "char \<Rightarrow> bool" where
  "ascii_alpha c \<longleftrightarrow> (97 \<le> code c \<and> code c \<le> 122) \<or> (65 \<le> code c \<and> code c \<le> 90)"

definition clean_url :: "string \<Rightarrow> string" where
  \<comment> \<open>leading control characters and blanks, and tabs and line breaks anywhere, are dropped\<close>
  "clean_url url = filter (\<lambda>c. code c \<notin> {9, 10, 13}) (dropWhile (\<lambda>c. code c \<le> 32) url)"

definition split_scheme :: "string \<Rightarrow> string \<times> string" where
  "split_scheme url =
     (let head = takeWhile (\<lambda>c. c \<noteq> CHR '':'') url
      in if head \<noteq> [] \<and> length head < length url \<and> ascii_alpha (hd head) \<and> list_all scheme_char head
         then (str_lower head, drop (Suc (length head)) url)
         else ('''', url))"

definition urlsplit :: "string \<Rightarrow> exn_name + split_url" where
  "urlsplit url =
     (case split_scheme (clean_url url) of (scheme, rest) \<Rightarrow>
        if take 2 rest = ''//''
        then (let netloc = takeWhile (\<lambda>c. c \<notin> set ''/?#'') (drop 2 rest)
              in if (CHR ''['' \<in> set netloc) \<noteq> (CHR '']'' \<in> set netloc) then Inl ''ValueError''
                 else Inr \<lparr>su_scheme = scheme, su_netloc = netloc,
                           su_rest = drop (2 + length netloc) rest\<rparr>)
        else Inr \<lparr>su_scheme = scheme, su_netloc = '''', su_rest = rest\<rparr>)"

definition after_last :: "char \<Rightarrow> string \<Rightarrow> string" where
  \<comment> \<open>\<open>s.rpartition(c)[2]\<close>\<close>
  "after_last c s = rev (takeWhile (\<lambda>d. d \<noteq> c) (rev s))"

definition before_last :: "char \<Rightarrow> string \<Rightarrow> string option" where
  "before_last c s = (if c \<in> set s then Some (take (length s - Suc (length (after_last c s))) s) else None)"

definition su_username :: "split_url \<Rightarrow> string option" where
  "su_username u = map_option (takeWhile (\<lambda>c. c \<noteq> CHR '':'')) (before_last (CHR 0x40) (su_netloc u))"

definition su_password :: "split_url \<Rightarrow> string option" where
  "su_password u =
     (case before_last (CHR 0x40) (su_netloc u) of
        None \<Rightarrow> None
      | Some info \<Rightarrow> (if CHR '':'' \<in> set info
                     then Some (tl (dropWhile (\<lambda>c. c \<noteq> CHR '':'') info)) else None))"

definition host_and_port :: "split_url \<Rightarrow> string \<times> string" where
  "host_and_port u =
     (let info = after_last (CHR 0x40) (su_netloc u);
          opened = dropWhile (\<lambda>c. c \<noteq> CHR ''['') info;
          inner = tl opened
      in if opened = []
         then (takeWhile (\<lambda>c. c \<noteq> CHR '':'') info, tl (dropWhile (\<lambda>c. c \<noteq> CHR '':'') info))
         else (takeWhile (\<lambda>c. c \<noteq> CHR '']'') inner,
               tl (dropWhile (\<lambda>c. c \<noteq> CHR '':'') (tl (dropWhile (\<lambda>c. c \<noteq> CHR '']'') inner)))))"

definition su_hostname :: "split_url \<Rightarrow> string" where
  \<comment> \<open>\<open>parsed.hostname or ""\<close>\<close>
  "su_hostname u =
     (let host = fst (host_and_port u); zone = dropWhile (\<lambda>c. c \<noteq> CHR 0x25) host
      in str_lower (takeWhile (\<lambda>c. c \<noteq> CHR 0x25) host) @ zone)"

definition su_port :: "split_url \<Rightarrow> exn_name + nat option" where
  "su_port u =
     (let port = snd (host_and_port u)
      in if port = [] then Inr None
         else if \<not> list_all ascii_digit port then Inl ''ValueError''
         else if 65535 < read_nat port then Inl ''ValueError''
         else Inr (Some (read_nat port)))"

definition su_query :: "split_url \<Rightarrow> string" where
  "su_query u = tl (dropWhile (\<lambda>c. c \<noteq> CHR ''?'') (takeWhile (\<lambda>c. c \<noteq> CHR ''#'') (su_rest u)))"

definition hex_value :: "char \<Rightarrow> nat" where
  "hex_value c = (if ascii_digit c then code c - 48 else code (lower_char c) - 87)"

fun query_unquote :: "string \<Rightarrow> string" where
  \<comment> \<open>plus signs and percent escapes of ASCII characters\<close>
  "query_unquote [] = []"
| "query_unquote (c # cs) =
     (if c = CHR ''+'' then CHR '' '' # query_unquote cs
      else case cs of
             a # b # ds \<Rightarrow>
               (if c = CHR 0x25 \<and> is_hex a \<and> is_hex b \<and> hex_value a < 8
                then char_of (16 * hex_value a + hex_value b) # query_unquote ds
                else c # query_unquote cs)
           | _ \<Rightarrow> c # query_unquote cs)"

definition query_parameter :: "string \<Rightarrow> string \<Rightarrow> string" where
  \<comment> \<open>\<open>parse_qs(query).get(name, [""])[0]\<close>: pairs without a value are dropped\<close>
  "query_parameter name query =
     (case List.find (\<lambda>p. query_unquote (takeWhile (\<lambda>c. c \<noteq> CHR ''='') p) = name
                        \<and> tl (dropWhile (\<lambda>c. c \<noteq> CHR ''='') p) \<noteq> [])
             (split_on (CHR 0x26) query) of
        Some p \<Rightarrow> query_unquote (tl (dropWhile (\<lambda>c. c \<noteq> CHR ''='') p))
      | None \<Rightarrow> '''')"

lemmas url_eval =
  urlsplit_def split_scheme_def clean_url_def scheme_char_def ascii_alpha_def ascii_digit_def code_def
  after_last_def before_last_def su_username_def su_password_def host_and_port_def su_hostname_def
  su_port_def su_query_def query_parameter_def Let_def

end
