(* ===== verification/ReplicaDb.thy ===== *)
theory ReplicaDb
  imports Scope Urls Pipeline
begin

text \<open>
  The connection to the read replica (\<open>replica/database.py\<close>): the checks on its address, on the session
  and role and on the schema that \<open>start\<close> makes before the pool is used, the one-minute cache of the
  live catalogue, and \<open>fetch_bounded\<close> with its retries, row limit and byte limit. The server is a
  parameter: its answers may change from one attempt to the next, so an attempt has a number, and an
  operation takes the number of attempts made so far and returns the new one.
\<close>

section \<open>The server and the state\<close>

datatype sql_arg =
  Arg_null | Arg_text string | Arg_texts "string list" | Arg_number decimal | Arg_whole int
| Arg_day int  \<comment> \<open>midnight of a day, by its number\<close>

record session_settings =
  sn_read_only :: string
  sn_in_recovery :: bool
  sn_rolsuper :: bool
  sn_rolcreaterole :: bool
  sn_rolcreatedb :: bool
  sn_rolreplication :: bool
  sn_rolbypassrls :: bool

type_synonym db_record = "(string \<times> db_value) list"

record replica_server =
  sv_connect :: "string list \<Rightarrow> int \<Rightarrow> exn_name option"
    \<comment> \<open>what \<open>create_pool\<close> raises, given the statements of a new connection and the pool's size\<close>
  sv_settings :: "session_settings option"
  sv_catalog :: "exn_name + live_catalog"   \<comment> \<open>\<open>load_catalog\<close> on a connection\<close>
  sv_fetch :: "nat \<Rightarrow> string \<Rightarrow> sql_arg list \<Rightarrow> exn_name + db_record list"

record replica_state =
  db_pool :: bool
  db_catalog :: "live_catalog option"
  db_catalog_at :: int   \<comment> \<open>milliseconds of the monotonic clock\<close>

definition initial_replica :: replica_state where
  "initial_replica = \<lparr>db_pool = False, db_catalog = None, db_catalog_at = 0\<rparr>"

record query_result =
  qr_columns :: "string list"
  qr_rows :: "db_row list"
  qr_row_count :: int
  qr_truncated :: bool

definition no_rows :: query_result where
  "no_rows = \<lparr>qr_columns = [], qr_rows = [], qr_row_count = 0, qr_truncated = False\<rparr>"

record schema_drift =
  sd_missing_relations :: "string list"
  sd_missing_columns :: "string list"
  sd_incompatible_types :: "string list"

definition drift_ok :: "schema_drift \<Rightarrow> bool" where
  "drift_ok d \<longleftrightarrow> sd_missing_relations d = [] \<and> sd_missing_columns d = [] \<and> sd_incompatible_types d = []"

section \<open>Starting\<close>

definition configuration_error :: exn_name where
  "configuration_error = ''ReplicaConfigurationError''"

definition local_environment :: "app_config \<Rightarrow> bool" where
  "local_environment cfg \<longleftrightarrow> environment cfg \<in> {''local'', ''test''}"

definition validate_dsn :: "app_config \<Rightarrow> exn_name + unit" where
  "validate_dsn cfg =
     (if read_replica_url cfg = [] then Inl configuration_error
      else if rstrip_char (CHR ''/'') (read_replica_url cfg) = rstrip_char (CHR ''/'') (database_url cfg)
      then Inl configuration_error
      else bindE (urlsplit (read_replica_url cfg)) (\<lambda>parsed.
        if su_scheme parsed \<notin> {''postgres'', ''postgresql''} \<or> su_hostname parsed = []
        then Inl configuration_error
        else if \<not> local_environment cfg
                \<and> query_parameter ''sslmode'' (su_query parsed) \<notin> {''require'', ''verify-ca'', ''verify-full''}
        then Inl configuration_error
        else Inr ()))"

definition verify_safety :: "app_config \<Rightarrow> replica_server \<Rightarrow> exn_name + unit" where
  "verify_safety cfg sv =
     (case sv_settings sv of
        None \<Rightarrow> Inl configuration_error
      | Some s \<Rightarrow>
          (if sn_read_only s \<noteq> ''on'' then Inl configuration_error
           else if sn_rolsuper s \<or> sn_rolcreaterole s \<or> sn_rolcreatedb s \<or> sn_rolreplication s
                   \<or> sn_rolbypassrls s
           then Inl configuration_error
           else if \<not> sn_in_recovery s \<and> \<not> (local_environment cfg \<and> allow_non_replica_readonly_db cfg)
           then Inl configuration_error
           else bindE (sv_catalog sv) (\<lambda>cat.
             if list_ex (\<lambda>kr. rel_writable (snd kr)) (cat_relations cat) then Inl configuration_error
             else Inr ())))"

definition catalog_age :: int where
  "catalog_age = 60000"

definition catalog ::
  "replica_server \<Rightarrow> bool \<Rightarrow> int \<Rightarrow> int \<Rightarrow> replica_state \<Rightarrow> (exn_name + live_catalog) \<times> replica_state" where
  \<comment> \<open>the clock is read before the age is judged and again after a load\<close>
  "catalog sv refresh now later st =
     (case db_catalog st of
        Some cat \<Rightarrow>
          (if \<not> refresh \<and> now - db_catalog_at st \<le> catalog_age then (Inr cat, st)
           else if \<not> db_pool st then (Inl configuration_error, st)
           else case sv_catalog sv of
                  Inl e \<Rightarrow> (Inl e, st)
                | Inr new \<Rightarrow> (Inr new, st\<lparr>db_catalog := Some new, db_catalog_at := later\<rparr>))
      | None \<Rightarrow>
          (if \<not> db_pool st then (Inl configuration_error, st)
           else case sv_catalog sv of
                  Inl e \<Rightarrow> (Inl e, st)
                | Inr new \<Rightarrow> (Inr new, st\<lparr>db_catalog := Some new, db_catalog_at := later\<rparr>)))"

definition drift_of :: "live_catalog \<Rightarrow> schema_drift" where
  "drift_of cat =
     (let none = \<lparr>sd_missing_relations = [], sd_missing_columns = [], sd_incompatible_types = []\<rparr>
      in case map_of (cat_relations cat) order_relation of
           None \<Rightarrow> none\<lparr>sd_missing_relations := [''public.order'']\<rparr>
         | Some r \<Rightarrow>
             (case map_of (rel_columns r) ''id'' of
                None \<Rightarrow> none\<lparr>sd_missing_columns := [''public.order.id'']\<rparr>
              | Some t \<Rightarrow> (if t \<noteq> ''uuid'' then none\<lparr>sd_incompatible_types := [''public.order.id'']\<rparr>
                          else none)))"

definition check_schema ::
  "replica_server \<Rightarrow> int \<Rightarrow> int \<Rightarrow> replica_state \<Rightarrow> (exn_name + schema_drift) \<times> replica_state" where
  "check_schema sv now later st =
     (case catalog sv True now later st of
        (Inl e, st') \<Rightarrow> (Inl e, st')
      | (Inr cat, st') \<Rightarrow> (Inr (drift_of cat), st'))"

definition close_replica :: "replica_state \<Rightarrow> replica_state" where
  "close_replica st = st\<lparr>db_catalog := None, db_pool := False\<rparr>"

definition pool_size :: "app_config \<Rightarrow> query_limits \<Rightarrow> int" where
  "pool_size cfg limits = min (sql_max_connections cfg) (ql_max_connections limits)"

definition session_setup :: "query_limits \<Rightarrow> string list" where
  \<open>session_setup limits =
     [''SET default_transaction_read_only = on'',
      ''SET statement_timeout = '' @ [CHR 0x27] @ show_int (ql_statement_timeout_seconds limits) @ ''s'' @ [CHR 0x27],
      ''SET lock_timeout = '3s'' @ [CHR 0x27],
      ''SET idle_in_transaction_session_timeout = '20s'' @ [CHR 0x27],
      ''SET application_name = 'cerebro-agent'' @ [CHR 0x27]]\<close>

definition start_replica ::
  "app_config \<Rightarrow> query_limits \<Rightarrow> replica_server \<Rightarrow> int \<Rightarrow> int \<Rightarrow> replica_state
   \<Rightarrow> (exn_name + unit) \<times> replica_state" where
  "start_replica cfg limits sv now later st =
     (if db_pool st then (Inr (), st)
      else case validate_dsn cfg of
             Inl e \<Rightarrow> (Inl e, st)
           | Inr _ \<Rightarrow>
               (case sv_connect sv (session_setup limits) (pool_size cfg limits) of
                  Some e \<Rightarrow> (Inl e, st)
                | None \<Rightarrow>
                    (let opened = st\<lparr>db_pool := True\<rparr> in
                     case verify_safety cfg sv of
                       Inl e \<Rightarrow> (Inl e, close_replica opened)
                     | Inr _ \<Rightarrow>
                         (case check_schema sv now later opened of
                            (Inl e, st') \<Rightarrow> (Inl e, close_replica st')
                          | (Inr drift, st') \<Rightarrow>
                              (if drift_ok drift then (Inr (), st')
                               else (Inl configuration_error, close_replica st'))))))"

section \<open>Bounded queries\<close>

fun fetch_attempts :: "(nat \<Rightarrow> exn_name + 'a) \<Rightarrow> nat \<Rightarrow> nat \<Rightarrow> (exn_name + 'a) \<times> nat" where
  \<comment> \<open>the attempts left and the number of the next one; each runs in a transaction of its own\<close>
  "fetch_attempts run 0 n = (Inl ''AssertionError'', n)"
| "fetch_attempts run (Suc left) n =
     (case run n of
        Inr records \<Rightarrow> (Inr records, Suc n)
      | Inl e \<Rightarrow> (if e = ''SerializationError'' \<and> left \<noteq> 0 then fetch_attempts run left (Suc n)
                 else (Inl e, Suc n)))"

definition configured_rows :: "app_config \<Rightarrow> query_limits \<Rightarrow> int option \<Rightarrow> int" where
  "configured_rows cfg limits max_rows =
     min (min (case max_rows of Some m \<Rightarrow> (if m \<noteq> 0 then m else sql_max_rows cfg) | None \<Rightarrow> sql_max_rows cfg)
              (sql_max_rows cfg))
         (ql_max_rows limits)"

definition wrapped_query :: "string \<Rightarrow> int \<Rightarrow> string" where
  "wrapped_query query rows =
     ''SELECT * FROM ('' @ rstrip_char (CHR '';'') query @ '') AS cerebro_bounded_query LIMIT ''
     @ show_int (rows + 1)"

definition utf8_length :: "string \<Rightarrow> nat" where
  \<comment> \<open>\<open>len(text.encode())\<close>\<close>
  "utf8_length s = sum_list (map (\<lambda>c. length (utf8 c)) s)"

definition rows_size :: "db_row list \<Rightarrow> nat" where
  "rows_size rows = utf8_length (json_dumps (JArr (map (\<lambda>row. JObj (row_json row)) rows)))"

definition safe_row :: "db_record \<Rightarrow> db_row" where
  "safe_row record = map (\<lambda>kv. (fst kv, safe_json_value (snd kv))) record"

definition has_long_text :: "db_record \<Rightarrow> bool" where
  "has_long_text record =
     list_ex (\<lambda>kv. case snd kv of Db_str s \<Rightarrow> 2000 < length s | _ \<Rightarrow> False) record"

fun keep_rows :: "int \<Rightarrow> db_record list \<Rightarrow> db_row list \<Rightarrow> bool \<Rightarrow> db_row list \<times> bool" where
  "keep_rows byte_limit [] kept truncated = (kept, truncated)"
| "keep_rows byte_limit (record # records) kept truncated =
     (if byte_limit < int (rows_size (kept @ [safe_row record])) then (kept, True)
      else keep_rows byte_limit records (kept @ [safe_row record]) (truncated \<or> has_long_text record))"

definition byte_limit :: "app_config \<Rightarrow> query_limits \<Rightarrow> int" where
  "byte_limit cfg limits = min (sql_max_output_bytes cfg) (ql_max_output_bytes limits)"

definition bounded_result ::
  "int \<Rightarrow> int \<Rightarrow> db_record list \<Rightarrow> query_result" where
  "bounded_result rows bytes records =
     (let over = rows < int (length records);
          cut = take (nat rows) records;
          (kept, truncated) = keep_rows bytes cut [] over
      in \<lparr>qr_columns = (case cut of [] \<Rightarrow> [] | r # _ \<Rightarrow> map fst r), qr_rows = kept,
          qr_row_count = int (length kept), qr_truncated = truncated\<rparr>)"

definition fetch_bounded ::
  "app_config \<Rightarrow> query_limits \<Rightarrow> replica_server \<Rightarrow> replica_state \<Rightarrow> string \<Rightarrow> sql_arg list \<Rightarrow> int option
   \<Rightarrow> nat \<Rightarrow> (exn_name + query_result) \<times> nat" where
  "fetch_bounded cfg limits sv st query args max_rows n =
     (if \<not> db_pool st then (Inl configuration_error, n)
      else let rows = configured_rows cfg limits max_rows
        in case fetch_attempts (\<lambda>k. sv_fetch sv k (wrapped_query query rows) args) 3 n of
             (Inl e, n') \<Rightarrow> (Inl e, n')
           | (Inr records, n') \<Rightarrow> (Inr (bounded_result rows (byte_limit cfg limits) records), n'))"

section \<open>Retries\<close>

lemma fetch_attempts_outcome:
  assumes "fetch_attempts run (Suc left) n = (res, n')"
  shows "n < n' \<and> n' \<le> n + Suc left \<and> res = run (n' - 1)
    \<and> (\<forall>k. n \<le> k \<and> k < n' - 1 \<longrightarrow> run k = Inl ''SerializationError'')
    \<and> (res = Inl ''SerializationError'' \<longrightarrow> n' = n + Suc left)"
  using assms
proof (induction left arbitrary: n)
  case 0
  then show ?case by (auto split: sum.splits)
next
  case (Suc left)
  show ?case
  proof (cases "run n = Inl ''SerializationError''")
    case True
    then have "fetch_attempts run (Suc left) (Suc n) = (res, n')"
      using Suc.prems by simp
    note IH = Suc.IH [OF this]
    have "run k = Inl ''SerializationError''" if "n \<le> k" "k < n' - 1" for k
    proof (cases "k = n")
      case False
      with that have "Suc n \<le> k \<and> k < n' - 1" by simp
      with IH show ?thesis by blast
    qed (simp add: True)
    moreover have "Suc n < n'" "n' \<le> Suc n + Suc left" "res = run (n' - 1)"
      "res = Inl ''SerializationError'' \<longrightarrow> n' = Suc n + Suc left"
      using IH by blast+
    moreover have "n < n'" "n' \<le> n + Suc (Suc left)" "Suc n + Suc left = n + Suc (Suc left)"
      using calculation(2,3) by arith+
    ultimately show ?thesis by metis
  next
    case False
    then have "res = run n \<and> n' = Suc n"
      using Suc.prems by (auto split: sum.splits if_splits)
    with False show ?thesis by auto
  qed
qed

lemma fetch_bounded_cost:
  assumes "fetch_bounded cfg limits sv st query args max_rows n = (res, n')" "db_pool st"
  shows "n < n' \<and> n' \<le> n + 3"
proof -
  obtain r m where f: "fetch_attempts (\<lambda>k. sv_fetch sv k (wrapped_query query (configured_rows cfg limits max_rows)) args)
      (Suc 2) n = (r, m)"
    by (cases "fetch_attempts (\<lambda>k. sv_fetch sv k (wrapped_query query (configured_rows cfg limits max_rows)) args)
      (Suc 2) n")
  then have "n' = m"
    using assms by (auto simp: fetch_bounded_def numeral_3_eq_3 numeral_2_eq_2 split: sum.splits)
  moreover have "n < m" "m \<le> n + Suc 2" using fetch_attempts_outcome [OF f] by blast+
  ultimately show ?thesis by simp
qed

text \<open>C37: A bounded query always ends, within three attempts: its outcome is that of the first attempt
  that is not cancelled by the standby, every attempt before it was cancelled, and a cancellation is
  reported only after all three; no other error is retried.\<close>

theorem fetch_attempts_end:
  assumes "fetch_bounded cfg limits sv st query args max_rows n = (res, n')" "db_pool st"
  shows "n < n' \<and> n' \<le> n + 3 \<and>
    (let sql = wrapped_query query (configured_rows cfg limits max_rows) in
     (\<forall>k. n \<le> k \<and> k < n' - 1 \<longrightarrow> sv_fetch sv k sql args = Inl ''SerializationError'') \<and>
     (res = Inl ''SerializationError'' \<longrightarrow> n' = n + 3) \<and>
     (\<forall>e. res = Inl e \<longleftrightarrow> sv_fetch sv (n' - 1) sql args = Inl e))"
proof -
  define sql where "sql = wrapped_query query (configured_rows cfg limits max_rows)"
  obtain r m where f: "fetch_attempts (\<lambda>k. sv_fetch sv k sql args) (Suc 2) n = (r, m)"
    by (cases "fetch_attempts (\<lambda>k. sv_fetch sv k sql args) (Suc 2) n")
  note o = fetch_attempts_outcome [OF f]
  have "fetch_bounded cfg limits sv st query args max_rows n =
    (case r of Inl e \<Rightarrow> (Inl e, m)
     | Inr records \<Rightarrow> (Inr (bounded_result (configured_rows cfg limits max_rows) (byte_limit cfg limits) records), m))"
    using assms(2) f
    by (simp add: fetch_bounded_def sql_def numeral_3_eq_3 numeral_2_eq_2)
  then have "n' = m" "\<And>e. res = Inl e \<longleftrightarrow> r = Inl e"
    using assms(1) by (auto split: sum.splits)
  moreover have "n + Suc 2 = n + 3" by simp
  ultimately show ?thesis
    unfolding Let_def sql_def [symmetric] using o by metis
qed

section \<open>Limits\<close>

lemma keep_rows_result:
  assumes "keep_rows bytes records kept0 t0 = (kept, t)"
  shows "\<exists>done_rows. done_rows = take (length done_rows) records \<and> length done_rows \<le> length records
    \<and> kept = kept0 @ map safe_row done_rows
    \<and> (\<not> t \<longrightarrow> \<not> t0 \<and> done_rows = records \<and> \<not> list_ex has_long_text records)
    \<and> (kept \<noteq> kept0 \<longrightarrow> int (rows_size kept) \<le> bytes)"
  using assms
proof (induction bytes records kept0 t0 rule: keep_rows.induct)
  case (1 bytes kept0 t0)
  then show ?case by (intro exI [of _ "[]"]) auto
next
  case (2 bytes rec records kept0 t0)
  show ?case
  proof (cases "bytes < int (rows_size (kept0 @ [safe_row rec]))")
    case True
    with "2.prems" show ?thesis by (intro exI [of _ "[]"]) auto
  next
    case False
    with "2.prems" have "keep_rows bytes records (kept0 @ [safe_row rec]) (t0 \<or> has_long_text rec) = (kept, t)"
      by simp
    from "2.IH" [OF False this] obtain dr where d: "dr = take (length dr) records" "length dr \<le> length records"
      "kept = (kept0 @ [safe_row rec]) @ map safe_row dr"
      "\<not> t \<longrightarrow> \<not> (t0 \<or> has_long_text rec) \<and> dr = records \<and> \<not> list_ex has_long_text records"
      "kept \<noteq> kept0 @ [safe_row rec] \<longrightarrow> int (rows_size kept) \<le> bytes"
      by blast
    have "int (rows_size kept) \<le> bytes"
      using d(3,5) False by (cases "dr = []") auto
    with d show ?thesis by (intro exI [of _ "rec # dr"]) auto
  qed
qed

lemma safe_json_value_short:
  "safe_json_value v = Chars s \<Longrightarrow> (\<forall>t. v \<noteq> Db_exact t) \<Longrightarrow> (\<forall>k. v \<noteq> Db_bytes k) \<Longrightarrow> length s \<le> 2000"
  by (cases v) (auto simp: safe_json_value_def)

lemma fetch_bounded_Inr:
  assumes "fetch_bounded cfg limits sv st query args max_rows n = (Inr result, n')"
  shows "\<exists>records.
    sv_fetch sv (n' - 1) (wrapped_query query (configured_rows cfg limits max_rows)) args = Inr records \<and>
    result = bounded_result (configured_rows cfg limits max_rows) (byte_limit cfg limits) records"
proof -
  define run where "run = (\<lambda>k. sv_fetch sv k (wrapped_query query (configured_rows cfg limits max_rows)) args)"
  have open_pool: "db_pool st" using assms by (auto simp: fetch_bounded_def split: if_split_asm)
  obtain r m where f: "fetch_attempts run 3 n = (r, m)" by (cases "fetch_attempts run 3 n")
  then obtain records where r: "r = Inr records" and m: "n' = m"
    and res: "result = bounded_result (configured_rows cfg limits max_rows) (byte_limit cfg limits) records"
    using assms open_pool
    by (auto simp: fetch_bounded_def Let_def run_def split: sum.splits)
  have "run (n' - 1) = Inr records"
    using fetch_attempts_outcome [of run 2 n r m] f r m by (simp add: numeral_3_eq_3 numeral_2_eq_2)
  with res show ?thesis by (auto simp: run_def)
qed

lemma bounded_result_count:
  "qr_row_count (bounded_result rows bytes records) = int (length (qr_rows (bounded_result rows bytes records)))"
  by (simp add: bounded_result_def Let_def split: prod.split)

lemma bounded_result_rows:
  "qr_rows (bounded_result rows bytes records) = map safe_row (take (length (qr_rows (bounded_result rows bytes records))) records)"
  "row \<in> set (qr_rows (bounded_result rows bytes records)) \<Longrightarrow> \<exists>r \<in> set records. row = safe_row r"
proof -
  obtain kept t where k: "keep_rows bytes (take (nat rows) records) [] (rows < int (length records)) = (kept, t)"
    by (cases "keep_rows bytes (take (nat rows) records) [] (rows < int (length records))")
  then have q: "qr_rows (bounded_result rows bytes records) = kept"
    by (simp add: bounded_result_def Let_def)
  obtain dr where d: "dr = take (length dr) (take (nat rows) records)"
    "length dr \<le> length (take (nat rows) records)" "kept = [] @ map safe_row dr"
    using keep_rows_result [OF k] by blast
  have "length dr \<le> nat rows" "length kept = length dr" using d(2,3) by simp_all
  then have dr: "dr = take (length kept) records" using d(1) by (simp add: min_absorb1)
  then show "qr_rows (bounded_result rows bytes records)
      = map safe_row (take (length (qr_rows (bounded_result rows bytes records))) records)"
    unfolding q using d(3) by simp
  show "\<exists>r \<in> set records. row = safe_row r" if "row \<in> set (qr_rows (bounded_result rows bytes records))"
  proof -
    from that d(3) obtain r where r: "r \<in> set dr" "row = safe_row r" by (auto simp: q)
    have "set dr \<subseteq> set records" by (subst dr) (rule set_take_subset)
    with r show ?thesis by blast
  qed
qed

text \<open>Whatever a query returns, the result respects the limits: at most the smallest of the three row
  limits, and at most the smaller byte limit as UTF-8 JSON. The flag is honest: when a result is not
  marked truncated, it is everything the server sent within one row more than the limit, in order and
  with no text cut.\<close>

theorem results_are_bounded:
  assumes "fetch_bounded cfg limits sv st query args max_rows n = (Inr result, n')"
    "0 \<le> configured_rows cfg limits max_rows"
  shows "\<exists>records.
    sv_fetch sv (n' - 1) (wrapped_query query (configured_rows cfg limits max_rows)) args = Inr records \<and>
    qr_row_count result = int (length (qr_rows result)) \<and>
    qr_row_count result \<le> configured_rows cfg limits max_rows \<and>
    (qr_rows result \<noteq> [] \<longrightarrow> int (rows_size (qr_rows result)) \<le> byte_limit cfg limits) \<and>
    qr_rows result = map safe_row (take (length (qr_rows result)) records) \<and>
    (\<not> qr_truncated result \<longrightarrow>
       qr_rows result = map safe_row records \<and> \<not> list_ex has_long_text records)"
proof -
  define rows where "rows = configured_rows cfg limits max_rows"
  obtain records where sent: "sv_fetch sv (n' - 1) (wrapped_query query rows) args = Inr records"
    and res: "result = bounded_result rows (byte_limit cfg limits) records"
    using fetch_bounded_Inr [OF assms(1)] by (auto simp: rows_def)
  obtain kept t where k: "keep_rows (byte_limit cfg limits) (take (nat rows) records) []
      (rows < int (length records)) = (kept, t)"
    by (cases "keep_rows (byte_limit cfg limits) (take (nat rows) records) [] (rows < int (length records))")
  then have q: "qr_rows result = kept" "qr_row_count result = int (length kept)" "qr_truncated result = t"
    by (simp_all add: res bounded_result_def Let_def)
  obtain dr where d: "dr = take (length dr) (take (nat rows) records)"
    "length dr \<le> length (take (nat rows) records)" "kept = [] @ map safe_row dr"
    "\<not> t \<longrightarrow> \<not> rows < int (length records) \<and> dr = take (nat rows) records
       \<and> \<not> list_ex has_long_text (take (nat rows) records)"
    "kept \<noteq> [] \<longrightarrow> int (rows_size kept) \<le> byte_limit cfg limits"
    using keep_rows_result [OF k] by blast
  have "length kept \<le> nat rows" using d(2,3) by simp
  then have "int (length kept) \<le> rows" using assms(2) unfolding rows_def by linarith
  moreover have take: "dr = take (length kept) records"
  proof -
    have "length dr \<le> nat rows" "length kept = length dr" using d(2,3) by simp_all
    then show ?thesis using d(1) by (simp add: min_absorb1)
  qed
  moreover have "kept = map safe_row records \<and> \<not> list_ex has_long_text records" if "\<not> t"
  proof -
    have "length records \<le> nat rows" using d(4) that by linarith
    then have "take (nat rows) records = records" by simp
    with d(3,4) that show ?thesis by simp
  qed
  ultimately have "int (length kept) \<le> rows" and all: "\<not> t \<Longrightarrow> kept = map safe_row records \<and> \<not> list_ex has_long_text records"
    by blast+
  then show ?thesis
    unfolding q rows_def [symmetric]
    using sent d(5) d(3) take [symmetric]
    by (intro exI [of _ records] conjI impI) simp_all
qed

section \<open>Starting safely\<close>

definition safe_session :: "app_config \<Rightarrow> session_settings \<Rightarrow> bool" where
  "safe_session cfg s \<longleftrightarrow>
     sn_read_only s = ''on'' \<and> \<not> sn_rolsuper s \<and> \<not> sn_rolcreaterole s \<and> \<not> sn_rolcreatedb s
     \<and> \<not> sn_rolreplication s \<and> \<not> sn_rolbypassrls s
     \<and> (sn_in_recovery s \<or> (local_environment cfg \<and> allow_non_replica_readonly_db cfg))"

definition encrypted_dsn :: "app_config \<Rightarrow> bool" where
  "encrypted_dsn cfg \<longleftrightarrow>
     (\<exists>parsed. urlsplit (read_replica_url cfg) = Inr parsed
        \<and> query_parameter ''sslmode'' (su_query parsed) \<in> {''require'', ''verify-ca'', ''verify-full''})"

lemma validate_dsn_Inr:
  assumes "validate_dsn cfg = Inr u"
  shows "read_replica_url cfg \<noteq> [] \<and> read_replica_url cfg \<noteq> database_url cfg
    \<and> (local_environment cfg \<or> encrypted_dsn cfg)"
  using assms by (auto simp: validate_dsn_def encrypted_dsn_def split: if_split_asm)

lemma verify_safety_Inr:
  assumes "verify_safety cfg sv = Inr u"
  shows "\<exists>s cat. sv_settings sv = Some s \<and> safe_session cfg s \<and> sv_catalog sv = Inr cat
    \<and> (\<forall>kr \<in> set (cat_relations cat). \<not> rel_writable (snd kr))"
proof -
  obtain s where s: "sv_settings sv = Some s"
    using assms by (cases "sv_settings sv") (auto simp: verify_safety_def)
  with assms obtain cat where "sv_catalog sv = Inr cat" "safe_session cfg s"
    "\<not> list_ex (\<lambda>kr. rel_writable (snd kr)) (cat_relations cat)"
    by (auto simp: verify_safety_def safe_session_def split: if_split_asm)
  with s show ?thesis by (auto simp: list_ex_iff)
qed

lemma drift_of_ok:
  assumes "drift_ok (drift_of cat)"
  shows "\<exists>r. map_of (cat_relations cat) order_relation = Some r \<and> map_of (rel_columns r) ''id'' = Some ''uuid''"
  using assms by (auto simp: drift_of_def drift_ok_def Let_def split: option.splits if_split_asm)

lemma catalog_refresh:
  assumes "db_pool st" "sv_catalog sv = Inr cat"
  shows "catalog sv True now later st = (Inr cat, st\<lparr>db_catalog := Some cat, db_catalog_at := later\<rparr>)"
  using assms by (simp add: catalog_def split: option.split)

lemma catalog_failure:
  assumes "sv_catalog sv = Inl e" "db_pool st"
  shows "catalog sv True now later st = (Inl e, st)"
  using assms by (simp add: catalog_def split: option.split)

text \<open>C0: The pool is open only over a safe replica. Starting from a closed pool, success means that
  the address is not the program's own database and, outside local and test, demands encryption;
  that the session is read-only, the role has none of the five dangerous attributes, the server is a
  physical standby (or the local exemption is set), no visible relation is writable, and
  \<open>public.order\<close> has a \<open>uuid\<close> key, with that catalogue cached. Any failure leaves the pool closed, and
  once the pool had been opened the cache is empty too.\<close>

theorem open_replica_is_safe:
  assumes "start_replica cfg limits sv now later st = (res, st')" "\<not> db_pool st"
  shows "(case res of
      Inl e \<Rightarrow> \<not> db_pool st' \<and> (st' = st \<or> db_catalog st' = None)
    | Inr _ \<Rightarrow> db_pool st' \<and> read_replica_url cfg \<noteq> database_url cfg
        \<and> (local_environment cfg \<or> encrypted_dsn cfg)
        \<and> (\<exists>s cat r. sv_settings sv = Some s \<and> safe_session cfg s \<and> db_catalog st' = Some cat
             \<and> (\<forall>kr \<in> set (cat_relations cat). \<not> rel_writable (snd kr))
             \<and> map_of (cat_relations cat) order_relation = Some r
             \<and> map_of (rel_columns r) ''id'' = Some ''uuid''))"
proof (cases "validate_dsn cfg")
  case (Inl e)
  then have "res = Inl e \<and> st' = st" using assms by (simp add: start_replica_def)
  with assms(2) show ?thesis by simp
next
  case dsn: (Inr u)
  show ?thesis
  proof (cases "sv_connect sv (session_setup limits) (pool_size cfg limits)")
    case (Some e)
    with assms dsn show ?thesis by (auto simp: start_replica_def)
  next
    case None
    define opened where "opened = st\<lparr>db_pool := True\<rparr>"
    show ?thesis
    proof (cases "verify_safety cfg sv")
      case (Inl e)
      then have "res = Inl e \<and> st' = close_replica opened"
        using assms dsn None by (simp add: start_replica_def opened_def Let_def)
      then show ?thesis by (simp add: close_replica_def)
    next
      case (Inr w)
      then obtain s cat where s: "sv_settings sv = Some s" "safe_session cfg s" "sv_catalog sv = Inr cat"
        "\<forall>kr \<in> set (cat_relations cat). \<not> rel_writable (snd kr)"
        using verify_safety_Inr by blast
      define st1 where "st1 = opened\<lparr>db_catalog := Some cat, db_catalog_at := later\<rparr>"
      have c: "check_schema sv now later opened = (Inr (drift_of cat), st1)"
        using catalog_refresh [OF _ s(3), of opened now later]
        by (simp add: check_schema_def st1_def opened_def)
      have eq: "(res, st') = (if drift_ok (drift_of cat) then (Inr (), st1)
          else (Inl configuration_error, close_replica st1))"
        using assms dsn None Inr c by (simp add: start_replica_def opened_def Let_def)
      show ?thesis
      proof (cases "drift_ok (drift_of cat)")
        case True
        then have "res = Inr ()" "st' = st1" using eq by simp_all
        moreover have "db_pool st1" "db_catalog st1 = Some cat" by (simp_all add: st1_def opened_def)
        ultimately show ?thesis
          using validate_dsn_Inr [OF dsn] drift_of_ok [OF True] s by auto
      next
        case False
        with eq show ?thesis by (auto simp: close_replica_def)
      qed
    qed
  qed
qed

text \<open>The catalogue an operation gets is never stale: if the cached one was loaded at a clock time
  not after now, the catalogue returned is the one cached afterwards, and it is either the cached one,
  at most sixty seconds old, or what the server says at this call; a failed load leaves the cache as
  it was and is not answered from it.\<close>

theorem catalog_is_fresh:
  assumes "catalog sv refresh now later st = (res, st')"
  shows "(case res of
      Inr cat \<Rightarrow> db_catalog st' = Some cat \<and>
        ((st' = st \<and> \<not> refresh \<and> now - db_catalog_at st \<le> 60000)
         \<or> (sv_catalog sv = Inr cat \<and> db_catalog_at st' = later))
    | Inl e \<Rightarrow> st' = st)"
proof (cases "\<not> refresh \<and> now - db_catalog_at st \<le> catalog_age \<and> db_catalog st \<noteq> None")
  case True
  then obtain cat where "db_catalog st = Some cat" by auto
  with True assms show ?thesis by (auto simp: catalog_def catalog_age_def)
next
  case False
  then have "(res, st') = (if \<not> db_pool st then (Inl configuration_error, st)
      else case sv_catalog sv of Inl e \<Rightarrow> (Inl e, st)
           | Inr new \<Rightarrow> (Inr new, st\<lparr>db_catalog := Some new, db_catalog_at := later\<rparr>))"
    using assms by (auto simp: catalog_def split: option.splits)
  then show ?thesis by (cases "sv_catalog sv") (auto split: if_split_asm)
qed

section \<open>An example\<close>

definition example_session :: session_settings where
  "example_session = \<lparr>sn_read_only = ''on'', sn_in_recovery = True, sn_rolsuper = False,
     sn_rolcreaterole = False, sn_rolcreatedb = False, sn_rolreplication = False, sn_rolbypassrls = False\<rparr>"

definition example_server :: replica_server where
  "example_server = \<lparr>sv_connect = (\<lambda>_ _. None), sv_settings = Some example_session, sv_catalog = Inr example_catalog,
     sv_fetch = (\<lambda>n sql args. if n < 1 then Inl ''SerializationError''
       else Inr [[(''order_id'', Db_exact ''o-1'')], [(''order_id'', Db_exact ''o-2'')]])\<rparr>"

definition replica_config :: app_config where
  "replica_config = default_config\<lparr>read_replica_url := ''postgres://c@r/t?sslmode=require'', environment := ''prod''\<rparr>"

definition started_replica :: replica_state where
  "started_replica = \<lparr>db_pool = True, db_catalog = Some example_catalog, db_catalog_at = 7\<rparr>"

lemma example_dsn: "validate_dsn replica_config = Inr ()"
  by (simp add: validate_dsn_def replica_config_def default_config_def local_environment_def
      rstrip_char_def url_eval str_lower_def lower_char_def)

lemma example_starts: "start_replica replica_config example_limits example_server 5 7 initial_replica = (Inr (), started_replica)"
  by (simp add: start_replica_def initial_replica_def example_dsn verify_safety_def example_server_def
      example_session_def check_schema_def catalog_def drift_of_def drift_ok_def example_catalog_eq
      order_relation_def started_replica_def Let_def)

lemma open_replica_is_safe_witness:
  "db_pool started_replica \<and> (local_environment replica_config \<or> encrypted_dsn replica_config)"
  using open_replica_is_safe [OF example_starts] by (simp add: initial_replica_def)

lemma catalog_is_fresh_witness:
  "catalog example_server False 9 11 started_replica = (Inr example_catalog, started_replica)
   \<and> (9::int) - db_catalog_at started_replica \<le> 60000"
proof -
  have c: "catalog example_server False 9 11 started_replica = (Inr example_catalog, started_replica)"
    by (simp add: catalog_def started_replica_def catalog_age_def)
  show ?thesis
    using catalog_is_fresh [OF c] c by (auto simp: started_replica_def)
qed

definition example_order_query :: string where
  "example_order_query = ''SELECT order_id FROM t;''"

lemma example_fetch:
  "\<exists>result. fetch_bounded replica_config example_limits example_server started_replica example_order_query []
     (Some 1) 0 = (Inr result, 2) \<and> qr_row_count result = 1 \<and> qr_truncated result"
proof -
  have rows: "configured_rows replica_config example_limits (Some 1) = 1"
    by (simp add: configured_rows_def replica_config_def default_config_def example_limits_def)
  have size: "int (rows_size [[(''order_id'', Chars ''o-1'')]]) \<le> byte_limit replica_config example_limits"
    by (simp add: rows_size_def row_json_def utf8_length_def json_str_def json_escape_def utf8_def
        code_point_def code_def byte_limit_def replica_config_def default_config_def example_limits_def Let_def)
  show ?thesis
    using size
    by (simp add: fetch_bounded_def rows example_server_def started_replica_def bounded_result_def
        safe_row_def safe_json_value_def numeral_3_eq_3 numeral_2_eq_2 Let_def)
qed

lemma fetch_attempts_end_witness:
  "sv_fetch example_server 0 (wrapped_query example_order_query 1) [] = Inl ''SerializationError''"
proof -
  obtain result where f: "fetch_bounded replica_config example_limits example_server started_replica
      example_order_query [] (Some 1) 0 = (Inr result, 2)"
    using example_fetch by blast
  have rows: "configured_rows replica_config example_limits (Some 1) = 1"
    by (simp add: configured_rows_def replica_config_def default_config_def example_limits_def)
  show ?thesis
    using fetch_attempts_end [OF f] by (simp add: rows started_replica_def Let_def)
qed

lemma results_are_bounded_witness:
  "\<exists>result. fetch_bounded replica_config example_limits example_server started_replica example_order_query []
     (Some 1) 0 = (Inr result, 2) \<and> qr_rows result = [[(''order_id'', Chars ''o-1'')]]"
proof -
  obtain result where f: "fetch_bounded replica_config example_limits example_server started_replica
      example_order_query [] (Some 1) 0 = (Inr result, 2)" "qr_row_count result = 1"
    using example_fetch by blast
  have rows: "configured_rows replica_config example_limits (Some 1) = 1"
    by (simp add: configured_rows_def replica_config_def default_config_def example_limits_def)
  have one: "int (length (qr_rows result)) = 1"
    and qr: "qr_rows result = map safe_row (take (length (qr_rows result))
      [[(''order_id'', Db_exact ''o-1'')], [(''order_id'', Db_exact ''o-2'')]])"
    using results_are_bounded [OF f(1)] f(2) by (auto simp: rows example_server_def)
  have "length (qr_rows result) = 1" using one by simp
  with qr have "qr_rows result = [[(''order_id'', Chars ''o-1'')]]"
    by (simp add: safe_row_def safe_json_value_def)
  with f(1) show ?thesis by blast
qed

end
