(* ===== verification/ReplicaSql.thy ===== *)
theory ReplicaSql
  imports Matching ReplicaDb
begin

text \<open>
  The SQL the replica tools send (\<open>replica/investigation.py\<close>): the fixed texts and the builders that
  choose, from the fields of a request, which conditions the text has, while the values go to the
  parameter list. The texts are those of the source, line by line.
\<close>

section \<open>Fixed texts\<close>

definition candidate_core :: string where
  \<open>candidate_core = str_join [CHR 0x0A]
     [[],
      ''WITH candidate_core AS ('',
      ''  SELECT'',
      ''    pd."firstName" || ' ' || pd."lastName" AS customer_name,'',
      ''    pd.rut AS customer_rut,'',
      ''    ci.email AS customer_email,'',
      ''    ci.phone AS customer_phone,'',
      ''    signees.names AS signee_names,'',
      ''    signees.ruts AS signee_ruts,'',
      ''    signees.phones AS signee_phones,'',
      ''    signees.emails AS signee_emails,'',
      ''    CONCAT_WS(' | ','',
      ''      pd."firstName" || ' ' || pd."lastName",'',
      ''      signees.names'',
      ''    ) AS identity_names,'',
      ''    o.id AS order_id,'',
      ''    o."orderNumber" AS order_number,'',
      ''    ar.id AS account_receivable_id,'',
      ''    ar.type AS account_receivable_type,'',
      ''    ar.amount AS account_receivable_amount,'',
      ''    ar.currency,'',
      ''    GREATEST('',
      ''      ar.amount - COALESCE(pa.paid_amount, 0) - COALESCE(la.lost_amount, 0), 0'',
      ''    ) AS outstanding_amount,'',
      ''    CONCAT_WS(' ', h."addressStreet", h."addressExternalNumber", h."addressInternalNumber", c.name)'',
      ''      AS full_address,'',
      ''    ba."fullName" AS legacy_bank_name,'',
      ''    ba.rut AS legacy_bank_rut,'',
      ''    ba."accountNumber" AS legacy_bank_account,'',
      ''    cba."fullName" AS normalized_bank_name,'',
      ''    cba.rut AS normalized_bank_rut,'',
      ''    cba."accountNumber" AS normalized_bank_account'',
      ''  FROM account_receivable ar'',
      ''  JOIN sale s ON s.id = ar."saleId"'',
      ''  JOIN booking b ON b.id = s."bookingId"'',
      ''  JOIN "order" o ON o.id = b."orderId"'',
      ''  JOIN personal_details pd ON pd."userId" = b."userId"'',
      ''  JOIN contact_info ci ON ci."userId" = b."userId"'',
      ''  JOIN house h ON h.id = o."houseId"'',
      ''  JOIN commune c ON c.id = h."communeId"'',
      ''  LEFT JOIN solar_system_sale sss ON sss."saleId" = s.id'',
      ''  LEFT JOIN solar_system_contract ssc ON ssc.id = sss."solarSystemContractId"'',
      ''  LEFT JOIN LATERAL ('',
      ''    SELECT'',
      ''      STRING_AGG('',
      ''        DISTINCT NULLIF(BTRIM(CONCAT_WS(' ','',
      ''          person."firstName", person."middleName", person."lastName", person."secondLastName"'',
      ''        )), '' @ [CHR 0x27] @ [CHR 0x27] @ ''),'',
      ''        ' | '' @ [CHR 0x27],
      ''      ) AS names,'',
      ''      STRING_AGG(DISTINCT person.rut, ' | ') AS ruts,'',
      ''      STRING_AGG(DISTINCT person.phone, ' | ') AS phones,'',
      ''      STRING_AGG(DISTINCT signer.email, ' | ') AS emails'',
      ''    FROM signee signer'',
      ''    LEFT JOIN natural_person person ON person."signeeId" = signer.id'',
      ''    WHERE signer."contractId" = ssc."contractId"'',
      ''  ) signees ON TRUE'',
      ''  JOIN LATERAL ('',
      ''    SELECT installation.id'',
      ''    FROM solar_system_installation installation'',
      ''    WHERE installation."saleId" = s.id AND installation."canceledAt" IS NULL'',
      ''    LIMIT 1'',
      ''  ) ssi ON TRUE'',
      ''  LEFT JOIN LATERAL ('',
      ''    SELECT COALESCE(SUM(p.amount), 0) AS paid_amount'',
      ''    FROM account_receivable_payment p'',
      ''    WHERE p."accountReceivableId" = ar.id'',
      ''      AND p.currency = ar.currency'',
      ''      AND p."deletedAt" IS NULL'',
      ''  ) pa ON TRUE'',
      ''  LEFT JOIN LATERAL ('',
      ''    SELECT COALESCE(SUM(l.amount), 0) AS lost_amount'',
      ''    FROM account_receivable_loss l'',
      ''    WHERE l."accountReceivableId" = ar.id'',
      ''      AND l.currency = ar.currency'',
      ''      AND l."deletedAt" IS NULL'',
      ''  ) la ON TRUE'',
      ''  LEFT JOIN LATERAL ('',
      ''    SELECT STRING_AGG(DISTINCT account."fullName", ' | ') AS "fullName",'',
      ''           STRING_AGG(DISTINCT account.rut, ' | ') AS rut,'',
      ''           STRING_AGG(DISTINCT account."accountNumber", ' | ') AS "accountNumber"'',
      ''    FROM bank_account account'',
      ''    WHERE account."solarSystemInstallationId" = ssi.id'',
      ''  ) ba ON TRUE'',
      ''  LEFT JOIN LATERAL ('',
      ''    SELECT STRING_AGG(DISTINCT account."fullName", ' | ') AS "fullName",'',
      ''           STRING_AGG(DISTINCT account.rut, ' | ') AS rut,'',
      ''           STRING_AGG(DISTINCT account."accountNumber", ' | ') AS "accountNumber"'',
      ''    FROM certification_user certification'',
      ''    JOIN chile_bank_account account ON account.id = certification."chileBankAccountId"'',
      ''    WHERE certification."bookingId" = b.id'',
      ''  ) cba ON TRUE'',
      ''  WHERE ar."canceledAt" IS NULL'',
      ''    AND ar.debtor = 'client'' @ [CHR 0x27],
      ''    AND ar.recipient = 'ruuf'' @ [CHR 0x27],
      ''    AND GREATEST('',
      ''      ar.amount - COALESCE(pa.paid_amount, 0) - COALESCE(la.lost_amount, 0), 0'',
      ''    ) > 0'',
      '')'',
      ''SELECT * FROM candidate_core'',
      []]\<close>

definition customer_identity_core :: string where
  \<open>customer_identity_core = str_join [CHR 0x0A]
     [[],
      ''SELECT'',
      ''  pd."firstName" || ' ' || pd."lastName" AS customer_name,'',
      ''  pd.rut AS customer_rut,'',
      ''  ci.email AS customer_email,'',
      ''  ci.phone AS customer_phone,'',
      ''  signees.names AS signee_names,'',
      ''  signees.ruts AS signee_ruts,'',
      ''  signees.phones AS signee_phones,'',
      ''  signees.emails AS signee_emails,'',
      ''  CONCAT_WS(' | ', pd."firstName" || ' ' || pd."lastName", signees.names) AS identity_names,'',
      ''  o.id AS order_id,'',
      ''  o."orderNumber" AS order_number,'',
      ''  CONCAT_WS(' ', h."addressStreet", h."addressExternalNumber", h."addressInternalNumber", c.name)'',
      ''    AS full_address'',
      ''FROM sale s'',
      ''JOIN booking b ON b.id = s."bookingId"'',
      ''JOIN "order" o ON o.id = b."orderId"'',
      ''JOIN personal_details pd ON pd."userId" = b."userId"'',
      ''JOIN contact_info ci ON ci."userId" = b."userId"'',
      ''JOIN house h ON h.id = o."houseId"'',
      ''JOIN commune c ON c.id = h."communeId"'',
      ''LEFT JOIN solar_system_sale sss ON sss."saleId" = s.id'',
      ''LEFT JOIN solar_system_contract ssc ON ssc.id = sss."solarSystemContractId"'',
      ''LEFT JOIN LATERAL ('',
      ''  SELECT'',
      ''    STRING_AGG('',
      ''      DISTINCT NULLIF(BTRIM(CONCAT_WS(' ','',
      ''        person."firstName", person."middleName", person."lastName", person."secondLastName"'',
      ''      )), '' @ [CHR 0x27] @ [CHR 0x27] @ ''),'',
      ''      ' | '' @ [CHR 0x27],
      ''    ) AS names,'',
      ''    STRING_AGG(DISTINCT person.rut, ' | ') AS ruts,'',
      ''    STRING_AGG(DISTINCT person.phone, ' | ') AS phones,'',
      ''    STRING_AGG(DISTINCT signer.email, ' | ') AS emails'',
      ''  FROM signee signer'',
      ''  LEFT JOIN natural_person person ON person."signeeId" = signer.id'',
      ''  WHERE signer."contractId" = ssc."contractId"'',
      '') signees ON TRUE'',
      []]\<close>

definition installment_lateral :: "string \<Rightarrow> string" where
  \<open>installment_lateral source =
   (str_join [CHR 0x0A]
     [[],
      ''LEFT JOIN LATERAL ('',
      ''  SELECT STRING_AGG('',
      ''           CONCAT(t.name, ' ', ROUND(i.percentage * 100, 1), '%','',
      ''             CASE WHEN i."disbursementDate" IS NULL THEN '' @ [CHR 0x27] @ [CHR 0x27],
      ''                  ELSE CONCAT(' (', i."disbursementDate"::date, ')') END),'',
      ''           ', ' ORDER BY i."disbursementDate" NULLS LAST, i."createdAt"'',
      ''         ) AS installment_summary'',
      ''  FROM account_receivable_installment i'',
      ''  JOIN account_receivable_installment_type t ON t.id = i."typeId"'',
      ''  WHERE i."accountReceivableId" = ''])
   @ source @
   (str_join [CHR 0x0A]
     [''.account_receivable_id'',
      '') ia ON TRUE'',
      []])\<close>

section \<open>Conditions and their parameters\<close>

text \<open>The parameters so far, and the named conditions so far.\<close>

type_synonym matching = "sql_arg list \<times> (string \<times> string) list"

definition next_parameter :: "sql_arg list \<Rightarrow> string" where
  \<comment> \<open>the placeholder of a value about to be appended\<close>
  "next_parameter params = placeholder (Suc (length params))"

definition token_match :: "string \<Rightarrow> string" where
  \<open>token_match p = ''(SELECT COUNT(DISTINCT token.value) FROM UNNEST('' @ p @
     ''::text[]) AS token(value) WHERE (' ' || REGEXP_REPLACE(immutable_unaccent(LOWER(identity_names)), '[^a-z0-9]+', ' ', 'g') || ' ') LIKE '% ' || immutable_unaccent(LOWER(token.value)) || ' %') >= 2''\<close>

definition names_token_exists :: "string \<Rightarrow> string" where
  \<open>names_token_exists p = ''EXISTS (SELECT 1 FROM UNNEST('' @ p @
     ''::text[]) AS token(value) WHERE immutable_unaccent(LOWER(identity_names)) LIKE '%' || immutable_unaccent(LOWER(token.value)) || '%')''\<close>

definition address_token_exists :: "string \<Rightarrow> string" where
  \<open>address_token_exists p = ''EXISTS (SELECT 1 FROM UNNEST('' @ p @
     ''::text[]) AS token(value) WHERE immutable_unaccent(LOWER(full_address)) LIKE '%' || immutable_unaccent(LOWER(token.value)) || '%')''\<close>

definition names_like :: "string \<Rightarrow> string \<Rightarrow> string" where
  \<open>names_like p tokens = ''(immutable_unaccent(LOWER(identity_names)) LIKE '%' || immutable_unaccent(LOWER('' @ p @ '')) || '%' OR '' @ tokens @ '')''\<close>

definition address_step :: "payment_candidate_query \<Rightarrow> matching \<Rightarrow> matching" where
  \<open>address_step q m =
     (let params = fst m; matches = snd m; glosa = given (pq_glosa_or_address q) in
      if glosa = [] then m
      else let p = next_parameter params;
               params1 = params @ [Arg_text glosa];
               matches1 = matches @ [(''address_match'',
                 ''(immutable_unaccent(LOWER(full_address)) LIKE '%' || immutable_unaccent(LOWER('' @ p @
                 '')) || '%' OR immutable_unaccent(LOWER('' @ p @
                 '')) LIKE '%' || immutable_unaccent(LOWER(full_address)) || '%')'')];
               tokens = glosa_name_tokens glosa;
               t = next_parameter params1
        in if tokens = [] then (params1, matches1)
           else (params1 @ [Arg_texts tokens],
                 matches1 @ [(''glosa_name_match'', names_token_exists t),
                             (''glosa_address_token_match'', address_token_exists t)]))\<close>

definition name_tokens_step :: "string \<Rightarrow> sql_arg list \<Rightarrow> sql_arg list \<times> string" where
  \<comment> \<open>the tokens of a name become a parameter when there are two or more\<close>
  "name_tokens_step name params =
     (let tokens = sorted_texts (person_name_tokens name)
      in if 2 \<le> length tokens
         then (params @ [Arg_texts tokens], token_match (next_parameter params))
         else (params, ''FALSE''))"

definition transferor_step :: "payment_candidate_query \<Rightarrow> matching \<Rightarrow> matching" where
  \<open>transferor_step q m =
     (let params = fst m; matches = snd m; name = given (pq_transferor_name q) in
      if name = [] then m
      else let p = next_parameter params;
               step = name_tokens_step name (params @ [Arg_text name])
        in (fst step,
            matches @ [(''customer_name_match'', names_like p (snd step)),
                       (''bank_name_match'',
                        ''immutable_unaccent(LOWER(CONCAT_WS(' ', legacy_bank_name, normalized_bank_name))) LIKE '%' || immutable_unaccent(LOWER('' @ p @ '')) || '%'' @ [CHR 0x27])]))\<close>

definition rut_step :: "payment_candidate_query \<Rightarrow> matching \<Rightarrow> matching" where
  \<open>rut_step q m =
     (let v = given (pq_transferor_rut q) in
      if v = [] then m
      else (fst m @ [Arg_text v],
            snd m @ [(''rut_match'',
              ''REGEXP_REPLACE(CONCAT_WS(' ', customer_rut, signee_ruts, legacy_bank_rut, normalized_bank_rut), '[^0-9]', '' @ [CHR 0x27] @ [CHR 0x27] @ '', 'g') LIKE '%' || REGEXP_REPLACE('' @ next_parameter (fst m) @
              '', '[^0-9]', '' @ [CHR 0x27] @ [CHR 0x27] @ '', 'g') || '%'' @ [CHR 0x27])]))\<close>

definition account_step :: "payment_candidate_query \<Rightarrow> matching \<Rightarrow> matching" where
  \<open>account_step q m =
     (let v = given (pq_origin_account_number q) in
      if v = [] then m
      else (fst m @ [Arg_text v],
            snd m @ [(''bank_account_match'',
              ''REGEXP_REPLACE(CONCAT_WS(' ', legacy_bank_account, normalized_bank_account), '[^0-9]', '' @ [CHR 0x27] @ [CHR 0x27] @ '', 'g') LIKE '%' || REGEXP_REPLACE('' @ next_parameter (fst m) @
              '', '[^0-9]', '' @ [CHR 0x27] @ [CHR 0x27] @ '', 'g') || '%'' @ [CHR 0x27])]))\<close>

definition email_step :: "payment_candidate_query \<Rightarrow> matching \<Rightarrow> matching" where
  \<open>email_step q m =
     (let v = given (pq_email q) in
      if v = [] then m
      else (fst m @ [Arg_text (str_lower v)],
            snd m @ [(''email_match'',
              ''(' | ' || LOWER(CONCAT_WS(' | ', customer_email, signee_emails)) || ' | ') LIKE '% | ' || '' @ next_parameter (fst m) @
              '' || ' | %'' @ [CHR 0x27])]))\<close>

definition phone_step :: "payment_candidate_query \<Rightarrow> matching \<Rightarrow> matching" where
  \<open>phone_step q m =
     (let v = given (pq_phone q) in
      if v = [] then m
      else (fst m @ [Arg_text v],
            snd m @ [(''phone_match'',
              ''REGEXP_REPLACE(CONCAT_WS(' ', customer_phone, signee_phones), '[^0-9]', '' @ [CHR 0x27] @ [CHR 0x27] @ '', 'g') LIKE '%' || REGEXP_REPLACE('' @ next_parameter (fst m) @
              '', '[^0-9]', '' @ [CHR 0x27] @ [CHR 0x27] @ '', 'g') || '%'' @ [CHR 0x27])]))\<close>

definition amount_step :: "payment_candidate_query \<Rightarrow> matching \<Rightarrow> matching" where
  \<open>amount_step q m =
     (case pq_amount q of
        None \<Rightarrow> m
      | Some amount \<Rightarrow>
          (let params = fst m; a = next_parameter params; params1 = params @ [Arg_number amount];
               c = next_parameter params1
           in (params1 @ [Arg_text (if DataTools.truthy (pq_currency q) then the (pq_currency q) else ''CLP'')],
               snd m @ [(''amount_match'',
                 ''outstanding_amount = '' @ a @ ''::numeric AND currency = '' @ c)])))\<close>

definition search_matching :: "payment_candidate_query \<Rightarrow> matching" where
  "search_matching q =
     amount_step q (phone_step q (email_step q (account_step q (rut_step q (transferor_step q
       (address_step q ([], [])))))))"

definition select_matches :: "(string \<times> string) list \<Rightarrow> string" where
  \<open>select_matches matches =
     str_join ('','' @ [CHR 0x0A]) (map (\<lambda>(name, expression). expression @ '' AS '' @ name) matches)\<close>

definition match_ordering :: "(string \<times> string) list \<Rightarrow> string" where
  \<open>match_ordering matches = str_join '', '' (map (\<lambda>(name, _). name @ '' DESC'') matches)\<close>

definition match_any :: "(string \<times> string) list \<Rightarrow> string" where
  \<open>match_any matches = str_join '' OR '' (map fst matches)\<close>

definition search_query :: "(string \<times> string) list \<Rightarrow> string" where
  \<open>search_query matches =
       (str_join [CHR 0x0A]
        [[],
         ''        WITH eligible AS (''])
       @ candidate_core
       @ (str_join [CHR 0x0A]
        [''), scored AS ('',
         ''          SELECT eligible.*, ''])
       @ select_matches matches
       @ (str_join [CHR 0x0A]
        ['' FROM eligible'',
         ''        ), matched AS ('',
         ''          SELECT * FROM scored'',
         ''          WHERE ''])
       @ match_any matches
       @ (str_join [CHR 0x0A]
        [[],
         ''          ORDER BY ''])
       @ match_ordering matches
       @ (str_join [CHR 0x0A]
        ['', order_number DESC'',
         ''          LIMIT 21'',
         ''        )'',
         ''        SELECT matched.customer_name, matched.customer_rut, matched.customer_email,'',
         ''               matched.customer_phone, matched.signee_names, matched.signee_ruts,'',
         ''               matched.signee_phones, matched.signee_emails, matched.identity_names,'',
         ''               order_id, order_number, account_receivable_id, account_receivable_type,'',
         ''               account_receivable_amount, currency, outstanding_amount, installment_summary,'',
         ''               full_address, legacy_bank_name, legacy_bank_rut, legacy_bank_account,'',
         ''               normalized_bank_name, normalized_bank_rut, normalized_bank_account'',
         ''        FROM matched'',
         ''        ''])
       @ installment_lateral ''matched''
       @ (str_join [CHR 0x0A]
        [[],
         ''        ORDER BY ''])
       @ match_ordering matches
       @ (str_join [CHR 0x0A]
        ['', order_number DESC'',
         ''        ''])\<close>

section \<open>The search for identities\<close>

definition historical_step :: "payment_candidate_query \<Rightarrow> matching \<Rightarrow> matching" where
  \<open>historical_step q m =
     (let glosa = given (pq_glosa_or_address q) in
      if glosa = [] then m
      else (fst m @ [Arg_texts (glosa_name_tokens glosa)],
            snd m @ [(''historical_address_match'', address_token_exists (next_parameter (fst m)))]))\<close>

definition identity_name_step :: "string \<Rightarrow> string \<Rightarrow> matching \<Rightarrow> matching" where
  \<open>identity_name_step alias name m =
     (if name = [] then m
      else let p = next_parameter (fst m);
               step = name_tokens_step name (fst m @ [Arg_text name])
        in (fst step, snd m @ [(alias, names_like p (snd step))]))\<close>

definition identity_rut_step :: "payment_candidate_query \<Rightarrow> matching \<Rightarrow> matching" where
  \<open>identity_rut_step q m =
     (let v = given (pq_transferor_rut q) in
      if v = [] then m
      else (fst m @ [Arg_text v],
            snd m @ [(''rut_identity_match'',
              ''REGEXP_REPLACE(CONCAT_WS(' ', customer_rut, signee_ruts), '[^0-9]', '' @ [CHR 0x27] @ [CHR 0x27] @ '', 'g') LIKE '%' || REGEXP_REPLACE('' @ next_parameter (fst m) @
              '', '[^0-9]', '' @ [CHR 0x27] @ [CHR 0x27] @ '', 'g') || '%'' @ [CHR 0x27])]))\<close>

definition identity_email_step :: "payment_candidate_query \<Rightarrow> matching \<Rightarrow> matching" where
  \<open>identity_email_step q m =
     (let v = given (pq_email q) in
      if v = [] then m
      else (fst m @ [Arg_text (str_lower v)],
            snd m @ [(''email_identity_match'',
              ''(' | ' || LOWER(CONCAT_WS(' | ', customer_email, signee_emails)) || ' | ') LIKE '% | ' || '' @ next_parameter (fst m) @
              '' || ' | %'' @ [CHR 0x27])]))\<close>

definition identity_phone_step :: "payment_candidate_query \<Rightarrow> matching \<Rightarrow> matching" where
  \<open>identity_phone_step q m =
     (let v = given (pq_phone q) in
      if v = [] then m
      else (fst m @ [Arg_text v],
            snd m @ [(''phone_identity_match'',
              ''REGEXP_REPLACE(CONCAT_WS(' ', customer_phone, signee_phones), '[^0-9]', '' @ [CHR 0x27] @ [CHR 0x27] @ '', 'g') LIKE '%' || REGEXP_REPLACE('' @ next_parameter (fst m) @
              '', '[^0-9]', '' @ [CHR 0x27] @ [CHR 0x27] @ '', 'g') || '%'' @ [CHR 0x27])]))\<close>

definition identity_matching :: "payment_candidate_query \<Rightarrow> matching" where
  "identity_matching q =
     identity_phone_step q (identity_email_step q (identity_rut_step q
       (identity_name_step ''glosa_identity_match'' (given (pq_glosa_or_address q))
         (identity_name_step ''transferor_identity_match'' (given (pq_transferor_name q))
           (historical_step q ([], []))))))"

definition identity_query :: "(string \<times> string) list \<Rightarrow> string" where
  \<open>identity_query matches =
       (str_join [CHR 0x0A]
        [[],
         ''        WITH identities AS (''])
       @ customer_identity_core
       @ (str_join [CHR 0x0A]
        [''), scored AS ('',
         ''          SELECT identities.*, ''])
       @ select_matches matches
       @ (str_join [CHR 0x0A]
        ['' FROM identities'',
         ''        )'',
         ''        SELECT customer_name, customer_rut, customer_email, customer_phone,'',
         ''               signee_names, signee_ruts, signee_phones, signee_emails,'',
         ''               identity_names, order_id, order_number, full_address'',
         ''        FROM scored'',
         ''        WHERE ''])
       @ match_any matches
       @ (str_join [CHR 0x0A]
        [[],
         ''        ORDER BY ''])
       @ match_ordering matches
       @ (str_join [CHR 0x0A]
        ['', order_number DESC'',
         ''        LIMIT 21'',
         ''        ''])\<close>

section \<open>The other queries\<close>

definition verify_query :: "string \<Rightarrow> string" where
  \<open>verify_query predicate =
       (str_join [CHR 0x0A]
        [[],
         ''            WITH eligible AS (''])
       @ candidate_core
       @ (str_join [CHR 0x0A]
        ['')'',
         ''            SELECT eligible.*, ia.installment_summary'',
         ''            FROM eligible'',
         ''            ''])
       @ installment_lateral ''eligible''
       @ (str_join [CHR 0x0A]
        [[],
         ''            WHERE ''])
       @ predicate
       @ (str_join [CHR 0x0A]
        [[],
         ''            ''])\<close>

definition verify_identity_query :: string where
  \<open>verify_identity_query =
       (str_join [CHR 0x0A]
        [[],
         ''                WITH identities AS (''])
       @ customer_identity_core
       @ (str_join [CHR 0x0A]
        ['')'',
         ''                SELECT * FROM identities WHERE order_id = $1'',
         ''                ''])\<close>

definition vambe_identity_query :: string where
  \<open>vambe_identity_query = str_join [CHR 0x0A]
     [[],
      ''                SELECT b."userId" AS user_id, ci.phone'',
      ''                FROM booking b'',
      ''                JOIN "order" o ON o.id = b."orderId"'',
      ''                JOIN contact_info ci ON ci."userId" = b."userId"'',
      ''                WHERE o.id = $1'',
      ''                '']\<close>

definition vambe_query_text :: string where
  \<open>vambe_query_text = str_join [CHR 0x0A]
     [[],
      ''            SELECT id, "createdAt", direction, type,'',
      ''                   CASE WHEN type IN ('text', 'button', 'template')'',
      ''                        THEN content ELSE NULL END AS content,'',
      ''                   CASE WHEN type IN ('image', 'video', 'audio', 'document')'',
      ''                        THEN '[adjunto hist'' @ [CHR 0xF3] @ ''rico no disponible]'' @ [CHR 0x27],
      ''                        ELSE NULL END AS attachment_limitation,'',
      ''                   "phoneNumber", status, "stageId", "senderId"'',
      ''            FROM vambe_message'',
      ''            WHERE (($1::uuid IS NOT NULL AND "userId" = $1::uuid)'',
      ''                   OR ($2::text IS NOT NULL AND "phoneNumber" = $2::text))'',
      ''              AND "createdAt" >= $3 AND "createdAt" < $4'',
      ''              AND ($5::text IS NULL OR content ILIKE '%' || $5::text || '%')'',
      ''            ORDER BY "createdAt" DESC'',
      ''            '']\<close>

section \<open>Values never enter the text\<close>

text \<open>Two requests are shaped alike when the same fields are filled and their texts agree on whether
  they have name tokens; the values themselves are not compared.\<close>

definition same_fields :: "payment_candidate_query \<Rightarrow> payment_candidate_query \<Rightarrow> bool" where
  "same_fields a b \<longleftrightarrow>
     list_all2 (\<lambda>x y. (given x = []) = (given y = [])) (identity_fields a) (identity_fields b)
     \<and> (pq_amount a = None) = (pq_amount b = None)
     \<and> (glosa_name_tokens (given (pq_glosa_or_address a)) = [])
        = (glosa_name_tokens (given (pq_glosa_or_address b)) = [])
     \<and> (2 \<le> length (person_name_tokens (given (pq_glosa_or_address a))))
        = (2 \<le> length (person_name_tokens (given (pq_glosa_or_address b))))
     \<and> (2 \<le> length (person_name_tokens (given (pq_transferor_name a))))
        = (2 \<le> length (person_name_tokens (given (pq_transferor_name b))))"

definition alike :: "matching \<Rightarrow> matching \<Rightarrow> bool" where
  "alike m m' \<longleftrightarrow> length (fst m) = length (fst m') \<and> snd m = snd m'"

lemma alike_refl [simp]: "alike m m"
  by (simp add: alike_def)

lemma name_tokens_step_alike:
  assumes "length ps = length ps'"
    "(2 \<le> length (person_name_tokens n)) = (2 \<le> length (person_name_tokens n'))"
  shows "length (fst (name_tokens_step n ps)) = length (fst (name_tokens_step n' ps'))"
    "snd (name_tokens_step n ps) = snd (name_tokens_step n' ps')"
  using assms by (simp_all add: name_tokens_step_def next_parameter_def Let_def)

lemma address_step_alike:
  assumes "alike m m'" "same_fields a b"
  shows "alike (address_step a m) (address_step b m')"
  using assms
  by (simp add: alike_def same_fields_def identity_fields_def address_step_def next_parameter_def Let_def)

lemma transferor_step_alike:
  assumes "alike m m'" "same_fields a b"
  shows "alike (transferor_step a m) (transferor_step b m')"
proof -
  let ?n = "given (pq_transferor_name a)" and ?n' = "given (pq_transferor_name b)"
  have f: "(?n = []) = (?n' = [])"
    "(2 \<le> length (person_name_tokens ?n)) = (2 \<le> length (person_name_tokens ?n'))"
    using assms(2) by (simp_all add: same_fields_def identity_fields_def)
  have l: "length (fst m @ [Arg_text ?n]) = length (fst m' @ [Arg_text ?n'])" "snd m = snd m'"
    using assms(1) by (simp_all add: alike_def)
  show ?thesis
    using f l name_tokens_step_alike [OF l(1) f(2)]
    by (simp add: alike_def transferor_step_def next_parameter_def Let_def)
qed

lemma field_steps_alike:
  assumes "alike m m'" "same_fields a b"
  shows "alike (rut_step a m) (rut_step b m')" "alike (account_step a m) (account_step b m')"
    "alike (email_step a m) (email_step b m')" "alike (phone_step a m) (phone_step b m')"
    "alike (identity_rut_step a m) (identity_rut_step b m')"
    "alike (identity_email_step a m) (identity_email_step b m')"
    "alike (identity_phone_step a m) (identity_phone_step b m')"
    "alike (historical_step a m) (historical_step b m')"
  using assms
  by (simp_all add: alike_def same_fields_def identity_fields_def next_parameter_def Let_def
      rut_step_def account_step_def email_step_def phone_step_def identity_rut_step_def
      identity_email_step_def identity_phone_step_def historical_step_def)

lemma amount_step_alike:
  assumes "alike m m'" "same_fields a b"
  shows "alike (amount_step a m) (amount_step b m')"
  using assms
  by (cases "pq_amount a"; cases "pq_amount b")
    (simp_all add: alike_def same_fields_def amount_step_def next_parameter_def Let_def)

lemma identity_name_step_alike:
  assumes "alike m m'" "(n = []) = (n' = [])"
    "(2 \<le> length (person_name_tokens n)) = (2 \<le> length (person_name_tokens n'))"
  shows "alike (identity_name_step c n m) (identity_name_step c n' m')"
proof -
  have l: "length (fst m @ [Arg_text n]) = length (fst m' @ [Arg_text n'])" "snd m = snd m'"
    using assms(1) by (simp_all add: alike_def)
  show ?thesis
    using assms(2) l name_tokens_step_alike [OF l(1) assms(3)]
    by (simp add: alike_def identity_name_step_def next_parameter_def Let_def)
qed

lemma search_matching_alike: "same_fields a b \<Longrightarrow> alike (search_matching a) (search_matching b)"
  unfolding search_matching_def
  by (intro amount_step_alike field_steps_alike(1-4) transferor_step_alike address_step_alike alike_refl)

lemma identity_matching_alike: "same_fields a b \<Longrightarrow> alike (identity_matching a) (identity_matching b)"
  unfolding identity_matching_def
  by (intro field_steps_alike(5-8) identity_name_step_alike alike_refl)
    (simp_all add: same_fields_def identity_fields_def)

text \<open>Nothing a person wrote reaches SQL text. The two candidate searches of two requests with the
  same fields filled (and names that have tokens, or do not, alike) are the same text with the same
  number of parameters, whatever the names, addresses, tax numbers, accounts, mails, phones, amounts
  and currencies are; only the parameters differ.\<close>

theorem search_text_hides_values:
  assumes "same_fields a b"
  shows "search_query (snd (search_matching a)) = search_query (snd (search_matching b))
    \<and> identity_query (snd (identity_matching a)) = identity_query (snd (identity_matching b))
    \<and> length (fst (search_matching a)) = length (fst (search_matching b))
    \<and> length (fst (identity_matching a)) = length (fst (identity_matching b))"
  using search_matching_alike [OF assms] identity_matching_alike [OF assms] by (simp add: alike_def)

definition phone_query :: "string \<Rightarrow> payment_candidate_query" where
  "phone_query v = \<lparr>pq_glosa_or_address = None, pq_transferor_name = None, pq_transferor_rut = None,
     pq_origin_account_number = None, pq_email = None, pq_phone = Some v, pq_amount = None,
     pq_currency = None, pq_payment_date = None\<rparr>"

lemma search_text_hides_values_witness:
  \<open>search_query (snd (search_matching (phone_query ''+56 9 1234'')))
   = search_query (snd (search_matching (phone_query (''x' OR 1=1; --''))))\<close>
proof -
  have \<open>same_fields (phone_query ''+56 9 1234'') (phone_query (''x' OR 1=1; --''))\<close>
    by (simp add: same_fields_def phone_query_def identity_fields_def given_def)
  then show ?thesis using search_text_hides_values by blast
qed

end
