(* ===== verification/SqlPolicy.thy ===== *)
theory SqlPolicy
  imports Scope
begin

text \<open>
  The policy for SQL the model writes (\<open>replica/sql_policy.py\<close>). The parser is a third-party package:
  its syntax nodes are an abstract type \<open>'n\<close> (equality is object identity) and what the policy asks of
  them is a record of functions, one for each method or attribute the code uses. The hash is a
  parameter as well.
\<close>

section \<open>The parser's interface\<close>

record 'n sqlglot =
  sg_parse :: "string \<Rightarrow> exn_name + 'n option list"     \<comment> \<open>\<open>parse(sql, read="postgres")\<close>\<close>
  sg_is :: "'n \<Rightarrow> string \<Rightarrow> bool"                        \<comment> \<open>\<open>isinstance(node, exp.C)\<close>\<close>
  sg_find_all :: "'n \<Rightarrow> string \<Rightarrow> 'n list"                \<comment> \<open>\<open>node.find_all(exp.C)\<close>\<close>
  sg_arg :: "'n \<Rightarrow> string \<Rightarrow> 'n option"                   \<comment> \<open>\<open>node.args.get(key)\<close>, a node or \<open>None\<close>\<close>
  sg_arg_true :: "'n \<Rightarrow> string \<Rightarrow> bool"                  \<comment> \<open>the truth of \<open>node.args.get(key)\<close>\<close>
  sg_arg_text :: "'n \<Rightarrow> string \<Rightarrow> string"                \<comment> \<open>\<open>str(node.args.get(key) or "")\<close>\<close>
  sg_projections :: "'n \<Rightarrow> 'n list"                      \<comment> \<open>\<open>select.expressions\<close>\<close>
  sg_unalias :: "'n \<Rightarrow> 'n"
  sg_is_star :: "'n \<Rightarrow> bool"
  sg_this :: "'n \<Rightarrow> 'n"
  sg_name :: "'n \<Rightarrow> string"
  sg_db :: "'n \<Rightarrow> string"
  sg_catalog :: "'n \<Rightarrow> string"
  sg_sql_name :: "'n \<Rightarrow> string"
  sg_scopes :: "'n \<Rightarrow> exn_name + ('n \<times> bool) list list"
    \<comment> \<open>\<open>traverse_scope\<close>: for each scope its selected sources, and whether each is itself a scope\<close>
  sg_sql :: "'n \<Rightarrow> ('n \<times> string) list \<Rightarrow> string"
    \<comment> \<open>\<open>statement.sql(dialect="postgres")\<close> after \<open>table.set("db", schema)\<close> on the listed tables\<close>

datatype sql_failure =
  Sql_policy_error string   \<comment> \<open>\<open>SqlPolicyError(message)\<close>\<close>
| Sql_other exn_name        \<comment> \<open>an exception of the parser that the code does not catch\<close>

record validated_sql =
  vs_normalized_sql :: string
  vs_fingerprint :: string
  vs_relations :: "string list"

definition forbidden_nodes :: "string list" where
  "forbidden_nodes = [''Alter'', ''Command'', ''Copy'', ''Create'', ''Delete'', ''Drop'', ''Insert'',
     ''Merge'', ''Set'', ''Transaction'', ''Update'']"

section \<open>The checks, in the order of the code\<close>

fun bindP :: "sql_failure + 'a \<Rightarrow> ('a \<Rightarrow> sql_failure + 'b) \<Rightarrow> sql_failure + 'b" where
  "bindP (Inl e) f = Inl e"
| "bindP (Inr x) f = f x"

definition refuse_if :: "bool \<Rightarrow> string \<Rightarrow> sql_failure + unit" where
  "refuse_if b message = (if b then Inl (Sql_policy_error message) else Inr ())"

fun first_failure :: "('a \<Rightarrow> sql_failure + unit) \<Rightarrow> 'a list \<Rightarrow> sql_failure + unit" where
  "first_failure f [] = Inr ()"
| "first_failure f (x # xs) = bindP (f x) (\<lambda>_. first_failure f xs)"

definition is_wildcard :: "'n sqlglot \<Rightarrow> 'n \<Rightarrow> bool" where
  "is_wildcard sg projection =
     (let v = sg_unalias sg projection
      in sg_is sg v ''Star'' \<or> (sg_is sg v ''Column'' \<and> sg_is_star sg v))"

definition check_select :: "'n sqlglot \<Rightarrow> 'n \<Rightarrow> sql_failure + unit" where
  "check_select sg select =
     bindP (refuse_if (sg_arg sg select ''into'' \<noteq> None \<or> sg_arg_true sg select ''locks'')
              ''SELECT INTO and row-locking clauses are not allowed'') (\<lambda>_.
     first_failure (\<lambda>p. refuse_if (is_wildcard sg p)
       ''SELECT * is not allowed; name the required columns'') (sg_projections sg select))"

definition table_name :: "'n sqlglot \<Rightarrow> 'n \<Rightarrow> string" where
  "table_name sg table =
     (if sg_arg_true sg (sg_this sg table) ''quoted'' then sg_name sg table
      else str_lower (sg_name sg table))"

definition table_schema :: "'n sqlglot \<Rightarrow> 'n \<Rightarrow> string" where
  "table_schema sg table =
     (case sg_arg sg table ''db'' of
        Some db \<Rightarrow> (if sg_arg_true sg db ''quoted'' then sg_db sg table else str_lower (sg_db sg table))
      | None \<Rightarrow> str_lower (sg_db sg table))"

definition or_public :: "string \<Rightarrow> string" where
  "or_public schema = (if schema = [] then ''public'' else schema)"

definition is_cte_reference :: "'n sqlglot \<Rightarrow> 'n list \<Rightarrow> 'n \<Rightarrow> bool" where
  "is_cte_reference sg cte_references table \<longleftrightarrow>
     table \<in> set cte_references \<and> table_schema sg table = [] \<and> sg_catalog sg table = []"

definition check_table ::
  "'n sqlglot \<Rightarrow> 'n list \<Rightarrow> relation_name list \<Rightarrow> 'n \<Rightarrow> sql_failure + unit" where
  "check_table sg cte_references allowed table =
     bindP (refuse_if (sg_is sg (sg_this sg table) ''Func'') ''table functions are not allowed'') (\<lambda>_.
     if is_cte_reference sg cte_references table then Inr ()
     else
     bindP (refuse_if (sg_catalog sg table \<noteq> []) ''cross-database relations are not allowed'') (\<lambda>_.
     bindP (refuse_if (starts_with ''pg_'' (table_schema sg table)
                       \<or> table_schema sg table = ''information_schema'')
              ''catalog access is not allowed'') (\<lambda>_.
     refuse_if ((or_public (table_schema sg table), table_name sg table) \<notin> set allowed)
       (''relation is not allowed: '' @ table_name sg table))))"

definition shown_relation :: "'n sqlglot \<Rightarrow> 'n \<Rightarrow> string" where
  "shown_relation sg table =
     (if table_schema sg table \<noteq> [] then table_schema sg table @ ''.'' @ table_name sg table
      else table_name sg table)"

definition upper_chars :: "char \<Rightarrow> string" where
  "upper_chars c =
     (let n = code c in
      if n = 223 then ''SS''
      else if (97 \<le> n \<and> n \<le> 122) \<or> (224 \<le> n \<and> n \<le> 254 \<and> n \<noteq> 247) then [char_of (n - 32)]
      else if n = 154 then [CHR 0x8A] else if n = 156 then [CHR 0x8C]
      else if n = 158 then [CHR 0x8E] else if n = 255 then [CHR 0x9F]
      else [c])"

definition str_upper :: "string \<Rightarrow> string" where
  "str_upper s = concat (map upper_chars s)"

definition check_join :: "'n sqlglot \<Rightarrow> 'n \<Rightarrow> sql_failure + unit" where
  "check_join sg join =
     refuse_if (str_upper (sg_arg_text sg join ''kind'') = ''CROSS''
                \<or> (sg_arg sg join ''on'' = None \<and> sg_arg sg join ''using'' = None))
       ''cartesian joins are not allowed''"

definition function_name :: "'n sqlglot \<Rightarrow> 'n \<Rightarrow> string" where
  "function_name sg f =
     str_lower (if sg_is sg f ''Anonymous'' then sg_name sg f else sg_sql_name sg f)"

definition check_function :: "'n sqlglot \<Rightarrow> string list \<Rightarrow> 'n \<Rightarrow> sql_failure + unit" where
  "check_function sg safe f =
     refuse_if (function_name sg f \<noteq> [] \<and> function_name sg f \<notin> set safe)
       (''function is not allowed: '' @ function_name sg f)"

definition allowed_relations :: "data_scope \<Rightarrow> relation_name list option \<Rightarrow> relation_name list" where
  "allowed_relations scope readable =
     (case readable of Some rs \<Rightarrow> rs
      | None \<Rightarrow> map (\<lambda>n. (''public'', n)) (relation_names scope))"

definition safe_function_names :: "data_scope \<Rightarrow> string list" where
  "safe_function_names scope = map str_lower (ql_safe_functions (sc_query_limits scope))"

definition parsed_statements :: "'n sqlglot \<Rightarrow> string \<Rightarrow> sql_failure + 'n list" where
  "parsed_statements sg sql =
     (case sg_parse sg sql of
        Inl e \<Rightarrow> (if e = ''ParseError'' then Inl (Sql_policy_error ''query is not valid PostgreSQL'')
                  else Inl (Sql_other e))
      | Inr statements \<Rightarrow> Inr (map the (filter (\<lambda>s. s \<noteq> None) statements)))"

definition cte_references_of :: "'n sqlglot \<Rightarrow> 'n \<Rightarrow> sql_failure + 'n list" where
  "cte_references_of sg statement =
     (case sg_scopes sg statement of
        Inl e \<Rightarrow> (if e = ''OptimizeError'' then Inl (Sql_policy_error ''query scopes are ambiguous'')
                  else Inl (Sql_other e))
      | Inr scopes \<Rightarrow> Inr (map fst (filter snd (concat scopes))))"

definition validate_readonly_sql ::
  "'n sqlglot \<Rightarrow> (string \<Rightarrow> string) \<Rightarrow> string \<Rightarrow> data_scope \<Rightarrow> relation_name list option
   \<Rightarrow> sql_failure + validated_sql" where
  "validate_readonly_sql sg sha256 query scope readable =
     (let stripped = str_strip query in
      bindP (refuse_if (stripped = []) ''query is empty'') (\<lambda>_.
      bindP (refuse_if (ql_max_query_characters (sc_query_limits scope) < int (length stripped))
               ''query exceeds the configured character limit'') (\<lambda>_.
      bindP (parsed_statements sg stripped) (\<lambda>statements.
      bindP (refuse_if (length statements \<noteq> 1) ''exactly one statement is allowed'') (\<lambda>_.
      let statement = hd statements in
      bindP (refuse_if (\<not> sg_is sg statement ''Query'') ''only SELECT or WITH queries are allowed'') (\<lambda>_.
      bindP (refuse_if (list_ex (\<lambda>c. sg_find_all sg statement c \<noteq> []) forbidden_nodes)
               ''query contains a forbidden operation'') (\<lambda>_.
      bindP (first_failure (check_select sg) (sg_find_all sg statement ''Select'')) (\<lambda>_.
      bindP (refuse_if (list_ex (\<lambda>w. sg_arg_true sg w ''recursive'') (sg_find_all sg statement ''With''))
               ''recursive CTEs are not allowed'') (\<lambda>_.
      bindP (cte_references_of sg statement) (\<lambda>ctes.
      let tables = sg_find_all sg statement ''Table'' in
      bindP (first_failure (check_table sg ctes (allowed_relations scope readable)) tables) (\<lambda>_.
      bindP (first_failure (check_join sg) (sg_find_all sg statement ''Join'')) (\<lambda>_.
      bindP (first_failure (check_function sg (safe_function_names scope))
               (sg_find_all sg statement ''Func'')) (\<lambda>_.
      let physical = filter (\<lambda>t. \<not> is_cte_reference sg ctes t) tables;
          normalized = sg_sql sg statement (map (\<lambda>t. (t, or_public (table_schema sg t))) physical)
      in Inr \<lparr>vs_normalized_sql = normalized, vs_fingerprint = sha256 normalized,
              vs_relations = sort_key (map code_point) (fromkeys (map (shown_relation sg) physical))\<rparr>
      )))))))))))))"

section \<open>The policy\<close>

text \<open>The same policy said at once, as what must hold of every node of the one statement.\<close>

definition table_permitted ::
  "'n sqlglot \<Rightarrow> 'n list \<Rightarrow> relation_name list \<Rightarrow> 'n \<Rightarrow> bool" where
  "table_permitted sg ctes allowed t \<longleftrightarrow>
     \<not> sg_is sg (sg_this sg t) ''Func'' \<and>
     (is_cte_reference sg ctes t \<or>
      (sg_catalog sg t = [] \<and> \<not> starts_with ''pg_'' (table_schema sg t)
       \<and> table_schema sg t \<noteq> ''information_schema''
       \<and> (or_public (table_schema sg t), table_name sg t) \<in> set allowed))"

definition sql_policy ::
  "'n sqlglot \<Rightarrow> data_scope \<Rightarrow> relation_name list option \<Rightarrow> 'n \<Rightarrow> 'n list \<Rightarrow> bool" where
  "sql_policy sg scope readable statement ctes \<longleftrightarrow>
     sg_is sg statement ''Query''
     \<and> (\<forall>c \<in> set forbidden_nodes. sg_find_all sg statement c = [])
     \<and> (\<forall>s \<in> set (sg_find_all sg statement ''Select'').
          sg_arg sg s ''into'' = None \<and> \<not> sg_arg_true sg s ''locks''
          \<and> (\<forall>p \<in> set (sg_projections sg s). \<not> is_wildcard sg p))
     \<and> (\<forall>w \<in> set (sg_find_all sg statement ''With''). \<not> sg_arg_true sg w ''recursive'')
     \<and> (\<forall>t \<in> set (sg_find_all sg statement ''Table'').
          table_permitted sg ctes (allowed_relations scope readable) t)
     \<and> (\<forall>j \<in> set (sg_find_all sg statement ''Join'').
          str_upper (sg_arg_text sg j ''kind'') \<noteq> ''CROSS''
          \<and> (sg_arg sg j ''on'' \<noteq> None \<or> sg_arg sg j ''using'' \<noteq> None))
     \<and> (\<forall>f \<in> set (sg_find_all sg statement ''Func'').
          function_name sg f = [] \<or> function_name sg f \<in> set (safe_function_names scope))"

lemma bindP_Inr [simp]: "bindP m f = Inr z \<longleftrightarrow> (\<exists>x. m = Inr x \<and> f x = Inr z)"
  by (cases m) auto

lemma refuse_if_Inr [simp]: "refuse_if b m = Inr u \<longleftrightarrow> \<not> b"
  by (simp add: refuse_if_def)

lemma first_failure_Inr [simp]:
  "first_failure f xs = Inr u \<longleftrightarrow> (\<forall>x \<in> set xs. f x = Inr ())"
  by (induction xs) auto

lemma check_select_Inr [simp]:
  "check_select sg s = Inr u \<longleftrightarrow>
     sg_arg sg s ''into'' = None \<and> \<not> sg_arg_true sg s ''locks''
     \<and> (\<forall>p \<in> set (sg_projections sg s). \<not> is_wildcard sg p)"
  by (simp add: check_select_def)

lemma check_table_Inr [simp]:
  "check_table sg ctes allowed t = Inr u \<longleftrightarrow> table_permitted sg ctes allowed t"
  by (auto simp: check_table_def table_permitted_def)

lemma one_statement: "length xs = 1 \<longleftrightarrow> xs = [hd xs]"
  by (cases xs) auto

lemma validate_Inr:
  "validate_readonly_sql sg sha256 query scope readable = Inr v \<longleftrightarrow>
    (\<exists>statement ctes.
       str_strip query \<noteq> [] \<and>
       int (length (str_strip query)) \<le> ql_max_query_characters (sc_query_limits scope) \<and>
       parsed_statements sg (str_strip query) = Inr [statement] \<and>
       cte_references_of sg statement = Inr ctes \<and>
       sql_policy sg scope readable statement ctes \<and>
       (let physical = filter (\<lambda>t. \<not> is_cte_reference sg ctes t) (sg_find_all sg statement ''Table'');
            normalized = sg_sql sg statement (map (\<lambda>t. (t, or_public (table_schema sg t))) physical)
        in v = \<lparr>vs_normalized_sql = normalized, vs_fingerprint = sha256 normalized,
              vs_relations = sort_key (map code_point) (fromkeys (map (shown_relation sg) physical))\<rparr>))"
    (is "?lhs \<longleftrightarrow> ?rhs")
proof -
  let ?out = "\<lambda>statement ctes. (let physical = filter (\<lambda>t. \<not> is_cte_reference sg ctes t) (sg_find_all sg statement ''Table'');
            normalized = sg_sql sg statement (map (\<lambda>t. (t, or_public (table_schema sg t))) physical)
        in v = \<lparr>vs_normalized_sql = normalized, vs_fingerprint = sha256 normalized,
              vs_relations = sort_key (map code_point) (fromkeys (map (shown_relation sg) physical))\<rparr>)"
  have "?lhs \<longleftrightarrow>
    (\<exists>statements ctes.
       str_strip query \<noteq> [] \<and>
       int (length (str_strip query)) \<le> ql_max_query_characters (sc_query_limits scope) \<and>
       parsed_statements sg (str_strip query) = Inr statements \<and> length statements = 1 \<and>
       cte_references_of sg (hd statements) = Inr ctes \<and>
       sql_policy sg scope readable (hd statements) ctes \<and> ?out (hd statements) ctes)"
    (is "_ \<longleftrightarrow> ?mid")
    by (simp add: validate_readonly_sql_def sql_policy_def check_join_def check_function_def
        Let_def list_ex_iff eq_commute [of v] not_less)
      (rule iffI; elim exE conjE; intro exI conjI; assumption)
  also have "?mid \<longleftrightarrow> ?rhs"
    by (metis (no_types, lifting) one_statement list.sel(1))
  finally show ?thesis .
qed



section \<open>An example\<close>

text \<open>A parser that knows one query: node 0 is the select, node 1 its only table, node 2 a column.\<close>

definition one_query_parser :: "nat sqlglot" where
  "one_query_parser = \<lparr>
     sg_parse = (\<lambda>_. Inr [None, Some 0]),
     sg_is = (\<lambda>n c. n = 0 \<and> c = ''Query'' \<or> n = 2 \<and> c = ''Column''),
     sg_find_all = (\<lambda>n c. if c = ''Select'' then [0] else if c = ''Table'' then [1] else []),
     sg_arg = (\<lambda>n k. None), sg_arg_true = (\<lambda>n k. False), sg_arg_text = (\<lambda>n k. []),
     sg_projections = (\<lambda>n. [2]), sg_unalias = (\<lambda>n. n), sg_is_star = (\<lambda>n. False),
     sg_this = (\<lambda>n. 3), sg_name = (\<lambda>n. ''SALE''), sg_db = (\<lambda>n. []), sg_catalog = (\<lambda>n. []),
     sg_sql_name = (\<lambda>n. []), sg_scopes = (\<lambda>n. Inr [[(1, False)]]),
     sg_sql = (\<lambda>n ts. ''SELECT id FROM '' @ concat (map (\<lambda>t. snd t @ ''.sale'') ts))\<rparr>"

lemma sale_lower: "str_lower ''SALE'' = ''sale''" "str_lower [] = []"
  by code_simp+

lemma one_query_accepted:
  "validate_readonly_sql one_query_parser (\<lambda>s. s) ''SELECT id FROM sale'' example_scope
     (Some [(''public'', ''sale'')]) = Inr \<lparr>vs_normalized_sql = ''SELECT id FROM public.sale'',
       vs_fingerprint = ''SELECT id FROM public.sale'', vs_relations = [''sale'']\<rparr>"
  by (simp add: validate_readonly_sql_def one_query_parser_def example_scope_def example_limits_def
      strip_eval refuse_if_def parsed_statements_def forbidden_nodes_def check_select_def is_wildcard_def
      cte_references_of_def check_table_def is_cte_reference_def table_schema_def table_name_def
      or_public_def starts_with_def sale_lower allowed_relations_def
      shown_relation_def Let_def)


end
