(* ===== verification/Replica.thy ===== *)
theory Replica
  imports ReplicaSql SqlPolicy "HOL-Library.Sublist"
begin

text \<open>
  The data port over the read replica (\<open>replica/investigation.py\<close>, the class
  \<open>ReplicaInvestigationData\<close>): the nine tool operations, each as a computation that may raise and that
  threads the number of query attempts made so far and the state of the connection.
\<close>

section \<open>Computations\<close>

type_synonym world = "nat \<times> replica_state"
type_synonym 'a io = "world \<Rightarrow> (exn_name + 'a) \<times> world"

definition return_io :: "'a \<Rightarrow> 'a io" where
  "return_io x w = (Inr x, w)"

definition lift_io :: "exn_name + 'a \<Rightarrow> 'a io" where
  "lift_io m w = (m, w)"

definition bind_io :: "'a io \<Rightarrow> ('a \<Rightarrow> 'b io) \<Rightarrow> 'b io" where
  "bind_io m f w = (case m w of (Inl e, w') \<Rightarrow> (Inl e, w') | (Inr x, w') \<Rightarrow> f x w')"

fun fold_io :: "('a \<Rightarrow> 's \<Rightarrow> 's io) \<Rightarrow> 'a list \<Rightarrow> 's \<Rightarrow> 's io" where
  "fold_io f [] s = return_io s"
| "fold_io f (x # xs) s = bind_io (f x s) (fold_io f xs)"

section \<open>The environment\<close>

record 'n replica_env =
  re_config :: app_config
  re_knowledge :: knowledge_bundle
  re_server :: replica_server
  re_parser :: "'n sqlglot"
  re_sha256 :: "string \<Rightarrow> string"
  re_general_policy :: "exn_name + string"         \<comment> \<open>the two guides, read from disk\<close>
  re_identification_policy :: "exn_name + string"
  re_today :: int                                  \<comment> \<open>the ordinal of today's date in UTC\<close>
  re_clock :: int                                  \<comment> \<open>the monotonic clock\<close>

definition limits_of :: "('n, 'z) replica_env_scheme \<Rightarrow> query_limits" where
  "limits_of env = sc_query_limits (kb_scope (re_knowledge env))"

definition fetch ::
  "'n replica_env \<Rightarrow> string \<Rightarrow> sql_arg list \<Rightarrow> int option \<Rightarrow> query_result io" where
  "fetch env query args max_rows w =
     (case fetch_bounded (re_config env) (limits_of env) (re_server env) (snd w) query args max_rows (fst w) of
        (r, n) \<Rightarrow> (r, (n, snd w)))"

definition current_catalog :: "'n replica_env \<Rightarrow> live_catalog io" where
  "current_catalog env w =
     (case catalog (re_server env) False (re_clock env) (re_clock env) (snd w) of
        (r, st) \<Rightarrow> (r, (fst w, st)))"

section \<open>Knowledge and metadata\<close>

definition read_finops_knowledge :: "'n replica_env \<Rightarrow> knowledge_topic \<Rightarrow> tool_observation io" where
  "read_finops_knowledge env topic =
     (let scope = kb_scope (re_knowledge env);
          summary =
            (case topic of
               Topic_general_capabilities \<Rightarrow> re_general_policy env
             | Topic_identification_policy \<Rightarrow> re_identification_policy env
             | Topic_data_scope \<Rightarrow>
                 Inr ((''Gu'' @ [CHR 0xED] @ ''a v'') @ show_int (sc_version scope) @ ''; puntos de partida sugeridos: ''
                      @ str_join '', '' (sorted_texts (relation_names scope))
                      @ ''. Descubre otras relaciones legibles con search_database_schema.'')
             | Topic_limitations \<Rightarrow>
                 bindE (mapE (\<lambda>item. case map_of item ''detail'' of None \<Rightarrow> Inl ''KeyError'' | Some d \<Rightarrow> Inr d)
                          (sc_explicitly_unavailable scope))
                   (\<lambda>details. Inr (str_join ''; '' details)))
      in lift_io (bindE summary (\<lambda>text. Inr (observation ''finops_knowledge'' True text))))"

fun keep_metadata :: "int \<Rightarrow> (string \<times> json) list list \<Rightarrow> (string \<times> json) list list \<times> bool" where
  "keep_metadata budget [] = ([], False)"
| "keep_metadata budget (row # rows) =
     (let size = int (utf8_length (json_dumps (JObj row)))
      in if budget < size then ([], True)
         else (case keep_metadata (budget - size) rows of (kept, dropped) \<Rightarrow> (row # kept, dropped)))"

definition metadata ::
  "'n replica_env \<Rightarrow> string \<Rightarrow> (string \<times> json) list list \<Rightarrow> bool \<Rightarrow> bool \<Rightarrow> tool_observation" where
  "metadata env source rows missing truncated =
     (case keep_metadata (byte_limit (re_config env) (limits_of env)) rows of (kept, dropped) \<Rightarrow>
        let flagged = truncated \<or> dropped in
        (observation source (\<not> missing)
           (''Metadatos actuales de relaciones legibles por el rol de r'' @ [CHR 0xE9] @ ''plica.''))
        \<lparr>to_rows := kept,
         to_limitations := (if missing then [''Hay relaciones no disponibles.''] else [])
           @ (if flagged then [(''Metadatos truncados; reduce la consulta o pide otra p'' @ [CHR 0xE1] @ ''gina.'')] else []),
         to_audit := default_audit\<lparr>am_row_count := Some (int (length kept)), am_truncated := Some flagged\<rparr>\<rparr>)"

definition guidance_for :: "'n replica_env \<Rightarrow> relation \<Rightarrow> string list" where
  "guidance_for env r =
     (case map_of (sm_relations (kb_catalog (re_knowledge env))) (rel_name r) of
        None \<Rightarrow> []
      | Some g \<Rightarrow> (if rel_schema r = ''public'' then sm_gotchas g else []))"

definition described :: "'n replica_env \<Rightarrow> relation \<Rightarrow> (string \<times> json) list" where
  "described env r =
     [(''name'', JStr (rel_qualified r)), (''kind'', JStr (rel_kind r)),
      (''description'', JStr (rel_description r)),
      (''columns'', JObj (map (\<lambda>c. (fst c, JStr (snd c))) (rel_columns r))),
      (''primary_key'', json_strs (rel_primary_key r)),
      (''guidance'', json_strs (guidance_for env r))]"

definition describe_database_tables :: "'n replica_env \<Rightarrow> string list \<Rightarrow> tool_observation io" where
  "describe_database_tables env names =
     bind_io (current_catalog env) (\<lambda>cat.
       let found = map (\<lambda>n. map_of (cat_relations cat) (relation_key n)) names
       in return_io (metadata env ''database_schema''
            (map (\<lambda>r. described env (the r)) (filter (\<lambda>r. r \<noteq> None) found))
            (list_ex (\<lambda>r. r = None) found) False))"

definition schema_text :: "relation \<Rightarrow> string" where
  "schema_text r =
     plain (str_join '' '' ([rel_qualified r, rel_description r] @ map fst (rel_columns r)))"

definition search_database_schema :: "'n replica_env \<Rightarrow> schema_search_query \<Rightarrow> tool_observation io" where
  "search_database_schema env q =
     bind_io (current_catalog env) (\<lambda>cat.
       let tokens = plain_tokens (ss_query q);
           matches = sort_key (\<lambda>r. map code_point (rel_qualified r))
             (filter (\<lambda>r. list_all (\<lambda>t. contains t (schema_text r)) tokens) (map snd (cat_relations cat)));
           page = take (nat (ss_limit q)) (drop (nat (ss_offset q)) matches)
       in return_io (metadata env ''database_schema''
            (map (\<lambda>r. [(''name'', JStr (rel_qualified r)), (''kind'', JStr (rel_kind r)),
                       (''description'', JStr (rel_description r)),
                       (''column_count'', JInt (int (length (rel_columns r))))]) page)
            False (ss_offset q + ss_limit q < int (length matches))))"

definition json_key :: "relation_name \<Rightarrow> json" where
  "json_key k = json_strs [fst k, snd k]"

definition foreign_key_row :: "foreign_key \<Rightarrow> (string \<times> json) list" where
  \<comment> \<open>\<open>asdict\<close>\<close>
  "foreign_key_row fk =
     [(''identifier'', JStr (fk_identifier fk)), (''source'', json_key (fk_source fk)),
      (''target'', json_key (fk_target fk)), (''columns'', json_strs (fk_columns fk)),
      (''target_columns'', json_strs (fk_target_columns fk))]"

definition inspect_database_relationships :: "'n replica_env \<Rightarrow> string list \<Rightarrow> tool_observation io" where
  "inspect_database_relationships env names =
     bind_io (current_catalog env) (\<lambda>cat.
       let keys = map relation_key names
       in return_io (metadata env ''database_relationships''
            (map foreign_key_row
              (filter (\<lambda>fk. fk_source fk \<in> set keys \<or> fk_target fk \<in> set keys)
                (map snd (cat_foreign_keys cat))))
            (\<not> set keys \<subseteq> fst ` set (cat_relations cat)) False))"

section \<open>Searching candidates\<close>

definition search_customer_identities ::
  "'n replica_env \<Rightarrow> payment_candidate_query \<Rightarrow> query_result io" where
  "search_customer_identities env q =
     (case identity_matching q of (params, matches) \<Rightarrow>
        if matches = [] then return_io no_rows
        else fetch env (identity_query matches) params (Some 20))"

definition has_identity_input :: "payment_candidate_query \<Rightarrow> bool" where
  "has_identity_input q \<longleftrightarrow>
     list_ex (\<lambda>v. given v \<noteq> []) [pq_glosa_or_address q, pq_transferor_name q, pq_transferor_rut q,
       pq_email q, pq_phone q]"

definition found_observation ::
  "payment_candidate_query \<Rightarrow> query_result \<Rightarrow> query_result \<Rightarrow> investigation_candidate list
   \<Rightarrow> investigation_candidate list \<Rightarrow> tool_observation" where
  "found_observation q result identities candidates people =
     (let eligible = map ic_order_id candidates;
          all_candidates = candidates
            @ filter (\<lambda>c. is_meaningful_candidate c \<and> ic_order_id c \<notin> set eligible) people
      in (observation ''payment_candidates'' True
            (''Se encontraron '' @ show_nat (length all_candidates) @ '' candidatos para investigar.''))
         \<lparr>to_candidates := all_candidates,
          to_limitations := [''Las cuentas bancarias son evidencia de apoyo, no decisiva.'',
            ''Una identidad puede no tener una cuenta por cobrar actualmente elegible.''],
          to_audit := default_audit\<lparr>
            am_row_count := Some (qr_row_count result + qr_row_count identities),
            am_truncated := Some (qr_truncated result \<or> qr_truncated identities),
            am_identity_search_complete :=
              (given (pq_transferor_rut q) \<noteq> [] \<or> given (pq_email q) \<noteq> [] \<or> given (pq_phone q) \<noteq> [])
              \<and> qr_row_count result = 0 \<and> qr_row_count identities = 0\<rparr>\<rparr>)"

definition search_payment_candidates ::
  "'n replica_env \<Rightarrow> payment_candidate_query \<Rightarrow> tool_observation io" where
  "search_payment_candidates env q =
     (case search_matching q of (params, matches) \<Rightarrow>
      bind_io (fetch env (search_query matches) params (Some 20)) (\<lambda>result.
      bind_io (lift_io (mapE (\<lambda>row. candidate row (Searching q) False) (qr_rows result))) (\<lambda>built.
      let candidates = filter is_meaningful_candidate built in
      bind_io (if has_identity_input q then search_customer_identities env q else return_io no_rows)
        (\<lambda>identities.
      bind_io (lift_io (mapE (\<lambda>row. identity_candidate row (Searching q) False) (qr_rows identities)))
        (\<lambda>people.
      return_io (found_observation q result identities candidates people))))))"

section \<open>Verifying candidates\<close>

definition verification_summary :: "investigation_candidate list \<Rightarrow> string" where
  "verification_summary candidates =
     (case candidates of
        [] \<Rightarrow> ''La orden no tiene una cuenta por cobrar elegible.''
      | c # _ \<Rightarrow>
          (if ic_account_receivable_id c \<noteq> None
           then (''Cliente y cuenta por cobrar verificados contra la r'' @ [CHR 0xE9] @ ''plica.'')
           else ''Cliente verificado; no tiene una cuenta por cobrar actualmente elegible.''))"

definition verified_observation ::
  "query_result \<Rightarrow> investigation_candidate list \<Rightarrow> query_result \<Rightarrow> tool_observation" where
  "verified_observation result candidates identities =
     (observation ''candidate_verification'' True (verification_summary candidates))
     \<lparr>to_candidates := candidates,
      to_limitations := (case candidates of
          c # _ \<Rightarrow> (if ic_account_receivable_id c = None
                   then [''No se verific'' @ [CHR 0xF3] @ '' una cuenta por cobrar actualmente elegible.''] else [])
        | [] \<Rightarrow> []),
      to_audit := default_audit\<lparr>
        am_row_count := Some (qr_row_count result + qr_row_count identities),
        am_truncated := Some (qr_truncated result \<or> qr_truncated identities)\<rparr>\<rparr>"

definition verification_predicate :: "uuid option \<Rightarrow> string" where
  "verification_predicate receivable =
     ''order_id = $1'' @ (if receivable \<noteq> None then '' AND account_receivable_id = $2'' else [])"

definition verification_params :: "uuid \<Rightarrow> uuid option \<Rightarrow> sql_arg list" where
  "verification_params order receivable =
     Arg_text order # (case receivable of Some r \<Rightarrow> [Arg_text r] | None \<Rightarrow> [])"

definition verify_payment_candidate ::
  "'n replica_env \<Rightarrow> verify_candidate_query \<Rightarrow> tool_observation io" where
  "verify_payment_candidate env q =
     bind_io (fetch env (verify_query (verification_predicate (vc_account_receivable_id q)))
                (verification_params (vc_order_id q) (vc_account_receivable_id q)) (Some 10)) (\<lambda>result.
     bind_io (lift_io (mapE (\<lambda>row. candidate row (Verifying q) True) (qr_rows result))) (\<lambda>eligible.
     bind_io
       (if eligible = [] \<and> vc_account_receivable_id q = None
        then bind_io (fetch env verify_identity_query [Arg_text (vc_order_id q)] (Some 1)) (\<lambda>identities.
             bind_io (lift_io (mapE (\<lambda>row. identity_candidate row (Verifying q) True) (qr_rows identities)))
               (\<lambda>people. return_io (people, identities)))
        else return_io (eligible, no_rows))
       (\<lambda>(candidates, identities).
     return_io (verified_observation result candidates identities))))"

definition add_limitation :: "string \<Rightarrow> tool_observation \<Rightarrow> tool_observation" where
  "add_limitation text obs = obs\<lparr>to_limitations := to_limitations obs @ [text]\<rparr>"

definition linked_signal :: "string \<Rightarrow> investigation_candidate \<Rightarrow> evidence_signal" where
  "linked_signal reference c =
     \<lparr>sig_evidence_id = [], sig_kind = Name_fragment, sig_source = Src_candidate_verification,
      sig_polarity = Supporting, sig_strength = Weak,
      sig_description = (''Una referencia vinculada a la orden coincide con el nombre; por s'' @ [CHR 0xED] @ '' sola no identifica al pagador.''),
      sig_order_id = Some (ic_order_id c), sig_account_receivable_id = ic_account_receivable_id c,
      sig_source_reference = Some reference\<rparr>"

definition add_linked_evidence :: "string \<Rightarrow> relation \<Rightarrow> tool_observation \<Rightarrow> tool_observation" where
  "add_linked_evidence reference r obs =
     obs\<lparr>to_candidates := map (\<lambda>c. c\<lparr>ic_evidence := ic_evidence c @ [linked_signal reference c]\<rparr>)
           (to_candidates obs),
         to_audit := (to_audit obs)\<lparr>
           am_source_references := am_source_references (to_audit obs) @ [reference],
           am_referenced_relations := am_referenced_relations (to_audit obs) @ [rel_qualified r]\<rparr>\<rparr>"

definition name_columns :: "relation \<Rightarrow> string list" where
  "name_columns r =
     filter (\<lambda>n. n \<in> fst ` set (rel_columns r))
       [''name'', ''fullName'', ''firstName'', ''middleName'', ''lastName'', ''secondLastName'']"

definition values_query :: "string list \<Rightarrow> relation \<Rightarrow> string \<Rightarrow> string" where
  "values_query names r predicate =
     ''SELECT '' @ str_join '', '' (map (\<lambda>n. ''t0.'' @ quote_identifier n) names)
     @ '' FROM '' @ rel_sql r @ '' t0 WHERE '' @ predicate"

definition names_agree :: "verify_candidate_query \<Rightarrow> string \<Rightarrow> bool" where
  "names_agree q actual_name =
     list_ex (\<lambda>v. given v \<noteq> [] \<and> strong_name_match (given v) actual_name)
       [vc_transferor_name q, vc_address q]"

definition confirms_order :: "verify_candidate_query \<Rightarrow> query_result \<Rightarrow> exn_name + bool" where
  \<comment> \<open>exactly one order, and it is the requested one\<close>
  "confirms_order q orders =
     (case (qr_truncated orders, qr_rows orders) of
        (False, [row]) \<Rightarrow> bindE (item_at row ''order_id'') (\<lambda>order. Inr (order = vc_order_id q))
      | _ \<Rightarrow> Inr False)"

definition source_step ::
  "'n replica_env \<Rightarrow> live_catalog \<Rightarrow> verify_candidate_query \<Rightarrow> (string \<times> source_link) list
   \<Rightarrow> source_record \<Rightarrow> tool_observation \<Rightarrow> tool_observation io" where
  "source_step env cat q linked source obs =
     (case map_of linked (sr_reference source) of
        None \<Rightarrow> return_io obs
      | Some link \<Rightarrow>
          (case source_query cat (sr_record source) (sl_relationship_path link) of
             Inl _ \<Rightarrow> return_io (add_limitation (''La relaci'' @ [CHR 0xF3] @ ''n propuesta no pudo verificarse.'') obs)
           | Inr (query, params, r) \<Rightarrow>
               bind_io (fetch env query (map Arg_text params) (Some 2)) (\<lambda>orders.
               bind_io (lift_io (confirms_order q orders)) (\<lambda>same_order.
               if \<not> same_order
               then return_io (add_limitation (''La fuente no vincula inequ'' @ [CHR 0xED] @ ''vocamente esta orden.'') obs)
               else if name_columns r = []
               then return_io (add_limitation (''Fuente vinculada; sin se'' @ [CHR 0xF1] @ ''al de identidad validable.'') obs)
               else bind_io (lift_io (record_predicate cat (sr_record source))) (\<lambda>(_, predicate, key_params).
                    bind_io (fetch env (values_query (name_columns r) r predicate)
                               (map Arg_text key_params) (Some 1)) (\<lambda>found.
                    return_io
                      (case (qr_truncated found, qr_rows found) of
                         (False, row # _) \<Rightarrow>
                           (if names_agree q (str_join '' '' (map (text_at row) (name_columns r)))
                            then add_linked_evidence (sr_reference source) r obs else obs)
                       | _ \<Rightarrow> obs)))))))"

definition linked_sources :: "verify_candidate_query \<Rightarrow> (string \<times> source_link) list" where
  "linked_sources q = fold (\<lambda>l d. dict_put (sl_reference l) l d) (vc_source_links q) []"

definition verify_payment_sources ::
  "'n replica_env \<Rightarrow> verify_candidate_query \<Rightarrow> source_record list \<Rightarrow> tool_observation io" where
  "verify_payment_sources env q sources =
     bind_io (verify_payment_candidate env q) (\<lambda>obs.
       if to_candidates obs = [] then return_io obs
       else bind_io (current_catalog env) (\<lambda>cat.
              fold_io (source_step env cat q (linked_sources q)) sources obs))"

section \<open>Messages\<close>

definition leap_year :: "int \<Rightarrow> bool" where
  "leap_year y \<longleftrightarrow> y mod 4 = 0 \<and> (y mod 100 \<noteq> 0 \<or> y mod 400 = 0)"

definition month_days :: "int \<Rightarrow> int list" where
  "month_days y = [31, if leap_year y then 29 else 28, 31, 30, 31, 30, 31, 31, 30, 31, 30, 31]"

definition day_ordinal :: "string \<Rightarrow> int" where
  \<comment> \<open>\<open>date.fromisoformat(text).toordinal()\<close>, for the \<open>YYYY-MM-DD\<close> text of a date\<close>
  "day_ordinal text =
     (let y = int (read_nat (take 4 text)) ; m = read_nat (take 2 (drop 5 text));
          d = int (read_nat (take 2 (drop 8 text)))
      in 365 * (y - 1) + (y - 1) div 4 - (y - 1) div 100 + (y - 1) div 400
         + sum_list (take (m - 1) (month_days y)) + d)"

definition max_ordinal :: int where
  "max_ordinal = 3652059"

definition midnight :: "int \<Rightarrow> exn_name + sql_arg" where
  "midnight day = (if 1 \<le> day \<and> day \<le> max_ordinal then Inr (Arg_day day) else Inl ''OverflowError'')"

definition optional_arg :: "string option \<Rightarrow> sql_arg" where
  "optional_arg v = (case v of None \<Rightarrow> Arg_null | Some s \<Rightarrow> Arg_text s)"

definition vambe_identity ::
  "'n replica_env \<Rightarrow> vambe_query \<Rightarrow> (string option \<times> string option) io" where
  \<comment> \<open>the user and the phone the search is confined to\<close>
  "vambe_identity env q =
     (case vq_order_id q of
        None \<Rightarrow> return_io (None, vq_phone q)
      | Some order \<Rightarrow>
          bind_io (fetch env vambe_identity_query [Arg_text order] (Some 1)) (\<lambda>found.
            case qr_rows found of
              [] \<Rightarrow> return_io (None, vq_phone q)
            | row # _ \<Rightarrow>
                lift_io (bindE (item_at row ''user_id'') (\<lambda>user.
                  if DataTools.truthy (vq_phone q) then Inr (Some user, vq_phone q)
                  else bindE (item_at row ''phone'') (\<lambda>phone. Inr (Some user, Some phone))))))"

definition vambe_mention_signal :: "uuid \<Rightarrow> evidence_signal" where
  "vambe_mention_signal order =
     \<lparr>sig_evidence_id = [], sig_kind = Vambe_mention, sig_source = Src_vambe,
      sig_polarity = Supporting, sig_strength = Weak,
      sig_description = ''Vambe contiene menciones relacionadas; no confirman un pago.'',
      sig_order_id = Some order, sig_account_receivable_id = None, sig_source_reference = None\<rparr>"

definition vambe_range :: "'n replica_env \<Rightarrow> vambe_query \<Rightarrow> exn_name + int \<times> int" where
  "vambe_range env q =
     bindE (case vq_start_date q of
        Some s \<Rightarrow> Inr (day_ordinal s)
      | None \<Rightarrow>
          (let start = re_today env - ql_vambe_default_days (limits_of env)
           in if start < 1 then Inl ''OverflowError'' else Inr start))
     (\<lambda>start. Inr (start, case vq_end_date q of Some s \<Rightarrow> day_ordinal s | None \<Rightarrow> re_today env))"

definition invalid_range :: "query_limits \<Rightarrow> tool_observation" where
  "invalid_range limits =
     (observation ''vambe'' False (''El rango solicitado no es v'' @ [CHR 0xE1] @ ''lido.''))
     \<lparr>to_limitations := [(''Vambe permite como m'' @ [CHR 0xE1] @ ''ximo '') @ show_int (ql_vambe_max_days limits) @ ('' d'' @ [CHR 0xED] @ ''as.'')]\<rparr>"

definition no_identity :: tool_observation where
  "no_identity =
     (observation ''vambe'' True (''No se encontr'' @ [CHR 0xF3] @ '' identidad para acotar la b'' @ [CHR 0xFA] @ ''squeda en Vambe.''))
     \<lparr>to_limitations := [(''No se ejecut'' @ [CHR 0xF3] @ '' una b'' @ [CHR 0xFA] @ ''squeda global de mensajes.'')]\<rparr>"

definition vambe_observation :: "vambe_query \<Rightarrow> query_result \<Rightarrow> tool_observation" where
  "vambe_observation q result =
     (observation ''vambe'' True
        (''Se encontraron '' @ show_int (qr_row_count result) @ '' mensajes acotados al candidato.''))
     \<lparr>to_rows := map row_json (qr_rows result),
      to_evidence := (case vq_order_id q of
          Some order \<Rightarrow> (if qr_row_count result \<noteq> 0 \<and> DataTools.truthy (vq_query q)
                        then [vambe_mention_signal order] else [])
        | None \<Rightarrow> []),
      to_limitations := [(''Los adjuntos hist'' @ [CHR 0xF3] @ ''ricos de Vambe no est'' @ [CHR 0xE1] @ ''n disponibles.'')],
      to_audit := default_audit\<lparr>am_row_count := Some (qr_row_count result),
        am_truncated := Some (qr_truncated result)\<rparr>\<rparr>"

definition search_vambe_range :: "'n replica_env \<Rightarrow> vambe_query \<Rightarrow> int \<Rightarrow> int \<Rightarrow> tool_observation io" where
  \<comment> \<open>the method once both ends of the range are known\<close>
  "search_vambe_range env q start end_day =
     (let limits = limits_of env in
      if end_day < start \<or> ql_vambe_max_days limits < end_day - start
      then return_io (invalid_range limits)
      else
      bind_io (vambe_identity env q) (\<lambda>identity.
      if fst identity = None \<and> \<not> DataTools.truthy (snd identity) then return_io no_identity
      else
      bind_io (lift_io (midnight start)) (\<lambda>start_arg.
      bind_io (lift_io (midnight (end_day + 1))) (\<lambda>end_arg.
      bind_io (fetch env vambe_query_text
                 [optional_arg (fst identity), optional_arg (snd identity), start_arg, end_arg,
                  optional_arg (vq_query q)]
                 (Some (ql_vambe_max_messages limits))) (\<lambda>result.
      return_io (vambe_observation q result))))))"

definition search_vambe_messages :: "'n replica_env \<Rightarrow> vambe_query \<Rightarrow> tool_observation io" where
  "search_vambe_messages env q =
     bind_io (lift_io (vambe_range env q)) (\<lambda>days. search_vambe_range env q (fst days) (snd days))"

section \<open>Read-only SQL\<close>

definition page_query :: "string \<Rightarrow> string" where
  "page_query normalized = ''SELECT * FROM ('' @ normalized @ '') AS page OFFSET $1''"

definition presence_query :: "relation \<Rightarrow> string \<Rightarrow> string" where
  "presence_query r predicate = ''SELECT 1 AS present FROM '' @ rel_sql r @ '' t0 WHERE '' @ predicate"

definition sql_source_step ::
  "'n replica_env \<Rightarrow> live_catalog \<Rightarrow> validated_sql \<Rightarrow> source_record_query \<Rightarrow> source_record list
   \<Rightarrow> source_record list io" where
  "sql_source_step env cat validated record_query sources =
     (case record_predicate cat record_query of
        Inl _ \<Rightarrow> return_io sources
      | Inr (r, predicate, params) \<Rightarrow>
          (if rel_key r \<notin> set (map relation_key (vs_relations validated)) then return_io sources
           else bind_io (fetch env (presence_query r predicate) (map Arg_text params) (Some 1)) (\<lambda>found.
                return_io (if qr_rows found \<noteq> []
                  then sources @ [\<lparr>sr_reference = [], sr_record = record_query\<rparr>] else sources))))"

definition refused_sql :: "string \<Rightarrow> tool_observation" where
  "refused_sql message =
     (observation ''readonly_sql'' False (''La consulta fue rechazada por la pol'' @ [CHR 0xED] @ ''tica de lectura.''))
     \<lparr>to_limitations := [message]\<rparr>"

definition sql_observation ::
  "validated_sql \<Rightarrow> query_result \<Rightarrow> source_record list \<Rightarrow> tool_observation" where
  "sql_observation validated result sources =
     (observation ''readonly_sql'' True
        (''Consulta de solo lectura: '' @ show_int (qr_row_count result) @ '' filas.''))
     \<lparr>to_rows := map row_json (qr_rows result), to_source_records := sources,
      to_limitations := (if qr_truncated result
        then [''Resultado truncado al l'' @ [CHR 0xED] @ ''mite seguro.''] else []),
      to_audit := default_audit\<lparr>am_query_fingerprint := Some (vs_fingerprint validated),
        am_referenced_relations := vs_relations validated,
        am_row_count := Some (qr_row_count result),
        am_truncated := Some (qr_truncated result)\<rparr>\<rparr>"

definition run_readonly_sql :: "'n replica_env \<Rightarrow> readonly_sql_query \<Rightarrow> tool_observation io" where
  "run_readonly_sql env q =
     bind_io (current_catalog env) (\<lambda>cat.
     case validate_readonly_sql (re_parser env) (re_sha256 env) (rq_query q)
            (kb_scope (re_knowledge env)) (Some (map fst (cat_relations cat))) of
       Inl (Sql_policy_error message) \<Rightarrow> return_io (refused_sql message)
     | Inl (Sql_other e) \<Rightarrow> lift_io (Inl e)
     | Inr validated \<Rightarrow>
         bind_io (fetch env (page_query (vs_normalized_sql validated)) [Arg_whole (rq_offset q)] None) (\<lambda>result.
         bind_io (fold_io (sql_source_step env cat validated) (rq_source_records q) []) (\<lambda>sources.
         return_io (sql_observation validated result sources))))"

section \<open>The port\<close>

text \<open>Each tool call of a run, over the connection as it stands at the call.\<close>

definition replica_port :: "'n replica_env \<Rightarrow> replica_state \<Rightarrow> data_port" where
  "replica_port env st =
     (let run = (\<lambda>op. fst (op (0, st)))
      in \<lparr>dp_finops_knowledge = (\<lambda>t. run (read_finops_knowledge env t)),
          dp_describe_tables = (\<lambda>names. run (describe_database_tables env names)),
          dp_search_schema = (\<lambda>q. run (search_database_schema env q)),
          dp_relationships = (\<lambda>names. run (inspect_database_relationships env names)),
          dp_verify_sources = (\<lambda>q sources. run (verify_payment_sources env q sources)),
          dp_search_candidates = (\<lambda>q. run (search_payment_candidates env q)),
          dp_verify_candidate = (\<lambda>q. run (verify_payment_candidate env q)),
          dp_search_vambe = (\<lambda>q. run (search_vambe_messages env q)),
          dp_readonly_sql = (\<lambda>q. run (run_readonly_sql env q))\<rparr>)"

section \<open>Running computations\<close>

lemma bind_io_Inr: "bind_io m f w = (Inr y, w') \<longleftrightarrow>
    (\<exists>x w1. m w = (Inr x, w1) \<and> f x w1 = (Inr y, w'))"
  by (auto simp: bind_io_def split: prod.splits sum.splits)

lemma return_io_Inr: "return_io x w = (Inr y, w') \<longleftrightarrow> y = x \<and> w' = w"
  by (auto simp: return_io_def)

lemma lift_io_Inr: "lift_io m w = (Inr y, w') \<longleftrightarrow> m = Inr y \<and> w' = w"
  by (auto simp: lift_io_def)

lemmas io_Inr = bind_io_Inr return_io_Inr lift_io_Inr

lemma fold_io_invariant:
  assumes "fold_io f xs s w = (Inr s', w')" "P s"
    "\<And>x s w s' w'. x \<in> set xs \<Longrightarrow> f x s w = (Inr s', w') \<Longrightarrow> P s \<Longrightarrow> P s'"
  shows "P s'"
  using assms
proof (induction xs arbitrary: s w)
  case Nil
  then show ?case by (simp add: return_io_Inr)
next
  case (Cons x xs)
  obtain s1 w1 where "f x s w = (Inr s1, w1)" "fold_io f xs s1 w1 = (Inr s', w')"
    using Cons.prems(1) by (auto simp: bind_io_Inr)
  then show ?case
    using Cons.IH [of s1 w1] Cons.prems(2,3) by (meson list.set_intros)
qed

text \<open>Attempts spent: at most three per query.\<close>

definition costs :: "'a io \<Rightarrow> nat \<Rightarrow> bool" where
  "costs m k \<longleftrightarrow> (\<forall>w. fst w \<le> fst (snd (m w)) \<and> fst (snd (m w)) \<le> fst w + k)"

named_theorems cost_rules

lemma costs_weaken: "costs m j \<Longrightarrow> j \<le> k \<Longrightarrow> costs m k"
  unfolding costs_def by (meson add_left_mono le_trans)

lemma costs_return [cost_rules]: "costs (return_io x) 0"
  by (simp add: costs_def return_io_def)

lemma costs_lift [cost_rules]: "costs (lift_io m) 0"
  by (simp add: costs_def lift_io_def)

lemma costs_bind:
  assumes "costs m j" "\<And>x. costs (f x) k"
  shows "costs (bind_io m f) (j + k)"
  unfolding costs_def
proof
  fix w
  obtain r w1 where m: "m w = (r, w1)" by (cases "m w")
  have 1: "fst w \<le> fst w1" "fst w1 \<le> fst w + j"
    using assms(1) m unfolding costs_def by (metis snd_conv)+
  show "fst w \<le> fst (snd (bind_io m f w)) \<and> fst (snd (bind_io m f w)) \<le> fst w + (j + k)"
  proof (cases r)
    case (Inl e)
    with 1 m show ?thesis by (simp add: bind_io_def)
  next
    case (Inr x)
    have "fst w1 \<le> fst (snd (f x w1))" "fst (snd (f x w1)) \<le> fst w1 + k"
      using assms(2) [of x] unfolding costs_def by blast+
    with Inr 1 m show ?thesis by (simp add: bind_io_def)
  qed
qed

lemma costs_fold:
  assumes "\<And>x s. costs (f x s) k"
  shows "costs (fold_io f xs s) (length xs * k)"
proof (induction xs arbitrary: s)
  case Nil
  then show ?case by (simp add: costs_return)
next
  case (Cons x xs)
  have "costs (bind_io (f x s) (fold_io f xs)) (k + length xs * k)"
    by (rule costs_bind [OF assms Cons.IH])
  then show ?case by simp
qed

lemma costs_fetch [cost_rules]: "costs (fetch env query args max_rows) 3"
  unfolding costs_def
proof
  fix w
  show "fst w \<le> fst (snd (fetch env query args max_rows w))
    \<and> fst (snd (fetch env query args max_rows w)) \<le> fst w + 3"
  proof (cases "db_pool (snd w)")
    case True
    obtain r n where f: "fetch_bounded (re_config env) (limits_of env) (re_server env) (snd w) query args
        max_rows (fst w) = (r, n)"
      by (cases "fetch_bounded (re_config env) (limits_of env) (re_server env) (snd w) query args
        max_rows (fst w)")
    have "fst w < n \<and> n \<le> fst w + 3"
      using fetch_bounded_cost [OF f True] .
    with f show ?thesis by (simp add: fetch_def)
  next
    case False
    then show ?thesis by (simp add: fetch_def fetch_bounded_def)
  qed
qed

lemma costs_catalog [cost_rules]: "costs (current_catalog env) 0"
  unfolding costs_def current_catalog_def by (simp split: prod.split)

lemma costs_bindI:
  "costs m j \<Longrightarrow> (\<And>x. costs (f x) k) \<Longrightarrow> j + k \<le> n \<Longrightarrow> costs (bind_io m f) n"
  using costs_bind costs_weaken by blast

lemma costs_zero: "costs (return_io x) k" "costs (lift_io m) k"
  using costs_weaken [OF costs_return] costs_weaken [OF costs_lift] by simp_all

lemma costs_if: "costs a k \<Longrightarrow> costs b k \<Longrightarrow> costs (if p then a else b) k"
  by simp

lemma costs_pair: "(\<And>a b. costs (f a b) k) \<Longrightarrow> costs (case p of (a, b) \<Rightarrow> f a b) k"
  by (cases p) simp

lemma costs_metadata_tools:
  "costs (read_finops_knowledge env t) 0" "costs (describe_database_tables env names) 0"
  "costs (search_database_schema env s) 0" "costs (inspect_database_relationships env names) 0"
  unfolding read_finops_knowledge_def describe_database_tables_def search_database_schema_def
    inspect_database_relationships_def Let_def
  by (intro costs_zero costs_bindI [where j = 0 and k = 0] costs_catalog order_refl | simp)+

lemma costs_identities: "costs (search_customer_identities env q) 3"
  unfolding search_customer_identities_def
  by (intro costs_pair costs_if costs_zero costs_fetch)

lemma costs_search: "costs (search_payment_candidates env q) 6"
  unfolding search_payment_candidates_def Let_def
  by (intro costs_pair costs_if costs_zero costs_identities
      costs_bindI [where j = 3 and k = 3 and n = 6, OF costs_fetch]
      costs_bindI [where j = 0 and k = 3 and n = 3, OF costs_lift]
      costs_bindI [where j = 3 and k = 0 and n = 3]
      costs_bindI [where j = 0 and k = 0 and n = 0]; simp)

lemma costs_verify: "costs (verify_payment_candidate env q) 6"
proof -
  have people: "costs (if p then bind_io (fetch env a b c) (\<lambda>x. bind_io (lift_io (g x)) (\<lambda>y. return_io (h x y)))
      else return_io z) 3" for p a b c and g :: "query_result \<Rightarrow> exn_name + 'b" and h and z :: 'c
    by (intro costs_if costs_zero costs_bindI [where j = 3 and k = 0, OF costs_fetch]
        costs_bindI [where j = 0 and k = 0]; simp)
  show ?thesis
    unfolding verify_payment_candidate_def Let_def
    by (intro costs_bindI [where j = 3 and k = 3 and n = 6, OF costs_fetch]
        costs_bindI [where j = 0 and k = 3 and n = 3, OF costs_lift]
        costs_bindI [where j = 3 and k = 0 and n = 3, OF people] costs_pair costs_zero; simp)
qed

lemma costs_failure: "costs (case f of Sql_policy_error m \<Rightarrow> return_io (g m) | Sql_other e \<Rightarrow> lift_io (h e)) k"
  by (cases f) (simp_all add: costs_zero)

lemma costs_sum: "(\<And>e. costs (f e) k) \<Longrightarrow> (\<And>x. costs (g x) k) \<Longrightarrow> costs (case r of Inl e \<Rightarrow> f e | Inr x \<Rightarrow> g x) k"
  by (cases r) simp_all

lemma costs_option: "costs a k \<Longrightarrow> (\<And>x. costs (f x) k) \<Longrightarrow> costs (case v of None \<Rightarrow> a | Some x \<Rightarrow> f x) k"
  by (cases v) simp_all

lemma costs_source_step: "costs (source_step env cat q linked source obs) 6"
  unfolding source_step_def
  by (intro costs_option costs_sum costs_pair costs_if costs_zero
      costs_bindI [where j = 3 and k = 3 and n = 6, OF costs_fetch]
      costs_bindI [where j = 0 and k = 3 and n = 3, OF costs_lift]
      costs_bindI [where j = 3 and k = 0 and n = 3, OF costs_fetch]; simp)

lemma costs_sources: "costs (verify_payment_sources env q sources) (6 + 6 * length sources)"
  unfolding verify_payment_sources_def
proof (rule costs_bind [OF costs_verify], rule costs_if)
  fix obs
  show "costs (bind_io (current_catalog env)
      (\<lambda>cat. fold_io (source_step env cat q (linked_sources q)) sources obs)) (6 * length sources)"
  proof (rule costs_bindI [OF costs_catalog])
    fix cat
    show "costs (fold_io (source_step env cat q (linked_sources q)) sources obs) (length sources * 6)"
      by (rule costs_fold) (rule costs_source_step)
  qed simp
qed (rule costs_zero)

lemma costs_vambe: "costs (search_vambe_messages env q) 6"
proof -
  have identity: "costs (vambe_identity env q) 3"
    unfolding vambe_identity_def
    by (intro costs_option costs_zero costs_bindI [where j = 3 and k = 0 and n = 3, OF costs_fetch])
      (simp_all add: costs_zero split: list.split)
  show ?thesis
    unfolding search_vambe_messages_def search_vambe_range_def Let_def
    by (intro costs_if costs_zero costs_bindI [where j = 0 and k = 6 and n = 6, OF costs_lift]
        costs_bindI [where j = 3 and k = 3 and n = 6, OF identity]
        costs_bindI [where j = 0 and k = 3 and n = 3, OF costs_lift]
        costs_bindI [where j = 3 and k = 0 and n = 3, OF costs_fetch]; simp)
qed

lemma costs_sql: "costs (run_readonly_sql env q) (3 + 3 * length (rq_source_records q))"
proof -
  have step: "costs (sql_source_step env cat v r s) 3" for cat v r s
    unfolding sql_source_step_def
    by (intro costs_sum costs_pair costs_if costs_zero costs_bindI [where j = 3 and k = 0 and n = 3, OF costs_fetch]; simp)
  have sources: "costs (fold_io (sql_source_step env cat v) rs s) (3 * length rs)" for cat v rs s
    using costs_fold [of "sql_source_step env cat v" 3 rs s, OF step] by (simp add: mult.commute)
  show ?thesis
    unfolding run_readonly_sql_def
  proof (rule costs_bindI [where j = 0 and k = "3 + 3 * length (rq_source_records q)", OF costs_catalog])
    fix cat
    show "costs (case validate_readonly_sql (re_parser env) (re_sha256 env) (rq_query q)
            (kb_scope (re_knowledge env)) (Some (map fst (cat_relations cat))) of
        Inl f \<Rightarrow> (case f of Sql_policy_error message \<Rightarrow> return_io (refused_sql message)
                 | Sql_other e \<Rightarrow> lift_io (Inl e))
      | Inr validated \<Rightarrow>
          bind_io (fetch env (page_query (vs_normalized_sql validated)) [Arg_whole (rq_offset q)] None) (\<lambda>result.
          bind_io (fold_io (sql_source_step env cat validated) (rq_source_records q) []) (\<lambda>sources.
          return_io (sql_observation validated result sources))))
      (3 + 3 * length (rq_source_records q))"
      by (intro costs_sum costs_failure costs_zero costs_bind [OF costs_fetch]
          costs_bindI [where j = "3 * length (rq_source_records q)" and k = 0, OF sources]) simp_all
  qed simp
qed

text \<open>The replica never gets more than a bounded amount of work from one tool call: the four
  knowledge and metadata tools send no query at all (they read the cached catalogue), the three
  searches and the verification make at most six attempts, and each source record of a verification
  or of a SQL call adds at most six or three more; so with the four records a request may carry no
  call makes more than thirty.\<close>

theorem replica_work_is_bounded:
  "costs (read_finops_knowledge env topic) 0 \<and> costs (describe_database_tables env names) 0
   \<and> costs (search_database_schema env schema_q) 0 \<and> costs (inspect_database_relationships env names) 0
   \<and> costs (search_payment_candidates env payment_q) 6 \<and> costs (verify_payment_candidate env verify_q) 6
   \<and> costs (search_vambe_messages env message_q) 6
   \<and> costs (verify_payment_sources env verify_q sources) (6 + 6 * length sources)
   \<and> costs (run_readonly_sql env sql_q) (3 + 3 * length (rq_source_records sql_q))"
  by (intro conjI costs_metadata_tools costs_search costs_verify costs_vambe costs_sources costs_sql)

section \<open>The contract of a backend\<close>

lemma fetch_row:
  assumes "fetch env query args m w = (Inr result, w')" "row \<in> set (qr_rows result)"
  shows "\<exists>k n records r. sv_fetch (re_server env) k (wrapped_query query n) args = Inr records
    \<and> r \<in> set records \<and> row = safe_row r"
proof -
  obtain n' where f: "fetch_bounded (re_config env) (limits_of env) (re_server env) (snd w) query args m (fst w)
      = (Inr result, n')"
    using assms(1) by (auto simp: fetch_def split: prod.splits)
  obtain records where r: "sv_fetch (re_server env) (n' - 1) (wrapped_query query
      (configured_rows (re_config env) (limits_of env) m)) args = Inr records"
    "result = bounded_result (configured_rows (re_config env) (limits_of env) m)
      (byte_limit (re_config env) (limits_of env)) records"
    using fetch_bounded_Inr [OF f] by blast
  then show ?thesis using bounded_result_rows(2) assms(2) by blast
qed

lemma item_at_safe_row:
  "map_of r name = Some (Db_exact t) \<Longrightarrow> item_at (safe_row r) name = Inr t"
  by (induction r) (auto simp: safe_row_def item_at_def safe_json_value_def split: if_splits)

lemma fetch_count:
  assumes "fetch env query args m w = (Inr result, w')"
  shows "qr_row_count result = int (length (qr_rows result))"
proof -
  obtain n' where f: "fetch_bounded (re_config env) (limits_of env) (re_server env) (snd w) query args m (fst w)
      = (Inr result, n')"
    using assms by (auto simp: fetch_def split: prod.splits)
  from fetch_bounded_Inr [OF this] show ?thesis using bounded_result_count by blast
qed

text \<open>What is relied on of PostgreSQL: the rows of the two verification queries satisfy their \<open>WHERE\<close>
  clause, so their order (and account receivable, when one is asked for) is the parameter.\<close>

definition column_is :: "db_record \<Rightarrow> string \<Rightarrow> uuid \<Rightarrow> bool" where
  "column_is r name v \<longleftrightarrow> (\<exists>t. map_of r name = Some (Db_exact t) \<and> read_uuid t = Inr v)"

definition honours_where :: "replica_server \<Rightarrow> bool" where
  "honours_where sv \<longleftrightarrow>
     (\<forall>k n order receivable records r.
        sv_fetch sv k (wrapped_query (verify_query (verification_predicate receivable)) n)
          (verification_params order receivable) = Inr records \<longrightarrow> r \<in> set records \<longrightarrow>
        column_is r ''order_id'' order
        \<and> (\<forall>u. receivable = Some u \<longrightarrow> column_is r ''account_receivable_id'' u)) \<and>
     (\<forall>k n order records r.
        sv_fetch sv k (wrapped_query verify_identity_query n) [Arg_text order] = Inr records \<longrightarrow>
        r \<in> set records \<longrightarrow> column_is r ''order_id'' order)"

lemma column_is_read: "column_is r name v \<Longrightarrow> bindE (item_at (safe_row r) name) read_uuid = Inr v"
  by (auto simp: column_is_def item_at_safe_row)

lemma candidate_ids:
  assumes "candidate row request verified = Inr c"
  shows "bindE (item_at row ''order_id'') read_uuid = Inr (ic_order_id c)"
    "\<exists>u. ic_account_receivable_id c = Some u \<and> bindE (item_at row ''account_receivable_id'') read_uuid = Inr u"
  using assms unfolding candidate_def bindE_Inr by (auto simp: bindE_Inr)

lemma identity_candidate_ids:
  assumes "identity_candidate row request verified = Inr c"
  shows "bindE (item_at row ''order_id'') read_uuid = Inr (ic_order_id c)"
    "ic_account_receivable_id c = None"
  using assms unfolding identity_candidate_def bindE_Inr by (auto simp: bindE_Inr)

lemma identity_candidate_verified:
  "identity_candidate row request verified = Inr c \<Longrightarrow> ic_verified c = verified"
  unfolding identity_candidate_def bindE_Inr by (auto simp: bindE_Inr)

lemma verify_candidate_steps:
  assumes "verify_payment_candidate env q w = (Inr obs, w')"
  obtains result eligible w1 where
    "fetch env (verify_query (verification_predicate (vc_account_receivable_id q)))
       (verification_params (vc_order_id q) (vc_account_receivable_id q)) (Some 10) w = (Inr result, w1)"
    "mapE (\<lambda>row. candidate row (Verifying q) True) (qr_rows result) = Inr eligible"
    "to_candidates obs = eligible \<or>
      (vc_account_receivable_id q = None \<and>
       (\<exists>identities w2. fetch env verify_identity_query [Arg_text (vc_order_id q)] (Some 1) w1
            = (Inr identities, w2)
          \<and> mapE (\<lambda>row. identity_candidate row (Verifying q) True) (qr_rows identities)
            = Inr (to_candidates obs)))"
proof -
  obtain result w1 eligible where 1:
    "fetch env (verify_query (verification_predicate (vc_account_receivable_id q)))
       (verification_params (vc_order_id q) (vc_account_receivable_id q)) (Some 10) w = (Inr result, w1)"
    "mapE (\<lambda>row. candidate row (Verifying q) True) (qr_rows result) = Inr eligible"
    and rest: "bind_io
        (if eligible = [] \<and> vc_account_receivable_id q = None
         then bind_io (fetch env verify_identity_query [Arg_text (vc_order_id q)] (Some 1)) (\<lambda>identities.
              bind_io (lift_io (mapE (\<lambda>row. identity_candidate row (Verifying q) True) (qr_rows identities)))
                (\<lambda>people. return_io (people, identities)))
         else return_io (eligible, no_rows))
        (\<lambda>(candidates, identities). return_io (verified_observation result candidates identities)) w1
      = (Inr obs, w')"
    using assms
    unfolding verify_payment_candidate_def
    by (auto simp: bind_io_Inr lift_io_Inr)
  show thesis
  proof (cases "eligible = [] \<and> vc_account_receivable_id q = None")
    case True
    with rest obtain identities w2 people where
      "fetch env verify_identity_query [Arg_text (vc_order_id q)] (Some 1) w1 = (Inr identities, w2)"
      "mapE (\<lambda>row. identity_candidate row (Verifying q) True) (qr_rows identities) = Inr people"
      "obs = verified_observation result people identities"
      by (auto simp: io_Inr)
    then show thesis using that [OF 1] True by (auto simp: verified_observation_def)
  next
    case False
    with rest have "obs = verified_observation result eligible no_rows"
      by (simp add: io_Inr if_not_P [OF False])
    then show thesis using that [OF 1] by (simp add: verified_observation_def)
  qed
qed

lemma verified_row:
  assumes "honours_where (re_server env)"
    and "fetch env (verify_query (verification_predicate (vc_account_receivable_id q)))
       (verification_params (vc_order_id q) (vc_account_receivable_id q)) (Some 10) w = (Inr result, w1)"
    and "row \<in> set (qr_rows result)" "candidate row (Verifying q) True = Inr c"
  shows "requested q c"
proof -
  from fetch_row [OF assms(2,3)] obtain k n records r where
    "sv_fetch (re_server env) k (wrapped_query (verify_query (verification_predicate (vc_account_receivable_id q))) n)
       (verification_params (vc_order_id q) (vc_account_receivable_id q)) = Inr records"
    "r \<in> set records" and r: "row = safe_row r" by blast
  then have w: "column_is r ''order_id'' (vc_order_id q)"
    "\<And>u. vc_account_receivable_id q = Some u \<Longrightarrow> column_is r ''account_receivable_id'' u"
    using assms(1) unfolding honours_where_def by blast+
  have "ic_order_id c = vc_order_id q"
    using candidate_ids(1) [OF assms(4)] column_is_read [OF w(1)] by (simp add: r)
  moreover have "ic_account_receivable_id c = Some u" if "vc_account_receivable_id q = Some u" for u
    using candidate_ids(2) [OF assms(4)] column_is_read [OF w(2) [OF that]] by (auto simp: r)
  ultimately show ?thesis by (cases "vc_account_receivable_id q") (auto simp: requested_def)
qed

lemma identity_row:
  assumes "honours_where (re_server env)" "vc_account_receivable_id q = None"
    and "fetch env verify_identity_query [Arg_text (vc_order_id q)] (Some 1) w = (Inr identities, w1)"
    and "row \<in> set (qr_rows identities)" "identity_candidate row (Verifying q) True = Inr c"
  shows "requested q c"
proof -
  from fetch_row [OF assms(3,4)] obtain k n records r where
    "sv_fetch (re_server env) k (wrapped_query verify_identity_query n) [Arg_text (vc_order_id q)] = Inr records"
    "r \<in> set records" and r: "row = safe_row r" by blast
  then have "column_is r ''order_id'' (vc_order_id q)"
    using assms(1) unfolding honours_where_def by blast
  then have "ic_order_id c = vc_order_id q"
    using identity_candidate_ids(1) [OF assms(5)] column_is_read [of r "''order_id''" "vc_order_id q"]
    by (simp add: r)
  then show ?thesis by (simp add: requested_def assms(2))
qed

lemma verified_requested:
  assumes "honours_where (re_server env)" "verify_payment_candidate env q w = (Inr obs, w')"
    "c \<in> set (to_candidates obs)"
  shows "requested q c"
proof -
  obtain result eligible w1 where s:
    "fetch env (verify_query (verification_predicate (vc_account_receivable_id q)))
       (verification_params (vc_order_id q) (vc_account_receivable_id q)) (Some 10) w = (Inr result, w1)"
    "mapE (\<lambda>row. candidate row (Verifying q) True) (qr_rows result) = Inr eligible"
    "to_candidates obs = eligible \<or>
      (vc_account_receivable_id q = None \<and>
       (\<exists>identities w2. fetch env verify_identity_query [Arg_text (vc_order_id q)] (Some 1) w1
            = (Inr identities, w2)
          \<and> mapE (\<lambda>row. identity_candidate row (Verifying q) True) (qr_rows identities)
            = Inr (to_candidates obs)))"
    by (rule verify_candidate_steps [OF assms(2)])
  from s(3) show ?thesis
  proof (elim disjE conjE exE)
    assume "to_candidates obs = eligible"
    then show ?thesis using mapE_set [OF s(2)] assms(3) verified_row [OF assms(1) s(1)] by blast
  next
    fix identities w2
    assume none: "vc_account_receivable_id q = None"
      and f: "fetch env verify_identity_query [Arg_text (vc_order_id q)] (Some 1) w1 = (Inr identities, w2)"
      and m: "mapE (\<lambda>row. identity_candidate row (Verifying q) True) (qr_rows identities) = Inr (to_candidates obs)"
    obtain row where "row \<in> set (qr_rows identities)" "identity_candidate row (Verifying q) True = Inr c"
      using mapE_set [OF m assms(3)] by blast
    from identity_row [OF assms(1) none f this] show ?thesis .
  qed
qed

section \<open>Linked sources\<close>

definition with_linked :: "string list \<Rightarrow> investigation_candidate \<Rightarrow> investigation_candidate" where
  "with_linked references c = c\<lparr>ic_evidence := ic_evidence c @ map (\<lambda>r. linked_signal r c) references\<rparr>"

lemma with_linked_Nil [simp]: "with_linked [] = (\<lambda>c. c)"
  by (simp add: with_linked_def fun_eq_iff)

lemma with_linked_more:
  "with_linked refs c \<lparr>ic_evidence := ic_evidence (with_linked refs c) @ [linked_signal r (with_linked refs c)]\<rparr>
   = with_linked (refs @ [r]) c"
  by (simp add: with_linked_def linked_signal_def)

lemma add_linked_candidates:
  "to_candidates obs = map (with_linked refs) cs \<Longrightarrow>
   to_candidates (add_linked_evidence r rel obs) = map (with_linked (refs @ [r])) cs"
  by (simp add: add_linked_evidence_def with_linked_more)

lemma add_limitation_fields [simp]:
  "to_candidates (add_limitation t obs) = to_candidates obs" "to_audit (add_limitation t obs) = to_audit obs"
  "to_evidence (add_limitation t obs) = to_evidence obs"
  by (simp_all add: add_limitation_def)

text \<open>What one source may do to the observation: nothing but a limitation, or one weak signal for every
  candidate.\<close>

lemma source_step_effect:
  assumes "source_step env cat q linked source obs w = (Inr obs', w')"
  shows "(to_candidates obs' = to_candidates obs \<and> to_audit obs' = to_audit obs) \<or>
    (\<exists>link rel. map_of linked (sr_reference source) = Some link
       \<and> obs' = add_linked_evidence (sr_reference source) rel obs)"
proof (cases "map_of linked (sr_reference source)")
  case None
  with assms show ?thesis by (simp add: source_step_def return_io_Inr)
next
  case link: (Some link)
  show ?thesis
  proof (cases "source_query cat (sr_record source) (sl_relationship_path link)")
    case (Inl e)
    with assms link show ?thesis by (auto simp: source_step_def return_io_Inr)
  next
    case (Inr t)
    obtain query params r where t: "t = (query, params, r)" by (cases t)
    obtain orders w1 same_order where
      rest: "(if \<not> same_order
          then return_io (add_limitation (''La fuente no vincula inequ'' @ [CHR 0xED] @ ''vocamente esta orden.'') obs)
          else if name_columns r = []
          then return_io (add_limitation (''Fuente vinculada; sin se'' @ [CHR 0xF1] @ ''al de identidad validable.'') obs)
          else bind_io (lift_io (record_predicate cat (sr_record source))) (\<lambda>(_, predicate, key_params).
               bind_io (fetch env (values_query (name_columns r) r predicate)
                          (map Arg_text key_params) (Some 1)) (\<lambda>found.
               return_io
                 (case (qr_truncated found, qr_rows found) of
                    (False, row # _) \<Rightarrow>
                      (if names_agree q (str_join '' '' (map (text_at row) (name_columns r)))
                       then add_linked_evidence (sr_reference source) r obs else obs)
                  | _ \<Rightarrow> obs)))) w1 = (Inr obs', w')"
      using assms link Inr t by (auto simp: source_step_def io_Inr)
    show ?thesis
    proof (cases "\<not> same_order \<or> name_columns r = []")
      case True
      then obtain note_text where "obs' = add_limitation note_text obs"
        using rest by (cases same_order) (auto simp: return_io_Inr)
      then show ?thesis by simp
    next
      case False
      with rest obtain found :: query_result where
        "obs' = (case (qr_truncated found, qr_rows found) of
                    (False, row # _) \<Rightarrow>
                      (if names_agree q (str_join '' '' (map (text_at row) (name_columns r)))
                       then add_linked_evidence (sr_reference source) r obs else obs)
                  | _ \<Rightarrow> obs)"
        by (auto simp: io_Inr split: prod.splits)
      then have "obs' = obs \<or> obs' = add_linked_evidence (sr_reference source) r obs"
        by (auto split: bool.splits list.splits if_splits)
      with link show ?thesis by auto
    qed
  qed
qed

lemma fold_sources_effect:
  assumes "fold_io (source_step env cat q linked) sources obs w = (Inr obs', w')"
    "to_candidates obs = map (with_linked refs) cs"
  shows "\<exists>more. subseq more (map sr_reference sources) \<and> set more \<subseteq> fst ` set linked
    \<and> to_candidates obs' = map (with_linked (refs @ more)) cs
    \<and> am_source_references (to_audit obs') = am_source_references (to_audit obs) @ more"
  using assms
proof (induction sources arbitrary: obs refs w)
  case Nil
  then show ?case by (intro exI [of _ "[]"]) (simp add: return_io_Inr)
next
  case (Cons source sources)
  obtain obs1 w1 where 1: "source_step env cat q linked source obs w = (Inr obs1, w1)"
    "fold_io (source_step env cat q linked) sources obs1 w1 = (Inr obs', w')"
    using Cons.prems(1) by (auto simp: bind_io_Inr)
  from source_step_effect [OF 1(1)] show ?case
  proof
    assume same: "to_candidates obs1 = to_candidates obs \<and> to_audit obs1 = to_audit obs"
    then obtain more where "subseq more (map sr_reference sources)" "set more \<subseteq> fst ` set linked"
      "to_candidates obs' = map (with_linked (refs @ more)) cs"
      "am_source_references (to_audit obs') = am_source_references (to_audit obs1) @ more"
      using Cons.IH [OF 1(2), of refs] Cons.prems(2) by auto
    with same show ?thesis by (intro exI [of _ more]) auto
  next
    assume "\<exists>link rel. map_of linked (sr_reference source) = Some link
       \<and> obs1 = add_linked_evidence (sr_reference source) rel obs"
    then obtain link rel where l: "map_of linked (sr_reference source) = Some link"
      "obs1 = add_linked_evidence (sr_reference source) rel obs" by blast
    then have "to_candidates obs1 = map (with_linked (refs @ [sr_reference source])) cs"
      using add_linked_candidates [OF Cons.prems(2)] by simp
    then obtain more where m: "subseq more (map sr_reference sources)" "set more \<subseteq> fst ` set linked"
      "to_candidates obs' = map (with_linked ((refs @ [sr_reference source]) @ more)) cs"
      "am_source_references (to_audit obs') = am_source_references (to_audit obs1) @ more"
      using Cons.IH [OF 1(2)] by blast
    have "sr_reference source \<in> fst ` set linked"
      using l(1) by (metis fst_conv image_eqI map_of_SomeD)
    moreover have "am_source_references (to_audit obs1)
        = am_source_references (to_audit obs) @ [sr_reference source]"
      by (simp add: l(2) add_linked_evidence_def)
    ultimately show ?thesis
      using m by (intro exI [of _ "sr_reference source # more"]) auto
  qed
qed

lemma linked_sources_keys: "fst ` set (linked_sources q) = sl_reference ` set (vc_source_links q)"
proof -
  have "fst ` set (fold (\<lambda>l d. dict_put (sl_reference l) l d) ls d) = sl_reference ` set ls \<union> fst ` set d"
    for ls :: "source_link list" and d
    by (induction ls arbitrary: d) (auto simp: fst_dict_put)
  from this [of "vc_source_links q" "[]"] show ?thesis by (simp add: linked_sources_def)
qed

lemma verify_sources_effect:
  assumes "verify_payment_sources env q sources w = (Inr obs, w')"
  shows "\<exists>base w1 refs. verify_payment_candidate env q w = (Inr base, w1)
    \<and> to_candidates obs = map (with_linked refs) (to_candidates base)
    \<and> am_source_references (to_audit obs) = am_source_references (to_audit base) @ refs
    \<and> subseq refs (map sr_reference sources) \<and> set refs \<subseteq> sl_reference ` set (vc_source_links q)"
proof -
  obtain base w1 where b: "verify_payment_candidate env q w = (Inr base, w1)"
    and rest: "(if to_candidates base = [] then return_io base
       else bind_io (current_catalog env) (\<lambda>cat.
              fold_io (source_step env cat q (linked_sources q)) sources base)) w1 = (Inr obs, w')"
    using assms by (auto simp: verify_payment_sources_def bind_io_Inr)
  show ?thesis
  proof (cases "to_candidates base = []")
    case True
    with rest b show ?thesis by (intro exI [of _ base] exI [of _ w1] exI [of _ "[]"]) (simp add: return_io_Inr)
  next
    case False
    with rest obtain cat w2 where
      "fold_io (source_step env cat q (linked_sources q)) sources base w2 = (Inr obs, w')"
      by (auto simp: bind_io_Inr)
    from fold_sources_effect [OF this, of "[]" "to_candidates base"] b show ?thesis
      by (auto simp: linked_sources_keys)
  qed
qed

text \<open>A linked source can only add weak evidence. Whatever sources and links a verification is given,
  its candidates are those of the plain verification, the same in every field, with nothing added to
  their evidence but one weak name fragment for each accepted source, in the order of the sources; an
  accepted source is one the request links, and exactly the accepted ones are recorded in the audit.\<close>

theorem linked_sources_are_weak:
  assumes "verify_payment_sources env q sources w = (Inr obs, w')"
  shows "\<exists>base w1 refs. verify_payment_candidate env q w = (Inr base, w1)
    \<and> to_candidates obs = map (\<lambda>c. c\<lparr>ic_evidence := ic_evidence c @ map (\<lambda>r. linked_signal r c) refs\<rparr>)
        (to_candidates base)
    \<and> (\<forall>c r. sig_kind (linked_signal r c) = Name_fragment \<and> sig_strength (linked_signal r c) = Weak
        \<and> sig_order_id (linked_signal r c) = Some (ic_order_id c))
    \<and> am_source_references (to_audit obs) = am_source_references (to_audit base) @ refs
    \<and> subseq refs (map sr_reference sources) \<and> set refs \<subseteq> sl_reference ` set (vc_source_links q)"
  using verify_sources_effect [OF assms] by (auto simp: with_linked_def linked_signal_def)

section \<open>The port\<close>

lemma vambe_evidence:
  assumes "search_vambe_messages env q w = (Inr obs, w')"
  shows "to_evidence obs = [] \<or> (\<exists>order. vq_order_id q = Some order \<and> to_evidence obs = [vambe_mention_signal order])"
proof -
  obtain start end_day w1 where rest: "search_vambe_range env q start end_day w1 = (Inr obs, w')"
    using assms unfolding search_vambe_messages_def bind_io_Inr by blast
  have "obs = invalid_range (limits_of env) \<or> obs = no_identity \<or> (\<exists>result. obs = vambe_observation q result)"
  proof (cases "end_day < start \<or> ql_vambe_max_days (limits_of env) < end_day - start")
    case True
    with rest show ?thesis by (simp add: search_vambe_range_def Let_def return_io_Inr)
  next
    case False
    with rest obtain identity w2 where
      "(if fst identity = None \<and> \<not> DataTools.truthy (snd identity) then return_io no_identity
      else
      bind_io (lift_io (midnight start)) (\<lambda>start_arg.
      bind_io (lift_io (midnight (end_day + 1))) (\<lambda>end_arg.
      bind_io (fetch env vambe_query_text
                 [optional_arg (fst identity), optional_arg (snd identity), start_arg, end_arg,
                  optional_arg (vq_query q)]
                 (Some (ql_vambe_max_messages (limits_of env)))) (\<lambda>result.
      return_io (vambe_observation q result))))) w2 = (Inr obs, w')"
      unfolding search_vambe_range_def Let_def if_not_P [OF False] bind_io_Inr by blast
    then show ?thesis
      by (cases "fst identity = None \<and> \<not> DataTools.truthy (snd identity)") (auto simp: io_Inr)
  qed
  then show ?thesis
    by (auto simp: invalid_range_def no_identity_def vambe_observation_def observation_def split: option.splits)
qed

lemma fst_Inr: "fst p = Inr x \<Longrightarrow> p = (Inr x, snd p)"
  by (cases p) simp


section \<open>Refused SQL\<close>

definition with_fetch ::
  "(nat \<Rightarrow> string \<Rightarrow> sql_arg list \<Rightarrow> exn_name + db_record list) \<Rightarrow> 'n replica_env \<Rightarrow> 'n replica_env" where
  "with_fetch f env = env\<lparr>re_server := (re_server env)\<lparr>sv_fetch := f\<rparr>\<rparr>"

lemma current_catalog_with_fetch: "current_catalog (with_fetch f env) = current_catalog env"
  by (simp add: fun_eq_iff current_catalog_def with_fetch_def catalog_def split: option.split)

text \<open>SQL that the policy refuses never reaches the replica. The call answers that the query was
  refused, with the policy's message and no rows, it makes no attempt, and the answer is the same
  whatever the server would have said to any query at all.\<close>

theorem refused_sql_never_runs:
  assumes "current_catalog env w = (Inr cat, w1)"
    "validate_readonly_sql (re_parser env) (re_sha256 env) (rq_query q)
       (kb_scope (re_knowledge env)) (Some (map fst (cat_relations cat))) = Inl (Sql_policy_error message)"
  shows "run_readonly_sql (with_fetch f env) q w = (Inr (refused_sql message), w1) \<and> fst w1 = fst w
    \<and> to_rows (refused_sql message) = [] \<and> \<not> to_available (refused_sql message)
    \<and> to_limitations (refused_sql message) = [message]"
proof -
  have "fst w1 = fst w"
    using assms(1) by (auto simp: current_catalog_def split: prod.splits)
  moreover have "current_catalog (with_fetch f env) w = (Inr cat, w1)"
    using assms(1) by (simp add: current_catalog_with_fetch)
  moreover have "re_parser (with_fetch f env) = re_parser env" "re_sha256 (with_fetch f env) = re_sha256 env"
    "re_knowledge (with_fetch f env) = re_knowledge env"
    by (simp_all add: with_fetch_def)
  ultimately show ?thesis
    using assms(2)
    by (simp add: run_readonly_sql_def bind_io_def return_io_def refused_sql_def observation_def)
qed

section \<open>Searching\<close>

text \<open>A search returns only what is worth investigating: every candidate has supporting evidence of a
  kind that identifies, none counts as verified, and a candidate known only as an identity never
  repeats the order of one with an account receivable. The search is marked complete only when a tax
  number, mail or phone was given and neither query found any row, so then it has no candidate.\<close>

theorem search_returns_meaningful_candidates:
  assumes "search_payment_candidates env q w = (Inr obs, w')"
  shows "(\<forall>c \<in> set (to_candidates obs). is_meaningful_candidate c \<and> \<not> ic_verified c) \<and>
    (\<forall>c \<in> set (to_candidates obs). \<forall>d \<in> set (to_candidates obs).
       ic_order_id c = ic_order_id d \<longrightarrow>
       (ic_account_receivable_id c = None \<longleftrightarrow> ic_account_receivable_id d = None)) \<and>
    (am_identity_search_complete (to_audit obs) \<longrightarrow>
       to_candidates obs = [] \<and> (given (pq_transferor_rut q) \<noteq> [] \<or> given (pq_email q) \<noteq> [] \<or> given (pq_phone q) \<noteq> []))"
proof -
  obtain params matches where m: "search_matching q = (params, matches)" by (cases "search_matching q")
  obtain result w1 built identities w2 people where
    f: "fetch env (search_query matches) params (Some 20) w = (Inr result, w1)" and
    b: "mapE (\<lambda>row. candidate row (Searching q) False) (qr_rows result) = Inr built" and
    i: "(if has_identity_input q then search_customer_identities env q else return_io no_rows) w1
         = (Inr identities, w2)" and
    p: "mapE (\<lambda>row. identity_candidate row (Searching q) False) (qr_rows identities) = Inr people" and
    obs: "obs = found_observation q result identities (filter is_meaningful_candidate built) people"
    using assms by (auto simp: search_payment_candidates_def m io_Inr Let_def)
  define cs where "cs = filter is_meaningful_candidate built"
  define ps where "ps = filter (\<lambda>c. is_meaningful_candidate c \<and> ic_order_id c \<notin> set (map ic_order_id cs)) people"
  have all: "to_candidates obs = cs @ ps"
    by (simp add: obs cs_def ps_def found_observation_def Let_def)
  have built: "c \<in> set cs \<Longrightarrow> is_meaningful_candidate c \<and> \<not> ic_verified c \<and> ic_account_receivable_id c \<noteq> None" for c
    using mapE_set [OF b, of c] candidate_ids(2) by (auto simp: cs_def elim: candidate_Inr)
  have people: "c \<in> set ps \<Longrightarrow> is_meaningful_candidate c \<and> \<not> ic_verified c
      \<and> ic_account_receivable_id c = None \<and> ic_order_id c \<notin> ic_order_id ` set cs" for c
    using mapE_set [OF p, of c] identity_candidate_ids(2) identity_candidate_verified by (fastforce simp: ps_def)
  have "(ic_account_receivable_id c = None) = (ic_account_receivable_id d = None)"
    if "c \<in> set (cs @ ps)" "d \<in> set (cs @ ps)" "ic_order_id c = ic_order_id d" for c d
    using that built people by (metis Un_iff image_eqI set_append)
  note orders_apart = this
  have "cs = [] \<and> ps = []" if "am_identity_search_complete (to_audit obs)"
  proof -
    have "qr_row_count result = 0" "qr_row_count identities = 0"
      using that by (auto simp: obs found_observation_def Let_def)
    moreover have "qr_row_count result = int (length (qr_rows result))"
      using fetch_count [OF f] .
    moreover have "qr_row_count identities = int (length (qr_rows identities))"
      using i by (auto simp: search_customer_identities_def return_io_Inr no_rows_def
          dest: fetch_count split: if_split_asm prod.splits)
    ultimately have "qr_rows result = []" "qr_rows identities = []" by simp_all
    then show ?thesis using b p by (simp add: cs_def ps_def)
  qed
  note complete_empty = this
  have complete_given: "given (pq_transferor_rut q) \<noteq> [] \<or> given (pq_email q) \<noteq> [] \<or> given (pq_phone q) \<noteq> []"
    if "am_identity_search_complete (to_audit obs)"
    using that by (simp add: obs found_observation_def Let_def)
  have each: "is_meaningful_candidate c \<and> \<not> ic_verified c" if "c \<in> set (cs @ ps)" for c
    using that built [of c] people [of c] by (simp only: set_append) blast
  have empty: "cs @ ps = []" if "am_identity_search_complete (to_audit obs)"
    using complete_empty [OF that] by simp
  show ?thesis
    unfolding all
    by (intro conjI ballI impI each orders_apart empty complete_given; assumption?)
      (use each in blast)+
qed

section \<open>Metadata within the budget\<close>

definition row_bytes :: "(string \<times> json) list \<Rightarrow> int" where
  "row_bytes row = int (utf8_length (json_dumps (JObj row)))"

lemma keep_metadata_prefix:
  assumes "keep_metadata budget rows = (kept, dropped)" "0 \<le> budget"
  shows "kept = take (length kept) rows \<and> sum_list (map row_bytes kept) \<le> budget
    \<and> dropped = (kept \<noteq> rows)"
  using assms
proof (induction rows arbitrary: budget kept)
  case (Cons row rows)
  show ?case
  proof (cases "budget < row_bytes row")
    case True
    with Cons.prems show ?thesis by (auto simp: row_bytes_def)
  next
    case False
    then obtain rest where r: "keep_metadata (budget - row_bytes row) rows = (rest, dropped)"
      "kept = row # rest"
      using Cons.prems(1) by (auto simp: row_bytes_def Let_def split: prod.splits)
    then show ?thesis using Cons.IH [OF r(1)] False by auto
  qed
qed auto

text \<open>Metadata answers fit the budget and say when they do not hold everything: the rows kept are a
  prefix of the rows found whose JSON together is within the smaller byte limit, the answer is marked
  truncated exactly when a row was left out or the page was not the last, and it is marked
  unavailable exactly when a requested relation is not readable.\<close>

theorem metadata_fits_budget:
  "let obs = metadata env source rows missing paged; limit = byte_limit (re_config env) (limits_of env)
   in to_rows obs = take (length (to_rows obs)) rows
    \<and> sum_list (map row_bytes (to_rows obs)) \<le> max 0 limit
    \<and> am_truncated (to_audit obs) = Some (paged \<or> to_rows obs \<noteq> rows)
    \<and> am_row_count (to_audit obs) = Some (int (length (to_rows obs)))
    \<and> to_available obs = (\<not> missing)"
proof -
  define limit where "limit = byte_limit (re_config env) (limits_of env)"
  obtain kept dropped where k: "keep_metadata limit rows = (kept, dropped)"
    by (cases "keep_metadata limit rows")
  have "kept = take (length kept) rows \<and> sum_list (map row_bytes kept) \<le> max 0 limit \<and> dropped = (kept \<noteq> rows)"
  proof (cases "0 \<le> limit")
    case True
    then show ?thesis using keep_metadata_prefix [OF k] by simp
  next
    case False
    then have "limit < int (utf8_length (json_dumps (JObj row)))" for row by simp
    then show ?thesis using k by (cases rows) (auto simp: Let_def)
  qed
  then show ?thesis
    using k by (simp add: metadata_def limit_def [symmetric] observation_def Let_def)
qed

section \<open>Examples\<close>

definition example_record_row :: db_record where
  "example_record_row =
     [(''customer_name'', Db_str ''Ana Rojas''), (''order_id'', Db_exact ''0a000000-0000-4000-8000-00000000000b''),
      (''order_number'', Db_int 4711), (''account_receivable_id'', Db_exact ''0a000000-0000-4000-8000-00000000000c''),
      (''account_receivable_type'', Db_str ''balance''), (''outstanding_amount'', Db_exact ''120000.00''),
      (''currency'', Db_str ''CLP''), (''full_address'', Db_str ''Los Olmos 120 Renca''),
      (''legacy_bank_name'', Db_null), (''signee_names'', Db_null)]"

lemma example_record_safe: "safe_row example_record_row = example_row"
  by (simp add: safe_row_def example_record_row_def example_row_def safe_json_value_def)

definition one_order_server :: replica_server where
  \<comment> \<open>it knows one order\<close>
  "one_order_server = example_server\<lparr>sv_fetch := \<lambda>n sql args.
     if args = [Arg_text ''0a000000-0000-4000-8000-00000000000b''] then Inr [example_record_row] else Inr []\<rparr>"

definition replica_example :: "nat replica_env" where
  "replica_example = \<lparr>re_config = replica_config,
     re_knowledge = \<lparr>kb_scope = example_scope, kb_catalog = \<lparr>sm_version = 1, sm_source = [], sm_relations = []\<rparr>\<rparr>,
     re_server = one_order_server, re_parser = one_query_parser, re_sha256 = (\<lambda>s. s),
     re_general_policy = Inr [], re_identification_policy = Inr [], re_today = 739000, re_clock = 9\<rparr>"

lemma one_order_reads:
  "column_is example_record_row ''order_id'' ''0a000000-0000-4000-8000-00000000000b''"
  by (simp add: column_is_def example_record_row_def read_uuid_def str_lower_def lower_char_def code_def
      is_hex_def ascii_digit_def Let_def)

lemma one_order_honest: "honours_where (re_server replica_example)"
  using one_order_reads
  by (auto simp: honours_where_def replica_example_def one_order_server_def verification_params_def
      split: if_split_asm option.splits)


lemma refused_sql_never_runs_witness:
  "fst (run_readonly_sql (with_fetch (\<lambda>_ _ _. Inl ''OSError'') replica_example)
       \<lparr>rq_query = ''SELECT id FROM sale'', rq_offset = 0, rq_source_records = []\<rparr> (0, started_replica))
   = Inr (refused_sql ''relation is not allowed: sale'')"
proof -
  have c: "current_catalog replica_example (0, started_replica) = (Inr example_catalog, (0, started_replica))"
    by (simp add: current_catalog_def catalog_def started_replica_def replica_example_def catalog_age_def)
  have v: "validate_readonly_sql (re_parser replica_example) (re_sha256 replica_example)
      (rq_query \<lparr>rq_query = ''SELECT id FROM sale'', rq_offset = 0, rq_source_records = []\<rparr>)
      (kb_scope (re_knowledge replica_example)) (Some (map fst (cat_relations example_catalog)))
    = Inl (Sql_policy_error ''relation is not allowed: sale'')"
    by (simp add: replica_example_def example_catalog_eq validate_readonly_sql_def one_query_parser_def
        example_scope_def example_limits_def
        strip_eval refuse_if_def parsed_statements_def forbidden_nodes_def check_select_def is_wildcard_def
        cte_references_of_def check_table_def is_cte_reference_def table_schema_def table_name_def
        or_public_def starts_with_def sale_lower allowed_relations_def Let_def)
  show ?thesis using refused_sql_never_runs [OF c v, of "\<lambda>_ _ _. Inl ''OSError''"] by simp
qed

definition silent_env :: "nat replica_env" where
  "silent_env = with_fetch (\<lambda>_ _ _. Inr []) replica_example"

lemma silent_fetch:
  assumes "0 < k"
  shows "fetch silent_env query args (Some k) (n, started_replica) = (Inr no_rows, (Suc n, started_replica))"
proof -
  have rows: "0 \<le> configured_rows replica_config example_limits (Some k)"
    using assms by (simp add: configured_rows_def replica_config_def default_config_def example_limits_def)
  have empty: "bounded_result rows bytes [] = no_rows" if "0 \<le> rows" for rows bytes
    using that by (simp add: bounded_result_def no_rows_def)
  have env: "re_config silent_env = replica_config" "limits_of silent_env = example_limits"
    "sv_fetch (re_server silent_env) = (\<lambda>_ _ _. Inr [])"
    by (simp_all add: silent_env_def with_fetch_def replica_example_def limits_of_def example_scope_def)
  have "fetch_bounded (re_config silent_env) (limits_of silent_env) (re_server silent_env) started_replica
      query args (Some k) n = (Inr no_rows, Suc n)"
    unfolding fetch_bounded_def env
    using empty [OF rows] by (simp add: started_replica_def numeral_3_eq_3 Let_def env)
  then show ?thesis by (simp add: fetch_def)
qed

lemma silent_search:
  "\<exists>w'. search_payment_candidates silent_env (phone_query v) (0, started_replica)
     = (Inr (found_observation (phone_query v) no_rows no_rows [] []), w')"
proof -
  obtain ps ms where m: "search_matching (phone_query v) = (ps, ms)"
    by (cases "search_matching (phone_query v)")
  obtain qs js where i: "identity_matching (phone_query v) = (qs, js)"
    by (cases "identity_matching (phone_query v)")
  show ?thesis
    by (cases "has_identity_input (phone_query v)"; cases "js = []")
      (simp_all add: search_payment_candidates_def m bind_io_def lift_io_def return_io_def silent_fetch
        search_customer_identities_def i no_rows_def [abs_def] Let_def)
qed

lemma search_returns_meaningful_candidates_witness:
  "\<exists>obs w'. search_payment_candidates silent_env (phone_query ''987654321'') (0, started_replica) = (Inr obs, w')
     \<and> am_identity_search_complete (to_audit obs) \<and> to_candidates obs = []"
proof -
  define obs where "obs = found_observation (phone_query ''987654321'') no_rows no_rows [] []"
  obtain w' where o: "search_payment_candidates silent_env (phone_query ''987654321'') (0, started_replica)
      = (Inr obs, w')"
    using silent_search unfolding obs_def by blast
  have "am_identity_search_complete (to_audit obs)"
    by (simp add: obs_def found_observation_def no_rows_def phone_query_def given_def)
  then show ?thesis using search_returns_meaningful_candidates [OF o] o by blast
qed

lemma linked_sources_are_weak_witness:
  "\<exists>obs w' refs. verify_payment_sources silent_env example_check
       [\<lparr>sr_reference = ''src_001'', sr_record = example_record ''17''\<rparr>] (0, started_replica) = (Inr obs, w')
     \<and> am_source_references (to_audit obs) = refs \<and> subseq refs [''src_001''] \<and> set refs \<subseteq> {}"
proof -
  obtain obs w' where o: "verify_payment_sources silent_env example_check
       [\<lparr>sr_reference = ''src_001'', sr_record = example_record ''17''\<rparr>] (0, started_replica) = (Inr obs, w')"
    "am_source_references (to_audit obs) = []"
    by (simp add: verify_payment_sources_def verify_payment_candidate_def bind_io_def lift_io_def return_io_def
        silent_fetch no_rows_def example_check_def verified_observation_def observation_def default_audit_def)
  with linked_sources_are_weak [OF o(1)] show ?thesis by (auto simp: example_check_def)
qed

end
