(* ===== verification/Images.thy ===== *)
theory Images
  imports Urls Pipeline
begin

text \<open>
  The image ingestion of a run (\<open>slack/images.py\<close>): which addresses the bot token may be sent to, the
  download with its redirects and size limits, the validation of the bytes, the batch with its two
  timeouts, and the private directory with its removal and the sweep at start. Slack's API, the
  HTTP server, the image decoder, the time a download takes and the random suffix of the directory
  are parameters (\<open>slack_files\<close>); a file on disk is its name, its bytes matter only to the decoder.
  \<open>urljoin\<close> is modelled for addresses of the scheme \<open>https\<close>, the only ones that reach it.
\<close>

section \<open>Addresses\<close>

definition partition_at :: "char \<Rightarrow> string \<Rightarrow> string \<times> string" where
  \<comment> \<open>before the first \<open>c\<close>, and after it\<close>
  "partition_at c s = (takeWhile (\<lambda>d. d \<noteq> c) s, tl (dropWhile (\<lambda>d. d \<noteq> c) s))"

record url_parts =
  up_netloc :: string
  up_path :: string
  up_params :: string
  up_query :: string
  up_fragment :: string

definition split_params :: "string \<Rightarrow> string \<times> string" where
  \<comment> \<open>the parameters of the last segment\<close>
  "split_params path =
     (let segment = after_last (CHR ''/'') path; before = take (length path - length segment) path;
          (name, params) = partition_at (CHR '';'') segment
      in (before @ name, params))"

definition url_parts_of :: "split_url \<Rightarrow> url_parts" where
  "url_parts_of u =
     (let (rest, fragment) = partition_at (CHR 0x23) (su_rest u);
          (path, query) = partition_at (CHR ''?'') rest;
          (name, params) = split_params path
      in \<lparr>up_netloc = su_netloc u, up_path = name, up_params = params, up_query = query,
          up_fragment = fragment\<rparr>)"

definition url_text :: "url_parts \<Rightarrow> string" where
  "url_text p =
     (let path = up_path p @ (if up_params p \<noteq> [] then CHR '';'' # up_params p else []);
          rooted = (if path \<noteq> [] \<and> hd path \<noteq> CHR ''/'' then CHR ''/'' # path else path)
      in ''https://'' @ up_netloc p @ rooted
         @ (if up_query p \<noteq> [] then CHR ''?'' # up_query p else [])
         @ (if up_fragment p \<noteq> [] then CHR 0x23 # up_fragment p else []))"

fun resolve_segments :: "string list \<Rightarrow> string list \<Rightarrow> string list" where
  \<comment> \<open>the resolved path so far, last segment first\<close>
  "resolve_segments stack [] = rev stack"
| "resolve_segments stack (s # ss) =
     (if s = ''..'' then resolve_segments (tl stack) ss
      else if s = ''.'' then resolve_segments stack ss
      else resolve_segments (s # stack) ss)"

definition joined_segments :: "string \<Rightarrow> string \<Rightarrow> string list" where
  "joined_segments base_path path =
     (if path \<noteq> [] \<and> hd path = CHR ''/'' then split_on (CHR ''/'') path
      else let parts = split_on (CHR ''/'') base_path;
               kept = (if last parts \<noteq> [] then butlast parts else parts);
               all = kept @ split_on (CHR ''/'') path
           in if length all < 2 then all
              else hd all # filter (\<lambda>s. s \<noteq> []) (butlast (tl all)) @ [last all])"

definition urljoin :: "string \<Rightarrow> string \<Rightarrow> exn_name + string" where
  "urljoin base url =
     bindE (urlsplit base) (\<lambda>b. bindE (urlsplit url) (\<lambda>u.
       if su_scheme u \<notin> {'''', ''https''} then Inr url
       else let p = url_parts_of u; q = url_parts_of b
            in if up_netloc p \<noteq> [] then Inr (url_text p)
               else if up_path p = [] \<and> up_params p = []
               then Inr (url_text (p\<lparr>up_netloc := up_netloc q, up_path := up_path q, up_params := up_params q,
                      up_query := (if up_query p \<noteq> [] then up_query p else up_query q)\<rparr>))
               else let segments = joined_segments (up_path q) (up_path p);
                        resolved = resolve_segments [] segments
                                   @ (if last segments \<in> {''.'', ''..''} then [[]] else []);
                        path = str_join ''/'' resolved
                    in Inr (url_text (p\<lparr>up_netloc := up_netloc q,
                              up_path := (if path = [] then ''/'' else path)\<rparr>))))"

definition slack_hosts :: "string list" where
  "slack_hosts = [''slack.com'', ''slack-files.com'', ''slack-edge.com'']"

definition slack_host_suffixes :: "string list" where
  "slack_host_suffixes = [''.slack.com'', ''.slack-files.com'', ''.slack-edge.com'']"

definition is_allowed_slack_url :: "string \<Rightarrow> exn_name + bool" where
  "is_allowed_slack_url url =
     bindE (urlsplit url) (\<lambda>p.
       if su_scheme p \<noteq> ''https'' \<or> su_username p \<noteq> None \<or> su_password p \<noteq> None then Inr False
       else bindE (su_port p) (\<lambda>port.
              Inr (port \<in> {None, Some 443} \<and>
                   (su_hostname p \<in> set slack_hosts
                    \<or> list_ex (\<lambda>suffix. ends_with suffix (su_hostname p)) slack_host_suffixes))))"

section \<open>Failures\<close>

datatype image_failure =
  File_info_failed | Not_slack_hosted | Unsupported_type | Invalid_size | Invalid_origin
| Too_many_redirects | Rate_limited | Http_error | Download_timeout | Batch_timeout | Size_overflow
| Mime_mismatch | Malformed_image | Animated_image | Invalid_dimensions | Decompression_bomb

fun failure_value :: "image_failure \<Rightarrow> string" where
  "failure_value File_info_failed = ''file_info_failed''"
| "failure_value Not_slack_hosted = ''not_slack_hosted''"
| "failure_value Unsupported_type = ''unsupported_type''"
| "failure_value Invalid_size = ''invalid_size''"
| "failure_value Invalid_origin = ''invalid_origin''"
| "failure_value Too_many_redirects = ''too_many_redirects''"
| "failure_value Rate_limited = ''rate_limited''"
| "failure_value Http_error = ''http_error''"
| "failure_value Download_timeout = ''download_timeout''"
| "failure_value Batch_timeout = ''batch_timeout''"
| "failure_value Size_overflow = ''size_overflow''"
| "failure_value Mime_mismatch = ''mime_mismatch''"
| "failure_value Malformed_image = ''malformed_image''"
| "failure_value Animated_image = ''animated_image''"
| "failure_value Invalid_dimensions = ''invalid_dimensions''"
| "failure_value Decompression_bomb = ''decompression_bomb''"

datatype image_error = Slack_image_error image_failure | Other_error exn_name

definition is_timeout :: "exn_name \<Rightarrow> bool" where
  \<comment> \<open>\<open>TimeoutError\<close> and its subclasses in aiohttp\<close>
  "is_timeout e \<longleftrightarrow> e \<in> {''TimeoutError'', ''ServerTimeoutError'', ''ConnectionTimeoutError'',
     ''SocketTimeoutError''}"

section \<open>The download\<close>

record file_response =
  fr_status :: int
  fr_location :: "string option"
  fr_content_length :: "int option"
  fr_chunks :: "nat list"              \<comment> \<open>sizes of the chunks that arrive\<close>
  fr_broken :: "exn_name option"       \<comment> \<open>how the body fails after them\<close>

record image_probe =
  \<comment> \<open>what the decoder says of an opened file\<close>
  ip_format :: string
  ip_width :: int
  ip_height :: int
  ip_is_animated :: bool
  ip_n_frames :: int
  ip_verify :: "exn_name option"

record slack_files =
  sf_files_info :: "string \<Rightarrow> exn_name + json"
  sf_get :: "nat \<Rightarrow> string \<Rightarrow> exn_name + file_response"   \<comment> \<open>the redirects followed so far and the address\<close>
  sf_open_image :: "string \<Rightarrow> exn_name + image_probe"      \<comment> \<open>by path\<close>
  sf_milliseconds :: "nat \<Rightarrow> int"                        \<comment> \<open>how long the \<open>n\<close>-th image takes\<close>

definition file_info ::
  "slack_files \<Rightarrow> app_config \<Rightarrow> transcript_attachment \<Rightarrow> image_error + (string \<times> string \<times> int)" where
  "file_info sf cfg att =
     (case sf_files_info sf (at_slack_file_id att) of
        Inl e \<Rightarrow> Inl (Slack_image_error File_info_failed)
      | Inr response \<Rightarrow>
          (let raw = jget ''file'' response; mimetype = jget ''mimetype'' raw;
               url = (if SlackEvents.truthy (jget ''url_private_download'' raw)
                      then jget ''url_private_download'' raw else jget ''url_private'' raw)
           in if \<not> is_jobj raw then Inl (Slack_image_error File_info_failed)
              else if jget ''mode'' raw \<noteq> JStr ''hosted'' \<or> jget ''is_external'' raw = JBool True
              then Inl (Slack_image_error Not_slack_hosted)
              else if \<not> hashable mimetype then Inl (Other_error ''TypeError'')
              else if mimetype \<notin> JStr ` set allowed_image_mimetypes
              then Inl (Slack_image_error Unsupported_type)
              else case jint (jget ''size'' raw) of
                     None \<Rightarrow> Inl (Slack_image_error Invalid_size)
                   | Some bytes \<Rightarrow>
                       (if bytes \<le> 0 \<or> max_image_bytes cfg < bytes then Inl (Slack_image_error Invalid_size)
                        else if mimetype \<noteq> JStr (at_mimetype att) then Inl (Slack_image_error Mime_mismatch)
                        else case jstr url of
                               None \<Rightarrow> Inl (Slack_image_error Invalid_origin)
                             | Some address \<Rightarrow>
                                 (case is_allowed_slack_url address of
                                    Inl e \<Rightarrow> Inl (Other_error e)
                                  | Inr False \<Rightarrow> Inl (Slack_image_error Invalid_origin)
                                  | Inr True \<Rightarrow> Inr (address, at_mimetype att, bytes)))))"

fun write_chunks :: "int \<Rightarrow> int \<Rightarrow> nat list \<Rightarrow> int \<Rightarrow> image_error + int" where
  "write_chunks most advertised [] written = Inr written"
| "write_chunks most advertised (chunk # chunks) written =
     (if most < written + int chunk \<or> advertised < written + int chunk
      then Inl (Slack_image_error Size_overflow)
      else write_chunks most advertised chunks (written + int chunk))"

definition save_response :: "app_config \<Rightarrow> int \<Rightarrow> file_response \<Rightarrow> image_error + int" where
  \<comment> \<open>a response that is no redirect: the bytes on disk\<close>
  "save_response cfg advertised response =
     (if fr_status response = 429 then Inl (Slack_image_error Rate_limited)
      else if fr_status response < 200 \<or> 300 \<le> fr_status response then Inl (Slack_image_error Http_error)
      else if (case fr_content_length response of None \<Rightarrow> False
               | Some n \<Rightarrow> max_image_bytes cfg < n \<or> advertised < n)
      then Inl (Slack_image_error Size_overflow)
      else case write_chunks (max_image_bytes cfg) advertised (fr_chunks response) 0 of
             Inl e \<Rightarrow> Inl e
           | Inr written \<Rightarrow>
               (case fr_broken response of
                  Some e \<Rightarrow> Inl (Other_error e)
                | None \<Rightarrow> (if written \<le> 0 then Inl (Slack_image_error Invalid_size) else Inr written)))"

definition redirect_statuses :: "int list" where
  "redirect_statuses = [301, 302, 303, 307, 308]"

function fetch_file ::
  "slack_files \<Rightarrow> app_config \<Rightarrow> int \<Rightarrow> string \<Rightarrow> nat \<Rightarrow> string list \<times> (image_error + int)" where
  \<comment> \<open>the loop: the addresses the token was sent to, and the outcome\<close>
  "fetch_file sf cfg advertised url redirects =
     (case sf_get sf redirects url of
        Inl e \<Rightarrow> ([url], Inl (Other_error e))
      | Inr response \<Rightarrow>
          (if fr_status response \<in> set redirect_statuses
           then (case fr_location response of
                   None \<Rightarrow> ([url], Inl (Slack_image_error Http_error))
                 | Some location \<Rightarrow>
                     (if location = [] then ([url], Inl (Slack_image_error Http_error))
                      else if 3 < Suc redirects then ([url], Inl (Slack_image_error Too_many_redirects))
                      else case urljoin url location of
                             Inl e \<Rightarrow> ([url], Inl (Other_error e))
                           | Inr next_url \<Rightarrow>
                               (case is_allowed_slack_url next_url of
                                  Inl e \<Rightarrow> ([url], Inl (Other_error e))
                                | Inr allowed \<Rightarrow>
                                    (if \<not> allowed then ([url], Inl (Slack_image_error Invalid_origin))
                                     else case fetch_file sf cfg advertised next_url (Suc redirects) of
                                            (urls, outcome) \<Rightarrow> (url # urls, outcome)))))
           else ([url], save_response cfg advertised response)))"
  by pat_completeness auto
termination
  by (relation "measure (\<lambda>(sf, cfg, advertised, url, redirects). 4 - redirects)") auto

declare fetch_file.simps [simp del]

record downloaded_image =
  di_path :: string
  di_mimetype :: string
  di_bytes :: int

definition download ::
  "slack_files \<Rightarrow> app_config \<Rightarrow> transcript_attachment \<Rightarrow> string
   \<Rightarrow> string list \<times> (image_error + downloaded_image)" where
  "download sf cfg att destination =
     (case file_info sf cfg att of
        Inl e \<Rightarrow> ([], Inl e)
      | Inr (url, mimetype, advertised) \<Rightarrow>
          (case fetch_file sf cfg advertised url 0 of
             (urls, Inl e) \<Rightarrow> (urls, Inl e)
           | (urls, Inr written) \<Rightarrow>
               (urls, Inr \<lparr>di_path = destination, di_mimetype = mimetype, di_bytes = written\<rparr>)))"

section \<open>Validation\<close>

definition mime_formats :: "(string \<times> string \<times> string) list" where
  "mime_formats = [(''image/png'', ''PNG'', ''.png''), (''image/jpeg'', ''JPEG'', ''.jpg''),
     (''image/webp'', ''WEBP'', ''.webp'')]"

definition image_exception :: "exn_name \<Rightarrow> image_error" where
  \<comment> \<open>the handlers, with the subclasses of \<open>OSError\<close> and \<open>ValueError\<close> a decoder raises\<close>
  "image_exception e =
     (if e \<in> {''DecompressionBombError'', ''DecompressionBombWarning''} then Slack_image_error Decompression_bomb
      else if e \<in> {''OSError'', ''FileNotFoundError'', ''PermissionError'', ''UnidentifiedImageError'',
                   ''ValueError'', ''UnicodeDecodeError''}
      then Slack_image_error Malformed_image
      else Other_error e)"

definition with_suffix :: "string \<Rightarrow> string \<Rightarrow> string" where
  \<comment> \<open>\<open>path.with_suffix(suffix)\<close> for a file name that has one\<close>
  "with_suffix path suffix = (case before_last (CHR ''.'') path of None \<Rightarrow> path @ suffix | Some p \<Rightarrow> p @ suffix)"

definition validate_image ::
  "slack_files \<Rightarrow> app_config \<Rightarrow> downloaded_image \<Rightarrow> image_error + string" where
  "validate_image sf cfg downloaded =
     (case map_of mime_formats (di_mimetype downloaded) of
        None \<Rightarrow> Inl (Other_error ''KeyError'')
      | Some (expected_format, suffix) \<Rightarrow>
          (case sf_open_image sf (di_path downloaded) of
             Inl e \<Rightarrow> Inl (image_exception e)
           | Inr probe \<Rightarrow>
               (if ip_format probe \<noteq> expected_format then Inl (Slack_image_error Mime_mismatch)
                else if ip_width probe \<le> 0 \<or> ip_height probe \<le> 0
                        \<or> max_image_pixels cfg < ip_width probe * ip_height probe
                then Inl (Slack_image_error Invalid_dimensions)
                else if ip_is_animated probe \<or> ip_n_frames probe \<noteq> 1
                then Inl (Slack_image_error Animated_image)
                else case ip_verify probe of
                       Some e \<Rightarrow> Inl (image_exception e)
                     | None \<Rightarrow> Inr (with_suffix (di_path downloaded) suffix))))"

section \<open>The private directory\<close>

datatype entry = Plain_file | Directory | Link_to "entry option"

record temp_root =
  tr_root :: "entry option"
  tr_children :: "(string \<times> entry) list"

fun entry_exists :: "entry option \<Rightarrow> bool" where
  "entry_exists None = False"
| "entry_exists (Some (Link_to target)) = (target \<noteq> None)"
| "entry_exists (Some _) = True"

fun is_dir :: "entry \<Rightarrow> bool" where
  "is_dir Directory = True"
| "is_dir (Link_to (Some e)) = is_dir e"
| "is_dir _ = False"

fun is_symlink :: "entry \<Rightarrow> bool" where
  "is_symlink (Link_to _) = True" | "is_symlink _ = False"

definition prepare_run_directory :: "temp_root \<Rightarrow> string \<Rightarrow> exn_name + temp_root" where
  \<comment> \<open>\<open>name\<close> is \<open>run-\<close>, the run's id and the random suffix\<close>
  "prepare_run_directory fs name =
     bindE (if entry_exists (tr_root fs)
            then (if is_symlink (the (tr_root fs)) \<or> \<not> is_dir (the (tr_root fs)) then Inl ''RuntimeError''
                  else Inr fs)
            else if tr_root fs \<noteq> None then Inl ''FileExistsError''
            else Inr \<lparr>tr_root = Some Directory, tr_children = []\<rparr>) (\<lambda>fs1.
       if name \<in> fst ` set (tr_children fs1) then Inl ''FileExistsError''
       else Inr (fs1\<lparr>tr_children := tr_children fs1 @ [(name, Directory)]\<rparr>))"

definition remove_tree :: "string \<Rightarrow> temp_root \<Rightarrow> temp_root" where
  "remove_tree name fs = fs\<lparr>tr_children := filter (\<lambda>c. fst c \<noteq> name) (tr_children fs)\<rparr>"

definition abandoned :: "string \<times> entry \<Rightarrow> bool" where
  "abandoned child \<longleftrightarrow> starts_with ''run-'' (fst child) \<and> is_dir (snd child) \<and> \<not> is_symlink (snd child)"

definition sweep_abandoned_image_directories :: "temp_root \<Rightarrow> nat \<times> temp_root" where
  "sweep_abandoned_image_directories fs =
     (if \<not> entry_exists (tr_root fs) \<or> is_symlink (the (tr_root fs)) \<or> \<not> is_dir (the (tr_root fs))
      then (0, fs)
      else (length (filter abandoned (tr_children fs)),
            fs\<lparr>tr_children := filter (\<lambda>c. \<not> abandoned c) (tr_children fs)\<rparr>))"

section \<open>The batch\<close>

definition destination :: "string \<Rightarrow> nat \<Rightarrow> string" where
  "destination dir index = dir @ ''/image-'' @ show_nat index @ ''.download''"

definition fetch_image ::
  "slack_files \<Rightarrow> app_config \<Rightarrow> string \<Rightarrow> nat \<Rightarrow> transcript_attachment \<Rightarrow> image_error + string" where
  "fetch_image sf cfg dir index att =
     (case snd (download sf cfg att (destination dir index)) of
        Inl e \<Rightarrow> Inl e
      | Inr downloaded \<Rightarrow> validate_image sf cfg downloaded)"

fun ingest_loop ::
  "slack_files \<Rightarrow> app_config \<Rightarrow> string \<Rightarrow> int \<Rightarrow> nat \<Rightarrow> transcript_attachment list
   \<Rightarrow> exn_name + (string list \<times> image_failure list)" where
  \<comment> \<open>\<open>elapsed\<close> milliseconds of the batch are gone; the paths and failures of the rest, in order\<close>
  "ingest_loop sf cfg dir elapsed index [] = Inr ([], [])"
| "ingest_loop sf cfg dir elapsed index (att # atts) =
     (let most = 1000 * slack_file_timeout_seconds cfg; took = sf_milliseconds sf index;
          then_failed = (\<lambda>spent failure.
            bindE (ingest_loop sf cfg dir (elapsed + spent) (Suc index) atts)
              (\<lambda>(paths, failures). Inr (paths, failure # failures)))
      in if 1000 * slack_image_batch_timeout_seconds cfg < elapsed + min took most
         then Inr ([], [Batch_timeout])
         else if most < took then then_failed most Download_timeout
         else case fetch_image sf cfg dir index att of
                Inr path \<Rightarrow>
                  bindE (ingest_loop sf cfg dir (elapsed + took) (Suc index) atts)
                    (\<lambda>(paths, failures). Inr (path # paths, failures))
              | Inl (Slack_image_error failure) \<Rightarrow> then_failed took failure
              | Inl (Other_error e) \<Rightarrow>
                  (if is_timeout e then then_failed took Download_timeout else Inl e))"

definition image_batch_of ::
  "transcript_attachment list \<Rightarrow> int \<Rightarrow> int \<Rightarrow> string list \<times> image_failure list \<Rightarrow> image_batch" where
  "image_batch_of atts wanted rejected outcome =
     (case outcome of (paths, failures) \<Rightarrow>
       \<lparr>ib_paths = paths,
        ib_ingestion = \<lparr>ing_requested = wanted, ing_metadata_accepted = int (length atts),
          ing_downloaded = int (length paths), ing_rejected = rejected,
          ing_failure_categories = sorted_texts (fromkeys (map failure_value failures))\<rparr>\<rparr>)"

definition considered :: "app_config \<Rightarrow> 'a list \<Rightarrow> 'a list" where
  \<comment> \<open>\<open>attachments[:config.max_images]\<close>\<close>
  "considered cfg atts = take (nat (max_images cfg)) atts"

definition ingest_trigger_images ::
  "slack_files \<Rightarrow> app_config \<Rightarrow> string \<Rightarrow> string \<Rightarrow> transcript_attachment list \<Rightarrow> int \<Rightarrow> int
   \<Rightarrow> (image_batch \<Rightarrow> exn_name + 'a) \<Rightarrow> temp_root \<Rightarrow> (exn_name + 'a) \<times> temp_root" where
  \<comment> \<open>the context manager around its consumer \<open>body\<close>\<close>
  "ingest_trigger_images sf cfg root_path name atts wanted rejected body fs =
     (case prepare_run_directory fs name of
        Inl e \<Rightarrow> (Inl e, fs)
      | Inr fs1 \<Rightarrow>
          (bindE (ingest_loop sf cfg (root_path @ ''/'' @ name) 0 1 (considered cfg atts)) (\<lambda>outcome.
             body (image_batch_of atts wanted rejected outcome)),
           remove_tree name fs1))"

section \<open>The token stays with Slack\<close>

definition slack_address :: "string \<Rightarrow> bool" where
  \<comment> \<open>https, no credentials in the address, the default port, a host of Slack's\<close>
  "slack_address url \<longleftrightarrow> (\<exists>p. urlsplit url = Inr p \<and> su_scheme p = ''https'' \<and> su_username p = None
     \<and> su_password p = None \<and> (su_port p = Inr None \<or> su_port p = Inr (Some 443))
     \<and> (\<exists>host \<in> {''slack.com'', ''slack-files.com'', ''slack-edge.com''}. su_hostname p = host
          \<or> (\<exists>sub. su_hostname p = sub @ ''.'' @ host)))"

lemma ends_with_append: "ends_with p s \<longleftrightarrow> (\<exists>r. s = r @ p)"
  by (auto simp: ends_with_def) (metis append_take_drop_id)

lemma allowed_slack_address: "is_allowed_slack_url url = Inr True \<longleftrightarrow> slack_address url"
proof -
  have h: "h \<in> set slack_hosts \<or> list_ex (\<lambda>suffix. ends_with suffix h) slack_host_suffixes
      \<longleftrightarrow> (\<exists>host \<in> {''slack.com'', ''slack-files.com'', ''slack-edge.com''}. h = host
             \<or> (\<exists>sub. h = sub @ ''.'' @ host))" for h
    by (auto simp: slack_hosts_def slack_host_suffixes_def ends_with_append)
  show ?thesis
    unfolding is_allowed_slack_url_def slack_address_def h
    by (auto split: if_split_asm)
qed

lemma fetch_file_addresses:
  assumes "fetch_file sf cfg advertised url redirects = (urls, outcome)" "slack_address url" "redirects \<le> 3"
  shows "length urls + redirects \<le> 4 \<and> (\<forall>u \<in> set urls. slack_address u)"
  using assms
proof (induction sf cfg advertised url redirects arbitrary: urls outcome rule: fetch_file.induct)
  case (1 sf cfg advertised url redirects)
  show ?case
  proof (cases "\<exists>response location next_url rest. sf_get sf redirects url = Inr response \<and>
      fr_status response \<in> set redirect_statuses \<and> fr_location response = Some location \<and> location \<noteq> [] \<and>
      \<not> 3 < Suc redirects \<and> urljoin url location = Inr next_url \<and> is_allowed_slack_url next_url = Inr True \<and>
      fetch_file sf cfg advertised next_url (Suc redirects) = (rest, outcome) \<and> urls = url # rest")
    case True
    then obtain response location next_url rest where r: "sf_get sf redirects url = Inr response"
      "fr_status response \<in> set redirect_statuses" "fr_location response = Some location" "location \<noteq> []"
      "\<not> 3 < Suc redirects" "urljoin url location = Inr next_url" "is_allowed_slack_url next_url = Inr True"
      "fetch_file sf cfg advertised next_url (Suc redirects) = (rest, outcome)" "urls = url # rest"
      by blast
    have "length rest + Suc redirects \<le> 4 \<and> (\<forall>u \<in> set rest. slack_address u)"
      using 1(1) [OF r(1-7) _ r(8)] r(5,7) by (simp add: allowed_slack_address)
    then show ?thesis using r(9) 1(3) by simp
  next
    case False
    then have "urls = [url]"
      using 1(2) unfolding fetch_file.simps [of sf cfg advertised url redirects]
      by (auto split: sum.splits if_splits option.splits prod.splits bool.splits)
    then show ?thesis using 1(3,4) by simp
  qed
qed

lemma write_chunks_bound:
  "write_chunks most advertised chunks written = Inr n \<Longrightarrow> written \<le> most \<Longrightarrow> written \<le> advertised \<Longrightarrow>
     n \<le> most \<and> n \<le> advertised"
  by (induction chunks arbitrary: written) (auto split: if_splits)

lemma fetch_file_bytes:
  assumes "fetch_file sf cfg advertised url redirects = (urls, Inr n)" "0 < advertised"
    "advertised \<le> max_image_bytes cfg"
  shows "0 < n \<and> n \<le> advertised"
  using assms
proof (induction sf cfg advertised url redirects arbitrary: urls rule: fetch_file.induct)
  case (1 sf cfg advertised url redirects)
  have save: "0 < n \<and> n \<le> advertised" if "save_response cfg advertised response = Inr n" for response
    using that 1(3,4)
    by (auto simp: save_response_def dest: write_chunks_bound
        split: if_splits sum.splits option.splits)
  from 1(2) show ?case
    unfolding fetch_file.simps [of sf cfg advertised url redirects]
    by (auto split: sum.splits if_splits option.splits prod.splits dest: save 1(1) [OF _ _ _ _ _ _ _ _ _ 1(3,4)])
qed

lemma file_info_facts:
  "file_info sf cfg att = Inr (url, mimetype, advertised) \<Longrightarrow> slack_address url \<and> mimetype = at_mimetype att
     \<and> mimetype \<in> set allowed_image_mimetypes \<and> 0 < advertised \<and> advertised \<le> max_image_bytes cfg"
  by (auto simp: file_info_def Let_def allowed_slack_address
      split: sum.splits if_splits option.splits bool.splits)

text \<open>C23: The bot token stays with Slack. Whatever Slack's API and every server answer, one download
  sends the token to at most four addresses, and each of them is https on the default port, without
  credentials of its own, on a host of Slack's; and what it leaves on disk is not empty and not
  larger than the configured maximum.\<close>

theorem bot_token_stays_with_slack:
  assumes "download sf cfg att path = (urls, outcome)"
  shows "length urls \<le> 4 \<and> (\<forall>u \<in> set urls. slack_address u)
    \<and> (case outcome of Inl _ \<Rightarrow> True
       | Inr d \<Rightarrow> di_path d = path \<and> di_mimetype d \<in> set allowed_image_mimetypes
           \<and> 0 < di_bytes d \<and> di_bytes d \<le> max_image_bytes cfg)"
proof (cases "file_info sf cfg att")
  case (Inl e)
  then show ?thesis using assms by (auto simp: download_def)
next
  case (Inr info)
  obtain url mimetype advertised where info: "info = (url, mimetype, advertised)" by (cases info)
  note facts = file_info_facts [OF Inr [unfolded info]]
  obtain got where f: "fetch_file sf cfg advertised url 0 = (urls, got)"
    using assms Inr info by (auto simp: download_def split: prod.splits sum.splits)
  have "outcome = (case got of Inl e \<Rightarrow> Inl e
      | Inr n \<Rightarrow> Inr \<lparr>di_path = path, di_mimetype = mimetype, di_bytes = n\<rparr>)"
    using assms Inr info f by (auto simp: download_def split: sum.splits)
  then show ?thesis
    using fetch_file_addresses [OF f] fetch_file_bytes [of sf cfg advertised url 0 urls] f facts
    by (fastforce split: sum.splits)
qed

section \<open>The batch adds up\<close>

lemma ingest_loop_Cons:
  assumes "ingest_loop sf cfg dir elapsed index (att # atts) = Inr (paths, failures)"
  shows "(paths = [] \<and> failures = [Batch_timeout])
    \<or> (\<exists>t path ps. fetch_image sf cfg dir index att = Inr path \<and> paths = path # ps \<and>
         ingest_loop sf cfg dir (elapsed + t) (Suc index) atts = Inr (ps, failures))
    \<or> (\<exists>t f fs. failures = f # fs \<and> ingest_loop sf cfg dir (elapsed + t) (Suc index) atts = Inr (paths, fs))"
  using assms by (auto simp: Let_def split: if_splits sum.splits image_error.splits)

lemma ingest_loop_counts:
  "ingest_loop sf cfg dir elapsed index atts = Inr (paths, failures) \<Longrightarrow>
     length paths + length failures \<le> length atts \<and>
     (Batch_timeout \<notin> set failures \<longrightarrow> length paths + length failures = length atts)"
proof (induction atts arbitrary: elapsed index paths failures)
  case (Cons att atts)
  from ingest_loop_Cons [OF Cons.prems] show ?case by (auto dest!: Cons.IH)
qed simp

definition image_path :: "string \<Rightarrow> nat \<Rightarrow> string \<Rightarrow> bool" where
  "image_path dir index path \<longleftrightarrow> (\<exists>suffix \<in> {''.png'', ''.jpg'', ''.webp''}.
     path = dir @ ''/image-'' @ show_nat index @ suffix)"

lemma with_suffix_download: "with_suffix (stem @ ''.download'') suffix = stem @ suffix"
  by (simp add: with_suffix_def before_last_def after_last_def)

lemma fetch_image_path: "fetch_image sf cfg dir index att = Inr path \<Longrightarrow> image_path dir index path"
proof -
  assume a: "fetch_image sf cfg dir index att = Inr path"
  then obtain d where d: "snd (download sf cfg att (destination dir index)) = Inr d"
    "validate_image sf cfg d = Inr path"
    by (auto simp: fetch_image_def split: sum.splits)
  have "di_path d = (dir @ ''/image-'' @ show_nat index) @ ''.download''"
    using d(1) by (auto simp: download_def destination_def split: sum.splits prod.splits)
  then show ?thesis
    using d(2) with_suffix_download [of "dir @ ''/image-'' @ show_nat index"]
    by (auto simp: validate_image_def image_path_def mime_formats_def
        split: option.splits sum.splits if_splits)
qed

lemma ingest_loop_paths:
  "ingest_loop sf cfg dir elapsed index atts = Inr (paths, failures) \<Longrightarrow>
     \<exists>ns. list_all2 (image_path dir) ns paths \<and> sorted_wrt (<) ns \<and> (\<forall>n \<in> set ns. index \<le> n)"
proof (induction atts arbitrary: elapsed index paths failures)
  case (Cons att atts)
  from ingest_loop_Cons [OF Cons.prems] show ?case
  proof (elim disjE exE conjE)
    fix t path ps
    assume *: "fetch_image sf cfg dir index att = Inr path" "paths = path # ps"
      "ingest_loop sf cfg dir (elapsed + t) (Suc index) atts = Inr (ps, failures)"
    from Cons.IH [OF *(3)] obtain ns where ns: "list_all2 (image_path dir) ns ps" "sorted_wrt (<) ns"
      "\<forall>n \<in> set ns. Suc index \<le> n" by blast
    then have "list_all2 (image_path dir) (index # ns) paths \<and> sorted_wrt (<) (index # ns)
        \<and> (\<forall>n \<in> set (index # ns). index \<le> n)"
      using fetch_image_path [OF *(1)] *(2) by (auto simp: Suc_le_eq)
    then show ?thesis by blast
  next
    fix t f fs
    assume "ingest_loop sf cfg dir (elapsed + t) (Suc index) atts = Inr (paths, fs)"
    from Cons.IH [OF this] show ?thesis by (metis Suc_leD)
  next
    assume "paths = []" then show ?thesis by (auto intro!: exI [of _ "[]"])
  qed
qed simp

lemma image_path_index:
  assumes "image_path dir m path" "image_path dir n path"
  shows "m = n"
proof -
  have stop: "takeWhile ascii_digit (show_nat k @ s) = show_nat k"
    if "s \<in> {''.png'', ''.jpg'', ''.webp''}" for k s
  proof -
    have "\<not> ascii_digit (CHR ''.'')" by (simp add: ascii_digit_def code_def)
    then show ?thesis
      using that show_nat_digits [of k] take_drop_digits(1) [of "show_nat k" "CHR ''.''"] by auto
  qed
  obtain s t where "s \<in> {''.png'', ''.jpg'', ''.webp''}" "t \<in> {''.png'', ''.jpg'', ''.webp''}"
    "show_nat m @ s = show_nat n @ t"
    using assms by (auto simp: image_path_def)
  then have "show_nat m = show_nat n" using stop by metis
  then show ?thesis by (simp add: show_nat_inject)
qed

lemma distinct_paths:
  "list_all2 (image_path dir) ns paths \<Longrightarrow> sorted_wrt (<) ns \<Longrightarrow> distinct paths"
proof (induction ns paths rule: list_all2_induct)
  case (Cons n ns path paths)
  have "path \<notin> set paths"
  proof
    assume "path \<in> set paths"
    then obtain m where "m \<in> set ns" "image_path dir m path"
      using Cons(2) by (metis in_set_conv_nth list_all2_conv_all_nth)
    then show False using image_path_index [OF Cons(1)] Cons.prems by auto
  qed
  with Cons show ?case by simp
qed simp

text \<open>C0: The account of a batch adds up. When images are handed over, they are at most the configured
  number, each under a path of its own inside the run's directory and in the order of the
  attachments; \<open>downloaded\<close> is their number; the failure categories are sorted, without repetition,
  and empty exactly when every image that was considered is there, so a missing one always shows.\<close>

theorem image_batch_adds_up:
  assumes "fst (ingest_trigger_images sf cfg root name atts wanted rejected Inr fs) = Inr batch"
  shows "ing_downloaded (ib_ingestion batch) = int (length (ib_paths batch))
    \<and> length (ib_paths batch) \<le> nat (max_images cfg) \<and> distinct (ib_paths batch)
    \<and> (\<exists>ns. sorted_wrt (<) ns \<and> list_all2 (image_path (root @ ''/'' @ name)) ns (ib_paths batch))
    \<and> distinct (ing_failure_categories (ib_ingestion batch))
    \<and> sorted (map (map code_point) (ing_failure_categories (ib_ingestion batch)))
    \<and> (ing_failure_categories (ib_ingestion batch) = [] \<longleftrightarrow>
         length (ib_paths batch) = length (considered cfg atts))"
proof -
  define dir where "dir = root @ ''/'' @ name"
  obtain paths failures where l: "ingest_loop sf cfg dir 0 1 (considered cfg atts) = Inr (paths, failures)"
    and batch: "batch = image_batch_of atts wanted rejected (paths, failures)"
    using assms by (auto simp: ingest_trigger_images_def dir_def split: sum.splits)
  note counts = ingest_loop_counts [OF l]
  obtain ns where ns: "list_all2 (image_path dir) ns paths" "sorted_wrt (<) ns"
    using ingest_loop_paths [OF l] by blast
  have categories: "set (sorted_texts (fromkeys (map failure_value failures))) = failure_value ` set failures"
    "distinct (sorted_texts (fromkeys (map failure_value failures)))"
    by (auto simp: sorted_texts_def)
  have "failures = [] \<longleftrightarrow> length paths = length (considered cfg atts)"
    using counts by (cases failures) auto
  moreover have "sorted_texts (fromkeys (map failure_value failures)) = [] \<longleftrightarrow> failures = []"
    using categories(1) by (metis image_is_empty set_empty)
  moreover have "length (considered cfg atts) \<le> nat (max_images cfg)" by (simp add: considered_def)
  ultimately show ?thesis
    using counts distinct_paths [OF ns] ns categories(2)
    by (auto simp: batch image_batch_of_def dir_def sorted_texts_def)
qed

text \<open>No image outlives its run. Whatever the downloads do and however the consumer of the batch
  ends, by a result or by an exception, the run's directory is gone afterwards and everything else
  in the temporary root is as it was before; and the sweep at start removes exactly the run
  directories, never a link or a file, and says how many.\<close>

theorem images_leave_nothing_behind:
  fixes body :: "image_batch \<Rightarrow> exn_name + 'a"
  assumes "ingest_trigger_images sf cfg root name atts wanted rejected body fs = (res, fs')"
  shows "tr_children fs' = (if entry_exists (tr_root fs) \<or> fs' = fs then tr_children fs else [])
    \<and> (case prepare_run_directory fs name of
         Inl e \<Rightarrow> res = Inl e \<and> fs' = fs
       | Inr during \<Rightarrow> (name, Directory) \<in> set (tr_children during) \<and> name \<notin> fst ` set (tr_children fs'))
    \<and> (let (n, swept) = sweep_abandoned_image_directories fs
       in n + length (tr_children swept) = length (tr_children fs) \<and> tr_root swept = tr_root fs \<and>
          (tr_root fs = Some Directory \<longrightarrow> tr_children swept =
             filter (\<lambda>c. \<not> (starts_with ''run-'' (fst c) \<and> snd c = Directory)) (tr_children fs)))"
proof -
  have dir: "is_dir e \<and> \<not> is_symlink e \<longleftrightarrow> e = Directory" for e by (cases e) auto
  have "abandoned c \<longleftrightarrow> starts_with ''run-'' (fst c) \<and> snd c = Directory" for c
    unfolding abandoned_def dir by simp
  then have sweep: "let (n, swept) = sweep_abandoned_image_directories fs
       in n + length (tr_children swept) = length (tr_children fs) \<and> tr_root swept = tr_root fs \<and>
          (tr_root fs = Some Directory \<longrightarrow> tr_children swept =
             filter (\<lambda>c. \<not> (starts_with ''run-'' (fst c) \<and> snd c = Directory)) (tr_children fs))"
    using sum_length_filter_compl [of abandoned "tr_children fs"]
    by (auto simp: sweep_abandoned_image_directories_def Let_def)
  have clean: "filter (\<lambda>c. fst c \<noteq> name) children = children" if "name \<notin> fst ` set children"
    for children :: "(string \<times> entry) list"
    using that by (auto simp: filter_id_conv)
  show ?thesis
    using assms sweep
    by (cases "prepare_run_directory fs name")
      (auto simp: ingest_trigger_images_def prepare_run_directory_def remove_tree_def clean image_iff
        split: if_splits)
qed

section \<open>One broken connection\<close>

lemma ingest_loop_broken:
  assumes "fetch_image sf cfg dir (index + length before) att = Inl (Other_error e)" "\<not> is_timeout e"
    "\<forall>i < length before. \<forall>f. fetch_image sf cfg dir (index + i) (before ! i) \<noteq> Inl (Other_error f)"
    "\<forall>n. 0 \<le> sf_milliseconds sf n \<and> sf_milliseconds sf n \<le> t" "t \<le> 1000 * slack_file_timeout_seconds cfg"
    "elapsed + (int (length before) + 1) * t \<le> 1000 * slack_image_batch_timeout_seconds cfg"
  shows "ingest_loop sf cfg dir elapsed index (before @ att # after) = Inl e"
  using assms
proof (induction before arbitrary: elapsed index)
  case Nil
  have "sf_milliseconds sf index \<le> t" using Nil.prems(4) by blast
  then have "\<not> 1000 * slack_file_timeout_seconds cfg < sf_milliseconds sf index"
    "\<not> 1000 * slack_image_batch_timeout_seconds cfg < elapsed + sf_milliseconds sf index"
    using Nil.prems(5,6) by simp_all
  with Nil.prems(1,2) show ?case by (simp add: Let_def)
next
  case (Cons b before)
  have ms: "0 \<le> sf_milliseconds sf index" "sf_milliseconds sf index \<le> t" using Cons.prems(4) by auto
  then have "0 \<le> t" by linarith
  then have less: "0 \<le> int (length before) * t" "0 \<le> t" by simp_all
  have rest: "ingest_loop sf cfg dir (elapsed + sf_milliseconds sf index) (Suc index) (before @ att # after) = Inl e"
  proof (rule Cons.IH)
    show "\<forall>i < length before. \<forall>f. fetch_image sf cfg dir (Suc index + i) (before ! i) \<noteq> Inl (Other_error f)"
    proof (intro allI impI)
      fix i f assume "i < length before"
      then show "fetch_image sf cfg dir (Suc index + i) (before ! i) \<noteq> Inl (Other_error f)"
        using Cons.prems(3) [rule_format, of "Suc i" f] by simp
    qed
    show "elapsed + sf_milliseconds sf index + (int (length before) + 1) * t
        \<le> 1000 * slack_image_batch_timeout_seconds cfg"
      using Cons.prems(6) ms by (simp add: distrib_right)
  qed (use Cons.prems in auto)
  have "fetch_image sf cfg dir index b \<noteq> Inl (Other_error f)" for f
    using Cons.prems(3) [rule_format, of 0 f] by simp
  moreover have "elapsed + (2 * t + int (length before) * t) \<le> 1000 * slack_image_batch_timeout_seconds cfg"
    using Cons.prems(6) by (simp add: distrib_right)
  then have "\<not> 1000 * slack_image_batch_timeout_seconds cfg < elapsed + sf_milliseconds sf index"
    using ms less by linarith
  moreover have "\<not> 1000 * slack_file_timeout_seconds cfg < sf_milliseconds sf index"
    using ms Cons.prems(5) by linarith
  moreover from this have "min (sf_milliseconds sf index) (1000 * slack_file_timeout_seconds cfg)
      = sf_milliseconds sf index" by simp
  ultimately show ?case
    using rest by (auto simp: Let_def split: sum.splits image_error.splits)
qed

text \<open>C40: One broken connection costs the run all its images. The categories cover refusals of Slack, bad
  bytes and timeouts, but not an exception of the connection itself: when the request of any
  considered image ends that way in time, the ingestion hands over nothing and raises that exception
  into the run, however many images before it were downloaded and whatever comes after.\<close>

theorem broken_connection_ends_ingestion:
  assumes "considered cfg atts = before @ att # after" "prepare_run_directory fs name = Inr during"
    "file_info sf cfg att = Inr (url, mimetype, advertised)" "sf_get sf 0 url = Inl e" "\<not> is_timeout e"
    "\<forall>i < length before. \<forall>f. fetch_image sf cfg (root @ ''/'' @ name) (1 + i) (before ! i) \<noteq> Inl (Other_error f)"
    "\<forall>n. 0 \<le> sf_milliseconds sf n \<and> sf_milliseconds sf n \<le> t" "t \<le> 1000 * slack_file_timeout_seconds cfg"
    "(int (length before) + 1) * t \<le> 1000 * slack_image_batch_timeout_seconds cfg"
  shows "fst (ingest_trigger_images sf cfg root name atts wanted rejected body fs) = Inl e"
proof -
  have "fetch_image sf cfg (root @ ''/'' @ name) (1 + length before) att = Inl (Other_error e)"
    using assms(3,4) by (simp add: fetch_image_def download_def fetch_file.simps)
  from ingest_loop_broken [OF this assms(5-8), of 0 after] assms(9)
  have "ingest_loop sf cfg (root @ ''/'' @ name) 0 1 (before @ att # after) = Inl e" by simp
  then show ?thesis by (simp add: ingest_trigger_images_def assms(1,2))
qed

section \<open>Examples\<close>

definition example_file :: "string \<Rightarrow> transcript_attachment" where
  "example_file n = \<lparr>at_slack_file_id = n, at_name = None, at_mimetype = ''image/png'', at_size = 4\<rparr>"

definition example_files :: slack_files where
  \<comment> \<open>the file \<open>A\<close> redirects once and arrives; the connection of every other file breaks\<close>
  "example_files = \<lparr>
     sf_files_info = (\<lambda>n. Inr (JObj [(''file'', JObj [(''mimetype'', JStr ''image/png''), (''size'', JInt 4),
        (''mode'', JStr ''hosted''), (''url_private'', JStr (''https://files.slack.com/'' @ n))])])),
     sf_get = (\<lambda>k url. if url = ''https://files.slack.com/A''
        then Inr \<lparr>fr_status = 302, fr_location = Some ''/b/A.png'', fr_content_length = None, fr_chunks = [],
               fr_broken = None\<rparr>
        else if url = ''https://files.slack.com/b/A.png''
        then Inr \<lparr>fr_status = 200, fr_location = None, fr_content_length = Some 4, fr_chunks = [3, 1],
               fr_broken = None\<rparr>
        else Inl ''ClientConnectorError''),
     sf_open_image = (\<lambda>path. Inr \<lparr>ip_format = ''PNG'', ip_width = 2, ip_height = 2, ip_is_animated = False,
        ip_n_frames = 1, ip_verify = None\<rparr>),
     sf_milliseconds = (\<lambda>n. 100)\<rparr>"

definition empty_root :: temp_root where
  "empty_root = \<lparr>tr_root = None, tr_children = []\<rparr>"

lemmas image_eval = url_eval is_allowed_slack_url_def slack_hosts_def slack_host_suffixes_def ends_with_def
  example_file_def example_files_def file_info_def allowed_image_mimetypes_def

lemma example_info:
  "file_info example_files default_config (example_file ''A'')
     = Inr (''https://files.slack.com/A'', ''image/png'', 4)"
  "file_info example_files default_config (example_file ''B'')
     = Inr (''https://files.slack.com/B'', ''image/png'', 4)"
  by (simp_all add: image_eval default_config_def str_lower_def lower_char_def split_on.simps)

lemma example_addresses:
  "is_allowed_slack_url ''https://files.slack.com/b/A.png'' = Inr True"
  "urljoin ''https://files.slack.com/A'' ''/b/A.png'' = Inr ''https://files.slack.com/b/A.png''"
  by (simp_all add: image_eval str_lower_def lower_char_def urljoin_def url_parts_of_def partition_at_def
      split_params_def joined_segments_def url_text_def)

lemma example_sizes: "max_image_bytes default_config = 8388608" "max_image_pixels default_config = 25000000"
  by (simp_all add: default_config_def)

lemma example_download:
  "download example_files default_config (example_file ''A'') path =
     ([''https://files.slack.com/A'', ''https://files.slack.com/b/A.png''],
      Inr \<lparr>di_path = path, di_mimetype = ''image/png'', di_bytes = 4\<rparr>)"
proof -
  have get: "sf_get example_files k ''https://files.slack.com/A'' = Inr \<lparr>fr_status = 302,
      fr_location = Some ''/b/A.png'', fr_content_length = None, fr_chunks = [], fr_broken = None\<rparr>"
    "sf_get example_files k ''https://files.slack.com/b/A.png'' = Inr \<lparr>fr_status = 200,
      fr_location = None, fr_content_length = Some 4, fr_chunks = [3, 1], fr_broken = None\<rparr>" for k
    by (simp_all add: example_files_def)
  show ?thesis
    by (simp add: download_def example_info fetch_file.simps get example_addresses redirect_statuses_def
        save_response_def example_sizes)
qed

lemma bot_token_stays_with_slack_witness:
  "\<exists>urls d. download example_files default_config (example_file ''A'') ''x'' = (urls, Inr d)
     \<and> length urls \<le> 4 \<and> (\<forall>u \<in> set urls. slack_address u) \<and> 0 < di_bytes d"
  using bot_token_stays_with_slack [OF example_download [of "''x''"]]
  by (auto simp: example_download)

lemma example_photo:
  "fetch_image example_files default_config dir n (example_file ''A'')
     = Inr (dir @ ''/image-'' @ show_nat n @ ''.png'')"
  using with_suffix_download [of "dir @ ''/image-'' @ show_nat n" "''.png''"]
  by (simp add: fetch_image_def example_download validate_image_def destination_def mime_formats_def)
    (simp add: example_files_def example_sizes)

lemma example_limits:
  "sf_milliseconds example_files n = 100" "slack_file_timeout_seconds default_config = 15"
  "slack_image_batch_timeout_seconds default_config = 30" "nat (max_images default_config) = 4"
  by (simp_all add: example_files_def default_config_def)

lemma example_batch:
  "\<exists>batch. fst (ingest_trigger_images example_files default_config ''/r'' ''run-1'' [example_file ''A''] 1 0 Inr
     empty_root) = Inr batch"
  by (simp add: ingest_trigger_images_def prepare_run_directory_def empty_root_def considered_def
      example_limits example_photo)

lemma image_batch_adds_up_witness:
  "\<exists>batch. fst (ingest_trigger_images example_files default_config ''/r'' ''run-1'' [example_file ''A''] 1 0 Inr
     empty_root) = Inr batch \<and> ing_downloaded (ib_ingestion batch) = int (length (ib_paths batch))"
proof -
  obtain batch where b: "fst (ingest_trigger_images example_files default_config ''/r'' ''run-1''
      [example_file ''A''] 1 0 Inr empty_root) = Inr batch"
    using example_batch by blast
  from image_batch_adds_up [OF b] b show ?thesis by blast
qed

lemma broken_connection_ends_ingestion_witness:
  "fst (ingest_trigger_images example_files default_config ''/r'' ''run-1''
     [example_file ''A'', example_file ''B''] 2 0 Inr empty_root) = Inl ''ClientConnectorError''"
proof (rule broken_connection_ends_ingestion [where before = "[example_file ''A'']" and t = 100])
  show "considered default_config [example_file ''A'', example_file ''B''] = [example_file ''A''] @ example_file ''B'' # []"
    by (simp add: considered_def example_limits)
  show "prepare_run_directory empty_root ''run-1'' =
      Inr \<lparr>tr_root = Some Directory, tr_children = [(''run-1'', Directory)]\<rparr>"
    by (simp add: prepare_run_directory_def empty_root_def)
  show "sf_get example_files 0 ''https://files.slack.com/B'' = Inl ''ClientConnectorError''"
    by (simp add: example_files_def)
qed (simp_all add: example_info example_limits example_photo is_timeout_def)

lemma images_leave_nothing_behind_witness:
  "\<exists>fs'. ingest_trigger_images example_files default_config ''/r'' ''run-1'' [example_file ''A''] 1 0
       (\<lambda>batch. Inl ''RuntimeError'') empty_root = (Inl ''RuntimeError'' :: exn_name + unit, fs')
     \<and> tr_children fs' = []"
proof -
  obtain fs' where r: "ingest_trigger_images example_files default_config ''/r'' ''run-1'' [example_file ''A''] 1 0
      (\<lambda>batch. Inl ''RuntimeError'') empty_root = (Inl ''RuntimeError'' :: exn_name + unit, fs')"
    by (simp add: ingest_trigger_images_def prepare_run_directory_def empty_root_def considered_def
        example_limits example_photo)
  from images_leave_nothing_behind [OF r] show ?thesis
    using r by (auto simp: empty_root_def split: if_splits)
qed

end
