(* ===== verification/Gate.thy ===== *)
theory Gate
  imports Rendering Values Complex_Main
begin

text \<open>
  The quality report over production runs (\<open>ops/pilot_gate.py\<close> with \<open>ops/metrics.py\<close>) and the grading
  of routing decisions (\<open>evals/routing.py\<close>). The report reads the workflow database, so its rows are
  those of \<open>Store\<close>; numbers that are floats in the code (latencies, means, the positive rate, the
  percentile) are rationals, times whole seconds. Parsing of arguments and printing are left out.
\<close>

section \<open>Metrics\<close>

definition nearest_rank :: "rat list \<Rightarrow> rat \<Rightarrow> rat option" where
  "nearest_rank xs percentile =
     (if xs = [] then None
      else Some (sort xs ! nat (max 0 (\<lceil>percentile * of_nat (length xs)\<rceil> - 1))))"

definition median_of :: "rat list \<Rightarrow> rat" where
  "median_of xs =
     (let s = sort xs; n = length xs
      in if odd n then s ! (n div 2) else (s ! (n div 2 - 1) + s ! (n div 2)) / 2)"

definition mean_of :: "int list \<Rightarrow> rat" where
  "mean_of xs = of_int (sum_list xs) / of_nat (length xs)"

definition round_to :: "nat \<Rightarrow> rat \<Rightarrow> rat" where
  \<comment> \<open>half to even\<close>
  "round_to places q =
     (let x = q * 10 ^ places; f = \<lfloor>x\<rfloor>; r = x - of_int f
      in of_int (if r < 1 / 2 \<or> (r = 1 / 2 \<and> even f) then f else f + 1) / 10 ^ places)"

definition latency_summary :: "rat list \<Rightarrow> rat option \<times> rat option" where
  "latency_summary xs =
     (if xs = [] then (None, None)
      else (Some (round_to 3 (median_of xs)),
            Some (round_to 3 (case nearest_rank xs (19 / 20) of None \<Rightarrow> 0 | Some r \<Rightarrow> r))))"

section \<open>The policy\<close>

record quality_policy =
  qp_expected_cases :: "int option"
  qp_min_image_cases :: int
  qp_min_positive_rate :: rat

definition build_policy :: "quality_policy \<Rightarrow> exn_name + quality_policy" where
  "build_policy p =
     (if (case qp_expected_cases p of None \<Rightarrow> False | Some n \<Rightarrow> n < 1) then Inl ''ValueError''
      else if qp_min_image_cases p < 0 \<or> \<not> (0 \<le> qp_min_positive_rate p \<and> qp_min_positive_rate p \<le> 1)
      then Inl ''ValueError''
      else Inr p)"

definition default_policy :: quality_policy where
  "default_policy = \<lparr>qp_expected_cases = Some 10, qp_min_image_cases = 4, qp_min_positive_rate = 9 / 10\<rparr>"

definition max_median_seconds :: rat where "max_median_seconds = 60"
definition max_p95_seconds :: rat where "max_p95_seconds = 120"
definition max_average_input_tokens :: rat where "max_average_input_tokens = 50000"
definition max_average_output_tokens :: rat where "max_average_output_tokens = 1000"
definition max_run_input_tokens :: int where "max_run_input_tokens = 100000"
definition max_run_output_tokens :: int where "max_run_output_tokens = 2000"

lemmas gate_limits = max_median_seconds_def max_p95_seconds_def max_average_input_tokens_def
  max_average_output_tokens_def max_run_input_tokens_def max_run_output_tokens_def

section \<open>One run\<close>

record pilot_row =
  pr_run :: run_row
  pr_trigger :: message_row
  pr_outputs :: "output_row list"
  pr_feedback :: "feedback_row list"
  pr_tools :: "tool_call_row list"

fun image_downloaded :: "run_step list \<Rightarrow> int" where
  "image_downloaded [] = 0"
| "image_downloaded (Ingestion_step ing # steps) = (if 0 \<le> ing_downloaded ing then ing_downloaded ing else 0)"
| "image_downloaded (_ # steps) = image_downloaded steps"

definition line_break :: "char \<Rightarrow> bool" where
  \<comment> \<open>what \<open>splitlines\<close> splits at, in this alphabet\<close>
  "line_break c \<longleftrightarrow> code c \<in> {10, 11, 12, 13, 28, 29, 30}"

fun lines_from :: "string \<Rightarrow> string \<Rightarrow> string list" where
  \<comment> \<open>\<open>splitlines\<close> with the line read so far\<close>
  "lines_from line [] = (if line = [] then [] else [line])"
| "lines_from line (c # cs) =
     (if c = CHR 0x0D \<and> (case cs of d # _ \<Rightarrow> d = CHR 0x0A | [] \<Rightarrow> False) then line # lines_from [] (tl cs)
      else if line_break c then line # lines_from [] cs
      else lines_from (line @ [c]) cs)"

definition nonblank_lines :: "string \<Rightarrow> nat" where
  "nonblank_lines body = length (filter (\<lambda>l. str_strip l \<noteq> []) (lines_from [] body))"

definition response_length_error :: "payment_identification \<Rightarrow> string \<Rightarrow> bool" where
  "response_length_error result body =
     (let lines = nonblank_lines body; words = length (str_split body)
      in case pi_outcome result of
           Out_matched \<Rightarrow> 6 < lines \<or> (if pi_alternatives result \<noteq> [] then 130 else 110) < words
         | Out_out_of_scope \<Rightarrow> 2 < lines \<or> 40 < words
         | _ \<Rightarrow> 4 < lines \<or> (if pi_alternatives result \<noteq> [] then 130 else 75) < words)"

fun source_tool :: "evidence_source \<Rightarrow> string" where
  "source_tool Src_payment_candidates = ''search_payment_candidates''"
| "source_tool Src_candidate_verification = ''verify_payment_candidate''"
| "source_tool Src_vambe = ''search_vambe_messages''"

fun first_true :: "('a \<Rightarrow> exn_name + bool) \<Rightarrow> 'a list \<Rightarrow> exn_name + bool" where
  \<comment> \<open>a loop that returns at the first hit, or \<open>any\<close>\<close>
  "first_true f [] = Inr False"
| "first_true f (x # xs) = bindE (f x) (\<lambda>b. if b then Inr True else first_true f xs)"

definition tool_succeeded :: "tool_call_row \<Rightarrow> bool" where
  "tool_succeeded t \<longleftrightarrow> ta_status (tc_record t) = ''succeeded''"

definition names_source :: "string \<Rightarrow> tool_call_row \<Rightarrow> exn_name + bool" where
  \<comment> \<open>does a verification that succeeded say it read this source?\<close>
  "names_source reference t =
     (if ta_tool_name (tc_record t) = ''verify_payment_candidate'' \<and> tool_succeeded t
      then (case ta_output (tc_record t) of
              Some (JObj kvs) \<Rightarrow>
                (case map_of kvs ''source_references'' of
                   None \<Rightarrow> Inr False
                 | Some (JArr refs) \<Rightarrow> Inr (JStr reference \<in> set refs)
                 | Some (JObj refs) \<Rightarrow> Inr (reference \<in> fst ` set refs)
                 | Some (JStr s) \<Rightarrow> Inr (contains reference s)
                 | Some _ \<Rightarrow> Inl ''TypeError'')
            | _ \<Rightarrow> Inr False)
      else Inr False)"

definition unsupported_by :: 
  "payment_identification \<Rightarrow> tool_call_row list \<Rightarrow> string \<Rightarrow> string \<Rightarrow> exn_name + bool" where
  \<comment> \<open>one evidence id of a customer with this order\<close>
  "unsupported_by result tools order_id evidence_id =
     (case evidence_of result evidence_id of
        None \<Rightarrow> Inr True
      | Some s \<Rightarrow>
          (if sig_order_id s \<noteq> Some order_id then Inr True
           else if source_tool (sig_source s) \<notin> (\<lambda>t. ta_tool_name (tc_record t)) ` set (filter tool_succeeded tools)
           then Inr True
           else case sig_source_reference s of
                  None \<Rightarrow> Inr False
                | Some reference \<Rightarrow>
                    (if reference = [] then Inr False
                     else bindE (first_true (names_source reference) tools) (\<lambda>b. Inr (\<not> b)))))"

definition unsupported :: "payment_identification \<Rightarrow> tool_call_row list \<Rightarrow> exn_name + bool" where
  "unsupported result tools =
     first_true (\<lambda>c. if cc_evidence_ids c = [] then Inr True
                     else first_true (unsupported_by result tools (cc_order_id c)) (cc_evidence_ids c))
       ((case pi_recommended_customer result of None \<Rightarrow> [] | Some c \<Rightarrow> [c]) @ pi_alternatives result)"

definition effective_feedback :: "feedback_row list \<Rightarrow> string \<times> string list" where
  "effective_feedback items =
     (let reactions = fb_reaction ` set (filter fb_is_active items);
          cheese = ''cheese_wedge'' \<in> reactions; plug = ''electric_plug'' \<in> reactions
      in if cheese \<and> plug then (''conflict'', [''feedback_conflict''])
         else if plug then (''negative'', [])
         else if cheese then (''positive'', [])
         else (''missing'', [''feedback_missing'']))"

definition load_result :: "structured_result option \<Rightarrow> payment_identification option" where
  \<comment> \<open>\<open>PaymentIdentification.model_validate\<close>, \<open>None\<close> when it raises\<close>
  "load_result stored =
     (case stored of
        Some (Identification_result p) \<Rightarrow>
          (if list_all signal_valid (pi_evidence p) \<and> build_identification p = Inr p then Some p else None)
      | _ \<Rightarrow> None)"

section \<open>Grading\<close>

record graded_case =
  gc_case :: string
  gc_feedback :: string
  gc_image_used :: bool
  gc_errors :: "string list"

definition flag :: "bool \<Rightarrow> string \<Rightarrow> string list" where
  "flag b name = (if b then [name] else [])"

definition investigations :: "pilot_row \<Rightarrow> output_row list" where
  "investigations row = filter (\<lambda>out. so_kind out = Kind_investigation) (pr_outputs row)"

definition sent_outputs :: "pilot_row \<Rightarrow> output_row list" where
  "sent_outputs row = filter (\<lambda>out. so_status out = Out_sent) (investigations row)"

definition stored_message :: "pilot_row \<Rightarrow> string" where
  "stored_message row = (case rn_output_message (pr_run row) of None \<Rightarrow> '''' | Some m \<Rightarrow> m)"

definition delivery_errors :: "pilot_row \<Rightarrow> string list" where
  "delivery_errors row =
     flag (length (investigations row) \<noteq> 1) ''investigation_output_count''
     @ (case sent_outputs row of
          [out] \<Rightarrow> (if so_sent_at out = None then [''investigation_not_delivered'']
                   else flag (so_body out \<noteq> stored_message row) ''delivered_output_mismatch'')
        | _ \<Rightarrow> [''investigation_not_delivered''])
     @ flag (rn_status (pr_run row) \<noteq> Run_succeeded) ''run_not_succeeded''
     @ flag (rn_completion_reason (pr_run row) = Some Timeout) ''run_timeout''"

definition result_errors :: "pilot_row \<Rightarrow> exn_name + string list" where
  "result_errors row =
     (case load_result (rn_structured_result (pr_run row)) of
        None \<Rightarrow> Inr [''invalid_structured_result'']
      | Some result \<Rightarrow>
          bindE (unsupported result (pr_tools row)) (\<lambda>b.
            Inr (flag b ''unsupported_evidence''
                 @ flag (response_length_error result
                     (case sent_outputs row of [out] \<Rightarrow> so_body out | _ \<Rightarrow> stored_message row))
                     ''response_too_verbose'')))"

definition negative_high :: "pilot_row \<Rightarrow> bool" where
  "negative_high row \<longleftrightarrow> fst (effective_feedback (pr_feedback row)) = ''negative'' \<and>
     (case load_result (rn_structured_result (pr_run row)) of
        None \<Rightarrow> False | Some result \<Rightarrow> pi_confidence result = Conf_high)"

definition run_usage :: "pilot_row \<Rightarrow> (int \<times> int) option" where
  "run_usage row =
     (case (rn_input_tokens (pr_run row), rn_output_tokens (pr_run row)) of
        (Some i, Some j) \<Rightarrow> Some (i, j) | _ \<Rightarrow> None)"

definition usage_errors :: "pilot_row \<Rightarrow> string list" where
  "usage_errors row =
     (case run_usage row of
        None \<Rightarrow> [''usage_missing'']
      | Some (i, j) \<Rightarrow> flag (max_run_input_tokens < i) ''input_token_max''
                     @ flag (max_run_output_tokens < j) ''output_token_max'')"

definition used_image :: "pilot_row \<Rightarrow> bool" where
  "used_image row \<longleftrightarrow> 0 < image_downloaded (case rn_steps (pr_run row) of None \<Rightarrow> [] | Some steps \<Rightarrow> steps)"

definition run_latency :: "pilot_row \<Rightarrow> rat option" where
  "run_latency row =
     (case sent_outputs row of
        [] \<Rightarrow> None
      | out # _ \<Rightarrow> map_option (\<lambda>t. of_int (max 0 (t - ms_event_at (pr_trigger row)))) (so_sent_at out))"

definition grade_case :: "nat \<Rightarrow> pilot_row \<Rightarrow> exn_name + graded_case" where
  "grade_case index row =
     bindE (result_errors row) (\<lambda>errors.
       Inr \<lparr>gc_case = ''case_'' @ zero_pad 2 (show_nat index),
            gc_feedback = fst (effective_feedback (pr_feedback row)), gc_image_used = used_image row,
            gc_errors = sorted_texts (fromkeys (delivery_errors row @ errors
              @ snd (effective_feedback (pr_feedback row))
              @ flag (negative_high row) ''negative_high_confidence'' @ usage_errors row))\<rparr>)"

fun grade_cases :: "nat \<Rightarrow> pilot_row list \<Rightarrow> exn_name + graded_case list" where
  "grade_cases index [] = Inr []"
| "grade_cases index (row # rows) =
     bindE (grade_case index row) (\<lambda>c. bindE (grade_cases (Suc index) rows) (\<lambda>cs. Inr (c # cs)))"

record quality_report =
  gr_passed :: bool
  gr_case_count :: nat
  gr_positive_cases :: nat
  gr_image_cases :: nat
  gr_negative_high :: nat
  gr_median_seconds :: "rat option"
  gr_p95_seconds :: "rat option"
  gr_average_input :: "rat option"
  gr_average_output :: "rat option"
  gr_max_input :: "int option"
  gr_max_output :: "int option"
  gr_models :: "string list"
  gr_prompts :: "string list"
  gr_knowledge :: "string list"
  gr_deployment :: "string option"
  gr_errors :: "string list"
  gr_cases :: "graded_case list"

definition positive_row :: "pilot_row \<Rightarrow> bool" where
  "positive_row row \<longleftrightarrow> fst (effective_feedback (pr_feedback row)) = ''positive''"

definition latencies :: "pilot_row list \<Rightarrow> rat list" where
  "latencies rows = List.map_filter run_latency rows"

definition usages :: "pilot_row list \<Rightarrow> (int \<times> int) list" where
  "usages rows = List.map_filter run_usage rows"

definition expected_count :: "quality_policy \<Rightarrow> pilot_row list \<Rightarrow> int" where
  "expected_count policy rows =
     (case qp_expected_cases policy of Some n \<Rightarrow> n | None \<Rightarrow> int (length rows))"

definition aggregate_errors :: "quality_policy \<Rightarrow> pilot_row list \<Rightarrow> string list" where
  "aggregate_errors policy rows =
     (let expected = expected_count policy rows; ls = latencies rows; us = usages rows
      in flag (rows = [] \<or> int (length rows) \<noteq> expected) ''case_count''
       @ flag (int (length (filter used_image rows)) < qp_min_image_cases policy) ''image_case_count''
       @ flag (int (length (filter positive_row rows)) < \<lceil>qp_min_positive_rate policy * of_int expected\<rceil>)
           ''positive_case_count''
       @ flag (filter negative_high rows \<noteq> []) ''negative_high_confidence''
       @ (if int (length ls) \<noteq> expected then [''latency_missing'']
          else flag (ls \<noteq> [] \<and> max_median_seconds < median_of ls) ''median_latency'')
       @ flag (case nearest_rank ls (19 / 20) of None \<Rightarrow> True | Some p \<Rightarrow> max_p95_seconds < p) ''p95_latency''
       @ (if int (length us) \<noteq> expected \<or> us = [] then [''input_usage_missing'']
          else flag (max_average_input_tokens < mean_of (map fst us)) ''average_input_tokens'')
       @ (if int (length us) \<noteq> expected \<or> us = [] then [''output_usage_missing'']
          else flag (max_average_output_tokens < mean_of (map snd us)) ''average_output_tokens''))"

definition sorted_present :: "(run_row \<Rightarrow> string option) \<Rightarrow> pilot_row list \<Rightarrow> string list" where
  \<comment> \<open>the sorted set of the values that are not empty\<close>
  "sorted_present f rows =
     sorted_texts (fromkeys (filter (\<lambda>s. s \<noteq> []) (List.map_filter (\<lambda>row. f (pr_run row)) rows)))"

definition report_of :: "quality_policy \<Rightarrow> pilot_row list \<Rightarrow> graded_case list \<Rightarrow> quality_report" where
  "report_of policy rows cases =
     (let ls = latencies rows; us = usages rows; models = sorted_present rn_model rows;
          errors = aggregate_errors policy rows
      in \<lparr>gr_passed = (errors = [] \<and> list_all (\<lambda>c. gc_errors c = []) cases),
          gr_case_count = length rows, gr_positive_cases = length (filter positive_row rows),
          gr_image_cases = length (filter used_image rows),
          gr_negative_high = length (filter negative_high rows),
          gr_median_seconds = (if ls = [] then None else Some (round_to 3 (median_of ls))),
          gr_p95_seconds = map_option (round_to 3) (nearest_rank ls (19 / 20)),
          gr_average_input = (if us = [] then None else Some (round_to 2 (mean_of (map fst us)))),
          gr_average_output = (if us = [] then None else Some (round_to 2 (mean_of (map snd us)))),
          gr_max_input = (if us = [] then None else Some (Max (set (map fst us)))),
          gr_max_output = (if us = [] then None else Some (Max (set (map snd us)))),
          gr_models = models, gr_prompts = sorted_present rn_prompt_version rows,
          gr_knowledge = sorted_present rn_knowledge_version rows,
          gr_deployment = (case models of [] \<Rightarrow> None | [m] \<Rightarrow> Some m | _ \<Rightarrow> Some ''mixed''),
          gr_errors = sorted_texts (fromkeys errors), gr_cases = cases\<rparr>)"

definition payment_rows :: "pilot_row list \<Rightarrow> pilot_row list" where
  "payment_rows rows = filter (\<lambda>row. rn_request_kind (pr_run row) = Req_payment_identification) rows"

definition grade_rows :: "pilot_row list \<Rightarrow> quality_policy \<Rightarrow> exn_name + quality_report" where
  "grade_rows rows policy =
     bindE (grade_cases 1 (payment_rows rows)) (\<lambda>cases.
       Inr (report_of policy (payment_rows rows) cases))"

section \<open>The rows of a window\<close>

definition pairs_in :: "db \<Rightarrow> string \<Rightarrow> int \<Rightarrow> int \<Rightarrow> (run_row \<times> message_row) list" where
  \<comment> \<open>the join with its conditions, ordered by the time of the message, then of the run\<close>
  "pairs_in d channel since until =
     sort_key (\<lambda>p. ms_event_at (snd p)) (sort_key (\<lambda>p. rn_created_at (fst p))
       (filter (\<lambda>(run, m). ms_channel m = channel \<and> since \<le> ms_event_at m \<and> ms_event_at m \<le> until
                  \<and> rn_request_kind run = Req_payment_identification)
         (List.map_filter (\<lambda>run. case rn_trigger_message_id run of
              None \<Rightarrow> None | Some i \<Rightarrow> map_option (\<lambda>m. (run, m)) (get_message d i)) (db_runs d))))"

definition row_of :: "db \<Rightarrow> string \<Rightarrow> run_row \<times> message_row \<Rightarrow> pilot_row" where
  "row_of d channel pair =
     (case pair of (run, trigger) \<Rightarrow>
        (let outputs = filter (\<lambda>out. so_run_id out = Some (rn_id run)) (db_outputs d);
             stamps = filter (\<lambda>ts. ts \<noteq> []) (List.map_filter so_message_ts
                        (filter (\<lambda>out. so_kind out = Kind_investigation) outputs))
         in \<lparr>pr_run = run, pr_trigger = trigger, pr_outputs = outputs,
             pr_feedback = filter (\<lambda>f. fb_channel f = channel \<and> fb_message_ts f \<in> set stamps
                             \<and> fb_is_active f) (db_feedback d),
             pr_tools = filter (\<lambda>t. tc_run_id t = rn_id run) (db_tool_calls d)\<rparr>))"

definition load_rows :: "db \<Rightarrow> string \<Rightarrow> int \<Rightarrow> int \<Rightarrow> pilot_row list" where
  "load_rows d channel since until = map (row_of d channel) (pairs_in d channel since until)"

definition run_gate ::
  "db \<Rightarrow> string \<Rightarrow> int \<Rightarrow> int \<Rightarrow> quality_policy \<Rightarrow> exn_name + quality_report" where
  "run_gate d channel since until policy =
     (if until < since then Inl ''ValueError'' else grade_rows (load_rows d channel since until) policy)"

section \<open>Routing decisions\<close>

record routing_case =
  rt_id :: string
  rt_text :: string
  rt_expected :: request_kind
  rt_prior_thread :: "string list"
  rt_has_triggering_image :: bool
  rt_clarify :: bool

record route_grade =
  rg_case_count :: nat
  rg_passed :: bool
  rg_missing :: "string list"
  rg_mismatches :: "string list"
  rg_payment_to_general :: "string list"
  rg_clarification_mismatches :: "string list"

definition grade_routes ::
  "routing_case list \<Rightarrow> (string \<rightharpoonup> request_kind) \<Rightarrow> (string \<rightharpoonup> bool) option \<Rightarrow> route_grade" where
  "grade_routes cases actual clarifications =
     (let ids = (\<lambda>p. map rt_id (filter p cases));
          missing = ids (\<lambda>c. actual (rt_id c) = None);
          payment_to_general = ids (\<lambda>c. rt_expected c = Req_payment_identification
                                      \<and> actual (rt_id c) = Some Req_general);
          mismatches = ids (\<lambda>c. actual (rt_id c) \<noteq> Some (rt_expected c));
          clarification_mismatches = ids (\<lambda>c. case clarifications of None \<Rightarrow> False
                                            | Some f \<Rightarrow> f (rt_id c) \<noteq> Some (rt_clarify c))
      in \<lparr>rg_case_count = length cases,
          rg_passed = (missing = [] \<and> mismatches = [] \<and> payment_to_general = [] \<and> clarification_mismatches = []),
          rg_missing = missing, rg_mismatches = mismatches, rg_payment_to_general = payment_to_general,
          rg_clarification_mismatches = clarification_mismatches\<rparr>)"

text \<open>A routing grade passes exactly when every case got its expected route and, when clarifications
  are graded, its expected clarification; a payment request sent to the general specialist is then
  impossible.\<close>

theorem routes_pass_iff_expected:
  "rg_passed (grade_routes cases actual clarifications) \<longleftrightarrow>
     (\<forall>c \<in> set cases. actual (rt_id c) = Some (rt_expected c)
        \<and> (case clarifications of None \<Rightarrow> True | Some f \<Rightarrow> f (rt_id c) = Some (rt_clarify c)))"
  by (auto simp: grade_routes_def Let_def filter_empty_conv split: option.splits)

section \<open>What a passing report means\<close>

definition customer_backed :: "payment_identification \<Rightarrow> tool_call_row list \<Rightarrow> customer_candidate \<Rightarrow> bool" where
  \<comment> \<open>a customer with evidence, each piece of it about the same order, from a tool that succeeded,
    and read by a verification where it names a source\<close>
  "customer_backed result tools c \<longleftrightarrow> cc_evidence_ids c \<noteq> [] \<and>
     (\<forall>k \<in> set (cc_evidence_ids c). \<exists>s. evidence_of result k = Some s \<and> sig_order_id s = Some (cc_order_id c) \<and>
        (\<exists>t \<in> set tools. tool_succeeded t \<and> ta_tool_name (tc_record t) = source_tool (sig_source s)) \<and>
        (\<forall>reference. sig_source_reference s = Some reference \<and> reference \<noteq> [] \<longrightarrow>
           first_true (names_source reference) tools = Inr True))"

lemma first_true_False: "first_true f xs = Inr False \<longleftrightarrow> (\<forall>x \<in> set xs. f x = Inr False)"
  by (induction xs) (auto split: if_splits)

lemma unsupported_by_False:
  "unsupported_by result tools order k = Inr False \<longleftrightarrow>
     (\<exists>s. evidence_of result k = Some s \<and> sig_order_id s = Some order \<and>
        (\<exists>t \<in> set tools. tool_succeeded t \<and> ta_tool_name (tc_record t) = source_tool (sig_source s)) \<and>
        (\<forall>reference. sig_source_reference s = Some reference \<and> reference \<noteq> [] \<longrightarrow>
           first_true (names_source reference) tools = Inr True))"
  by (auto simp: unsupported_by_def image_iff split: option.splits if_splits)

lemma unsupported_False:
  "unsupported result tools = Inr False \<longleftrightarrow>
     (\<forall>c. pi_recommended_customer result = Some c \<or> c \<in> set (pi_alternatives result) \<longrightarrow>
        customer_backed result tools c)"
  by (auto simp: unsupported_def first_true_False customer_backed_def unsupported_by_False
      split: option.splits if_splits)

definition sound_run :: "pilot_row \<Rightarrow> bool" where
  \<comment> \<open>a run without an error of its own\<close>
  "sound_run row \<longleftrightarrow>
     (\<exists>out. investigations row = [out] \<and> so_status out = Out_sent \<and> so_sent_at out \<noteq> None
        \<and> so_body out = stored_message row)
     \<and> rn_status (pr_run row) = Run_succeeded \<and> rn_completion_reason (pr_run row) \<noteq> Some Timeout
     \<and> (\<exists>result. load_result (rn_structured_result (pr_run row)) = Some result
          \<and> (\<forall>c. pi_recommended_customer result = Some c \<or> c \<in> set (pi_alternatives result) \<longrightarrow>
               customer_backed result (pr_tools row) c)
          \<and> \<not> response_length_error result (stored_message row))
     \<and> fst (effective_feedback (pr_feedback row)) \<in> {''positive'', ''negative''} \<and> \<not> negative_high row
     \<and> (\<exists>i j. run_usage row = Some (i, j) \<and> i \<le> 100000 \<and> j \<le> 2000)"

lemma flag_Nil [simp]: "flag b name = [] \<longleftrightarrow> \<not> b"
  by (simp add: flag_def)

lemma sorted_texts_Nil [simp]: "sorted_texts xs = [] \<longleftrightarrow> xs = []"
  by (metis set_empty set_sorted_texts)

lemma delivery_errors_Nil:
  "delivery_errors row = [] \<longleftrightarrow>
     (\<exists>out. investigations row = [out] \<and> so_status out = Out_sent \<and> so_sent_at out \<noteq> None
        \<and> so_body out = stored_message row)
     \<and> rn_status (pr_run row) = Run_succeeded \<and> rn_completion_reason (pr_run row) \<noteq> Some Timeout"
proof (cases "\<exists>out. investigations row = [out]")
  case True
  then show ?thesis by (auto simp: delivery_errors_def sent_outputs_def split: if_splits)
next
  case False
  then have "length (investigations row) \<noteq> 1" by (simp add: length_Suc_conv)
  with False show ?thesis by (simp add: delivery_errors_def)
qed

lemma sent_of_one: "investigations row = [out] \<Longrightarrow> so_status out = Out_sent \<Longrightarrow> sent_outputs row = [out]"
  by (simp add: sent_outputs_def)

lemma grade_case_clean:
  assumes "grade_case index row = Inr c"
  shows "gc_errors c = [] \<longleftrightarrow> sound_run row"
proof -
  obtain errors where e: "result_errors row = Inr errors"
    and c: "gc_errors c = sorted_texts (fromkeys (delivery_errors row @ errors
              @ snd (effective_feedback (pr_feedback row))
              @ flag (negative_high row) ''negative_high_confidence'' @ usage_errors row))"
    using assms by (auto simp: grade_case_def)
  have feedback: "snd (effective_feedback fs) = [] \<longleftrightarrow> fst (effective_feedback fs) \<in> {''positive'', ''negative''}" for fs
    by (simp add: effective_feedback_def Let_def)
  have usage: "usage_errors row = [] \<longleftrightarrow> (\<exists>i j. run_usage row = Some (i, j) \<and> i \<le> 100000 \<and> j \<le> 2000)"
    by (auto simp: usage_errors_def gate_limits split: option.splits)
  have result: "errors = [] \<longleftrightarrow> (\<exists>result. load_result (rn_structured_result (pr_run row)) = Some result
          \<and> unsupported result (pr_tools row) = Inr False
          \<and> \<not> response_length_error result (stored_message row))" if "delivery_errors row = []"
  proof -
    from that obtain out where out: "sent_outputs row = [out]" "so_body out = stored_message row"
      unfolding delivery_errors_Nil using sent_of_one by blast
    show ?thesis
      using e by (auto simp: result_errors_def out split: option.splits)
  qed
  have sound: "sound_run row \<longleftrightarrow> delivery_errors row = []
     \<and> (\<exists>result. load_result (rn_structured_result (pr_run row)) = Some result
          \<and> unsupported result (pr_tools row) = Inr False
          \<and> \<not> response_length_error result (stored_message row))
     \<and> fst (effective_feedback (pr_feedback row)) \<in> {''positive'', ''negative''} \<and> \<not> negative_high row
     \<and> usage_errors row = []"
    unfolding sound_run_def delivery_errors_Nil unsupported_False usage by blast
  show ?thesis
    using result unfolding sound by (simp add: c feedback) blast
qed

lemma grade_cases_clean:
  "grade_cases index rows = Inr cases \<Longrightarrow> list_all (\<lambda>c. gc_errors c = []) cases \<longleftrightarrow> list_all sound_run rows"
  by (induction rows arbitrary: index cases) (auto simp: grade_case_clean)

lemma sound_run_measured: "sound_run row \<Longrightarrow> run_latency row \<noteq> None \<and> run_usage row \<noteq> None \<and> \<not> negative_high row"
  by (auto simp: sound_run_def run_latency_def sent_outputs_def)

lemma map_filter_all: "(\<forall>x \<in> set xs. f x \<noteq> None) \<Longrightarrow> length (List.map_filter f xs) = length xs"
  by (induction xs) auto

text \<open>C24: What a passing quality report means. It passes exactly when there are as many payment runs in the
  window as expected, each one sound, enough of them used images and pleased the user, and the median
  and the 95th percentile of the latencies and the average tokens are within their limits. A sound
  run succeeded without a timeout, was delivered once and as stored, has a valid and short enough
  result whose every customer is backed by evidence about the same order from tools that succeeded,
  has unambiguous feedback that is not negative at high confidence, and used no more tokens than
  allowed.\<close>

theorem passing_report_is_sound:
  assumes "grade_rows rows policy = Inr report"
  shows "gr_passed report \<longleftrightarrow> (let ps = payment_rows rows in
    ps \<noteq> [] \<and> int (length ps) = expected_count policy ps \<and> (\<forall>row \<in> set ps. sound_run row)
    \<and> qp_min_image_cases policy \<le> int (length (filter used_image ps))
    \<and> \<lceil>qp_min_positive_rate policy * of_nat (length ps)\<rceil> \<le> int (length (filter positive_row ps))
    \<and> median_of (latencies ps) \<le> 60 \<and> (\<exists>p. nearest_rank (latencies ps) (19 / 20) = Some p \<and> p \<le> 120)
    \<and> mean_of (map fst (usages ps)) \<le> 50000 \<and> mean_of (map snd (usages ps)) \<le> 1000)"
proof -
  define ps where "ps = payment_rows rows"
  obtain cases where g: "grade_cases 1 ps = Inr cases" and report: "report = report_of policy ps cases"
    using assms by (auto simp: grade_rows_def ps_def)
  have passed: "gr_passed report \<longleftrightarrow> aggregate_errors policy ps = [] \<and> (\<forall>row \<in> set ps. sound_run row)"
    using grade_cases_clean [OF g] by (simp add: report report_of_def Let_def list_all_iff)
  have "aggregate_errors policy ps = [] \<longleftrightarrow>
      ps \<noteq> [] \<and> int (length ps) = expected_count policy ps
      \<and> qp_min_image_cases policy \<le> int (length (filter used_image ps))
      \<and> \<lceil>qp_min_positive_rate policy * of_nat (length ps)\<rceil> \<le> int (length (filter positive_row ps))
      \<and> median_of (latencies ps) \<le> 60 \<and> (\<exists>p. nearest_rank (latencies ps) (19 / 20) = Some p \<and> p \<le> 120)
      \<and> mean_of (map fst (usages ps)) \<le> 50000 \<and> mean_of (map snd (usages ps)) \<le> 1000"
    if sound: "\<forall>row \<in> set ps. sound_run row"
  proof -
    have l: "length (latencies ps) = length ps" "length (usages ps) = length ps"
      unfolding latencies_def usages_def
      by (intro map_filter_all ballI; use sound sound_run_measured in blast)+
    have calm: "filter negative_high ps = []"
      using sound sound_run_measured by (auto simp: filter_empty_conv)
    show ?thesis
    proof (cases "ps \<noteq> [] \<and> int (length ps) = expected_count policy ps")
      case True
      then have "latencies ps \<noteq> []" "usages ps \<noteq> []" using l by auto
      with True l have "aggregate_errors policy ps = [] \<longleftrightarrow>
        \<not> int (length (filter used_image ps)) < qp_min_image_cases policy
        \<and> \<not> int (length (filter positive_row ps)) < \<lceil>qp_min_positive_rate policy * of_int (expected_count policy ps)\<rceil>
        \<and> \<not> 60 < median_of (latencies ps)
        \<and> \<not> (case nearest_rank (latencies ps) (19 / 20) of None \<Rightarrow> True | Some p \<Rightarrow> 120 < p)
        \<and> \<not> 50000 < mean_of (map fst (usages ps)) \<and> \<not> 1000 < mean_of (map snd (usages ps))"
        by (simp add: aggregate_errors_def Let_def gate_limits calm split: option.splits)
      moreover have "rat_of_int (expected_count policy ps) = of_nat (length ps)"
        using True by (metis of_int_of_nat_eq)
      ultimately show ?thesis using True by (simp add: not_less split: option.splits)
    next
      case False
      then have "aggregate_errors policy ps \<noteq> []" by (simp add: aggregate_errors_def Let_def)
      with False show ?thesis by blast
    qed
  qed
  then show ?thesis unfolding passed ps_def [symmetric] Let_def by blast
qed

section \<open>Rendered answers and the limits of the gate\<close>

definition unbroken :: "string \<Rightarrow> bool" where
  "unbroken s \<longleftrightarrow> (\<forall>c \<in> set s. \<not> line_break c)"

definition breaks :: "string \<Rightarrow> nat" where
  "breaks s = length (filter line_break s)"

lemma nonblank_lines_breaks: "nonblank_lines s \<le> Suc (breaks s)"
proof -
  have "length (filter (\<lambda>l. str_strip l \<noteq> []) (lines_from line s)) \<le> Suc (breaks s)" for line
  proof (induction line s rule: lines_from.induct)
    case (2 line c cs)
    consider (pair) ds where "c = CHR 0x0D" "cs = CHR 0x0A # ds"
      | (one) "\<not> (c = CHR 0x0D \<and> (case cs of d # _ \<Rightarrow> d = CHR 0x0A | [] \<Rightarrow> False))" "line_break c"
      | (none) "\<not> (c = CHR 0x0D \<and> (case cs of d # _ \<Rightarrow> d = CHR 0x0A | [] \<Rightarrow> False))" "\<not> line_break c"
      by (cases cs) auto
    then show ?case
    proof cases
      case pair
      then have "length (filter (\<lambda>l. str_strip l \<noteq> []) (lines_from [] ds)) \<le> Suc (breaks ds)"
        using 2(1) by simp
      moreover have "breaks (c # cs) = Suc (Suc (breaks ds))"
        using pair by (simp add: breaks_def line_break_def code_def)
      ultimately show ?thesis using pair by simp
    next
      case one
      then have "length (filter (\<lambda>l. str_strip l \<noteq> []) (lines_from [] cs)) \<le> Suc (breaks cs)"
        using 2(2) by blast
      moreover have "breaks (c # cs) = Suc (breaks cs)" using one by (simp add: breaks_def)
      moreover have "lines_from line (c # cs) = line # lines_from [] cs"
        by (simp only: lines_from.simps if_not_P [OF one(1)] if_P [OF one(2)])
      ultimately show ?thesis by simp
    next
      case none
      then have "length (filter (\<lambda>l. str_strip l \<noteq> []) (lines_from (line @ [c]) cs)) \<le> Suc (breaks cs)"
        using 2(3) by blast
      moreover have "breaks (c # cs) = breaks cs" using none by (simp add: breaks_def)
      moreover have "lines_from line (c # cs) = lines_from (line @ [c]) cs"
        by (simp only: lines_from.simps if_not_P [OF none(1)] if_not_P [OF none(2)])
      ultimately show ?thesis by simp
    qed
  qed (auto simp: breaks_def)
  then show ?thesis by (simp add: nonblank_lines_def)
qed

lemma unbroken_Nil [simp]: "unbroken []"
  by (simp add: unbroken_def)

lemma unbroken_Cons [simp]: "unbroken (c # s) \<longleftrightarrow> \<not> line_break c \<and> unbroken s"
  by (auto simp: unbroken_def)

lemma unbroken_append [simp]: "unbroken (a @ b) \<longleftrightarrow> unbroken a \<and> unbroken b"
  by (auto simp: unbroken_def)

lemma unbroken_subset: "set a \<subseteq> set b \<Longrightarrow> unbroken b \<Longrightarrow> unbroken a"
  by (auto simp: unbroken_def)

lemma unbroken_solid: "\<forall>c \<in> set s. \<not> is_space c \<Longrightarrow> unbroken s"
  by (fastforce simp: unbroken_def line_break_def is_space_def)

lemma unbroken_join: "unbroken sep \<Longrightarrow> \<forall>x \<in> set xs. unbroken x \<Longrightarrow> unbroken (str_join sep xs)"
  by (induction sep xs rule: str_join.induct) auto

lemmas unbroken_text = line_break_def code_def

lemma unbroken_words: "unbroken (str_join '' '' (take n (str_split s)))"
proof (rule unbroken_join)
  show "unbroken '' ''" by (simp add: unbroken_text)
  show "\<forall>w \<in> set (take n (str_split s)). unbroken w" using split_nonblank unbroken_solid by metis
qed

lemma unbroken_strip: "unbroken s \<Longrightarrow> unbroken (str_strip s)"
  by (rule unbroken_subset [of _ s])
    (auto simp: str_strip_def str_lstrip_def str_rstrip_def dest!: set_dropWhileD)

lemma unbroken_finish_ellipsis:
  assumes "unbroken s"
  shows "unbroken (finish_ellipsis s)"
proof -
  have stop: "unbroken ''.''" by (simp add: unbroken_text)
  have "unbroken (take n (str_strip s))" "unbroken (butlast (str_strip s))" for n
    by (rule unbroken_subset [OF _ unbroken_strip [OF assms]]; auto dest: in_set_takeD in_set_butlastD)+
  then show ?thesis
    using unbroken_strip [OF assms] stop by (simp add: finish_ellipsis_def Let_def)
qed

lemma split_units_chars: "p \<in> set (split_units nl cur s) \<Longrightarrow> set p \<subseteq> set cur \<union> set s"
proof (induction nl cur s rule: split_units.induct)
  case (2 nl cur c cs)
  have drop: "set (dropWhile P cs) \<subseteq> set cs" for P :: "char \<Rightarrow> bool" by (meson set_dropWhileD subsetI)
  from 2 drop show ?case by (fastforce split: if_splits)
qed simp

lemma clip_select_chars: "set (clip_select limit selected ss) \<subseteq> set selected \<union> set ss"
  by (induction limit selected ss rule: clip_select.induct) auto

lemma unbroken_clip_words:
  assumes "unbroken s"
  shows "unbroken (clip_words s limit)"
proof -
  define v where "v = str_strip (finish_ellipsis s)"
  have v: "unbroken v" unfolding v_def by (intro unbroken_strip unbroken_finish_ellipsis assms)
  have "unbroken p" if "p \<in> set (clip_select limit [] (split_sentences v))" for p
    using that clip_select_chars [of limit "[]" "split_sentences v"] split_units_chars [of p False "[]" v]
    by (intro unbroken_subset [OF _ v]) (auto simp: split_sentences_def)
  then have "unbroken (str_join '' '' (clip_select limit [] (split_sentences v)))"
    by (intro unbroken_join) (auto simp: unbroken_text)
  moreover have "unbroken ''Detalle pendiente.''" by (simp add: unbroken_text)
  ultimately show ?thesis using v by (simp add: clip_words_def v_def Let_def)
qed

lemma unbroken_reason: "unbroken (compact_reason result candidate)"
proof -
  have label: "evidence_label k = Some l \<Longrightarrow> unbroken l" for k l
    by (cases k) (auto simp: unbroken_text)
  define reasons where "reasons = fromkeys (List.map_filter
            (\<lambda>k. case evidence_of result k of
                   Some signal \<Rightarrow> (if supports signal then evidence_label (sig_kind signal) else None)
                 | None \<Rightarrow> None) (cc_evidence_ids candidate))"
  have "\<forall>l \<in> set (take 2 reasons). unbroken l"
    by (fastforce simp: reasons_def dest!: in_set_takeD in_map_filter
        split: option.splits if_splits intro: label)
  then have "unbroken (str_join '' + '' (take 2 reasons))"
    by (intro unbroken_join) (auto simp: unbroken_text)
  moreover have "unbroken ''evidencia por verificar''" by (simp add: unbroken_text)
  ultimately show ?thesis by (simp add: compact_reason_def reasons_def [symmetric] Let_def)
qed

lemma unbroken_link:
  "\<forall>x \<in> set (cc_crm_url c). \<not> is_space x \<Longrightarrow> unbroken (customer_link c n)"
  using unbroken_words [of n "cc_customer_name c"] unbroken_solid [of "cc_crm_url c"]
  by (simp add: customer_link_def unbroken_text)

lemma unbroken_alternatives:
  assumes "links_ok result"
  shows "unbroken (render_alternatives result)"
proof -
  have "unbroken dash" "unbroken ''; ''" by (simp_all add: unbroken_text dash_def)
  moreover have "unbroken (customer_link c 5)" if "c \<in> set (take 3 (pi_alternatives result))" for c
    using assms that by (intro unbroken_link) (auto simp: links_ok_def dest: in_set_takeD)
  ultimately show ?thesis
    unfolding render_alternatives_def by (intro unbroken_join) (auto simp: unbroken_reason)
qed

definition single_line_texts :: "payment_identification \<Rightarrow> bool" where
  "single_line_texts result \<longleftrightarrow> unbroken (pi_investigation_summary result)
     \<and> (\<forall>s. pi_account_receivable_summary result = Some s \<longrightarrow> unbroken s)
     \<and> (\<forall>u \<in> set (pi_unable_to_verify result). unbroken u)"

lemma unbroken_show_int: "unbroken (show_int i)"
  using show_int_nonspace by (intro unbroken_solid) blast

lemma unbroken_pending:
  assumes "single_line_texts result"
  shows "unbroken (pending_text result ingestion)"
proof -
  have note_: "unbroken (identification_image_note ingestion)"
    by (auto simp: identification_image_note_def unbroken_show_int unbroken_text split: option.splits)
  have "unbroken item" if "item \<in> set (pending_details result ingestion)" for item
    using that assms note_
    by (auto simp: pending_details_def Let_def single_line_texts_def dest!: in_set_takeD split: if_splits)
  then show ?thesis
    unfolding pending_text_def
    by (intro unbroken_join) (auto simp: unbroken_clip_words unbroken_text)
qed

lemma nonblank_lines_join:
  assumes "\<forall>x \<in> set xs. unbroken x" "xs \<noteq> []"
  shows "nonblank_lines (str_join newline xs) \<le> length xs"
proof -
  have plain: "filter line_break x = []" if "unbroken x" for x
    using that by (simp add: unbroken_def filter_empty_conv)
  have "breaks (str_join newline xs) = length xs - 1"
    using assms
  proof (induction newline xs rule: str_join.induct)
    case (3 x y ys)
    then show ?case using plain [of x] by (simp add: breaks_def newline_def line_break_def code_def)
  qed (auto simp: plain breaks_def)
  with nonblank_lines_breaks [of "str_join newline xs"] assms(2) show ?thesis
    by (cases xs) auto
qed

lemma clarification_lines_unbroken:
  "length (clarification_lines result) \<le> 1 \<and> (\<forall>x \<in> set (clarification_lines result). unbroken x)"
proof -
  have "unbroken (clip_words (str_join '' '' (str_split q)) 20)" for q
    using unbroken_words [of "length (str_split q)" q] by (intro unbroken_clip_words) simp
  then show ?thesis by (auto simp: clarification_lines_def split: option.splits)
qed

lemma nonblank_lines_short:
  "\<forall>x \<in> set xs. unbroken x \<Longrightarrow> xs \<noteq> [] \<Longrightarrow> length xs \<le> n \<Longrightarrow> nonblank_lines (str_join newline xs) \<le> n"
  using nonblank_lines_join by (meson order_trans)

lemma unbroken_tail:
  "\<forall>x \<in> set xs. unbroken x \<Longrightarrow> unbroken (str_join middle_dot xs)"
  by (rule unbroken_join) (simp_all add: middle_dot_def unbroken_text)

lemma matched_lines:
  assumes "single_line_texts result" "links_ok result" "pi_recommended_customer result = Some c" "unbroken pending"
  shows "nonblank_lines (render_matched result c pending) \<le> 6"
proof -
  have texts: "unbroken (clip_words (pi_investigation_summary result) n)"
    "pi_account_receivable_summary result = Some s \<Longrightarrow> unbroken (clip_words s n)" for n s
    using assms(1) by (auto simp: single_line_texts_def intro: unbroken_clip_words)
  have label: "unbroken (confidence_label k)" for k by (cases k) (simp_all add: unbroken_text)
  have link: "unbroken (customer_link c n)" for n
    using assms(2,3) by (intro unbroken_link) (simp add: links_ok_def)
  show ?thesis
    unfolding render_matched_def Let_def
    by (rule nonblank_lines_short)
      (auto simp: texts label link assms(4) unbroken_alternatives [OF assms(2)] why_label_def dash_def middle_dot_def
        unbroken_text intro!: unbroken_tail split: option.splits)
qed

lemma not_found_lines:
  assumes "single_line_texts result" "unbroken pending"
  shows "nonblank_lines (render_not_found result pending) \<le> 4"
proof -
  have "unbroken (clip_words (pi_investigation_summary result) n)" for n
    using assms(1) by (auto simp: single_line_texts_def intro: unbroken_clip_words)
  then show ?thesis
    using clarification_lines_unbroken [of result]
    unfolding render_not_found_def
    by (intro nonblank_lines_short) (auto simp: assms(2) why_label_def unbroken_text)
qed

lemma ambiguous_lines:
  assumes "single_line_texts result" "links_ok result" "unbroken pending"
  shows "nonblank_lines (render_ambiguous result pending) \<le> 4"
proof -
  have "unbroken (clip_words (pi_investigation_summary result) n)" for n
    using assms(1) by (auto simp: single_line_texts_def intro: unbroken_clip_words)
  then show ?thesis
    using clarification_lines_unbroken [of result]
    unfolding render_ambiguous_def Let_def
    by (intro nonblank_lines_short)
      (auto simp: assms(3) unbroken_alternatives [OF assms(2)] why_label_def middle_dot_def unbroken_text intro!: unbroken_tail)
qed

text \<open>C33: The renderer keeps the promise the report grades. For a result that passes its own validators,
  whose CRM links have no white space and whose texts are single lines, the rendered answer never
  exceeds the report's limits of lines and words, whatever its alternatives, its open questions and
  the images that failed.\<close>

theorem rendered_answers_fit_gate:
  assumes "outcome_is_consistent result = Inr result" "links_ok result" "single_line_texts result"
  shows "\<not> response_length_error result (render_identification result ingestion)"
proof -
  define body where "body = render_identification result ingestion"
  have words: "length (str_split body) \<le>
    (if pi_outcome result = Out_out_of_scope then 40
     else if pi_alternatives result \<noteq> [] then 130
     else if pi_outcome result = Out_matched then 110 else 75)"
    using identification_words_bounded [OF assms(1,2), of ingestion] by (simp add: word_count_def body_def)
  have pending: "unbroken (pending_text result ingestion)" by (rule unbroken_pending [OF assms(3)])
  have scope: "nonblank_lines (''*Resultado:* '' @ clip_words (pi_investigation_summary result) 25) \<le> 1"
    using nonblank_lines_join [of "[''*Resultado:* '' @ clip_words (pi_investigation_summary result) 25]"] assms(3)
    by (simp add: single_line_texts_def unbroken_clip_words unbroken_text)
  show ?thesis
  proof (cases "pi_outcome result")
    case Out_matched
    with assms(1) obtain c where "pi_recommended_customer result = Some c"
      by (auto simp: outcome_is_consistent_def split: if_splits)
    then show ?thesis
      using Out_matched words matched_lines [OF assms(3,2) _ pending]
      by (auto simp: response_length_error_def Let_def body_def render_identification_def split: if_splits)
  next
    case Out_out_of_scope
    then show ?thesis
      using words scope
      by (auto simp: response_length_error_def Let_def body_def render_identification_def)
  next
    case Out_no_customer_found
    then show ?thesis
      using words not_found_lines [OF assms(3) pending]
      by (auto simp: response_length_error_def Let_def body_def render_identification_def split: if_splits)
  next
    case Out_ambiguous
    then show ?thesis
      using words ambiguous_lines [OF assms(3,2) pending]
      by (auto simp: response_length_error_def Let_def body_def render_identification_def split: if_splits)
  qed
qed

section \<open>Line breaks\<close>

definition listed_summary :: string where
  \<comment> \<open>seven short lines\<close>
  "listed_summary = str_join newline (replicate 7 ''x'')"

definition listed_match :: payment_identification where
  "listed_match = example_match\<lparr>pi_investigation_summary := listed_summary\<rparr>"

text \<open>Line breaks are not bounded. The renderer clips words but returns a short text as it is, line breaks
  included: there is a match that passes every validator, is rendered within the word limit of the
  product and still has more than the six lines it promises, so the report counts the run as an
  error.\<close>

theorem short_answers_can_have_many_lines:
  "\<exists>result. build_identification result = Inr result \<and> links_ok result \<and> pi_outcome result = Out_matched \<and>
     length (str_split (render_identification result None)) \<le> 110 \<and>
     6 < nonblank_lines (render_identification result None) \<and>
     response_length_error result (render_identification result None)"
proof -
  have valid: "build_identification listed_match = Inr listed_match" "outcome_is_consistent listed_match = Inr listed_match"
    by (simp_all add: build_identification_def outcome_is_consistent_def listed_match_def example_match_def)
  have links: "links_ok listed_match"
    by (simp add: links_ok_def listed_match_def example_match_def Rendering.example_candidate_def text_simps)
  have "word_count (render_identification listed_match None) \<le> 110"
    using identification_words_bounded [OF valid(2) links, of None] by (simp add: listed_match_def example_match_def)
  moreover have "6 < nonblank_lines (render_identification listed_match None)"
    by code_simp
  moreover have "pi_outcome listed_match = Out_matched" by (simp add: listed_match_def example_match_def)
  ultimately show ?thesis
    using valid(1) links by (auto simp: response_length_error_def Let_def word_count_def)
qed

section \<open>Examples\<close>

lemma rendered_answers_fit_gate_witness:
  "\<not> response_length_error example_match (render_identification example_match None)"
proof (rule rendered_answers_fit_gate)
  show "outcome_is_consistent example_match = Inr example_match"
    by (simp add: outcome_is_consistent_def example_match_def)
  show "links_ok example_match"
    by (simp add: links_ok_def example_match_def Rendering.example_candidate_def text_simps)
  show "single_line_texts example_match"
    by (simp add: single_line_texts_def example_match_def unbroken_text)
qed

definition graded_run :: run_row where
  "graded_run = \<lparr>rn_id = 1, rn_conversation_id = 0, rn_trigger_message_id = Some 2, rn_status = Run_succeeded,
     rn_request_kind = Req_payment_identification, rn_input_snapshot = None, rn_steps = None,
     rn_structured_result = Some (Identification_result
       (example_match\<lparr>pi_outcome := Out_ambiguous, pi_recommended_customer := None, pi_confidence := Conf_unknown\<rparr>)),
     rn_output_message = Some ''*Resultado:* x'', rn_prompt_version = Some ''v7'', rn_knowledge_version = None,
     rn_completion_reason = Some Completed, rn_model = Some ''m'', rn_input_tokens = Some 900,
     rn_output_tokens = Some 90, rn_turns = Some 2, rn_tool_calls = Some 0, rn_latency_ms = None,
     rn_started_at = Some 100, rn_finished_at = Some 120, rn_error_code = None, rn_error_detail = None,
     rn_created_at = 100\<rparr>"

definition graded_row :: pilot_row where
  "graded_row = \<lparr>pr_run = graded_run,
     pr_trigger = \<lparr>ms_id = 2, ms_conversation_id = 0, ms_channel = ''C'', ms_message_ts = ''1.0'',
        ms_thread_ts = ''1.0'', ms_sender = None, ms_direction = ''inbound'', ms_kind = ''user'', ms_text = None,
        ms_file_metadata = None, ms_raw = JNull, ms_event_at = 95, ms_created_at = 95\<rparr>,
     pr_outputs = [\<lparr>so_id = 3, so_conversation_id = 0, so_run_id = Some 1, so_channel = ''C'',
        so_thread_ts = ''1.0'', so_message_ts = Some ''2.0'', so_idempotency_key = ''k'',
        so_body = ''*Resultado:* x'', so_kind = Kind_investigation, so_status = Out_sent, so_attempts = 1,
        so_last_error = None, so_sent_at = Some 125, so_created_at = 120, so_updated_at = 125\<rparr>],
     pr_feedback = [\<lparr>fb_id = 4, fb_conversation_id = 0, fb_run_id = Some 1, fb_channel = ''C'',
        fb_message_ts = ''2.0'', fb_user = ''U'', fb_reaction = ''cheese_wedge'', fb_sentiment = ''positive'',
        fb_is_active = True, fb_updated_at = 130\<rparr>],
     pr_tools = []\<rparr>"

definition one_run_policy :: quality_policy where
  "one_run_policy = \<lparr>qp_expected_cases = Some 1, qp_min_image_cases = 0, qp_min_positive_rate = 1\<rparr>"

lemma graded_row_facts:
  "load_result (rn_structured_result (pr_run graded_row)) = Some (example_match\<lparr>pi_outcome := Out_ambiguous,
     pi_recommended_customer := None, pi_confidence := Conf_unknown\<rparr>)"
  "\<not> response_length_error (example_match\<lparr>pi_outcome := Out_ambiguous,
     pi_recommended_customer := None, pi_confidence := Conf_unknown\<rparr>) (stored_message graded_row)"
  "run_latency graded_row = Some 30" "run_usage graded_row = Some (900, 90)" "positive_row graded_row"
  "payment_rows [graded_row] = [graded_row]"
proof -
  show "load_result (rn_structured_result (pr_run graded_row)) = Some (example_match\<lparr>pi_outcome := Out_ambiguous,
     pi_recommended_customer := None, pi_confidence := Conf_unknown\<rparr>)"
    by (simp add: load_result_def graded_row_def graded_run_def build_identification_def
        outcome_is_consistent_def example_match_def)
  have "nonblank_lines ''*Resultado:* x'' \<le> 1"
    using nonblank_lines_breaks [of "''*Resultado:* x''"] by (simp add: breaks_def unbroken_text)
  moreover have "word_count ''*Resultado:* x'' = 2" by (simp add: count_literal)
  ultimately show "\<not> response_length_error (example_match\<lparr>pi_outcome := Out_ambiguous,
     pi_recommended_customer := None, pi_confidence := Conf_unknown\<rparr>) (stored_message graded_row)"
    by (simp add: response_length_error_def stored_message_def graded_row_def graded_run_def
        example_match_def word_count_def)
qed (simp_all add: graded_row_def graded_run_def run_latency_def sent_outputs_def investigations_def
    run_usage_def positive_row_def effective_feedback_def payment_rows_def)

lemma graded_row_sound: "sound_run graded_row"
proof -
  have "pi_recommended_customer (example_match\<lparr>pi_outcome := Out_ambiguous,
     pi_recommended_customer := None, pi_confidence := Conf_unknown\<rparr>) = None"
    "pi_alternatives (example_match\<lparr>pi_outcome := Out_ambiguous,
     pi_recommended_customer := None, pi_confidence := Conf_unknown\<rparr>) = []"
    by (simp_all add: example_match_def)
  moreover have "fst (effective_feedback (pr_feedback graded_row)) = ''positive''"
    using graded_row_facts(5) by (simp add: positive_row_def)
  moreover have "\<exists>out. investigations graded_row = [out] \<and> so_status out = Out_sent \<and> so_sent_at out \<noteq> None
        \<and> so_body out = stored_message graded_row"
    by (simp add: investigations_def graded_row_def graded_run_def stored_message_def)
  moreover have "rn_status (pr_run graded_row) = Run_succeeded \<and> rn_completion_reason (pr_run graded_row) \<noteq> Some Timeout"
    by (simp add: graded_row_def graded_run_def)
  ultimately show ?thesis
    unfolding sound_run_def using graded_row_facts(1,2,4) by (simp add: negative_high_def)
qed

lemma passing_report_is_sound_witness:
  "\<exists>report. grade_rows [graded_row] one_run_policy = Inr report \<and> gr_passed report"
proof -
  have "\<exists>errors. result_errors graded_row = Inr errors"
    by (simp add: result_errors_def graded_row_facts unsupported_def example_match_def)
  then obtain report where r: "grade_rows [graded_row] one_run_policy = Inr report"
    by (auto simp: grade_rows_def graded_row_facts grade_case_def)
  have "median_of (latencies [graded_row]) = 30" "nearest_rank (latencies [graded_row]) (19 / 20) = Some 30"
    "usages [graded_row] = [(900, 90)]"
    by (simp_all add: latencies_def usages_def graded_row_facts median_of_def nearest_rank_def map_filter_simps)
  then have "gr_passed report"
    using passing_report_is_sound [OF r] graded_row_sound
    by (simp add: graded_row_facts Let_def one_run_policy_def expected_count_def mean_of_def)
  with r show ?thesis by blast
qed

end
