(* ===== verification/Evals.thy ===== *)
theory Evals
  imports Gate RunnerLoop
begin

text \<open>
  The synthetic release gate (\<open>evals/run.py\<close> with the cases of \<open>evals/corpus.py\<close>): how one case is run
  through the model runner over fixtures and without the shared memory, how its answer is graded, and
  the verdict over the suite. The corpus file, the screenshot that is drawn, the printed lines and the
  JSON file are left out; the clock is a parameter.
\<close>

section \<open>Cases\<close>

record eval_case =
  ec_id :: string
  ec_prompt :: string
  ec_expected_request_kind :: request_kind
  ec_expected_outcome :: "identification_outcome option"
  ec_expected_confidence :: confidence
  ec_expected_order_id :: "string option"
  ec_allowed_alternative_order_ids :: "string list"
  ec_required_evidence_kinds :: "evidence_kind list"
  ec_forbidden_evidence_kinds :: "evidence_kind list"
  ec_required_tools :: "string list"
  ec_forbidden_tools :: "string list"
  ec_forbidden_claims :: "string list"
  ec_image_text :: "string list"
  ec_observations :: fixtures

fun outcome_text :: "identification_outcome \<Rightarrow> string" where
  "outcome_text Out_matched = ''matched''"
| "outcome_text Out_ambiguous = ''ambiguous''"
| "outcome_text Out_no_customer_found = ''no_customer_found''"
| "outcome_text Out_out_of_scope = ''out_of_scope''"

fun confidence_text :: "confidence \<Rightarrow> string" where
  "confidence_text Conf_high = ''high''"
| "confidence_text Conf_medium = ''medium''"
| "confidence_text Conf_low = ''low''"
| "confidence_text Conf_unknown = ''unknown''"

section \<open>Grading one answer\<close>

definition has_hard_failures :: "string list \<Rightarrow> bool" where
  "has_hard_failures errors \<longleftrightarrow>
     list_ex (\<lambda>e. list_ex (\<lambda>p. starts_with p e)
       [''route:'', ''format:'', ''unsupported:'', ''claims:'', ''tools:forbidden'']) errors"

definition tool_errors :: "eval_case \<Rightarrow> run_meta \<Rightarrow> string list" where
  "tool_errors c m =
     (let names = set (map ta_tool_name (rm_tool_calls m))
      in flag (\<not> set (ec_required_tools c) \<subseteq> names) ''tools:required_missing''
         @ flag (set (ec_forbidden_tools c) \<inter> names \<noteq> {}) ''tools:forbidden_present'')"

definition claim_errors :: "eval_case \<Rightarrow> string \<Rightarrow> string list" where
  "claim_errors c rendered =
     flag (list_ex (\<lambda>claim. contains (casefold claim) (casefold rendered)) (ec_forbidden_claims c))
       ''claims:forbidden''"

definition actual_order :: "payment_identification \<Rightarrow> string option" where
  "actual_order p = map_option cc_order_id (pi_recommended_customer p)"

definition shown_customers :: "payment_identification \<Rightarrow> customer_candidate list" where
  "shown_customers p =
     (case pi_recommended_customer p of None \<Rightarrow> [] | Some c \<Rightarrow> [c]) @ pi_alternatives p"

definition reference_errors :: "payment_identification \<Rightarrow> customer_candidate \<Rightarrow> string list" where
  "reference_errors p c =
     (if cc_evidence_ids c = [] \<or> list_ex (\<lambda>k. evidence_of p k = None) (cc_evidence_ids c)
      then [''unsupported:evidence_reference'']
      else flag (list_ex (\<lambda>k. sig_order_id (the (evidence_of p k)) \<noteq> Some (cc_order_id c)) (cc_evidence_ids c))
             ''unsupported:cross_candidate_evidence'')"

definition length_errors :: "payment_identification \<Rightarrow> string \<Rightarrow> string list" where
  "length_errors p rendered =
     (let lines = nonblank_lines rendered; words = length (str_split rendered)
      in if pi_outcome p = Out_matched
         then flag (6 < lines \<or> (if pi_alternatives p \<noteq> [] then 130 else 110) < words) ''format:too_verbose''
         else if pi_outcome p = Out_out_of_scope
         then flag (2 < lines \<or> 40 < words) ''format:too_verbose''
         else flag (4 < lines \<or> (if pi_alternatives p \<noteq> [] then 130 else 75) < words) ''format:too_verbose'')"

fun grade_answer :: "eval_case \<Rightarrow> runner_result \<Rightarrow> string \<Rightarrow> string list" where
  "grade_answer c (General_result answer m) rendered =
     (if ec_expected_request_kind c = Req_general
      then tool_errors c m @ claim_errors c rendered
           @ flag (180 < length (str_split rendered)) ''format:too_verbose''
      else [''route:general''])"
| "grade_answer c (Payment_result p m) rendered =
     (if ec_expected_request_kind c = Req_general then [''route:payment_identification'']
      else flag (ec_expected_outcome c \<noteq> Some (pi_outcome p)) (''outcome:'' @ outcome_text (pi_outcome p))
       @ flag (actual_order p \<noteq> ec_expected_order_id c)
           (''order:'' @ (case actual_order p of None \<Rightarrow> ''None'' | Some k \<Rightarrow> k))
       @ flag (pi_confidence p \<noteq> ec_expected_confidence c) (''confidence:'' @ confidence_text (pi_confidence p))
       @ flag (\<not> cc_order_id ` set (pi_alternatives p) \<subseteq> set (ec_allowed_alternative_order_ids c))
           ''alternatives:unexpected''
       @ flag (\<not> set (ec_required_evidence_kinds c) \<subseteq> sig_kind ` set (pi_evidence p)) ''evidence:required_missing''
       @ flag (set (ec_forbidden_evidence_kinds c) \<inter> sig_kind ` set (pi_evidence p) \<noteq> {})
           ''evidence:forbidden_present''
       @ tool_errors c m @ concat (map (reference_errors p) (shown_customers p))
       @ claim_errors c rendered @ length_errors p rendered)"

section \<open>Running a case\<close>

definition case_ingestion :: "eval_case \<Rightarrow> image_ingestion" where
  "case_ingestion c =
     (let n = (if ec_image_text c \<noteq> [] then 1 else 0)
      in \<lparr>ing_requested = n, ing_metadata_accepted = n, ing_downloaded = n, ing_rejected = 0,
          ing_failure_categories = []\<rparr>)"

definition case_input :: "int \<Rightarrow> eval_case \<Rightarrow> agent_run_input" where
  "case_input now c =
     \<lparr>ri_run_id = 0, ri_slack_channel_id = ''eval'', ri_slack_thread_ts = ec_id c, ri_requester = ''eval'',
      ri_transcript = [\<lparr>tm_direction = ''inbound'', tm_text = Some (ec_prompt c), tm_event_at = now,
         tm_sender = Some ''eval'', tm_slack_message_ts = Some (ec_id c), tm_attachments = []\<rparr>],
      ri_trigger_ts = Some (ec_id c),
      ri_image_paths = (if ec_image_text c \<noteq> [] then [''synthetic-bank-payment.png''] else []),
      ri_image_ingestion = case_ingestion c\<rparr>"

definition run_case :: "runner_env \<Rightarrow> int \<Rightarrow> eval_case \<Rightarrow> py_exception + (runner_result \<times> string)" where
  "run_case env now c =
     (case run_agent_model (env\<lparr>rn_port := fixture_data (ec_observations c), rn_shared_memory_enabled := False\<rparr>)
             (case_input now c) of
        Inl e \<Rightarrow> Inl e
      | Inr result \<Rightarrow> Inr (result, render_response (rn_config env) result (Some (case_ingestion c))))"

section \<open>The verdict\<close>

record eval_row =
  er_case :: eval_case
  er_result :: runner_result
  er_rendered :: string

definition row_errors :: "eval_row \<Rightarrow> string list" where
  "row_errors r = grade_answer (er_case r) (er_result r) (er_rendered r)"

definition wrong_high :: "eval_row \<Rightarrow> bool" where
  "wrong_high r \<longleftrightarrow>
     (case er_result r of
        General_result _ _ \<Rightarrow> False
      | Payment_result p _ \<Rightarrow> pi_confidence p = Conf_high \<and> actual_order p \<noteq> ec_expected_order_id (er_case r))"

record eval_report =
  el_cases :: nat
  el_required_correct :: nat
  el_correct :: nat
  el_wrong_high :: nat
  el_unsupported :: nat
  el_passed :: bool

definition suite_report :: "bool \<Rightarrow> eval_row list \<Rightarrow> eval_report" where
  \<comment> \<open>\<open>whole\<close>: no cases were named\<close>
  "suite_report whole rows =
     (let correct = length (filter (\<lambda>r. row_errors r = []) rows);
          wrong = length (filter wrong_high rows);
          unsupported = length (filter (\<lambda>r. list_ex (starts_with ''unsupported:'') (row_errors r)) rows);
          required = (if whole then 17 else length rows)
      in \<lparr>el_cases = length rows, el_required_correct = required, el_correct = correct, el_wrong_high = wrong,
          el_unsupported = unsupported,
          el_passed = (required \<le> correct \<and> wrong = 0 \<and> unsupported = 0
                       \<and> \<not> list_ex (\<lambda>r. has_hard_failures (row_errors r)) rows)\<rparr>)"

fun run_cases :: "runner_env \<Rightarrow> (nat \<Rightarrow> int) \<Rightarrow> nat \<Rightarrow> eval_case list \<Rightarrow> py_exception + eval_row list" where
  "run_cases env clock n [] = Inr []"
| "run_cases env clock n (c # cs) =
     (case run_case env (clock n) c of
        Inl e \<Rightarrow> Inl e
      | Inr (result, rendered) \<Rightarrow>
          (case run_cases env clock (Suc n) cs of
             Inl e \<Rightarrow> Inl e
           | Inr rows \<Rightarrow> Inr (\<lparr>er_case = c, er_result = result, er_rendered = rendered\<rparr> # rows)))"

definition run_live ::
  "runner_env \<Rightarrow> (nat \<Rightarrow> int) \<Rightarrow> eval_case list \<Rightarrow> string list option \<Rightarrow> py_exception + eval_report" where
  "run_live env clock corpus case_ids =
     (if \<not> azure_agent_ready (rn_config env) then Inl (Other_exception ''SystemExit'')
      else let cases = (case case_ids of None \<Rightarrow> corpus | Some ids \<Rightarrow> filter (\<lambda>c. ec_id c \<in> set ids) corpus)
           in if cases = [] then Inl (Other_exception ''SystemExit'')
              else case run_cases env clock 0 cases of
                     Inl e \<Rightarrow> Inl e
                   | Inr rows \<Rightarrow> Inr (suite_report (case_ids = None) rows))"

section \<open>What a passing suite means\<close>

lemma flag_set [simp]: "e \<in> set (flag b name) \<longleftrightarrow> b \<and> e = name"
  by (auto simp: flag_def)

definition harmless_answer :: "eval_row \<Rightarrow> bool" where
  \<comment> \<open>the declarative reading of an answer without a hard failure\<close>
  "harmless_answer r \<longleftrightarrow>
     is_general (er_result r) = (ec_expected_request_kind (er_case r) = Req_general)
     \<and> set (ec_forbidden_tools (er_case r)) \<inter> ta_tool_name ` set (rm_tool_calls (result_meta (er_result r))) = {}
     \<and> (\<forall>claim \<in> set (ec_forbidden_claims (er_case r)). \<not> contains (casefold claim) (casefold (er_rendered r)))
     \<and> (case er_result r of
          General_result _ _ \<Rightarrow> length (str_split (er_rendered r)) \<le> 180
        | Payment_result p _ \<Rightarrow> \<not> response_length_error p (er_rendered r)
            \<and> (pi_confidence p = Conf_high \<longrightarrow> actual_order p = ec_expected_order_id (er_case r))
            \<and> (\<forall>c \<in> set (shown_customers p). cc_evidence_ids c \<noteq> [] \<and>
                 (\<forall>k \<in> set (cc_evidence_ids c). \<exists>s. evidence_of p k = Some s \<and> sig_order_id s = Some (cc_order_id c))))"

lemma length_errors_gate: "length_errors p rendered = flag (response_length_error p rendered) ''format:too_verbose''"
  by (cases "pi_outcome p") (simp_all add: length_errors_def response_length_error_def Let_def)

lemma hard_names:
  "has_hard_failures errors \<longleftrightarrow>
     (\<exists>e \<in> set errors. starts_with ''route:'' e \<or> starts_with ''format:'' e \<or> starts_with ''unsupported:'' e
        \<or> starts_with ''claims:'' e \<or> starts_with ''tools:forbidden'' e)"
  by (simp add: has_hard_failures_def list_ex_iff)

lemma reference_errors_Nil:
  "reference_errors p c = [] \<longleftrightarrow> cc_evidence_ids c \<noteq> [] \<and>
     (\<forall>k \<in> set (cc_evidence_ids c). \<exists>s. evidence_of p k = Some s \<and> sig_order_id s = Some (cc_order_id c))"
  by (simp add: reference_errors_def list_ex_iff) (metis not_Some_eq option.sel)

lemma reference_errors_hard: "e \<in> set (reference_errors p c) \<Longrightarrow> starts_with ''unsupported:'' e"
  by (auto simp: reference_errors_def starts_with_def flag_def split: if_splits)

lemma hard_append [simp]: "has_hard_failures (xs @ ys) \<longleftrightarrow> has_hard_failures xs \<or> has_hard_failures ys"
  by (simp add: has_hard_failures_def)

lemma hard_Nil [simp]: "\<not> has_hard_failures []"
  by (simp add: has_hard_failures_def)

lemma hard_flag: "has_hard_failures (flag b name) \<longleftrightarrow> b \<and> has_hard_failures [name]"
  by (simp add: flag_def)

lemma hard_literals:
  "has_hard_failures [''route:general'']" "has_hard_failures [''route:payment_identification'']"
  "has_hard_failures [''format:too_verbose'']" "has_hard_failures [''claims:forbidden'']"
  "has_hard_failures [''tools:forbidden_present'']" "\<not> has_hard_failures [''tools:required_missing'']"
  "\<not> has_hard_failures [''alternatives:unexpected'']" "\<not> has_hard_failures [''evidence:required_missing'']"
  "\<not> has_hard_failures [''evidence:forbidden_present'']" "\<not> has_hard_failures [''outcome:'' @ t]"
  "\<not> has_hard_failures [''order:'' @ t]" "\<not> has_hard_failures [''confidence:'' @ t]"
  by (simp_all add: has_hard_failures_def starts_with_def)

lemmas hard_values = hard_literals(10-12) [simplified]

lemma hard_references: "has_hard_failures (concat (map (reference_errors p) cs)) \<longleftrightarrow>
    (\<exists>c \<in> set cs. reference_errors p c \<noteq> [])"
proof -
  have "has_hard_failures (reference_errors p c) \<longleftrightarrow> reference_errors p c \<noteq> []" for c
    using reference_errors_hard [of _ p c] by (cases "reference_errors p c") (auto simp: hard_names)
  then show ?thesis by (induction cs) auto
qed

lemma hard_tools:
  "has_hard_failures (tool_errors c m) \<longleftrightarrow> set (ec_forbidden_tools c) \<inter> ta_tool_name ` set (rm_tool_calls m) \<noteq> {}"
  by (simp add: tool_errors_def Let_def hard_flag hard_literals)

lemma hard_claims:
  "has_hard_failures (claim_errors c rendered) \<longleftrightarrow>
     (\<exists>claim \<in> set (ec_forbidden_claims c). contains (casefold claim) (casefold rendered))"
  by (simp add: claim_errors_def hard_flag hard_literals list_ex_iff)

lemma harmless_row:
  "\<not> has_hard_failures (row_errors r) \<and> \<not> wrong_high r \<longleftrightarrow> harmless_answer r"
proof (cases "er_result r")
  case (General_result answer m)
  then show ?thesis
    by (auto simp: row_errors_def wrong_high_def harmless_answer_def hard_tools hard_claims hard_flag hard_literals)
next
  case (Payment_result p m)
  then show ?thesis
    by (cases "ec_expected_request_kind (er_case r) = Req_general")
      (auto simp: row_errors_def wrong_high_def harmless_answer_def hard_tools hard_claims hard_flag hard_literals
        hard_values length_errors_gate hard_references reference_errors_Nil)
qed

lemma hard_unsupported: "list_ex (starts_with ''unsupported:'') errors \<Longrightarrow> has_hard_failures errors"
  by (auto simp: list_ex_iff hard_names)

lemma filter_length_zero: "length (filter P xs) = 0 \<longleftrightarrow> (\<forall>x \<in> set xs. \<not> P x)"
  by (simp add: filter_empty_conv)

text \<open>C32: What a passing release gate means. The suite passes exactly when enough cases are answered without
  any error, seventeen of the whole corpus or every one of the cases that were named, and no answer
  does harm: each case goes to the specialist it belongs to, calls no forbidden tool, makes no
  forbidden claim and stays within the length the production report grades by; no customer is shown
  without evidence about its own order; and no match of high confidence is the wrong order.\<close>

theorem passing_suite_is_harmless:
  "el_passed (suite_report whole rows) \<longleftrightarrow>
     (if whole then 17 else length rows) \<le> length (filter (\<lambda>r. row_errors r = []) rows)
     \<and> (\<forall>r \<in> set rows. harmless_answer r)"
proof -
  have "el_passed (suite_report whole rows) \<longleftrightarrow>
     (if whole then 17 else length rows) \<le> length (filter (\<lambda>r. row_errors r = []) rows)
     \<and> (\<forall>r \<in> set rows. \<not> wrong_high r) \<and> (\<forall>r \<in> set rows. \<not> has_hard_failures (row_errors r))"
    using hard_unsupported by (auto simp: suite_report_def Let_def filter_length_zero list_ex_iff filter_empty_conv)
  then show ?thesis using harmless_row by blast
qed

definition example_eval_row :: eval_row where
  "example_eval_row = \<lparr>er_case = \<lparr>ec_id = ''hours'', ec_prompt = ''hola'', ec_expected_request_kind = Req_general,
       ec_expected_outcome = None, ec_expected_confidence = Conf_unknown, ec_expected_order_id = None,
       ec_allowed_alternative_order_ids = [], ec_required_evidence_kinds = [], ec_forbidden_evidence_kinds = [],
       ec_required_tools = [], ec_forbidden_tools = [''run_readonly_sql''], ec_forbidden_claims = [],
       ec_image_text = [], ec_observations = []\<rparr>,
     er_result = General_result \<lparr>ga_answer = ''hola'', ga_route_correction = None\<rparr> default_meta,
     er_rendered = ''hola''\<rparr>"

lemma passing_suite_is_harmless_witness: "el_passed (suite_report False [example_eval_row])"
proof -
  have words: "length (str_split ''hola'') = 1"
    using word_count_def [of "''hola''"] by (simp add: count_literal)
  then have "row_errors example_eval_row = []" "harmless_answer example_eval_row"
    by (simp_all add: row_errors_def harmless_answer_def example_eval_row_def tool_errors_def claim_errors_def
        default_meta_def)
  then show ?thesis using passing_suite_is_harmless [of False "[example_eval_row]"] by simp
qed

end
