(* ===== verification/Status.thy ===== *)
theory Status
  imports Evals Heartbeats
begin

text \<open>
  The operational status report (\<open>ops/status.py\<close>): the rows of a window counted by status, kind and
  outcome, the queue table of procrastinate, failures, latencies, usage, images that were not
  processed and the heartbeats. The clock, the rows of the queue query and the creation times of the
  feedback (a column the rest of the development does not read) are parameters; the printed forms are
  left out.
\<close>

section \<open>Names of the stored values\<close>

fun run_status_text :: "run_status \<Rightarrow> string" where
  "run_status_text Run_queued = ''queued''"
| "run_status_text Run_running = ''running''"
| "run_status_text Run_succeeded = ''succeeded''"
| "run_status_text Run_failed = ''failed''"
| "run_status_text Run_cancelled = ''cancelled''"

fun delivery_text :: "delivery_status \<Rightarrow> string" where
  "delivery_text Out_pending = ''pending''"
| "delivery_text Out_sent = ''sent''"
| "delivery_text Out_failed = ''failed''"
| "delivery_text Out_cancelled = ''cancelled''"

fun disposition_text :: "event_disposition \<Rightarrow> string" where
  "disposition_text Ev_received = ''received''"
| "disposition_text Ev_queued = ''queued''"
| "disposition_text Ev_processed = ''processed''"
| "disposition_text Ev_ignored = ''ignored''"
| "disposition_text Ev_failed = ''failed''"

section \<open>Counting\<close>

type_synonym counts = "(string \<times> nat) list"

definition counter :: "string list \<Rightarrow> counts" where
  \<comment> \<open>\<open>dict(sorted(Counter(keys).items()))\<close>\<close>
  "counter keys = map (\<lambda>k. (k, length (filter (\<lambda>x. x = k) keys))) (sorted_texts (fromkeys keys))"

definition counted :: "counts \<Rightarrow> nat" where
  "counted cs = sum_list (map snd cs)"

definition outcomes_of :: "run_row list \<Rightarrow> string list" where
  "outcomes_of runs =
     List.map_filter (\<lambda>run. case rn_structured_result run of
         Some (Identification_result p) \<Rightarrow> Some (outcome_text (pi_outcome p))
       | _ \<Rightarrow> None) runs"

definition unprocessed_images :: "run_row \<Rightarrow> int" where
  "unprocessed_images run =
     (case rn_input_snapshot run of
        None \<Rightarrow> 0
      | Some snapshot \<Rightarrow> max 0 (ing_requested (sn_image_ingestion snapshot) - ing_downloaded (sn_image_ingestion snapshot)))"

definition queue_counts :: "(string \<times> string \<times> nat) list \<Rightarrow> (string \<times> nat \<times> nat) list" where
  \<comment> \<open>per queue the jobs queued and running; rows of other queues are ignored\<close>
  "queue_counts rows =
     (let put = (\<lambda>counts row. case row of (queue, status, n) \<Rightarrow>
            map (\<lambda>(q, queued, running).
              if q = queue then (if status = ''todo'' then (q, n, running) else (q, queued, n))
              else (q, queued, running)) counts)
      in foldl put [(''control'', 0, 0), (''agent'', 0, 0)] rows)"

definition failure_codes :: "run_row list \<Rightarrow> string list" where
  "failure_codes runs =
     map (\<lambda>run. case rn_error_code run of None \<Rightarrow> ''uncategorized''
                | Some e \<Rightarrow> if e = [] then ''uncategorized'' else e)
       (filter (\<lambda>run. rn_status run = Run_failed) runs)"

definition amount_or_zero :: "int option \<Rightarrow> int" where
  "amount_or_zero x = (case x of None \<Rightarrow> 0 | Some n \<Rightarrow> n)"

section \<open>The report\<close>

record status_report =
  st_window_hours :: int
  st_runs :: counts
  st_request_kinds :: counts
  st_outcomes :: counts
  st_events :: counts
  st_outputs :: counts
  st_feedback :: counts
  st_queues :: "(string \<times> nat \<times> nat) list"
  st_run_failures :: counts
  st_event_failures :: nat
  st_output_failures :: nat
  st_latency :: "rat option \<times> rat option"
  st_input_tokens :: int
  st_output_tokens :: int
  st_turns :: int
  st_tool_calls :: int
  st_images_unprocessed :: int
  st_components :: "(string \<times> string \<times> string \<times> int) list"

definition status_of ::
  "int \<Rightarrow> run_row list \<Rightarrow> output_row list \<Rightarrow> event_row list \<Rightarrow> feedback_row list
   \<Rightarrow> heartbeat_row list \<Rightarrow> (string \<times> string \<times> nat) list \<Rightarrow> status_report" where
  "status_of hours runs outputs events feedback heartbeats queue_rows =
     \<lparr>st_window_hours = hours,
      st_runs = counter (map (\<lambda>run. run_status_text (rn_status run)) runs),
      st_request_kinds = counter (map (\<lambda>run. request_kind_value (rn_request_kind run)) runs),
      st_outcomes = counter (outcomes_of runs),
      st_events = counter (map (\<lambda>e. disposition_text (ev_disposition e)) events),
      st_outputs = counter (map (\<lambda>out. delivery_text (so_status out)) outputs),
      st_feedback = counter (map fb_sentiment feedback),
      st_queues = queue_counts queue_rows,
      st_run_failures = counter (failure_codes runs),
      st_event_failures = length (filter (\<lambda>e. ev_disposition e = Ev_failed) events),
      st_output_failures = length (filter (\<lambda>out. so_status out = Out_failed) outputs),
      st_latency = latency_summary (map (\<lambda>ms. of_int ms / 1000) (List.map_filter rn_latency_ms runs)),
      st_input_tokens = sum_list (map (\<lambda>run. amount_or_zero (rn_input_tokens run)) runs),
      st_output_tokens = sum_list (map (\<lambda>run. amount_or_zero (rn_output_tokens run)) runs),
      st_turns = sum_list (map (\<lambda>run. amount_or_zero (rn_turns run)) runs),
      st_tool_calls = sum_list (map (\<lambda>run. amount_or_zero (rn_tool_calls run)) runs),
      st_images_unprocessed = sum_list (map unprocessed_images runs),
      st_components = map (\<lambda>r. (hb_component r, hb_status r, hb_version r, hb_last_seen_at r)) heartbeats\<rparr>"

definition collect_status ::
  "db \<Rightarrow> (feedback_row \<Rightarrow> int) \<Rightarrow> heartbeat_row list \<Rightarrow> (string \<times> string \<times> nat) list \<Rightarrow> int \<Rightarrow> int
   \<Rightarrow> status_report" where
  "collect_status d created heartbeats queue_rows now hours =
     (let since = now - 3600 * hours
      in status_of hours
           (filter (\<lambda>run. since \<le> rn_created_at run) (db_runs d))
           (filter (\<lambda>out. since \<le> so_created_at out) (db_outputs d))
           (filter (\<lambda>e. since \<le> ev_received_at e) (db_events d))
           (filter (\<lambda>f. since \<le> created f \<and> fb_is_active f) (db_feedback d))
           heartbeats queue_rows)"

section \<open>The counts add up\<close>

lemma count_filter: "length (filter (\<lambda>x. x = k) keys) = count_list keys k"
  by (induction keys) auto

lemma total_counter: "counted (counter keys) = length keys"
proof -
  have "counted (counter keys) = (\<Sum>k\<leftarrow>sorted_texts (fromkeys keys). count_list keys k)"
    by (simp add: counted_def counter_def comp_def count_filter)
  also have "\<dots> = (\<Sum>k \<in> set keys. count_list keys k)"
    using distinct_fromkeys [of keys]
    by (subst sum_list_distinct_conv_sum_set) (simp_all add: sorted_texts_def)
  also have "\<dots> = length keys"
    by (rule sum_count_set) simp_all
  finally show ?thesis .
qed

lemma counter_entry: "(k, n) \<in> set (counter keys) \<longleftrightarrow> k \<in> set keys \<and> n = length (filter (\<lambda>x. x = k) keys)"
  by (auto simp: counter_def)

lemma counter_keys: "map fst (counter keys) = sorted_texts (fromkeys keys)"
  by (simp add: counter_def comp_def)

text \<open>The counts of the report add up over the window: every run has one status and one kind, every event and
  output one status, the codes of failed runs are as many as the runs counted as failed, and no
  image is missing exactly when every run stored as many images as it was asked for.\<close>

theorem status_counts_add_up:
  fixes d created heartbeats queue_rows now hours
  defines "report \<equiv> collect_status d created heartbeats queue_rows now hours"
    and "runs \<equiv> filter (\<lambda>run. now - 3600 * hours \<le> rn_created_at run) (db_runs d)"
    and "outputs \<equiv> filter (\<lambda>out. now - 3600 * hours \<le> so_created_at out) (db_outputs d)"
    and "events \<equiv> filter (\<lambda>e. now - 3600 * hours \<le> ev_received_at e) (db_events d)"
  shows "counted (st_runs report) = length runs" "counted (st_request_kinds report) = length runs"
    "counted (st_outputs report) = length outputs" "counted (st_events report) = length events"
    "counted (st_run_failures report) = length (filter (\<lambda>run. rn_status run = Run_failed) runs)"
    "counted (st_outcomes report) \<le> length runs"
    "st_images_unprocessed report = 0 \<longleftrightarrow> (\<forall>run \<in> set runs. unprocessed_images run = 0)"
proof -
  have "length (outcomes_of rs) \<le> length rs" for rs
    unfolding outcomes_of_def List.map_filter_def by (simp add: comp_def)
  then show "counted (st_outcomes report) \<le> length runs"
    by (simp add: report_def runs_def collect_status_def status_of_def Let_def total_counter)
  have "0 \<le> unprocessed_images run" for run
    by (simp add: unprocessed_images_def split: option.splits)
  then have "sum_list (map unprocessed_images rs) = 0 \<longleftrightarrow> (\<forall>run \<in> set rs. unprocessed_images run = 0)" for rs
    by (subst sum_list_nonneg_eq_0_iff) auto
  then show "st_images_unprocessed report = 0 \<longleftrightarrow> (\<forall>run \<in> set runs. unprocessed_images run = 0)"
    by (simp add: report_def runs_def collect_status_def status_of_def Let_def)
qed (simp_all add: report_def runs_def outputs_def events_def collect_status_def status_of_def Let_def
      total_counter failure_codes_def)

end
