(* ===== verification/Preflight.thy ===== *)
theory Preflight
  imports Heartbeats Replica RunnerProofs
begin

text \<open>
  The preflight (\<open>ops/preflight.py\<close>): the checks of the database, of the temporary image root, of Slack,
  of the read replica, of the keys of the bank ingress and of the model provider, and the report over
  them. Opening the replica and the model run are the development's own; what the database, the file
  system, Slack and the key server answer are parameters. The command line and the printed report are
  left out.
\<close>

section \<open>Checks\<close>

definition database_check :: "string \<Rightarrow> readiness_database \<Rightarrow> exn_name + string" where
  "database_check head rd =
     bindE (rd_open rd) (\<lambda>_. bindE (rd_select rd) (\<lambda>_. bindE (rd_version rd) (\<lambda>version.
       bindE (rd_jobs rd) (\<lambda>jobs.
         Inr (if version \<noteq> Some head then ''schema_outdated''
              else if jobs = None \<or> jobs = Some [] then ''jobs_schema_missing'' else ''ok'')))))"

datatype root_entry =
  Absent
| Directory nat nat           \<comment> \<open>owner and permission bits\<close>
| Other_file
| Link_to_directory nat nat   \<comment> \<open>of the directory it leads to\<close>
| Link_to_file
| Broken_link

record root_system =
  rs_entry :: root_entry
  rs_euid :: nat
  rs_umask_keeps :: "nat \<Rightarrow> nat"     \<comment> \<open>the mode a new directory gets of the one asked for\<close>
  rs_mkdir :: "exn_name option"
  rs_probe :: "exn_name option"       \<comment> \<open>the probe directory and its file\<close>

definition private_mode :: nat where
  "private_mode = 448"   \<comment> \<open>\<open>0o700\<close>\<close>

fun follows_to :: "root_entry \<Rightarrow> root_entry" where
  "follows_to (Link_to_directory owner mode) = Directory owner mode"
| "follows_to Link_to_file = Other_file"
| "follows_to Broken_link = Absent"
| "follows_to e = e"

fun is_directory :: "root_entry \<Rightarrow> bool" where
  "is_directory (Directory _ _) = True"
| "is_directory _ = False"

fun is_link :: "root_entry \<Rightarrow> bool" where
  "is_link (Link_to_directory _ _) = True"
| "is_link Link_to_file = True"
| "is_link Broken_link = True"
| "is_link _ = False"

definition make_root :: "root_system \<Rightarrow> exn_name + root_entry" where
  \<comment> \<open>\<open>mkdir(mode=0o700, parents=True, exist_ok=True)\<close>\<close>
  "make_root fs =
     (case rs_entry fs of
        Absent \<Rightarrow> (case rs_mkdir fs of
                     Some e \<Rightarrow> Inl e | None \<Rightarrow> Inr (Directory (rs_euid fs) (rs_umask_keeps fs private_mode)))
      | Directory owner mode \<Rightarrow> Inr (Directory owner mode)
      | Link_to_directory owner mode \<Rightarrow> Inr (Link_to_directory owner mode)
      | _ \<Rightarrow> Inl ''FileExistsError'')"

definition make_private :: "nat \<Rightarrow> root_entry \<Rightarrow> exn_name + root_entry" where
  \<comment> \<open>\<open>os.chmod(root, stat.S_IRWXU)\<close>\<close>
  "make_private euid e =
     (case follows_to e of
        Directory owner mode \<Rightarrow>
          (if owner = euid \<or> euid = 0
           then Inr (if is_link e then Link_to_directory owner private_mode else Directory owner private_mode)
           else Inl ''PermissionError'')
      | _ \<Rightarrow> Inl ''FileNotFoundError'')"

definition create_probe :: "root_system \<Rightarrow> (exn_name + string) \<times> root_entry" where
  \<comment> \<open>the result and the entry it leaves\<close>
  "create_probe fs =
     (let entry = rs_entry fs in
      if follows_to entry \<noteq> Absent \<and> (is_link entry \<or> \<not> is_directory (follows_to entry))
      then (Inl ''RuntimeError'', entry)
      else case make_root fs of
             Inl e \<Rightarrow> (Inl e, entry)
           | Inr made \<Rightarrow>
               (case make_private (rs_euid fs) made of
                  Inl e \<Rightarrow> (Inl e, made)
                | Inr secured \<Rightarrow>
                    (if follows_to secured \<noteq> Directory (rs_euid fs) private_mode
                     then (Inl ''RuntimeError'', secured)
                     else case rs_probe fs of
                            Some e \<Rightarrow> (Inl e, secured)
                          | None \<Rightarrow> (Inr ''ok'', secured))))"

definition temporary_storage_check :: "root_system \<Rightarrow> exn_name + string" where
  "temporary_storage_check fs = fst (create_probe fs)"

record slack_probe =
  sp_auth :: "exn_name + bool"       \<comment> \<open>the \<open>ok\<close> of the answer\<close>
  sp_close :: "exn_name option"

definition closing :: "exn_name option \<Rightarrow> exn_name + 'a \<Rightarrow> exn_name + 'a" where
  \<comment> \<open>a \<open>finally\<close> whose close raises hides the result\<close>
  "closing close result = (case close of Some e \<Rightarrow> Inl e | None \<Rightarrow> result)"

definition slack_check :: "slack_probe \<Rightarrow> exn_name + string" where
  "slack_check sp =
     closing (sp_close sp)
       (bindE (sp_auth sp) (\<lambda>b. Inr (if b then ''ok'' else ''authentication_failed'')))"

record replica_probe =
  rp_scope :: data_scope
  rp_catalog :: schema_catalog
  rp_server :: replica_server
  rp_now :: int
  rp_later :: int

definition replica_check :: "app_config \<Rightarrow> replica_probe \<Rightarrow> exn_name + string" where
  "replica_check cfg rp =
     bindE (load_knowledge (rp_scope rp) (rp_catalog rp)) (\<lambda>knowledge.
       bindE (fst (start_replica cfg (sc_query_limits (kb_scope knowledge)) (rp_server rp) (rp_now rp) (rp_later rp)
                initial_replica)) (\<lambda>_. Inr ''ok''))"

record key_server =
  \<comment> \<open>the answer of the key set's address: a status, and its JSON if it is asked for\<close>
  ks_get :: "string \<Rightarrow> exn_name + int \<times> (exn_name + json)"

fun json_truth :: "json \<Rightarrow> bool" where
  "json_truth JNull = False"
| "json_truth (JBool b) = b"
| "json_truth (JInt n) = (n \<noteq> 0)"
| "json_truth (JFloat t) = list_ex (\<lambda>c. c \<notin> set ''-0.'') (takeWhile (\<lambda>c. c \<notin> set ''eE'') t)"
| "json_truth (JStr s) = (s \<noteq> [])"
| "json_truth (JArr xs) = (xs \<noteq> [])"
| "json_truth (JObj kvs) = (kvs \<noteq> [])"

definition bank_ingestion_check :: "app_config \<Rightarrow> key_server \<Rightarrow> exn_name + string" where
  "bank_ingestion_check cfg ks =
     (if \<not> bank_ingestion_ready cfg then Inr ''incomplete''
      else bindE (ks_get ks (bank_ingestion_jwks_uri cfg)) (\<lambda>(status, body).
             if status \<noteq> 200 then Inr (''jwks_http_'' @ show_int status)
             else bindE body (\<lambda>answer.
               case answer of
                 JObj kvs \<Rightarrow> Inr (if (case map_of kvs ''keys'' of None \<Rightarrow> False | Some keys \<Rightarrow> json_truth keys)
                                 then ''ok'' else ''jwks_empty'')
               | _ \<Rightarrow> Inl ''AttributeError'')))"

definition preflight_input :: "int \<Rightarrow> agent_run_input" where
  "preflight_input now =
     \<lparr>ri_run_id = 0, ri_slack_channel_id = ''preflight'', ri_slack_thread_ts = ''preflight'',
      ri_requester = ''preflight'',
      ri_transcript = [\<lparr>tm_direction = ''inbound'',
         tm_text = Some (''Identifica este pago sint'' @ [CHR 0xE9] @ ''tico sin datos de clientes: CLP 1.''),
         tm_event_at = now, tm_sender = Some ''preflight'', tm_slack_message_ts = Some ''preflight'',
         tm_attachments = []\<rparr>],
      ri_trigger_ts = Some ''preflight'', ri_image_paths = [],
      ri_image_ingestion = \<lparr>ing_requested = 0, ing_metadata_accepted = 0, ing_downloaded = 0, ing_rejected = 0,
        ing_failure_categories = []\<rparr>\<rparr>"

definition provider_check :: "app_config \<Rightarrow> runner_env \<Rightarrow> int \<Rightarrow> exn_name option \<Rightarrow> exn_name + string" where
  "provider_check cfg env now close =
     closing close
       (case run_agent_model (env\<lparr>rn_config := cfg, rn_port := empty_data, rn_shared_memory_enabled := False\<rparr>)
               (preflight_input now) of
          Inl e \<Rightarrow> Inl (exception_name e)
        | Inr _ \<Rightarrow> Inr ''ok'')"

section \<open>The report\<close>

record preflight_world =
  pw_database :: readiness_database
  pw_root :: root_system
  pw_slack :: slack_probe
  pw_replica :: replica_probe
  pw_keys :: key_server
  pw_runner :: runner_env
  pw_runner_close :: "exn_name option"
  pw_now :: int

definition checked :: "exn_name + string \<Rightarrow> string" where
  "checked result = (case result of Inl e \<Rightarrow> ''failed_'' @ e | Inr value \<Rightarrow> value)"

definition profiled :: "app_config \<Rightarrow> readiness_profile \<Rightarrow> app_config" where
  "profiled cfg profile = cfg\<lparr>cfg_readiness_profile := profile\<rparr>"

definition preflight_checks ::
  "string \<Rightarrow> app_config \<Rightarrow> readiness_profile \<Rightarrow> bool \<Rightarrow> preflight_world \<Rightarrow> (string \<times> string) list" where
  "preflight_checks head base profile live w =
     (let cfg = profiled base profile
      in (if profile = Pilot
          then [(''configuration'', if pilot_configuration_ready cfg then ''ok'' else ''incomplete'')] else [])
         @ [(''database'', checked (database_check head (pw_database w))),
            (''temporary_storage'', checked (temporary_storage_check (pw_root w)))]
         @ (if profile = Pilot
            then [(''slack'', checked (slack_check (pw_slack w))),
                  (''replica'', checked (replica_check cfg (pw_replica w)))] else [])
         @ (if bank_ingestion_enabled cfg
            then [(''bank_ingestion'', checked (bank_ingestion_check cfg (pw_keys w)))] else [])
         @ (if live
            then [(''azure_provider'', checked (provider_check cfg (pw_runner w) (pw_now w) (pw_runner_close w)))]
            else []))"

definition run_preflight ::
  "string \<Rightarrow> app_config \<Rightarrow> readiness_profile \<Rightarrow> bool \<Rightarrow> preflight_world \<Rightarrow> string \<times> (string \<times> string) list" where
  "run_preflight head base profile live w =
     (let checks = preflight_checks head base profile live w
      in (if checks \<noteq> [] \<and> list_all (\<lambda>c. snd c = ''ok'') checks then ''ok'' else ''failed'', checks))"

section \<open>What a passing preflight means\<close>

lemma checked_ok: "checked result = ''ok'' \<longleftrightarrow> result = Inr ''ok''"
  by (cases result) (simp_all add: checked_def)

lemma database_check_ok: "database_check head rd = Inr ''ok'' \<longleftrightarrow> foundation_holds head rd"
  by (cases "rd_open rd"; cases "rd_select rd"; cases "rd_version rd"; cases "rd_jobs rd")
    (auto simp: database_check_def foundation_holds_def)

lemma storage_check_private:
  assumes "temporary_storage_check fs = Inr ''ok''"
  shows "snd (create_probe fs) = Directory (rs_euid fs) private_mode \<and> \<not> is_link (rs_entry fs)"
  using assms
  by (cases "rs_entry fs")
    (auto simp: temporary_storage_check_def create_probe_def make_root_def make_private_def Let_def
      split: option.splits if_splits)

lemma start_replica_verified:
  assumes "fst (start_replica cfg limits sv now later initial_replica) = Inr ()"
  shows "verify_safety cfg sv = Inr () \<and> validate_dsn cfg = Inr ()"
  using assms
  by (auto simp: start_replica_def initial_replica_def Let_def split: sum.splits option.splits prod.splits if_splits)

lemma replica_check_ok:
  "replica_check cfg rp = Inr ''ok'' \<Longrightarrow> verify_safety cfg (rp_server rp) = Inr () \<and> validate_dsn cfg = Inr ()"
proof -
  assume ok: "replica_check cfg rp = Inr ''ok''"
  then obtain knowledge where "load_knowledge (rp_scope rp) (rp_catalog rp) = Inr knowledge"
    by (cases "load_knowledge (rp_scope rp) (rp_catalog rp)") (simp_all add: replica_check_def)
  with ok have "fst (start_replica cfg (sc_query_limits (kb_scope knowledge)) (rp_server rp) (rp_now rp) (rp_later rp)
      initial_replica) = Inr ()"
    by (cases "fst (start_replica cfg (sc_query_limits (kb_scope knowledge)) (rp_server rp) (rp_now rp) (rp_later rp)
        initial_replica)") (simp_all add: replica_check_def)
  then show ?thesis by (rule start_replica_verified)
qed

lemma passing_checks:
  "fst (run_preflight head base profile live w) = ''ok'' \<longleftrightarrow>
     (profile = Pilot \<longrightarrow> pilot_configuration_ready (profiled base profile))
     \<and> foundation_holds head (pw_database w) \<and> temporary_storage_check (pw_root w) = Inr ''ok''
     \<and> (profile = Pilot \<longrightarrow> slack_check (pw_slack w) = Inr ''ok''
          \<and> replica_check (profiled base profile) (pw_replica w) = Inr ''ok'')
     \<and> (bank_ingestion_enabled base \<longrightarrow> bank_ingestion_check (profiled base profile) (pw_keys w) = Inr ''ok'')
     \<and> (live \<longrightarrow> provider_check (profiled base profile) (pw_runner w) (pw_now w) (pw_runner_close w) = Inr ''ok'')"
  by (auto simp: run_preflight_def preflight_checks_def Let_def checked_ok database_check_ok profiled_def)

lemma profiled_simps [simp]:
  "cfg_readiness_profile (profiled base profile) = profile"
  "runtime_stale_seconds (profiled base profile) = runtime_stale_seconds base"
  by (simp_all add: profiled_def)

lemma provider_answers:
  "provider_check cfg env now close = Inr ''ok'' \<Longrightarrow>
     \<exists>r. run_agent_model (env\<lparr>rn_config := cfg, rn_port := empty_data, rn_shared_memory_enabled := False\<rparr>)
            (preflight_input now) = Inr r"
  by (auto simp: provider_check_def closing_def split: option.splits sum.splits)


section \<open>Witness\<close>

definition example_base :: app_config where
  "example_base = replica_config\<lparr>slack_bot_token := ''b'', slack_app_token := ''a'',
     azure_openai_endpoint := ''e'', azure_openai_api_key := ''k''\<rparr>"

definition example_schema :: schema_catalog where
  "example_schema = \<lparr>sm_version = 1, sm_source = [],
     sm_relations = [(''sale'', \<lparr>sm_description = [], sm_columns = [], sm_gotchas = []\<rparr>)]\<rparr>"

definition example_world :: preflight_world where
  "example_world = \<lparr>pw_database = ready_database,
     pw_root = \<lparr>rs_entry = Absent, rs_euid = 1000, rs_umask_keeps = id, rs_mkdir = None, rs_probe = None\<rparr>,
     pw_slack = \<lparr>sp_auth = Inr True, sp_close = None\<rparr>,
     pw_replica = \<lparr>rp_scope = example_scope, rp_catalog = example_schema, rp_server = example_server,
                   rp_now = 5, rp_later = 7\<rparr>,
     pw_keys = \<lparr>ks_get = (\<lambda>_. Inl ''ConnectError'')\<rparr>, pw_runner = example_runner, pw_runner_close = None,
     pw_now = 0\<rparr>"

lemma example_replica: "replica_check (profiled example_base Pilot) (pw_replica example_world) = Inr ''ok''"
proof -
  have "validate_dsn (profiled example_base Pilot) = Inr ()"
    by (simp add: validate_dsn_def profiled_def example_base_def replica_config_def default_config_def
        local_environment_def rstrip_char_def url_eval str_lower_def lower_char_def)
  then have "start_replica (profiled example_base Pilot) example_limits example_server 5 7 initial_replica =
      (Inr (), started_replica)"
    by (simp add: start_replica_def initial_replica_def verify_safety_def example_server_def
        example_session_def check_schema_def catalog_def drift_of_def drift_ok_def example_catalog_eq
        order_relation_def started_replica_def Let_def)
  moreover have "load_knowledge example_scope example_schema =
      Inr \<lparr>kb_scope = example_scope, kb_catalog = example_schema\<rparr>"
    by (simp add: load_knowledge_def build_data_scope_def nonempty_def versions_and_relations_match_def
        example_scope_def example_schema_def query_limits_ok_def example_limits_def within_def Scope.relation_names_def)
  ultimately show ?thesis
    by (simp add: replica_check_def example_world_def) (simp add: example_scope_def)
qed


end
