(* ===== verification/Processes.thy ===== *)
theory Processes
  imports Preflight Images Tasks
begin

text \<open>
  The processes (\<open>worker.py\<close>, \<open>slack/socket.py\<close>, \<open>jobs/schema.py\<close>, \<open>db/session.py\<close>, and the cached runner
  of \<open>agent/runner.py\<close>): what a worker does from its start to its end, what the Slack process does with
  the body of an event, and the resources each opens and closes. The queue's own loop, the socket
  client and the drivers are parameters that return or raise.
\<close>

section \<open>Receiving a body\<close>

datatype received = Acknowledged | Logged_failure exn_name | Accepted string

definition socket_receive ::
  "svc_env \<Rightarrow> exn_name + unit \<Rightarrow> string option \<Rightarrow> json \<Rightarrow> Service.world \<Rightarrow> (exn_name + received list) \<times> Service.world" where
  \<comment> \<open>\<open>_receive\<close>: the acknowledgement comes first, and what goes wrong after it is only logged\<close>
  "socket_receive env ack bot_user_id body w =
     (case ack of
        Inl e \<Rightarrow> (Inl e, w)
      | Inr _ \<Rightarrow>
          (case normalize_event body bot_user_id (se_config env) of
             Inl e \<Rightarrow> (Inr [Acknowledged, Logged_failure e], w)
           | Inr event \<Rightarrow>
               (case receive_event env event w of
                  (w1, Inl e) \<Rightarrow> (Inr [Acknowledged, Logged_failure e], w1)
                | (w1, Inr _) \<Rightarrow> (Inr [Acknowledged, Accepted (ne_event_type event)], w1))))"

definition socket_events :: "string list" where
  "socket_events =
     [''app_mention'', ''assistant_thread_context_changed'', ''assistant_thread_started'', ''message'',
      ''reaction_added'', ''reaction_removed'']"

definition build_slack_app :: "app_config \<Rightarrow> exn_name + string list" where
  \<comment> \<open>the event types the application listens to\<close>
  "build_slack_app cfg = (if \<not> slack_ready cfg then Inl ''RuntimeError'' else Inr socket_events)"

definition slack_main ::
  "app_config \<Rightarrow> process_life \<Rightarrow> exn_name + unit \<Rightarrow> exn_name + unit \<Rightarrow> (exn_name + unit) \<times> attempt list" where
  \<comment> \<open>the outcomes of opening the queue and of connecting, waiting for the signal and closing\<close>
  "slack_main cfg life opened served =
     (case build_slack_app cfg of
        Inl e \<Rightarrow> (Inl e, [])
      | Inr _ \<Rightarrow>
          (case opened of
             Inl e \<Rightarrow> (Inl e, [])
           | Inr _ \<Rightarrow> maintain_heartbeat cfg (life\<lparr>pl_component := Comp_slack\<rparr>) served))"

section \<open>The database engine of a process\<close>

fun replace_first :: "string \<Rightarrow> string \<Rightarrow> string \<Rightarrow> string" where
  \<comment> \<open>\<open>s.replace(old, new, 1)\<close>\<close>
  "replace_first old new [] = (if old = [] then new else [])"
| "replace_first old new (c # cs) =
     (if starts_with old (c # cs) then new @ drop (length old) (c # cs) else c # replace_first old new cs)"

definition sqlalchemy_url :: "app_config \<Rightarrow> string" where
  "sqlalchemy_url cfg = replace_first ''postgresql://'' ''postgresql+asyncpg://'' (database_url cfg)"

definition alembic_url :: "app_config \<Rightarrow> string" where
  "alembic_url cfg = replace_first ''postgresql://'' ''postgresql+psycopg://'' (database_url cfg)"

definition procrastinate_conninfo :: "app_config \<Rightarrow> string" where
  "procrastinate_conninfo cfg = database_url cfg"

definition migration_url :: "string option \<Rightarrow> app_config \<Rightarrow> string" where
  \<comment> \<open>\<open>_url\<close> of the migrations, with alembic's own option\<close>
  "migration_url main_option cfg =
     (case main_option of Some u \<Rightarrow> (if u \<noteq> [] then u else alembic_url cfg) | None \<Rightarrow> alembic_url cfg)"

text \<open>The engine, the migrations and the queue reach the same database: for an address with the plain
  scheme the three differ in the driver only.\<close>

lemma one_database:
  assumes "database_url cfg = ''postgresql://'' @ place"
  shows "sqlalchemy_url cfg = ''postgresql+asyncpg://'' @ place" "alembic_url cfg = ''postgresql+psycopg://'' @ place"
    "procrastinate_conninfo cfg = ''postgresql://'' @ place" "migration_url None cfg = ''postgresql+psycopg://'' @ place"
  using assms by (simp_all add: sqlalchemy_url_def alembic_url_def procrastinate_conninfo_def migration_url_def starts_with_def)

record engine_state =
  en_engine :: "nat option"     \<comment> \<open>which engine, by the order of their creation\<close>
  en_factory :: "nat option"    \<comment> \<open>the engine of the session factory\<close>
  en_created :: nat
  en_disposed :: "nat list"

definition get_engine :: "engine_state \<Rightarrow> nat \<times> engine_state" where
  "get_engine st =
     (case en_engine st of
        Some n \<Rightarrow> (n, st)
      | None \<Rightarrow> (en_created st, st\<lparr>en_engine := Some (en_created st), en_factory := Some (en_created st),
                                   en_created := Suc (en_created st)\<rparr>))"

definition get_session_factory :: "engine_state \<Rightarrow> (exn_name + nat) \<times> engine_state" where
  "get_session_factory st =
     (let st1 = snd (get_engine st) in
      (case en_factory st1 of None \<Rightarrow> Inl ''AssertionError'' | Some n \<Rightarrow> Inr n, st1))"

definition dispose_engine :: "engine_state \<Rightarrow> engine_state" where
  "dispose_engine st =
     (case en_engine st of
        None \<Rightarrow> st
      | Some n \<Rightarrow> st\<lparr>en_engine := None, en_factory := None, en_disposed := en_disposed st @ [n]\<rparr>)"

section \<open>A worker\<close>

datatype worker_role = Control_role | Agent_role

fun worker_component :: "worker_role \<Rightarrow> runtime_component" where
  "worker_component Agent_role = Comp_agent_worker"
| "worker_component Control_role = Comp_control_worker"

fun role_text :: "worker_role \<Rightarrow> string" where
  "role_text Control_role = ''control''"
| "role_text Agent_role = ''agent''"

record worker_env =
  we_job_table :: "exn_name + bool"        \<comment> \<open>whether the queue's schema exists\<close>
  we_apply_schema :: "exn_name + unit"
  we_scope :: data_scope
  we_catalog :: schema_catalog
  we_knowledge :: "exn_name option"        \<comment> \<open>what reading the knowledge files raises\<close>
  we_server :: replica_server
  we_now :: int
  we_later :: int
  we_open :: "exn_name + unit"
  we_body :: "exn_name + unit"             \<comment> \<open>\<open>run_worker_async\<close>\<close>
  we_close_runner :: "exn_name option"
  we_close_files :: "exn_name option"
  we_close_gateway :: "exn_name option"
  we_dispose :: "exn_name option"

definition ensure_procrastinate_schema :: "worker_env \<Rightarrow> exn_name + unit" where
  "ensure_procrastinate_schema we =
     bindE (we_job_table we) (\<lambda>exists. if exists then Inr () else we_apply_schema we)"

definition start_agent_runner :: "app_config \<Rightarrow> worker_env \<Rightarrow> exn_name + replica_state" where
  \<comment> \<open>builds the process's runner and starts it; the state of its replica\<close>
  "start_agent_runner cfg we =
     bindE (build_agent_runner cfg (we_knowledge we)) (\<lambda>runner.
       case runner of
         Azure_runner True \<Rightarrow>
           bindE (load_knowledge (we_scope we) (we_catalog we)) (\<lambda>knowledge.
             (case start_replica cfg (sc_query_limits (kb_scope knowledge)) (we_server we) (we_now we) (we_later we)
                     initial_replica of
                (Inl e, st) \<Rightarrow> Inl e
              | (Inr _, st) \<Rightarrow> Inr st))
       | _ \<Rightarrow> Inr initial_replica)"

datatype closing_step = Closed_runner | Closed_files | Closed_gateway | Disposed_engine

fun close_all :: "('s \<times> exn_name option) list \<Rightarrow> exn_name option \<times> 's list" where
  \<comment> \<open>closing statements in their order, up to the first that raises\<close>
  "close_all [] = (None, [])"
| "close_all ((c, raised) # cs) =
     (case raised of
        Some e \<Rightarrow> (Some e, [])
      | None \<Rightarrow> (case close_all cs of (e, cs1) \<Rightarrow> (e, c # cs1)))"

definition worker_closing :: "worker_role \<Rightarrow> worker_env \<Rightarrow> (closing_step \<times> exn_name option) list" where
  "worker_closing role we =
     (if role = Agent_role then [(Closed_runner, we_close_runner we), (Closed_files, we_close_files we)] else [])
     @ [(Closed_gateway, we_close_gateway we), (Disposed_engine, we_dispose we)]"

definition worker_main ::
  "app_config \<Rightarrow> worker_role \<Rightarrow> worker_env \<Rightarrow> process_life \<Rightarrow> temp_root
   \<Rightarrow> (exn_name + unit) \<times> attempt list \<times> closing_step list \<times> temp_root" where
  "worker_main cfg role we life fs =
     (case ensure_procrastinate_schema we of
        Inl e \<Rightarrow> (Inl e, [], [], fs)
      | Inr _ \<Rightarrow>
          (let fs1 = (if role = Agent_role then snd (sweep_abandoned_image_directories fs) else fs);
               started = (if role = Agent_role then bindE (start_agent_runner cfg we) (\<lambda>_. Inr ()) else Inr ())
           in case started of
                Inl e \<Rightarrow> (Inl e, [], [], fs1)
              | Inr _ \<Rightarrow>
                  (let (result, attempts) =
                         (case we_open we of
                            Inl e \<Rightarrow> (Inl e, [])
                          | Inr _ \<Rightarrow> maintain_heartbeat cfg (life\<lparr>pl_component := worker_component role\<rparr>) (we_body we));
                       (raised, closed) = close_all (worker_closing role we)
                   in (case raised of Some e \<Rightarrow> Inl e | None \<Rightarrow> result, attempts, closed, fs1))))"

section \<open>What a worker that beats has done\<close>

lemma heartbeat_loop_touches:
  "a \<in> set (heartbeat_loop cfg c i now beats) \<Longrightarrow>
     to_component (fst a) = component_name c \<and> to_status (fst a) = ''running''"
  by (induction cfg c i now beats rule: heartbeat_loop.induct) auto

lemma maintain_heartbeat_touches:
  "maintain_heartbeat cfg life body = (r, as) \<Longrightarrow> a \<in> set as \<Longrightarrow> to_component (fst a) = component_name (pl_component life)"
  by (auto simp: maintain_heartbeat_def Let_def life_touch_def dest: heartbeat_loop_touches split: option.splits if_splits)

lemma component_name_inject: "component_name c = component_name c' \<longleftrightarrow> c = c'"
  by (cases c; cases c') simp_all

definition attempts_of :: "(exn_name + unit) \<times> attempt list \<times> closing_step list \<times> temp_root \<Rightarrow> attempt list" where
  "attempts_of r = fst (snd r)"

definition closed_of :: "(exn_name + unit) \<times> attempt list \<times> closing_step list \<times> temp_root \<Rightarrow> closing_step list" where
  "closed_of r = fst (snd (snd r))"

lemma worker_attempts:
  assumes "a \<in> set (attempts_of (worker_main cfg role we life fs))"
  shows "to_component (fst a) = component_name (worker_component role)
    \<and> (role = Agent_role \<longrightarrow> (\<exists>st. start_agent_runner cfg we = Inr st))
    \<and> ensure_procrastinate_schema we = Inr ()"
  using assms
  by (cases "start_agent_runner cfg we"; cases "ensure_procrastinate_schema we"; cases "we_open we")
    (auto simp: worker_main_def attempts_of_def Let_def bindE_Inr split: prod.splits if_splits
      dest: maintain_heartbeat_touches)

lemma started_runner_verified:
  assumes "start_agent_runner cfg we = Inr st" "azure_agent_ready cfg" "replica_ready cfg"
  shows "verify_safety cfg (we_server we) = Inr () \<and> validate_dsn cfg = Inr ()"
proof -
  obtain runner where r: "build_agent_runner cfg (we_knowledge we) = Inr runner"
    using assms(1) by (cases "build_agent_runner cfg (we_knowledge we)") (simp_all add: start_agent_runner_def)
  then have "runner = Azure_runner True"
    using assms(2,3) by (auto simp: build_agent_runner_def azure_agent_ready_def split: if_splits option.splits)
  with r assms(1) obtain knowledge where k: "load_knowledge (we_scope we) (we_catalog we) = Inr knowledge"
    by (cases "load_knowledge (we_scope we) (we_catalog we)") (simp_all add: start_agent_runner_def)
  have "fst (start_replica cfg (sc_query_limits (kb_scope knowledge)) (we_server we) (we_now we) (we_later we)
      initial_replica) = Inr ()"
    using assms(1) r \<open>runner = Azure_runner True\<close> k
    by (auto simp: start_agent_runner_def split: prod.splits sum.splits)
  then show ?thesis by (rule start_replica_verified)
qed

definition agent_worker_attempts :: "app_config \<Rightarrow> (worker_env \<Rightarrow> bool) \<Rightarrow> attempt list \<Rightarrow> bool" where
  \<comment> \<open>in an interleaving, every touch of the agent worker's row is one of a worker that happened as such in
    one of the given environments\<close>
  "agent_worker_attempts cfg happened as \<longleftrightarrow>
     (\<forall>a \<in> set as. to_component (fst a) = component_name Comp_agent_worker \<longrightarrow>
        (\<exists>we life fs. happened we \<and> a \<in> set (attempts_of (worker_main cfg Agent_role we life fs))))"

text \<open>C0: A ready deployment has opened a safe replica. However the touches of all processes interleave: if
  the agent worker's row is only touched by workers that run as such and \<open>/ready\<close> answers 200 in the
  pilot profile, one of those workers has found the queue's schema, built the Azure runner and opened
  its replica, over an encrypted connection or in a local environment, on a server whose session is
  read-only and unprivileged and whose relations it cannot write.\<close>

theorem ready_deployment_opened_safe_replica:
  assumes "fst (ready_route head cfg now (rd\<lparr>rd_heartbeats := Inr (run_attempts version as [])\<rparr>)) = 200"
    "cfg_readiness_profile cfg = Pilot" "agent_worker_attempts cfg happened as"
  shows "\<exists>we s cat. happened we \<and> ensure_procrastinate_schema we = Inr ()
    \<and> sv_settings (we_server we) = Some s \<and> safe_session cfg s
    \<and> sv_catalog (we_server we) = Inr cat \<and> (\<forall>kr \<in> set (cat_relations cat). \<not> rel_writable (snd kr))
    \<and> (local_environment cfg \<or> encrypted_dsn cfg)"
proof -
  have "ry_ready (readiness_report head cfg now (rd\<lparr>rd_heartbeats := Inr (run_attempts version as [])\<rparr>))"
    using assms(1) by (auto simp: ready_route_def Let_def split: if_splits)
  then have ready: "pilot_configuration_ready cfg" "alive (runtime_stale_seconds cfg) now as (component_name Comp_agent_worker)"
    using assms(2) unfolding ready_iff by blast+
  obtain t where t: "last_touch (component_name Comp_agent_worker) (stored_touches as) = Some t"
    using ready(2) by (auto simp: alive_def)
  then have "t \<in> set (stored_touches as)" "to_component t = component_name Comp_agent_worker"
    by (auto simp: last_touch_def find_Some_iff) (metis nth_mem rev_nth length_rev set_rev)
  then obtain a where a: "a \<in> set as" "to_component (fst a) = component_name Comp_agent_worker"
    by (auto simp: stored_touches_def)
  then obtain we life fs where w: "happened we" "a \<in> set (attempts_of (worker_main cfg Agent_role we life fs))"
    using assms(3) unfolding agent_worker_attempts_def by blast
  from worker_attempts [OF w(2)] obtain st where "start_agent_runner cfg we = Inr st" "ensure_procrastinate_schema we = Inr ()"
    by auto
  moreover have "verify_safety cfg (we_server we) = Inr ()" "validate_dsn cfg = Inr ()"
    using started_runner_verified [OF calculation(1)] pilot_ready_implies [OF ready(1)] by blast+
  ultimately show ?thesis
    using verify_safety_Inr [of cfg "we_server we" "()"] validate_dsn_Inr [of cfg "()"] w(1) by blast
qed

section \<open>Resources\<close>

definition engine_ok :: "engine_state \<Rightarrow> bool" where
  "engine_ok st \<longleftrightarrow> en_factory st = en_engine st \<and> distinct (en_disposed st)
     \<and> (\<forall>n \<in> set (en_disposed st). n < en_created st \<and> en_engine st \<noteq> Some n)
     \<and> (\<forall>n. en_engine st = Some n \<longrightarrow> n < en_created st)"

text \<open>The engine of a process: whatever the order of requests and disposals, a session factory is always
  that of the current engine, never of a disposed one, and the assertion in it cannot fail.\<close>

theorem sessions_follow_engine:
  assumes "engine_ok st"
  shows "engine_ok (snd (get_engine st))" "engine_ok (snd (get_session_factory st))" "engine_ok (dispose_engine st)"
    "fst (get_session_factory st) = Inr (fst (get_engine st))"
    "fst (get_engine st) \<notin> set (en_disposed (snd (get_session_factory st)))"
  using assms
  by (cases "en_engine st"; force simp: engine_ok_def get_engine_def get_session_factory_def dispose_engine_def Let_def)+

lemma close_all_clean: "fst (close_all cs) = None \<Longrightarrow> snd (close_all cs) = map fst cs"
  by (induction cs rule: close_all.induct) (auto split: option.splits prod.splits)

text \<open>A worker that ends without a failing close has closed everything its role holds, the engine last.\<close>

lemma worker_closes_everything:
  assumes "attempts_of (worker_main cfg role we life fs) \<noteq> []" "fst (close_all (worker_closing role we)) = None"
  shows "closed_of (worker_main cfg role we life fs) =
    (if role = Agent_role then [Closed_runner, Closed_files] else []) @ [Closed_gateway, Disposed_engine]"
proof -
  have "closed_of (worker_main cfg role we life fs) = snd (close_all (worker_closing role we))"
    using assms(1)
    by (auto simp: worker_main_def attempts_of_def closed_of_def Let_def bindE_Inr split: sum.splits prod.splits if_splits)
  with close_all_clean [OF assms(2)] show ?thesis by (simp add: worker_closing_def)
qed

text \<open>An acknowledged body is kept. Unless the normaliser raises on it, its event is in the database when the
  handler ends, under its Slack id and once, even when the queue refuses the job.\<close>

lemma acknowledged_event_is_kept:
  assumes "normalize_event body uid (se_config env) = Inr event"
  shows "ne_slack_event_id event \<in> ev_slack_event_id ` set (db_events (w_db (snd (socket_receive env (Inr ()) uid body w))))"
proof -
  have mark: "ev_slack_event_id ` set (db_events (mark_queued i d)) = ev_slack_event_id ` set (db_events d)" for i d
  proof -
    have "map ev_slack_event_id (db_events (mark_queued i d)) = map ev_slack_event_id (db_events d)"
      by (auto simp: mark_queued_def upd_event_def intro: map_row_upd split: option.splits)
    then show ?thesis by (metis list.set_map)
  qed
  have "ne_slack_event_id event \<in> ev_slack_event_id ` set (db_events (w_db (fst (receive_event env event w))))"
    by (auto simp: receive_event_def Let_def insert_event_def mark add_event_def new_event_row_def
        split: prod.splits option.splits sum.splits bool.splits if_splits)
  then show ?thesis
    using assms by (auto simp: socket_receive_def split: prod.splits sum.splits)
qed

section \<open>Witness\<close>

definition example_worker :: worker_env where
  "example_worker = \<lparr>we_job_table = Inr True, we_apply_schema = Inr (), we_scope = example_scope,
     we_catalog = example_schema, we_knowledge = None, we_server = example_server, we_now = 5, we_later = 7,
     we_open = Inr (), we_body = Inr (), we_close_runner = None, we_close_files = None,
     we_close_gateway = None, we_dispose = None\<rparr>"

definition example_life :: process_life where
  "example_life = \<lparr>pl_component = Comp_agent_worker, pl_instance = ''a'', pl_started = 1, pl_first = (0, None),
     pl_beats = [], pl_ended = 9, pl_last = None\<rparr>"

definition example_touches :: "attempt list" where
  "example_touches =
     [stored Comp_slack ''s'' ''running'' 1, stored Comp_control_worker ''c'' ''running'' 1,
      stored Comp_agent_worker ''a'' ''running'' 1]"

lemma example_worker_starts:
  "stored Comp_agent_worker ''a'' ''running'' 1
     \<in> set (attempts_of (worker_main (profiled example_base Pilot) Agent_role example_worker example_life empty_root))"
proof -
  have "replica_check (profiled example_base Pilot) (pw_replica example_world) = Inr ''ok''" by (rule example_replica)
  then obtain st where "start_agent_runner (profiled example_base Pilot) example_worker = Inr st"
    by (cases "start_replica (profiled example_base Pilot) (sc_query_limits example_scope) example_server 5 7 initial_replica";
        cases "load_knowledge example_scope example_schema")
      (auto simp: start_agent_runner_def replica_check_def example_world_def example_worker_def build_agent_runner_def
        profiled_def example_base_def replica_config_def default_config_def azure_agent_partially_configured_def
        replica_ready_def load_knowledge_def build_data_scope_def nonempty_def versions_and_relations_match_def bindE_Inr
        split: sum.splits if_splits)
  then show ?thesis
    by (simp add: worker_main_def ensure_procrastinate_schema_def attempts_of_def example_worker_def example_life_def
        maintain_heartbeat_def life_touch_def stored_def split: prod.splits)
qed

lemma ready_deployment_opened_safe_replica_witness:
  "\<exists>we s. we = example_worker \<and> sv_settings (we_server we) = Some s \<and> safe_session (profiled example_base Pilot) s"
proof -
  have alive: "alive 45 10 example_touches (component_name c)" for c
    by (cases c) (simp_all add: alive_def example_touches_def last_touch_def stored_touches_def stored_def)
  have "pilot_configuration_ready (profiled example_base Pilot)" "foundation_holds ''20260907_0006'' ready_database"
    "runtime_stale_seconds example_base = 45"
    by (simp_all add: foundation_holds_def ready_database_def profiled_def example_base_def
        replica_config_def default_config_def pilot_configuration_ready_def live_agent_ready_def)
  then have "fst (ready_route ''20260907_0006'' (profiled example_base Pilot) 10
      (ready_database\<lparr>rd_heartbeats := Inr (run_attempts [] example_touches [])\<rparr>)) = 200"
    using alive by (simp add: ready_route_def Let_def ready_iff)
  moreover have "agent_worker_attempts (profiled example_base Pilot) (\<lambda>we. we = example_worker) example_touches"
    using example_worker_starts by (auto simp: agent_worker_attempts_def example_touches_def stored_def)
  ultimately show ?thesis
    using ready_deployment_opened_safe_replica [of "''20260907_0006''" "profiled example_base Pilot" 10] by fastforce
qed

end
