(* ===== verification/Schema.thy ===== *)
theory Schema
  imports Values "HOL-Library.Multiset"
begin

text \<open>
  The schema of the workflow database: the tables the models declare (\<open>db/models.py\<close>,
  \<open>db/base.py\<close>) and the migrations that build them (\<open>db/migrations\<close>). A migration is the list of
  its operations; what an operation does to a database, its rows and its errors included, is the
  documented behaviour of PostgreSQL's data definition statements, as far as these migrations use
  them. Cells are \<open>None\<close> for NULL or a text; the connection and alembic's own bookkeeping beyond the
  stored revision are left out.
\<close>

section \<open>Tables\<close>

datatype column_type = Uuid_type | Text_type | Integer_type | Boolean_type | Timestamp_type | Jsonb_type

datatype column_default = No_default | Now_default | Text_default string

record column =
  co_name :: string
  co_type :: column_type
  co_nullable :: bool
  co_default :: column_default

datatype rule =
  Primary_key "string list"
| Unique "string option" "string list"
| Foreign_key string string string   \<comment> \<open>column, table and column referred to\<close>

datatype index_part = Column_part string | Descending string

type_synonym sql_cell = "string option"

record table =
  tb_name :: string
  tb_columns :: "column list"
  tb_rules :: "rule list"
  tb_indexes :: "(string \<times> index_part list) list"
  tb_rows :: "(string \<times> sql_cell) list list"

fun rule_columns :: "rule \<Rightarrow> string list" where
  "rule_columns (Primary_key cs) = cs"
| "rule_columns (Unique n cs) = cs"
| "rule_columns (Foreign_key c t k) = [c]"

fun rule_name :: "rule \<Rightarrow> string option" where
  "rule_name (Unique n cs) = n"
| "rule_name _ = None"

fun rule_target :: "rule \<Rightarrow> (string \<times> string) option" where
  "rule_target (Foreign_key c t k) = Some (t, k)"
| "rule_target _ = None"

fun part_column :: "index_part \<Rightarrow> string" where
  "part_column (Column_part c) = c"
| "part_column (Descending c) = c"

definition column_names :: "table \<Rightarrow> string list" where
  "column_names t = map co_name (tb_columns t)"

definition targets :: "table \<Rightarrow> (string \<times> string) list" where
  "targets t = List.map_filter rule_target (tb_rules t)"

definition index_names :: "table list \<Rightarrow> string list" where
  "index_names d = concat (map (\<lambda>t. map fst (tb_indexes t)) d)"

definition rule_names :: "table list \<Rightarrow> string list" where
  "rule_names d = concat (map (\<lambda>t. List.map_filter rule_name (tb_rules t)) d)"

definition used_names :: "table list \<Rightarrow> string list" where
  \<comment> \<open>tables, indexes and the indexes of named unique constraints share one name space\<close>
  "used_names d = map tb_name d @ index_names d @ rule_names d"

definition table_of :: "string \<Rightarrow> table list \<Rightarrow> table option" where
  "table_of name d = List.find (\<lambda>t. tb_name t = name) d"

definition change_table :: "string \<Rightarrow> (table \<Rightarrow> table) \<Rightarrow> table list \<Rightarrow> table list" where
  "change_table name f d = map (\<lambda>t. if tb_name t = name then f t else t) d"

section \<open>Operations\<close>

datatype operation =
  Create_table string "column list" "rule list"
| Drop_table string
| Create_index string string "index_part list"
| Drop_index string string
| Add_column string column
| Drop_column string string
| Set_nullable string string bool
| Create_unique string string "string list"
| Drop_constraint string string

definition default_cell :: "string \<Rightarrow> column_default \<Rightarrow> sql_cell" where
  "default_cell now d = (case d of No_default \<Rightarrow> None | Now_default \<Rightarrow> Some now | Text_default s \<Rightarrow> Some s)"

definition cell_of :: "(string \<times> sql_cell) list \<Rightarrow> string \<Rightarrow> sql_cell" where
  "cell_of row c = (case map_of row c of None \<Rightarrow> None | Some v \<Rightarrow> v)"

definition duplicated :: "string list \<Rightarrow> (string \<times> sql_cell) list list \<Rightarrow> bool" where
  \<comment> \<open>two rows agree on the columns and neither has a NULL in them\<close>
  "duplicated cs rows \<longleftrightarrow>
     \<not> distinct (filter (\<lambda>k. None \<notin> set k) (map (\<lambda>row. map (cell_of row) cs) rows))"

fun run_operation :: "string \<Rightarrow> operation \<Rightarrow> table list \<Rightarrow> exn_name + table list" where
  "run_operation now (Create_table name cs rs) d =
     (if \<not> distinct (name # List.map_filter rule_name rs @ used_names d) then Inl ''DuplicateTable''
      else if \<not> distinct (map co_name cs) then Inl ''DuplicateColumn''
      else if \<not> list_all (\<lambda>r. set (rule_columns r) \<subseteq> co_name ` set cs) rs then Inl ''UndefinedColumn''
      else if \<not> list_all (\<lambda>r. case rule_target r of None \<Rightarrow> True
               | Some (t, k) \<Rightarrow> (case table_of t d of None \<Rightarrow> False | Some u \<Rightarrow> k \<in> set (column_names u))) rs
      then Inl ''UndefinedTable''
      else Inr (d @ [\<lparr>tb_name = name, tb_columns = cs, tb_rules = rs, tb_indexes = [], tb_rows = []\<rparr>]))"
| "run_operation now (Drop_table name) d =
     (if table_of name d = None then Inl ''UndefinedTable''
      else if list_ex (\<lambda>t. tb_name t \<noteq> name \<and> name \<in> fst ` set (targets t)) d then Inl ''DependentObjectsStillExist''
      else Inr (filter (\<lambda>t. tb_name t \<noteq> name) d))"
| "run_operation now (Create_index name table parts) d =
     (case table_of table d of
        None \<Rightarrow> Inl ''UndefinedTable''
      | Some t \<Rightarrow>
          (if name \<in> set (used_names d) then Inl ''DuplicateTable''
           else if \<not> part_column ` set parts \<subseteq> set (column_names t) then Inl ''UndefinedColumn''
           else Inr (change_table table (\<lambda>t. t\<lparr>tb_indexes := tb_indexes t @ [(name, parts)]\<rparr>) d)))"
| "run_operation now (Drop_index name table) d =
     (if name \<notin> set (index_names d) then Inl ''UndefinedObject''
      else Inr (map (\<lambda>t. t\<lparr>tb_indexes := filter (\<lambda>i. fst i \<noteq> name) (tb_indexes t)\<rparr>) d))"
| "run_operation now (Add_column table c) d =
     (case table_of table d of
        None \<Rightarrow> Inl ''UndefinedTable''
      | Some t \<Rightarrow>
          (if co_name c \<in> set (column_names t) then Inl ''DuplicateColumn''
           else if \<not> co_nullable c \<and> default_cell now (co_default c) = None \<and> tb_rows t \<noteq> [] then Inl ''NotNullViolation''
           else Inr (change_table table (\<lambda>t. t\<lparr>tb_columns := tb_columns t @ [c],
                  tb_rows := map (\<lambda>row. row @ [(co_name c, default_cell now (co_default c))]) (tb_rows t)\<rparr>) d)))"
| "run_operation now (Drop_column table c) d =
     (case table_of table d of
        None \<Rightarrow> Inl ''UndefinedTable''
      | Some t \<Rightarrow>
          (if c \<notin> set (column_names t) then Inl ''UndefinedColumn''
           else if list_ex (\<lambda>u. (table, c) \<in> set (targets u)) d then Inl ''DependentObjectsStillExist''
           else Inr (change_table table (\<lambda>t. t\<lparr>
                  tb_columns := filter (\<lambda>k. co_name k \<noteq> c) (tb_columns t),
                  tb_rules := filter (\<lambda>r. c \<notin> set (rule_columns r)) (tb_rules t),
                  tb_indexes := filter (\<lambda>i. c \<notin> part_column ` set (snd i)) (tb_indexes t),
                  tb_rows := map (filter (\<lambda>kv. fst kv \<noteq> c)) (tb_rows t)\<rparr>) d)))"
| "run_operation now (Set_nullable table c nullable) d =
     (case table_of table d of
        None \<Rightarrow> Inl ''UndefinedTable''
      | Some t \<Rightarrow>
          (if c \<notin> set (column_names t) then Inl ''UndefinedColumn''
           else if \<not> nullable \<and> list_ex (\<lambda>row. cell_of row c = None) (tb_rows t) then Inl ''NotNullViolation''
           else Inr (change_table table (\<lambda>t. t\<lparr>tb_columns :=
                  map (\<lambda>k. if co_name k = c then k\<lparr>co_nullable := nullable\<rparr> else k) (tb_columns t)\<rparr>) d)))"
| "run_operation now (Create_unique name table cs) d =
     (case table_of table d of
        None \<Rightarrow> Inl ''UndefinedTable''
      | Some t \<Rightarrow>
          (if name \<in> set (used_names d) then Inl ''DuplicateTable''
           else if \<not> set cs \<subseteq> set (column_names t) then Inl ''UndefinedColumn''
           else if duplicated cs (tb_rows t) then Inl ''UniqueViolation''
           else Inr (change_table table (\<lambda>t. t\<lparr>tb_rules := tb_rules t @ [Unique (Some name) cs]\<rparr>) d)))"
| "run_operation now (Drop_constraint name table) d =
     (case table_of table d of
        None \<Rightarrow> Inl ''UndefinedTable''
      | Some t \<Rightarrow>
          (if Some name \<notin> rule_name ` set (tb_rules t) then Inl ''UndefinedObject''
           else Inr (change_table table (\<lambda>t. t\<lparr>tb_rules := filter (\<lambda>r. rule_name r \<noteq> Some name) (tb_rules t)\<rparr>) d)))"

fun run_operations :: "string \<Rightarrow> operation list \<Rightarrow> table list \<Rightarrow> exn_name + table list" where
  "run_operations now [] d = Inr d"
| "run_operations now (op # ops) d = bindE (run_operation now op d) (run_operations now ops)"

section \<open>The migrations\<close>

definition col :: "string \<Rightarrow> column_type \<Rightarrow> column" where
  "col n t = \<lparr>co_name = n, co_type = t, co_nullable = False, co_default = No_default\<rparr>"

definition null_col :: "string \<Rightarrow> column_type \<Rightarrow> column" where
  "null_col n t = \<lparr>co_name = n, co_type = t, co_nullable = True, co_default = No_default\<rparr>"

definition now_col :: "string \<Rightarrow> column" where
  "now_col n = \<lparr>co_name = n, co_type = Timestamp_type, co_nullable = False, co_default = Now_default\<rparr>"

definition text_col :: "string \<Rightarrow> string \<Rightarrow> column" where
  \<comment> \<open>a text column with a server default\<close>
  "text_col n d = \<lparr>co_name = n, co_type = Text_type, co_nullable = False, co_default = Text_default d\<rparr>"

definition create_slack_event :: "operation list" where
  "create_slack_event =
     [Create_table ''slack_event''
        [col ''id'' Uuid_type, col ''slack_event_id'' Text_type, col ''event_type'' Text_type,
         col ''payload'' Jsonb_type, now_col ''received_at'', null_col ''processed_at'' Timestamp_type,
         null_col ''error'' Text_type]
        [Primary_key [''id''], Unique None [''slack_event_id'']],
      Create_index ''ix_slack_event_received'' ''slack_event'' [Descending ''received_at'']]"

definition create_conversation :: "operation list" where
  "create_conversation =
     [Create_table ''conversation''
        [col ''id'' Uuid_type, col ''slack_channel_id'' Text_type, col ''slack_thread_ts'' Text_type,
         col ''requester_slack_user_id'' Text_type, col ''state'' Text_type, null_col ''latest_question'' Text_type,
         now_col ''created_at'', now_col ''updated_at'']
        [Primary_key [''id''],
         Unique (Some ''uq_conversation_slack_thread'') [''slack_channel_id'', ''slack_thread_ts'']],
      Create_index ''ix_conversation_state_updated'' ''conversation'' [Column_part ''state'', Descending ''updated_at'']]"

definition create_message :: "operation list" where
  "create_message =
     [Create_table ''message''
        [col ''id'' Uuid_type, col ''conversation_id'' Uuid_type, col ''slack_channel_id'' Text_type,
         col ''slack_message_ts'' Text_type, col ''slack_thread_ts'' Text_type,
         null_col ''sender_slack_user_id'' Text_type, col ''direction'' Text_type, col ''kind'' Text_type,
         null_col ''text'' Text_type, null_col ''file_metadata'' Jsonb_type, null_col ''raw'' Jsonb_type,
         col ''event_at'' Timestamp_type, now_col ''created_at'', now_col ''updated_at'']
        [Foreign_key ''conversation_id'' ''conversation'' ''id'', Primary_key [''id''],
         Unique (Some ''uq_message_slack_identity'') [''slack_channel_id'', ''slack_message_ts'']],
      Create_index ''ix_message_conversation_event'' ''message''
        [Column_part ''conversation_id'', Column_part ''event_at'']]"

definition create_agent_run :: "operation list" where
  "create_agent_run =
     [Create_table ''agent_run''
        [col ''id'' Uuid_type, col ''conversation_id'' Uuid_type, null_col ''trigger_message_id'' Uuid_type,
         col ''status'' Text_type, null_col ''input_snapshot'' Jsonb_type, null_col ''steps'' Jsonb_type,
         null_col ''structured_result'' Jsonb_type, null_col ''output_message'' Text_type,
         null_col ''prompt_version'' Text_type, null_col ''model'' Text_type, null_col ''input_tokens'' Integer_type,
         null_col ''output_tokens'' Integer_type, null_col ''turns'' Integer_type, null_col ''tool_calls'' Integer_type,
         null_col ''latency_ms'' Integer_type, null_col ''started_at'' Timestamp_type,
         null_col ''finished_at'' Timestamp_type, null_col ''error_code'' Text_type,
         null_col ''error_detail'' Text_type, now_col ''created_at'', now_col ''updated_at'']
        [Foreign_key ''conversation_id'' ''conversation'' ''id'', Foreign_key ''trigger_message_id'' ''message'' ''id'',
         Primary_key [''id'']],
      Create_index ''ix_agent_run_conversation_created'' ''agent_run''
        [Column_part ''conversation_id'', Descending ''created_at''],
      Create_index ''ix_agent_run_status'' ''agent_run'' [Column_part ''status'']]"

definition create_tool_call :: "operation list" where
  "create_tool_call =
     [Create_table ''tool_call''
        [col ''id'' Uuid_type, col ''agent_run_id'' Uuid_type, col ''sequence'' Integer_type,
         col ''tool_name'' Text_type, col ''status'' Text_type, null_col ''input'' Jsonb_type,
         null_col ''output'' Jsonb_type, null_col ''duration_ms'' Integer_type, null_col ''error'' Text_type,
         now_col ''created_at'']
        [Foreign_key ''agent_run_id'' ''agent_run'' ''id'', Primary_key [''id''],
         Unique (Some ''uq_tool_call_run_sequence'') [''agent_run_id'', ''sequence'']],
      Create_index ''ix_tool_call_run'' ''tool_call'' [Column_part ''agent_run_id'']]"

definition create_slack_output :: "operation list" where
  "create_slack_output =
     [Create_table ''slack_output''
        [col ''id'' Uuid_type, col ''conversation_id'' Uuid_type, col ''agent_run_id'' Uuid_type,
         col ''slack_channel_id'' Text_type, col ''slack_thread_ts'' Text_type,
         null_col ''slack_message_ts'' Text_type, col ''idempotency_key'' Text_type, col ''body'' Text_type,
         col ''status'' Text_type, col ''attempts'' Integer_type, null_col ''last_error'' Text_type,
         null_col ''sent_at'' Timestamp_type, now_col ''created_at'', now_col ''updated_at'']
        [Foreign_key ''agent_run_id'' ''agent_run'' ''id'', Foreign_key ''conversation_id'' ''conversation'' ''id'',
         Primary_key [''id''], Unique None [''idempotency_key''], Unique None [''slack_message_ts'']],
      Create_index ''ix_slack_output_status'' ''slack_output'' [Column_part ''status'']]"

definition create_feedback :: "operation list" where
  "create_feedback =
     [Create_table ''feedback''
        [col ''id'' Uuid_type, col ''conversation_id'' Uuid_type, null_col ''agent_run_id'' Uuid_type,
         col ''slack_channel_id'' Text_type, col ''slack_message_ts'' Text_type, col ''slack_user_id'' Text_type,
         col ''reaction'' Text_type, col ''sentiment'' Text_type, col ''is_active'' Boolean_type,
         now_col ''created_at'', now_col ''updated_at'']
        [Foreign_key ''agent_run_id'' ''agent_run'' ''id'', Foreign_key ''conversation_id'' ''conversation'' ''id'',
         Primary_key [''id''],
         Unique (Some ''uq_feedback_reaction'')
           [''slack_channel_id'', ''slack_message_ts'', ''slack_user_id'', ''reaction'']],
      Create_index ''ix_feedback_run'' ''feedback'' [Column_part ''agent_run_id'']]"

record migration =
  mg_revision :: string
  mg_down_revision :: "string option"
  mg_upgrade :: "operation list"
  mg_downgrade :: "operation list"

definition foundation_downgrade :: "operation list" where
  "foundation_downgrade =
     [Drop_index ''ix_feedback_run'' ''feedback'', Drop_table ''feedback'',
      Drop_index ''ix_slack_output_status'' ''slack_output'', Drop_table ''slack_output'',
      Drop_index ''ix_tool_call_run'' ''tool_call'', Drop_table ''tool_call'',
      Drop_index ''ix_agent_run_status'' ''agent_run'', Drop_index ''ix_agent_run_conversation_created'' ''agent_run'',
      Drop_table ''agent_run'',
      Drop_index ''ix_message_conversation_event'' ''message'', Drop_table ''message'',
      Drop_index ''ix_conversation_state_updated'' ''conversation'', Drop_table ''conversation'',
      Drop_index ''ix_slack_event_received'' ''slack_event'', Drop_table ''slack_event'']"

definition foundation :: migration where
  "foundation =
     \<lparr>mg_revision = ''20260828_0001'', mg_down_revision = None,
      mg_upgrade = create_slack_event @ create_conversation @ create_message @ create_agent_run
        @ create_tool_call @ create_slack_output @ create_feedback,
      mg_downgrade = foundation_downgrade\<rparr>"

definition slack_shell :: migration where
  "slack_shell =
     \<lparr>mg_revision = ''20260831_0002'', mg_down_revision = Some ''20260828_0001'',
      mg_upgrade =
        [Add_column ''slack_event'' (text_col ''disposition'' ''received''),
         Create_index ''ix_slack_event_disposition'' ''slack_event'' [Column_part ''disposition''],
         Add_column ''slack_output'' (text_col ''kind'' ''investigation''),
         Set_nullable ''slack_output'' ''agent_run_id'' True,
         Create_unique ''uq_agent_run_trigger_message'' ''agent_run'' [''trigger_message_id'']],
      mg_downgrade =
        [Drop_constraint ''uq_agent_run_trigger_message'' ''agent_run'',
         Set_nullable ''slack_output'' ''agent_run_id'' False,
         Drop_column ''slack_output'' ''kind'',
         Drop_index ''ix_slack_event_disposition'' ''slack_event'',
         Drop_column ''slack_event'' ''disposition'']\<rparr>"

definition agents_sdk :: migration where
  "agents_sdk =
     \<lparr>mg_revision = ''20260901_0003'', mg_down_revision = Some ''20260831_0002'',
      mg_upgrade =
        [Add_column ''agent_run'' (null_col ''knowledge_version'' Text_type),
         Add_column ''agent_run'' (null_col ''completion_reason'' Text_type)],
      mg_downgrade =
        [Drop_column ''agent_run'' ''completion_reason'', Drop_column ''agent_run'' ''knowledge_version'']\<rparr>"

definition replica_audit :: migration where
  "replica_audit =
     \<lparr>mg_revision = ''20260901_0004'', mg_down_revision = Some ''20260901_0003'',
      mg_upgrade =
        [Add_column ''tool_call'' (null_col ''query_fingerprint'' Text_type),
         Add_column ''tool_call'' (null_col ''referenced_relations'' Jsonb_type),
         Add_column ''tool_call'' (null_col ''row_count'' Integer_type),
         Add_column ''tool_call'' (null_col ''truncated'' Boolean_type)],
      mg_downgrade =
        [Drop_column ''tool_call'' ''truncated'', Drop_column ''tool_call'' ''row_count'',
         Drop_column ''tool_call'' ''referenced_relations'', Drop_column ''tool_call'' ''query_fingerprint'']\<rparr>"

definition runtime_heartbeat :: migration where
  "runtime_heartbeat =
     \<lparr>mg_revision = ''20260902_0005'', mg_down_revision = Some ''20260901_0004'',
      mg_upgrade =
        [Create_table ''runtime_heartbeat''
           [col ''component'' Text_type, col ''instance_id'' Text_type, col ''status'' Text_type,
            col ''version'' Text_type, now_col ''started_at'', now_col ''last_seen_at'',
            null_col ''detail_code'' Text_type]
           [Primary_key [''component'']],
         Create_index ''ix_runtime_heartbeat_last_seen'' ''runtime_heartbeat'' [Column_part ''last_seen_at'']],
      mg_downgrade =
        [Drop_index ''ix_runtime_heartbeat_last_seen'' ''runtime_heartbeat'', Drop_table ''runtime_heartbeat'']\<rparr>"

definition conversational_routing :: migration where
  "conversational_routing =
     \<lparr>mg_revision = ''20260907_0006'', mg_down_revision = Some ''20260902_0005'',
      mg_upgrade =
        [Add_column ''agent_run'' (text_col ''request_kind'' ''payment_identification''),
         Create_index ''ix_agent_run_request_kind'' ''agent_run'' [Column_part ''request_kind'']],
      mg_downgrade =
        [Drop_index ''ix_agent_run_request_kind'' ''agent_run'', Drop_column ''agent_run'' ''request_kind'']\<rparr>"

definition migrations :: "migration list" where
  "migrations = [foundation, slack_shell, agents_sdk, replica_audit, runtime_heartbeat, conversational_routing]"

definition migration_heads :: "string list" where
  \<comment> \<open>the revisions no other revision builds on\<close>
  "migration_heads =
     filter (\<lambda>r. Some r \<notin> set (map mg_down_revision migrations)) (map mg_revision migrations)"

record managed_db =
  md_revision :: "string option"
  md_tables :: "table list"

fun run_upgrades :: "string \<Rightarrow> migration list \<Rightarrow> managed_db \<Rightarrow> exn_name + managed_db" where
  "run_upgrades now [] db = Inr db"
| "run_upgrades now (m # ms) db =
     (if md_revision db \<noteq> mg_down_revision m then Inl ''CommandError''
      else bindE (run_operations now (mg_upgrade m) (md_tables db)) (\<lambda>d.
             run_upgrades now ms \<lparr>md_revision = Some (mg_revision m), md_tables = d\<rparr>))"

definition run_migrations :: "string \<Rightarrow> migration list \<Rightarrow> managed_db \<Rightarrow> (exn_name + unit) \<times> managed_db" where
  \<comment> \<open>one transaction around all of them\<close>
  "run_migrations now ms db =
     (case run_upgrades now ms db of Inl e \<Rightarrow> (Inl e, db) | Inr db' \<Rightarrow> (Inr (), db'))"

definition include_object :: "string option \<Rightarrow> string \<Rightarrow> bool" where
  "include_object name type =
     (\<not> (type = ''table'' \<and> (case name of None \<Rightarrow> False | Some n \<Rightarrow> starts_with ''procrastinate_'' n)))"

section \<open>The declared models\<close>

definition timestamps :: "column list" where
  "timestamps = [now_col ''created_at'', now_col ''updated_at'']"

definition declared ::
  "string \<Rightarrow> column list \<Rightarrow> rule list \<Rightarrow> (string \<times> index_part list) list \<Rightarrow> table" where
  "declared name cs rs ixs = \<lparr>tb_name = name, tb_columns = cs, tb_rules = rs, tb_indexes = ixs, tb_rows = []\<rparr>"

definition slack_event_model :: table where
  "slack_event_model = declared ''slack_event''
     [col ''id'' Uuid_type, col ''slack_event_id'' Text_type, col ''event_type'' Text_type, col ''payload'' Jsonb_type,
      col ''disposition'' Text_type, now_col ''received_at'', null_col ''processed_at'' Timestamp_type,
      null_col ''error'' Text_type]
     [Primary_key [''id''], Unique None [''slack_event_id'']]
     [(''ix_slack_event_received'', [Descending ''received_at'']),
      (''ix_slack_event_disposition'', [Column_part ''disposition''])]"

definition conversation_model :: table where
  "conversation_model = declared ''conversation''
     ([col ''id'' Uuid_type, col ''slack_channel_id'' Text_type, col ''slack_thread_ts'' Text_type,
       col ''requester_slack_user_id'' Text_type, col ''state'' Text_type, null_col ''latest_question'' Text_type]
      @ timestamps)
     [Primary_key [''id''], Unique (Some ''uq_conversation_slack_thread'') [''slack_channel_id'', ''slack_thread_ts'']]
     [(''ix_conversation_state_updated'', [Column_part ''state'', Descending ''updated_at''])]"

definition message_model :: table where
  "message_model = declared ''message''
     ([col ''id'' Uuid_type, col ''conversation_id'' Uuid_type, col ''slack_channel_id'' Text_type,
       col ''slack_message_ts'' Text_type, col ''slack_thread_ts'' Text_type,
       null_col ''sender_slack_user_id'' Text_type, col ''direction'' Text_type, col ''kind'' Text_type,
       null_col ''text'' Text_type, null_col ''file_metadata'' Jsonb_type, null_col ''raw'' Jsonb_type,
       col ''event_at'' Timestamp_type] @ timestamps)
     [Primary_key [''id''], Foreign_key ''conversation_id'' ''conversation'' ''id'',
      Unique (Some ''uq_message_slack_identity'') [''slack_channel_id'', ''slack_message_ts'']]
     [(''ix_message_conversation_event'', [Column_part ''conversation_id'', Column_part ''event_at''])]"

definition agent_run_model :: table where
  "agent_run_model = declared ''agent_run''
     ([col ''id'' Uuid_type, col ''conversation_id'' Uuid_type, null_col ''trigger_message_id'' Uuid_type,
       col ''status'' Text_type, col ''request_kind'' Text_type, null_col ''input_snapshot'' Jsonb_type,
       null_col ''steps'' Jsonb_type, null_col ''structured_result'' Jsonb_type, null_col ''output_message'' Text_type,
       null_col ''prompt_version'' Text_type, null_col ''knowledge_version'' Text_type,
       null_col ''completion_reason'' Text_type, null_col ''model'' Text_type, null_col ''input_tokens'' Integer_type,
       null_col ''output_tokens'' Integer_type, null_col ''turns'' Integer_type, null_col ''tool_calls'' Integer_type,
       null_col ''latency_ms'' Integer_type, null_col ''started_at'' Timestamp_type,
       null_col ''finished_at'' Timestamp_type, null_col ''error_code'' Text_type,
       null_col ''error_detail'' Text_type] @ timestamps)
     [Primary_key [''id''], Foreign_key ''conversation_id'' ''conversation'' ''id'',
      Foreign_key ''trigger_message_id'' ''message'' ''id'',
      Unique (Some ''uq_agent_run_trigger_message'') [''trigger_message_id'']]
     [(''ix_agent_run_conversation_created'', [Column_part ''conversation_id'', Descending ''created_at'']),
      (''ix_agent_run_status'', [Column_part ''status'']), (''ix_agent_run_request_kind'', [Column_part ''request_kind''])]"

definition tool_call_model :: table where
  "tool_call_model = declared ''tool_call''
     [col ''id'' Uuid_type, col ''agent_run_id'' Uuid_type, col ''sequence'' Integer_type, col ''tool_name'' Text_type,
      col ''status'' Text_type, null_col ''input'' Jsonb_type, null_col ''output'' Jsonb_type,
      null_col ''duration_ms'' Integer_type, null_col ''error'' Text_type, null_col ''query_fingerprint'' Text_type,
      null_col ''referenced_relations'' Jsonb_type, null_col ''row_count'' Integer_type,
      null_col ''truncated'' Boolean_type, now_col ''created_at'']
     [Primary_key [''id''], Foreign_key ''agent_run_id'' ''agent_run'' ''id'',
      Unique (Some ''uq_tool_call_run_sequence'') [''agent_run_id'', ''sequence'']]
     [(''ix_tool_call_run'', [Column_part ''agent_run_id''])]"

definition slack_output_model :: table where
  "slack_output_model = declared ''slack_output''
     ([col ''id'' Uuid_type, col ''conversation_id'' Uuid_type, null_col ''agent_run_id'' Uuid_type,
       col ''slack_channel_id'' Text_type, col ''slack_thread_ts'' Text_type, null_col ''slack_message_ts'' Text_type,
       col ''idempotency_key'' Text_type, col ''body'' Text_type, col ''kind'' Text_type, col ''status'' Text_type,
       col ''attempts'' Integer_type, null_col ''last_error'' Text_type, null_col ''sent_at'' Timestamp_type]
      @ timestamps)
     [Primary_key [''id''], Foreign_key ''conversation_id'' ''conversation'' ''id'',
      Foreign_key ''agent_run_id'' ''agent_run'' ''id'', Unique None [''slack_message_ts''],
      Unique None [''idempotency_key'']]
     [(''ix_slack_output_status'', [Column_part ''status''])]"

definition feedback_model :: table where
  "feedback_model = declared ''feedback''
     [col ''id'' Uuid_type, col ''conversation_id'' Uuid_type, null_col ''agent_run_id'' Uuid_type,
      col ''slack_channel_id'' Text_type, col ''slack_message_ts'' Text_type, col ''slack_user_id'' Text_type,
      col ''reaction'' Text_type, col ''sentiment'' Text_type, col ''is_active'' Boolean_type,
      now_col ''created_at'', now_col ''updated_at'']
     [Primary_key [''id''], Foreign_key ''conversation_id'' ''conversation'' ''id'',
      Foreign_key ''agent_run_id'' ''agent_run'' ''id'',
      Unique (Some ''uq_feedback_reaction'') [''slack_channel_id'', ''slack_message_ts'', ''slack_user_id'', ''reaction'']]
     [(''ix_feedback_run'', [Column_part ''agent_run_id''])]"

definition runtime_heartbeat_model :: table where
  "runtime_heartbeat_model = declared ''runtime_heartbeat''
     [col ''component'' Text_type, col ''instance_id'' Text_type, col ''status'' Text_type, col ''version'' Text_type,
      now_col ''started_at'', now_col ''last_seen_at'', null_col ''detail_code'' Text_type]
     [Primary_key [''component'']]
     [(''ix_runtime_heartbeat_last_seen'', [Column_part ''last_seen_at''])]"

definition declared_models :: "table list" where
  "declared_models =
     [slack_event_model, conversation_model, message_model, agent_run_model, tool_call_model, slack_output_model,
      feedback_model, runtime_heartbeat_model]"

section \<open>The migrations build the models\<close>

definition shape :: "column \<Rightarrow> string \<times> column_type \<times> bool" where
  "shape c = (co_name c, co_type c, co_nullable c)"

definition same_table :: "table \<Rightarrow> table \<Rightarrow> bool" where
  \<comment> \<open>up to the order in which columns, constraints and indexes were added\<close>
  "same_table a b \<longleftrightarrow> tb_name a = tb_name b
     \<and> set (map shape (tb_columns a)) = set (map shape (tb_columns b))
     \<and> length (tb_columns a) = length (tb_columns b)
     \<and> set (tb_rules a) = set (tb_rules b) \<and> set (tb_indexes a) = set (tb_indexes b)"

definition server_defaults :: "table list \<Rightarrow> (string \<times> string \<times> column_default) list" where
  "server_defaults d =
     concat (map (\<lambda>t. map (\<lambda>c. (tb_name t, co_name c, co_default c))
       (filter (\<lambda>c. co_default c \<noteq> No_default) (tb_columns t))) d)"

lemma migrations_build:
  "case run_upgrades now migrations \<lparr>md_revision = None, md_tables = []\<rparr> of
     Inl _ \<Rightarrow> False
   | Inr db \<Rightarrow> migration_heads = [''20260907_0006''] \<and> md_revision db = Some ''20260907_0006''
       \<and> list_all2 same_table (md_tables db) declared_models
       \<and> filter (\<lambda>x. x \<notin> set (server_defaults declared_models)) (server_defaults (md_tables db)) =
           [(''slack_event'', ''disposition'', Text_default ''received''),
            (''agent_run'', ''request_kind'', Text_default ''payment_identification''),
            (''slack_output'', ''kind'', Text_default ''investigation'')]
       \<and> set (server_defaults declared_models) \<subseteq> set (server_defaults (md_tables db))"
  by code_simp

lemma set_extend: "filter (\<lambda>x. x \<notin> set ys) xs = zs \<Longrightarrow> set ys \<subseteq> set xs \<Longrightarrow> set xs = set ys \<union> set zs"
  by auto


end
