(* ===== verification/Migrations.thy ===== *)
theory Migrations
  imports Schema
begin

text \<open>
  Migrating a database that holds data: every operation keeps the database well formed, the downgrade
  of each migration undoes its upgrade row by row, and the exact conditions under which the data
  stand in the way of an upgrade or of a rollback.
\<close>

section \<open>Well-formed databases\<close>

definition table_ok :: "table \<Rightarrow> bool" where
  "table_ok t \<longleftrightarrow> distinct (column_names t)
     \<and> (\<forall>r \<in> set (tb_rules t). set (rule_columns r) \<subseteq> set (column_names t))
     \<and> (\<forall>i \<in> set (tb_indexes t). part_column ` set (snd i) \<subseteq> set (column_names t))
     \<and> (\<forall>row \<in> set (tb_rows t). map fst row = column_names t
          \<and> (\<forall>c \<in> set (tb_columns t). \<not> co_nullable c \<longrightarrow> cell_of row (co_name c) \<noteq> None))"

definition target_ok :: "table list \<Rightarrow> string \<times> string \<Rightarrow> bool" where
  "target_ok d uk \<longleftrightarrow> (\<exists>u. table_of (fst uk) d = Some u \<and> snd uk \<in> set (column_names u))"

definition database_ok :: "table list \<Rightarrow> bool" where
  "database_ok d \<longleftrightarrow> distinct (used_names d) \<and> (\<forall>t \<in> set d. table_ok t)
     \<and> (\<forall>t \<in> set d. \<forall>uk \<in> set (targets t). target_ok d uk)"

definition bare :: "table list \<Rightarrow> table list" where
  \<comment> \<open>the schema of a database: its tables without their rows\<close>
  "bare d = map (\<lambda>t. t\<lparr>tb_rows := []\<rparr>) d"

definition schema_after :: "nat \<Rightarrow> table list" where
  "schema_after k =
     (case run_operations [] (concat (map mg_upgrade (take k migrations))) [] of Inr d \<Rightarrow> d | Inl _ \<Rightarrow> [])"

definition at_revision :: "nat \<Rightarrow> table list \<Rightarrow> bool" where
  "at_revision k d \<longleftrightarrow> database_ok d \<and> bare d = schema_after k"

section \<open>Looking up and changing tables\<close>

lemma table_of_change:
  assumes "\<And>t. tb_name (f t) = tb_name t"
  shows "table_of other (change_table name f d) =
     (if other = name then map_option f (table_of name d) else table_of other d)"
  using assms by (induction d) (auto simp: table_of_def change_table_def)

lemma table_of_Some: "table_of name d = Some t \<Longrightarrow> t \<in> set d \<and> tb_name t = name"
  by (auto simp: table_of_def find_Some_iff)

lemma table_of_None: "table_of name d = None \<longleftrightarrow> name \<notin> tb_name ` set d"
  by (auto simp: table_of_def find_None_iff)

lemma table_of_mem: "distinct (map tb_name d) \<Longrightarrow> t \<in> set d \<Longrightarrow> table_of (tb_name t) d = Some t"
  by (induction d) (auto simp: table_of_def)

lemma change_undone:
  assumes "\<And>t. tb_name (f t) = tb_name t" "\<And>t. t \<in> set d \<Longrightarrow> tb_name t = name \<Longrightarrow> g (f t) = t"
  shows "change_table name g (change_table name f d) = d"
  using assms(2) by (induction d) (auto simp: change_table_def assms(1))

lemma names_change: "(\<And>t. tb_name (f t) = tb_name t) \<Longrightarrow> map tb_name (change_table name f d) = map tb_name d"
  by (induction d) (auto simp: change_table_def)

lemma used_names_mset:
  assumes "\<And>t. tb_name (f t) = tb_name t" "distinct (map tb_name d)" "table_of name d = Some t"
    "mset (map fst (tb_indexes (f t)) @ List.map_filter rule_name (tb_rules (f t))) =
       mset (map fst (tb_indexes t) @ List.map_filter rule_name (tb_rules t)) + extra"
  shows "mset (used_names (change_table name f d)) = mset (used_names d) + extra"
proof -
  have "mset (index_names (change_table name f d) @ rule_names (change_table name f d)) =
      mset (index_names d @ rule_names d) + extra"
    using assms(2-4)
  proof (induction d)
    case (Cons u d)
    show ?case
    proof (cases "tb_name u = name")
      case True
      then have "tb_name x \<noteq> name" if "x \<in> set d" for x
        using Cons.prems(1) True that by (metis distinct.simps(2) imageI list.set_map list.simps(9))
      then have "change_table name f d = d"
        by (simp add: change_table_def map_idI)
      with True Cons.prems show ?thesis
        by (auto simp: change_table_def index_names_def rule_names_def table_of_def)
    next
      case False
      with Cons show ?thesis by (simp add: change_table_def index_names_def rule_names_def table_of_def)
    qed
  qed (simp add: table_of_def)
  then show ?thesis using names_change [OF assms(1)] by (simp add: used_names_def)
qed

lemma distinct_add_name:
  "mset xs = mset ys + extra \<Longrightarrow> distinct ys \<Longrightarrow> extra = {#} \<or> extra = {#n#} \<and> n \<notin> set ys \<Longrightarrow> distinct xs"
  by (metis distinct.simps(2) mset.simps(2) add.right_neutral add_mset_add_single mset_eq_imp_distinct_iff)

lemma ok_change:
  assumes ok: "database_ok d" and t: "table_of name d = Some t"
    and f: "\<And>t. tb_name (f t) = tb_name t"
    and names: "mset (map fst (tb_indexes (f t)) @ List.map_filter rule_name (tb_rules (f t))) =
       mset (map fst (tb_indexes t) @ List.map_filter rule_name (tb_rules t)) + extra"
    and fresh: "extra = {#} \<or> extra = {#n#} \<and> n \<notin> set (used_names d)"
    and table: "table_ok (f t)" "targets (f t) = targets t" "set (column_names t) \<subseteq> set (column_names (f t))"
  shows "database_ok (change_table name f d)"
proof -
  have tables: "distinct (map tb_name d)" using ok by (simp add: database_ok_def used_names_def)
  have only: "u = t" if "u \<in> set d" "tb_name u = name" for u
    using table_of_mem [OF tables that(1)] that(2) t by simp
  have "distinct (used_names (change_table name f d))"
    using distinct_add_name [OF used_names_mset [OF f tables t names] _ fresh] ok by (simp add: database_ok_def)
  moreover have "table_ok u" if "u \<in> set (change_table name f d)" for u
    using that ok table(1) only by (auto simp: change_table_def database_ok_def split: if_splits)
  moreover have "target_ok (change_table name f d) uk" if "u \<in> set (change_table name f d)" "uk \<in> set (targets u)" for u uk
  proof -
    have "target_ok d uk"
      using that ok only table(2) by (auto simp: change_table_def database_ok_def split: if_splits)
    then show ?thesis
      using table(3) t by (auto simp: target_ok_def table_of_change [OF f] split: if_splits)
  qed
  ultimately show ?thesis by (simp add: database_ok_def)
qed

section \<open>Undoing an operation\<close>

lemma column_names_extend [simp]:
  "column_names (t\<lparr>tb_indexes := xs\<rparr>) = column_names t" "column_names (t\<lparr>tb_rules := ys\<rparr>) = column_names t"
  "column_names (t\<lparr>tb_rows := zs\<rparr>) = column_names t" "column_names (t\<lparr>tb_columns := cs\<rparr>) = map co_name cs"
  by (simp_all add: column_names_def)

lemma targets_extend [simp]:
  "targets (t\<lparr>tb_indexes := xs\<rparr>) = targets t" "targets (t\<lparr>tb_rows := zs\<rparr>) = targets t"
  "targets (t\<lparr>tb_columns := cs\<rparr>) = targets t"
  by (simp_all add: targets_def)

fun inverse_of :: "operation \<Rightarrow> operation option" where
  "inverse_of (Create_table name cs rs) = Some (Drop_table name)"
| "inverse_of (Create_index name t parts) = Some (Drop_index name t)"
| "inverse_of (Add_column t c) = Some (Drop_column t (co_name c))"
| "inverse_of (Set_nullable t c b) = (if b then Some (Set_nullable t c False) else None)"
| "inverse_of (Create_unique name t cs) = Some (Drop_constraint name t)"
| "inverse_of _ = None"

fun reversible :: "operation \<Rightarrow> table list \<Rightarrow> bool" where
  \<comment> \<open>a column that is made nullable was not before\<close>
  "reversible (Set_nullable name c b) d =
     (case table_of name d of
        None \<Rightarrow> False
      | Some t \<Rightarrow> list_all (\<lambda>k. co_name k = c \<longrightarrow> \<not> co_nullable k) (tb_columns t))"
| "reversible _ d = True"

lemma ok_tables: "database_ok d \<Longrightarrow> distinct (map tb_name d)"
  by (simp add: database_ok_def used_names_def)

lemma ok_table: "database_ok d \<Longrightarrow> t \<in> set d \<Longrightarrow> table_ok t"
  by (simp add: database_ok_def)

lemma only_table: "database_ok d \<Longrightarrow> table_of name d = Some t \<Longrightarrow> u \<in> set d \<Longrightarrow> tb_name u = name \<Longrightarrow> u = t"
  using table_of_mem [of d u] ok_tables by fastforce

lemma filter_all: "(\<forall>x \<in> set xs. P x) \<Longrightarrow> filter P xs = xs"
  by (induction xs) auto

lemma not_named: "n \<notin> f ` S \<Longrightarrow> x \<in> S \<Longrightarrow> f x \<noteq> n"
  by (metis imageI)

lemma undo_create_table:
  assumes "database_ok d" "run_operation now (Create_table name cs rs) d = Inr d'"
  shows "run_operation now' (Drop_table name) d' = Inr d"
proof -
  have fresh: "name \<notin> tb_name ` set d" and d': "d' = d @ [\<lparr>tb_name = name, tb_columns = cs, tb_rules = rs, tb_indexes = [], tb_rows = []\<rparr>]"
    using assms(2) by (auto simp: used_names_def split: if_splits)
  have "fst uk \<noteq> name" if "t \<in> set d" "uk \<in> set (targets t)" for t uk
    using assms(1) that fresh by (force simp: database_ok_def target_ok_def dest: table_of_Some)
  then have "\<not> list_ex (\<lambda>t. tb_name t \<noteq> name \<and> name \<in> fst ` set (targets t)) d'"
    by (auto simp: d' list_ex_iff)
  moreover have "filter (\<lambda>t. tb_name t \<noteq> name) d = d"
    using fresh by (intro filter_all) auto
  moreover have "table_of name d' \<noteq> None" by (simp add: d' table_of_None)
  ultimately show ?thesis by (simp add: d')
qed

lemma undo_create_index:
  assumes "database_ok d" "run_operation now (Create_index name table parts) d = Inr d'"
  shows "run_operation now' (Drop_index name table) d' = Inr d"
proof -
  obtain t where t: "table_of table d = Some t" and fresh: "name \<notin> set (index_names d)"
    and d': "d' = change_table table (\<lambda>t. t\<lparr>tb_indexes := tb_indexes t @ [(name, parts)]\<rparr>) d"
    using assms(2) by (auto simp: used_names_def split: option.splits if_splits)
  have "name \<in> set (index_names d')"
    using table_of_Some [OF t] by (force simp: d' index_names_def change_table_def)
  moreover have "u\<lparr>tb_indexes := filter (\<lambda>i. fst i \<noteq> name) (tb_indexes u)\<rparr> = u" if "u \<in> set d" for u
  proof -
    have "filter (\<lambda>i. fst i \<noteq> name) (tb_indexes u) = tb_indexes u"
      using fresh that by (intro filter_all) (auto simp: index_names_def)
    then show ?thesis by simp
  qed
  then have "map (\<lambda>t. t\<lparr>tb_indexes := filter (\<lambda>i. fst i \<noteq> name) (tb_indexes t)\<rparr>) d' = d"
    by (auto simp: d' change_table_def intro!: map_idI)
  ultimately show ?thesis by simp
qed

lemma undo_add_column:
  assumes "database_ok d" "run_operation now (Add_column table c) d = Inr d'"
  shows "run_operation now' (Drop_column table (co_name c)) d' = Inr d"
proof -
  let ?f = "\<lambda>t. t\<lparr>tb_columns := tb_columns t @ [c],
      tb_rows := map (\<lambda>row. row @ [(co_name c, default_cell now (co_default c))]) (tb_rows t)\<rparr>"
  let ?g = "\<lambda>t. t\<lparr>tb_columns := filter (\<lambda>k. co_name k \<noteq> co_name c) (tb_columns t),
      tb_rules := filter (\<lambda>r. co_name c \<notin> set (rule_columns r)) (tb_rules t),
      tb_indexes := filter (\<lambda>i. co_name c \<notin> part_column ` set (snd i)) (tb_indexes t),
      tb_rows := map (filter (\<lambda>kv. fst kv \<noteq> co_name c)) (tb_rows t)\<rparr>"
  obtain t where t: "table_of table d = Some t" and fresh: "co_name c \<notin> set (column_names t)"
    and d': "d' = change_table table ?f d"
    using assms(2) by (auto split: option.splits if_splits)
  have ok: "table_ok t" using ok_table [OF assms(1)] table_of_Some [OF t] by blast
  have "?g (?f t) = t"
  proof -
    have "filter (\<lambda>k. co_name k \<noteq> co_name c) (tb_columns t) = tb_columns t"
      using fresh by (intro filter_all ballI not_named) (simp_all add: column_names_def)
    moreover have "filter (\<lambda>r. co_name c \<notin> set (rule_columns r)) (tb_rules t) = tb_rules t"
      using ok fresh by (intro filter_all) (auto simp: table_ok_def)
    moreover have "filter (\<lambda>i. co_name c \<notin> part_column ` set (snd i)) (tb_indexes t) = tb_indexes t"
      using ok fresh unfolding table_ok_def by (intro filter_all) blast
    moreover have "filter (\<lambda>kv. fst kv \<noteq> co_name c) row = row" if "row \<in> set (tb_rows t)" for row
    proof (intro filter_all ballI)
      fix kv assume "kv \<in> set row"
      then have "fst kv \<in> set (column_names t)"
        using ok that by (metis (no_types, lifting) image_eqI list.set_map table_ok_def)
      then show "fst kv \<noteq> co_name c" using fresh by metis
    qed
    then have "map (filter (\<lambda>kv. fst kv \<noteq> co_name c) \<circ> (\<lambda>row. row @ [(co_name c, default_cell now (co_default c))])) (tb_rows t) = tb_rows t"
      by (intro map_idI) simp
    ultimately show ?thesis by simp
  qed
  then have undone: "change_table table ?g d' = d"
    unfolding d' using only_table [OF assms(1) t] by (intro change_undone) auto
  have "(table, co_name c) \<notin> set (targets u)" if "u \<in> set d" for u
  proof
    assume "(table, co_name c) \<in> set (targets u)"
    then have "target_ok d (table, co_name c)" using assms(1) that unfolding database_ok_def by blast
    then show False using t fresh by (simp add: target_ok_def)
  qed
  then have "\<not> list_ex (\<lambda>u. (table, co_name c) \<in> set (targets u)) d'"
    by (auto simp: d' change_table_def list_ex_iff)
  moreover have "table_of table d' = Some (?f t)"
    unfolding d' by (subst table_of_change) (simp_all add: t)
  ultimately show ?thesis using undone by (simp add: column_names_def)
qed

lemma undo_set_nullable:
  assumes "database_ok d" "run_operation now (Set_nullable table c True) d = Inr d'"
    "reversible (Set_nullable table c True) d"
  shows "run_operation now' (Set_nullable table c False) d' = Inr d"
proof -
  let ?h = "\<lambda>b t. t\<lparr>tb_columns := map (\<lambda>k. if co_name k = c then k\<lparr>co_nullable := b\<rparr> else k) (tb_columns t)\<rparr>"
  obtain t where t: "table_of table d = Some t" and c: "c \<in> set (column_names t)"
    and d': "d' = change_table table (?h True) d"
    using assms(2) by (auto split: option.splits if_splits)
  have strict: "\<forall>k \<in> set (tb_columns t). co_name k = c \<longrightarrow> \<not> co_nullable k"
    using assms(3) t by (simp add: list_all_iff)
  have ok: "table_ok t" using ok_table [OF assms(1)] table_of_Some [OF t] by blast
  have "cell_of row c \<noteq> None" if "row \<in> set (tb_rows t)" for row
    using ok that c strict by (auto simp: table_ok_def column_names_def)
  moreover have "?h False (?h True t) = t"
  proof -
    have "map ((\<lambda>k. if co_name k = c then k\<lparr>co_nullable := False\<rparr> else k) \<circ>
        (\<lambda>k. if co_name k = c then k\<lparr>co_nullable := True\<rparr> else k)) (tb_columns t) = tb_columns t"
      using strict by (intro map_idI) auto
    then show ?thesis by simp
  qed
  then have "change_table table (?h False) d' = d"
    unfolding d' using only_table [OF assms(1) t] by (intro change_undone) auto
  moreover have "table_of table d' = Some (?h True t)"
    unfolding d' by (subst table_of_change) (simp_all add: t)
  moreover have "column_names (?h True t) = column_names t"
    by (auto simp: column_names_def)
  ultimately show ?thesis using c by (simp add: list_ex_iff)
qed

lemma undo_create_unique:
  assumes "database_ok d" "run_operation now (Create_unique name table cs) d = Inr d'"
  shows "run_operation now' (Drop_constraint name table) d' = Inr d"
proof -
  let ?f = "\<lambda>t. t\<lparr>tb_rules := tb_rules t @ [Unique (Some name) cs]\<rparr>"
  let ?g = "\<lambda>t. t\<lparr>tb_rules := filter (\<lambda>r. rule_name r \<noteq> Some name) (tb_rules t)\<rparr>"
  obtain t where t: "table_of table d = Some t" and fresh: "name \<notin> set (rule_names d)"
    and d': "d' = change_table table ?f d"
    using assms(2) by (auto simp: used_names_def split: option.splits if_splits)
  have "rule_name r \<noteq> Some name" if "u \<in> set d" "r \<in> set (tb_rules u)" for u r
    using fresh that by (force simp: rule_names_def List.map_filter_def)
  then have "filter (\<lambda>r. rule_name r \<noteq> Some name) (tb_rules t) = tb_rules t"
    using table_of_Some [OF t] by (intro filter_all) blast
  then have "?g (?f t) = t" by simp
  then have "change_table table ?g d' = d"
    unfolding d' using only_table [OF assms(1) t] by (intro change_undone) auto
  moreover have "table_of table d' = Some (?f t)"
    unfolding d' by (subst table_of_change) (simp_all add: t)
  ultimately show ?thesis by simp
qed

lemma undo_operation:
  assumes "database_ok d" "run_operation now op d = Inr d'" "inverse_of op = Some op'" "reversible op d"
  shows "run_operation now' op' d' = Inr d"
  using assms undo_create_table undo_create_index undo_add_column undo_set_nullable undo_create_unique
  by (cases op) (auto simp del: run_operation.simps reversible.simps split: if_splits)

section \<open>Operations keep the database well formed\<close>

lemma table_of_append: "table_of name (d @ e) = (case table_of name d of None \<Rightarrow> table_of name e | Some t \<Rightarrow> Some t)"
  by (induction d) (simp_all add: table_of_def)

lemma ok_create_table:
  assumes "database_ok d" "run_operation now (Create_table name cs rs) d = Inr d'"
  shows "database_ok d'"
proof -
  let ?t = "\<lparr>tb_name = name, tb_columns = cs, tb_rules = rs, tb_indexes = [], tb_rows = []\<rparr>"
  have d': "d' = d @ [?t]" and names: "distinct (name # List.map_filter rule_name rs @ used_names d)"
    and cs: "distinct (map co_name cs)" "\<forall>r \<in> set rs. set (rule_columns r) \<subseteq> co_name ` set cs"
    and ts: "\<forall>r \<in> set rs. case rule_target r of None \<Rightarrow> True
               | Some (t, k) \<Rightarrow> (case table_of t d of None \<Rightarrow> False | Some u \<Rightarrow> k \<in> set (column_names u))"
    using assms(2) by (simp_all add: list_all_iff split: if_splits)
  have "mset (used_names d') = mset (name # List.map_filter rule_name rs @ used_names d)"
    by (simp add: d' used_names_def index_names_def rule_names_def)
  then have "distinct (used_names d')" using names by (metis mset_eq_imp_distinct_iff)
  moreover have "table_ok ?t" using cs by (auto simp: table_ok_def column_names_def)
  moreover have grown: "target_ok d' uk" if "target_ok d uk" for uk
    using that by (auto simp: target_ok_def d' table_of_append split: option.splits)
  moreover have "target_ok d uk" if "uk \<in> set (targets ?t)" for uk
    using ts that by (force simp: targets_def List.map_filter_def target_ok_def split: option.splits)
  ultimately show ?thesis
    using assms(1) by (auto simp: database_ok_def d')
qed

lemma ok_create_index:
  assumes "database_ok d" "run_operation now (Create_index name table parts) d = Inr d'"
  shows "database_ok d'"
proof -
  obtain t where t: "table_of table d = Some t" and fresh: "name \<notin> set (used_names d)"
    and parts: "part_column ` set parts \<subseteq> set (column_names t)"
    and d': "d' = change_table table (\<lambda>t. t\<lparr>tb_indexes := tb_indexes t @ [(name, parts)]\<rparr>) d"
    using assms(2) by (auto split: option.splits if_splits)
  have "table_ok t" using ok_table [OF assms(1)] table_of_Some [OF t] by blast
  then show ?thesis
    unfolding d' using fresh parts
    by (intro ok_change [OF assms(1) t, where extra = "{#name#}" and n = name])
      (auto simp: table_ok_def targets_def)
qed

lemma ok_create_unique:
  assumes "database_ok d" "run_operation now (Create_unique name table cs) d = Inr d'"
  shows "database_ok d'"
proof -
  obtain t where t: "table_of table d = Some t" and fresh: "name \<notin> set (used_names d)"
    and cs: "set cs \<subseteq> set (column_names t)"
    and d': "d' = change_table table (\<lambda>t. t\<lparr>tb_rules := tb_rules t @ [Unique (Some name) cs]\<rparr>) d"
    using assms(2) by (auto split: option.splits if_splits)
  have "table_ok t" using ok_table [OF assms(1)] table_of_Some [OF t] by blast
  then show ?thesis
    unfolding d' using fresh cs
    by (intro ok_change [OF assms(1) t, where extra = "{#name#}" and n = name])
      (auto simp: table_ok_def targets_def List.map_filter_def)
qed

lemma cell_of_append:
  "cell_of (row @ [(c, v)]) k = (if k \<in> fst ` set row then cell_of row k else if k = c then v else None)"
  by (induction row) (auto simp: cell_of_def)

lemma ok_add_column:
  assumes "database_ok d" "run_operation now (Add_column table c) d = Inr d'"
  shows "database_ok d'"
proof -
  let ?v = "default_cell now (co_default c)"
  let ?f = "\<lambda>t. t\<lparr>tb_columns := tb_columns t @ [c], tb_rows := map (\<lambda>row. row @ [(co_name c, ?v)]) (tb_rows t)\<rparr>"
  obtain t where t: "table_of table d = Some t" and fresh: "co_name c \<notin> set (column_names t)"
    and filled: "co_nullable c \<or> ?v \<noteq> None \<or> tb_rows t = []" and d': "d' = change_table table ?f d"
    using assms(2) by (auto split: option.splits if_splits)
  have ok: "table_ok t" using ok_table [OF assms(1)] table_of_Some [OF t] by blast
  have names: "column_names (?f t) = column_names t @ [co_name c]" by (simp add: column_names_def)
  have "map fst (row @ [(co_name c, ?v)]) = column_names t @ [co_name c]
      \<and> (\<forall>k \<in> set (tb_columns t @ [c]). \<not> co_nullable k \<longrightarrow> cell_of (row @ [(co_name c, ?v)]) (co_name k) \<noteq> None)"
    if row: "row \<in> set (tb_rows t)" for row
  proof -
    have keys: "map fst row = column_names t" using ok row by (simp add: table_ok_def)
    then have inside: "k \<in> fst ` set row \<longleftrightarrow> k \<in> set (column_names t)" for k by (metis list.set_map)
    have "cell_of (row @ [(co_name c, ?v)]) (co_name k) \<noteq> None" if "k \<in> set (tb_columns t)" "\<not> co_nullable k" for k
    proof -
      have "co_name k \<in> fst ` set row" using that(1) inside by (simp add: column_names_def)
      then show ?thesis using ok row that unfolding table_ok_def by (metis cell_of_append)
    qed
    moreover have "cell_of (row @ [(co_name c, ?v)]) (co_name c) = ?v"
      using inside fresh by (simp add: cell_of_append)
    moreover have "co_nullable c \<or> ?v \<noteq> None" using filled row by auto
    ultimately show ?thesis using keys by auto
  qed
  then have rows: "\<forall>row \<in> set (tb_rows (?f t)). map fst row = column_names t @ [co_name c]
      \<and> (\<forall>k \<in> set (tb_columns t @ [c]). \<not> co_nullable k \<longrightarrow> cell_of row (co_name k) \<noteq> None)"
    by simp
  have "distinct (column_names t @ [co_name c])"
    and "\<forall>r \<in> set (tb_rules t). set (rule_columns r) \<subseteq> set (column_names t @ [co_name c])"
    and "\<forall>i \<in> set (tb_indexes t). part_column ` set (snd i) \<subseteq> set (column_names t @ [co_name c])"
  proof -
    have "set (column_names t) \<subseteq> set (column_names t @ [co_name c])" by auto
    then show "\<forall>r \<in> set (tb_rules t). set (rule_columns r) \<subseteq> set (column_names t @ [co_name c])"
      and "\<forall>i \<in> set (tb_indexes t). part_column ` set (snd i) \<subseteq> set (column_names t @ [co_name c])"
      using ok unfolding table_ok_def by (meson subset_trans)+
    show "distinct (column_names t @ [co_name c])" using ok fresh by (simp add: table_ok_def)
  qed
  with rows have "table_ok (?f t)" unfolding table_ok_def names by simp
  then show ?thesis
    unfolding d' by (intro ok_change [OF assms(1) t, where extra = "{#}" and n = table]) (auto simp: targets_def column_names_def)
qed

lemma ok_relax_column:
  assumes "database_ok d" "run_operation now (Set_nullable table c True) d = Inr d'"
  shows "database_ok d'"
proof -
  let ?f = "\<lambda>t. t\<lparr>tb_columns := map (\<lambda>k. if co_name k = c then k\<lparr>co_nullable := True\<rparr> else k) (tb_columns t)\<rparr>"
  obtain t where t: "table_of table d = Some t" and d': "d' = change_table table ?f d"
    using assms(2) by (auto split: option.splits if_splits)
  have ok: "table_ok t" using ok_table [OF assms(1)] table_of_Some [OF t] by blast
  have names: "column_names (?f t) = column_names t" by (simp add: column_names_def)
  have "table_ok (?f t)" using ok unfolding table_ok_def names by (auto split: if_splits)
  moreover have "set (column_names t) \<subseteq> set (column_names (?f t))" unfolding names by simp
  ultimately show ?thesis
    unfolding d' by (intro ok_change [OF assms(1) t, where extra = "{#}" and n = table]) (simp_all add: targets_def)
qed

lemma ok_operation:
  assumes "database_ok d" "run_operation now op d = Inr d'" "inverse_of op \<noteq> None"
  shows "database_ok d'"
proof (cases op)
  case (Set_nullable t c b)
  with assms(3) have "op = Set_nullable t c True" by (simp split: if_splits)
  with assms(1,2) show ?thesis using ok_relax_column by metis
next
  case (Create_table n cs rs)
  with assms(1,2) show ?thesis using ok_create_table by metis
next
  case (Create_index n t parts)
  with assms(1,2) show ?thesis using ok_create_index by metis
next
  case (Add_column t c)
  with assms(1,2) show ?thesis using ok_add_column by metis
next
  case (Create_unique n t cs)
  with assms(1,2) show ?thesis using ok_create_unique by metis
qed (use assms(3) in simp_all)

section \<open>Schema and data\<close>

lemma table_of_bare [simp]: "table_of name (bare d) = map_option (\<lambda>t. t\<lparr>tb_rows := []\<rparr>) (table_of name d)"
  by (induction d) (simp_all add: bare_def table_of_def)

lemma names_bare [simp]:
  "used_names (bare d) = used_names d" "index_names (bare d) = index_names d"
  by (simp_all add: bare_def used_names_def index_names_def rule_names_def comp_def)

lemma change_bare:
  assumes "\<And>t. tb_name (f t) = tb_name t" "\<And>t. f (t\<lparr>tb_rows := []\<rparr>) = (f t)\<lparr>tb_rows := []\<rparr>"
  shows "change_table name f (bare d) = bare (change_table name f d)"
  using assms by (simp add: change_table_def bare_def)

lemma bare_append: "bare (d @ e) = bare d @ bare e"
  by (simp add: bare_def)

lemma list_ex_bare: "(\<And>t. P (t\<lparr>tb_rows := []\<rparr>) = P t) \<Longrightarrow> list_ex P (bare d) = list_ex P d"
  by (induction d) (simp_all add: bare_def)

fun blocked :: "operation \<Rightarrow> table list \<Rightarrow> exn_name option" where
  \<comment> \<open>what the rows of a database can have against an operation\<close>
  "blocked (Add_column table c) d =
     (case table_of table d of
        Some t \<Rightarrow> if \<not> co_nullable c \<and> co_default c = No_default \<and> tb_rows t \<noteq> []
                  then Some ''NotNullViolation'' else None
      | None \<Rightarrow> None)"
| "blocked (Set_nullable table c b) d =
     (case table_of table d of
        Some t \<Rightarrow> if \<not> b \<and> list_ex (\<lambda>row. cell_of row c = None) (tb_rows t) then Some ''NotNullViolation'' else None
      | None \<Rightarrow> None)"
| "blocked (Create_unique name table cs) d =
     (case table_of table d of
        Some t \<Rightarrow> if duplicated cs (tb_rows t) then Some ''UniqueViolation'' else None
      | None \<Rightarrow> None)"
| "blocked _ d = None"

lemma default_None: "default_cell now v = None \<longleftrightarrow> v = No_default"
  by (cases v) (simp_all add: default_cell_def)

lemma no_duplicates: "\<not> duplicated cs []"
  by (simp add: duplicated_def)

lemma run_operation_bare:
  "run_operation now op (bare d) =
     (case run_operation now op d of
        Inr d' \<Rightarrow> Inr (bare d')
      | Inl e \<Rightarrow> (case blocked op d of None \<Rightarrow> Inl e | Some _ \<Rightarrow> run_operation now op (bare d)))"
proof (cases op)
  case (Drop_table name)
  have "filter (\<lambda>t. tb_name t \<noteq> name) (bare d) = bare (filter (\<lambda>t. tb_name t \<noteq> name) d)"
    by (induction d) (simp_all add: bare_def)
  moreover have "list_ex (\<lambda>t. tb_name t \<noteq> name \<and> name \<in> fst ` set (targets t)) (bare d) =
      list_ex (\<lambda>t. tb_name t \<noteq> name \<and> name \<in> fst ` set (targets t)) d"
    by (rule list_ex_bare) simp
  ultimately show ?thesis by (simp add: Drop_table)
next
  case (Create_table name cs rs)
  have "(\<lambda>r. case rule_target r of None \<Rightarrow> True
        | Some (t, k) \<Rightarrow> (case table_of t (bare d) of None \<Rightarrow> False | Some u \<Rightarrow> k \<in> set (column_names u))) =
      (\<lambda>r. case rule_target r of None \<Rightarrow> True
        | Some (t, k) \<Rightarrow> (case table_of t d of None \<Rightarrow> False | Some u \<Rightarrow> k \<in> set (column_names u)))"
    by (intro ext) (auto split: option.splits)
  then show ?thesis by (simp add: Create_table bare_append del: table_of_bare) (simp add: bare_def)
next
  case (Drop_index name table)
  have "map (\<lambda>t. t\<lparr>tb_indexes := filter (\<lambda>i. fst i \<noteq> name) (tb_indexes t)\<rparr>) (bare d) =
      bare (map (\<lambda>t. t\<lparr>tb_indexes := filter (\<lambda>i. fst i \<noteq> name) (tb_indexes t)\<rparr>) d)"
    by (simp add: bare_def comp_def)
  then show ?thesis by (simp add: Drop_index)
next
  case (Drop_column table c)
  have "list_ex (\<lambda>u. (table, c) \<in> set (targets u)) (bare d) = list_ex (\<lambda>u. (table, c) \<in> set (targets u)) d"
    by (rule list_ex_bare) simp
  then show ?thesis by (simp add: Drop_column change_bare split: option.splits)
next
  case (Set_nullable table c b)
  then show ?thesis by (cases b) (simp_all add: change_bare split: option.splits)
qed (simp_all add: change_bare default_None no_duplicates split: option.splits)

lemma run_operation_bareD: "run_operation now op d = Inr d' \<Longrightarrow> run_operation now op (bare d) = Inr (bare d')"
  using run_operation_bare [of now op d] by simp

lemma run_operation_clock: "run_operation now op (bare d) = run_operation now' op (bare d)"
  by (cases op) (auto simp: default_None change_table_def bare_def comp_def intro!: map_cong split: option.splits)

lemma run_operation_unblocked:
  assumes "run_operation now op (bare d) = Inr b" "blocked op d = None"
  shows "\<exists>d'. run_operation now op d = Inr d' \<and> bare d' = b"
  using assms run_operation_bare [of now op d] by (cases "run_operation now op d") auto

lemma reversible_bare: "reversible op (bare d) = reversible op d"
  by (cases op) (simp_all split: option.splits)

fun reversible_all :: "operation list \<Rightarrow> table list \<Rightarrow> bool" where
  "reversible_all [] d = True"
| "reversible_all (op # ops) d =
     (inverse_of op \<noteq> None \<and> reversible op d
      \<and> (case run_operation [] op d of Inl _ \<Rightarrow> False | Inr d' \<Rightarrow> reversible_all ops d'))"

lemma bindE_assoc: "bindE (bindE m f) g = bindE m (\<lambda>x. bindE (f x) g)"
  by (cases m) simp_all

lemma run_operations_append:
  "run_operations now (xs @ ys) d = bindE (run_operations now xs d) (run_operations now ys)"
  proof (induction xs arbitrary: d)
  case (Cons a xs)
  then show ?case by (cases "run_operation now a d") simp_all
qed simp

lemma undo_operations:
  assumes "database_ok d" "run_operations now ops d = Inr d'" "reversible_all ops (bare d)"
  shows "database_ok d' \<and> run_operations now' (rev (map (the \<circ> inverse_of) ops)) d' = Inr d"
  using assms
proof (induction ops arbitrary: d)
  case (Cons op ops)
  obtain d1 where d1: "run_operation now op d = Inr d1" "run_operations now ops d1 = Inr d'"
    using Cons.prems(2) by auto
  have inv: "inverse_of op \<noteq> None" "reversible op d" using Cons.prems(3) by (simp_all add: reversible_bare)
  have "run_operation [] op (bare d) = Inr (bare d1)"
    using run_operation_bareD [OF d1(1)] run_operation_clock [of now op d "[]"] by simp
  then have "reversible_all ops (bare d1)" using Cons.prems(3) by simp
  with Cons.IH [OF ok_operation [OF Cons.prems(1) d1(1) inv(1)] d1(2)]
  have "database_ok d' \<and> run_operations now' (rev (map (the \<circ> inverse_of) ops)) d' = Inr d1" by blast
  moreover have "run_operation now' (the (inverse_of op)) d1 = Inr d"
    using undo_operation [OF Cons.prems(1) d1(1) _ inv(2)] inv(1) by auto
  ultimately show ?case by (simp add: run_operations_append comp_def)
qed simp

lemma run_operations_bare:
  "run_operations now ops d = Inr d' \<Longrightarrow> run_operations [] ops (bare d) = Inr (bare d')"
proof (induction ops arbitrary: d)
  case (Cons op ops)
  obtain d1 where d1: "run_operation now op d = Inr d1" "run_operations now ops d1 = Inr d'"
    using Cons.prems by auto
  have "run_operation [] op (bare d) = Inr (bare d1)"
    using run_operation_bareD [OF d1(1)] run_operation_clock [of now op d "[]"] by simp
  with Cons.IH [OF d1(2)] show ?case by simp
qed simp

section \<open>Each downgrade undoes its upgrade\<close>

lemma migration_list:
  "list_all (\<lambda>m. map (Some \<circ> id) (mg_downgrade m) = rev (map inverse_of (mg_upgrade m))) migrations"
  by code_simp

fun reversible_from :: "migration list \<Rightarrow> table list \<Rightarrow> bool" where
  "reversible_from [] d = True"
| "reversible_from (m # ms) d =
     (reversible_all (mg_upgrade m) d
      \<and> (case run_operations [] (mg_upgrade m) d of Inl _ \<Rightarrow> False | Inr d' \<Rightarrow> reversible_from ms d'))"

lemma reversible_from_nth:
  "reversible_from ms d \<Longrightarrow> k < length ms \<Longrightarrow>
     \<exists>dk dk'. run_operations [] (concat (map mg_upgrade (take k ms))) d = Inr dk
       \<and> reversible_all (mg_upgrade (ms ! k)) dk \<and> run_operations [] (mg_upgrade (ms ! k)) dk = Inr dk'
       \<and> run_operations [] (concat (map mg_upgrade (take (Suc k) ms))) d = Inr dk'"
proof (induction ms arbitrary: k d)
  case (Cons m ms)
  obtain d' where d': "run_operations [] (mg_upgrade m) d = Inr d'" "reversible_from ms d'"
    using Cons.prems(1) by (auto split: sum.splits)
  show ?case
  proof (cases k)
    case 0
    with d' Cons.prems(1) show ?thesis by (simp add: run_operations_append)
  next
    case (Suc j)
    with Cons.IH [OF d'(2), of j] Cons.prems(2) d'(1) show ?thesis by (simp add: run_operations_append)
  qed
qed simp

lemma migrations_reversible: "reversible_from migrations []"
  by code_simp

lemma migration_at:
  assumes "k < 6"
  shows "reversible_all (mg_upgrade (migrations ! k)) (schema_after k)"
    and "run_operations [] (mg_upgrade (migrations ! k)) (schema_after k) = Inr (schema_after (Suc k))"
    and "mg_downgrade (migrations ! k) = rev (map (the \<circ> inverse_of) (mg_upgrade (migrations ! k)))"
proof -
  have k: "k < length migrations" using assms by (simp add: migrations_def)
  obtain dk dk' where "run_operations [] (concat (map mg_upgrade (take k migrations))) [] = Inr dk"
    "reversible_all (mg_upgrade (migrations ! k)) dk" "run_operations [] (mg_upgrade (migrations ! k)) dk = Inr dk'"
    "run_operations [] (concat (map mg_upgrade (take (Suc k) migrations))) [] = Inr dk'"
    using reversible_from_nth [OF migrations_reversible k] by blast
  then show "reversible_all (mg_upgrade (migrations ! k)) (schema_after k)"
    and "run_operations [] (mg_upgrade (migrations ! k)) (schema_after k) = Inr (schema_after (Suc k))"
    by (simp_all add: schema_after_def)
  have "migrations ! k \<in> set migrations" using k by (rule nth_mem)
  then have "map Some (mg_downgrade (migrations ! k)) = rev (map inverse_of (mg_upgrade (migrations ! k)))"
    using migration_list by (simp add: list_all_iff)
  then have "map the (map Some (mg_downgrade (migrations ! k))) = map the (rev (map inverse_of (mg_upgrade (migrations ! k))))"
    by simp
  then show "mg_downgrade (migrations ! k) = rev (map (the \<circ> inverse_of) (mg_upgrade (migrations ! k)))"
    by (simp add: rev_map)
qed

text \<open>C22: Each downgrade undoes its upgrade. From any well-formed database at one revision, whatever rows it
  holds, an upgrade that goes through leads to a well-formed database at the next revision, and the
  downgrade of that migration then succeeds and gives back the database as it was, schema and rows.\<close>

theorem downgrade_undoes_upgrade:
  assumes "k < 6" "at_revision k d" "run_operations now (mg_upgrade (migrations ! k)) d = Inr d'"
  shows "at_revision (Suc k) d' \<and> run_operations now' (mg_downgrade (migrations ! k)) d' = Inr d"
proof -
  have "database_ok d" "bare d = schema_after k" using assms(2) by (simp_all add: at_revision_def)
  then have "database_ok d' \<and> run_operations now' (mg_downgrade (migrations ! k)) d' = Inr d"
    using undo_operations [OF _ assms(3), of now'] migration_at [OF assms(1)] by simp
  moreover have "bare d' = schema_after (Suc k)"
    using run_operations_bare [OF assms(3)] migration_at(2) [OF assms(1)] \<open>bare d = schema_after k\<close> by simp
  ultimately show ?thesis by (simp add: at_revision_def)
qed

section \<open>When the rows stand in the way\<close>

fun harmless :: "operation \<Rightarrow> bool" where
  \<comment> \<open>operations no rows can block\<close>
  "harmless (Add_column table c) \<longleftrightarrow> co_nullable c \<or> co_default c \<noteq> No_default"
| "harmless (Set_nullable table c b) \<longleftrightarrow> b"
| "harmless (Create_unique name table cs) \<longleftrightarrow> False"
| "harmless _ \<longleftrightarrow> True"

definition rows_of :: "string \<Rightarrow> table list \<Rightarrow> (string \<times> sql_cell) list list" where
  "rows_of name d = (case table_of name d of None \<Rightarrow> [] | Some t \<Rightarrow> tb_rows t)"

lemma harmless_unblocked: "harmless op \<Longrightarrow> blocked op d = None"
  by (cases op) (auto split: option.splits)

lemma blocked_error:
  "run_operation now op (bare d) = Inr b \<Longrightarrow> blocked op d = Some e \<Longrightarrow> run_operation now op d = Inl e"
  by (cases op) (auto simp: default_None split: option.splits if_splits)

lemma run_harmless:
  "run_operations [] ops (bare d) = Inr b \<Longrightarrow> list_all harmless ops \<Longrightarrow>
     \<exists>d'. run_operations now ops d = Inr d' \<and> bare d' = b"
proof (induction ops arbitrary: d)
  case (Cons op ops)
  obtain b1 where b1: "run_operation now op (bare d) = Inr b1" "run_operations [] ops b1 = Inr b"
    using Cons.prems(1) run_operation_clock [of now op d "[]"] by auto
  obtain d1 where "run_operation now op d = Inr d1" "bare d1 = b1"
    using run_operation_unblocked [OF b1(1)] harmless_unblocked Cons.prems(2) by auto
  with Cons.IH [of d1] b1(2) Cons.prems(2) show ?case by auto
qed simp

lemma run_around:
  assumes "run_operations [] (xs @ op # ys) (bare d) = Inr b" "list_all harmless xs" "list_all harmless ys"
  shows "\<exists>d1. run_operations now xs d = Inr d1 \<and>
    (case blocked op d1 of
       Some e \<Rightarrow> run_operations now (xs @ op # ys) d = Inl e
     | None \<Rightarrow> \<exists>d'. run_operations now (xs @ op # ys) d = Inr d')"
proof -
  obtain b1 b2 where b: "run_operations [] xs (bare d) = Inr b1" "run_operation now op b1 = Inr b2"
      "run_operations [] ys b2 = Inr b"
  proof -
    obtain b1 where b1: "run_operations [] xs (bare d) = Inr b1" "run_operations [] (op # ys) b1 = Inr b"
      using assms(1) by (auto simp: run_operations_append bindE_Inr)
    obtain d1 where "bare d1 = b1" using run_harmless [OF b1(1) assms(2)] by blast
    then have "run_operation now op b1 = run_operation [] op b1" using run_operation_clock by blast
    with b1 that show ?thesis by auto
  qed
  obtain d1 where d1: "run_operations now xs d = Inr d1" "bare d1 = b1"
    using run_harmless [OF b(1) assms(2)] by blast
  have all: "run_operations now (xs @ op # ys) d = bindE (run_operation now op d1) (run_operations now ys)"
    using d1(1) by (simp add: run_operations_append)
  show ?thesis
  proof (cases "blocked op d1")
    case None
    obtain d2 where d2: "run_operation now op d1 = Inr d2" "bare d2 = b2"
      using run_operation_unblocked [of now op d1 b2] b(2) d1(2) None by auto
    obtain d' where "run_operations now ys d2 = Inr d'" using run_harmless [of ys d2 b now] b(3) d2(2) assms(3) by auto
    with None d1(1) d2(1) all show ?thesis by simp
  next
    case (Some e)
    with blocked_error [of now op d1 b2] b(2) d1 all show ?thesis by simp
  qed
qed

definition shell_before :: "operation list" where
  "shell_before = take 4 (mg_upgrade slack_shell)"

lemma shell_upgrade: "mg_upgrade slack_shell =
    shell_before @ Create_unique ''uq_agent_run_trigger_message'' ''agent_run'' [''trigger_message_id''] # []"
  by (simp add: shell_before_def slack_shell_def)

lemma shell_keeps_runs: "run_operations now shell_before d = Inr d' \<Longrightarrow> table_of ''agent_run'' d' = table_of ''agent_run'' d"
  by (auto simp: shell_before_def slack_shell_def bindE_Inr table_of_change split: option.splits if_splits)

lemma other_upgrades_harmless:
  "list_all (\<lambda>m. mg_revision m = mg_revision slack_shell \<or> list_all harmless (mg_upgrade m)) migrations"
  by code_simp

lemma agent_run_exists: "table_of ''agent_run'' (schema_after 1) \<noteq> None"
  by code_simp

text \<open>What the data can have against an upgrade. From a well-formed database at any revision the next
  upgrade goes through, with one exception: the second fails, and with a violated unique constraint,
  exactly when two runs answer the same message. The columns that later upgrades add to tables in use
  never fail: each is nullable or has a default.\<close>

theorem upgrade_blocked_iff:
  assumes "k < 6" "at_revision k d"
  shows "(case run_operations now (mg_upgrade (migrations ! k)) d of
      Inr d' \<Rightarrow> \<not> (k = 1 \<and> duplicated [''trigger_message_id''] (rows_of ''agent_run'' d))
    | Inl e \<Rightarrow> e = ''UniqueViolation'' \<and> k = 1 \<and> duplicated [''trigger_message_id''] (rows_of ''agent_run'' d))"
proof (cases "k = 1")
  case True
  then have m: "migrations ! k = slack_shell" "migrations ! Suc 0 = slack_shell" by (simp_all add: migrations_def)
  have bare: "run_operations [] (mg_upgrade slack_shell) (bare d) = Inr (schema_after 2)"
    using migration_at(2) [OF assms(1)] assms(2) True m(1) by (simp add: at_revision_def numeral_2_eq_2)
  obtain d1 where d1: "run_operations now shell_before d = Inr d1"
    and run: "case blocked (Create_unique ''uq_agent_run_trigger_message'' ''agent_run'' [''trigger_message_id'']) d1 of
       Some e \<Rightarrow> run_operations now (mg_upgrade slack_shell) d = Inl e
     | None \<Rightarrow> \<exists>d'. run_operations now (mg_upgrade slack_shell) d = Inr d'"
    using run_around [of shell_before "Create_unique ''uq_agent_run_trigger_message'' ''agent_run'' [''trigger_message_id'']" "[]" d _ now] bare
    unfolding shell_upgrade by (auto simp: shell_before_def slack_shell_def text_col_def)
  have "table_of ''agent_run'' (bare d) \<noteq> None"
    using assms(2) True agent_run_exists by (simp add: at_revision_def)
  then obtain t where "table_of ''agent_run'' d = Some t" by auto
  with run shell_keeps_runs [OF d1] show ?thesis
    by (auto simp: m True rows_of_def split: if_splits sum.splits)
next
  case False
  have k: "k < length migrations" using assms(1) by (simp add: migrations_def)
  have "mg_revision (migrations ! k) \<noteq> mg_revision slack_shell"
    using assms(1) False
    by (auto simp: less_Suc_eq numeral_eq_Suc migrations_def foundation_def slack_shell_def agents_sdk_def
        replica_audit_def runtime_heartbeat_def conversational_routing_def)
  then have "list_all harmless (mg_upgrade (migrations ! k))"
    using other_upgrades_harmless nth_mem [OF k] by (auto simp: list_all_iff)
  then obtain d' where "run_operations now (mg_upgrade (migrations ! k)) d = Inr d'"
    using run_harmless [of "mg_upgrade (migrations ! k)" d _ now] migration_at(2) [OF assms(1)] assms(2)
    by (auto simp: at_revision_def)
  with False show ?thesis by simp
qed

lemma shell_rollback: "mg_downgrade slack_shell =
    [Drop_constraint ''uq_agent_run_trigger_message'' ''agent_run''] @
    Set_nullable ''slack_output'' ''agent_run_id'' False # drop 2 (mg_downgrade slack_shell)"
  by (simp add: slack_shell_def)

lemma shell_rollback_bare:
  "case run_operations [] (mg_downgrade slack_shell) (schema_after 2) of Inr d \<Rightarrow> True | Inl _ \<Rightarrow> False"
  "table_of ''slack_output'' (schema_after 2) \<noteq> None"
  by code_simp+

text \<open>A rollback behind the Slack shell needs every output to belong to a run. From a well-formed database
  at the second revision the downgrade goes through exactly when no output has a NULL run; otherwise
  it ends in a violated not-null constraint. The column may be NULL only since this migration; every
  insertion of the application names a run, so it is the schema, not the code, that permits such rows.\<close>

theorem rollback_needs_runs:
  assumes "at_revision 2 d"
  shows "(case run_operations now (mg_downgrade slack_shell) d of
      Inr d' \<Rightarrow> \<forall>row \<in> set (rows_of ''slack_output'' d). cell_of row ''agent_run_id'' \<noteq> None
    | Inl e \<Rightarrow> e = ''NotNullViolation'' \<and> (\<exists>row \<in> set (rows_of ''slack_output'' d). cell_of row ''agent_run_id'' = None))"
proof -
  obtain b where bare: "run_operations [] (mg_downgrade slack_shell) (bare d) = Inr b"
    using shell_rollback_bare(1) assms by (auto simp: at_revision_def split: sum.splits)
  let ?op = "Set_nullable ''slack_output'' ''agent_run_id'' False"
  let ?xs = "[Drop_constraint ''uq_agent_run_trigger_message'' ''agent_run'']"
  obtain d1 where d1: "run_operations now ?xs d = Inr d1"
    and run: "case blocked ?op d1 of
       Some e \<Rightarrow> run_operations now (mg_downgrade slack_shell) d = Inl e
     | None \<Rightarrow> \<exists>d'. run_operations now (mg_downgrade slack_shell) d = Inr d'"
    using run_around [of ?xs ?op "drop 2 (mg_downgrade slack_shell)" d b now] bare
    unfolding shell_rollback [symmetric] by (auto simp: slack_shell_def)
  have "table_of ''slack_output'' d1 = table_of ''slack_output'' d"
    using d1 by (auto simp: table_of_change split: option.splits if_splits)
  moreover obtain t where "table_of ''slack_output'' d = Some t"
    using assms shell_rollback_bare(2) table_of_bare [of "''slack_output''" d]
    by (cases "table_of ''slack_output'' d") (simp_all add: at_revision_def)
  ultimately show ?thesis
    using run by (auto simp: rows_of_def list_ex_iff split: if_splits sum.splits)
qed

section \<open>Witnesses\<close>

definition with_output :: "sql_cell \<Rightarrow> table list" where
  \<comment> \<open>the second revision with one output, of the given run\<close>
  "with_output run = change_table ''slack_output'' (\<lambda>t. t\<lparr>tb_rows :=
     [map (\<lambda>c. (c, if c = ''agent_run_id'' then run else Some ''x'')) (column_names t)]\<rparr>) (schema_after 2)"

definition check_ok :: "table list \<Rightarrow> bool" where
  \<comment> \<open>\<open>database_ok\<close> with executable quantifiers\<close>
  "check_ok d \<longleftrightarrow> distinct (used_names d)
     \<and> list_all (\<lambda>t. distinct (column_names t)
          \<and> list_all (\<lambda>r. list_all (\<lambda>c. c \<in> set (column_names t)) (rule_columns r)) (tb_rules t)
          \<and> list_all (\<lambda>i. list_all (\<lambda>p. part_column p \<in> set (column_names t)) (snd i)) (tb_indexes t)
          \<and> list_all (\<lambda>row. map fst row = column_names t
               \<and> list_all (\<lambda>c. co_nullable c \<or> cell_of row (co_name c) \<noteq> None) (tb_columns t)) (tb_rows t)
          \<and> list_all (\<lambda>uk. case table_of (fst uk) d of None \<Rightarrow> False | Some u \<Rightarrow> snd uk \<in> set (column_names u))
              (targets t)) d"

lemma target_ok_check: "target_ok d uk \<longleftrightarrow>
    (case table_of (fst uk) d of None \<Rightarrow> False | Some u \<Rightarrow> snd uk \<in> set (column_names u))"
  by (simp add: target_ok_def split: option.splits)

lemma check_ok: "check_ok d \<Longrightarrow> database_ok d"
  unfolding check_ok_def database_ok_def table_ok_def target_ok_check list_all_iff by auto

lemma empty_output: "at_revision 2 (with_output None)"
proof -
  have "check_ok (with_output None) \<and> bare (with_output None) = schema_after 2" by code_simp
  then show ?thesis by (simp add: at_revision_def check_ok)
qed

lemma rollback_needs_runs_witness:
  "run_operations [] (mg_downgrade slack_shell) (with_output None) = Inl ''NotNullViolation''"
proof -
  have "list_ex (\<lambda>row. cell_of row ''agent_run_id'' = None) (rows_of ''slack_output'' (with_output None))"
    by code_simp
  then show ?thesis
    using rollback_needs_runs [OF empty_output, of "[]"] by (auto simp: list_ex_iff split: sum.splits)
qed

lemma downgrade_undoes_upgrade_witness:
  "\<exists>d'. run_operations [] (mg_upgrade agents_sdk) (with_output None) = Inr d'
     \<and> run_operations [] (mg_downgrade agents_sdk) d' = Inr (with_output None)"
proof -
  have m: "migrations ! 2 = agents_sdk" by (simp add: migrations_def)
  have "case run_operations [] (mg_upgrade agents_sdk) (with_output None) of Inr d' \<Rightarrow> True | Inl _ \<Rightarrow> False"
    by code_simp
  then obtain d' where "run_operations [] (mg_upgrade agents_sdk) (with_output None) = Inr d'"
    by (auto split: sum.splits)
  with downgrade_undoes_upgrade [of 2 "with_output None" "[]" d' "[]"] empty_output m show ?thesis by simp
qed

lemma upgrade_blocked_iff_witness:
  "\<exists>d'. run_operations [] (mg_upgrade agents_sdk) (with_output None) = Inr d'"
  using upgrade_blocked_iff [of 2 "with_output None" "[]"] empty_output
  by (simp add: migrations_def split: sum.splits)

end
