(* ===== verification/Logs.thy ===== *)
theory Logs
  imports Prelude
begin

text \<open>
  Privacy-safe logging (\<open>observability.py\<close>): the fields a record may carry, the redaction of texts that
  look like a secret, an address or a mail address, and the two renderings of a record. The clock's
  text is a parameter; the handlers and levels that are set up, and how JSON escapes a payload, belong
  to the standard library.
\<close>

section \<open>What is sensitive\<close>

definition word_char :: "char \<Rightarrow> bool" where
  \<comment> \<open>\<open>\w\<close> on the alphabet of the development\<close>
  "word_char c \<longleftrightarrow> (let k = code c in
     (48 \<le> k \<and> k \<le> 57) \<or> (65 \<le> k \<and> k \<le> 90) \<or> k = 95 \<or> (97 \<le> k \<and> k \<le> 122)
     \<or> k \<in> {131, 136, 138, 140, 142, 154, 156, 158, 159, 170, 178, 179, 181, 185, 186, 188, 189, 190}
     \<or> (192 \<le> k \<and> k \<noteq> 215 \<and> k \<noteq> 247))"

definition ascii_letter :: "char \<Rightarrow> bool" where
  "ascii_letter c \<longleftrightarrow> (65 \<le> code c \<and> code c \<le> 90) \<or> (97 \<le> code c \<and> code c \<le> 122)"

definition local_char :: "char \<Rightarrow> bool" where
  "local_char c \<longleftrightarrow> word_char c \<or> c \<in> set ''.+-''"

definition domain_char :: "char \<Rightarrow> bool" where
  "domain_char c \<longleftrightarrow> word_char c \<or> c \<in> set ''.-''"

fun two_letters :: "string \<Rightarrow> bool" where
  "two_letters (a # b # s) = (ascii_letter a \<and> ascii_letter b)"
| "two_letters _ = False"

fun domain_from :: "bool \<Rightarrow> string \<Rightarrow> bool" where
  \<comment> \<open>\<open>[\w.-]+\.[A-Za-z]{2,}\<close>, after at least one character of the class or none\<close>
  "domain_from seen [] = False"
| "domain_from seen (c # s) =
     (domain_char c \<and> ((seen \<and> c = CHR ''.'' \<and> two_letters s) \<or> domain_from True s))"

definition mail_address :: "string \<Rightarrow> bool" where
  \<comment> \<open>a mail address starts here\<close>
  "mail_address s \<longleftrightarrow> takeWhile local_char s \<noteq> [] \<and>
     (case dropWhile local_char s of [] \<Rightarrow> False | c # rest \<Rightarrow> c = CHR ''@'' \<and> domain_from False rest)"

definition slack_token :: "string \<Rightarrow> bool" where
  "slack_token s \<longleftrightarrow> list_ex (\<lambda>k. starts_with (''xox'' @ [k] @ ''-'') s) ''baprs''"

definition sensitive_here :: "string \<Rightarrow> bool" where
  "sensitive_here s \<longleftrightarrow>
     slack_token (str_lower s)
     \<or> list_ex (\<lambda>p. starts_with p (str_lower s)) [''xapp-'', ''sk-'', ''http://'', ''https://'', ''data:image'']
     \<or> mail_address s"

fun sensitive :: "string \<Rightarrow> bool" where
  \<comment> \<open>\<open>_SENSITIVE.search\<close>\<close>
  "sensitive [] = sensitive_here []"
| "sensitive (c # s) = (sensitive_here (c # s) \<or> sensitive s)"

section \<open>Fields\<close>

datatype log_value =
  Log_none | Log_bool bool | Log_int int | Log_float string
| Log_text string
| Log_named string    \<comment> \<open>a UUID or an enum member, by its \<open>str\<close>\<close>
| Log_other string    \<comment> \<open>anything else, by the name of its type\<close>

definition allowed_fields :: "string list" where
  "allowed_fields =
     [''agent_run_id'', ''attempts'', ''component'', ''completion_reason'', ''confidence'', ''conversation_id'',
      ''count'', ''delivery_status'', ''disposition'', ''duration_ms'', ''environment'', ''error_code'',
      ''error_type'', ''event_id'', ''failed_count'', ''image_count'', ''input_tokens'', ''instance_id'',
      ''knowledge_version'', ''model'', ''outcome'', ''output_id'', ''output_tokens'', ''prompt_version'',
      ''queue'', ''request_kind'', ''recovered_events'', ''recovered_outputs'', ''recovered_runs'',
      ''run_status'', ''slack_event_type'', ''stale_components'', ''stale_events'', ''stale_outputs'',
      ''stale_queued_runs'', ''stale_running_runs'', ''state'', ''tool_calls'', ''turns'', ''worker_role'']"

definition safe_text :: "string \<Rightarrow> string" where
  "safe_text s = (let cut = take 160 s in if sensitive cut then ''[redacted]'' else cut)"

fun safe_value :: "log_value \<Rightarrow> log_value" where
  "safe_value (Log_text s) = Log_text (safe_text s)"
| "safe_value (Log_named s) = Log_text (safe_text s)"
| "safe_value (Log_other name) = Log_text (safe_text name)"
| "safe_value v = v"

definition safe_fields :: "(string \<times> log_value) list \<Rightarrow> (string \<times> log_value) list" where
  "safe_fields values =
     map (\<lambda>(key, v). (key, safe_value v))
       (filter (\<lambda>(key, v). key \<in> set allowed_fields \<and> v \<noteq> Log_none) values)"

section \<open>Records\<close>

datatype extra = Missing | Present log_value | Fields "(string \<times> log_value) list"

record log_record =
  lr_name :: string
  lr_level :: string
  lr_message :: string
  lr_event :: extra
  lr_fields :: extra

definition event_text :: "log_record \<Rightarrow> string" where
  "event_text r =
     (case lr_event r of
        Present (Log_text event) \<Rightarrow> (if sensitive event then ''redacted_event'' else event)
      | _ \<Rightarrow> (if starts_with ''cerebro'' (lr_name r) then ''application_log'' else ''third_party_log''))"

definition record_fields :: "log_record \<Rightarrow> (string \<times> log_value) list" where
  "record_fields r =
     (case lr_fields r of Missing \<Rightarrow> safe_fields [] | Fields values \<Rightarrow> safe_fields values | Present _ \<Rightarrow> [])"

definition log_payload :: "string \<Rightarrow> log_record \<Rightarrow> (string \<times> log_value) list" where
  \<comment> \<open>the object of the JSON rendering\<close>
  "log_payload timestamp r =
     [(''timestamp'', Log_text timestamp), (''level'', Log_text (lr_level r)), (''logger'', Log_text (lr_name r)),
      (''event'', Log_text (take 80 (event_text r)))] @ record_fields r"

fun value_text :: "log_value \<Rightarrow> string" where
  "value_text Log_none = ''None''"
| "value_text (Log_bool b) = (if b then ''True'' else ''False'')"
| "value_text (Log_int n) = show_int n"
| "value_text (Log_float t) = t"
| "value_text (Log_text s) = s"
| "value_text (Log_named s) = s"
| "value_text (Log_other s) = s"

definition log_line :: "string \<Rightarrow> log_record \<Rightarrow> string" where
  \<comment> \<open>the text rendering\<close>
  "log_line timestamp r =
     (let details = str_join '' '' (map (\<lambda>(key, v). key @ ''='' @ value_text v) (record_fields r))
      in str_join '' '' [timestamp, lr_level r, lr_name r, event_text r]
         @ (if details \<noteq> [] then '' '' @ details else []))"

definition log_event :: "string \<Rightarrow> string \<Rightarrow> string \<Rightarrow> (string \<times> log_value) list \<Rightarrow> log_record" where
  \<comment> \<open>the record \<open>log_event\<close> hands to the logger of the given name\<close>
  "log_event logger level event values =
     \<lparr>lr_name = logger, lr_level = level, lr_message = event, lr_event = Present (Log_text event),
      lr_fields = Fields (safe_fields values)\<rparr>"

section \<open>Setting the process up\<close>

datatype log_handler = Safe_handler bool | Other_handler string   \<comment> \<open>the truth value: JSON output\<close>

record logging_state =
  lg_handlers :: "log_handler list"            \<comment> \<open>of the root logger\<close>
  lg_level :: string
  lg_levels :: "(string \<times> string) list"       \<comment> \<open>of named loggers, the latest first\<close>

definition quiet_loggers :: "string list" where
  "quiet_loggers = [''aiohttp'', ''asyncio'', ''httpx'', ''openai'', ''slack_bolt'', ''slack_sdk'']"

definition upper_letter :: "char \<Rightarrow> char" where
  \<comment> \<open>\<open>str.upper\<close> on the ASCII names of levels\<close>
  "upper_letter c = (if 97 \<le> code c \<and> code c \<le> 122 then char_of (code c - 32) else c)"

definition configure_logging ::
  "string \<Rightarrow> string \<Rightarrow> string \<Rightarrow> string \<Rightarrow> logging_state \<Rightarrow> logging_state \<times> log_record" where
  \<comment> \<open>the settings \<open>log_format\<close>, \<open>log_level\<close> and \<open>environment\<close>; with the first record\<close>
  "configure_logging component log_format log_level environment lg =
     (\<lparr>lg_handlers = [Safe_handler (log_format = ''json'')], lg_level = map upper_letter log_level,
       lg_levels = rev (map (\<lambda>name. (name, ''WARNING'')) quiet_loggers) @ lg_levels lg\<rparr>,
      log_event ''cerebro.runtime'' ''INFO'' ''process_started''
        [(''component'', Log_text component), (''environment'', Log_text environment)])"

datatype emitted = As_json "(string \<times> log_value) list" | As_line string | By_other string

fun emit :: "string \<Rightarrow> log_record \<Rightarrow> log_handler \<Rightarrow> emitted" where
  "emit ts r (Safe_handler json) = (if json then As_json (log_payload ts r) else As_line (log_line ts r))"
| "emit ts r (Other_handler h) = By_other h"

section \<open>What a record can say\<close>

lemma starts_with_append: "starts_with p s \<Longrightarrow> starts_with p (s @ t)"
  unfolding starts_with_def by (metis append_eq_conv_conj append_take_drop_id append_assoc)

lemma two_letters_append: "two_letters s \<Longrightarrow> two_letters (s @ t)"
  by (cases s rule: two_letters.cases) simp_all

lemma domain_from_append: "domain_from seen s \<Longrightarrow> domain_from seen (s @ t)"
  by (induction seen s rule: domain_from.induct) (auto dest: two_letters_append)

lemma mail_address_append: "mail_address s \<Longrightarrow> mail_address (s @ t)"
  unfolding mail_address_def
proof (elim conjE)
  assume rest: "case dropWhile local_char s of [] \<Rightarrow> False | c # r \<Rightarrow> c = CHR ''@'' \<and> domain_from False r"
    and start: "takeWhile local_char s \<noteq> []"
  then obtain r where r: "dropWhile local_char s = CHR ''@'' # r" "domain_from False r"
    by (auto split: list.splits)
  then have out: "\<exists>c \<in> set s. \<not> local_char c"
    by (metis dropWhile_eq_Nil_conv list.distinct(1))
  then have "dropWhile local_char (s @ t) = CHR ''@'' # (r @ t)" "takeWhile local_char (s @ t) = takeWhile local_char s"
    using r(1) by (auto simp: dropWhile_append1 takeWhile_append1)
  then show "takeWhile local_char (s @ t) \<noteq> [] \<and>
      (case dropWhile local_char (s @ t) of [] \<Rightarrow> False | c # r \<Rightarrow> c = CHR ''@'' \<and> domain_from False r)"
    using start domain_from_append [OF r(2)] by simp
qed

lemma str_lower_append: "str_lower (s @ t) = str_lower s @ str_lower t"
  by (simp add: str_lower_def)

lemma sensitive_here_append: "sensitive_here s \<Longrightarrow> sensitive_here (s @ t)"
  unfolding sensitive_here_def slack_token_def list_ex_iff str_lower_append
  using starts_with_append mail_address_append by blast

declare sensitive.simps [simp del]

lemmas sensitive_simps = sensitive.simps sensitive_here_def slack_token_def mail_address_def starts_with_def
  str_lower_def local_char_def domain_char_def word_char_def ascii_letter_def text_simps

lemma sensitive_Nil: "\<not> sensitive []"
  by (simp add: sensitive_simps)

lemma sensitive_append: "sensitive s \<Longrightarrow> sensitive (s @ t)"
proof (induction s)
  case (Cons c s)
  then show ?case using sensitive_here_append [of "c # s" t] by (auto simp: sensitive.simps)
qed (simp add: sensitive_Nil)

lemma sensitive_take: "\<not> sensitive s \<Longrightarrow> \<not> sensitive (take n s)"
  by (metis append_take_drop_id sensitive_append)

lemma redacted_clean: "\<not> sensitive ''[redacted]''" "\<not> sensitive ''redacted_event''"
  "\<not> sensitive ''application_log''" "\<not> sensitive ''third_party_log''"
  by (simp_all add: sensitive_simps)

lemma safe_text_clean: "\<not> sensitive (safe_text s)" "length (safe_text s) \<le> 160"
  by (simp_all add: safe_text_def Let_def redacted_clean)

lemma safe_text_idem: "safe_text (safe_text s) = safe_text s"
  using safe_text_clean [of s] by (simp add: safe_text_def [of "safe_text s"] Let_def)

definition clean_value :: "log_value \<Rightarrow> bool" where
  "clean_value v \<longleftrightarrow>
     (case v of
        Log_text s \<Rightarrow> length s \<le> 160 \<and> \<not> sensitive s
      | Log_bool _ \<Rightarrow> True | Log_int _ \<Rightarrow> True | Log_float _ \<Rightarrow> True | _ \<Rightarrow> False)"

lemma safe_value_clean: "v \<noteq> Log_none \<Longrightarrow> clean_value (safe_value v)"
  by (cases v) (simp_all add: clean_value_def safe_text_clean)

lemma safe_value_idem: "safe_value (safe_value v) = safe_value v"
  by (cases v) (simp_all add: safe_text_idem)

lemma safe_value_none: "safe_value v = Log_none \<longleftrightarrow> v = Log_none"
  by (cases v) simp_all

lemma safe_fields_idem: "safe_fields (safe_fields values) = safe_fields values"
  by (induction "values") (auto simp: safe_fields_def safe_value_idem safe_value_none)

text \<open>C36: What a log record can say. Whatever message, event and fields a record carries, both renderings
  depend on the message not at all; every field they show is one of the allowed ones and holds a
  number, a truth value or a text of at most 160 characters in which no token, web address, inline
  image or mail address is found, and the same holds of the event's name in the JSON rendering, of at
  most 80; and redacting when the record is made and again when it is formatted is redacting once.\<close>

theorem log_records_stay_clean:
  "log_payload ts (r\<lparr>lr_message := m\<rparr>) = log_payload ts r \<and> log_line ts (r\<lparr>lr_message := m\<rparr>) = log_line ts r
   \<and> (\<forall>(key, v) \<in> set (record_fields r). key \<in> set allowed_fields \<and> clean_value v)
   \<and> \<not> sensitive (event_text r) \<and> \<not> sensitive (take 80 (event_text r))
   \<and> record_fields (log_event logger level event values) = safe_fields values"
proof -
  have "clean_value v \<and> key \<in> set allowed_fields" if "(key, v) \<in> set (safe_fields vs)" for key v vs
    using that by (auto simp: safe_fields_def safe_value_clean)
  then have "\<forall>(key, v) \<in> set (record_fields r). key \<in> set allowed_fields \<and> clean_value v"
    unfolding record_fields_def by (cases "lr_fields r") fastforce+
  moreover have "\<not> sensitive (event_text r)"
    by (auto simp: event_text_def redacted_clean split: extra.splits log_value.splits)
  moreover have "record_fields (r\<lparr>lr_message := m\<rparr>) = record_fields r" "event_text (r\<lparr>lr_message := m\<rparr>) = event_text r"
    by (simp_all add: record_fields_def event_text_def)
  ultimately show ?thesis
    by (simp add: log_payload_def log_line_def sensitive_take log_event_def record_fields_def safe_fields_idem
       )
qed

text \<open>Once a process is set up, its root logger has one handler, the one that redacts.\<close>

lemma configured_logging_is_safe:
  "map (emit ts r) (lg_handlers (fst (configure_logging component log_format log_level environment lg)))
     \<in> {[As_json (log_payload ts r)], [As_line (log_line ts r)]}"
  by (simp add: configure_logging_def)

section \<open>An address at the cut\<close>

text \<open>The cut comes before the search: a mail address that ends behind the limit is logged up to there.\<close>

lemma letters_dropped:
  "takeWhile local_char (replicate n (CHR ''a'') @ CHR ''@'' # t) = replicate n (CHR ''a'')"
  "dropWhile local_char (replicate n (CHR ''a'') @ CHR ''@'' # t) = CHR ''@'' # t"
  by (induction n) (simp_all add: sensitive_simps)

lemma letters_clean:
  assumes "\<not> sensitive (CHR ''@'' # t)" "\<not> domain_from False t"
  shows "\<not> sensitive (replicate n (CHR ''a'') @ CHR ''@'' # t)"
proof (induction n)
  case (Suc n)
  have "\<not> mail_address (replicate (Suc n) (CHR ''a'') @ CHR ''@'' # t)"
    using assms(2) unfolding mail_address_def letters_dropped by simp
  then have "\<not> sensitive_here (replicate (Suc n) (CHR ''a'') @ CHR ''@'' # t)"
    by (simp add: sensitive_here_def slack_token_def starts_with_def str_lower_def text_simps)
  with Suc show ?case by (simp add: sensitive.simps)
qed (simp add: assms(1))

definition letters :: "string \<Rightarrow> string" where
  "letters t = replicate 150 (CHR ''a'') @ CHR ''@'' # t"

lemma letters_sensitive: "sensitive (letters ''example.com'')"
proof -
  have "domain_from False ''example.com''" by (simp add: sensitive_simps)
  then have "mail_address (replicate (Suc 149) (CHR ''a'') @ CHR ''@'' # ''example.com'')"
    unfolding mail_address_def letters_dropped by simp
  then have "sensitive (replicate (Suc 149) (CHR ''a'') @ CHR ''@'' # ''example.com'')"
    unfolding replicate_Suc append_Cons sensitive.simps sensitive_here_def by blast
  moreover have "(150 :: nat) = Suc 149" by simp
  ultimately show ?thesis unfolding letters_def by metis
qed

lemma cut_addresses_are_logged:
  "sensitive (letters ''example.com'') \<and> safe_value (Log_text (letters ''example.com'')) = Log_text (letters ''example.c'')"
proof -
  have "\<not> sensitive ''@example.c''" "\<not> domain_from False ''example.c''" by (simp_all add: sensitive_simps)
  then have "\<not> sensitive (letters ''example.c'')" unfolding letters_def by (rule letters_clean)
  moreover have "take 160 (letters ''example.com'') = letters ''example.c''" by (simp add: letters_def)
  ultimately show ?thesis using letters_sensitive by (simp add: safe_text_def)
qed

section \<open>Witness\<close>

definition sample_record :: log_record where
  "sample_record =
     log_event ''cerebro.jobs'' ''INFO'' ''run_failed''
       [(''error_type'', Log_text ''ValueError''), (''text'', Log_text ''secret''), (''model'', Log_text ''xoxb-1'')]"

lemma log_records_stay_clean_witness:
  "record_fields sample_record = [(''error_type'', Log_text ''ValueError''), (''model'', Log_text ''[redacted]'')]
   \<and> clean_value (Log_text ''ValueError'')"
proof -
  have "safe_text ''ValueError'' = ''ValueError''" "safe_text ''xoxb-1'' = ''[redacted]''"
    by (simp_all add: safe_text_def sensitive_simps)
  then have "safe_fields [(''error_type'', Log_text ''ValueError''), (''text'', Log_text ''secret''), (''model'', Log_text ''xoxb-1'')]
      = [(''error_type'', Log_text ''ValueError''), (''model'', Log_text ''[redacted]'')]"
    by (simp add: safe_fields_def allowed_fields_def)
  moreover have "record_fields sample_record =
      safe_fields [(''error_type'', Log_text ''ValueError''), (''text'', Log_text ''secret''), (''model'', Log_text ''xoxb-1'')]"
    by (simp only: sample_record_def log_event_def record_fields_def log_record.simps extra.case safe_fields_idem)
  ultimately have "record_fields sample_record = [(''error_type'', Log_text ''ValueError''), (''model'', Log_text ''[redacted]'')]"
    by (rule back_subst [where P = "\<lambda>x. record_fields sample_record = x", rotated])
  then show ?thesis using log_records_stay_clean [where r = sample_record] by simp
qed

end
