(* ===== verification/Clients.thy ===== *)
theory Clients
  imports Processes
begin

text \<open>
  The clients a process keeps in module variables: the runner (\<open>agent/runner.py\<close>), the Slack gateway
  (\<open>slack/gateway.py\<close>) and the file client (\<open>slack/images.py\<close>), with the order in which each is closed.
  A slot numbers the clients by their creation and logs the outcome of every close. What the modules
  share is the locale \<open>client_module\<close>; they differ in what a close that raises leaves behind.
\<close>

section \<open>Slots\<close>

record slot =
  sl_current :: "nat option"
  sl_created :: nat
  sl_closed :: "(nat \<times> exn_name option) list"   \<comment> \<open>which client, and what its \<open>close\<close> raised\<close>

definition empty_slot :: slot where
  "empty_slot = \<lparr>sl_current = None, sl_created = 0, sl_closed = []\<rparr>"

definition keep_new :: "slot \<Rightarrow> slot" where
  \<comment> \<open>a new client becomes the current one\<close>
  "keep_new s = s\<lparr>sl_current := Some (sl_created s), sl_created := Suc (sl_created s)\<rparr>"

definition log_close :: "nat \<Rightarrow> exn_name option \<Rightarrow> slot \<Rightarrow> slot" where
  "log_close n raised s = s\<lparr>sl_closed := sl_closed s @ [(n, raised)]\<rparr>"

lemma slot_simps:
  "sl_current (keep_new s) = Some (sl_created s)" "sl_current (log_close n raised s) = sl_current s"
  "(log_close n raised s)\<lparr>sl_current := None\<rparr> = log_close n raised (s\<lparr>sl_current := None\<rparr>)"
  by (simp_all add: keep_new_def log_close_def)

section \<open>The runner\<close>

record fake_runner =
  fk_calls :: "agent_run_input list"
  fk_result :: runner_result

definition new_fake_runner :: "runner_result option \<Rightarrow> fake_runner" where
  "new_fake_runner result =
     \<lparr>fk_calls = [],
      fk_result = (case result of
          Some r \<Rightarrow> r
        | None \<Rightarrow> Payment_result
            \<lparr>pi_outcome = infer_legacy_outcome None None, pi_recommended_customer = None,
             pi_account_receivable_summary = None, pi_confidence = Conf_unknown,
             pi_investigation_summary = ''No live investigation adapter is configured.'',
             pi_unable_to_verify = [''customer'', ''account receivable''],
             pi_alternatives = [], pi_evidence = [], pi_clarification_question = None\<rparr>
            default_meta)\<rparr>"

definition fake_runner_run :: "agent_run_input \<Rightarrow> fake_runner \<Rightarrow> runner_result \<times> fake_runner" where
  "fake_runner_run ri fk = (fk_result fk, fk\<lparr>fk_calls := fk_calls fk @ [ri]\<rparr>)"

definition supports_image_input :: "built_runner \<Rightarrow> bool" where
  "supports_image_input r = (case r of Fake_runner \<Rightarrow> False | Azure_runner _ \<Rightarrow> True)"

datatype runner_part = Runner_data | Runner_client

definition openai_runner_close :: "exn_name option \<Rightarrow> exn_name option \<Rightarrow> exn_name option \<times> runner_part list" where
  "openai_runner_close data_raised client_raised = close_all [(Runner_data, data_raised), (Runner_client, client_raised)]"

definition get_agent_runner :: "exn_name + unit \<Rightarrow> slot \<Rightarrow> (exn_name + nat) \<times> slot" where
  \<comment> \<open>the first argument is the outcome of \<open>build_agent_runner\<close>, when it is called\<close>
  "get_agent_runner outcome s =
     (case sl_current s of
        Some n \<Rightarrow> (Inr n, s)
      | None \<Rightarrow> (case outcome of Inl e \<Rightarrow> (Inl e, s) | Inr _ \<Rightarrow> (Inr (sl_created s), keep_new s)))"

definition close_agent_runner :: "exn_name option \<Rightarrow> slot \<Rightarrow> exn_name option \<times> slot" where
  "close_agent_runner raised s =
     (case sl_current s of
        None \<Rightarrow> (None, s)
      | Some n \<Rightarrow> (raised, log_close n raised (s\<lparr>sl_current := None\<rparr>)))"

section \<open>The gateway\<close>

datatype gateway_close_path = Client_close | Session_close | Nothing_to_close

definition gateway_close :: "bool \<Rightarrow> bool option \<Rightarrow> gateway_close_path" where
  \<comment> \<open>whether the client has a \<open>close\<close>, and whether its session, if it has one, is closed\<close>
  "gateway_close has_close session_closed =
     (if has_close then Client_close
      else case session_closed of Some False \<Rightarrow> Session_close | _ \<Rightarrow> Nothing_to_close)"

definition get_slack_gateway :: "slot \<Rightarrow> (exn_name + nat) \<times> slot" where
  "get_slack_gateway s =
     (case sl_current s of Some n \<Rightarrow> (Inr n, s) | None \<Rightarrow> (Inr (sl_created s), keep_new s))"

definition close_slack_gateway :: "exn_name option \<Rightarrow> slot \<Rightarrow> exn_name option \<times> slot" where
  "close_slack_gateway raised s =
     (case sl_current s of
        None \<Rightarrow> (None, s)
      | Some n \<Rightarrow>
          (case raised of
             Some e \<Rightarrow> (Some e, log_close n (Some e) s)
           | None \<Rightarrow> (None, (log_close n None s)\<lparr>sl_current := None\<rparr>)))"

section \<open>The file client\<close>

datatype file_part = File_session | File_web_client

record file_client =
  fc_owns_session :: bool
  fc_session :: "bool option"      \<comment> \<open>whether it is closed, once there is one\<close>
  fc_web_close :: bool             \<comment> \<open>whether the web client has a \<open>close\<close>\<close>

definition new_file_client :: "bool option \<Rightarrow> bool \<Rightarrow> file_client" where
  "new_file_client session web_close = \<lparr>fc_owns_session = (session = None), fc_session = session, fc_web_close = web_close\<rparr>"

definition http_session :: "file_client \<Rightarrow> file_client" where
  "http_session fc = (case fc_session fc of None \<Rightarrow> fc\<lparr>fc_session := Some False\<rparr> | Some _ \<Rightarrow> fc)"

definition file_client_close :: "file_client \<Rightarrow> exn_name option \<Rightarrow> exn_name option \<Rightarrow> exn_name option \<times> file_part list" where
  "file_client_close fc session_raised web_raised =
     close_all ((if fc_owns_session fc \<and> fc_session fc = Some False then [(File_session, session_raised)] else [])
       @ (if fc_web_close fc then [(File_web_client, web_raised)] else []))"

definition get_slack_file_client :: "slot \<Rightarrow> (exn_name + nat) \<times> slot" where
  "get_slack_file_client s =
     (case sl_current s of Some n \<Rightarrow> (Inr n, s) | None \<Rightarrow> (Inr (sl_created s), keep_new s))"

definition close_slack_file_client :: "exn_name option \<Rightarrow> slot \<Rightarrow> exn_name option \<times> slot" where
  "close_slack_file_client raised s =
     (case sl_current s of
        None \<Rightarrow> (None, s)
      | Some n \<Rightarrow> (raised, log_close n raised (s\<lparr>sl_current := None\<rparr>)))"

section \<open>What the modules share\<close>

definition slot_ok :: "slot \<Rightarrow> bool" where
  \<comment> \<open>the current client exists and is not closed; every other client has been closed, with or without an exception\<close>
  "slot_ok s \<longleftrightarrow> (\<forall>n. sl_current s = Some n \<longrightarrow> n < sl_created s \<and> (n, None) \<notin> set (sl_closed s))
     \<and> (\<forall>n < sl_created s. sl_current s \<noteq> Some n \<longrightarrow> n \<in> fst ` set (sl_closed s))
     \<and> (\<forall>c \<in> set (sl_closed s). fst c < sl_created s)"

datatype client_use = Getting | Closing "exn_name option"

fun use_client ::
  "(slot \<Rightarrow> (exn_name + nat) \<times> slot) \<Rightarrow> (exn_name option \<Rightarrow> slot \<Rightarrow> exn_name option \<times> slot)
   \<Rightarrow> client_use list \<Rightarrow> slot \<Rightarrow> slot" where
  \<comment> \<open>any sequence of requests and closes\<close>
  "use_client get close [] s = s"
| "use_client get close (u # us) s =
     use_client get close us (case u of Getting \<Rightarrow> snd (get s) | Closing raised \<Rightarrow> snd (close raised s))"

lemma slot_ok_empty: "slot_ok empty_slot"
  by (simp add: slot_ok_def empty_slot_def)

locale client_module =
  fixes get :: "slot \<Rightarrow> (exn_name + nat) \<times> slot"
    and close :: "exn_name option \<Rightarrow> slot \<Rightarrow> exn_name option \<times> slot"
  assumes get_ok: "slot_ok s \<Longrightarrow> slot_ok (snd (get s))"
    and close_ok: "slot_ok s \<Longrightarrow> slot_ok (snd (close raised s))"
    and get_returns_current: "fst (get s) = Inr n \<Longrightarrow> sl_current (snd (get s)) = Some n"
    and get_keeps: "sl_current s = Some n \<Longrightarrow> get s = (Inr n, s)"
    and get_fresh: "sl_current s = None \<Longrightarrow> fst (get s) = Inr n \<Longrightarrow> n = sl_created s"
    and closed_clean: "fst (close None s) = None" "sl_current (snd (close None s)) = None"
begin

lemma use_client_ok: "slot_ok s \<Longrightarrow> slot_ok (use_client get close uses s)"
  by (induction uses arbitrary: s) (auto simp: get_ok close_ok split: client_use.splits)

lemma never_a_closed_one:
  assumes "slot_ok s" "fst (get s) = Inr n"
  shows "(n, None) \<notin> set (sl_closed (snd (get s)))"
  using get_ok [OF assms(1)] get_returns_current [OF assms(2)] by (simp add: slot_ok_def)

lemma one_client: "fst (get s) = Inr n \<Longrightarrow> get (snd (get s)) = (Inr n, snd (get s))"
  by (rule get_keeps) (rule get_returns_current)

lemma all_closed:
  assumes "slot_ok s" "n < sl_created s"
  shows "n \<in> fst ` set (sl_closed (snd (close None s))) \<or> sl_created (snd (close None s)) \<le> n"
  using close_ok [OF assms(1), of None] closed_clean(2) [of s] by (auto simp: slot_ok_def not_le)

end

locale forgetful_module = client_module +
  assumes close_forgets: "sl_current (snd (close raised s)) = None"
begin

lemma after_close_new:
  assumes "slot_ok s" "fst (get (snd (close raised s))) = Inr n"
  shows "n \<notin> fst ` set (sl_closed (snd (close raised s)))"
  using close_ok [OF assms(1), of raised] get_fresh [OF close_forgets assms(2)] by (auto simp: slot_ok_def)

end

lemma slot_ok_new: "slot_ok s \<Longrightarrow> sl_current s = None \<Longrightarrow> slot_ok (keep_new s)"
  by (auto simp: slot_ok_def keep_new_def less_Suc_eq)

lemma slot_ok_forget: "slot_ok s \<Longrightarrow> sl_current s = Some n \<Longrightarrow> slot_ok (log_close n raised (s\<lparr>sl_current := None\<rparr>))"
  by (auto simp: slot_ok_def log_close_def image_iff)

lemma slot_ok_failed: "slot_ok s \<Longrightarrow> sl_current s = Some n \<Longrightarrow> slot_ok (log_close n (Some e) s)"
  by (auto simp: slot_ok_def log_close_def)

interpretation runner: forgetful_module "get_agent_runner outcome" close_agent_runner for outcome
  by unfold_locales
    (auto simp: get_agent_runner_def close_agent_runner_def slot_ok_new slot_ok_forget slot_simps
      split: option.splits sum.splits)

interpretation files: forgetful_module get_slack_file_client close_slack_file_client
  by unfold_locales
    (auto simp: get_slack_file_client_def close_slack_file_client_def slot_ok_new slot_ok_forget slot_simps
      split: option.splits)

interpretation gateway: client_module get_slack_gateway close_slack_gateway
  by unfold_locales
    (auto simp: get_slack_gateway_def close_slack_gateway_def slot_ok_new slot_ok_failed slot_ok_forget slot_simps
      split: option.splits)

text \<open>However a process uses its three modules, the client it is handed has never been closed without
  an exception, and asking again gives the same one. After a close that raised, the runner and the file
  client are replaced by new ones, while the gateway stays and is handed out again.\<close>

theorem clients_after_close:
  defines "gw \<equiv> \<lambda>us. use_client get_slack_gateway close_slack_gateway us empty_slot"
  shows "fst (get_slack_gateway (gw us)) = Inr n \<Longrightarrow> (n, None) \<notin> set (sl_closed (snd (get_slack_gateway (gw us))))"
    "fst (get_slack_gateway (snd (get_slack_gateway (gw us)))) = fst (get_slack_gateway (gw us))"
    "sl_current (gw us) = Some n \<Longrightarrow> fst (get_slack_gateway (snd (close_slack_gateway (Some e) (gw us)))) = Inr n"
    "slot_ok s \<Longrightarrow> fst (get_agent_runner outcome (snd (close_agent_runner raised s))) = Inr n \<Longrightarrow>
       n \<notin> fst ` set (sl_closed (snd (close_agent_runner raised s)))"
    "slot_ok s \<Longrightarrow> fst (get_slack_file_client (snd (close_slack_file_client raised s))) = Inr n \<Longrightarrow>
       n \<notin> fst ` set (sl_closed (snd (close_slack_file_client raised s)))"
proof -
  have ok: "slot_ok (gw us)" unfolding gw_def by (rule gateway.use_client_ok [OF slot_ok_empty])
  show "fst (get_slack_gateway (gw us)) = Inr n \<Longrightarrow> (n, None) \<notin> set (sl_closed (snd (get_slack_gateway (gw us))))"
    by (rule gateway.never_a_closed_one [OF ok])
  show "fst (get_slack_gateway (snd (get_slack_gateway (gw us)))) = fst (get_slack_gateway (gw us))"
    by (simp add: get_slack_gateway_def slot_simps split: option.split)
  show "sl_current (gw us) = Some n \<Longrightarrow> fst (get_slack_gateway (snd (close_slack_gateway (Some e) (gw us)))) = Inr n"
    by (simp add: close_slack_gateway_def get_slack_gateway_def slot_simps)
qed (rule runner.after_close_new files.after_close_new; assumption)+

text \<open>Closing the OpenAI runner or a file client stops at the first part that raises.\<close>

lemma parts_closed:
  "fst (openai_runner_close d c) = None \<Longrightarrow> snd (openai_runner_close d c) = [Runner_data, Runner_client]"
  "snd (openai_runner_close (Some e) c) = []"
  "fst (file_client_close (http_session (new_file_client None w)) s v) = None \<Longrightarrow>
     File_session \<in> set (snd (file_client_close (http_session (new_file_client None w)) s v))"
  "File_session \<notin> set (snd (file_client_close (http_session (new_file_client (Some b) w)) s v))"
  by (auto simp: openai_runner_close_def file_client_close_def http_session_def new_file_client_def
      split: option.splits if_splits)

end
