(* ===== verification/BlockingMemory.thy ===== *)
theory BlockingMemory
  imports Memory
begin

text \<open>
  The synchronous twin of the memory client (\<open>memory_client.py\<close>, \<open>MemoryClient\<close>). The program uses the
  asynchronous class only; the file promises that both have the same interface and behaviour, which is
  what is shown here. The agent's name and the optional arguments are those of the class.
\<close>

section \<open>The client\<close>

record memory_client =
  cl_agent :: string
  cl_credentials :: credentials

definition client_from_env :: "string \<Rightarrow> (string \<rightharpoonup> string) \<Rightarrow> memory_client option" where
  "client_from_env agent source =
     (case credentials_from_env source of
        None \<Rightarrow> None
      | Some cr \<Rightarrow> Some \<lparr>cl_agent = agent, cl_credentials = cr\<rparr>)"

definition blocking_bearer ::
  "memory_client \<Rightarrow> platform \<Rightarrow> memory_state \<Rightarrow> (exn_name + string option) \<times> memory_state" where
  "blocking_bearer cl pf st =
     (let cr = cl_credentials cl in
      if cr_static_token cr \<noteq> [] then (Inr (Some (cr_static_token cr)), st)
      else
        (let (now, st1) = read_clock pf st in
         if token_live now (ms_token st1) then (Inr (Some (tk_value (ms_token st1))), st1)
         else
           (let (answer, st2) = send pf (Token_request (cr_token_url cr) (client_credentials cr)) st1 in
            case answer of
              Unreachable \<Rightarrow> (Inr None, st2)
            | Broken e \<Rightarrow> (Inl e, st2)
            | Answered status body \<Rightarrow>
                (if \<not> (200 \<le> status \<and> status \<le> 299) then (Inr None, st2)
                 else case body of
                        Inl e \<Rightarrow> (Inl e, st2)
                      | Inr j \<Rightarrow>
                          (let (minted, st3) = read_clock pf st2 in
                           case token_from j minted of
                             Inl e \<Rightarrow> (Inl e, st3)
                           | Inr tk \<Rightarrow> (Inr (if tk_value tk \<noteq> [] then Some (tk_value tk) else None),
                                       st3\<lparr>ms_token := tk\<rparr>))))))"

definition blocking_request ::
  "memory_client \<Rightarrow> platform \<Rightarrow> string \<Rightarrow> string \<Rightarrow> json \<Rightarrow> memory_state
   \<Rightarrow> (exn_name + json option) \<times> memory_state" where
  "blocking_request cl pf meth path payload st =
     (case blocking_bearer cl pf st of
        (Inl e, st1) \<Rightarrow> (Inl e, st1)
      | (Inr None, st1) \<Rightarrow> (Inr None, st1)
      | (Inr (Some token), st1) \<Rightarrow>
          (let (answer, st2) =
             send pf (Api_request meth (cr_base_url (cl_credentials cl) @ path) token payload) st1 in
           case answer of
             Unreachable \<Rightarrow> (Inr None, st2)
           | Broken e \<Rightarrow> (Inl e, st2)
           | Answered status body \<Rightarrow>
               (let st3 = (if status = 401 then st2\<lparr>ms_token := no_token\<rparr> else st2) in
                if 400 \<le> status then (Inr None, st3)
                else case body of
                       Inl e \<Rightarrow> (Inl e, st3)
                     | Inr JNull \<Rightarrow> (Inr None, st3)
                     | Inr j \<Rightarrow> (Inr (Some j), st3))))"

definition blocking_get ::
  "memory_client \<Rightarrow> platform \<Rightarrow> string \<Rightarrow> json \<Rightarrow> memory_state \<Rightarrow> (exn_name + json option) \<times> memory_state" where
  "blocking_get cl pf path params = blocking_request cl pf ''GET'' path params"

definition blocking_post ::
  "memory_client \<Rightarrow> platform \<Rightarrow> string \<Rightarrow> json \<Rightarrow> memory_state \<Rightarrow> (exn_name + json option) \<times> memory_state" where
  "blocking_post cl pf path body = blocking_request cl pf ''POST'' path body"

definition client_path :: "memory_client \<Rightarrow> string \<Rightarrow> string" where
  "client_path cl call = ''/api/agents/'' @ cl_agent cl @ ''/'' @ call"

definition blocking_brief_detail ::
  "memory_client \<Rightarrow> platform \<Rightarrow> int \<Rightarrow> memory_state \<Rightarrow> (exn_name + brief) \<times> memory_state" where
  "blocking_brief_detail cl pf token_budget st =
     (let (body, st1) = blocking_get cl pf (client_path cl ''brief'') (JObj [(''token_budget'', JInt token_budget)]) st
      in (bindE body brief_from, st1))"

definition blocking_brief ::
  "memory_client \<Rightarrow> platform \<Rightarrow> int \<Rightarrow> memory_state \<Rightarrow> (exn_name + string) \<times> memory_state" where
  "blocking_brief cl pf token_budget st =
     (let (b, st1) = blocking_brief_detail cl pf token_budget st in (bindE b (\<lambda>b. Inr (bf_text b)), st1))"

definition blocking_recall ::
  "memory_client \<Rightarrow> platform \<Rightarrow> string \<Rightarrow> int \<Rightarrow> string \<Rightarrow> memory_state
   \<Rightarrow> (exn_name + memory_row list) \<times> memory_state" where
  "blocking_recall cl pf query limit mode st =
     (let (body, st1) = blocking_post cl pf (client_path cl ''recall'')
        (JObj [(''query'', JStr query), (''limit'', JInt limit), (''mode'', JStr mode)]) st
      in (bindE body (\<lambda>b. case b of None \<Rightarrow> Inr [] | Some b \<Rightarrow> bindE (hits_of b) memories_of), st1))"

definition blocking_remember ::
  "memory_client \<Rightarrow> platform \<Rightarrow> string \<Rightarrow> string \<Rightarrow> string option \<Rightarrow> string option \<Rightarrow> bool \<Rightarrow> memory_state
   \<Rightarrow> (exn_name + memory_row option) \<times> memory_state" where
  "blocking_remember cl pf content kind topic source_ref upsert st =
     (let (body, st1) = blocking_post cl pf (client_path cl ''memories'')
        (JObj [(''content'', JStr content), (''kind'', JStr kind), (''topic'', json_opt JStr topic),
               (''source_ref'', json_opt JStr source_ref), (''upsert'', JBool upsert)]) st
      in (bindE body (\<lambda>b. case b of None \<Rightarrow> Inr None | Some b \<Rightarrow> bindE (memory_of b) (\<lambda>m. Inr (Some m))), st1))"

section \<open>Both clients agree\<close>

lemma blocking_bearer_agrees: "blocking_bearer cl pf st = bearer (cl_credentials cl) pf st"
  by (auto simp: blocking_bearer_def bearer_def Let_def split: prod.splits http_answer.splits sum.splits)

lemma blocking_request_agrees:
  "blocking_request cl pf meth path payload st = memory_request (cl_credentials cl) pf meth path payload st"
  by (auto simp: blocking_request_def memory_request_def blocking_bearer_agrees Let_def
      split: prod.splits sum.splits option.splits http_answer.splits json.splits)

text \<open>The asynchronous twin is the same API: whatever the platform answers and whatever token is held, the
  three calls of both clients return the same value or raise the same exception, send the same
  requests and leave the same token behind.\<close>

lemma twins_agree:
  assumes "cl_agent cl = agent_slug"
  shows "blocking_brief_detail cl pf budget st = brief_detail (cl_credentials cl) pf budget st"
    "blocking_recall cl pf query limit ''hybrid'' st = recall_memories (cl_credentials cl) pf query limit st"
    "blocking_remember cl pf content kind topic None False st
       = remember_memory (cl_credentials cl) pf content kind topic st"
  using assms
  by (auto simp: blocking_brief_detail_def brief_detail_def blocking_recall_def recall_memories_def
      blocking_remember_def remember_memory_def blocking_get_def blocking_post_def blocking_request_agrees
      client_path_def agent_path_def json_opt_def Let_def split: prod.splits sum.splits option.splits)

end
