(* ===== verification/Commands.thy ===== *)
theory Commands
  imports Status Preflight
begin

text \<open>
  The commands an operator runs and what their exit status says: the status report (\<open>ops/status.py\<close>), the
  preflight (\<open>ops/preflight.py\<close>), the quality report (\<open>ops/pilot_gate.py\<close>, \<open>ops/quality_report.py\<close>), the
  release gate (\<open>evals/run.py\<close>) and the replica check (\<open>replica/check.py\<close>). What is printed is a value, the
  report in one of two formats or an error by its class name; argparse's own errors, the readings of the
  two timestamps and the outcome of the database are arguments.
\<close>

section \<open>Exit and output\<close>

datatype command_exit =
  Exit_code int
| Usage_error              \<comment> \<open>\<open>parser.error\<close>\<close>
| Exit_message string      \<comment> \<open>\<open>SystemExit\<close> with a text\<close>
| Uncaught exn_name

fun exit_status :: "command_exit \<Rightarrow> int" where
  "exit_status (Exit_code n) = n"
| "exit_status Usage_error = 2"
| "exit_status (Exit_message _) = 1"
| "exit_status (Uncaught _) = 1"

datatype 'r printed = Report_json 'r | Report_text 'r | Error_json string | Error_text string

record 'r command_run =
  cm_output :: "'r printed list"
  cm_exit :: command_exit
  cm_disposed :: bool       \<comment> \<open>whether the database engine was disposed of\<close>

definition print_report :: "bool \<Rightarrow> 'r \<Rightarrow> 'r printed" where
  "print_report json r = (if json then Report_json r else Report_text r)"

definition print_error :: "bool \<Rightarrow> exn_name \<Rightarrow> 'r printed" where
  "print_error json e = (let code = ''failed_'' @ e in if json then Error_json code else Error_text code)"

section \<open>The status report\<close>

definition status_run :: "bool \<Rightarrow> exn_name + status_report \<Rightarrow> status_report command_run" where
  "status_run json outcome =
     (case outcome of
        Inl e \<Rightarrow> \<lparr>cm_output = [print_error json e], cm_exit = Exit_code 2, cm_disposed = True\<rparr>
      | Inr r \<Rightarrow> \<lparr>cm_output = [print_report json r], cm_exit = Exit_code 0, cm_disposed = True\<rparr>)"

definition status_main :: "int \<Rightarrow> bool \<Rightarrow> (int \<Rightarrow> exn_name + status_report) \<Rightarrow> status_report command_run" where
  "status_main hours json collected =
     (if hours < 1 \<or> 24 * 90 < hours then \<lparr>cm_output = [], cm_exit = Usage_error, cm_disposed = False\<rparr>
      else status_run json (collected hours))"

section \<open>The preflight\<close>

definition preflight_run ::
  "string \<Rightarrow> app_config \<Rightarrow> readiness_profile \<Rightarrow> bool \<Rightarrow> bool \<Rightarrow> preflight_world
   \<Rightarrow> (string \<times> (string \<times> string) list) command_run" where
  "preflight_run head base profile live json w =
     (let report = run_preflight head base profile live w
      in \<lparr>cm_output = [print_report json report], cm_exit = Exit_code (if fst report = ''ok'' then 0 else 1),
          cm_disposed = True\<rparr>)"

section \<open>The quality report\<close>

definition value_error :: "exn_name \<Rightarrow> bool" where
  \<comment> \<open>\<open>ValueError\<close> and the subclasses the libraries raise\<close>
  "value_error e \<longleftrightarrow>
     e \<in> {''ValueError'', ''JSONDecodeError'', ''UnicodeDecodeError'', ''UnicodeEncodeError'', ''ValidationError''}"

record gate_arguments =
  gt_channel :: string
  gt_since :: "exn_name + int"
  gt_until :: "exn_name + int"
  gt_json :: bool
  gt_sample_size :: "int option"
  gt_min_image_cases :: "int option"
  gt_min_positive_rate :: "rat option"

definition gate_policy :: "bool \<Rightarrow> gate_arguments \<Rightarrow> quality_policy" where
  \<comment> \<open>the defaults of \<open>main(flexible)\<close> for the options that are absent\<close>
  "gate_policy flexible args =
     \<lparr>qp_expected_cases = (case gt_sample_size args of
        Some n \<Rightarrow> Some n | None \<Rightarrow> (if flexible then None else Some 10)),
      qp_min_image_cases = (case gt_min_image_cases args of
        Some n \<Rightarrow> n | None \<Rightarrow> (if flexible then 0 else 4)),
      qp_min_positive_rate = (case gt_min_positive_rate args of Some q \<Rightarrow> q | None \<Rightarrow> 9 / 10)\<rparr>"

definition gate_outcome :: "bool \<Rightarrow> gate_arguments \<Rightarrow> exn_name + db \<Rightarrow> exn_name + quality_report" where
  "gate_outcome flexible args database =
     bindE (gt_since args) (\<lambda>since.
     bindE (gt_until args) (\<lambda>until.
     bindE (build_policy (gate_policy flexible args)) (\<lambda>policy.
       if until < since then Inl ''ValueError''
       else bindE database (\<lambda>d. run_gate d (gt_channel args) since until policy))))"

definition gate_main :: "bool \<Rightarrow> gate_arguments \<Rightarrow> exn_name + db \<Rightarrow> quality_report command_run" where
  "gate_main flexible args database =
     (case gate_outcome flexible args database of
        Inl e \<Rightarrow>
          (if value_error e then \<lparr>cm_output = [], cm_exit = Usage_error, cm_disposed = True\<rparr>
           else \<lparr>cm_output = [print_error (gt_json args) e], cm_exit = Exit_code 2, cm_disposed = True\<rparr>)
      | Inr r \<Rightarrow> \<lparr>cm_output = [print_report (gt_json args) r],
                 cm_exit = Exit_code (if gr_passed r then 0 else 1), cm_disposed = True\<rparr>)"

section \<open>The release gate\<close>

definition eval_main ::
  "bool \<Rightarrow> string list \<Rightarrow> eval_case list \<Rightarrow> runner_env \<Rightarrow> (nat \<Rightarrow> int) \<Rightarrow> command_exit" where
  \<comment> \<open>the cases named are known by then, so \<open>run_live\<close> leaves by \<open>SystemExit\<close> only without credentials\<close>
  "eval_main live case_ids corpus env clock =
     (if length corpus \<noteq> 20 then Exit_message (''Slice 5 requires exactly 20 cases; found '' @ show_nat (length corpus))
      else if \<not> live then Exit_code 0
      else
        (let named = (if case_ids = [] then None else Some (fromkeys case_ids));
             unnamed = (case named of None \<Rightarrow> [] | Some ids \<Rightarrow> filter (\<lambda>i. i \<notin> ec_id ` set corpus) ids)
         in if unnamed \<noteq> [] then Exit_message (''Unknown evaluation case(s): '' @ str_join '', '' (sorted_texts unnamed))
            else case run_live env clock corpus named of
                   Inr r \<Rightarrow> Exit_code (if el_passed r then 0 else 1)
                 | Inl (Run_failure _) \<Rightarrow> Uncaught ''AgentRunFailure''
                 | Inl (Other_exception e) \<Rightarrow>
                     (if e = ''SystemExit''
                      then Exit_message ''Azure endpoint, API key, and main deployment are required for --live''
                      else Uncaught e)))"

section \<open>The replica check\<close>

record check_line =
  ck_replica_safe :: bool
  ck_schema_compatible :: bool
  ck_scope_version :: int

definition replica_check_main ::
  "app_config \<Rightarrow> data_scope \<Rightarrow> schema_catalog \<Rightarrow> replica_server \<Rightarrow> int \<Rightarrow> int \<Rightarrow> int
   \<Rightarrow> (exn_name + check_line) \<times> replica_state" where
  \<comment> \<open>the line it prints, and the state of the database object at the end\<close>
  "replica_check_main cfg scope schema sv now later again =
     (case load_knowledge scope schema of
        Inl e \<Rightarrow> (Inl e, initial_replica)
      | Inr knowledge \<Rightarrow>
          (case start_replica cfg (sc_query_limits (kb_scope knowledge)) sv now later initial_replica of
             (Inl e, st) \<Rightarrow> (Inl e, close_replica st)
           | (Inr _, st) \<Rightarrow>
               (case check_schema sv later again st of
                  (Inl e, st1) \<Rightarrow> (Inl e, close_replica st1)
                | (Inr drift, st1) \<Rightarrow>
                    (Inr \<lparr>ck_replica_safe = True, ck_schema_compatible = drift_ok drift,
                          ck_scope_version = sc_version (kb_scope knowledge)\<rparr>, close_replica st1))))"

section \<open>What the exit status says\<close>

lemma run_live_named:
  "run_live env clock corpus ids = Inr r \<Longrightarrow> corpus \<noteq> []"
  by (auto simp: run_live_def Let_def split: if_splits option.splits)

lemma replica_check_line:
  assumes "fst (replica_check_main cfg scope schema sv now later again) = Inr line"
  shows "verify_safety cfg sv = Inr () \<and> validate_dsn cfg = Inr () \<and> ck_schema_compatible line"
proof -
  obtain knowledge where k: "load_knowledge scope schema = Inr knowledge"
    using assms by (cases "load_knowledge scope schema") (simp_all add: replica_check_main_def)
  obtain st where st: "start_replica cfg (sc_query_limits (kb_scope knowledge)) sv now later initial_replica = (Inr (), st)"
    using assms k by (auto simp: replica_check_main_def split: prod.splits sum.splits)
  have "\<exists>cat. sv_catalog sv = Inr cat \<and> drift_ok (drift_of cat) \<and> db_pool st"
    using st
    by (auto simp: start_replica_def initial_replica_def check_schema_def catalog_def close_replica_def Let_def
        split: sum.splits option.splits prod.splits if_splits)
  moreover have "verify_safety cfg sv = Inr () \<and> validate_dsn cfg = Inr ()"
    using start_replica_verified [of cfg "sc_query_limits (kb_scope knowledge)" sv now later] by (simp add: st)
  ultimately show ?thesis
    using assms k st
    by (auto simp: replica_check_main_def check_schema_def catalog_def split: option.splits if_splits)
qed


text \<open>Every command that has touched the database disposes of its engine, whatever happened, and an error
  shows the class of the exception and nothing of its message.\<close>

lemma commands_dispose:
  "cm_disposed (gate_main flexible args database)" "cm_disposed (preflight_run head base profile live json w)"
  "cm_disposed (status_main hours json collected) \<longleftrightarrow> 1 \<le> hours \<and> hours \<le> 2160"
  "db_pool (snd (replica_check_main cfg scope schema sv now later again)) = False"
  by (auto simp: gate_main_def preflight_run_def status_main_def status_run_def replica_check_main_def Let_def
      close_replica_def initial_replica_def split: sum.split prod.split)

end
