(* ===== verification/CatalogSql.thy ===== *)
theory CatalogSql
  imports ReplicaDb
begin

text \<open>
  How the live catalogue is read (\<open>load_catalog\<close> of \<open>replica/catalog.py\<close>): the three queries in their
  order, the second and third for the relations the first returned. What the connection answers to a
  text is a parameter; what is made of the rows is \<open>Catalog.load_catalog\<close>.
\<close>

section \<open>The catalogue queries\<close>


definition catalog_relations_sql :: string where
  \<open>catalog_relations_sql = str_join [CHR 0x0A]
     [[],
      ''        SELECT c.oid, n.nspname AS schema, c.relname AS name, c.relkind::text AS kind,'',
      ''               LEFT(COALESCE(obj_description(c.oid, 'pg_class'), '' @ [CHR 0x27, CHR 0x27] @ ''), 1000) AS description,'',
      ''               has_table_privilege(c.oid, 'INSERT,UPDATE,DELETE,TRUNCATE') AS writable'',
      ''        FROM pg_catalog.pg_class c'',
      ''        JOIN pg_catalog.pg_namespace n ON n.oid = c.relnamespace'',
      ''        WHERE c.relkind IN ('r', 'p', 'v', 'm')'',
      ''          AND n.nspname NOT LIKE 'pg'' @ [CHR 0x5C] @ ''_%' ESCAPE '' @ [CHR 0x27] @ [CHR 0x5C] @ [CHR 0x27],
      ''          AND n.nspname <> 'information_schema'' @ [CHR 0x27],
      ''          AND has_schema_privilege(n.oid, 'USAGE')'',
      ''          AND has_table_privilege(c.oid, 'SELECT')'',
      ''        ORDER BY n.nspname, c.relname'',
      ''        '']\<close>

definition catalog_columns_sql :: string where
  \<open>catalog_columns_sql = str_join [CHR 0x0A]
     [[],
      ''        SELECT attrelid, attname, format_type(atttypid, atttypmod) AS type'',
      ''        FROM pg_catalog.pg_attribute'',
      ''        WHERE attrelid = ANY($1::oid[]) AND attnum > 0 AND NOT attisdropped'',
      ''        ORDER BY attrelid, attnum'',
      ''        '']\<close>

definition catalog_constraints_sql :: string where
  \<open>catalog_constraints_sql = str_join [CHR 0x0A]
     [[],
      ''        SELECT c.conname, c.contype::text AS contype, c.conrelid, c.confrelid,'',
      ''          ARRAY(SELECT a.attname FROM unnest(c.conkey) WITH ORDINALITY k(num, ord)'',
      ''                JOIN pg_attribute a ON a.attrelid = c.conrelid AND a.attnum = k.num'',
      ''                ORDER BY k.ord) AS columns,'',
      ''          ARRAY(SELECT a.attname FROM unnest(c.confkey) WITH ORDINALITY k(num, ord)'',
      ''                JOIN pg_attribute a ON a.attrelid = c.confrelid AND a.attnum = k.num'',
      ''                ORDER BY k.ord) AS target_columns'',
      ''        FROM pg_catalog.pg_constraint c'',
      ''        WHERE c.conrelid = ANY($1::oid[]) AND c.contype IN ('p', 'f')'',
      ''        '']\<close>

section \<open>Reading it\<close>

record catalog_connection =
  cc_relations :: "string \<Rightarrow> exn_name + relation_row list"
  cc_columns :: "string \<Rightarrow> int list \<Rightarrow> exn_name + column_row list"
  cc_constraints :: "string \<Rightarrow> int list \<Rightarrow> exn_name + constraint_row list"

definition fetch_catalog :: "catalog_connection \<Rightarrow> exn_name + live_catalog" where
  "fetch_catalog conn =
     bindE (cc_relations conn catalog_relations_sql) (\<lambda>rows.
       let ld = fold load_relation rows \<lparr>ld_heap = [], ld_names = [], ld_oids = [], ld_keys = []\<rparr>;
           oids = map fst (ld_oids ld)
       in bindE (cc_columns conn catalog_columns_sql oids) (\<lambda>columns.
          bindE (foldE load_column columns ld) (\<lambda>ld1.
          bindE (cc_constraints conn catalog_constraints_sql oids) (\<lambda>constraints.
          bindE (foldE load_constraint constraints ld1) (\<lambda>ld2.
            Inr \<lparr>cat_relations = map (\<lambda>(k, i). (k, ld_heap ld2 ! i)) (ld_names ld2),
                 cat_foreign_keys = ld_keys ld2\<rparr>)))))"

lemma fetch_catalog_loads:
  assumes "fetch_catalog conn = Inr cat"
  obtains rows oids columns constraints where "cc_relations conn catalog_relations_sql = Inr rows"
    "cc_columns conn catalog_columns_sql oids = Inr columns"
    "cc_constraints conn catalog_constraints_sql oids = Inr constraints"
    "load_catalog rows columns constraints = Inr cat"
  using assms that by (fastforce simp: fetch_catalog_def load_catalog_def Let_def bindE_Inr)

text \<open>A catalogue that was read is well formed: its relations stand under their own names and its foreign
  keys lead from one of them to another.\<close>

lemma fetched_catalog_ok:
  assumes "fetch_catalog conn = Inr cat"
  shows "catalog_ok cat"
  using assms by (rule fetch_catalog_loads) (rule loaded_catalog_is_closed)

end
