(* ===== verification/Journey.thy ===== *)
theory Journey
  imports Delivery Processes
begin

text \<open>
  The whole journey of a mention: the socket process receives its body, and a worker takes the jobs that
  follow from it (\<open>jobs/tasks.py\<close>) until the answer stands in the thread. The queue's loop is reduced to
  what the program sees of it: a job is taken from the front and its task runs.
\<close>

section \<open>Working off the queue\<close>

definition run_task :: "pipeline_env \<Rightarrow> job \<Rightarrow> Service.world \<Rightarrow> Service.world \<times> (exn_name + unit)" where
  "run_task pe job w =
     (if jb_task job = ''cerebro.jobs.tasks.process_slack_event''
      then process_stored_event (pe_svc pe) (jb_argument job) w
      else if jb_task job = ''cerebro.jobs.tasks.execute_agent_run'' then execute_run pe (jb_argument job) w
      else if jb_task job = ''cerebro.jobs.tasks.deliver_slack_output'' then deliver_output pe (jb_argument job) w
      else (w, Inl ''TaskNotFound''))"

fun work_off :: "pipeline_env \<Rightarrow> nat \<Rightarrow> Service.world \<Rightarrow> Service.world \<times> (exn_name + unit) list" where
  \<comment> \<open>at most the given number of jobs, with the outcome of each\<close>
  "work_off pe 0 w = (w, [])"
| "work_off pe (Suc n) w =
     (case w_jobs w of
        [] \<Rightarrow> (w, [])
      | job # jobs \<Rightarrow>
          (case run_task pe job (w\<lparr>w_jobs := jobs\<rparr>) of
             (w1, outcome) \<Rightarrow> (case work_off pe n w1 of (w2, outcomes) \<Rightarrow> (w2, outcome # outcomes))))"

lemma run_task_simps [simp]:
  "run_task pe (slack_event_job i) w = process_stored_event (pe_svc pe) i w"
  "run_task pe (agent_run_job i c) w = execute_run pe i w"
  "run_task pe (slack_output_job i) w = deliver_output pe i w"
  by (simp_all add: run_task_def slack_event_job_def agent_run_job_def slack_output_job_def)

section \<open>The keys of flavor replies\<close>

definition flavored :: "output_row \<Rightarrow> bool" where
  "flavored out \<longleftrightarrow> (so_kind out = Kind_feedback_flavor \<longrightarrow> starts_with ''feedback:'' (so_idempotency_key out))"

definition flavor_keys :: "db \<Rightarrow> bool" where
  "flavor_keys d \<longleftrightarrow> (\<forall>out \<in> set (db_outputs d). flavored out)"

lemma flavor_keys_upd:
  assumes "flavor_keys d" "\<And>r. so_kind (f r) = so_kind r" "\<And>r. so_idempotency_key (f r) = so_idempotency_key r"
  shows "flavor_keys (upd_output i f d)"
  using assms by (auto simp: flavor_keys_def flavored_def upd_output_def dest!: set_row_upd split: if_splits)

lemma flavor_keys_grow:
  "flavor_keys d \<Longrightarrow> set (db_outputs d') \<subseteq> insert out (set (db_outputs d)) \<Longrightarrow> flavored out \<Longrightarrow> flavor_keys d'"
  by (auto simp: flavor_keys_def)

lemma flavor_keys_same: "flavor_keys d \<Longrightarrow> db_outputs d' = db_outputs d \<Longrightarrow> flavor_keys d'"
  by (simp add: flavor_keys_def)

lemma inserted_outputs: "set (db_outputs (fst (insert_output r d))) \<subseteq> insert r (set (db_outputs d))"
  by (auto simp: insert_output_def table_defs)

lemma run_output_flavored: "kind \<noteq> Kind_feedback_flavor \<Longrightarrow> flavored (run_output env n c i body kind)"
  by (simp add: flavored_def)

lemma flavor_output_flavored: "flavored (pending_output env i c r ch th (flavor_key p) b k)"
  by (simp add: flavored_def flavor_key_def starts_with_def)

lemma answer_kind_flavor: "answer_kind result \<noteq> Kind_feedback_flavor"
  by (simp add: answer_kind_def)

lemma process_reaction_flavors:
  assumes "process_reaction env d e = Inr (d', out)" "flavor_keys d"
  shows "flavor_keys d'"
proof -
  have "\<exists>i c r ch th p. set (db_outputs d')
      \<subseteq> insert (pending_output env i c r ch th (flavor_key p) flavor_body Kind_feedback_flavor) (set (db_outputs d))"
    using assms(1) inserted_outputs
    by (cases "ev_payload e"; fastforce simp: process_reaction_def Let_def insert_output_def table_defs
        split: option.splits prod.splits if_splits)
  then show ?thesis using flavor_keys_grow [OF assms(2)] flavor_output_flavored by blast
qed

lemma process_txn_flavors:
  assumes "process_txn env d i = Inr (d', out)" "flavor_keys d"
  shows "flavor_keys d'"
proof -
  have message: "flavor_keys d2" if "process_message env d e = Inr (d2, x)" for e d2 x
    using process_message_tables [OF that] assms(2) by (simp add: flavor_keys_def)
  have finished: "flavor_keys (finish_event env i disp d)" for disp
    using assms(2) by (simp add: flavor_keys_def)
  show ?thesis
    using assms process_reaction_flavors message finished
    by (auto simp: process_txn_def simp del: insert_iff split: option.splits if_splits sum.splits)
qed

lemma complete_run_flavors:
  assumes "complete_run env i result body ing latency d = Inr (d', out)" "flavor_keys d"
  shows "flavor_keys d'"
proof -
  have "\<exists>n c. set (db_outputs d') \<subseteq> insert (run_output env n c i body (answer_kind result)) (set (db_outputs d))"
    using assms(1) by (fastforce simp: complete_run_def Let_def insert_output_def table_defs split: option.splits if_splits)
  then show ?thesis using flavor_keys_grow [OF assms(2)] run_output_flavored answer_kind_flavor by blast
qed

lemma fail_run_flavors:
  assumes "fail_run env i ex d = (d', out)" "flavor_keys d"
  shows "flavor_keys d'"
proof -
  have "\<exists>n c body. set (db_outputs d') \<subseteq> insert (run_output env n c i body Kind_error) (set (db_outputs d))"
    using assms(1) by (fastforce simp: fail_run_def Let_def insert_output_def table_defs split: option.splits if_splits)
  then show ?thesis using flavor_keys_grow [OF assms(2)] run_output_flavored by blast
qed

lemma interrupt_run_flavors:
  assumes "flavor_keys d"
  shows "flavor_keys (interrupt_run env i d)"
proof -
  have "\<exists>n c body. set (db_outputs (interrupt_run env i d)) \<subseteq> insert (run_output env n c i body Kind_error) (set (db_outputs d))"
    by (fastforce simp: interrupt_run_def Let_def insert_output_def table_defs split: option.splits)
  then show ?thesis using flavor_keys_grow [OF assms] run_output_flavored by blast
qed

lemma quiet_transactions:
  "db_outputs (fst (insert_event env event d)) = db_outputs d"
  "db_outputs (mark_queued i d) = db_outputs d"
  "db_outputs (mark_event_failed i e d) = db_outputs d"
  "begin_run env i d = Inr (d', st) \<Longrightarrow> db_outputs d' = db_outputs d"
  "record_ingestion i ing d = Inr d' \<Longrightarrow> db_outputs d' = db_outputs d"
  "cancel_if_stale env i d = Inr (d', b) \<Longrightarrow> db_outputs d' = db_outputs d"
  by (auto simp: insert_event_def mark_queued_def mark_event_failed_def begin_run_def record_ingestion_def
      cancel_if_stale_def cancel_run_def set_conversation_state_def table_defs Let_def
      split: option.splits if_splits)

lemma claim_flavors: "claim_output env i d = (d', claimed) \<Longrightarrow> flavor_keys d \<Longrightarrow> flavor_keys d'"
  by (auto simp: claim_output_def cancel_output_def split: option.splits if_splits intro!: flavor_keys_upd)

lemma fail_delivery_flavors: "fail_delivery env i e d = (d', b) \<Longrightarrow> flavor_keys d \<Longrightarrow> flavor_keys d'"
  by (auto simp: fail_delivery_def Let_def split: option.splits intro!: flavor_keys_upd)

lemma finish_delivery_flavors:
  assumes "finish_delivery env posted ts d = Inr d'" "flavor_keys d"
  shows "flavor_keys d'"
proof -
  have "d' = d \<or> db_outputs d' = db_outputs (upd_output (so_id posted) (sent_output env ts) d)"
    using assms(1)
    by (auto simp: finish_delivery_def insert_message_def Let_def add_message_def split: option.splits if_splits)
  moreover have "flavor_keys (upd_output (so_id posted) (sent_output env ts) d)"
    using assms(2) by (rule flavor_keys_upd) (simp_all add: sent_output_def)
  ultimately show ?thesis using assms(2) flavor_keys_same by metis
qed

interpretation flavors: preserving db_step flavor_keys
proof
  fix d d'
  assume ok: "flavor_keys d" and "db_step d d'"
  from this(2) show "flavor_keys d'"
    by cases (auto intro: ok process_txn_flavors complete_run_flavors fail_run_flavors interrupt_run_flavors
        claim_flavors fail_delivery_flavors finish_delivery_flavors
        flavor_keys_same [OF ok quiet_transactions(1)] flavor_keys_same [OF ok quiet_transactions(2)]
        flavor_keys_same [OF ok quiet_transactions(3)] flavor_keys_same [OF ok quiet_transactions(4)]
        flavor_keys_same [OF ok quiet_transactions(5)] flavor_keys_same [OF ok quiet_transactions(6)])
qed

lemma reachable_flavors: "reachable d \<Longrightarrow> flavor_keys d"
  unfolding reachable_def by (erule flavors.steps_good) (simp add: flavor_keys_def empty_db_def)

lemma run_output_key_run: "run_output_key i k = run_output_key j k' \<Longrightarrow> i = j"
proof -
  assume "run_output_key i k = run_output_key j k'"
  then have eq: "show_nat i @ '':'' @ output_kind_value k = show_nat j @ '':'' @ output_kind_value k'"
    by (simp add: run_output_key_def)
  have "\<not> ascii_digit (CHR '':'')" by (simp add: ascii_digit_def code_def)
  then have "takeWhile ascii_digit (show_nat n @ '':'' @ s) = show_nat n" for n s
    using show_nat_digits [of n] take_drop_digits(1) [of "show_nat n" "CHR '':''"] by auto
  then show "i = j"
    using arg_cong [OF eq, of "takeWhile ascii_digit"] by (simp add: show_nat_inject)
qed

text \<open>So a run that is still queued has no answer, under whatever key.\<close>

lemma queued_run_unanswered:
  assumes "reachable d" "get_run d i = Some r" "rn_status r = Run_queued"
  shows "run_output_key i k \<notin> so_idempotency_key ` set (db_outputs d)"
proof
  assume "run_output_key i k \<in> so_idempotency_key ` set (db_outputs d)"
  then obtain out where out: "out \<in> set (db_outputs d)" "so_idempotency_key out = run_output_key i k" by auto
  have "flavored out" using reachable_flavors [OF assms(1)] out(1) by (simp add: flavor_keys_def)
  with out(2) have "so_kind out \<noteq> Kind_feedback_flavor"
    by (auto simp: flavored_def run_output_key_def starts_with_def)
  then obtain j run where run: "get_run d j = Some run" "answer_matches run out"
    using reachable_consistent [OF assms(1)] out(1) by (auto simp: consistent_def answer_ok_def)
  then have "rn_id run = i" using out(2) run_output_key_run by (auto simp: answer_matches_def)
  moreover have "rn_id run = j" using run(1) by (rule runs.get_key)
  ultimately have "run = r" using run(1) assms(2) by simp
  then show False using run(2) assms(3) by (auto simp: answer_matches_def split: output_kind.splits)
qed

section \<open>The stations of a mention\<close>

lemma reachable_rows:
  assumes "reachable d"
  shows "r \<in> set (db_runs d) \<Longrightarrow> get_run d (rn_id r) = Some r"
    and "m \<in> set (db_messages d) \<Longrightarrow> get_message d (ms_id m) = Some m"
    and "out \<in> set (db_outputs d) \<Longrightarrow> get_output d (so_id out) = Some out"
    and "get_event d (db_next_id d) = None"
  using reachable_consistent [OF assms]
  by (auto simp: consistent_def invariant_def db_ok_def ids_ok_def get_run_def get_message_def get_output_def
      get_event_def row_get_mem row_get_None_iff)

lemma quiet_fair: "(\<And>k x. pe_interfere pe k x = x) \<Longrightarrow> fair pe"
  by (simp add: fair_for_def)

lemma handlers_reach:
  assumes "reachable (w_db w)"
  shows "receive_event env event w = (w', a) \<Longrightarrow> reachable (w_db w')"
    and "process_stored_event env i w = (w', b) \<Longrightarrow> reachable (w_db w')"
    and "fair pe \<Longrightarrow> execute_run pe i w = (w', b) \<Longrightarrow> reachable (w_db w')"
  using reachable_step [OF assms] receive_schedule [of "\<lambda>_. True" w env event] process_schedule [of "\<lambda>_. True" w env i]
    execute_run_schedule [OF _ runs_end_True, of pe w i] by auto

lemma received_once:
  assumes "reachable (w_db w)" and "i = db_next_id (w_db w)"
    and "ne_slack_event_id event \<notin> ev_slack_event_id ` set (db_events (w_db w))"
    and "\<not> event_ignored env event" and "se_dq env (slack_event_job i) (w_jobs w) = Deferred"
  shows "\<exists>w1. receive_event env event w = (w1, Inr (Some i)) \<and>
     get_event (w_db w1) i = Some ((new_event_row env i event)\<lparr>ev_disposition := Ev_queued\<rparr>) \<and>
     w_jobs w1 = w_jobs w @ [slack_event_job i] \<and> w_slack w1 = w_slack w \<and>
     db_messages (w_db w1) = db_messages (w_db w) \<and> db_runs (w_db w1) = db_runs (w_db w) \<and>
     db_outputs (w_db w1) = db_outputs (w_db w)"
proof -
  let ?e = "new_event_row env i event"
  have row: "ev_id ?e = i" "ev_disposition ?e = Ev_received" using assms(4) by (simp_all add: new_event_row_def)
  have "get_event (w_db w) i = None" using reachable_rows(4) [OF assms(1)] assms(2) by simp
  then have stored: "get_event (add_event ?e (w_db w)) i = Some ?e"
    using events.get_add_new [of "w_db w" ?e] row(1) by simp
  have queued: "get_event (mark_queued i (add_event ?e (w_db w))) i = Some (?e\<lparr>ev_disposition := Ev_queued\<rparr>)"
    using stored row(2) by (simp add: mark_queued_def events.get_upd_same)
  have "db_messages (mark_queued i d) = db_messages d" "db_runs (mark_queued i d) = db_runs d"
    "db_outputs (mark_queued i d) = db_outputs d" for d
    by (simp_all add: mark_queued_def row_simps split: option.splits)
  with queued show ?thesis
    using assms(2-5) by (simp add: receive_event_def insert_event_def enqueue_defs enqueue_def)
      (simp add: table_defs)
qed

lemma processed_mention_outputs:
  assumes "get_event d i = Some e" and "ev_event_type e = ''app_mention''" and "process_txn env d i = Inr (d', out)"
  shows "db_outputs d' = db_outputs d"
  using assms process_message_tables
  by (auto simp: process_txn_def simp del: insert_iff split: if_splits sum.splits)

lemma processed_mention:
  assumes "reachable (w_db w)" and "get_event (w_db w) i = Some e"
    and "ev_disposition e \<notin> {Ev_processed, Ev_ignored}"
    and "cfg_global_mode (se_config env) = Mode_enabled"
    and "ev_event_type e = ''app_mention''" and "ev_payload e = Message_payload p"
    and "event_time env (mp_message_ts p) = Inr t"
    and "(mp_channel p, mp_message_ts p) \<notin> (\<lambda>m. (ms_channel m, ms_message_ts m)) ` set (db_messages (w_db w))"
    and "\<And>j. se_dq env j (w_jobs w) = Deferred"
  shows "\<exists>w2 r m c. process_stored_event env i w = (w2, Inr ()) \<and> get_run (w_db w2) (rn_id r) = Some r \<and>
     rn_status r = Run_queued \<and> get_conversation (w_db w2) (rn_conversation_id r) = Some c \<and>
     trigger_of (w_db w2) r = Some m \<and> rn_trigger_message_id r = Some (ms_id m) \<and>
     db_messages (w_db w2) = db_messages (w_db w) @ [m] \<and> db_outputs (w_db w2) = db_outputs (w_db w) \<and>
     ms_direction m = ''inbound'' \<and> ms_text m = Some (mp_text p) \<and> ms_event_at m = t \<and>
     ms_channel m = mp_channel p \<and> ms_message_ts m = mp_message_ts p \<and>
     cv_channel c = mp_channel p \<and> cv_thread_ts c = py_str (mp_thread_ts p) \<and>
     w_jobs w2 = w_jobs w @ [agent_run_job (rn_id r) (rn_conversation_id r)] \<and> w_slack w2 = w_slack w"
proof -
  have inv: "invariant (w_db w)" using reachable_consistent [OF assms(1)] by (simp add: consistent_def)
  obtain d r m c where txn: "process_txn env (w_db w) i = Inr (d, Processed (Some (rn_id r, cv_id c)) None)"
    and run: "db_runs d = db_runs (w_db w) @ [r]" "rn_status r = Run_queued" "rn_conversation_id r = cv_id c"
      "rn_trigger_message_id r = Some (ms_id m)"
    and message: "db_messages d = db_messages (w_db w) @ [m]" "ms_direction m = ''inbound''"
      "ms_text m = Some (mp_text p)" "ms_event_at m = t" "ms_channel m = mp_channel p"
      "ms_message_ts m = mp_message_ts p"
    and conversation: "get_conversation d (cv_id c) = Some c" "cv_channel c = mp_channel p"
      "cv_thread_ts c = py_str (mp_thread_ts p)"
    using mention_starts_one_run [OF inv assms(2-8)] by blast
  let ?w2 = "w\<lparr>w_db := d, w_jobs := w_jobs w @ [agent_run_job (rn_id r) (cv_id c)]\<rparr>"
  have "reachable d" using reachable_step [OF assms(1)] step_process [OF txn] by blast
  then have "get_run d (rn_id r) = Some r" "get_message d (ms_id m) = Some m"
    using reachable_rows(1,2) run(1) message(1) by simp_all
  moreover have "process_stored_event env i w = (?w2, Inr ())"
    using txn assms(9) by (simp add: process_stored_event_def enqueue_defs enqueue_def)
  ultimately show ?thesis
    using run message conversation processed_mention_outputs [OF assms(2,5) txn]
    by (intro exI [of _ ?w2] exI [of _ r] exI [of _ m] exI [of _ c]) (simp add: trigger_of_def)
qed

lemma delivery_frame:
  assumes "\<And>k x. pe_interfere pe k x = x"
  shows "w_jobs (fst (deliver_output pe i w)) = w_jobs w"
    and "get_run (w_db (fst (deliver_output pe i w))) j = get_run (w_db w) j"
  by (auto simp: deliver_output_def claim_output_def fail_delivery_def finish_delivery_def insert_message_def
      clear_status_def set_status_def table_defs Let_def assms split: option.splits sum.splits prod.splits if_splits)

lemma answered_delivery:
  assumes "reachable (w_db w)" and "out \<in> set (db_outputs (w_db w))" and "so_status out = Out_pending"
    and "so_run_id out = Some (rn_id r)" and "get_run (w_db w) (rn_id r) = Some r" and "trigger_of (w_db w) r = Some m"
    and "\<not> newer_inbound (w_db w) (so_conversation_id out) (ms_event_at m)"
    and "cfg_global_mode (se_config (pe_svc pe)) = Mode_enabled" and "\<And>k x. pe_interfere pe k x = x"
    and "\<And>call. pe_post pe call = Inr response" and "jget ''ts'' response = JStr ts"
    and "\<forall>x \<in> set (db_outputs (w_db w)). so_message_ts x \<noteq> Some ts"
    and "(so_channel out, ts) \<notin> (\<lambda>m. (ms_channel m, ms_message_ts m)) ` set (db_messages (w_db w))"
  shows "\<exists>w' out' reply. deliver_output pe (so_id out) w = (w', Inr ()) \<and> w_jobs w' = w_jobs w \<and>
     w_slack w' = w_slack w @ [Post_message (so_channel out) (so_thread_ts out) (so_body out) (show_nat (so_id out))] \<and>
     get_output (w_db w') (so_id out) = Some out' \<and> so_status out' = Out_sent \<and> so_message_ts out' = Some ts \<and>
     db_messages (w_db w') = db_messages (w_db w) @ [reply] \<and> ms_direction reply = ''outbound'' \<and>
     ms_text reply = Some (so_body out) \<and> ms_conversation_id reply = so_conversation_id out \<and>
     get_run (w_db w') (rn_id r) = Some r"
proof -
  have get: "get_output (w_db w) (so_id out) = Some out" by (rule reachable_rows(3) [OF assms(1,2)])
  have fresh: "\<not> output_stale (w_db w) out" using assms(4-7) by (simp add: output_stale_def)
  show ?thesis
    using posted_output_is_recorded [OF get assms(3,8) fresh assms(9-13)] assms(5)
      delivery_frame [OF assms(9), where w = w and i = "so_id out"] by (metis fst_conv)
qed

lemma run_to_reply:
  assumes "reachable (w_db w)" and "get_run (w_db w) (rn_id r) = Some r" and "rn_status r = Run_queued"
    and "get_conversation (w_db w) (rn_conversation_id r) = Some c" and "trigger_of (w_db w) r = Some m"
    and "\<And>k. \<not> newer_inbound (w_db w) k (ms_event_at m)"
    and "cfg_global_mode (se_config (pe_svc pe)) = Mode_enabled" and "\<And>k x. pe_interfere pe k x = x"
    and "\<And>j. se_dq (pe_svc pe) j [] = Deferred"
    and "\<And>i atts n k. \<exists>batch. run_images (pe_ingest pe) i atts n k (pe_supports_images pe) = Inr batch"
    and "\<forall>i st batch. run_images (pe_ingest pe) i (sr_attachments st) (sr_requested st) (sr_rejected st)
           (pe_supports_images pe) = Inr batch \<longrightarrow> (\<exists>result. run_agent pe (runner_input i st batch) = Inr result)"
    and "\<And>call. pe_post pe call = Inr response" and "jget ''ts'' response = JStr ts"
    and "\<forall>x \<in> set (db_outputs (w_db w)). so_message_ts x \<noteq> Some ts"
    and "(cv_channel c, ts) \<notin> (\<lambda>m. (ms_channel m, ms_message_ts m)) ` set (db_messages (w_db w))"
    and "w_jobs w = [agent_run_job (rn_id r) (rn_conversation_id r)]"
  shows "\<exists>w' out reply r' ri result text.
     work_off pe 2 w = (w', [Inr (), Inr ()]) \<and> w_jobs w' = [] \<and> run_agent pe ri = Inr result \<and>
     ri_run_id ri = rn_id r' \<and> ri_slack_channel_id ri = cv_channel c \<and> ri_slack_thread_ts ri = cv_thread_ts c \<and>
     ri_trigger_ts ri = Some (ms_message_ts m) \<and>
     text = render_response (se_config (pe_svc pe)) (append_image_limitation result (ri_image_ingestion ri))
       (Some (ri_image_ingestion ri)) \<and>
     w_slack w' = w_slack w @ [Set_status (cv_channel c) (cv_thread_ts c) thinking,
       Post_message (cv_channel c) (cv_thread_ts c) text (show_nat (so_id out))] \<and>
     get_output (w_db w') (so_id out) = Some out \<and> so_status out = Out_sent \<and> so_message_ts out = Some ts \<and>
     get_run (w_db w') (rn_id r') = Some r' \<and> rn_status r' = Run_succeeded \<and>
     rn_trigger_message_id r' = rn_trigger_message_id r \<and>
     db_messages (w_db w') = db_messages (w_db w) @ [reply] \<and> ms_direction reply = ''outbound'' \<and>
     ms_text reply = Some text \<and> ms_conversation_id reply = rn_conversation_id r'"
proof -
  let ?w = "w\<lparr>w_jobs := []\<rparr>" and ?st = "run_start_of (w_db w) c m"
  obtain batch where images: "run_images (pe_ingest pe) (rn_id r) (sr_attachments ?st) (sr_requested ?st)
      (sr_rejected ?st) (pe_supports_images pe) = Inr batch" using assms(10) by blast
  obtain result where agent: "run_agent pe (runner_input (rn_id r) ?st batch) = Inr result"
    using assms(11) images by blast
  let ?answer = "append_image_limitation result (ib_ingestion batch)"
  let ?text = "render_response (se_config (pe_svc pe)) ?answer (Some (ib_ingestion batch))"
  have key: "run_output_key (rn_id r) (answer_kind ?answer) \<notin> so_idempotency_key ` set (db_outputs (w_db w))"
    by (rule queued_run_unanswered [OF assms(1-3)])
  obtain w3 r' out where executed: "execute_run pe (rn_id r) ?w = (w3, Inr ())"
    and run: "get_run (w_db w3) (rn_id r) = Some r'" "rn_status r' = Run_succeeded"
      "rn_trigger_message_id r' = rn_trigger_message_id r" "rn_conversation_id r' = rn_conversation_id r"
    and s3: "db_messages (w_db w3) = db_messages (w_db w)" "db_outputs (w_db w3) = db_outputs (w_db w) @ [out]"
      "w_slack w3 = w_slack w @ [Set_status (cv_channel c) (cv_thread_ts c) thinking]"
      "w_jobs w3 = [slack_output_job (so_id out)]"
    and out: "so_run_id out = Some (rn_id r)" "so_body out = ?text" "so_status out = Out_pending"
      "so_message_ts out = None" "so_conversation_id out = cv_id c" "so_channel out = cv_channel c"
      "so_thread_ts out = cv_thread_ts c"
    using run_answered [of ?w "rn_id r" r c m pe ?st batch result ?answer ?text] assms(2-9) images agent key by auto
  have ids: "rn_id r' = rn_id r" "cv_id c = rn_conversation_id r"
    using runs.get_key [OF run(1)] conversations.get_key [OF assms(4)] by simp_all
  have reach: "reachable (w_db w3)"
    using handlers_reach(3) [OF _ quiet_fair [OF assms(8)] executed] assms(1) by simp
  have trigger: "trigger_of (w_db w3) r' = Some m"
    using assms(5) run(3) s3(1) by (simp add: trigger_of_def get_message_def split: option.splits)
  obtain w' out' reply where delivered: "deliver_output pe (so_id out) (w3\<lparr>w_jobs := []\<rparr>) = (w', Inr ())"
    and final: "w_jobs w' = []"
      "w_slack w' = w_slack w3 @ [Post_message (cv_channel c) (cv_thread_ts c) ?text (show_nat (so_id out))]"
      "get_output (w_db w') (so_id out) = Some out'" "so_status out' = Out_sent" "so_message_ts out' = Some ts"
      "db_messages (w_db w') = db_messages (w_db w3) @ [reply]" "ms_direction reply = ''outbound''"
      "ms_text reply = Some ?text" "ms_conversation_id reply = cv_id c" "get_run (w_db w') (rn_id r') = Some r'"
    using answered_delivery [of "w3\<lparr>w_jobs := []\<rparr>" out r' m pe response ts, OF _ _ out(3) _ _ _ _ assms(7-8,12,13)]
      reach s3 out run(1) ids trigger assms(6,14,15) by (auto simp: newer_inbound_def)
  have "work_off pe 2 w = (w', [Inr (), Inr ()])"
    using executed s3(4) delivered final(1) assms(16) by (simp add: numeral_2_eq_2)
  moreover have "so_id out' = so_id out" using final(3) by (rule outputs.get_key)
  ultimately show ?thesis
    using agent final s3(1,3) run(2-4) ids
    by (intro exI [of _ w'] exI [of _ out'] exI [of _ reply] exI [of _ r'] exI [of _ "runner_input (rn_id r) ?st batch"]
        exI [of _ result] exI [of _ ?text]) (simp add: runner_input_def run_start_of_def)
qed

section \<open>From the mention to the answer\<close>

lemma mention_answered:
  assumes "reachable (w_db w)" and "w_jobs w = []"
    and "normalize_event body uid (se_config (pe_svc pe)) = Inr event"
    and "ne_event_type event = ''app_mention''" and "ne_payload event = Message_payload p"
    and "ne_kind event \<noteq> Ek_ignored" and "cfg_global_mode (se_config (pe_svc pe)) = Mode_enabled"
    and "ne_slack_event_id event \<notin> ev_slack_event_id ` set (db_events (w_db w))"
    and "(mp_channel p, mp_message_ts p) \<notin> (\<lambda>m. (ms_channel m, ms_message_ts m)) ` set (db_messages (w_db w))"
    and "event_time (pe_svc pe) (mp_message_ts p) = Inr t"
    and "\<forall>m \<in> set (db_messages (w_db w)). ms_direction m = ''inbound'' \<longrightarrow> ms_event_at m \<le> t"
    and "\<And>k x. pe_interfere pe k x = x" and "\<And>j. se_dq (pe_svc pe) j [] = Deferred"
    and "\<And>i atts n k. \<exists>batch. run_images (pe_ingest pe) i atts n k (pe_supports_images pe) = Inr batch"
    and "\<forall>i st batch. run_images (pe_ingest pe) i (sr_attachments st) (sr_requested st) (sr_rejected st)
           (pe_supports_images pe) = Inr batch \<longrightarrow> (\<exists>result. run_agent pe (runner_input i st batch) = Inr result)"
    and "\<And>call. pe_post pe call = Inr response" and "jget ''ts'' response = JStr ts"
    and "\<forall>x \<in> set (db_outputs (w_db w)). so_message_ts x \<noteq> Some ts"
    and "(mp_channel p, ts) \<notin> (\<lambda>m. (ms_channel m, ms_message_ts m)) ` set (db_messages (w_db w))"
    and "ts \<noteq> mp_message_ts p"
  shows "\<exists>w1 w' out m reply r ri result body'.
     socket_receive (pe_svc pe) (Inr ()) uid body w = (Inr [Acknowledged, Accepted ''app_mention''], w1) \<and>
     work_off pe 3 w1 = (w', [Inr (), Inr (), Inr ()]) \<and> w_jobs w' = [] \<and>
     run_agent pe ri = Inr result \<and> ri_run_id ri = rn_id r \<and> ri_trigger_ts ri = Some (mp_message_ts p) \<and>
     ri_slack_channel_id ri = mp_channel p \<and> ri_slack_thread_ts ri = py_str (mp_thread_ts p) \<and>
     body' = render_response (se_config (pe_svc pe)) (append_image_limitation result (ri_image_ingestion ri))
       (Some (ri_image_ingestion ri)) \<and>
     w_slack w' = w_slack w @ [Set_status (mp_channel p) (py_str (mp_thread_ts p)) thinking,
       Post_message (mp_channel p) (py_str (mp_thread_ts p)) body' (show_nat (so_id out))] \<and>
     get_output (w_db w') (so_id out) = Some out \<and> so_status out = Out_sent \<and> so_message_ts out = Some ts \<and>
     get_run (w_db w') (rn_id r) = Some r \<and> rn_status r = Run_succeeded \<and>
     rn_trigger_message_id r = Some (ms_id m) \<and>
     db_messages (w_db w') = db_messages (w_db w) @ [m, reply] \<and> ms_text m = Some (mp_text p) \<and>
     ms_direction reply = ''outbound'' \<and> ms_text reply = Some body' \<and>
     ms_conversation_id reply = rn_conversation_id r"
proof -
  let ?env = "pe_svc pe" and ?i = "db_next_id (w_db w)"
  have wanted: "\<not> event_ignored ?env event" using assms(6,7) by (simp add: event_ignored_def)
  have accepts: "se_dq ?env (slack_event_job ?i) (w_jobs w) = Deferred" using assms(2,13) by simp
  obtain w1 where received: "receive_event ?env event w = (w1, Inr (Some ?i))"
    and stored: "get_event (w_db w1) ?i = Some ((new_event_row ?env ?i event)\<lparr>ev_disposition := Ev_queued\<rparr>)"
    and s1: "w_jobs w1 = [slack_event_job ?i]" "w_slack w1 = w_slack w"
      "db_messages (w_db w1) = db_messages (w_db w)" "db_outputs (w_db w1) = db_outputs (w_db w)"
    using received_once [OF assms(1) refl assms(8) wanted accepts] assms(2) by auto
  have reach1: "reachable (w_db w1)" by (rule handlers_reach(1) [OF assms(1) received])
  let ?w1 = "w1\<lparr>w_jobs := []\<rparr>" and ?e = "(new_event_row ?env ?i event)\<lparr>ev_disposition := Ev_queued\<rparr>"
  have e: "ev_disposition ?e \<notin> {Ev_processed, Ev_ignored}" "ev_event_type ?e = ''app_mention''"
    "ev_payload ?e = Message_payload p" using assms(4,5) by (simp_all add: new_event_row_def)
  obtain w2 r m c where processed: "process_stored_event ?env ?i ?w1 = (w2, Inr ())"
    and run: "get_run (w_db w2) (rn_id r) = Some r" "rn_status r = Run_queued"
      "get_conversation (w_db w2) (rn_conversation_id r) = Some c" "trigger_of (w_db w2) r = Some m"
      "rn_trigger_message_id r = Some (ms_id m)"
    and s2: "db_messages (w_db w2) = db_messages (w_db w) @ [m]" "db_outputs (w_db w2) = db_outputs (w_db w)"
      "w_jobs w2 = [agent_run_job (rn_id r) (rn_conversation_id r)]" "w_slack w2 = w_slack w"
    and m: "ms_text m = Some (mp_text p)" "ms_event_at m = t" "ms_message_ts m = mp_message_ts p"
      "cv_channel c = mp_channel p" "cv_thread_ts c = py_str (mp_thread_ts p)"
    using processed_mention [of ?w1 ?i ?e ?env p t, OF _ _ e(1) assms(7) e(2,3) assms(10)] reach1 stored s1 assms(9,13) by auto
  have reach2: "reachable (w_db w2)" using handlers_reach(2) [OF _ processed] reach1 by simp
  have newest: "\<not> newer_inbound (w_db w2) k (ms_event_at m)" for k
    using assms(11) s2(1) m(2) by (auto simp: newer_inbound_def)
  obtain w' out reply r' ri result answer where final: "work_off pe 2 w2 = (w', [Inr (), Inr ()])" "w_jobs w' = []"
      "run_agent pe ri = Inr result" "ri_run_id ri = rn_id r'" "ri_trigger_ts ri = Some (mp_message_ts p)"
      "ri_slack_channel_id ri = mp_channel p" "ri_slack_thread_ts ri = py_str (mp_thread_ts p)"
      "answer = render_response (se_config ?env) (append_image_limitation result (ri_image_ingestion ri))
         (Some (ri_image_ingestion ri))"
    and slack: "w_slack w' = w_slack w2 @ [Set_status (cv_channel c) (cv_thread_ts c) thinking,
       Post_message (cv_channel c) (cv_thread_ts c) answer (show_nat (so_id out))]"
    and rest: "get_output (w_db w') (so_id out) = Some out" "so_status out = Out_sent" "so_message_ts out = Some ts"
      "get_run (w_db w') (rn_id r') = Some r'" "rn_status r' = Run_succeeded"
      "rn_trigger_message_id r' = rn_trigger_message_id r"
      "db_messages (w_db w') = db_messages (w_db w2) @ [reply]" "ms_direction reply = ''outbound''"
      "ms_text reply = Some answer" "ms_conversation_id reply = rn_conversation_id r'"
    using run_to_reply [OF reach2 run(1-4) newest assms(7,12-17) _ _ s2(3)] s2(1,2) m(3-5) assms(18-20) by auto
  have socket: "socket_receive ?env (Inr ()) uid body w = (Inr [Acknowledged, Accepted ''app_mention''], w1)"
    using assms(3,4) received by (simp add: socket_receive_def)
  have worked: "work_off pe 3 w1 = (w', [Inr (), Inr (), Inr ()])"
    using work_off.simps(2) [of pe 2 w1] s1(1) processed final(1) by simp
  show ?thesis
    using socket worked final(2-8) slack rest s2(1,4) m run(5)
    by (intro exI [of _ w1] exI [of _ w'] exI [of _ out] exI [of _ m] exI [of _ reply] exI [of _ r'] exI [of _ ri]
        exI [of _ result] exI [of _ answer]) simp
qed

text \<open>C6: a mention is answered in its thread. A worker that finds no other work takes three jobs after
  the socket process has received a new mention: the event, its run and the delivery. When nobody
  interferes, the images and the agent give a result and Slack accepts the post, none of the three fails,
  the queue is empty again, and Slack has been called twice: for the status of the thread and for one
  message in the channel and thread of the mention, whose text is the rendered result. The run that the mention
  triggered has succeeded, its output is recorded as sent with Slack's timestamp, and the conversation
  has gained the question and the answer.\<close>

theorem mention_is_answered:
  assumes "reachable (w_db w)" and "w_jobs w = []"
    and "normalize_event body uid (se_config (pe_svc pe)) = Inr event"
    and "ne_event_type event = ''app_mention''" and "ne_payload event = Message_payload p"
    and "ne_kind event \<noteq> Ek_ignored" and "cfg_global_mode (se_config (pe_svc pe)) = Mode_enabled"
    and "ne_slack_event_id event \<notin> ev_slack_event_id ` set (db_events (w_db w))"
    and "(mp_channel p, mp_message_ts p) \<notin> (\<lambda>m. (ms_channel m, ms_message_ts m)) ` set (db_messages (w_db w))"
    and "event_time (pe_svc pe) (mp_message_ts p) = Inr t"
    and "\<forall>m \<in> set (db_messages (w_db w)). ms_direction m = ''inbound'' \<longrightarrow> ms_event_at m \<le> t"
    and "\<And>k x. pe_interfere pe k x = x" and "\<And>j. se_dq (pe_svc pe) j [] = Deferred"
    and "\<And>i atts n k. \<exists>batch. run_images (pe_ingest pe) i atts n k (pe_supports_images pe) = Inr batch"
    and "\<And>i st batch. run_images (pe_ingest pe) i (sr_attachments st) (sr_requested st) (sr_rejected st)
           (pe_supports_images pe) = Inr batch \<Longrightarrow> \<exists>result. run_agent pe (runner_input i st batch) = Inr result"
    and "\<And>call. pe_post pe call = Inr response" and "jget ''ts'' response = JStr ts"
    and "\<forall>x \<in> set (db_outputs (w_db w)). so_message_ts x \<noteq> Some ts"
    and "(mp_channel p, ts) \<notin> (\<lambda>m. (ms_channel m, ms_message_ts m)) ` set (db_messages (w_db w))"
    and "ts \<noteq> mp_message_ts p"
  shows "\<exists>w1 w' out m reply r ri result body'.
     socket_receive (pe_svc pe) (Inr ()) uid body w = (Inr [Acknowledged, Accepted ''app_mention''], w1) \<and>
     work_off pe 3 w1 = (w', [Inr (), Inr (), Inr ()]) \<and> w_jobs w' = [] \<and>
     run_agent pe ri = Inr result \<and> ri_run_id ri = rn_id r \<and> ri_trigger_ts ri = Some (mp_message_ts p) \<and>
     ri_slack_channel_id ri = mp_channel p \<and> ri_slack_thread_ts ri = py_str (mp_thread_ts p) \<and>
     body' = render_response (se_config (pe_svc pe)) (append_image_limitation result (ri_image_ingestion ri))
       (Some (ri_image_ingestion ri)) \<and>
     w_slack w' = w_slack w @ [Set_status (mp_channel p) (py_str (mp_thread_ts p)) thinking,
       Post_message (mp_channel p) (py_str (mp_thread_ts p)) body' (show_nat (so_id out))] \<and>
     get_output (w_db w') (so_id out) = Some out \<and> so_status out = Out_sent \<and> so_message_ts out = Some ts \<and>
     get_run (w_db w') (rn_id r) = Some r \<and> rn_status r = Run_succeeded \<and>
     rn_trigger_message_id r = Some (ms_id m) \<and>
     db_messages (w_db w') = db_messages (w_db w) @ [m, reply] \<and> ms_text m = Some (mp_text p) \<and>
     ms_direction reply = ''outbound'' \<and> ms_text reply = Some body' \<and>
     ms_conversation_id reply = rn_conversation_id r"
  by (rule mention_answered [OF assms(1-14) _ assms(16-20)]) (use assms(15) in blast)

definition example_body :: json where
  "example_body = JObj [(''event_id'', JStr ''Ev1''),
     (''event'', JObj [(''type'', JStr ''app_mention''), (''user'', JStr ''U1''), (''channel'', JStr ''C1''),
        (''ts'', JStr ''1.0''), (''text'', JStr ''pago de 100'')])]"

lemma example_normalized:
  "\<exists>event p. normalize_event example_body None (se_config (pe_svc example_pe)) = Inr event \<and>
     ne_event_type event = ''app_mention'' \<and> ne_payload event = Message_payload p \<and> ne_kind event \<noteq> Ek_ignored \<and>
     mp_channel p = ''C1'' \<and> mp_message_ts p = ''1.0''"
  by (simp add: example_body_def normalize_event_def normalize_message_def safe_images_def Let_def
      duplicate_mention_def starts_with_def)

lemma mention_is_answered_witness:
  "\<exists>w1 w' out r. socket_receive example_env (Inr ()) None example_body empty_world =
       (Inr [Acknowledged, Accepted ''app_mention''], w1) \<and>
     work_off example_pe 3 w1 = (w', [Inr (), Inr (), Inr ()]) \<and> w_jobs w' = [] \<and>
     get_output (w_db w') (so_id out) = Some out \<and> so_status out = Out_sent \<and> so_message_ts out = Some ''9.9'' \<and>
     get_run (w_db w') (rn_id r) = Some r \<and> rn_status r = Run_succeeded \<and> length (db_messages (w_db w')) = 2"
proof -
  let ?pe = example_pe and ?w = empty_world
  obtain event p where event: "normalize_event example_body None (se_config (pe_svc ?pe)) = Inr event"
      "ne_event_type event = ''app_mention''" "ne_payload event = Message_payload p" "ne_kind event \<noteq> Ek_ignored"
    and p: "mp_message_ts p = ''1.0''"
    using example_normalized by blast
  have start: "reachable (w_db ?w)" "w_jobs ?w = []"
    by (simp_all add: reachable_def empty_world_def)
  have empty: "db_events (w_db ?w) = []" "db_messages (w_db ?w) = []" "db_outputs (w_db ?w) = []"
    by (simp_all add: empty_world_def empty_db_def)
  have new: "ne_slack_event_id event \<notin> ev_slack_event_id ` set (db_events (w_db ?w))"
    "(mp_channel p, ts) \<notin> (\<lambda>m. (ms_channel m, ms_message_ts m)) ` set (db_messages (w_db ?w))"
    "\<forall>m \<in> set (db_messages (w_db ?w)). ms_direction m = ''inbound'' \<longrightarrow> ms_event_at m \<le> 3"
    "\<forall>x \<in> set (db_outputs (w_db ?w)). so_message_ts x \<noteq> Some ts" for ts
    by (simp_all add: empty)
  have gate: "cfg_global_mode (se_config (pe_svc ?pe)) = Mode_enabled"
    and time: "event_time (pe_svc ?pe) (mp_message_ts p) = Inr 3"
    and quiet: "\<And>k x. pe_interfere ?pe k x = x" and queue: "\<And>j. se_dq (pe_svc ?pe) j [] = Deferred"
    and images: "\<And>i atts n k. \<exists>batch. run_images (pe_ingest ?pe) i atts n k (pe_supports_images ?pe) = Inr batch"
    and agent: "\<And>i st batch. run_images (pe_ingest ?pe) i (sr_attachments st) (sr_requested st) (sr_rejected st)
      (pe_supports_images ?pe) = Inr batch \<Longrightarrow> \<exists>result. run_agent ?pe (runner_input i st batch) = Inr result"
    and slack: "\<And>call. pe_post ?pe call = Inr (JObj [(''ts'', JStr ''9.9'')])"
    and ts: "jget ''ts'' (JObj [(''ts'', JStr ''9.9'')]) = JStr ''9.9''" "''9.9'' \<noteq> mp_message_ts p"
    by (simp_all add: example_pe_def example_env_def event_time_def p plain_defer_def run_images_def run_agent_def)
  have env: "pe_svc ?pe = example_env" by (simp add: example_pe_def)
  obtain w1 w' out m reply r where
    "socket_receive (pe_svc ?pe) (Inr ()) None example_body ?w = (Inr [Acknowledged, Accepted ''app_mention''], w1)"
    "work_off ?pe 3 w1 = (w', [Inr (), Inr (), Inr ()])" "w_jobs w' = []"
    "get_output (w_db w') (so_id out) = Some out" "so_status out = Out_sent" "so_message_ts out = Some ''9.9''"
    "get_run (w_db w') (rn_id r) = Some r" "rn_status r = Run_succeeded"
    "db_messages (w_db w') = db_messages (w_db ?w) @ [m, reply]"
    using mention_is_answered [OF start event gate new(1,2) time new(3) quiet queue images agent slack ts(1) new(4,2) ts(2)]
    by blast
  then show ?thesis unfolding env empty by (intro exI [of _ w1] exI [of _ w'] exI [of _ out] exI [of _ r]) simp
qed

end
