(* ===== verification/Tickets.thy ===== *)
theory Tickets
  imports Delivery
begin

text \<open>
  What the workflow looks like to the person who asked: a ticket that waits, is worked on and is settled,
  with an answer or without one. The lemma \<open>step_shape\<close> says what one transaction can do to the runs, to
  their audited tool calls and to their answers; that every schedule follows the abstract machine
  \<open>ticket_step\<close> rests on it.
\<close>

section \<open>Answers and tool calls of a run\<close>

type_synonym answer = "output_kind \<times> string \<times> string \<times> string"

definition answer_of :: "output_row \<Rightarrow> answer" where
  "answer_of out = (so_kind out, so_body out, so_channel out, so_thread_ts out)"

definition answers_run :: "nat \<Rightarrow> output_row \<Rightarrow> bool" where
  "answers_run i out \<longleftrightarrow> so_run_id out = Some i \<and> so_kind out \<noteq> Kind_feedback_flavor"

definition answers :: "db \<Rightarrow> nat \<Rightarrow> answer list" where
  "answers d i = map answer_of (filter (answers_run i) (db_outputs d))"

definition calls_of :: "db \<Rightarrow> nat \<Rightarrow> tool_audit_record list" where
  "calls_of d i = map tc_record (filter (\<lambda>t. tc_run_id t = i) (db_tool_calls d))"

lemma answers_same: "db_outputs d' = db_outputs d \<Longrightarrow> answers d' i = answers d i"
  by (simp add: answers_def)

lemma answers_add_message [simp]: "answers (add_message m d) i = answers d i"
  by (simp add: answers_def add_message_def)

lemma answers_row_upd:
  assumes "\<And>x. output_move x (f x)"
  shows "map answer_of (filter (answers_run i) (row_upd so_id k f rows)) = map answer_of (filter (answers_run i) rows)"
proof -
  have "answers_run i (f x) = answers_run i x" "answer_of (f x) = answer_of x" for x
    using assms [of x] by (simp_all add: output_move_def answers_run_def answer_of_def)
  then show ?thesis by (induction rows) (simp_all add: row_upd_def)
qed

lemma answers_upd_output: "(\<And>x. output_move x (f x)) \<Longrightarrow> answers (upd_output k f d) i = answers d i"
  by (simp add: answers_def upd_output_def answers_row_upd)

lemma answers_flavor:
  "so_kind out = Kind_feedback_flavor \<Longrightarrow> insert_output out d = (d', n) \<Longrightarrow> answers d' i = answers d i"
  by (auto simp: answers_def insert_output_def row_simps answers_run_def split: if_splits)

lemma answers_inserted:
  assumes "kind \<noteq> Kind_feedback_flavor"
  obtains as where "as = [] \<or> as = [(kind, body, cv_channel c, cv_thread_ts c)]"
    "\<And>j. answers (fst (insert_output (run_output env n c i body kind) d)) j = answers d j @ (if j = i then as else [])"
proof (cases "insert_output (run_output env n c i body kind) d")
  case (Pair d' x)
  show ?thesis
    by (rule that [of "if d' = d then [] else [(kind, body, cv_channel c, cv_thread_ts c)]"])
      (use assms Pair in \<open>auto simp: answers_def insert_output_def row_simps answers_run_def answer_of_def
        add_output_def split: if_splits\<close>)
qed

section \<open>What a transaction does\<close>

text \<open>How one transaction may change a run: to which row, with which tool calls stored and which answers
  queued.\<close>

inductive run_change ::
  "(py_exception + runner_result \<Rightarrow> bool) \<Rightarrow> run_row \<Rightarrow> run_row \<Rightarrow> tool_audit_record list \<Rightarrow> answer list \<Rightarrow> bool" for ends where
  change_start: "rn_status r = Run_queued \<Longrightarrow> rn_status r' = Run_running \<Longrightarrow> run_change ends r r' [] []"
| change_snapshot: "run_change ends r (r\<lparr>rn_input_snapshot := sn\<rparr>) [] []"
| change_cancel: "rn_status r \<in> {Run_queued, Run_running} \<Longrightarrow> rn_status r' = Run_cancelled \<Longrightarrow> run_change ends r r' [] []"
| change_succeed: "rn_status r = Run_running \<Longrightarrow> ends (Inr result) \<Longrightarrow>
    as = [] \<or> (\<exists>body ch th. as = [(answer_kind result, body, ch, th)]) \<Longrightarrow>
    run_change ends r (succeeded_run env result body ing latency r) (rm_tool_calls (result_meta result)) as"
| change_fail: "rn_status r = Run_running \<Longrightarrow> ends (Inl ex) \<and> calls = failure_calls ex \<or> calls = [] \<Longrightarrow>
    rn_status r' = Run_failed \<Longrightarrow> as = [] \<or> (\<exists>body ch th. as = [(Kind_error, body, ch, th)]) \<Longrightarrow>
    run_change ends r r' calls as"

definition run_changed :: "(py_exception + runner_result \<Rightarrow> bool) \<Rightarrow> db \<Rightarrow> db \<Rightarrow> bool" where
  "run_changed ends d d' \<longleftrightarrow> (\<exists>i r f calls as d0.
     get_run d i = Some r \<and> (\<forall>x. rn_id (f x) = rn_id x) \<and> db_runs d' = row_upd rn_id i f (db_runs d) \<and>
     run_change ends r (f r) calls as \<and>
     db_tool_calls d0 = db_tool_calls d \<and> db_tool_calls d' = db_tool_calls (persist_tool_calls i calls d0) \<and>
     (\<forall>j. answers d' j = answers d j @ (if j = i then as else [])))"

definition runs_added :: "db \<Rightarrow> db \<Rightarrow> bool" where
  "runs_added d d' \<longleftrightarrow> (\<exists>rs. db_runs d' = db_runs d @ rs \<and> (\<forall>r \<in> set rs. rn_status r = Run_queued)) \<and>
     db_tool_calls d' = db_tool_calls d \<and> (\<forall>i. answers d' i = answers d i)"

lemma runs_added_same:
  "db_runs d' = db_runs d \<Longrightarrow> db_tool_calls d' = db_tool_calls d \<Longrightarrow> db_outputs d' = db_outputs d \<Longrightarrow> runs_added d d'"
  by (simp add: runs_added_def answers_def)

lemma run_changedI:
  assumes "get_run d i = Some r" "\<And>x. rn_id (f x) = rn_id x" "run_change ends r (f r) [] []"
    and "db_runs d' = row_upd rn_id i f (db_runs d)" "db_tool_calls d' = db_tool_calls d" "db_outputs d' = db_outputs d"
  shows "run_changed ends d d'"
  unfolding run_changed_def
  by (rule exI [of _ i], rule exI [of _ r], rule exI [of _ f], rule exI [of _ "[]"], rule exI [of _ "[]"], rule exI [of _ d])
    (use assms in \<open>simp add: answers_def persist_tool_calls_def\<close>)

lemma call_frames [simp]:
  "db_tool_calls (set_conversation_state k st d) = db_tool_calls d"
  "db_tool_calls (upd_run k f d) = db_tool_calls d"
  "db_tool_calls (upd_event k fe d) = db_tool_calls d"
  "db_tool_calls (upd_conversation k fc d) = db_tool_calls d"
  "db_tool_calls (upd_output k fo d) = db_tool_calls d"
  "db_tool_calls (finish_event env k disp d) = db_tool_calls d"
  "db_tool_calls (fst (insert_output out d)) = db_tool_calls d"
  "db_runs (set_conversation_state k st d) = db_runs d"
  "db_runs (fst (insert_output out d)) = db_runs d"
  "db_runs (upd_run k f d) = row_upd rn_id k f (db_runs d)"
  "db_runs (upd_output k fo d) = db_runs d"
  by (simp_all add: set_conversation_state_def finish_event_def insert_output_def table_defs)

lemma persist_frames [simp]: "db_runs (persist_tool_calls i calls d) = db_runs d"
  unfolding persist_tool_calls_def
  by (induction calls arbitrary: d) (simp_all add: persist_tool_call_def add_tool_call_def)

lemma added_frames [simp]:
  "db_tool_calls (add_message m d) = db_tool_calls d"
  "db_tool_calls (add_run r d) = db_tool_calls d"
  "db_tool_calls (add_conversation c d) = db_tool_calls d"
  "db_tool_calls (add_event e d) = db_tool_calls d"
  "db_runs (add_event e d) = db_runs d" "db_outputs (add_event e d) = db_outputs d"
  by (simp_all add: table_defs)

lemma process_message_shape:
  assumes "process_message env d event = Inr (d', out)"
  shows "runs_added d d'"
proof -
  obtain d1 c where up: "upsert_conversation d (ev_payload event) (ev_event_type event = ''app_mention'') = Inr (d1, c)"
    using assms by (auto simp: process_message_def split: sum.splits)
  have t1: "db_runs d1 = db_runs d" "db_outputs d1 = db_outputs d" "db_tool_calls d1 = db_tool_calls d"
    using up upsert_conversation_tables [OF up]
    by (auto simp: upsert_conversation_def Let_def split: event_payload.splits if_splits option.splits)
  show ?thesis
  proof (cases c)
    case None
    with assms up t1 show ?thesis by (auto simp: process_message_def intro!: runs_added_same)
  next
    case (Some i)
    with assms up obtain p d2 m r where pay: "ev_payload event = Message_payload p"
      and st: "store_trigger env d1 i p = Inr (d2, m, r)"
      by (auto simp: process_message_def split: event_payload.splits sum.splits prod.splits)
    have t2: "(\<exists>rs. db_runs d2 = db_runs d1 @ rs \<and> (\<forall>r \<in> set rs. rn_status r = Run_queued)) \<and>
        db_outputs d2 = db_outputs d1 \<and> db_tool_calls d2 = db_tool_calls d1"
      using st store_trigger_tables [OF st]
      by (auto simp: store_trigger_def Let_def queued_run_def row_simps split: sum.splits if_splits)
    have "db_runs d' = db_runs d2 \<and> db_outputs d' = db_outputs d2 \<and> db_tool_calls d' = db_tool_calls d2"
      using assms up Some pay st
      by (cases r) (auto simp: process_message_def Let_def row_simps, auto simp: upd_conversation_def)
    with t1 t2 show ?thesis by (simp add: runs_added_def answers_def)
  qed
qed

lemma process_reaction_shape:
  assumes "process_reaction env d event = Inr (d', out)"
  shows "runs_added d d'"
proof -
  have calls: "db_tool_calls d' = db_tool_calls d"
    using assms
    by (auto simp: process_reaction_def Let_def upsert_feedback_def deactivate_feedback_def map_feedback_def
        add_feedback_def insert_output_def row_simps add_output_def
        split: option.splits event_payload.splits prod.splits if_splits)
  obtain os where os: "db_outputs d' = db_outputs d @ os" "\<forall>o' \<in> set os. so_kind o' = Kind_feedback_flavor"
    and runs: "db_runs d' = db_runs d"
    using process_reaction_tables [OF assms] by blast
  have "filter (answers_run i) os = []" for i
    using os(2) by (simp add: filter_empty_conv answers_run_def)
  with os(1) calls runs show ?thesis by (simp add: runs_added_def answers_def)
qed

lemma process_txn_shape:
  assumes "process_txn env d i = Inr (d', out)"
  shows "runs_added d d'"
proof -
  have "runs_added d (finish_event env i disp d)" for disp by (rule runs_added_same) simp_all
  moreover have "runs_added d d" by (rule runs_added_same) simp_all
  ultimately show ?thesis
    using assms process_message_shape process_reaction_shape
    by (auto simp: process_txn_def simp del: insert_iff split: option.splits if_splits sum.splits)
qed

lemma begin_run_shape:
  assumes "begin_run env i d = Inr (d', st)"
  shows "runs_added d d' \<or> run_changed ends d d'"
proof (cases "get_run d i")
  case (Some r)
  let ?cancel = "\<lambda>r. r\<lparr>rn_status := Run_cancelled, rn_finished_at := Some (se_now env)\<rparr>"
  have cancelled: "run_changed ends d d'"
    if "rn_status r = Run_queued" "d' = cancel_run env i d \<or> d' = set_conversation_state k s (cancel_run env i d)" for k s
    by (rule run_changedI [OF Some, of ?cancel]) (use that in \<open>auto simp: cancel_run_def intro: change_cancel\<close>)
  have started: "run_changed ends d (upd_run i (\<lambda>r. r\<lparr>rn_status := Run_running, rn_started_at := t,
      rn_input_snapshot := sn\<rparr>) d)" if "rn_status r = Run_queued" for t sn
    by (rule run_changedI [OF Some]) (use that in \<open>auto intro: change_start\<close>)
  show ?thesis
    using assms Some cancelled started runs_added_same [of d d]
    by (auto simp: begin_run_def Let_def split: if_splits option.splits)
qed (use assms in \<open>simp add: begin_run_def runs_added_same\<close>)

lemma cancel_if_stale_shape:
  assumes "cancel_if_stale env i d = Inr (d', b)"
  shows "runs_added d d' \<or> run_changed ends d d'"
proof (cases "get_run d i")
  case (Some r)
  have cancelled: "run_changed ends d (set_conversation_state k s (cancel_run env i d))"
    if "rn_status r \<in> {Run_queued, Run_running}" for k s
    by (rule run_changedI [OF Some, of "\<lambda>r. r\<lparr>rn_status := Run_cancelled, rn_finished_at := Some (se_now env)\<rparr>"])
      (use that in \<open>auto simp: cancel_run_def intro: change_cancel\<close>)
  show ?thesis
    using assms Some cancelled runs_added_same [of d d]
    by (auto simp: cancel_if_stale_def simp del: insert_iff split: if_splits option.splits)
qed (use assms in \<open>simp add: cancel_if_stale_def runs_added_same\<close>)

lemma record_ingestion_shape:
  assumes "record_ingestion i ing d = Inr d'"
  shows "run_changed ends d d'"
proof -
  obtain r f where "get_run d i = Some r" "d' = upd_run i (\<lambda>r. r\<lparr>rn_input_snapshot := f r\<rparr>) d"
    using assms by (auto simp: record_ingestion_def split: option.splits)
  then show ?thesis by (intro run_changedI [of d i r]) (auto intro: change_snapshot)
qed

text \<open>The common end of a run that succeeded, failed or was interrupted: its row, its calls, its conversation
  and its answer.\<close>

lemma ended_shape:
  assumes "get_run d i = Some r" "\<And>x. rn_id (f x) = rn_id x" "kind \<noteq> Kind_feedback_flavor"
    and "\<And>as. as = [] \<or> (\<exists>body ch th. as = [(kind, body, ch, th)]) \<Longrightarrow> run_change ends r (f r) calls as"
    and "db_runs d3 = row_upd rn_id i f (db_runs d)" "db_outputs d3 = db_outputs d"
    and "db_tool_calls d0 = db_tool_calls d" "db_tool_calls d3 = db_tool_calls (persist_tool_calls i calls d0)"
    and "d' = d3 \<or> d' = fst (insert_output (run_output env n c i body kind) d3)"
  shows "run_changed ends d d'"
proof -
  obtain as where as: "as = [] \<or> as = [(kind, body, cv_channel c, cv_thread_ts c)]"
    "\<And>j. answers d' j = answers d3 j @ (if j = i then as else [])"
  proof (cases "d' = d3")
    case True
    then show ?thesis by (intro that [of "[]"]) simp_all
  next
    case False
    then have d': "d' = fst (insert_output (run_output env n c i body kind) d3)" using assms(9) by simp
    show ?thesis by (rule answers_inserted [OF assms(3)]) (rule that, assumption, simp only: d')
  qed
  have "answers d3 j = answers d j" for j using assms(6) by (rule answers_same)
  moreover have "db_runs d' = db_runs d3" "db_tool_calls d' = db_tool_calls d3" using assms(9) by auto
  moreover have "run_change ends r (f r) calls as" using as(1) by (intro assms(4)) auto
  ultimately show ?thesis
    unfolding run_changed_def using assms(1,2,5,7,8) as(2)
    by (intro exI [of _ i] exI [of _ r] exI [of _ f] exI [of _ calls] exI [of _ as] exI [of _ d0]) simp
qed

lemma complete_run_shape:
  assumes "complete_run env i result body ing latency d = Inr (d', out)" "ends (Inr result)"
  shows "runs_added d d' \<or> run_changed ends d d'"
proof (cases "\<exists>r c. get_run d i = Some r \<and> rn_status r = Run_running \<and> get_conversation d (rn_conversation_id r) = Some c")
  case False
  then show ?thesis using assms by (auto simp: complete_run_def runs_added_same split: option.splits if_splits)
next
  case True
  then obtain r c where r: "get_run d i = Some r" "rn_status r = Run_running"
      "get_conversation d (rn_conversation_id r) = Some c" by blast
  let ?d0 = "set_conversation_state (cv_id c) Conv_answered (upd_run i (succeeded_run env result body ing latency) d)"
  let ?d3 = "persist_tool_calls i (rm_tool_calls (result_meta result)) ?d0"
  have "d' = ?d3 \<or> d' = fst (insert_output (run_output env (db_next_id ?d3) c i body (answer_kind result)) ?d3)"
    using assms(1) r by (auto simp: complete_run_def Let_def split: if_splits)
  then have "run_changed ends d d'"
    by (intro ended_shape [OF r(1), where f = "succeeded_run env result body ing latency" and ?d0.0 = ?d0 and ?d3.0 = ?d3])
      (auto simp: r(2) answer_kind_def intro!: change_succeed assms(2))
  then show ?thesis ..
qed

lemma fail_run_shape:
  assumes "fail_run env i ex d = (d', out)" "ends (Inl ex)"
  shows "runs_added d d' \<or> run_changed ends d d'"
proof (cases "\<exists>r. get_run d i = Some r \<and> rn_status r = Run_running")
  case False
  then show ?thesis using assms by (auto simp: fail_run_def runs_added_same split: option.splits if_splits)
next
  case True
  then obtain r where r: "get_run d i = Some r" "rn_status r = Run_running" by blast
  let ?f = "\<lambda>r. failed_run env ''runner_error'' (exception_name ex) (failed_meta ex r)"
  let ?d1 = "persist_tool_calls i (failure_calls ex) (upd_run i (failed_meta ex) d)"
  let ?d2 = "upd_run i (failed_run env ''runner_error'' (exception_name ex)) ?d1"
  have runs: "db_runs ?d2 = row_upd rn_id i ?f (db_runs d)"
    by (simp add: row_upd_def comp_def)
  have "\<exists>d3 c n body. db_runs d3 = db_runs ?d2 \<and> db_outputs d3 = db_outputs ?d2 \<and> db_tool_calls d3 = db_tool_calls ?d2 \<and>
      (d' = d3 \<or> d' = fst (insert_output (run_output env n c i body Kind_error) d3))"
  proof (cases "get_conversation ?d2 (rn_conversation_id r)")
    case None
    with assms(1) r have "d' = ?d2" by (simp add: fail_run_def Let_def del: persist_tool_calls_frame set_state_frame)
    then show ?thesis by blast
  next
    case (Some c)
    let ?d3 = "set_conversation_state (cv_id c) Conv_failed ?d2"
    have "d' = ?d3 \<or> (\<exists>n body. d' = fst (insert_output (run_output env n c i body Kind_error) ?d3))"
      using assms(1) r Some
      by (auto simp: fail_run_def Let_def simp del: persist_tool_calls_frame set_state_frame split: if_splits)
        (metis fst_conv)
    moreover have "db_runs ?d3 = db_runs ?d2" "db_outputs ?d3 = db_outputs ?d2" "db_tool_calls ?d3 = db_tool_calls ?d2"
      by (simp_all only: call_frames frames)
    ultimately show ?thesis by blast
  qed
  then obtain d3 c n body where d3: "db_runs d3 = db_runs ?d2" "db_outputs d3 = db_outputs ?d2"
      "db_tool_calls d3 = db_tool_calls ?d2" "d' = d3 \<or> d' = fst (insert_output (run_output env n c i body Kind_error) d3)"
    by blast
  have "run_changed ends d d'"
    by (rule ended_shape [OF r(1), where f = ?f and ?d0.0 = "upd_run i (failed_meta ex) d" and ?d3.0 = d3
          and kind = Kind_error and calls = "failure_calls ex"])
      (use d3 runs in \<open>auto simp: r(2) intro!: change_fail assms(2)\<close>)
  then show ?thesis ..
qed

lemma interrupt_run_shape: "runs_added d (interrupt_run env i d) \<or> run_changed ends d (interrupt_run env i d)"
proof (cases "\<exists>r. get_run d i = Some r \<and> rn_status r = Run_running")
  case False
  then show ?thesis by (auto simp: interrupt_run_def runs_added_same split: option.splits if_splits)
next
  case True
  then obtain r where r: "get_run d i = Some r" "rn_status r = Run_running" by blast
  let ?f = "failed_run env ''worker_interrupted'' ''worker_heartbeat_expired''"
  let ?d' = "interrupt_run env i d"
  have "\<exists>d3 c n body. db_runs d3 = row_upd rn_id i ?f (db_runs d) \<and> db_outputs d3 = db_outputs d \<and>
      db_tool_calls d3 = db_tool_calls d \<and> (?d' = d3 \<or> ?d' = fst (insert_output (run_output env n c i body Kind_error) d3))"
    using r by (auto simp: interrupt_run_def Let_def simp del: set_state_frame split: option.splits)
      (metis call_frames(1,2,8,10) frames(3,5))+
  then obtain d3 c n body where d3: "db_runs d3 = row_upd rn_id i ?f (db_runs d)" "db_outputs d3 = db_outputs d"
      "db_tool_calls d3 = db_tool_calls d" "?d' = d3 \<or> ?d' = fst (insert_output (run_output env n c i body Kind_error) d3)"
    by blast
  have "run_changed ends d ?d'"
    by (rule ended_shape [OF r(1), where f = ?f and ?d0.0 = d and ?d3.0 = d3 and kind = Kind_error and calls = "[]"])
      (use d3 in \<open>auto simp: r(2) persist_tool_calls_def intro!: change_fail\<close>)
  then show ?thesis ..
qed

lemma step_shape:
  assumes "job_step ends d d'"
  shows "runs_added d d' \<or> run_changed ends d d'"
  using assms
proof cases
  case (step_claim env i claimed)
  then show ?thesis
    by (auto simp: claim_output_def runs_added_def cancel_output_def output_move_def intro!: answers_upd_output
        split: option.splits if_splits)
next
  case (step_undelivered env i e b)
  then show ?thesis
    by (auto simp: fail_delivery_def Let_def runs_added_def output_move_def intro!: answers_upd_output split: option.splits)
next
  case (step_delivered env posted ts)
  have "runs_added d (insert_message m (upd_output k (sent_output env ts) d))" for m k
    by (auto simp: runs_added_def insert_message_def row_simps sent_output_def output_move_def answers_upd_output)
  then show ?thesis
    using step_delivered runs_added_same [of d d] by (auto simp: finish_delivery_def Let_def split: option.splits if_splits)
next
  case (step_receive env event)
  then show ?thesis by (auto simp: insert_event_def intro!: runs_added_same)
next
  case (step_queued i)
  then show ?thesis by (auto simp: mark_queued_def row_simps intro!: runs_added_same split: option.splits)
next
  case (step_event_failed i e)
  then show ?thesis by (auto simp: mark_event_failed_def row_simps intro!: runs_added_same split: option.splits)
qed (simp_all add: process_txn_shape begin_run_shape record_ingestion_shape cancel_if_stale_shape complete_run_shape
    fail_run_shape interrupt_run_shape)

section \<open>Tickets\<close>

datatype ticket = Absent | Waiting | Working | Settled run_status "answer list"

definition ticket_of :: "db \<Rightarrow> nat \<Rightarrow> ticket" where
  "ticket_of d i =
     (case get_run d i of
        None \<Rightarrow> Absent
      | Some r \<Rightarrow>
          (if rn_status r = Run_queued then Waiting
           else if rn_status r = Run_running then Working
           else Settled (rn_status r) (answers d i)))"

definition answered_with :: "output_kind set \<Rightarrow> answer list \<Rightarrow> bool" where
  \<comment> \<open>no answer, because the gate was closed, or one\<close>
  "answered_with kinds as \<longleftrightarrow> as = [] \<or> (\<exists>kind \<in> kinds. \<exists>body ch th. as = [(kind, body, ch, th)])"

inductive ticket_step :: "ticket \<Rightarrow> ticket \<Rightarrow> bool" where
  asked: "ticket_step Absent Waiting"
| taken: "ticket_step Waiting Working"
| dropped: "t \<in> {Waiting, Working} \<Longrightarrow> ticket_step t (Settled Run_cancelled [])"
| solved: "answered_with {Kind_investigation, Kind_general_reply} as \<Longrightarrow> ticket_step Working (Settled Run_succeeded as)"
| broke: "answered_with {Kind_error} as \<Longrightarrow> ticket_step Working (Settled Run_failed as)"

lemma open_unanswered:
  assumes "consistent d" "get_run d i = Some r" "rn_status r \<in> {Run_queued, Run_running}"
  shows "answers d i = []"
proof -
  have "\<not> answers_run i out" if "out \<in> set (db_outputs d)" for out
  proof
    assume a: "answers_run i out"
    have "answer_ok d out" using assms(1) that by (simp add: consistent_def)
    with a obtain r' where "get_run d i = Some r'" "answer_matches r' out"
      by (auto simp: answer_ok_def answers_run_def)
    then show False using assms(2,3) by (auto simp: answer_matches_def split: output_kind.splits)
  qed
  then show ?thesis by (simp add: answers_def filter_empty_conv)
qed

lemma changed_ticket:
  assumes "run_change ends r r' calls as" "answers d i = [] \<or> rn_status r \<notin> {Run_queued, Run_running}"
    and "get_run d i = Some r" "get_run d' i = Some r'" "answers d' i = answers d i @ as"
  shows "ticket_of d' i = ticket_of d i \<or> ticket_step (ticket_of d i) (ticket_of d' i)"
  using assms
  by cases (auto simp: ticket_of_def answered_with_def answer_kind_def intro: ticket_step.intros)

lemma step_refines_ticket:
  assumes "consistent d" "job_step ends d d'"
  shows "ticket_of d' i = ticket_of d i \<or> ticket_step (ticket_of d i) (ticket_of d' i)"
  using step_shape [OF assms(2)]
proof
  assume added: "runs_added d d'"
  then obtain rs where rs: "db_runs d' = db_runs d @ rs" "\<forall>r \<in> set rs. rn_status r = Run_queued"
    and same: "answers d' i = answers d i"
    unfolding runs_added_def by blast
  show ?thesis
  proof (cases "get_run d i")
    case None
    have "rn_status r = Run_queued" if "get_run d' i = Some r" for r
      using that None rs by (auto simp: get_run_def row_get_append dest: row_get_Some)
    with None show ?thesis by (auto simp: ticket_of_def intro: asked split: option.splits)
  next
    case (Some r)
    with rs(1) have "get_run d' i = Some r" by (simp add: get_run_def row_get_append)
    with Some same show ?thesis by (simp add: ticket_of_def)
  qed
next
  assume "run_changed ends d d'"
  then obtain k r f calls as where k: "get_run d k = Some r" "\<forall>x. rn_id (f x) = rn_id x"
      "db_runs d' = row_upd rn_id k f (db_runs d)" "run_change ends r (f r) calls as"
      "\<forall>j. answers d' j = answers d j @ (if j = k then as else [])"
    unfolding run_changed_def by blast
  have get: "get_run d' j = (if j = k then Some (f r) else get_run d j)" for j
    using k(1-3) row_get_upd [of rn_id f k "db_runs d" j] by (simp add: get_run_def keeps_def)
  show ?thesis
  proof (cases "i = k")
    case True
    have "answers d i = [] \<or> rn_status r \<notin> {Run_queued, Run_running}"
      using open_unanswered [OF assms(1) k(1)] True by blast
    from changed_ticket [OF k(4) this] k(1,5) get True show ?thesis by simp
  next
    case False
    have "answers d' i = answers d i" using k(5) False by simp
    with get False show ?thesis by (simp add: ticket_of_def split: option.split)
  qed
qed

text \<open>C4: Every schedule is, for each run, a path of the ticket machine. However the handlers, workers and
  retries of the system interleave, a run is asked for, taken and settled once: dropped without an
  answer, solved with at most one reply or broken with at most one error message; and a settled ticket,
  its answer included, never changes again.\<close>

theorem schedules_refine_tickets:
  assumes "reachable d" "db_step\<^sup>*\<^sup>* d d'"
  shows "ticket_step\<^sup>*\<^sup>* (ticket_of d i) (ticket_of d' i) \<and>
    (\<forall>s as. ticket_of d i = Settled s as \<longrightarrow> ticket_of d' i = Settled s as)"
proof -
  have stuck: "\<not> ticket_step (Settled s as) t" for s as t by (auto elim: ticket_step.cases)
  have path: "ticket_step\<^sup>*\<^sup>* (ticket_of d i) (ticket_of d' i)"
    using assms(2)
  proof (induction rule: rtranclp_induct)
    case (step a b)
    have "consistent a" using reachable_consistent [OF reachable_step [OF assms(1) step.hyps(1)]] .
    from step_refines_ticket [OF this step.hyps(2), of i] step.IH show ?case
      by (metis rtranclp.rtrancl_into_rtrancl)
  qed simp
  moreover have "ticket_of d' i = Settled s as" if "ticket_of d i = Settled s as" for s as
    using path that stuck by (metis converse_rtranclpE)
  ultimately show ?thesis by blast
qed

lemma schedules_refine_tickets_witness:
  "\<exists>as. as \<noteq> [] \<and> ticket_step\<^sup>*\<^sup>* (ticket_of empty_db 3) (Settled Run_failed as) \<and> ticket_of empty_db 3 = Absent"
proof -
  have start: "reachable empty_db" by (simp add: reachable_def)
  obtain out r where facts: "db_outputs interrupted_db = [out]" "so_run_id out = Some 3" "so_kind out = Kind_error"
      "get_run interrupted_db 3 = Some r" "rn_status r = Run_failed"
    using interrupted_facts by blast
  then have "ticket_of interrupted_db 3 = Settled Run_failed (answers interrupted_db 3)" "answers interrupted_db 3 \<noteq> []"
    by (simp_all add: ticket_of_def answers_def answers_run_def)
  moreover have "ticket_of empty_db 3 = Absent" by (simp add: ticket_of_def empty_db_def table_defs)
  ultimately show ?thesis
    using schedules_refine_tickets [OF start interrupted_reachable [unfolded reachable_def], of 3] by metis
qed

end
