(* ===== verification/System.thy ===== *)
theory System
  imports Tickets Journey RunnerProofs
begin

text \<open>
  The parts put together: a pipeline whose runner is the model of \<open>agent/openai_runner.py\<close>. What a run
  guarantees while it lasts (\<open>RunnerProofs\<close>) is carried into the database along every schedule of the
  handlers (\<open>Lifecycle\<close>, \<open>Tickets\<close>).
\<close>

section \<open>How the runs of this system end\<close>

definition genuine :: "runner_env \<Rightarrow> py_exception + runner_result \<Rightarrow> bool" where
  "genuine env outcome \<longleftrightarrow>
     (case outcome of
        Inr result \<Rightarrow> \<exists>r ing. (r = no_evidence_result \<or> (\<exists>ri. run_agent_model env ri = Inr r))
          \<and> result = append_image_limitation r ing
      | Inl (Run_failure f) \<Rightarrow> \<exists>ri. run_agent_model env ri = Inl (Run_failure f)
      | Inl (Other_exception _) \<Rightarrow> True)"

definition runs_model :: "runner_env \<Rightarrow> pipeline_env \<Rightarrow> bool" where
  \<comment> \<open>the handler runs this model, and so do those that interfere with it\<close>
  "runs_model env pe \<longleftrightarrow> pe_run pe = run_agent_model env \<and> fair_for (genuine env) pe"

lemma model_runs_end: "pe_run pe = run_agent_model env \<Longrightarrow> runs_end (genuine env) pe"
  by (auto simp: runs_end_def genuine_def run_agent_def split: if_splits py_exception.splits)

definition numbered :: "tool_audit_record list \<Rightarrow> bool" where
  "numbered calls \<longleftrightarrow> map ta_sequence calls = [1..<Suc (length calls)]"

definition matched_result :: "structured_result option \<Rightarrow> bool" where
  "matched_result s \<longleftrightarrow> (case s of Some (Identification_result p) \<Rightarrow> pi_outcome p = Out_matched | _ \<Rightarrow> False)"

lemma limitation_fields [simp]:
  "result_meta (append_image_limitation r ing) = result_meta r"
  "matched_result (Some (structured_of (append_image_limitation r ing))) = matched_result (Some (structured_of r))"
  by (cases r; simp add: append_image_limitation_def matched_result_def Let_def)+

lemma no_evidence_fields:
  "rm_tool_calls (result_meta no_evidence_result) = []"
  "us_tool_calls (rm_usage (result_meta no_evidence_result)) = 0"
  "\<not> matched_result (Some (structured_of no_evidence_result))"
  by (simp_all add: no_evidence_result_def default_meta_def no_usage_def matched_result_def infer_legacy_outcome_def)

lemma genuine_result:
  assumes "config_valid (rn_config env)" "genuine env (Inr result)"
  defines "calls \<equiv> rm_tool_calls (result_meta result)"
  shows "numbered calls \<and> us_tool_calls (rm_usage (result_meta result)) = int (length calls) \<and>
    (matched_result (Some (structured_of result)) \<longrightarrow> (\<exists>c \<in> set calls. ta_status c = ''succeeded''))"
proof -
  obtain r ing where r: "r = no_evidence_result \<or> (\<exists>ri. run_agent_model env ri = Inr r)"
    and result: "result = append_image_limitation r ing"
    using assms(2) by (auto simp: genuine_def)
  show ?thesis
    using r
  proof
    assume "r = no_evidence_result"
    then show ?thesis
      by (simp add: calls_def result numbered_def no_evidence_fields)
  next
    assume "\<exists>ri. run_agent_model env ri = Inr r"
    then obtain ri where "run_agent_model env ri = Inr r" by blast
    note audit = answer_audit [OF assms(1) this]
    have "\<exists>p m. r = Payment_result p m \<and> pi_outcome p = Out_matched" if "matched_result (Some (structured_of r))"
      using that by (cases r) (simp_all add: matched_result_def)
    with audit show ?thesis unfolding calls_def result limitation_fields numbered_def by auto
  qed
qed

lemma genuine_failure:
  assumes "config_valid (rn_config env)" "genuine env (Inl ex)"
  shows "numbered (failure_calls ex)"
proof (cases ex)
  case (Run_failure f)
  then obtain ri where "run_agent_model env ri = Inl (Run_failure f)" using assms(2) by (auto simp: genuine_def)
  with run_ends [OF assms(1), of ri] Run_failure show ?thesis by (auto simp: numbered_def failure_calls_def)
qed (simp add: numbered_def failure_calls_def)

section \<open>The audit in the database\<close>

definition audited_run :: "tool_audit_record list \<Rightarrow> run_row \<Rightarrow> bool" where
  "audited_run calls r \<longleftrightarrow> numbered calls \<and>
     (rn_status r = Run_succeeded \<longrightarrow> rn_tool_calls r = Some (int (length calls)) \<and>
        (matched_result (rn_structured_result r) \<longrightarrow> (\<exists>c \<in> set calls. ta_status c = ''succeeded''))) \<and>
     (rn_status r \<in> {Run_queued, Run_running, Run_cancelled} \<longrightarrow> calls = [])"

definition audited :: "db \<Rightarrow> bool" where
  "audited d \<longleftrightarrow> (\<forall>r \<in> set (db_runs d). audited_run (calls_of d (rn_id r)) r) \<and>
     tc_run_id ` set (db_tool_calls d) \<subseteq> rn_id ` set (db_runs d)"

lemma numbered_stored [simp]: "numbered (map stored_call calls) = numbered calls"
  by (simp add: numbered_def stored_call_def comp_def)

lemma numbered_Nil [simp]: "numbered []"
  by (simp add: numbered_def)

lemma persisted_calls:
  assumes "distinct (map ta_sequence calls)" "ta_sequence ` set calls \<inter> ta_sequence ` set (calls_of d i) = {}"
  shows "calls_of (persist_tool_calls i calls d) j = calls_of d j @ (if j = i then map stored_call calls else [])"
  using assms
proof (induction calls arbitrary: d)
  case Nil
  then show ?case by (simp add: persist_tool_calls_def)
next
  case (Cons c cs)
  have new: "(i, ta_sequence c) \<notin> (\<lambda>t. (tc_run_id t, ta_sequence (tc_record t))) ` set (db_tool_calls d)"
    using Cons.prems(2) by (auto simp: calls_of_def)
  then have one: "calls_of (persist_tool_call i c d) k = calls_of d k @ (if k = i then [stored_call c] else [])" for k
    by (simp add: persist_tool_call_def calls_of_def add_tool_call_def)
  have "ta_sequence (stored_call c) = ta_sequence c" by (simp add: stored_call_def)
  then have "ta_sequence ` set cs \<inter> ta_sequence ` set (calls_of (persist_tool_call i c d) i) = {}"
    using Cons.prems by (auto simp: one)
  with Cons.IH [of "persist_tool_call i c d"] Cons.prems(1) one show ?case
    by (simp add: persist_tool_calls_def)
qed

lemma persisted_ids:
  "tc_run_id ` set (db_tool_calls (persist_tool_calls i calls d)) \<subseteq> insert i (tc_run_id ` set (db_tool_calls d))"
proof (induction calls arbitrary: d)
  case (Cons c cs)
  have "tc_run_id ` set (db_tool_calls (persist_tool_call i c d)) \<subseteq> insert i (tc_run_id ` set (db_tool_calls d))"
    by (auto simp: persist_tool_call_def add_tool_call_def)
  with Cons.IH [of "persist_tool_call i c d"] show ?case by (auto simp: persist_tool_calls_def)
qed (auto simp: persist_tool_calls_def)

lemma audited_added:
  assumes "audited d" "consistent d'" "runs_added d d'"
  shows "audited d'"
proof -
  obtain rs where rs: "db_runs d' = db_runs d @ rs" "\<forall>r \<in> set rs. rn_status r = Run_queued"
    and calls: "db_tool_calls d' = db_tool_calls d"
    using assms(3) unfolding runs_added_def by blast
  have "distinct (map rn_id (db_runs d @ rs))"
    using assms(2) rs(1) by (simp add: consistent_def invariant_def db_ok_def ids_ok_def)
  then have fresh: "rn_id r \<notin> rn_id ` set (db_runs d)" if "r \<in> set rs" for r
    using that by auto
  have "tc_run_id t \<noteq> rn_id r" if "t \<in> set (db_tool_calls d)" "r \<in> set rs" for t r
    using fresh [OF that(2)] that(1) assms(1) unfolding audited_def by (metis image_eqI subsetD)
  then have "calls_of d (rn_id r) = []" if "r \<in> set rs" for r
    using that by (auto simp: calls_of_def filter_empty_conv)
  moreover have "calls_of d' i = calls_of d i" for i by (simp add: calls_of_def calls)
  ultimately show ?thesis
    using assms(1) rs calls by (auto simp: audited_def audited_run_def)
qed

lemma changed_audit:
  assumes "config_valid (rn_config env)" "run_change (genuine env) r r' calls as" "audited_run old r"
  shows "audited_run (old @ map stored_call calls) r' \<and> distinct (map ta_sequence calls) \<and>
    (calls \<noteq> [] \<longrightarrow> old = [])"
proof -
  have distinct: "numbered calls \<Longrightarrow> distinct (map ta_sequence calls)"
    unfolding numbered_def by (metis distinct_upt)
  from assms(2) show ?thesis
  proof cases
    case (change_succeed result body ing latency env')
    then have old: "old = []" using assms(3) by (simp add: audited_run_def)
    from genuine_result [OF assms(1) change_succeed(4)] distinct old change_succeed show ?thesis
      by (auto simp: audited_run_def succeeded_run_def Let_def stored_call_def)
  next
    case (change_fail ex)
    then have "old = []" using assms(3) by (simp add: audited_run_def)
    moreover have "numbered calls" using change_fail(2) genuine_failure [OF assms(1)] by auto
    ultimately show ?thesis using distinct change_fail by (simp add: audited_run_def)
  qed (use assms(3) in \<open>auto simp: audited_run_def\<close>)
qed

lemma audited_changed:
  assumes "config_valid (rn_config env)" "audited d" "consistent d" "run_changed (genuine env) d d'"
  shows "audited d'"
proof -
  obtain i r f calls as d0 where i: "get_run d i = Some r" and id: "\<forall>x. rn_id (f x) = rn_id x"
    and runs: "db_runs d' = row_upd rn_id i f (db_runs d)" and change: "run_change (genuine env) r (f r) calls as"
    and d0: "db_tool_calls d0 = db_tool_calls d" "db_tool_calls d' = db_tool_calls (persist_tool_calls i calls d0)"
    using assms(4) unfolding run_changed_def by blast
  have r: "r \<in> set (db_runs d)" "rn_id r = i" using i by (auto simp: get_run_def dest: row_get_Some)
  have c: "audited_run (calls_of d i @ map stored_call calls) (f r)" "distinct (map ta_sequence calls)"
      "calls \<noteq> [] \<longrightarrow> calls_of d i = []"
    using changed_audit [OF assms(1) change, of "calls_of d i"] assms(2) r by (auto simp: audited_def)
  have same: "calls_of d0 j = calls_of d j" for j by (simp add: calls_of_def d0(1))
  have calls': "calls_of d' j = calls_of d j @ (if j = i then map stored_call calls else [])" for j
  proof -
    have "ta_sequence ` set calls \<inter> ta_sequence ` set (calls_of d0 i) = {}"
      using c(3) same by (cases "calls = []") simp_all
    moreover have "calls_of d' j = calls_of (persist_tool_calls i calls d0) j" by (simp add: calls_of_def d0(2))
    ultimately show ?thesis using persisted_calls [OF c(2), of d0 i j] by (simp only: same)
  qed
  have "audited_run (calls_of d' (rn_id x)) x" if "x \<in> set (db_runs d')" for x
  proof -
    have "\<exists>y \<in> set (db_runs d). x = (if rn_id y = i then f y else y)"
      using that unfolding runs by (rule set_row_upd)
    then obtain y where y: "y \<in> set (db_runs d)" "x = (if rn_id y = i then f y else y)" by blast
    have "y = r" if "rn_id y = i"
      using that y(1) r assms(3)
      by (auto simp: consistent_def invariant_def db_ok_def ids_ok_def intro: distinct_map_unique)
    with y id c(1) calls' r assms(2) show ?thesis by (auto simp: audited_def)
  qed
  moreover have "tc_run_id ` set (db_tool_calls d') \<subseteq> rn_id ` set (db_runs d')"
  proof -
    have ids: "rn_id ` set (db_runs d') = rn_id ` set (db_runs d)" unfolding runs using id by (intro image_row_upd) simp
    have sub: "insert i (tc_run_id ` set (db_tool_calls d0)) \<subseteq> rn_id ` set (db_runs d)"
      using assms(2) r by (auto simp: audited_def d0(1))
    show ?thesis unfolding d0(2) ids by (rule order_trans [OF persisted_ids sub])
  qed
  ultimately show ?thesis by (simp add: audited_def)
qed

definition system_ok :: "runner_env \<Rightarrow> db \<Rightarrow> bool" where
  "system_ok env d \<longleftrightarrow> (config_valid (rn_config env) \<longrightarrow> consistent d \<and> audited d)"

interpretation audit: preserving "job_step (genuine env)" "system_ok env" for env
proof
  fix d d'
  assume ok: "system_ok env d" and step: "job_step (genuine env) d d'"
  show "system_ok env d'"
    unfolding system_ok_def
  proof
    assume valid: "config_valid (rn_config env)"
    with ok have d: "consistent d" "audited d" by (simp_all add: system_ok_def)
    have d': "consistent d'" using workers.step_evolves [OF d(1) job_step_db [OF step]] d(1) by (simp add: evolves_def)
    from step_shape [OF step] audited_added [OF d(2) d'] audited_changed [OF valid d(2,1)] d'
    show "consistent d' \<and> audited d'" by blast
  qed
qed

section \<open>The handlers of the system\<close>

text \<open>A world is one that the handlers of the system bring about: each call of a handler is one step, and
  between its transactions the other workers may do what they like, as long as their runs are runs of
  the same model.\<close>

inductive handler_step :: "runner_env \<Rightarrow> Service.world \<Rightarrow> Service.world \<Rightarrow> bool" for env where
  received: "handler_step env w (fst (receive_event svc event w))"
| processed: "handler_step env w (fst (process_stored_event svc i w))"
| executed: "runs_model env pe \<Longrightarrow> handler_step env w (fst (execute_run pe i w))"
| delivered: "runs_model env pe \<Longrightarrow> handler_step env w (fst (deliver_output pe i w))"
| recovered: "handler_step env w (fst (recover_pending_work svc stalled w))"

lemma handler_schedule:
  assumes "handler_step env w w'" "consistent (w_db w)"
  shows "(job_step (genuine env))\<^sup>*\<^sup>* (w_db w) (w_db w')"
  using assms
  by cases (auto simp: runs_model_def model_runs_end intro: receive_schedule process_schedule execute_run_schedule
      deliver_output_schedule recover_pending_schedule)

lemma handlers_schedule:
  assumes "(handler_step env)\<^sup>*\<^sup>* w w'" "reachable (w_db w)"
  shows "(job_step (genuine env))\<^sup>*\<^sup>* (w_db w) (w_db w')"
  using assms(1)
proof (induction rule: rtranclp_induct)
  case (step a b)
  have "reachable (w_db a)" using reachable_step [OF assms(2) job_steps_db [OF step.IH]] .
  from handler_schedule [OF step.hyps(2) reachable_consistent [OF this]] step.IH show ?case by (rule rtranclp_trans [rotated])
qed simp

text \<open>C5: The database tells how every answer came about. After any calls of the handlers, however other
  workers interleave with them, the tool calls stored for a run are numbered without a gap; a run that
  is waiting, working or cancelled has none; a run that succeeded has as many as it reports; and one that
  identified a customer has a tool call that succeeded. No retry and no recovery loses or doubles one.\<close>

theorem stored_audit_is_complete:
  assumes "config_valid (rn_config env)" "(handler_step env)\<^sup>*\<^sup>* w w'" "w_db w = empty_db" "get_run (w_db w') i = Some r"
  defines "calls \<equiv> calls_of (w_db w') i"
  shows "map ta_sequence calls = [1..<Suc (length calls)] \<and>
    (rn_status r \<in> {Run_queued, Run_running, Run_cancelled} \<longrightarrow> calls = []) \<and>
    (rn_status r = Run_succeeded \<longrightarrow> rn_tool_calls r = Some (int (length calls))) \<and>
    (\<forall>p. rn_status r = Run_succeeded \<and> rn_structured_result r = Some (Identification_result p) \<and> pi_outcome p = Out_matched
       \<longrightarrow> (\<exists>c \<in> set calls. ta_status c = ''succeeded''))"
proof -
  have start: "reachable (w_db w)" "system_ok env (w_db w)"
    by (simp add: assms(3) reachable_def)
      (simp add: assms(3) system_ok_def consistent_empty, simp add: audited_def empty_db_def)
  have "system_ok env (w_db w')" by (rule audit.steps_good [OF handlers_schedule [OF assms(2) start(1)] start(2)])
  then have "audited (w_db w')" using assms(1) by (simp add: system_ok_def)
  moreover have "r \<in> set (db_runs (w_db w'))" "rn_id r = i" using assms(4) by (auto simp: get_run_def dest: row_get_Some)
  ultimately have "audited_run calls r" by (auto simp: audited_def calls_def)
  then show ?thesis unfolding audited_run_def numbered_def by (auto simp: matched_result_def)
qed

text \<open>The handlers of the model on the synthetic backend: a mention is received, stored and run.\<close>

definition modelled_pe :: pipeline_env where
  "modelled_pe = example_pe\<lparr>pe_run := run_agent_model example_runner\<rparr>"

lemma modelled_pe_runs: "runs_model example_runner modelled_pe"
  by (simp add: runs_model_def fair_for_def modelled_pe_def example_pe_def)

lemma modelled_run:
  "\<exists>w' r. execute_run modelled_pe 3 mentioned_world = (w', Inr ()) \<and> get_run (w_db w') 3 = Some r \<and>
     rn_status r = Run_succeeded"
proof -
  let ?st = "run_start_of (w_db mentioned_world) mentioned_conversation mentioned_message"
  let ?batch = "\<lparr>ib_paths = [], ib_ingestion = \<lparr>ing_requested = 0, ing_metadata_accepted = 0,
      ing_downloaded = 0, ing_rejected = 0, ing_failure_categories = []\<rparr>\<rparr>"
  have run: "rn_status mentioned_run = Run_queued"
      "get_conversation (w_db mentioned_world) (rn_conversation_id mentioned_run) = Some mentioned_conversation"
      "trigger_of (w_db mentioned_world) mentioned_run = Some mentioned_message"
    using mentioned_get(2) by (simp_all add: mentioned_run_def trigger_of_def)
  have time: "\<not> newer_inbound (w_db mentioned_world) (rn_conversation_id mentioned_run)
      (ms_event_at mentioned_message)"
    by (simp add: newer_inbound_def mentioned_world_db)
  have mode: "cfg_global_mode (se_config (pe_svc modelled_pe)) = Mode_enabled"
    and quiet: "\<And>k x. pe_interfere modelled_pe k x = x"
    by (simp_all add: modelled_pe_def example_pe_def example_env_def)
  have atts: "attachments (ms_file_metadata mentioned_message) = []" "stored_summary mentioned_message = (0, 0)"
    by (simp_all add: mentioned_message_def inbound_row_def example_mention_def attachments_def
        stored_summary_def summary_json_def)
  have images: "run_images (pe_ingest modelled_pe) 3 (sr_attachments ?st) (sr_requested ?st)
      (sr_rejected ?st) (pe_supports_images modelled_pe) = Inr ?batch"
    by (simp add: run_images_def run_start_of_def atts)
  let ?ri = "runner_input 3 ?st ?batch"
  have items: "\<exists>items. build_input_items (rn_read_bytes example_runner) ?ri = Inr items"
    by (simp add: build_input_items_def runner_input_def input_item_of_def run_start_of_def
        stored_messages_def by_time_def mentioned_world_db transcript_limit_def transcript_of_def recent_transcript_def
        usable_text_def mentioned_message_def inbound_row_def Let_def example_mention_def
        mentioned_conversation_def str_strip_def str_lstrip_def str_rstrip_def text_simps)
  have usable: "has_usable_evidence ?ri"
    by (simp add: has_usable_evidence_def runner_input_def run_start_of_def
        stored_messages_def by_time_def mentioned_world_db transcript_limit_def transcript_of_def
        usable_text_def mentioned_message_def inbound_row_def Let_def example_mention_def
        mentioned_conversation_def str_strip_def str_lstrip_def str_rstrip_def text_simps)
  obtain result where agent: "run_agent modelled_pe ?ri = Inr result"
    using items usable example_runner_answers by (force simp: run_agent_def modelled_pe_def)
  have key: "run_output_key 3 k \<notin> so_idempotency_key ` set (db_outputs (w_db mentioned_world))" for k
    by (simp add: mentioned_world_db)
  from run_answered [OF mentioned_get(1) run time mode quiet refl images agent refl refl key]
  show ?thesis by blast
qed

lemma stored_audit_is_complete_witness:
  "\<exists>w' r. (handler_step example_runner)\<^sup>*\<^sup>* empty_world w' \<and> get_run (w_db w') 3 = Some r \<and>
     rn_status r = Run_succeeded \<and> map ta_sequence (calls_of (w_db w') 3) = [1..<Suc (length (calls_of (w_db w') 3))] \<and>
     rn_tool_calls r = Some (int (length (calls_of (w_db w') 3)))"
proof -
  obtain w' r where run: "fst (execute_run modelled_pe 3 mentioned_world) = w'"
    and r: "get_run (w_db w') 3 = Some r" "rn_status r = Run_succeeded"
    using modelled_run by (metis fst_conv)
  have reached: "(handler_step example_runner)\<^sup>*\<^sup>* empty_world w'"
    using received [of example_runner empty_world example_env example_event]
      processed [of example_runner received_world example_env 0]
      executed [of example_runner modelled_pe mentioned_world 3, OF modelled_pe_runs]
    unfolding received_world_def [symmetric] mentioned_world_def [symmetric] run
    by (meson rtranclp.rtrancl_into_rtrancl rtranclp.rtrancl_refl)
  have "w_db empty_world = empty_db" by (simp add: empty_world_def)
  from stored_audit_is_complete [OF example_runner_valid reached this r(1)] reached r show ?thesis by blast
qed

end
