(* ===== verification/Answers.thy ===== *)
theory Answers
  imports System Images
begin

text \<open>
  A mention is answered by the whole program: the socket process, the job queue, the worker, the image
  ingestion of \<open>slack/images.py\<close> and the runner of \<open>agent/openai_runner.py\<close>, with only Slack, the model
  behind the SDK and the file system as parameters.
\<close>

section \<open>The runner can name every image it is handed\<close>

lemma split_on_app: "split_on d (xs @ d # ys) = split_on d xs @ split_on d ys"
proof (induction xs)
  case (Cons x xs)
  then show ?case by (cases "split_on d xs") simp_all
qed simp

lemma last_index_None: "last_index c s = None \<longleftrightarrow> c \<notin> set s"
  by (induction s) (auto split: option.splits)

lemma last_index_app: "c \<notin> set s \<Longrightarrow> last_index c (r @ c # s) = Some (length r)"
  by (induction r) (simp_all add: last_index_None split: option.split)

lemma suffix_of_name:
  assumes "CHR ''/'' \<notin> set stem" "CHR ''.'' \<notin> set ext" "CHR ''/'' \<notin> set ext" "stem \<noteq> []" "ext \<noteq> []"
  shows "path_suffix (dir @ ''/'' @ stem @ ''.'' @ ext) = ''.'' @ ext"
proof -
  have "last (split_on (CHR ''/'') (dir @ ''/'' @ stem @ ''.'' @ ext)) = stem @ ''.'' @ ext"
    using split_on_app [of "CHR ''/''" dir "stem @ ''.'' @ ext"] assms(1,3) by (simp add: split_on_absent)
  moreover have "last_index (CHR ''.'') (stem @ ''.'' @ ext) = Some (length stem)"
    using last_index_app [of "CHR ''.''" ext stem] assms(2) by simp
  ultimately show ?thesis using assms(4,5) by (simp add: path_suffix_def Let_def)
qed

lemma image_path_mimetype:
  assumes "image_path dir n path"
  shows "\<exists>m. image_mimetype path = Inr m"
proof -
  obtain ext where ext: "ext \<in> {''png'', ''jpg'', ''webp''}"
    and path: "path = dir @ ''/'' @ (''image-'' @ show_nat n) @ ''.'' @ ext"
    using assms by (auto simp: image_path_def)
  have "CHR ''/'' \<notin> set (show_nat n)"
    using show_nat_digits [of n] by (auto simp: list_all_iff ascii_digit_def code_def)
  then have "path_suffix path = ''.'' @ ext"
    unfolding path using ext by (intro suffix_of_name) auto
  moreover have "str_lower ''.png'' = ''.png''" "str_lower ''.jpg'' = ''.jpg''" "str_lower ''.webp'' = ''.webp''"
    by (simp_all add: str_lower_def lower_char_def code_def text_simps)
  ultimately show ?thesis using ext by (auto simp: image_mimetype_def)
qed

section \<open>Images and runner together\<close>

definition ingests_with ::
  "slack_files \<Rightarrow> string \<Rightarrow> (nat \<Rightarrow> string) \<Rightarrow> temp_root \<Rightarrow> pipeline_env \<Rightarrow> bool" where
  \<comment> \<open>the images of run \<open>i\<close> go through the ingestion, into the directory \<open>name i\<close> below \<open>root\<close>\<close>
  "ingests_with sf root name fs pe \<longleftrightarrow>
     (\<forall>i atts n k. pe_ingest pe i atts n k =
        fst (ingest_trigger_images sf (se_config (pe_svc pe)) root (name i) atts n k Inr fs))"

definition calm_files :: "slack_files \<Rightarrow> app_config \<Rightarrow> (nat \<Rightarrow> string) \<Rightarrow> temp_root \<Rightarrow> bool" where
  \<comment> \<open>the directory can be made, and what goes wrong with an image has a category\<close>
  "calm_files sf cfg name fs \<longleftrightarrow> tr_root fs = Some Directory \<and> (\<forall>i. name i \<notin> fst ` set (tr_children fs)) \<and>
     (\<forall>dir index att e. fetch_image sf cfg dir index att = Inl (Other_error e) \<longrightarrow> is_timeout e)"

lemma ingest_loop_total:
  assumes "\<forall>dir index att e. fetch_image sf cfg dir index att = Inl (Other_error e) \<longrightarrow> is_timeout e"
  shows "\<exists>outcome. ingest_loop sf cfg dir elapsed index atts = Inr outcome"
proof (induction atts arbitrary: elapsed index)
  case (Cons att atts)
  have rest: "\<exists>ps fs. ingest_loop sf cfg dir t (Suc index) atts = Inr (ps, fs)" for t
    using Cons.IH [of t "Suc index"] by auto
  show ?case
    using rest [of "elapsed + sf_milliseconds sf index"] rest [of "elapsed + 1000 * slack_file_timeout_seconds cfg"] assms
    by (auto simp: Let_def split: sum.splits image_error.splits)
qed simp

lemma calm_ingestion:
  assumes "calm_files sf cfg name fs"
  shows "\<exists>batch. fst (ingest_trigger_images sf cfg root (name i) atts n k Inr fs) = Inr batch \<and>
    (\<forall>path \<in> set (ib_paths batch). \<exists>j. image_path (root @ ''/'' @ name i) j path)"
proof -
  let ?dir = "root @ ''/'' @ name i"
  obtain paths failures where loop: "ingest_loop sf cfg ?dir 0 1 (considered cfg atts) = Inr (paths, failures)"
    using ingest_loop_total assms unfolding calm_files_def by (metis surj_pair)
  have "prepare_run_directory fs (name i) = Inr (fs\<lparr>tr_children := tr_children fs @ [(name i, Directory)]\<rparr>)"
    using assms by (simp add: calm_files_def prepare_run_directory_def)
  moreover have "\<forall>path \<in> set paths. \<exists>j. image_path ?dir j path"
    using ingest_loop_paths [OF loop] by (metis in_set_conv_nth list_all2_conv_all_nth)
  ultimately show ?thesis using loop by (simp add: ingest_trigger_images_def image_batch_of_def)
qed

definition answering_system ::
  "runner_env \<Rightarrow> slack_files \<Rightarrow> string \<Rightarrow> (nat \<Rightarrow> string) \<Rightarrow> temp_root \<Rightarrow> pipeline_env \<Rightarrow> bool" where
  \<comment> \<open>the pipeline with the program's own runner and ingestion; the model's provider only fails in documented
    ways, the prompts are there and files can be read\<close>
  "answering_system env sf root name fs pe \<longleftrightarrow>
     pe_run pe = run_agent_model env \<and> ingests_with sf root name fs pe \<and>
     config_valid (rn_config env) \<and> handled_provider env \<and>
     (\<exists>p g. rn_payment_prompt env = Inr p \<and> rn_general_prompt env = Inr g) \<and>
     (\<forall>path. \<exists>bytes. rn_read_bytes env path = Inr bytes) \<and>
     calm_files sf (se_config (pe_svc pe)) name fs"

lemma answering_images:
  assumes "answering_system env sf root name fs pe"
  shows "\<exists>batch. run_images (pe_ingest pe) i atts n k supported = Inr batch"
    and "run_images (pe_ingest pe) i atts n k supported = Inr batch \<Longrightarrow> path \<in> set (ib_paths batch) \<Longrightarrow>
      \<exists>j. image_path (root @ ''/'' @ name i) j path"
  using calm_ingestion [of sf "se_config (pe_svc pe)" name fs root i atts n k] assms
  by (auto simp: run_images_def answering_system_def ingests_with_def split: if_splits)

lemma readable_items:
  assumes "\<forall>path \<in> set (ri_image_paths ri). \<exists>part. image_part read_bytes path = Inr part"
  shows "\<exists>items. build_input_items read_bytes ri = Inr items"
proof -
  obtain images where "collect (image_part read_bytes) (ri_image_paths ri) = Inr images"
    using collect_total [OF assms] ..
  then show ?thesis
    unfolding build_input_items_def by (intro collect_total) (simp add: input_item_of_def)
qed

lemma answering_agent:
  assumes "answering_system env sf root name fs pe"
    and "run_images (pe_ingest pe) i atts n k supported = Inr batch" "ri_image_paths ri = ib_paths batch"
  shows "\<exists>result. run_agent pe ri = Inr result"
proof -
  have "\<exists>part. image_part (rn_read_bytes env) path = Inr part" if "path \<in> set (ri_image_paths ri)" for path
  proof -
    have "path \<in> set (ib_paths batch)" using that assms(3) by simp
    from answering_images(2) [OF assms(1,2) this] obtain j where "image_path (root @ ''/'' @ name i) j path" ..
    from image_path_mimetype [OF this] obtain m where "image_mimetype path = Inr m" ..
    moreover have "\<exists>bytes. rn_read_bytes env path = Inr bytes"
      using assms(1) by (simp add: answering_system_def)
    then obtain bytes where "rn_read_bytes env path = Inr bytes" ..
    ultimately show ?thesis by (simp add: image_part_def)
  qed
  then obtain items where "build_input_items (rn_read_bytes env) ri = Inr items"
    using readable_items by blast
  moreover have prompts: "\<exists>p g. rn_payment_prompt env = Inr p \<and> rn_general_prompt env = Inr g"
    and system: "config_valid (rn_config env)" "handled_provider env" "pe_run pe = run_agent_model env"
    using assms(1) by (simp_all add: answering_system_def)
  moreover obtain pp g where "rn_payment_prompt env = Inr pp" "rn_general_prompt env = Inr g" using prompts by blast
  ultimately have "\<exists>result. run_agent_model env ri = Inr result"
    using run_ends [OF system(1), of ri] system(2) by (elim disjE exE conjE) simp_all
  then show ?thesis by (simp add: run_agent_def system(3))
qed

section \<open>The mention, the worker and Slack\<close>

definition new_mention ::
  "pipeline_env \<Rightarrow> string option \<Rightarrow> json \<Rightarrow> message_payload \<Rightarrow> Service.world \<Rightarrow> bool" where
  \<comment> \<open>an event of a kind that is handled, about a message not seen before and not older than any stored one\<close>
  "new_mention pe uid body p w \<longleftrightarrow>
     (\<exists>event t. normalize_event body uid (se_config (pe_svc pe)) = Inr event \<and>
        ne_event_type event = ''app_mention'' \<and> ne_payload event = Message_payload p \<and>
        ne_kind event \<noteq> Ek_ignored \<and> ne_slack_event_id event \<notin> ev_slack_event_id ` set (db_events (w_db w)) \<and>
        (mp_channel p, mp_message_ts p) \<notin> (\<lambda>m. (ms_channel m, ms_message_ts m)) ` set (db_messages (w_db w)) \<and>
        event_time (pe_svc pe) (mp_message_ts p) = Inr t \<and>
        (\<forall>m \<in> set (db_messages (w_db w)). ms_direction m = ''inbound'' \<longrightarrow> ms_event_at m \<le> t))"

definition alone :: "pipeline_env \<Rightarrow> bool" where
  "alone pe \<longleftrightarrow> (\<forall>k x. pe_interfere pe k x = x) \<and> (\<forall>j. se_dq (pe_svc pe) j [] = Deferred)"

definition slack_accepts :: "pipeline_env \<Rightarrow> string \<Rightarrow> message_payload \<Rightarrow> Service.world \<Rightarrow> bool" where
  \<comment> \<open>every post is accepted under a timestamp that no message has\<close>
  "slack_accepts pe ts p w \<longleftrightarrow>
     (\<exists>response. (\<forall>call. pe_post pe call = Inr response) \<and> jget ''ts'' response = JStr ts) \<and>
     (\<forall>x \<in> set (db_outputs (w_db w)). so_message_ts x \<noteq> Some ts) \<and>
     (mp_channel p, ts) \<notin> (\<lambda>m. (ms_channel m, ms_message_ts m)) ` set (db_messages (w_db w)) \<and>
     ts \<noteq> mp_message_ts p"


text \<open>The program on its synthetic parts, with a workspace that gives out no file.\<close>

definition closed_files :: slack_files where
  "closed_files = example_files\<lparr>sf_files_info := (\<lambda>_. Inl ''SlackApiError'')\<rparr>"

definition made_root :: temp_root where
  "made_root = \<lparr>tr_root = Some Directory, tr_children = []\<rparr>"

definition run_directory_name :: "nat \<Rightarrow> string" where
  "run_directory_name i = ''run-'' @ show_nat i @ ''-''"

definition whole_pe :: pipeline_env where
  "whole_pe = example_pe\<lparr>pe_run := run_agent_model example_runner, pe_supports_images := True,
     pe_ingest := (\<lambda>i atts n k. fst (ingest_trigger_images closed_files (se_config example_env) ''/images''
        (run_directory_name i) atts n k Inr made_root))\<rparr>"

lemma example_provider: "handled_provider example_runner"
  by (simp add: handled_provider_def handled_ending_def example_runner_def)

lemma whole_pe_answers:
  "answering_system example_runner closed_files ''/images'' run_directory_name made_root whole_pe"
  using example_provider example_runner_valid
  by (simp add: answering_system_def ingests_with_def calm_files_def whole_pe_def example_pe_def made_root_def
      fetch_image_def download_def file_info_def closed_files_def example_runner_def)


end
