(* ===== verification/Wiring.thy ===== *)
theory Wiring
  imports Clients BlockingMemory Commands Schema
begin

text \<open>
  The small pieces by which the program is put together: what the gateway asks the Slack SDK for
  (\<open>slack/gateway.py\<close>), the setters of the clients a process keeps, the memory client read once from the
  environment (\<open>memory_client.py\<close>, \<open>agent/shared_memory.py\<close>), the guard of the replica's pool
  (\<open>replica/database.py\<close>), the web application and its server (\<open>main.py\<close>, \<open>web.py\<close>), the queue's application
  (\<open>jobs/app.py\<close>), the offline migrations (\<open>db/migrations/env.py\<close>) and two entry points of commands.
\<close>

section \<open>Requests to Slack\<close>

type_synonym sdk_request = "string \<times> (string \<times> string) list"   \<comment> \<open>method and keyword arguments\<close>

definition set_status_request :: "string \<Rightarrow> string \<Rightarrow> string \<Rightarrow> sdk_request" where
  "set_status_request channel thread_ts status =
     (''assistant_threads_setStatus'',
      [(''channel_id'', channel), (''thread_ts'', thread_ts), (''status'', status)])"

definition clear_status_request :: "string \<Rightarrow> string \<Rightarrow> sdk_request" where
  "clear_status_request channel thread_ts = set_status_request channel thread_ts ''''"

definition post_message_request :: "string \<Rightarrow> string \<Rightarrow> string \<Rightarrow> string \<Rightarrow> sdk_request" where
  "post_message_request channel thread_ts text client_msg_id =
     (''chat_postMessage'',
      [(''channel'', channel), (''thread_ts'', thread_ts), (''text'', text), (''client_msg_id'', client_msg_id)])"

fun sdk_request_of :: "slack_call \<Rightarrow> sdk_request" where
  "sdk_request_of (Set_status channel thread_ts status) = set_status_request channel thread_ts status"
| "sdk_request_of (Post_message channel thread_ts text key) = post_message_request channel thread_ts text key"

text \<open>The calls the pipeline logs are the requests of the gateway: none is lost in the translation, and
  clearing a status is the request that sets the empty one.\<close>

lemma sdk_request_inject: "sdk_request_of a = sdk_request_of b \<longleftrightarrow> a = b"
  by (cases a; cases b) (simp_all add: set_status_request_def post_message_request_def)

lemma cleared_status_request:
  "map sdk_request_of (w_slack (clear_status channel thread_ts w)) =
     map sdk_request_of (w_slack w) @ [clear_status_request channel thread_ts]"
  by (simp add: clear_status_def set_status_def clear_status_request_def)

section \<open>Clients that are set\<close>

definition set_agent_runner :: "nat option \<Rightarrow> slot \<Rightarrow> slot" where
  "set_agent_runner runner s = s\<lparr>sl_current := runner\<rparr>"

definition set_slack_gateway :: "nat option \<Rightarrow> slot \<Rightarrow> slot" where
  "set_slack_gateway gateway s = s\<lparr>sl_current := gateway\<rparr>"

definition set_slack_file_client :: "nat option \<Rightarrow> slot \<Rightarrow> slot" where
  "set_slack_file_client client s = s\<lparr>sl_current := client\<rparr>"

text \<open>A client that was set is the one that is used, and none is built. Unsetting closes nothing.\<close>

lemma set_clients_are_used:
  "get_agent_runner outcome (set_agent_runner (Some n) s) = (Inr n, set_agent_runner (Some n) s)"
  "get_slack_gateway (set_slack_gateway (Some n) s) = (Inr n, set_slack_gateway (Some n) s)"
  "get_slack_file_client (set_slack_file_client (Some n) s) = (Inr n, set_slack_file_client (Some n) s)"
  "sl_closed (set_agent_runner None s) = sl_closed s"
  by (simp_all add: get_agent_runner_def set_agent_runner_def get_slack_gateway_def set_slack_gateway_def
      get_slack_file_client_def set_slack_file_client_def)

section \<open>The memory client\<close>

definition async_client_from_env :: "string \<Rightarrow> (string \<rightharpoonup> string) \<Rightarrow> memory_client option" where
  "async_client_from_env agent source =
     (case credentials_from_env source of
        None \<Rightarrow> None
      | Some cr \<Rightarrow> Some \<lparr>cl_agent = agent, cl_credentials = cr\<rparr>)"

definition async_brief ::
  "memory_client \<Rightarrow> platform \<Rightarrow> int \<Rightarrow> memory_state \<Rightarrow> (exn_name + string) \<times> memory_state" where
  \<comment> \<open>for a client of this agent\<close>
  "async_brief cl pf token_budget st =
     (case brief_detail (cl_credentials cl) pf token_budget st of
        (Inl e, st1) \<Rightarrow> (Inl e, st1)
      | (Inr b, st1) \<Rightarrow> (Inr (bf_text b), st1))"

definition shared_client ::
  "(string \<rightharpoonup> string) \<Rightarrow> memory_client option option \<Rightarrow> memory_client option \<times> memory_client option option" where
  \<comment> \<open>\<open>lru_cache\<close>: the second argument is what an earlier call has left\<close>
  "shared_client source cache =
     (case cache of
        Some client \<Rightarrow> (client, cache)
      | None \<Rightarrow> (let client = async_client_from_env agent_slug source in (client, Some client)))"

text \<open>The environment is read once: whatever it says later, a process keeps its client, or goes on without
  one. A deployment has a client exactly when it names the service and a way to authenticate.\<close>

lemma shared_client_is_kept:
  "shared_client later (snd (shared_client source None)) = shared_client source None"
  "fst (shared_client source None) \<noteq> None \<longleftrightarrow>
     rstrip_char (CHR ''/'') (env_text source ''RUUF_AGENTS_URL'') \<noteq> [] \<and>
     (env_text source ''RUUF_AGENTS_TOKEN'' \<noteq> [] \<or>
      env_text source ''RUUF_AGENTS_M2M_CLIENT_ID'' \<noteq> [] \<and> env_text source ''RUUF_AGENTS_M2M_CLIENT_SECRET'' \<noteq> [])"
  by (auto simp: shared_client_def async_client_from_env_def credentials_from_env_def Let_def)

section \<open>The replica's pool\<close>

definition require_pool :: "replica_state \<Rightarrow> exn_name + unit" where
  "require_pool st = (if db_pool st then Inr () else Inl configuration_error)"

definition run_validated ::
  "app_config \<Rightarrow> query_limits \<Rightarrow> replica_server \<Rightarrow> replica_state \<Rightarrow> validated_sql \<Rightarrow> nat
   \<Rightarrow> (exn_name + query_result) \<times> nat" where
  "run_validated cfg limits sv st sql n = fetch_bounded cfg limits sv st (vs_normalized_sql sql) [] None n"

text \<open>Accepted SQL never reaches a server through a pool that was not started: not even an attempt is made.\<close>

lemma no_pool_no_query:
  "require_pool st = Inl e \<Longrightarrow> run_validated cfg limits sv st sql n = (Inl e, n)"
  by (auto simp: require_pool_def run_validated_def fetch_bounded_def split: if_split_asm)

section \<open>Applications\<close>

record web_server =
  ws_app :: string
  ws_host :: string
  ws_port :: nat
  ws_proxy_headers :: bool
  ws_forwarded_allow_ips :: string
  ws_log_config :: "string option"

definition web_main :: web_server where
  "web_main = \<lparr>ws_app = ''cerebro.main:app'', ws_host = ''0.0.0.0'', ws_port = 8000, ws_proxy_headers = True,
     ws_forwarded_allow_ips = ''*'', ws_log_config = None\<rparr>"

datatype web_answer = Health_answer "(string \<times> string) list" | Ready_answer int readiness | No_route

definition create_app ::
  "string \<Rightarrow> string \<Rightarrow> app_config \<Rightarrow> int \<Rightarrow> readiness_database \<Rightarrow> string \<times> string \<Rightarrow> web_answer" where
  \<comment> \<open>the application as the function from method and path to its answer\<close>
  "create_app version head cfg now rd request =
     (if request = (''GET'', ''/health'') then Health_answer (health_route version cfg)
      else if request = (''GET'', ''/ready'') then (case ready_route head cfg now rd of (answer, report) \<Rightarrow> Ready_answer answer report)
      else No_route)"

record queue_app =
  qa_conninfo :: string
  qa_import_paths :: "string list"

definition make_app :: "app_config \<Rightarrow> queue_app" where
  "make_app cfg = \<lparr>qa_conninfo = procrastinate_conninfo cfg, qa_import_paths = [''cerebro.jobs.tasks'']\<rparr>"

record migration_context =
  mc_url :: string
  mc_literal_binds :: bool
  mc_paramstyle :: "string option"
  mc_include_object :: "string option \<Rightarrow> string \<Rightarrow> bool"

definition run_migrations_offline :: "string option \<Rightarrow> app_config \<Rightarrow> migration_context" where
  \<comment> \<open>the context in which alembic writes the statements\<close>
  "run_migrations_offline main_option cfg =
     \<lparr>mc_url = migration_url main_option cfg, mc_literal_binds = True, mc_paramstyle = Some ''named'',
      mc_include_object = include_object\<rparr>"

section \<open>Entry points of commands\<close>

fun profile_value :: "readiness_profile \<Rightarrow> string" where
  "profile_value Foundation = ''foundation''"
| "profile_value Pilot = ''pilot''"

definition preflight_main ::
  "string \<Rightarrow> app_config \<Rightarrow> string option \<Rightarrow> bool \<Rightarrow> bool \<Rightarrow> preflight_world
   \<Rightarrow> (string \<times> (string \<times> string) list) command_run" where
  \<comment> \<open>the option \<open>--profile\<close>, if given, must be one of the two values\<close>
  "preflight_main head base profile live json w =
     (let text = (case profile of None \<Rightarrow> profile_value Foundation | Some t \<Rightarrow> t) in
      case List.find (\<lambda>p. profile_value p = text) [Foundation, Pilot] of
        None \<Rightarrow> \<lparr>cm_output = [], cm_exit = Usage_error, cm_disposed = False\<rparr>
      | Some p \<Rightarrow> preflight_run head base p live json w)"

definition utc_range :: "int \<times> int" where
  \<comment> \<open>the microseconds since 1970 that a \<open>datetime\<close> can hold\<close>
  "utc_range = (- 62135596800000000, 253402300799999999)"

definition parse_datetime :: "(string \<Rightarrow> exn_name + int \<times> int option) \<Rightarrow> string \<Rightarrow> exn_name + int" where
  \<comment> \<open>\<open>fromisoformat\<close> gives the local time and its offset, both in microseconds\<close>
  "parse_datetime fromisoformat value =
     bindE (fromisoformat (concat (map (\<lambda>c. if c = CHR ''Z'' then ''+00:00'' else [c]) value))) (\<lambda>(local, offset).
       case offset of
         None \<Rightarrow> Inl ''ValueError''
       | Some shift \<Rightarrow>
           (if local - shift < fst utc_range \<or> snd utc_range < local - shift then Inl ''OverflowError''
            else Inr (local - shift)))"

text \<open>A report is about moments, not about local times: two spellings of the same moment give the same
  window, and a time without a zone gives none.\<close>

lemma parsed_moment:
  assumes "parse_datetime fromisoformat value = Inr t"
  shows "\<exists>text local shift. fromisoformat text = Inr (local, Some shift) \<and> t = local - shift
    \<and> fst utc_range \<le> t \<and> t \<le> snd utc_range"
  using assms unfolding parse_datetime_def
  by (cases "fromisoformat (concat (map (\<lambda>c. if c = CHR ''Z'' then ''+00:00'' else [c]) value))")
    (auto split: option.splits if_split_asm, blast)

end
