(* ===== verification/Spec2Isabelle.thy ===== *)
theory Spec2Isabelle
  imports SlackEvents Service Rendering Pipeline Tasks Lifecycle Delivery Identification RunnerProofs Replica Memory Images Gate Evals
    Status Preflight Processes Migrations Logs Prompts Clients BlockingMemory Commands CatalogSql Journey
    Tickets System Answers Wiring
begin

text \<open>
  Cerebro is RUUF's internal agent for payment identification. Colleagues mention it in Slack; it
  stores the event, queues a run, lets a language model investigate over a read-only replica of the
  business database, turns the model's structured answer into an identification whose confidence the
  application computes, and posts a short answer into the thread. This development models the Python
  package \<open>src/api/src/cerebro\<close> (paths below are relative to it).

  \<^bold>\<open>Parts and how they interact\<close>

  An envelope from Slack goes through \<open>slack/socket.py\<close> to the normaliser, whose event the ingestion
  service stores once and hands to the job queue. A worker's task processes the event in one
  transaction: conversation, message, queued run, or feedback. The run pipeline begins the run, reads
  the transcript, ingests the images, calls the agent runner, stores the result and queues an output;
  the delivery claims the output and posts it. A periodic task resubmits what was lost and closes the
  runs of dead workers. The agent runner routes the request, runs one of two specialists over audited
  tools, and maps the answer; the tools read through the replica's data port, whose SQL policy, scope
  and catalogue bound what can be asked. The shared memory, the heartbeats, the readiness routes, the
  reports and the migrations stand beside this path.

  \<^bold>\<open>Theories\<close>

  \<^item> Ground. \<open>Prelude\<close>: strings, words, tables of rows, the collections \<open>text_simps\<close>, \<open>row_simps\<close> and
    \<open>count_bounds\<close>. \<open>Values\<close>: exceptions (\<open>bindE\<close>, \<open>mapE\<close>), Python's numbers and texts, \<open>json.dumps\<close>.
    \<open>Config\<close>: \<open>config.py\<close>. \<open>Models\<close>: \<open>agent/models.py\<close>, \<open>agent/runner.py\<close>, \<open>db/enums.py\<close>.
  \<^item> Ingestion. \<open>SlackEvents\<close>: \<open>slack/events.py\<close>. \<open>Store\<close>: \<open>db/models.py\<close> as tables of rows and
    \<open>jobs/enqueue.py\<close>; the locale \<open>row_table\<close> is the contract of a table and is interpreted on five.
    \<open>Service\<close>: \<open>slack/service.py\<close>; processing an event twice is processing it once.
  \<^item> Runs. \<open>Rendering\<close>: \<open>slack/rendering.py\<close>, with word limits. \<open>Pipeline\<close>: \<open>slack/pipeline.py\<close> and the
    posting call of \<open>slack/gateway.py\<close>; other handlers may act between two transactions
    (\<open>pe_interfere\<close>). \<open>Tasks\<close>: \<open>jobs/tasks.py\<close>. \<open>Lifecycle\<close>: every transaction as a rule of
    \<open>job_step\<close>, which takes what the runs of the schedule may end with (anything, in \<open>db_step\<close>); the
    locale \<open>transaction\<close> derives what holds along every schedule. \<open>Delivery\<close>: what delivery and recovery
    promise. \<open>Tickets\<close>: the shape of every transaction, and the abstract ticket each run refines.
    \<open>Journey\<close>: a worker taking jobs from the queue, from the mention to the answer.
  \<^item> Agent. \<open>DataTools\<close>: \<open>agent/data_tools.py\<close>, with the locale \<open>investigation_port\<close>. \<open>Evidence\<close>,
    \<open>Identification\<close>, \<open>InputItems\<close>, \<open>RunnerLoop\<close>: \<open>agent/openai_runner.py\<close> and \<open>agent/turns.py\<close>;
    \<open>RunnerProofs\<close>: what a whole run guarantees. \<open>Prompts\<close>: \<open>agent/prompt.py\<close>, the texts included.
    \<open>Memory\<close>: \<open>memory_client.py\<close> and \<open>agent/shared_memory.py\<close>; \<open>BlockingMemory\<close>: the synchronous client.
  \<^item> Replica. \<open>Matching\<close>, \<open>ReplicaSql\<close>, \<open>Replica\<close>: \<open>replica/investigation.py\<close>. \<open>Catalog\<close>:
    \<open>replica/catalog.py\<close>. \<open>Scope\<close>: \<open>replica/scope.py\<close>. \<open>SqlPolicy\<close>: \<open>replica/sql_policy.py\<close>.
    \<open>ReplicaDb\<close>: \<open>replica/database.py\<close>. \<open>CatalogSql\<close>: the catalogue queries. \<open>Urls\<close>: \<open>urlsplit\<close> and \<open>parse_qs\<close> as they are used.
  \<^item> Images. \<open>Images\<close>: \<open>slack/images.py\<close>.
  \<^item> The parts together. \<open>System\<close>: the handlers with the runner of the program, and the audit they leave in
    the database. \<open>Answers\<close>: the handlers with the runner and the ingestion of images, from mention to answer.
  \<^item> Operations. \<open>Heartbeats\<close>: \<open>ops/runtime.py\<close>, \<open>ops/readiness.py\<close>, the routes of \<open>main.py\<close>.
    \<open>Preflight\<close>: \<open>ops/preflight.py\<close>. \<open>Status\<close>: \<open>ops/status.py\<close>. \<open>Gate\<close>: \<open>ops/pilot_gate.py\<close>,
    \<open>ops/metrics.py\<close>, \<open>evals/routing.py\<close>. \<open>Evals\<close>: \<open>evals/run.py\<close>. \<open>Logs\<close>: \<open>observability.py\<close>.
    \<open>Processes\<close>: \<open>worker.py\<close>, \<open>slack/socket.py\<close>, \<open>jobs/schema.py\<close>, \<open>db/session.py\<close>. \<open>Clients\<close>: the runner,
    gateway and file client a process keeps, with the locale \<open>client_module\<close>. \<open>Commands\<close>: the command
    lines with their exit statuses. \<open>Wiring\<close>: the requests of the gateway, the applications of \<open>main.py\<close>,
    \<open>web.py\<close> and \<open>jobs/app.py\<close>, and the guards and entry points around the rest.
  \<^item> Schema. \<open>Schema\<close>: the declared tables and the migrations as operations. \<open>Migrations\<close>: what they do
    to a database that holds data.

  \<^bold>\<open>How state and effects correspond\<close>

  A class or dataclass is a record, an enum a datatype, a table the list of its rows in insertion
  order (\<open>db\<close> in \<open>Store\<close>), a session's transaction a function on it that returns the new database or
  the exception (\<open>exn_name + 'a\<close>), in which case nothing is written. Effects on the outside are lists
  of calls in a \<open>world\<close>. A coroutine that awaits is cut where it awaits, and the cuts interleave:
  \<open>pe_interfere\<close> for the pipeline, \<open>job_step\<close> for all workers, \<open>memory_runs\<close> for the shared brief,
  lists of attempts for the heartbeats. A \<open>str\<close> is a HOL string read in the alphabet Windows-1252,
  which holds every literal of the code; a UUID is a number where the code only compares it, its
  canonical text where it is printed or parsed. Integers are unbounded, as in Python. Clocks are
  arguments.

  \<^bold>\<open>Parameters\<close>

  Code outside the repository is an argument. The job queue is \<open>dq\<close>, which accepts, refuses or raises;
  Slack's answers are fields of \<open>pipeline_env\<close> and \<open>slack_files\<close>; the Agents SDK and the model are a
  \<open>script\<close>, any sequence of tool calls and any ending, which \<open>play\<close> executes under the turn limit; the
  replica's server is \<open>replica_server\<close>, numbered by attempt; the SQL parser is the record \<open>sqlglot\<close>; the
  memory platform and its clock are \<open>platform\<close>. Four hypotheses speak about them. \<open>honours_where\<close> says
  that rows returned satisfy the identity condition they were asked for; \<open>answers_like_http\<close> that a
  request ends in an answer, an \<open>HTTPError\<close> or one of the exceptions parsing a body raises; and
  \<open>handled_provider\<close> and \<open>calm_files\<close>, of the progress of the whole program, that the model fails only in
  the ways the SDK documents and that no connection to a file of Slack breaks. Each has a witness. The effect of a schema operation is PostgreSQL's documented one, written out in \<open>Schema\<close>.

  \<^bold>\<open>What is shown\<close>

  \<^item> Safety of answers: a match rests on a tool call of the same run and on evidence whose confidence
    the application computed; no answer can claim absence of a customer without an available search;
    an amount that cannot be right blocks confidence; at most one answer per run, and never one that
    is disabled or superseded.
  \<^item> Confinement: accepted SQL only reads allowed relations, the implementation of the policy is its
    specification, a replica that opens is read-only and unprivileged, the bot token and the memory's
    secrets go only to their addresses, log records carry no sensitive text.
  \<^item> Progress: a new mention is answered in its thread by three jobs without failures, whatever the model
    does within the documented ways; recovery resubmits exactly the pending work, handlers close their
    run, retries and turn budgets are bounded.
  \<^item> Invariants: databases reachable by any schedule are consistent; a finished run never changes; the tool
    calls stored for a run are complete and numbered, and a match has one that succeeded.
  \<^item> Refinement: every schedule is, for each run, a path of an abstract ticket that is asked for, taken and
    settled once; the replica implements the port's contract.
  \<^item> Schema: the migrations build exactly the declared models; each downgrade undoes its upgrade, and
    the exact data that stand in the way are named.
  \<^item> Reports: counts add up, a passing report satisfies its policy, readiness means live components
    and a verified replica, a command exits with zero only if its report passed.
  \<^item> Prompts: the tools a prompt names are offered, and the version a run records says what it knew.

  \<^bold>\<open>Bounds\<close>

  Recursion is structural or has a proved measure, so no definition has fuel and none is partial. A
  script is a finite list of responses and an ending, an answer or an exception; a model that keeps
  asking for tools is a script longer than the turn limit, on which \<open>play\<close> raises \<open>MaxTurnsExceeded\<close> as
  the SDK does. The retries of \<open>fetch_bounded\<close> and the redirects of a download recurse on the constants of
  the code (three attempts, the configured redirects). \<open>work_off\<close> takes at most a given number of jobs:
  three are enough for a mention, one for each job that follows from it.

  \<^bold>\<open>Not modelled\<close>

  Printed forms (\<open>_print_human\<close>), argparse, the drawing of the synthetic screenshot, reading of YAML and
  Markdown files, the construction of SDK objects, the loops of the queue and of the web server, the
  connection of \<open>db/migrations/env.py\<close>, and
  everything outside the Python package (knowledge files, deployment, documentation): these are input
  and output or belong to libraries. Log calls are left out except in \<open>Logs\<close>.
\<close>

end
